(* ===== verification/Raid_Prelude.thy ===== *)
theory Raid_Prelude
  imports Main "HOL-Library.Word"
begin

text \<open>
  Shared vocabulary of the development: the machine integers of the C code, the
  constants of the SPDK block layer that the code names, and generic facts about
  shifts, masks and counters on words.

  Shifts by \<open>strip_size_shift\<close> are \<open>drop_bit\<close> and \<open>push_bit\<close>; the lemma collection
  \<open>word_nat\<close> reads word expressions as natural numbers where they do not wrap.
\<close>

unbundle bit_operations_syntax

type_synonym u8 = "8 word"
type_synonym u32 = "32 word"
type_synonym u64 = "64 word"

text \<open>Return codes are C \<open>int\<close>s; a negative value is an errno of the C library.\<close>

abbreviation ENOMEM :: int where "ENOMEM \<equiv> 12"
abbreviation EBUSY :: int where "EBUSY \<equiv> 16"
abbreviation EEXIST :: int where "EEXIST \<equiv> 17"
abbreviation ENODEV :: int where "ENODEV \<equiv> 19"
abbreviation EINVAL :: int where "EINVAL \<equiv> 22"
abbreviation EPERM :: int where "EPERM \<equiv> 1"
abbreviation EIO :: int where "EIO \<equiv> 5"
abbreviation EALREADY :: int where "EALREADY \<equiv> 114"

abbreviation UINT64_MAX :: u64 where "UINT64_MAX \<equiv> - 1"
abbreviation UINT8_MAX :: u8 where "UINT8_MAX \<equiv> - 1"

text \<open>The I/O types and completion statuses of the bdev layer that the code uses.\<close>

datatype io_type =
  IO_READ | IO_WRITE | IO_UNMAP | IO_FLUSH | IO_RESET | IO_WRITE_ZEROES | IO_ZCOPY
  | IO_ABORT | IO_OTHER nat

datatype io_status = STATUS_SUCCESS | STATUS_FAILED | STATUS_NOMEM

datatype bdev_event = SPDK_BDEV_EVENT_REMOVE | SPDK_BDEV_EVENT_RESIZE | SPDK_BDEV_EVENT_OTHER nat

named_theorems word_nat \<open>word expressions read as natural numbers\<close>

subsection \<open>Shifts and masks as division and remainder\<close>

lemma unat_drop_bit_div [word_nat]: "unat (drop_bit k (w :: 'a::len word)) = unat w div 2 ^ k"
  unfolding unat_drop_bit_eq by (rule drop_bit_eq_div)

lemma unat_div_word [word_nat]: "unat ((a :: 'a::len word) div b) = unat a div unat b"
  by (rule unat_div)

lemma unat_mod_word [word_nat]: "unat ((a :: 'a::len word) mod b) = unat a mod unat b"
  by (rule unat_mod)

lemma unat_plus_no_wrap:
  "unat a + unat b < 2 ^ LENGTH('a) \<Longrightarrow> unat ((a :: 'a::len word) + b) = unat a + unat b"
  by (simp add: unat_word_ariths)

lemma unat_times_no_wrap:
  "unat a * unat b < 2 ^ LENGTH('a) \<Longrightarrow> unat ((a :: 'a::len word) * b) = unat a * unat b"
  by (simp add: unat_word_ariths)

lemma unat_minus_no_wrap:
  "unat b \<le> unat a \<Longrightarrow> unat ((a :: 'a::len word) - b) = unat a - unat b"
  by (simp add: unat_sub word_le_nat_alt)

lemma unat_u8_less [simp]: "unat (n :: u8) < 256"
  using unsigned_less[of n] by simp

lemma unat_u64_less: "unat (w :: u64) < 2 ^ 64"
  by (rule order_less_le_trans[OF unsigned_less]) simp

lemma unat_of_nat_u64: "k < 2 ^ 64 \<Longrightarrow> unat (of_nat k :: u64) = k"
  by (simp add: unat_of_nat)

lemma u8_gt_one: "(n :: u8) > 1 \<longleftrightarrow> n \<noteq> 0 \<and> n \<noteq> 1"
proof -
  have "n = 1 \<longleftrightarrow> unat n = 1" using word_unat_eq_iff[of n 1] by simp
  moreover have "n = 0 \<longleftrightarrow> unat n = 0" using word_unat_eq_iff[of n 0] by (simp only: unsigned_0)
  ultimately show ?thesis by (simp only: word_less_nat_alt unsigned_1) linarith
qed

lemma unat_u8_Suc: "unat s < unat (n :: u8) \<Longrightarrow> unat (s + 1 :: u8) = Suc (unat s)"
proof -
  assume s: "unat s < unat n"
  have "Suc (unat s) < 256" by (rule le_less_trans [OF Suc_leI [OF s] unat_u8_less])
  then have "unat s + unat (1 :: u8) < 2 ^ LENGTH(8)" by simp
  then have "unat (s + 1) = unat s + unat (1 :: u8)" by (rule unat_plus_no_wrap)
  then show ?thesis by simp
qed

lemma unat_u64_of_u8 [simp]: "unat (ucast (n :: u8) :: u64) = unat n"
  by (simp add: unsigned_ucast_eq take_bit_nat_eq_self order.strict_trans [OF unat_u8_less])

lemma unat_u64_of_u32 [simp]: "unat (ucast (n :: u32) :: u64) = unat n"
proof -
  have "unat n < 2 ^ LENGTH(32)" by (rule unsigned_less)
  then show ?thesis by (simp add: unsigned_ucast_eq take_bit_nat_eq_self)
qed

lemma unat_u8_of_u64: "unat (w :: u64) < 256 \<Longrightarrow> unat (ucast w :: u8) = unat w"
  by (simp add: unsigned_ucast_eq take_bit_nat_eq_self)

lemma unat_u8_of_u32: "unat (w :: u32) < 256 \<Longrightarrow> unat (ucast w :: u8) = unat w"
  by (simp add: unsigned_ucast_eq take_bit_nat_eq_self)

lemma unat_u32_of_u8 [simp]: "unat (ucast (n :: u8) :: u32) = unat n"
  by (simp add: unsigned_ucast_eq take_bit_nat_eq_self order.strict_trans [OF unat_u8_less])

lemma unat_u32_of_u64: "unat (w :: u64) < 2 ^ 32 \<Longrightarrow> unat (ucast w :: u32) = unat w"
  by (simp add: unsigned_ucast_eq take_bit_nat_eq_self)

text \<open>A C \<open>int\<close> that is not negative, converted to 64 bits.\<close>

lemma unat_scast_u64: "unat (w :: u32) < 2 ^ 31 \<Longrightarrow> unat (scast w :: u64) = unat w"
proof -
  assume "unat w < 2 ^ 31"
  then have "unat w div 2 ^ 31 = 0" by simp
  then have "\<not> bit (unat w) 31" by (simp only: bit_iff_odd) simp
  then have nb: "\<not> bit w 31" by (simp add: bit_unsigned_iff)
  have "n = 31" if "31 \<le> n" "bit w n" for n
    using bit_imp_le_length[OF that(2)] that(1) by simp
  then have "scast w = (ucast w :: u64)"
    by (intro bit_word_eqI) (use nb in \<open>auto simp: bit_simps min_def not_less\<close>)
  then show ?thesis by simp
qed

lemma len64: "LENGTH(64) = 64"
  by simp

lemma unat_min: "unat (min a b :: 'a::len word) = min (unat a) (unat b)"
  by (simp add: min_def word_le_nat_alt)

lemma unat_push_bit_no_wrap:
  "unat a * 2 ^ k < 2 ^ LENGTH('a) \<Longrightarrow> unat (push_bit k (a :: 'a::len word)) = unat a * 2 ^ k"
  unfolding unsigned_push_bit_eq by (simp add: take_bit_eq_mod push_bit_eq_mult)

lemma all_less_two: "(\<forall>i < (2 :: nat). P i) \<longleftrightarrow> P 0 \<and> P 1"
  by (auto simp: less_2_cases_iff)

subsection \<open>Minima over lists\<close>

lemma foldl_min_Min:
  fixes f :: "'b \<Rightarrow> 'a::linorder"
  assumes "xs \<noteq> []" and "\<And>x. f x \<le> m"
  shows "foldl (\<lambda>m x. min m (f x)) m xs = Min (f ` set xs)"
proof -
  have *: "foldl (\<lambda>m x. min m (f x)) a xs = (if xs = [] then a else min a (Min (f ` set xs)))"
    for a and xs :: "'b list"
    by (induction xs arbitrary: a) (auto simp: min.assoc)
  have "Min (f ` set xs) \<in> f ` set xs" using assms(1) by (intro Min_in) simp_all
  then have "Min (f ` set xs) \<le> m" using assms(2) by auto
  then show ?thesis using assms(1) by (simp only: * if_False min.absorb2)
qed

lemma foldl_min_u64:
  fixes f :: "'b \<Rightarrow> u64"
  assumes "xs \<noteq> []"
  shows "foldl (\<lambda>m x. min m (f x)) UINT64_MAX xs = Min (f ` set xs)"
  by (rule foldl_min_Min[OF assms]) simp

lemma unat_Min_image:
  fixes f :: "'b \<Rightarrow> 'a::len word"
  assumes "finite A" and "A \<noteq> {}"
  shows "unat (Min (f ` A)) = Min ((\<lambda>x. unat (f x)) ` A)"
proof -
  have "mono (unat :: 'a word \<Rightarrow> nat)" by (simp add: mono_def word_le_nat_alt)
  from mono_Min_commute[OF this, of "f ` A"] assms show ?thesis by (simp add: image_image)
qed

text \<open>Rounding down to a multiple of a power of two.\<close>

lemma unat_push_drop_bit:
  "unat (push_bit k (drop_bit k (w :: 'a::len word))) = unat w div 2 ^ k * 2 ^ k"
proof -
  have "unat w div 2 ^ k * 2 ^ k \<le> unat w" by simp
  also have "unat w < 2 ^ LENGTH('a)" by (rule unsigned_less)
  finally have "unat (drop_bit k w) * 2 ^ k < 2 ^ LENGTH('a)"
    by (simp add: unat_drop_bit_div)
  then show ?thesis by (simp add: unat_push_bit_no_wrap unat_drop_bit_div)
qed

end
