(* ===== verification/Raid_Io.thy ===== *)
theory Raid_Io
  imports Raid_Prelude
begin

text \<open>
  The data model of \<open>raid/bdev_raid.h\<close> and the I/O half of \<open>raid/bdev_raid.c\<close>: the raid
  bdev with its base bdev slots, the per-channel array of base channels, the context of one
  raid I/O, partial completion and the wrappers that add a base bdev's data offset.

  A pointer that may be NULL is an \<open>option\<close>; a base bdev descriptor is the name of the bdev it
  opens; a channel is a number. What the code does to the outside is the list \<open>rio_events\<close>, in
  the order in which it happens. The bdev layer below is the parameter \<open>base_io \<Rightarrow> int\<close>: the
  return code of submitting that base I/O in the current activation of the handler (one
  activation submits a base I/O at most once). Assertions are compiled out, as in a release
  build; the lemmas of each component state where they hold.
\<close>

subsection \<open>Enumerations\<close>

datatype raid_level = INVALID_RAID_LEVEL | RAID0 | RAID1 | RAID5F | CONCAT

datatype raid_bdev_state =
  RAID_BDEV_STATE_ONLINE | RAID_BDEV_STATE_CONFIGURING | RAID_BDEV_STATE_OFFLINE
  | RAID_BDEV_STATE_MAX

subsection \<open>Raid bdevs\<close>

record raid_base_bdev_info =
  bi_name :: "string option"
  bi_desc :: "string option"
  data_offset :: u64
  data_size :: u64
  remove_scheduled :: bool
  remove_cb :: "nat option"
  bi_blockcnt :: u64

record concat_block_range =
  range_start :: u64
  range_length :: u64

record raid5f_info =
  stripe_blocks :: u64
  total_stripes :: u64
  buf_alignment :: u64

datatype module_private =
  NoPrivate | ConcatPrivate "concat_block_range list" | Raid1Private | Raid5fPrivate raid5f_info

text \<open>The first ten fields are those of the embedded \<open>struct spdk_bdev\<close> that the code writes. The UUID is as it
  is given at the creation; the bdev layer replaces a null UUID when the bdev is registered.\<close>

type_synonym uuid = "128 word"

record raid_bdev =
  rb_name :: string
  rb_uuid :: uuid
  rb_blockcnt :: u64
  blocklen :: u32
  optimal_io_boundary :: u32
  split_on_optimal_io_boundary :: bool
  write_unit_size :: u32
  split_on_write_unit :: bool
  md_len :: u32
  md_interleave :: bool
  base_bdev_info :: "raid_base_bdev_info list"
  strip_size :: u32
  strip_size_kb :: u32
  strip_size_shift :: u32
  blocklen_shift :: u32
  rb_state :: raid_bdev_state
  num_base_bdevs :: u8
  num_base_bdevs_discovered :: u8
  min_base_bdevs_operational :: u8
  rb_level :: raid_level
  destroy_started :: bool
  superblock_enabled :: bool
  rb_module :: raid_level
  rb_private :: module_private

text \<open>What \<open>calloc\<close> returns for a raid bdev and for the slot of a base bdev.\<close>

definition zero_base_bdev_info :: raid_base_bdev_info where
  "zero_base_bdev_info =
     \<lparr>bi_name = None, bi_desc = None, data_offset = 0, data_size = 0, remove_scheduled = False,
      remove_cb = None, bi_blockcnt = 0\<rparr>"

definition zero_raid_bdev :: raid_bdev where
  "zero_raid_bdev =
     \<lparr>rb_name = [], rb_uuid = 0, rb_blockcnt = 0, blocklen = 0, optimal_io_boundary = 0,
      split_on_optimal_io_boundary = False, write_unit_size = 0, split_on_write_unit = False,
      md_len = 0, md_interleave = False, base_bdev_info = [], strip_size = 0, strip_size_kb = 0,
      strip_size_shift = 0, blocklen_shift = 0, rb_state = RAID_BDEV_STATE_ONLINE,
      num_base_bdevs = 0, num_base_bdevs_discovered = 0, min_base_bdevs_operational = 0,
      rb_level = RAID0, destroy_started = False, superblock_enabled = False, rb_module = RAID0,
      rb_private = NoPrivate\<rparr>"

record raid_bdev_io_channel =
  base_channel :: "nat option list"
  num_channels :: u8
  module_channel :: "nat option"

subsection \<open>Requests\<close>

record iovec =
  iov_base :: nat
  iov_len :: nat

record bdev_io =
  bdev_io_type :: io_type
  offset_blocks :: u64
  num_blocks :: u64
  iovs :: "iovec list"
  md_buf :: "nat option"

text \<open>One call of the bdev layer below, with the slot it goes to.\<close>

record base_io =
  bio_type :: io_type
  bio_slot :: nat
  bio_desc :: "string option"
  bio_ch :: "nat option"
  bio_lba :: u64
  bio_blocks :: u64
  bio_iovs :: "iovec list"
  bio_md :: "nat option"

datatype raid_event = EvSubmit base_io | EvWait nat | EvComplete io_status

record raid_io =
  base_bdev_io_remaining :: u64
  base_bdev_io_submitted :: u8
  base_bdev_io_status :: io_status
  rio_private :: "nat option"
  rio_events :: "raid_event list"

text \<open>
  The counters of a raid I/O as \<open>raid_bdev_submit_request\<close> sets them before it dispatches; the
  record of a new I/O has no events yet.
\<close>

definition raid_io_init :: raid_io where
  "raid_io_init =
     \<lparr>base_bdev_io_remaining = 0, base_bdev_io_submitted = 0,
      base_bdev_io_status = STATUS_SUCCESS, rio_private = None, rio_events = []\<rparr>"

definition rio_emit :: "raid_event \<Rightarrow> raid_io \<Rightarrow> raid_io" where
  "rio_emit e rio = rio\<lparr>rio_events := rio_events rio @ [e]\<rparr>"

subsection \<open>Completion\<close>

definition raid_bdev_io_complete :: "io_status \<Rightarrow> raid_io \<Rightarrow> raid_io" where
  "raid_bdev_io_complete status rio = rio_emit (EvComplete status) rio"

text \<open>The boolean is the C function's result: the raid I/O has been completed.\<close>

definition raid_bdev_io_complete_part ::
  "u64 \<Rightarrow> io_status \<Rightarrow> raid_io \<Rightarrow> bool \<times> raid_io" where
  "raid_bdev_io_complete_part completed status rio =
     (let rio = rio\<lparr>base_bdev_io_remaining := base_bdev_io_remaining rio - completed\<rparr>;
          rio = (if status \<noteq> STATUS_SUCCESS then rio\<lparr>base_bdev_io_status := status\<rparr> else rio)
      in if base_bdev_io_remaining rio = 0
         then (True, raid_bdev_io_complete (base_bdev_io_status rio) rio)
         else (False, rio))"

definition raid_bdev_queue_io_wait :: "nat \<Rightarrow> raid_io \<Rightarrow> raid_io" where
  "raid_bdev_queue_io_wait slot rio = rio_emit (EvWait slot) rio"

definition status_of :: "bool \<Rightarrow> io_status" where
  "status_of success = (if success then STATUS_SUCCESS else STATUS_FAILED)"

subsection \<open>Submission to a base bdev\<close>

text \<open>A base I/O that the layer below accepts (return code 0) is in flight from then on.\<close>

definition bdev_submit :: "(base_io \<Rightarrow> int) \<Rightarrow> base_io \<Rightarrow> raid_io \<Rightarrow> int \<times> raid_io" where
  "bdev_submit rc b rio = (rc b, if rc b = 0 then rio_emit (EvSubmit b) rio else rio)"

text \<open>The layer below dereferences the descriptor and the channel that it is given. A base I/O with a null
  handle is where the program crashes: it is recorded like any other, and what follows it in the model
  is no behaviour of the program.\<close>

definition null_handle :: "base_io \<Rightarrow> bool" where
  "null_handle b \<longleftrightarrow> bio_desc b = None \<or> bio_ch b = None"

definition raid_bdev_readv_blocks_ext ::
  "raid_bdev \<Rightarrow> nat \<Rightarrow> nat option \<Rightarrow> iovec list \<Rightarrow> nat option \<Rightarrow> u64 \<Rightarrow> u64 \<Rightarrow> base_io" where
  "raid_bdev_readv_blocks_ext rb slot ch iov md lba n =
     \<lparr>bio_type = IO_READ, bio_slot = slot, bio_desc = bi_desc (base_bdev_info rb ! slot),
      bio_ch = ch, bio_lba = data_offset (base_bdev_info rb ! slot) + lba, bio_blocks = n,
      bio_iovs = iov, bio_md = md\<rparr>"

definition raid_bdev_writev_blocks_ext ::
  "raid_bdev \<Rightarrow> nat \<Rightarrow> nat option \<Rightarrow> iovec list \<Rightarrow> nat option \<Rightarrow> u64 \<Rightarrow> u64 \<Rightarrow> base_io" where
  "raid_bdev_writev_blocks_ext rb slot ch iov md lba n =
     \<lparr>bio_type = IO_WRITE, bio_slot = slot, bio_desc = bi_desc (base_bdev_info rb ! slot),
      bio_ch = ch, bio_lba = data_offset (base_bdev_info rb ! slot) + lba, bio_blocks = n,
      bio_iovs = iov, bio_md = md\<rparr>"

definition raid_bdev_unmap_blocks ::
  "raid_bdev \<Rightarrow> nat \<Rightarrow> nat option \<Rightarrow> u64 \<Rightarrow> u64 \<Rightarrow> base_io" where
  "raid_bdev_unmap_blocks rb slot ch lba n =
     \<lparr>bio_type = IO_UNMAP, bio_slot = slot, bio_desc = bi_desc (base_bdev_info rb ! slot),
      bio_ch = ch, bio_lba = data_offset (base_bdev_info rb ! slot) + lba, bio_blocks = n,
      bio_iovs = [], bio_md = None\<rparr>"

definition raid_bdev_flush_blocks ::
  "raid_bdev \<Rightarrow> nat \<Rightarrow> nat option \<Rightarrow> u64 \<Rightarrow> u64 \<Rightarrow> base_io" where
  "raid_bdev_flush_blocks rb slot ch lba n =
     \<lparr>bio_type = IO_FLUSH, bio_slot = slot, bio_desc = bi_desc (base_bdev_info rb ! slot),
      bio_ch = ch, bio_lba = data_offset (base_bdev_info rb ! slot) + lba, bio_blocks = n,
      bio_iovs = [], bio_md = None\<rparr>"

definition spdk_bdev_reset_io :: "raid_bdev \<Rightarrow> nat \<Rightarrow> nat option \<Rightarrow> base_io" where
  "spdk_bdev_reset_io rb slot ch =
     \<lparr>bio_type = IO_RESET, bio_slot = slot, bio_desc = bi_desc (base_bdev_info rb ! slot),
      bio_ch = ch, bio_lba = 0, bio_blocks = 0, bio_iovs = [], bio_md = None\<rparr>"

text \<open>The set of blocks of a base I/O, in the data area of its base bdev.\<close>

definition base_io_blocks :: "raid_bdev \<Rightarrow> base_io \<Rightarrow> nat set" where
  "base_io_blocks rb b =
     {unat (bio_lba b - data_offset (base_bdev_info rb ! bio_slot b)) ..<
      unat (bio_lba b - data_offset (base_bdev_info rb ! bio_slot b)) + unat (bio_blocks b)}"

subsection \<open>Facts about completion\<close>

lemma raid_bdev_io_complete_simps [simp]:
  "base_bdev_io_remaining (raid_bdev_io_complete st rio) = base_bdev_io_remaining rio"
  "base_bdev_io_submitted (raid_bdev_io_complete st rio) = base_bdev_io_submitted rio"
  "base_bdev_io_status (raid_bdev_io_complete st rio) = base_bdev_io_status rio"
  "rio_private (raid_bdev_io_complete st rio) = rio_private rio"
  "rio_events (raid_bdev_io_complete st rio) = rio_events rio @ [EvComplete st]"
  by (simp_all add: raid_bdev_io_complete_def rio_emit_def)

lemma rio_emit_simps [simp]:
  "base_bdev_io_remaining (rio_emit e rio) = base_bdev_io_remaining rio"
  "base_bdev_io_submitted (rio_emit e rio) = base_bdev_io_submitted rio"
  "base_bdev_io_status (rio_emit e rio) = base_bdev_io_status rio"
  "rio_private (rio_emit e rio) = rio_private rio"
  "rio_events (rio_emit e rio) = rio_events rio @ [e]"
  by (simp_all add: rio_emit_def)

lemma status_of_simps [simp]:
  "status_of True = STATUS_SUCCESS" "status_of False = STATUS_FAILED"
  by (simp_all add: status_of_def)

lemma status_of_eq_success [simp]: "status_of b = STATUS_SUCCESS \<longleftrightarrow> b"
  by (cases b) simp_all

lemma complete_part_remaining [simp]:
  "base_bdev_io_remaining (snd (raid_bdev_io_complete_part c st rio)) =
     base_bdev_io_remaining rio - c"
  by (simp add: raid_bdev_io_complete_part_def Let_def)

lemma complete_part_submitted [simp]:
  "base_bdev_io_submitted (snd (raid_bdev_io_complete_part c st rio)) =
     base_bdev_io_submitted rio"
  by (simp add: raid_bdev_io_complete_part_def Let_def)

lemma complete_part_private [simp]:
  "rio_private (snd (raid_bdev_io_complete_part c st rio)) = rio_private rio"
  by (simp add: raid_bdev_io_complete_part_def Let_def)

lemma complete_part_status [simp]:
  "base_bdev_io_status (snd (raid_bdev_io_complete_part c st rio)) =
     (if st = STATUS_SUCCESS then base_bdev_io_status rio else st)"
  by (simp add: raid_bdev_io_complete_part_def Let_def)

lemma complete_part_events [simp]:
  "rio_events (snd (raid_bdev_io_complete_part c st rio)) =
     rio_events rio @
       (if base_bdev_io_remaining rio = c
        then [EvComplete (if st = STATUS_SUCCESS then base_bdev_io_status rio else st)] else [])"
  by (simp add: raid_bdev_io_complete_part_def Let_def)

lemma complete_part_result [simp]:
  "fst (raid_bdev_io_complete_part c st rio) \<longleftrightarrow> base_bdev_io_remaining rio = c"
  by (simp add: raid_bdev_io_complete_part_def Let_def)

end
