(* ===== verification/Raid5f_Geometry.thy ===== *)
theory Raid5f_Geometry
  imports Raid_Io
begin

text \<open>
  The layout of \<open>raid/raid5f.c\<close>: which chunk of a stripe holds the parity, on which base bdev and
  at which block a logical block lies, and the sizes that \<open>raid5f_start\<close> computes. \<open>raid5f_map\<close> is
  the reference address map on natural numbers; the theorems relate the code's word arithmetic to it.
\<close>

subsection \<open>Chunks of a stripe\<close>

definition raid5f_stripe_data_chunks_num :: "raid_bdev \<Rightarrow> u8" where
  "raid5f_stripe_data_chunks_num rb = min_base_bdevs_operational rb"

definition raid5f_stripe_parity_chunk_index :: "raid_bdev \<Rightarrow> u64 \<Rightarrow> u8" where
  "raid5f_stripe_parity_chunk_index rb stripe_index =
     ucast (ucast (raid5f_stripe_data_chunks_num rb) - stripe_index mod ucast (num_base_bdevs rb) :: u64)"

text \<open>
  The address computation that \<open>raid5f_submit_read_request\<close> and \<open>raid5f_chunk_read_complete\<close> share:
  the chunk of a block of the stripe and the offset in the chunk. \<open>chunk_data_idx\<close> is a byte, so its
  shift is one of C \<open>int\<close>.
\<close>

definition raid5f_chunk_data_idx :: "raid_bdev \<Rightarrow> u64 \<Rightarrow> u8" where
  "raid5f_chunk_data_idx rb stripe_offset = ucast (drop_bit (unat (strip_size_shift rb)) stripe_offset)"

definition raid5f_chunk_idx :: "raid_bdev \<Rightarrow> u64 \<Rightarrow> u64 \<Rightarrow> u8" where
  "raid5f_chunk_idx rb stripe_index stripe_offset =
     (let chunk_data_idx = raid5f_chunk_data_idx rb stripe_offset;
          p_idx = raid5f_stripe_parity_chunk_index rb stripe_index
      in if chunk_data_idx < p_idx then chunk_data_idx else chunk_data_idx + 1)"

definition raid5f_chunk_offset :: "raid_bdev \<Rightarrow> u64 \<Rightarrow> u64" where
  "raid5f_chunk_offset rb stripe_offset =
     stripe_offset -
       scast (push_bit (unat (strip_size_shift rb)) (ucast (raid5f_chunk_data_idx rb stripe_offset) :: u32))"

subsection \<open>Start and stop\<close>

text \<open>\<open>buf_align\<close> is \<open>spdk_bdev_get_buf_align\<close> of the bdev behind a slot. \<open>raid5f_start\<close> ends by
  registering its info as an I/O device.\<close>

definition raid5f_start :: "bool \<Rightarrow> (raid_base_bdev_info \<Rightarrow> u64) \<Rightarrow> raid_bdev \<Rightarrow> int \<times> raid_bdev" where
  "raid5f_start alloc_ok buf_align rb =
     (if \<not> alloc_ok then (- ENOMEM, rb)
      else
        (let min_blockcnt = foldl (\<lambda>m info. min m (data_size info)) UINT64_MAX (base_bdev_info rb);
             alignment = foldl (\<lambda>a info. max a (buf_align info)) 0 (base_bdev_info rb);
             base_bdev_data_size = (min_blockcnt div ucast (strip_size rb)) * ucast (strip_size rb);
             rb = rb\<lparr>base_bdev_info :=
                        map (\<lambda>info. info\<lparr>data_size := base_bdev_data_size\<rparr>) (base_bdev_info rb)\<rparr>;
             total = min_blockcnt div ucast (strip_size rb);
             stripe = ucast (strip_size rb * ucast (raid5f_stripe_data_chunks_num rb) :: u32) :: u64
         in (0, rb\<lparr>rb_blockcnt := stripe * total,
                   optimal_io_boundary := strip_size rb,
                   split_on_optimal_io_boundary := True,
                   write_unit_size := ucast stripe,
                   split_on_write_unit := True,
                   rb_private := Raid5fPrivate
                     \<lparr>stripe_blocks = stripe, total_stripes = total, buf_alignment = alignment\<rparr>\<rparr>)))"

text \<open>The module stops when its I/O device is gone: \<open>raid5f_io_device_unregister_done\<close> calls
  \<open>raid_bdev_module_stop_done\<close>, here the parameter.\<close>

definition raid5f_stop :: "raid_bdev \<Rightarrow> bool \<times> raid_bdev" where
  "raid5f_stop rb = (False, rb)"

definition raid5f_io_device_unregister_done :: "(raid_bdev \<Rightarrow> 'w) \<Rightarrow> raid_bdev \<Rightarrow> 'w" where
  "raid5f_io_device_unregister_done stop_done rb = stop_done (rb\<lparr>rb_private := NoPrivate\<rparr>)"

subsection \<open>The reference map\<close>

text \<open>\<open>s\<close> blocks per strip, \<open>n\<close> base bdevs.\<close>

definition raid5f_parity :: "nat \<Rightarrow> nat \<Rightarrow> nat" where
  "raid5f_parity n stripe = n - 1 - stripe mod n"

definition raid5f_map :: "nat \<Rightarrow> nat \<Rightarrow> nat \<Rightarrow> nat \<times> nat" where
  "raid5f_map s n x =
     (let stripe = x div (s * (n - 1));
          off = x mod (s * (n - 1));
          d = off div s
      in (if d < raid5f_parity n stripe then d else d + 1, stripe * s + off mod s))"

definition raid5f_unmap :: "nat \<Rightarrow> nat \<Rightarrow> nat \<times> nat \<Rightarrow> nat" where
  "raid5f_unmap s n p =
     (case p of (slot, l) \<Rightarrow>
        l div s * (s * (n - 1)) +
        (if slot < raid5f_parity n (l div s) then slot else slot - 1) * s + l mod s)"

lemma div_mod_unique:
  fixes q m r :: nat
  assumes "r < m" shows "(q * m + r) div m = q" "(q * m + r) mod m = r"
  using assms by simp_all

lemma parity_less: "0 < n \<Longrightarrow> raid5f_parity n stripe < n"
  by (simp add: raid5f_parity_def)

lemma raid5f_map_props:
  assumes s: "0 < s" and n: "1 < n"
  shows "fst (raid5f_map s n x) < n" and "snd (raid5f_map s n x) div s = x div (s * (n - 1))"
    and "fst (raid5f_map s n x) \<noteq> raid5f_parity n (snd (raid5f_map s n x) div s)"
    and "raid5f_unmap s n (raid5f_map s n x) = x"
proof -
  define stripe where "stripe = x div (s * (n - 1))"
  define off where "off = x mod (s * (n - 1))"
  have off: "off < s * (n - 1)" using s n by (simp add: off_def)
  then have d: "off div s < n - 1" by (simp add: less_mult_imp_div_less mult.commute)
  have m: "raid5f_map s n x =
      (if off div s < raid5f_parity n stripe then off div s else off div s + 1, stripe * s + off mod s)"
    by (simp add: raid5f_map_def Let_def stripe_def off_def)
  have snd: "snd (raid5f_map s n x) div s = stripe" using s by (simp add: m)
  then show "snd (raid5f_map s n x) div s = x div (s * (n - 1))" by (simp add: stripe_def)
  show "fst (raid5f_map s n x) < n" using d n by (auto simp: m)
  show "fst (raid5f_map s n x) \<noteq> raid5f_parity n (snd (raid5f_map s n x) div s)"
    unfolding snd by (simp add: m)
  have "raid5f_unmap s n (raid5f_map s n x) = stripe * (s * (n - 1)) + off div s * s + off mod s"
    using s by (simp add: m raid5f_unmap_def)
  also have "\<dots> = x"
    by (simp only: add.assoc div_mult_mod_eq) (simp only: stripe_def off_def div_mult_mod_eq)
  finally show "raid5f_unmap s n (raid5f_map s n x) = x" .
qed

lemma raid5f_map_unmap:
  assumes s: "0 < s" and slot: "slot < n" "slot \<noteq> raid5f_parity n (l div s)"
  shows "raid5f_map s n (raid5f_unmap s n (slot, l)) = (slot, l)"
proof -
  define d where "d = (if slot < raid5f_parity n (l div s) then slot else slot - 1)"
  have p: "raid5f_parity n (l div s) \<le> n - 1" by (simp add: raid5f_parity_def)
  have d: "d < n - 1" using slot p by (auto simp: d_def)
  have "d * s + l mod s < (d + 1) * s" using s by simp
  also have "\<dots> \<le> (n - 1) * s" using d by (intro mult_right_mono) simp_all
  finally have small: "d * s + l mod s < s * (n - 1)" by (simp only: mult.commute)
  have x: "raid5f_unmap s n (slot, l) = l div s * (s * (n - 1)) + (d * s + l mod s)"
    by (simp add: raid5f_unmap_def d_def)
  have "raid5f_unmap s n (slot, l) div (s * (n - 1)) = l div s"
    "raid5f_unmap s n (slot, l) mod (s * (n - 1)) = d * s + l mod s"
    unfolding x using div_mod_unique[OF small] by simp_all
  moreover have "(d * s + l mod s) div s = d" "(d * s + l mod s) mod s = l mod s" using s by simp_all
  moreover have "(if d < raid5f_parity n (l div s) then d else d + 1) = slot"
    using slot by (auto simp: d_def)
  ultimately show ?thesis
    unfolding raid5f_map_def Let_def by (simp only: div_mult_mod_eq)
qed

subsection \<open>The code's arithmetic\<close>

text \<open>A started raid5f bdev: one parity chunk, strips of a power of two of blocks, stripes that a C
  \<open>int\<close> can count.\<close>

definition raid5f_geometry :: "raid_bdev \<Rightarrow> bool" where
  "raid5f_geometry rb \<longleftrightarrow>
     1 < unat (num_base_bdevs rb) \<and>
     unat (min_base_bdevs_operational rb) = unat (num_base_bdevs rb) - 1 \<and>
     unat (strip_size_shift rb) < 32 \<and>
     unat (strip_size rb) = 2 ^ unat (strip_size_shift rb) \<and>
     unat (strip_size rb) * unat (num_base_bdevs rb) < 2 ^ 31"

lemma raid5f_parity_index:
  assumes g: "raid5f_geometry rb"
  shows "unat (raid5f_stripe_parity_chunk_index rb stripe) =
    raid5f_parity (unat (num_base_bdevs rb)) (unat stripe)"
proof -
  let ?n = "unat (num_base_bdevs rb)"
  have n: "1 < ?n" and d: "unat (min_base_bdevs_operational rb) = ?n - 1"
    using g by (simp_all add: raid5f_geometry_def)
  have m: "unat (stripe mod ucast (num_base_bdevs rb)) = unat stripe mod ?n"
    by (simp add: unat_mod_word)
  have le: "unat stripe mod ?n \<le> ?n - 1"
    using n mod_less_divisor[of ?n "unat stripe"] by linarith
  have "unat (ucast (raid5f_stripe_data_chunks_num rb) - stripe mod ucast (num_base_bdevs rb) :: u64) =
      ?n - 1 - unat stripe mod ?n"
    by (subst unat_minus_no_wrap) (simp_all only: raid5f_stripe_data_chunks_num_def unat_u64_of_u8 d m le)
  moreover have "?n - 1 - unat stripe mod ?n < 256" using unat_u8_less[of "num_base_bdevs rb"] by linarith
  ultimately show ?thesis
    unfolding raid5f_stripe_parity_chunk_index_def raid5f_parity_def
    by (metis unat_u8_of_u64)
qed

text \<open>The position in a stripe.\<close>

lemma raid5f_chunk_position:
  assumes g: "raid5f_geometry rb"
    and off: "unat off < unat (strip_size rb) * (unat (num_base_bdevs rb) - 1)"
  shows "unat (raid5f_chunk_data_idx rb off) = unat off div unat (strip_size rb)"
    and "unat off div unat (strip_size rb) < unat (num_base_bdevs rb) - 1"
    and "unat (raid5f_chunk_offset rb off) = unat off mod unat (strip_size rb)"
proof -
  let ?n = "unat (num_base_bdevs rb)" and ?s = "unat (strip_size rb)" and ?k = "unat (strip_size_shift rb)"
  have s: "?s = 2 ^ ?k" and n: "1 < ?n" and lim: "?s * ?n < 2 ^ 31" and k: "?k < 32"
    using g unfolding raid5f_geometry_def by blast+
  have pos: "0 < ?s" using s by simp
  show d: "unat off div ?s < ?n - 1"
    using off by (simp add: less_mult_imp_div_less mult.commute)
  have "unat (drop_bit ?k off) = unat off div ?s" by (simp only: unat_drop_bit_div s)
  moreover have "unat off div ?s < 256" using d unat_u8_less[of "num_base_bdevs rb"] by linarith
  ultimately show idx: "unat (raid5f_chunk_data_idx rb off) = unat off div ?s"
    unfolding raid5f_chunk_data_idx_def by (metis unat_u8_of_u64)
  define i where "i = (ucast (raid5f_chunk_data_idx rb off) :: u32)"
  have i: "unat i = unat off div ?s" by (simp add: i_def idx)
  have "unat off div ?s * ?s \<le> ?n * ?s" using d by (intro mult_right_mono) simp_all
  then have small: "unat off div ?s * ?s < 2 ^ 31" using lim by (simp only: mult.commute[of ?n])
  then have "unat i * 2 ^ ?k < 2 ^ LENGTH(32)" by (simp add: i s)
  then have sh: "unat (push_bit ?k i) = unat off div ?s * ?s"
    by (simp only: unat_push_bit_no_wrap i s)
  then have sc: "unat (scast (push_bit ?k i) :: u64) = unat off div ?s * ?s"
    using small by (simp only: unat_scast_u64)
  have le: "unat off div ?s * ?s \<le> unat off" by simp
  then have "unat (off - scast (push_bit ?k i)) = unat off - unat off div ?s * ?s"
    by (subst unat_minus_no_wrap) (simp_all only: sc)
  then show "unat (raid5f_chunk_offset rb off) = unat off mod ?s"
    unfolding raid5f_chunk_offset_def i_def[symmetric] by (simp only: minus_div_mult_eq_mod)
qed

definition raid5f_info_of :: "raid_bdev \<Rightarrow> raid5f_info" where
  "raid5f_info_of rb =
     (case rb_private rb of
        Raid5fPrivate i \<Rightarrow> i | _ \<Rightarrow> \<lparr>stripe_blocks = 0, total_stripes = 0, buf_alignment = 0\<rparr>)"

definition raid5f_sized :: "raid_bdev \<Rightarrow> nat \<Rightarrow> bool" where
  "raid5f_sized rb strips \<longleftrightarrow>
     unat (stripe_blocks (raid5f_info_of rb)) = unat (strip_size rb) * (unat (num_base_bdevs rb) - 1) \<and>
     unat (total_stripes (raid5f_info_of rb)) = strips \<and>
     (\<forall>info \<in> set (base_bdev_info rb). unat (data_size info) = strips * unat (strip_size rb)) \<and>
     unat (rb_blockcnt rb) = strips * (unat (strip_size rb) * (unat (num_base_bdevs rb) - 1))"

text \<open>Where a block lies, as the code computes it.\<close>

definition raid5f_slot :: "raid_bdev \<Rightarrow> u64 \<Rightarrow> u8" where
  "raid5f_slot rb off =
     raid5f_chunk_idx rb (off div stripe_blocks (raid5f_info_of rb)) (off mod stripe_blocks (raid5f_info_of rb))"

definition raid5f_lba :: "raid_bdev \<Rightarrow> u64 \<Rightarrow> u64" where
  "raid5f_lba rb off =
     push_bit (unat (strip_size_shift rb)) (off div stripe_blocks (raid5f_info_of rb)) +
     raid5f_chunk_offset rb (off mod stripe_blocks (raid5f_info_of rb))"

lemma raid5f_code_map:
  assumes g: "raid5f_geometry rb" and sz: "raid5f_sized rb strips"
  shows "raid5f_map (unat (strip_size rb)) (unat (num_base_bdevs rb)) (unat off) =
    (unat (raid5f_slot rb off), unat (raid5f_lba rb off))"
proof -
  let ?n = "unat (num_base_bdevs rb)" and ?s = "unat (strip_size rb)" and ?k = "unat (strip_size_shift rb)"
  let ?sb = "?s * (?n - 1)"
  have s: "?s = 2 ^ ?k" and n: "1 < ?n" using g unfolding raid5f_geometry_def by blast+
  have pos: "0 < ?s" using s by simp
  define si where "si = off div stripe_blocks (raid5f_info_of rb)"
  define so where "so = off mod stripe_blocks (raid5f_info_of rb)"
  have sb: "unat (stripe_blocks (raid5f_info_of rb)) = ?sb" using sz by (simp add: raid5f_sized_def)
  have si: "unat si = unat off div ?sb" and so: "unat so = unat off mod ?sb"
    by (simp_all only: si_def so_def unat_div_word unat_mod_word sb)
  have lt: "unat so < ?sb" using pos n by (simp add: so)
  note pos5 = raid5f_chunk_position[OF g lt]
  have par: "unat (raid5f_stripe_parity_chunk_index rb si) = raid5f_parity ?n (unat si)"
    by (rule raid5f_parity_index[OF g])
  have "unat (raid5f_chunk_idx rb si so) =
      (if unat so div ?s < raid5f_parity ?n (unat si) then unat so div ?s else unat so div ?s + 1)"
  proof (cases "unat so div ?s < raid5f_parity ?n (unat si)")
    case True
    then show ?thesis by (simp add: raid5f_chunk_idx_def Let_def word_less_nat_alt pos5(1) par)
  next
    case False
    have "unat (raid5f_chunk_data_idx rb so) < unat (num_base_bdevs rb)" using pos5(1,2) by linarith
    from unat_u8_Suc[OF this] False show ?thesis
      by (simp add: raid5f_chunk_idx_def Let_def word_less_nat_alt pos5(1) par)
  qed
  then have 1: "unat (raid5f_slot rb off) = fst (raid5f_map ?s ?n (unat off))"
    by (simp add: raid5f_slot_def raid5f_map_def Let_def si_def[symmetric] so_def[symmetric] si so)
  have "unat off div ?sb * ?s \<le> unat off div ?sb * ?sb"
    using n by (intro mult_left_mono) (auto simp: Suc_le_eq)
  then have le: "unat off div ?sb * ?s + unat so mod ?s \<le> unat off"
    using so mod_less_eq_dividend[of "unat so" ?s] div_mult_mod_eq[of "unat off" ?sb] by linarith
  also have "unat off < 2 ^ 64" using unsigned_less[of off] by simp
  finally have fit: "unat off div ?sb * ?s + unat so mod ?s < 2 ^ 64" .
  have prod: "unat si * 2 ^ ?k = unat off div ?sb * ?s" by (simp only: si s)
  also have "\<dots> < 2 ^ LENGTH(64)" using fit unfolding len64 by linarith
  finally have sh: "unat (push_bit ?k si) = unat off div ?sb * ?s"
    by (simp only: unat_push_bit_no_wrap prod)
  have 2: "unat (raid5f_lba rb off) = snd (raid5f_map ?s ?n (unat off))"
    unfolding raid5f_lba_def si_def[symmetric] so_def[symmetric] raid5f_map_def Let_def snd_conv
    by (subst unat_plus_no_wrap) (use fit in \<open>simp_all only: sh pos5(3) so len64\<close>)
  show ?thesis by (simp add: prod_eq_iff 1 2)
qed

text \<open>\<open>raid5f_start\<close> succeeds when its allocation does and makes a bdev of whole stripes: every base
  bdev gives as many whole strips as the smallest one has, the raid bdev is as large as all strips
  but one of each stripe, requests are split at strips and writes to whole stripes.\<close>

theorem raid5f_start_sizes:
  assumes g: "raid5f_geometry rb" and ne: "base_bdev_info rb \<noteq> []"
    and fit: "unat (num_base_bdevs rb) *
      Min ((\<lambda>i. unat (data_size i)) ` set (base_bdev_info rb)) < 2 ^ 64"
  shows "raid5f_start False al rb = (- ENOMEM, rb) \<and> fst (raid5f_start True al rb) = 0 \<and>
    raid5f_sized (snd (raid5f_start True al rb))
      (Min ((\<lambda>i. unat (data_size i)) ` set (base_bdev_info rb)) div unat (strip_size rb)) \<and>
    raid5f_geometry (snd (raid5f_start True al rb)) \<and>
    optimal_io_boundary (snd (raid5f_start True al rb)) = strip_size rb \<and>
    unat (write_unit_size (snd (raid5f_start True al rb))) =
      unat (strip_size rb) * (unat (num_base_bdevs rb) - 1)"
proof -
  let ?n = "unat (num_base_bdevs rb)" and ?s = "unat (strip_size rb)"
  let ?m = "Min ((\<lambda>i. unat (data_size i)) ` set (base_bdev_info rb))"
  have d: "unat (min_base_bdevs_operational rb) = ?n - 1" and n: "1 < ?n" and lim: "?s * ?n < 2 ^ 31"
    using g unfolding raid5f_geometry_def by blast+
  have "unat (foldl (\<lambda>m info. min m (data_size info)) UINT64_MAX (base_bdev_info rb)) = ?m"
    using ne by (simp add: foldl_min_u64 unat_Min_image)
  then have tot: "unat (foldl (\<lambda>m info. min m (data_size info)) UINT64_MAX (base_bdev_info rb)
      div ucast (strip_size rb)) = ?m div ?s"
    by (simp only: unat_div_word unat_u64_of_u32)
  have "?s * (?n - 1) \<le> ?s * ?n" by simp
  then have sb31: "?s * (?n - 1) < 2 ^ 31" using lim by (rule le_less_trans)
  have sb: "unat (strip_size rb * ucast (raid5f_stripe_data_chunks_num rb) :: u32) = ?s * (?n - 1)"
    by (subst unat_times_no_wrap)
       (use sb31 in \<open>simp_all add: raid5f_stripe_data_chunks_num_def d\<close>)
  have le: "?m div ?s * ?s \<le> ?m" by simp
  have "?m div ?s * (?s * (?n - 1)) = ?m div ?s * ?s * (?n - 1)" by (simp only: mult.assoc)
  also have "\<dots> \<le> ?m * ?n" using le by (intro mult_mono) simp_all
  also have "?m * ?n < 2 ^ 64" using fit by (simp only: mult.commute)
  finally have "?m div ?s * (?s * (?n - 1)) < 2 ^ 64" .
  then have bc: "?s * (?n - 1) * (?m div ?s) < 2 ^ 64" by (simp only: mult.commute)
  have m64: "?m < 2 ^ 64"
  proof -
    have "?m \<in> (\<lambda>i. unat (data_size i)) ` set (base_bdev_info rb)" using ne by (intro Min_in) simp_all
    then obtain i :: raid_base_bdev_info where "?m = unat (data_size i)" by auto
    then show ?thesis using unsigned_less[of "data_size i"] by simp
  qed
  define total where "total = foldl (\<lambda>m info. min m (data_size info)) UINT64_MAX (base_bdev_info rb)
      div ucast (strip_size rb)"
  have t: "unat total = ?m div ?s" unfolding total_def by (rule tot)
  have "?m div ?s * ?s < 2 ^ LENGTH(64)" using le m64 unfolding len64 by linarith
  then have ds: "unat (total * ucast (strip_size rb)) = ?m div ?s * ?s"
    using unat_times_no_wrap[of total "ucast (strip_size rb)"] by (simp only: t unat_u64_of_u32)
  have blk: "unat (ucast (strip_size rb * ucast (raid5f_stripe_data_chunks_num rb) :: u32) * total) =
      ?m div ?s * (?s * (?n - 1))"
    by (subst unat_times_no_wrap)
       (use bc in \<open>simp_all only: t unat_u64_of_u32 sb len64 mult.commute\<close>)
  define r where "r = snd (raid5f_start True al rb)"
  note raw = raid5f_stripe_data_chunks_num_def total_def
  have f: "num_base_bdevs r = num_base_bdevs rb" "strip_size r = strip_size rb"
    "min_base_bdevs_operational r = min_base_bdevs_operational rb"
    "strip_size_shift r = strip_size_shift rb" "optimal_io_boundary r = strip_size rb"
    "base_bdev_info r =
      map (\<lambda>info. info\<lparr>data_size := total * ucast (strip_size rb)\<rparr>) (base_bdev_info rb)"
    "rb_blockcnt r = ucast (strip_size rb * ucast (raid5f_stripe_data_chunks_num rb) :: u32) * total"
    "stripe_blocks (raid5f_info_of r) = ucast (strip_size rb * ucast (raid5f_stripe_data_chunks_num rb) :: u32)"
    "total_stripes (raid5f_info_of r) = total"
    "write_unit_size r = ucast (ucast (strip_size rb * ucast (raid5f_stripe_data_chunks_num rb) :: u32) :: u64)"
    by (simp_all add: r_def raid5f_start_def Let_def raid5f_info_of_def raw)
  have "raid5f_geometry r" using g unfolding raid5f_geometry_def f .
  moreover have "raid5f_sized r (?m div ?s)"
    unfolding raid5f_sized_def f by (simp add: t sb ds blk)
  moreover have "unat (write_unit_size r) = ?s * (?n - 1)"
    unfolding f by (subst unat_u32_of_u64) (use sb31 sb in simp_all)
  ultimately show ?thesis
    unfolding r_def[symmetric] by (simp add: raid5f_start_def Let_def f(5))
qed

lemma raid5f_unmap_less:
  assumes s: "0 < s" and n: "1 < n" and slot: "slot < n" "slot \<noteq> raid5f_parity n (l div s)"
    and l: "l < strips * s"
  shows "raid5f_unmap s n (slot, l) < strips * (s * (n - 1))"
proof -
  have "fst (raid5f_map s n (raid5f_unmap s n (slot, l))) = slot"
    "snd (raid5f_map s n (raid5f_unmap s n (slot, l))) = l"
    by (simp_all add: raid5f_map_unmap[OF s slot])
  then have "raid5f_unmap s n (slot, l) div (s * (n - 1)) = l div s"
    using raid5f_map_props(2)[OF s n, of "raid5f_unmap s n (slot, l)"] by simp
  also have "\<dots> < strips" using l by (simp add: less_mult_imp_div_less)
  finally show ?thesis
    using s n by (subst (asm) div_less_iff_less_mult) simp_all
qed

text \<open>The place of a block and the block of a place, in the types of the code. A place is a data place when its
  slot is not the one of the parity of its stripe.\<close>

lemma raid5f_lba_parity:
  assumes "raid5f_geometry rb" and "raid5f_sized rb strips" and "l < strips * unat (strip_size rb)"
  shows "unat (raid5f_stripe_parity_chunk_index rb (of_nat (l div unat (strip_size rb)))) =
    raid5f_parity (unat (num_base_bdevs rb)) (l div unat (strip_size rb))"
proof -
  have "strips < 2 ^ 64"
    using assms(2) unat_u64_less[of "total_stripes (raid5f_info_of rb)"] unfolding raid5f_sized_def by blast
  moreover have "l div unat (strip_size rb) < strips" using assms(3) by (simp add: less_mult_imp_div_less)
  ultimately have "unat (of_nat (l div unat (strip_size rb)) :: u64) = l div unat (strip_size rb)"
    by (intro unat_of_nat_u64) simp
  then show ?thesis
    using raid5f_parity_index[OF assms(1), of "of_nat (l div unat (strip_size rb))"] by (simp only:)
qed

lemma raid5f_place_of_block:
  fixes rb :: raid_bdev
  defines "n \<equiv> unat (num_base_bdevs rb)" and "s \<equiv> unat (strip_size rb)"
  assumes g: "raid5f_geometry rb" and sz: "raid5f_sized rb strips" and off: "off < rb_blockcnt rb"
  shows "\<exists>slot l. raid5f_map s n (unat off) = (slot, l) \<and> slot < n \<and> slot \<noteq> raid5f_parity n (l div s) \<and> l < strips * s"
proof -
  have n: "1 < n" and s: "0 < s" using g by (auto simp: raid5f_geometry_def n_def s_def)
  have off': "unat off < strips * (s * (n - 1))"
    using off sz by (simp add: word_less_nat_alt raid5f_sized_def n_def s_def)
  obtain slot l where m: "raid5f_map s n (unat off) = (slot, l)" by fastforce
  have st: "l div s = unat off div (s * (n - 1))" using raid5f_map_props[OF s n, of "unat off"] m by simp
  have "l div s < strips" using off' unfolding st by (simp add: less_mult_imp_div_less)
  then have "l < strips * s" using s by (subst (asm) div_less_iff_less_mult) simp_all
  then show ?thesis using raid5f_map_props[OF s n, of "unat off"] m by simp
qed

lemma raid5f_block_of_place:
  fixes rb :: raid_bdev
  defines "n \<equiv> unat (num_base_bdevs rb)" and "s \<equiv> unat (strip_size rb)"
  assumes g: "raid5f_geometry rb" and sz: "raid5f_sized rb strips"
    and p: "slot < n" "slot \<noteq> raid5f_parity n (l div s)" "l < strips * s"
  shows "unat (of_nat (raid5f_unmap s n (slot, l)) :: u64) = raid5f_unmap s n (slot, l)"
    and "(of_nat (raid5f_unmap s n (slot, l)) :: u64) < rb_blockcnt rb"
proof -
  have n: "1 < n" and s: "0 < s" using g by (auto simp: raid5f_geometry_def n_def s_def)
  have bc: "unat (rb_blockcnt rb) = strips * (s * (n - 1))" using sz by (simp add: raid5f_sized_def n_def s_def)
  have lt: "raid5f_unmap s n (slot, l) < unat (rb_blockcnt rb)"
    unfolding bc by (rule raid5f_unmap_less[OF s n p])
  then show eq: "unat (of_nat (raid5f_unmap s n (slot, l)) :: u64) = raid5f_unmap s n (slot, l)"
    by (rule unat_of_nat_u64[OF less_trans[OF _ unat_u64_less]])
  show "(of_nat (raid5f_unmap s n (slot, l)) :: u64) < rb_blockcnt rb"
    using lt unfolding word_less_nat_alt eq .
qed

text \<open>C15: on a started raid5f bdev the code's address computation is a bijection between the logical
  blocks and all the blocks of the data areas of the base bdevs except those of the parity chunk of
  their stripe: no data block is shared or lost and none lies on parity.\<close>

theorem raid5f_layout_bijection:
  assumes g: "raid5f_geometry rb" and sz: "raid5f_sized rb strips"
    and len: "length (base_bdev_info rb) = unat (num_base_bdevs rb)"
  shows "bij_betw (\<lambda>off. (unat (raid5f_slot rb off), unat (raid5f_lba rb off)))
    {off. off < rb_blockcnt rb}
    {(slot, l). slot < unat (num_base_bdevs rb) \<and> l < unat (data_size (base_bdev_info rb ! slot)) \<and>
       slot \<noteq> unat (raid5f_stripe_parity_chunk_index rb (of_nat (l div unat (strip_size rb))))}"
    (is "bij_betw ?f ?A ?B")
proof -
  let ?n = "unat (num_base_bdevs rb)" and ?s = "unat (strip_size rb)"
  have n: "1 < ?n" and s: "0 < ?s" using g by (auto simp: raid5f_geometry_def)
  have f: "?f off = raid5f_map ?s ?n (unat off)" for off
    using raid5f_code_map[OF g sz, of off] by simp
  have ds: "unat (data_size (base_bdev_info rb ! slot)) = strips * ?s" if "slot < ?n" for slot
    using sz that len by (simp add: raid5f_sized_def)
  have B: "(slot, l) \<in> ?B \<longleftrightarrow> slot < ?n \<and> slot \<noteq> raid5f_parity ?n (l div ?s) \<and> l < strips * ?s" for slot l
    using ds[of slot] raid5f_lba_parity[OF g sz, of l] by auto
  show ?thesis
  proof (rule bij_betw_byWitness[where f' = "\<lambda>p. of_nat (raid5f_unmap ?s ?n p)"])
    show "\<forall>off \<in> ?A. of_nat (raid5f_unmap ?s ?n (?f off)) = off"
      unfolding f raid5f_map_props(4)[OF s n] by simp
    show "?f ` ?A \<subseteq> ?B"
    proof (rule image_subsetI)
      fix off assume "off \<in> ?A"
      then obtain slot l where "raid5f_map ?s ?n (unat off) = (slot, l)" "(slot, l) \<in> ?B"
        using raid5f_place_of_block[OF g sz, of off] unfolding B by blast
      then show "?f off \<in> ?B" unfolding f by (simp only:)
    qed
    have back_to: "?f (of_nat (raid5f_unmap ?s ?n (slot, l))) = (slot, l) \<and>
        of_nat (raid5f_unmap ?s ?n (slot, l)) \<in> ?A" if p: "(slot, l) \<in> ?B" for slot l
    proof -
      have p': "slot < ?n" "slot \<noteq> raid5f_parity ?n (l div ?s)" "l < strips * ?s" using p unfolding B by blast+
      note u = raid5f_block_of_place[OF g sz p']
      have "raid5f_map ?s ?n (raid5f_unmap ?s ?n (slot, l)) = (slot, l)" by (rule raid5f_map_unmap[OF s p'(1,2)])
      then show ?thesis using u(2) unfolding f u(1) by blast
    qed
    then have to: "?f (of_nat (raid5f_unmap ?s ?n p)) = p \<and> of_nat (raid5f_unmap ?s ?n p) \<in> ?A" if "p \<in> ?B" for p
      using that by (cases p) (simp only:)
    show "\<forall>p \<in> ?B. ?f (of_nat (raid5f_unmap ?s ?n p)) = p" using to by blast
    show "(\<lambda>p. of_nat (raid5f_unmap ?s ?n p)) ` ?B \<subseteq> ?A" using to by (intro image_subsetI) (rule conjunct2)
  qed
qed

subsection \<open>A concrete bdev\<close>

text \<open>Three base bdevs of ten, nine and twelve blocks and strips of four blocks: two stripes.\<close>

definition raid5f_example :: raid_bdev where
  "raid5f_example = zero_raid_bdev
     \<lparr>rb_name := ''r5'', num_base_bdevs := 3, min_base_bdevs_operational := 2,
      strip_size := 4, strip_size_shift := 2, blocklen := 4, blocklen_shift := 2, rb_level := RAID5F,
      base_bdev_info :=
        [zero_base_bdev_info\<lparr>bi_desc := Some ''a'', data_size := 10\<rparr>,
         zero_base_bdev_info\<lparr>bi_desc := Some ''b'', data_size := 9\<rparr>,
         zero_base_bdev_info\<lparr>bi_desc := Some ''c'', data_size := 12\<rparr>]\<rparr>"

definition raid5f_example_started :: raid_bdev where
  "raid5f_example_started = snd (raid5f_start True (\<lambda>_. 16) raid5f_example)"

lemma raid5f_example_geometry: "raid5f_geometry raid5f_example"
  by (simp add: raid5f_geometry_def raid5f_example_def)

lemma raid5f_example_started_ok:
  "raid5f_geometry raid5f_example_started \<and> raid5f_sized raid5f_example_started 2 \<and>
   length (base_bdev_info raid5f_example_started) = unat (num_base_bdevs raid5f_example_started)"
  by (simp add: raid5f_geometry_def raid5f_sized_def raid5f_info_of_def raid5f_example_started_def
      raid5f_start_def raid5f_example_def raid5f_stripe_data_chunks_num_def zero_base_bdev_info_def)

lemma raid5f_start_sizes_witness:
  "raid5f_sized (snd (raid5f_start True (\<lambda>_. 16) raid5f_example)) 2"
  using raid5f_start_sizes[OF raid5f_example_geometry, of "\<lambda>_. 16"]
  by (simp add: raid5f_example_def zero_base_bdev_info_def)

lemma raid5f_layout_bijection_witness:
  "inj_on (\<lambda>off. (unat (raid5f_slot raid5f_example_started off), unat (raid5f_lba raid5f_example_started off)))
     {off. off < rb_blockcnt raid5f_example_started}"
  using raid5f_layout_bijection[of raid5f_example_started 2] raid5f_example_started_ok
  by (simp add: bij_betw_def)

end
