(* ===== verification/Raid5f_Stripe.thy ===== *)
theory Raid5f_Stripe
  imports Raid5f_Geometry
begin

text \<open>
  Stripe requests of \<open>raid/raid5f.c\<close>: the parity computation in the accel framework, the
  submission of the chunks of a stripe, full-stripe writes, reads and reconstruction.

  The state is that of one I/O channel: the stripe requests, named by numbers, with the two free
  lists and the queue of those that wait to retry a parity computation; the array of current segment
  pointers that all stripe requests of the channel share; the raid I/Os, named by numbers; the
  parity computations in flight; the memory; and the number of live \<open>read_cb_arg\<close> blocks.

  Sizes and addresses in memory are natural numbers. A chunk's array of iovecs is the list
  \<open>ck_iovs\<close>, whose length is \<open>iovcnt_max\<close>.
\<close>

subsection \<open>State\<close>

datatype stripe_request_type = STRIPE_REQ_WRITE | STRIPE_REQ_RECONSTRUCT

record chunk =
  ck_index :: nat
  ck_iovs :: "iovec list"
  ck_iovcnt :: nat
  ck_md_buf :: "nat option"

text \<open>\<open>xor_iters\<close> is the state of the iovec iterators: the segments still to come. The callback of a
  parity computation is determined by the type.\<close>

record stripe_request =
  sr_type :: stripe_request_type
  sr_poisoned :: bool
  sr_saved_iovs :: "iovec list"
  sr_raid_io :: nat
  sr_stripe_index :: u64
  sr_parity_chunk :: nat
  sr_parity_buf :: nat
  sr_parity_md_buf :: "nat option"
  sr_chunk_buffers :: "nat list"
  sr_chunk_md_buffers :: "nat list"
  sr_chunk :: nat
  sr_chunk_offset :: u64
  xor_iters :: "(nat \<times> nat list) list"
  xor_len :: nat
  xor_remaining :: nat
  xor_remaining_md :: nat
  xor_status :: int
  sr_chunks :: "chunk list"

record xor_job =
  job_stripe :: nat
  job_md :: bool
  job_dest :: nat
  job_srcs :: "nat list"
  job_len :: nat

record r5_world =
  r5_stripes :: "nat \<Rightarrow> stripe_request"
  r5_ios :: "nat \<Rightarrow> raid_io"
  free_write :: "nat list"
  free_reconstruct :: "nat list"
  xor_retry_queue :: "nat list"
  chunk_xor_buffers :: "nat list"
  xor_jobs :: "xor_job list"
  r5_mem :: "nat \<Rightarrow> u8"
  read_cb_args :: nat

text \<open>
  What one activation meets: the raid bdev, its channel and the requests; the answers of the bdev
  layer and of \<open>spdk_accel_submit_xor\<close>; the segments that \<open>spdk_ioviter_firstv\<close> and \<open>nextv\<close> find in
  iovec arrays (length and one pointer per array); whether \<open>realloc\<close> succeeds; and for which chunk
  \<open>rand () % 1000 < 1\<close> holds.
\<close>

record r5_env =
  env_rb :: raid_bdev
  env_ch :: raid_bdev_io_channel
  env_io :: "nat \<Rightarrow> bdev_io"
  env_rc :: "base_io \<Rightarrow> int"
  env_accel :: "nat \<Rightarrow> bool \<Rightarrow> int"
  env_segments :: "iovec list list \<Rightarrow> (nat \<times> nat list) list"
  env_realloc :: bool
  env_poison :: "nat \<Rightarrow> bool"

definition r5_stripe :: "nat \<Rightarrow> (stripe_request \<Rightarrow> stripe_request) \<Rightarrow> r5_world \<Rightarrow> r5_world" where
  "r5_stripe sid f w = w\<lparr>r5_stripes := (r5_stripes w)(sid := f (r5_stripes w sid))\<rparr>"

definition r5_io :: "nat \<Rightarrow> (raid_io \<Rightarrow> raid_io) \<Rightarrow> r5_world \<Rightarrow> r5_world" where
  "r5_io io f w = w\<lparr>r5_ios := (r5_ios w)(io := f (r5_ios w io))\<rparr>"

definition r5_complete_part :: "nat \<Rightarrow> u64 \<Rightarrow> io_status \<Rightarrow> r5_world \<Rightarrow> bool \<times> r5_world" where
  "r5_complete_part io n st w =
     (fst (raid_bdev_io_complete_part n st (r5_ios w io)),
      r5_io io (\<lambda>rio. snd (raid_bdev_io_complete_part n st rio)) w)"

definition chunk_len :: "raid_bdev \<Rightarrow> nat" where
  "chunk_len rb = unat (push_bit (unat (blocklen_shift rb)) (strip_size rb))"

text \<open>The iovecs of a chunk in use.\<close>

definition ck_used :: "chunk \<Rightarrow> iovec list" where
  "ck_used c = take (ck_iovcnt c) (ck_iovs c)"

subsection \<open>Free lists\<close>

definition raid5f_stripe_request_release :: "nat \<Rightarrow> r5_world \<Rightarrow> r5_world" where
  "raid5f_stripe_request_release sid w =
     (case sr_type (r5_stripes w sid) of
        STRIPE_REQ_WRITE \<Rightarrow> w\<lparr>free_write := sid # free_write w\<rparr>
      | STRIPE_REQ_RECONSTRUCT \<Rightarrow> w\<lparr>free_reconstruct := sid # free_reconstruct w\<rparr>)"

definition raid5f_stripe_request_init :: "r5_env \<Rightarrow> nat \<Rightarrow> nat \<Rightarrow> u64 \<Rightarrow> r5_world \<Rightarrow> r5_world" where
  "raid5f_stripe_request_init e sid io stripe_index =
     r5_stripe sid (\<lambda>s. s\<lparr>sr_raid_io := io, sr_stripe_index := stripe_index,
       sr_parity_chunk := unat (raid5f_stripe_parity_chunk_index (env_rb e) stripe_index),
       sr_poisoned := False\<rparr>)"

subsection \<open>Iovecs of a full stripe\<close>

text \<open>New entries of the array are written before they are read.\<close>

definition raid5f_chunk_set_iovcnt :: "bool \<Rightarrow> nat \<Rightarrow> chunk \<Rightarrow> int \<times> chunk" where
  "raid5f_chunk_set_iovcnt realloc_ok iovcnt c =
     (if iovcnt > length (ck_iovs c) \<and> \<not> realloc_ok then (- ENOMEM, c)
      else (0, c\<lparr>ck_iovs := ck_iovs c @
                   replicate (iovcnt - length (ck_iovs c)) \<lparr>iov_base = 0, iov_len = 0\<rparr>,
                 ck_iovcnt := iovcnt\<rparr>))"

text \<open>The first inner loop: how many iovecs the chunk needs until the offset \<open>target\<close>.\<close>

fun iovecs_needed :: "iovec list \<Rightarrow> nat \<Rightarrow> nat \<Rightarrow> nat" where
  "iovecs_needed [] off target = 0"
| "iovecs_needed (v # vs) off target =
     Suc (if off + iov_len v \<ge> target then 0 else iovecs_needed vs (off + iov_len v) target)"

text \<open>The second one. Its state is \<open>raid_io_iov_idx\<close>, \<open>raid_io_offset\<close>, \<open>raid_io_iov_offset\<close> and \<open>len\<close>.\<close>

primrec iovecs_fill ::
  "iovec list \<Rightarrow> nat \<Rightarrow> nat \<times> nat \<times> nat \<times> nat \<Rightarrow> iovec list \<times> nat \<times> nat \<times> nat \<times> nat" where
  "iovecs_fill vs 0 st = ([], st)"
| "iovecs_fill vs (Suc n) st =
     (case st of (idx, off, iov_off, len) \<Rightarrow>
       (let v = vs ! idx;
            chunk_iov_offset = off - iov_off;
            l = min len (iov_len v - chunk_iov_offset);
            idx' = (if off + l \<ge> iov_off + iov_len v then idx + 1 else idx);
            iov_off' = (if off + l \<ge> iov_off + iov_len v then iov_off + iov_len v else iov_off);
            (rest, st') = iovecs_fill vs n (idx', off + l, iov_off', len - l)
        in (\<lparr>iov_base = iov_base v + chunk_iov_offset, iov_len = l\<rparr> # rest, st')))"

text \<open>The loop over the data chunks: return code, chunks and the state at the end.\<close>

primrec map_data_chunks ::
  "bool \<Rightarrow> raid_bdev \<Rightarrow> bdev_io \<Rightarrow> nat list \<Rightarrow> chunk list \<times> nat \<times> nat \<times> nat \<Rightarrow> int \<times> chunk list" where
  "map_data_chunks realloc_ok rb bio [] st = (0, fst st)"
| "map_data_chunks realloc_ok rb bio (c # js) st =
     (case st of (cs, idx, off, iov_off) \<Rightarrow>
       (let len = chunk_len rb;
            n = iovecs_needed (drop idx (iovs bio)) iov_off (off + len);
            (ret, ck) = raid5f_chunk_set_iovcnt realloc_ok n (cs ! c)
        in if ret \<noteq> 0 then (ret, cs)
           else
             (let ck = (case md_buf bio of
                          None \<Rightarrow> ck
                        | Some md \<Rightarrow>
                            ck\<lparr>ck_md_buf :=
                                 Some (md + off div 2 ^ unat (blocklen_shift rb) * unat (md_len rb))\<rparr>);
                  (vs, idx', off', iov_off', len') = iovecs_fill (iovs bio) n (idx, off, iov_off, len);
                  cs' = cs[c := ck\<lparr>ck_iovs := vs @ drop n (ck_iovs ck)\<rparr>]
              in if len' > 0 then (- EINVAL, cs')
                 else map_data_chunks realloc_ok rb bio js (cs', idx', off', iov_off'))))"

definition data_chunks :: "raid_bdev \<Rightarrow> nat \<Rightarrow> nat list" where
  "data_chunks rb parity = filter (\<lambda>i. i \<noteq> parity) [0..<unat (num_base_bdevs rb)]"

definition raid5f_stripe_request_map_iovecs :: "r5_env \<Rightarrow> nat \<Rightarrow> r5_world \<Rightarrow> int \<times> r5_world" where
  "raid5f_stripe_request_map_iovecs e sid w =
     (let s = r5_stripes w sid;
          rb = env_rb e;
          bio = env_io e (sr_raid_io s);
          p = sr_parity_chunk s;
          (ret, cs) = map_data_chunks (env_realloc e) rb bio (data_chunks rb p)
                        (sr_chunks s, 0, 0, 0)
      in if ret \<noteq> 0 then (ret, r5_stripe sid (\<lambda>s. s\<lparr>sr_chunks := cs\<rparr>) w)
         else
           (let cs = cs[p := (cs ! p)
                  \<lparr>ck_iovs := (ck_iovs (cs ! p))
                     [0 := \<lparr>iov_base = sr_parity_buf s, iov_len = chunk_len rb\<rparr>],
                   ck_iovcnt := 1, ck_md_buf := sr_parity_md_buf s\<rparr>]
            in (0, r5_stripe sid (\<lambda>s. s\<lparr>sr_chunks := cs\<rparr>) w)))"

subsection \<open>Submission of the chunks\<close>

definition flip_bit :: "nat \<Rightarrow> (nat \<Rightarrow> u8) \<Rightarrow> nat \<Rightarrow> u8" where
  "flip_bit a m = m(a := m a XOR 1)"

text \<open>The base I/O of a chunk; the boolean tells that the chunk is skipped (a missing base bdev in a
  write, the chunk that is being reconstructed).\<close>

definition chunk_base_io :: "r5_env \<Rightarrow> stripe_request \<Rightarrow> nat \<Rightarrow> base_io" where
  "chunk_base_io e s i =
     (let rb = env_rb e;
          c = sr_chunks s ! i;
          base_ch = base_channel (env_ch e) ! i;
          base_offset_blocks = push_bit (unat (strip_size_shift rb)) (sr_stripe_index s)
      in case sr_type s of
           STRIPE_REQ_WRITE \<Rightarrow>
             raid_bdev_writev_blocks_ext rb i base_ch (ck_used c) (ck_md_buf c) base_offset_blocks
               (ucast (strip_size rb))
         | STRIPE_REQ_RECONSTRUCT \<Rightarrow>
             raid_bdev_readv_blocks_ext rb i base_ch (ck_used c) (ck_md_buf c)
               (base_offset_blocks + sr_chunk_offset s) (num_blocks (env_io e (sr_raid_io s))))"

definition chunk_skipped :: "r5_env \<Rightarrow> stripe_request \<Rightarrow> nat \<Rightarrow> bool" where
  "chunk_skipped e s i =
     (case sr_type s of
        STRIPE_REQ_WRITE \<Rightarrow> base_channel (env_ch e) ! i = None
      | STRIPE_REQ_RECONSTRUCT \<Rightarrow> i = sr_chunk s)"

text \<open>The bit flip before a write.\<close>

definition chunk_poison :: "r5_env \<Rightarrow> nat \<Rightarrow> nat \<Rightarrow> r5_world \<Rightarrow> r5_world" where
  "chunk_poison e sid i w =
     (let s = r5_stripes w sid
      in if sr_type s = STRIPE_REQ_WRITE \<and> \<not> sr_poisoned s \<and> env_poison e i
         then r5_stripe sid (\<lambda>s. s\<lparr>sr_poisoned := True\<rparr>)
                (w\<lparr>r5_mem := flip_bit (iov_base (ck_iovs (sr_chunks s ! i) ! 0)) (r5_mem w)\<rparr>)
         else w)"

text \<open>What happens when the layer below refuses the base I/O.\<close>

definition chunk_refused :: "r5_env \<Rightarrow> nat \<Rightarrow> nat \<Rightarrow> int \<Rightarrow> r5_world \<Rightarrow> r5_world" where
  "chunk_refused e sid i ret w =
     (let s = r5_stripes w sid;
          io = sr_raid_io s;
          w = r5_io io (\<lambda>rio. rio\<lparr>base_bdev_io_submitted := base_bdev_io_submitted rio - 1\<rparr>) w
      in if ret = - ENOMEM then r5_io io (raid_bdev_queue_io_wait i) w
         else
           (let n = (case sr_type s of
                       STRIPE_REQ_WRITE \<Rightarrow> num_base_bdevs (env_rb e)
                     | STRIPE_REQ_RECONSTRUCT \<Rightarrow> raid5f_stripe_data_chunks_num (env_rb e));
                not_submitted = word_of_int (uint n - uint (base_bdev_io_submitted (r5_ios w io)));
                (finished, w) = r5_complete_part io not_submitted STATUS_FAILED w
            in if finished then raid5f_stripe_request_release sid w else w))"

definition raid5f_chunk_submit :: "r5_env \<Rightarrow> nat \<Rightarrow> nat \<Rightarrow> r5_world \<Rightarrow> int \<times> r5_world" where
  "raid5f_chunk_submit e sid i w =
     (let s = r5_stripes w sid;
          io = sr_raid_io s;
          w = r5_io io (\<lambda>rio. rio\<lparr>base_bdev_io_submitted := base_bdev_io_submitted rio + 1\<rparr>) w
      in if chunk_skipped e s i then (0, snd (r5_complete_part io 1 STATUS_SUCCESS w))
         else
           (let w = chunk_poison e sid i w;
                b = chunk_base_io e s i;
                ret = env_rc e b;
                w = r5_io io (\<lambda>rio. snd (bdev_submit (env_rc e) b rio)) w
            in (ret, if ret \<noteq> 0 then chunk_refused e sid i ret w else w)))"

primrec submit_chunks_from :: "r5_env \<Rightarrow> nat \<Rightarrow> nat list \<Rightarrow> r5_world \<Rightarrow> r5_world" where
  "submit_chunks_from e sid [] w = w"
| "submit_chunks_from e sid (i # js) w =
     (let (ret, w') = raid5f_chunk_submit e sid i w
      in if ret \<noteq> 0 then w' else submit_chunks_from e sid js w')"

definition raid5f_stripe_request_submit_chunks :: "r5_env \<Rightarrow> nat \<Rightarrow> r5_world \<Rightarrow> r5_world" where
  "raid5f_stripe_request_submit_chunks e sid w =
     submit_chunks_from e sid
       [unat (base_bdev_io_submitted (r5_ios w (sr_raid_io (r5_stripes w sid))))
          ..<unat (num_base_bdevs (env_rb e))] w"

text \<open>The wait queue of a base bdev calls this with the raid I/O.\<close>

definition raid5f_chunk_submit_retry :: "r5_env \<Rightarrow> nat \<Rightarrow> r5_world \<Rightarrow> r5_world" where
  "raid5f_chunk_submit_retry e io w =
     raid5f_stripe_request_submit_chunks e (the (rio_private (r5_ios w io))) w"

subsection \<open>Parity computations\<close>

text \<open>The chunk that a parity computation writes, and the order in which the chunks are passed: the
  sources by index, the destination last.\<close>

definition xor_dest_chunk :: "stripe_request \<Rightarrow> nat" where
  "xor_dest_chunk s =
     (case sr_type s of
        STRIPE_REQ_WRITE \<Rightarrow> sr_parity_chunk s | STRIPE_REQ_RECONSTRUCT \<Rightarrow> sr_chunk s)"

definition xor_sources :: "raid_bdev \<Rightarrow> stripe_request \<Rightarrow> nat list" where
  "xor_sources rb s = data_chunks rb (xor_dest_chunk s)"

definition xor_num_blocks :: "r5_env \<Rightarrow> stripe_request \<Rightarrow> nat" where
  "xor_num_blocks e s =
     (case sr_type s of
        STRIPE_REQ_WRITE \<Rightarrow> unat (strip_size (env_rb e))
      | STRIPE_REQ_RECONSTRUCT \<Rightarrow> unat (num_blocks (env_io e (sr_raid_io s))))"

text \<open>The next segments: the length and the pointers, written to the channel's array.\<close>

definition xor_next_segment :: "nat \<Rightarrow> r5_world \<Rightarrow> r5_world" where
  "xor_next_segment sid w =
     (case xor_iters (r5_stripes w sid) of
        [] \<Rightarrow> r5_stripe sid (\<lambda>s. s\<lparr>xor_len := 0\<rparr>) w
      | (n, ptrs) # segs \<Rightarrow>
          r5_stripe sid (\<lambda>s. s\<lparr>xor_len := n, xor_iters := segs\<rparr>) (w\<lparr>chunk_xor_buffers := ptrs\<rparr>))"

text \<open>
  \<open>raid5f_xor_stripe_continue\<close> up to its call of \<open>raid5f_xor_stripe_done\<close>: \<open>Some ret\<close> tells that the
  accel framework has refused with an error other than \<open>-ENOMEM\<close>, which is then the status.
\<close>

definition raid5f_xor_stripe_continue :: "r5_env \<Rightarrow> nat \<Rightarrow> r5_world \<Rightarrow> int option \<times> r5_world" where
  "raid5f_xor_stripe_continue e sid w =
     (let s = r5_stripes w sid;
          n_src = unat (raid5f_stripe_data_chunks_num (env_rb e));
          ret = env_accel e sid False
      in if ret = 0
         then (None, w\<lparr>xor_jobs := xor_jobs w @
                  [\<lparr>job_stripe = sid, job_md = False, job_dest = chunk_xor_buffers w ! n_src,
                    job_srcs = take n_src (chunk_xor_buffers w), job_len = xor_len s\<rparr>]\<rparr>)
         else if ret = - ENOMEM then (None, w\<lparr>xor_retry_queue := sid # xor_retry_queue w\<rparr>)
         else (Some ret, r5_stripe sid (\<lambda>s. s\<lparr>xor_status := ret\<rparr>) w))"

text \<open>The metadata part of \<open>raid5f_xor_stripe\<close>; the boolean tells to go on with the data.\<close>

definition xor_stripe_md :: "r5_env \<Rightarrow> nat \<Rightarrow> r5_world \<Rightarrow> bool \<times> int option \<times> r5_world" where
  "xor_stripe_md e sid w =
     (let s = r5_stripes w sid;
          bio = env_io e (sr_raid_io s)
      in if md_buf bio = None then (True, None, w)
         else
           (let n = xor_num_blocks e s * unat (md_len (env_rb e));
                w = r5_stripe sid (\<lambda>s. s\<lparr>xor_remaining_md := n\<rparr>) w;
                ret = env_accel e sid True
            in if ret = 0
               then (True, None, w\<lparr>xor_jobs := xor_jobs w @
                       [\<lparr>job_stripe = sid, job_md = True,
                         job_dest = the (ck_md_buf (sr_chunks s ! xor_dest_chunk s)),
                         job_srcs = map (\<lambda>i. the (ck_md_buf (sr_chunks s ! i)))
                                      (xor_sources (env_rb e) s),
                         job_len = n\<rparr>]\<rparr>)
               else if ret = - ENOMEM
               then (False, None, w\<lparr>xor_retry_queue := sid # xor_retry_queue w\<rparr>)
               else (False, Some ret, r5_stripe sid (\<lambda>s. s\<lparr>xor_status := ret\<rparr>) w)))"

definition raid5f_xor_stripe :: "r5_env \<Rightarrow> nat \<Rightarrow> r5_world \<Rightarrow> int option \<times> r5_world" where
  "raid5f_xor_stripe e sid w =
     (let s = r5_stripes w sid;
          iovss = map (\<lambda>i. ck_used (sr_chunks s ! i))
                    (xor_sources (env_rb e) s @ [xor_dest_chunk s]);
          w = r5_stripe sid (\<lambda>s. s\<lparr>xor_iters := env_segments e iovss\<rparr>) w;
          w = xor_next_segment sid w;
          w = r5_stripe sid
                (\<lambda>s. s\<lparr>xor_remaining := xor_num_blocks e s * 2 ^ unat (blocklen_shift (env_rb e)),
                       xor_status := 0\<rparr>) w;
          (go, failed, w) = xor_stripe_md e sid w
      in if go then raid5f_xor_stripe_continue e sid w else (failed, w))"

definition raid5f_xor_stripe_retry :: "r5_env \<Rightarrow> nat \<Rightarrow> r5_world \<Rightarrow> int option \<times> r5_world" where
  "raid5f_xor_stripe_retry e sid w =
     (if xor_remaining_md (r5_stripes w sid) \<noteq> 0 then raid5f_xor_stripe e sid w
      else raid5f_xor_stripe_continue e sid w)"

text \<open>The two callbacks of a parity computation.\<close>

definition raid5f_stripe_write_request_xor_done :: "r5_env \<Rightarrow> nat \<Rightarrow> int \<Rightarrow> r5_world \<Rightarrow> r5_world" where
  "raid5f_stripe_write_request_xor_done e sid status w =
     (let io = sr_raid_io (r5_stripes w sid)
      in if status \<noteq> 0
         then r5_io io (raid_bdev_io_complete STATUS_FAILED) (raid5f_stripe_request_release sid w)
         else raid5f_stripe_request_submit_chunks e sid w)"

definition raid5f_stripe_request_reconstruct_xor_done :: "nat \<Rightarrow> int \<Rightarrow> r5_world \<Rightarrow> r5_world" where
  "raid5f_stripe_request_reconstruct_xor_done sid status w =
     (let io = sr_raid_io (r5_stripes w sid)
      in snd (r5_complete_part io 1 (status_of (status = 0)) (raid5f_stripe_request_release sid w)))"

definition xor_callback :: "r5_env \<Rightarrow> nat \<Rightarrow> r5_world \<Rightarrow> r5_world" where
  "xor_callback e sid w =
     (let s = r5_stripes w sid
      in case sr_type s of
           STRIPE_REQ_WRITE \<Rightarrow> raid5f_stripe_write_request_xor_done e sid (xor_status s) w
         | STRIPE_REQ_RECONSTRUCT \<Rightarrow> raid5f_stripe_request_reconstruct_xor_done sid (xor_status s) w)"

subsection \<open>The retry queue shrinks\<close>

lemma r5_update_queue [simp]:
  "xor_retry_queue (r5_stripe sid f w) = xor_retry_queue w"
  "xor_retry_queue (r5_io io g w) = xor_retry_queue w"
  "xor_retry_queue (snd (r5_complete_part io n st w)) = xor_retry_queue w"
  "xor_retry_queue (raid5f_stripe_request_release sid w) = xor_retry_queue w"
  "xor_retry_queue (chunk_poison e sid i w) = xor_retry_queue w"
  by (auto simp: r5_stripe_def r5_io_def r5_complete_part_def raid5f_stripe_request_release_def
      chunk_poison_def Let_def split: stripe_request_type.split)

lemma chunk_submit_queue [simp]: "xor_retry_queue (snd (raid5f_chunk_submit e sid i w)) = xor_retry_queue w"
  by (simp add: raid5f_chunk_submit_def chunk_refused_def Let_def case_prod_beta)

lemma submit_chunks_from_queue [simp]: "xor_retry_queue (submit_chunks_from e sid js w) = xor_retry_queue w"
  by (induction js arbitrary: w) (simp_all add: Let_def case_prod_beta)

lemma submit_chunks_queue [simp]:
  "xor_retry_queue (raid5f_stripe_request_submit_chunks e sid w) = xor_retry_queue w"
  by (simp add: raid5f_stripe_request_submit_chunks_def)

lemma xor_callback_queue [simp]: "xor_retry_queue (xor_callback e sid w) = xor_retry_queue w"
  by (simp add: xor_callback_def raid5f_stripe_write_request_xor_done_def
      raid5f_stripe_request_reconstruct_xor_done_def Let_def split: stripe_request_type.split)

lemma xor_next_segment_queue [simp]: "xor_retry_queue (xor_next_segment sid w) = xor_retry_queue w"
  by (simp add: xor_next_segment_def split: list.split prod.split)

lemma xor_retry_failed_queue:
  "raid5f_xor_stripe_retry e sid w = (Some ret, w') \<Longrightarrow> xor_retry_queue w' = xor_retry_queue w"
  by (auto simp: raid5f_xor_stripe_retry_def raid5f_xor_stripe_continue_def raid5f_xor_stripe_def
      xor_stripe_md_def Let_def split: if_splits prod.splits)

text \<open>The end of a parity computation: its callback, then the next one that waits; when that one fails
  at once it ends likewise.\<close>

function raid5f_xor_stripe_done :: "r5_env \<Rightarrow> nat \<Rightarrow> r5_world \<Rightarrow> r5_world" where
  "raid5f_xor_stripe_done e sid w =
     (let w' = xor_callback e sid w
      in case xor_retry_queue w' of
           [] \<Rightarrow> w'
         | next # queue \<Rightarrow>
             (case raid5f_xor_stripe_retry e next (w'\<lparr>xor_retry_queue := queue\<rparr>) of
                (None, w'') \<Rightarrow> w''
              | (Some ret, w'') \<Rightarrow> raid5f_xor_stripe_done e next w''))"
  by pat_completeness auto
termination
  by (relation "measure (\<lambda>(e, sid, w). length (xor_retry_queue w))")
     (auto dest!: xor_retry_failed_queue[OF sym])

declare raid5f_xor_stripe_done.simps [simp del]

text \<open>A start or continuation together with the end that follows an immediate failure.\<close>

definition xor_settle :: "r5_env \<Rightarrow> nat \<Rightarrow> int option \<times> r5_world \<Rightarrow> r5_world" where
  "xor_settle e sid p =
     (case p of (None, w) \<Rightarrow> w | (Some ret, w) \<Rightarrow> raid5f_xor_stripe_done e sid w)"

text \<open>\<open>_raid5f_xor_stripe_cb\<close>, and the callbacks of the accel framework for data and metadata.\<close>

definition xor_stripe_cb_common :: "r5_env \<Rightarrow> nat \<Rightarrow> int \<Rightarrow> r5_world \<Rightarrow> r5_world" where
  "xor_stripe_cb_common e sid status w =
     (let w = (if status \<noteq> 0 then r5_stripe sid (\<lambda>s. s\<lparr>xor_status := status\<rparr>) w else w);
          s = r5_stripes w sid
      in if xor_remaining s + xor_remaining_md s = 0 then raid5f_xor_stripe_done e sid w else w)"

definition raid5f_xor_stripe_cb :: "r5_env \<Rightarrow> nat \<Rightarrow> int \<Rightarrow> r5_world \<Rightarrow> r5_world" where
  "raid5f_xor_stripe_cb e sid status w =
     (let w = r5_stripe sid (\<lambda>s. s\<lparr>xor_remaining := xor_remaining s - xor_len s\<rparr>) w;
          w = (if xor_remaining (r5_stripes w sid) > 0
               then xor_settle e sid (raid5f_xor_stripe_continue e sid (xor_next_segment sid w))
               else w)
      in xor_stripe_cb_common e sid status w)"

definition raid5f_xor_stripe_md_cb :: "r5_env \<Rightarrow> nat \<Rightarrow> int \<Rightarrow> r5_world \<Rightarrow> r5_world" where
  "raid5f_xor_stripe_md_cb e sid status w =
     xor_stripe_cb_common e sid status (r5_stripe sid (\<lambda>s. s\<lparr>xor_remaining_md := 0\<rparr>) w)"

text \<open>What the accel framework does: a job that succeeds has written the exclusive or of the sources to
  the destination; then its callback is called.\<close>

definition xor_bytes :: "(nat \<Rightarrow> u8) \<Rightarrow> nat list \<Rightarrow> nat \<Rightarrow> u8" where
  "xor_bytes m srcs k = foldr (\<lambda>a x. m (a + k) XOR x) srcs 0"

definition xor_write :: "xor_job \<Rightarrow> (nat \<Rightarrow> u8) \<Rightarrow> nat \<Rightarrow> u8" where
  "xor_write j m a =
     (if job_dest j \<le> a \<and> a < job_dest j + job_len j then xor_bytes m (job_srcs j) (a - job_dest j)
      else m a)"

definition accel_finish :: "r5_env \<Rightarrow> xor_job \<Rightarrow> int \<Rightarrow> r5_world \<Rightarrow> r5_world" where
  "accel_finish e j status w =
     (let w = w\<lparr>xor_jobs := remove1 j (xor_jobs w),
                r5_mem := (if status = 0 then xor_write j (r5_mem w) else r5_mem w)\<rparr>
      in if job_md j then raid5f_xor_stripe_md_cb e (job_stripe j) status w
         else raid5f_xor_stripe_cb e (job_stripe j) status w)"

subsection \<open>Completion of the chunks\<close>

definition raid5f_stripe_request_chunk_write_complete :: "nat \<Rightarrow> io_status \<Rightarrow> r5_world \<Rightarrow> r5_world" where
  "raid5f_stripe_request_chunk_write_complete sid status w =
     (let (finished, w) = r5_complete_part (sr_raid_io (r5_stripes w sid)) 1 status w
      in if finished then raid5f_stripe_request_release sid w else w)"

definition raid5f_stripe_request_chunk_read_complete ::
  "r5_env \<Rightarrow> nat \<Rightarrow> io_status \<Rightarrow> r5_world \<Rightarrow> r5_world" where
  "raid5f_stripe_request_chunk_read_complete e sid status w =
     (let io = sr_raid_io (r5_stripes w sid);
          rio = r5_ios w io
      in if base_bdev_io_remaining rio = 1
         then
           (if base_bdev_io_status rio = STATUS_SUCCESS \<and> status = STATUS_SUCCESS
            then xor_settle e sid (raid5f_xor_stripe e sid w)
            else snd (r5_complete_part io 1 status (raid5f_stripe_request_release sid w)))
         else snd (r5_complete_part io 1 status w))"

definition raid5f_chunk_complete_bdev_io :: "r5_env \<Rightarrow> nat \<Rightarrow> bool \<Rightarrow> r5_world \<Rightarrow> r5_world" where
  "raid5f_chunk_complete_bdev_io e sid success w =
     (case sr_type (r5_stripes w sid) of
        STRIPE_REQ_WRITE \<Rightarrow> raid5f_stripe_request_chunk_write_complete sid (status_of success) w
      | STRIPE_REQ_RECONSTRUCT \<Rightarrow>
          raid5f_stripe_request_chunk_read_complete e sid (status_of success) w)"

subsection \<open>Requests\<close>

definition raid5f_submit_write_request :: "r5_env \<Rightarrow> nat \<Rightarrow> u64 \<Rightarrow> r5_world \<Rightarrow> int \<times> r5_world" where
  "raid5f_submit_write_request e io stripe_index w =
     (case free_write w of
        [] \<Rightarrow> (- ENOMEM, w)
      | sid # rest \<Rightarrow>
          (let (ret, w) = raid5f_stripe_request_map_iovecs e sid
                            (raid5f_stripe_request_init e sid io stripe_index w)
           in if ret \<noteq> 0 then (ret, w)
              else
                (let w = w\<lparr>free_write := rest\<rparr>;
                     w = r5_io io (\<lambda>rio. rio\<lparr>rio_private := Some sid,
                           base_bdev_io_remaining := ucast (num_base_bdevs (env_rb e))\<rparr>) w
                 in if base_channel (env_ch e) ! sr_parity_chunk (r5_stripes w sid) \<noteq> None
                    then (0, xor_settle e sid (raid5f_xor_stripe e sid w))
                    else (0, raid5f_stripe_write_request_xor_done e sid 0 w))))"

text \<open>The chunks of a reconstruction: the request's iovecs for the wanted chunk, one buffer for every
  other one. \<open>n\<close> counts the buffers used.\<close>

primrec reconstruct_chunks ::
  "r5_env \<Rightarrow> stripe_request \<Rightarrow> nat list \<Rightarrow> nat \<times> chunk list \<Rightarrow> int \<times> chunk list" where
  "reconstruct_chunks e s [] st = (0, snd st)"
| "reconstruct_chunks e s (i # js) st =
     (case st of (n, cs) \<Rightarrow>
       (let bio = env_io e (sr_raid_io s)
        in if i = sr_chunk s
           then
             (let (ret, ck) = raid5f_chunk_set_iovcnt (env_realloc e) (length (iovs bio)) (cs ! i)
              in if ret \<noteq> 0 then (ret, cs)
                 else reconstruct_chunks e s js
                        (n, cs[i := ck\<lparr>ck_iovs := iovs bio @ drop (length (iovs bio)) (ck_iovs ck),
                                      ck_md_buf := md_buf bio\<rparr>]))
           else
             reconstruct_chunks e s js
               (n + 1, cs[i := (cs ! i)
                 \<lparr>ck_iovs := (ck_iovs (cs ! i))
                    [0 := \<lparr>iov_base = sr_chunk_buffers s ! n,
                           iov_len = unat (push_bit (unat (blocklen_shift (env_rb e))) (num_blocks bio))\<rparr>],
                  ck_iovcnt := 1,
                  ck_md_buf := (if md_buf bio \<noteq> None then Some (sr_chunk_md_buffers s ! n)
                                else ck_md_buf (cs ! i))\<rparr>])))"

definition raid5f_submit_reconstruct_read ::
  "r5_env \<Rightarrow> nat \<Rightarrow> u64 \<Rightarrow> u8 \<Rightarrow> u64 \<Rightarrow> iovec list option \<Rightarrow> r5_world \<Rightarrow> int \<times> r5_world" where
  "raid5f_submit_reconstruct_read e io stripe_index chunk_idx chunk_offset read_iovs w =
     (case free_reconstruct w of
        [] \<Rightarrow> (- ENOMEM, w)
      | sid # rest \<Rightarrow>
          (let w = raid5f_stripe_request_init e sid io stripe_index w;
               w = r5_stripe sid (\<lambda>s. s\<lparr>sr_chunk := unat chunk_idx, sr_chunk_offset := chunk_offset,
                     sr_saved_iovs := (case read_iovs of None \<Rightarrow> sr_saved_iovs s | Some vs \<Rightarrow> vs)\<rparr>) w;
               (ret, cs) = reconstruct_chunks e (r5_stripes w sid)
                             [0..<unat (num_base_bdevs (env_rb e))] (0, sr_chunks (r5_stripes w sid));
               w = r5_stripe sid (\<lambda>s. s\<lparr>sr_chunks := cs\<rparr>) w
           in if ret \<noteq> 0 then (ret, w)
              else
                (let w = r5_io io (\<lambda>rio. rio\<lparr>rio_private := Some sid,
                           base_bdev_io_remaining := ucast (num_base_bdevs (env_rb e))\<rparr>) w;
                     w = w\<lparr>free_reconstruct := rest\<rparr>
                 in (0, raid5f_stripe_request_submit_chunks e sid w))))"

text \<open>The base read's callback; its argument is freed first, and the base I/O only on success.\<close>

definition raid5f_chunk_read_complete ::
  "r5_env \<Rightarrow> nat \<Rightarrow> u64 \<Rightarrow> u64 \<Rightarrow> bool \<Rightarrow> base_io \<Rightarrow> r5_world \<Rightarrow> r5_world" where
  "raid5f_chunk_read_complete e io stripe_index stripe_offset success b w =
     (let w = w\<lparr>read_cb_args := read_cb_args w - 1\<rparr>
      in if \<not> success then r5_io io (raid_bdev_io_complete STATUS_FAILED) w
         else snd (raid5f_submit_reconstruct_read e io stripe_index
                     (raid5f_chunk_idx (env_rb e) stripe_index stripe_offset)
                     (raid5f_chunk_offset (env_rb e) stripe_offset) (Some (bio_iovs b)) w))"

text \<open>The base I/O of a read whose base bdev is there.\<close>

definition raid5f_read_base_io :: "r5_env \<Rightarrow> nat \<Rightarrow> u64 \<Rightarrow> u64 \<Rightarrow> base_io" where
  "raid5f_read_base_io e io stripe_index stripe_offset =
     (let rb = env_rb e;
          bio = env_io e io;
          slot = unat (raid5f_chunk_idx rb stripe_index stripe_offset);
          base_offset_blocks = push_bit (unat (strip_size_shift rb)) stripe_index
                               + raid5f_chunk_offset rb stripe_offset
      in raid_bdev_readv_blocks_ext rb slot (base_channel (env_ch e) ! slot) (iovs bio) (md_buf bio)
           base_offset_blocks (num_blocks bio))"

definition raid5f_submit_read_request :: "r5_env \<Rightarrow> nat \<Rightarrow> u64 \<Rightarrow> u64 \<Rightarrow> r5_world \<Rightarrow> int \<times> r5_world" where
  "raid5f_submit_read_request e io stripe_index stripe_offset w =
     (let rb = env_rb e;
          chunk_idx = raid5f_chunk_idx rb stripe_index stripe_offset
      in if base_channel (env_ch e) ! unat chunk_idx = None
         then raid5f_submit_reconstruct_read e io stripe_index chunk_idx
                (raid5f_chunk_offset rb stripe_offset) None w
         else
           (let w = w\<lparr>read_cb_args := read_cb_args w + 1\<rparr>;
                b = raid5f_read_base_io e io stripe_index stripe_offset;
                ret = env_rc e b;
                w = r5_io io (\<lambda>rio. snd (bdev_submit (env_rc e) b rio)) w
            in if ret = - ENOMEM
               then (0, r5_io io (raid_bdev_queue_io_wait (unat chunk_idx)) w)
               else (ret, w)))"

definition raid5f_submit_rw_request :: "r5_env \<Rightarrow> nat \<Rightarrow> r5_world \<Rightarrow> r5_world" where
  "raid5f_submit_rw_request e io w =
     (let bio = env_io e io;
          r5f_info = raid5f_info_of (env_rb e);
          stripe_index = offset_blocks bio div stripe_blocks r5f_info;
          stripe_offset = offset_blocks bio mod stripe_blocks r5f_info;
          (ret, w) = (case bdev_io_type bio of
                        IO_READ \<Rightarrow> raid5f_submit_read_request e io stripe_index stripe_offset w
                      | IO_WRITE \<Rightarrow> raid5f_submit_write_request e io stripe_index w
                      | _ \<Rightarrow> (- EINVAL, w))
      in if ret \<noteq> 0
         then r5_io io (raid_bdev_io_complete (if ret = - ENOMEM then STATUS_NOMEM else STATUS_FAILED)) w
         else w)"

end
