(* ===== verification/Raid_Buffers.thy ===== *)
theory Raid_Buffers
  imports Raid_Io
begin

text \<open>
  Buffers in memory: the addresses of the bytes of iovecs, in their order, and the filling of memory at
  a list of addresses. The memory is a function from addresses to bytes; the raid modules and the
  compressing passthru share this view.
\<close>

definition iov_addrs :: "iovec list \<Rightarrow> nat list" where
  "iov_addrs vs = concat (map (\<lambda>v. [iov_base v..<iov_base v + iov_len v]) vs)"

lemma iov_addrs_simps [simp]:
  "iov_addrs [] = []" "iov_addrs (v # vs) = [iov_base v..<iov_base v + iov_len v] @ iov_addrs vs"
  by (simp_all add: iov_addrs_def)

text \<open>The \<open>k\<close>-th address receives the \<open>k\<close>-th byte.\<close>

definition fill_memory :: "nat list \<Rightarrow> (nat \<Rightarrow> u8) \<Rightarrow> (nat \<Rightarrow> u8) \<Rightarrow> nat \<Rightarrow> u8" where
  "fill_memory addrs f m a =
     (case map_of (zip addrs [0..<length addrs]) a of None \<Rightarrow> m a | Some k \<Rightarrow> f k)"

lemma fill_memory_nth:
  "distinct addrs \<Longrightarrow> k < length addrs \<Longrightarrow> fill_memory addrs f m (addrs ! k) = f k"
  using map_of_zip_nth[of addrs "[0..<length addrs]" k] by (simp add: fill_memory_def)

lemma fill_memory_other:
  assumes "a \<notin> set addrs"
  shows "fill_memory addrs f m a = m a"
proof -
  have "map_of (zip addrs [0..<length addrs]) a = None" using assms by (subst map_of_zip_is_None) simp_all
  then show ?thesis unfolding fill_memory_def by (simp only: option.case)
qed

text \<open>\<open>memcpy\<close> to an address.\<close>

primrec mem_put :: "nat \<Rightarrow> u8 list \<Rightarrow> (nat \<Rightarrow> u8) \<Rightarrow> nat \<Rightarrow> u8" where
  "mem_put a [] m = m"
| "mem_put a (b # bs) m = mem_put (Suc a) bs (m(a := b))"

lemma mem_put_other: "c < a \<or> a + length bs \<le> c \<Longrightarrow> mem_put a bs m c = m c"
  by (induction bs arbitrary: a m) auto

lemma mem_put_get [simp]: "map (mem_put a bs m) [a..<a + length bs] = bs"
proof (induction bs arbitrary: a m)
  case (Cons b bs)
  have "[a..<a + length (b # bs)] = a # [Suc a..<Suc a + length bs]" by (subst upt_rec) simp
  moreover have "map (mem_put (Suc a) bs (m(a := b))) [Suc a..<Suc a + length bs] = bs" by (rule Cons.IH)
  ultimately show ?case by (simp add: mem_put_other del: upt_Suc)
qed simp

lemma mem_put_append: "mem_put a (xs @ ys) m = mem_put (a + length xs) ys (mem_put a xs m)"
  by (induction xs arbitrary: a m) simp_all

text \<open>A copy over cleared memory.\<close>

lemma mem_put_over:
  "length bs \<le> n \<Longrightarrow> map (mem_put a bs (mem_put a (replicate n 0) m)) [a..<a + n] = bs @ replicate (n - length bs) 0"
proof -
  assume len: "length bs \<le> n"
  have "mem_put a bs (mem_put a (replicate n 0) m) c = mem_put a (replicate n 0) m c"
    if "c \<in> set [a + length bs..<a + n]" for c
    using that by (simp add: mem_put_other)
  then have "map (mem_put a bs (mem_put a (replicate n 0) m)) [a + length bs..<a + n] =
      map (mem_put a (replicate n 0) m) (drop (length bs) [a..<a + n])" using len by simp
  also have "\<dots> = replicate (n - length bs) 0"
    by (simp only: drop_map[symmetric] mem_put_get[of a "replicate n 0" m, unfolded length_replicate] drop_replicate)
  finally have rest: "map (mem_put a bs (mem_put a (replicate n 0) m)) [a + length bs..<a + n] =
      replicate (n - length bs) 0" .
  have "[a..<a + n] = [a..<a + length bs] @ [a + length bs..<a + n]"
    using len upt_add_eq_append[of a "a + length bs" "n - length bs"] by simp
  then show ?thesis using rest by simp
qed

end
