(* ===== verification/Raid5f_Iovecs.thy ===== *)
theory Raid5f_Iovecs
  imports Raid5f_Stripe Raid_Buffers
begin

text \<open>
  How \<open>raid5f_stripe_request_map_iovecs\<close> cuts the buffers of a full-stripe write into the chunks of
  the stripe: the bytes of the request, in their order, are those of the data chunks, in their order.
\<close>

subsection \<open>The position in the buffers of a request\<close>

text \<open>The state of the mapping: \<open>idx\<close> iovecs are used up, and the next one up to \<open>off - iov_off\<close>.\<close>

definition iov_rest :: "iovec list \<Rightarrow> nat \<Rightarrow> nat \<Rightarrow> nat \<Rightarrow> nat list" where
  "iov_rest vs idx off iov_off = drop (off - iov_off) (iov_addrs (drop idx vs))"

definition iov_pos :: "iovec list \<Rightarrow> nat \<Rightarrow> nat \<Rightarrow> nat \<Rightarrow> bool" where
  "iov_pos vs idx off iov_off \<longleftrightarrow>
     iov_off \<le> off \<and> (idx < length vs \<longrightarrow> off - iov_off \<le> iov_len (vs ! idx)) \<and>
     (length vs \<le> idx \<longrightarrow> off = iov_off)"

text \<open>One chunk takes the next \<open>len\<close> bytes.\<close>

lemma iovecs_fill_takes:
  assumes "iov_pos vs idx off iov_off" and "0 < len" and "len \<le> length (iov_rest vs idx off iov_off)"
  shows "\<exists>out idx' iov_off'.
    iovecs_fill vs (iovecs_needed (drop idx vs) iov_off (off + len)) (idx, off, iov_off, len) =
      (out, idx', off + len, iov_off', 0) \<and>
    length out = iovecs_needed (drop idx vs) iov_off (off + len) \<and>
    iov_addrs out = take len (iov_rest vs idx off iov_off) \<and>
    iov_rest vs idx' (off + len) iov_off' = drop len (iov_rest vs idx off iov_off) \<and>
    iov_pos vs idx' (off + len) iov_off'"
  using assms
proof (induction "drop idx vs" arbitrary: idx off iov_off len)
  case Nil
  then show ?case by (simp add: iov_rest_def)
next
  case (Cons v ws)
  have idx: "idx < length vs" using Cons.hyps(2) by (metis drop_all list.distinct(1) not_less)
  then have v: "vs ! idx = v" and ws: "drop (Suc idx) vs = ws"
    using Cons.hyps(2) by (metis Cons_nth_drop_Suc list.inject)+
  define c where "c = off - iov_off"
  have off: "off = iov_off + c" and cv: "c \<le> iov_len v"
    using Cons.prems(1) idx v by (simp_all add: iov_pos_def c_def)
  have rest: "iov_rest vs idx off iov_off = [iov_base v + c..<iov_base v + iov_len v] @ iov_addrs ws"
    using cv by (simp add: iov_rest_def Cons.hyps(2)[symmetric] off)
  show ?case
  proof (cases "iov_off + iov_len v \<ge> off + len")
    case True
    then have need: "iovecs_needed (drop idx vs) iov_off (off + len) = Suc 0"
      by (simp add: Cons.hyps(2)[symmetric])
    have l: "min len (iov_len v - c) = len" using True off by simp
    show ?thesis
    proof (cases "off + len \<ge> iov_off + iov_len v")
      case full: True
      then have e: "c + len = iov_len v" using True off by simp
      then have "iov_rest vs (Suc idx) (off + len) (iov_off + iov_len v) = iov_addrs ws"
        by (simp add: iov_rest_def ws off)
      then show ?thesis
        using full e cv unfolding need rest
        by (simp add: v off l iov_pos_def add.assoc)
    next
      case part: False
      have "iov_rest vs idx (off + len) iov_off = [iov_base v + c + len..<iov_base v + iov_len v] @ iov_addrs ws"
        using part by (simp add: iov_rest_def Cons.hyps(2)[symmetric] off add.assoc)
      then show ?thesis
        using part idx unfolding need rest
        by (simp add: v off l iov_pos_def add.assoc)
    qed
  next
    case False
    define len' where "len' = len - (iov_len v - c)"
    have pos': "iov_pos vs (Suc idx) (iov_off + iov_len v) (iov_off + iov_len v)"
      by (simp add: iov_pos_def)
    have rest': "iov_rest vs (Suc idx) (iov_off + iov_len v) (iov_off + iov_len v) = iov_addrs ws"
      by (simp add: iov_rest_def ws)
    have len'0: "0 < len'" and sum: "off + len = iov_off + iov_len v + len'"
      and l: "min len (iov_len v - c) = iov_len v - c"
      using False off cv by (simp_all add: len'_def)
    have lle: "len' \<le> length (iov_rest vs (Suc idx) (iov_off + iov_len v) (iov_off + iov_len v))"
      using Cons.prems(3) unfolding rest rest' by (simp add: len'_def)
    obtain out idx' iov_off' where IH:
      "iovecs_fill vs (iovecs_needed ws (iov_off + iov_len v) (off + len))
         (Suc idx, iov_off + iov_len v, iov_off + iov_len v, len') = (out, idx', off + len, iov_off', 0)"
      "length out = iovecs_needed ws (iov_off + iov_len v) (off + len)"
      "iov_addrs out = take len' (iov_addrs ws)"
      "iov_rest vs idx' (off + len) iov_off' = drop len' (iov_addrs ws)"
      "iov_pos vs idx' (off + len) iov_off'"
      using Cons.hyps(1)[OF ws[symmetric] pos' len'0 lle] unfolding ws rest' sum by blast
    have need: "iovecs_needed (drop idx vs) iov_off (off + len) =
        Suc (iovecs_needed ws (iov_off + iov_len v) (off + len))"
      using False by (simp add: Cons.hyps(2)[symmetric])
    have "iovecs_fill vs (iovecs_needed (drop idx vs) iov_off (off + len)) (idx, off, iov_off, len) =
        (\<lparr>iov_base = iov_base v + c, iov_len = iov_len v - c\<rparr> # out, idx', off + len, iov_off', 0)"
      using IH(1) cv unfolding need by (simp add: v off l len'_def)
    then show ?thesis
      using IH(2-5) cv False off unfolding need rest by (simp add: len'_def)
  qed
qed

text \<open>All the data chunks.\<close>

lemma map_data_chunks_splits:
  assumes "iov_pos (iovs bio) idx off iov_off" and "0 < chunk_len rb" and "distinct js"
    and "\<forall>j \<in> set js. j < length cs"
    and "length js * chunk_len rb \<le> length (iov_rest (iovs bio) idx off iov_off)"
  shows "\<exists>cs'. map_data_chunks True rb bio js (cs, idx, off, iov_off) = (0, cs') \<and>
    length cs' = length cs \<and>
    (\<forall>i. i \<notin> set js \<longrightarrow> cs' ! i = cs ! i) \<and>
    (\<forall>k < length js. iov_addrs (ck_used (cs' ! (js ! k))) =
       take (chunk_len rb) (drop (k * chunk_len rb) (iov_rest (iovs bio) idx off iov_off)) \<and>
       (md_buf bio \<noteq> None \<longrightarrow> ck_md_buf (cs' ! (js ! k)) =
          Some (the (md_buf bio) +
            (off + k * chunk_len rb) div 2 ^ unat (blocklen_shift rb) * unat (md_len rb))))"
  using assms
proof (induction js arbitrary: cs idx off iov_off)
  case Nil
  then show ?case by simp
next
  case (Cons j js)
  let ?L = "chunk_len rb" and ?n = "iovecs_needed (drop idx (iovs bio)) iov_off (off + chunk_len rb)"
  let ?R = "iov_rest (iovs bio) idx off iov_off"
  have le: "?L \<le> length ?R" using Cons.prems(5) by simp
  obtain out idx' iov_off' where fill:
    "iovecs_fill (iovs bio) ?n (idx, off, iov_off, ?L) = (out, idx', off + ?L, iov_off', 0)"
    "length out = ?n" "iov_addrs out = take ?L ?R"
    "iov_rest (iovs bio) idx' (off + ?L) iov_off' = drop ?L ?R"
    "iov_pos (iovs bio) idx' (off + ?L) iov_off'"
    using iovecs_fill_takes[OF Cons.prems(1,2) le] by blast
  define ck where "ck = snd (raid5f_chunk_set_iovcnt True ?n (cs ! j))"
  have ck: "raid5f_chunk_set_iovcnt True ?n (cs ! j) = (0, ck)" "ck_iovcnt ck = ?n"
    by (simp_all add: ck_def raid5f_chunk_set_iovcnt_def)
  define ck2 where "ck2 = (case md_buf bio of None \<Rightarrow> ck
      | Some md \<Rightarrow> ck\<lparr>ck_md_buf :=
          Some (md + off div 2 ^ unat (blocklen_shift rb) * unat (md_len rb))\<rparr>)"
  define ck3 where "ck3 = ck2\<lparr>ck_iovs := out @ drop ?n (ck_iovs ck2)\<rparr>"
  define cs1 where "cs1 = cs[j := ck3]"
  have used: "ck_used ck3 = out"
    using ck(2) fill(2) by (simp add: ck_used_def ck3_def ck2_def split: option.split)
  have step: "map_data_chunks True rb bio (j # js) (cs, idx, off, iov_off) =
      map_data_chunks True rb bio js (cs1, idx', off + ?L, iov_off')"
    using fill(1) ck(1) by (simp add: Let_def cs1_def ck3_def ck2_def[symmetric])
  have "length js * ?L \<le> length (iov_rest (iovs bio) idx' (off + ?L) iov_off')"
    using Cons.prems(5) by (simp add: fill(4))
  from Cons.IH[OF fill(5) Cons.prems(2) _ _ this, of cs1] obtain cs' where IH:
    "map_data_chunks True rb bio js (cs1, idx', off + ?L, iov_off') = (0, cs')"
    "length cs' = length cs1" "\<forall>i. i \<notin> set js \<longrightarrow> cs' ! i = cs1 ! i"
    "\<forall>k < length js. iov_addrs (ck_used (cs' ! (js ! k))) = take ?L (drop (k * ?L) (drop ?L ?R)) \<and>
       (md_buf bio \<noteq> None \<longrightarrow> ck_md_buf (cs' ! (js ! k)) = Some (the (md_buf bio) +
          (off + ?L + k * ?L) div 2 ^ unat (blocklen_shift rb) * unat (md_len rb)))"
    using Cons.prems(3,4) by (auto simp: cs1_def fill(4))
  have j: "cs' ! j = ck3" using IH(3) Cons.prems(3,4) by (simp add: cs1_def)
  have "iov_addrs (ck_used (cs' ! ((j # js) ! k))) = take ?L (drop (k * ?L) ?R) \<and>
      (md_buf bio \<noteq> None \<longrightarrow> ck_md_buf (cs' ! ((j # js) ! k)) = Some (the (md_buf bio) +
          (off + k * ?L) div 2 ^ unat (blocklen_shift rb) * unat (md_len rb)))"
    if k: "k < length (j # js)" for k
  proof (cases k)
    case 0
    then show ?thesis using j used fill(3) by (auto simp: ck3_def ck2_def)
  next
    case (Suc k')
    then show ?thesis using IH(4) k by (auto simp: ac_simps)
  qed
  moreover have "cs' ! i = cs ! i" if "i \<notin> set (j # js)" for i
    using IH(3) that by (simp add: cs1_def)
  ultimately show ?case using step IH(1,2) by (auto simp: cs1_def)
qed

subsection \<open>The whole stripe\<close>

lemma data_chunks_props:
  "distinct (data_chunks rb p)" "p \<notin> set (data_chunks rb p)"
  "\<forall>i \<in> set (data_chunks rb p). i < unat (num_base_bdevs rb)"
  by (auto simp: data_chunks_def)

lemma data_chunks_length:
  assumes "p < unat (num_base_bdevs rb)"
  shows "length (data_chunks rb p) = unat (num_base_bdevs rb) - 1"
proof -
  have "set (data_chunks rb p) = {..<unat (num_base_bdevs rb)} - {p}" by (auto simp: data_chunks_def)
  then have "card (set (data_chunks rb p)) = unat (num_base_bdevs rb) - 1"
    using assms by (simp add: card_Diff_singleton)
  then show ?thesis using distinct_card[OF data_chunks_props(1)] by metis
qed

text \<open>The pieces of length \<open>L\<close> of a list make up the list.\<close>

lemma concat_pieces:
  "length R = n * L \<Longrightarrow> concat (map (\<lambda>k. take L (drop (k * L) R)) [0..<n]) = R"
proof (induction n arbitrary: R)
  case (Suc n)
  have "concat (map (\<lambda>k. take L (drop (k * L) R)) [0..<Suc n]) =
      take L R @ concat (map (\<lambda>k. take L (drop (k * L) (drop L R))) [0..<n])"
    by (simp add: upt_conv_Cons map_Suc_upt[symmetric] comp_def ac_simps del: upt_Suc)
  also have "\<dots> = take L R @ drop L R" by (subst Suc.IH) (simp_all add: Suc.prems)
  finally show ?case by simp
qed simp

definition stripe_ready :: "r5_env \<Rightarrow> stripe_request \<Rightarrow> bool" where
  "stripe_ready e s \<longleftrightarrow>
     length (sr_chunks s) = unat (num_base_bdevs (env_rb e)) \<and>
     sr_parity_chunk s < unat (num_base_bdevs (env_rb e)) \<and>
     ck_iovs (sr_chunks s ! sr_parity_chunk s) \<noteq> [] \<and> 0 < chunk_len (env_rb e)"

lemma map_iovecs_result:
  assumes "stripe_ready e (r5_stripes w sid)" and "env_realloc e"
    and "length (iov_addrs (iovs (env_io e (sr_raid_io (r5_stripes w sid))))) =
      (unat (num_base_bdevs (env_rb e)) - 1) * chunk_len (env_rb e)"
  obtains cs where
    "raid5f_stripe_request_map_iovecs e sid w = (0, r5_stripe sid (\<lambda>s. s\<lparr>sr_chunks := cs\<rparr>) w)"
    "length cs = length (sr_chunks (r5_stripes w sid))"
    "\<forall>k < unat (num_base_bdevs (env_rb e)) - 1.
       iov_addrs (ck_used (cs ! (data_chunks (env_rb e) (sr_parity_chunk (r5_stripes w sid)) ! k))) =
         take (chunk_len (env_rb e)) (drop (k * chunk_len (env_rb e))
           (iov_addrs (iovs (env_io e (sr_raid_io (r5_stripes w sid)))))) \<and>
       (md_buf (env_io e (sr_raid_io (r5_stripes w sid))) \<noteq> None \<longrightarrow>
        ck_md_buf (cs ! (data_chunks (env_rb e) (sr_parity_chunk (r5_stripes w sid)) ! k)) =
          Some (the (md_buf (env_io e (sr_raid_io (r5_stripes w sid)))) +
            k * chunk_len (env_rb e) div 2 ^ unat (blocklen_shift (env_rb e)) *
              unat (md_len (env_rb e))))"
    "ck_used (cs ! sr_parity_chunk (r5_stripes w sid)) =
       [\<lparr>iov_base = sr_parity_buf (r5_stripes w sid), iov_len = chunk_len (env_rb e)\<rparr>]"
proof -
  let ?s = "r5_stripes w sid" and ?rb = "env_rb e"
  let ?bio = "env_io e (sr_raid_io ?s)" and ?p = "sr_parity_chunk ?s"
  let ?n = "unat (num_base_bdevs ?rb)"
  have p: "?p < ?n" and len: "length (sr_chunks ?s) = ?n" and pne: "ck_iovs (sr_chunks ?s ! ?p) \<noteq> []"
    and L: "0 < chunk_len ?rb" using assms(1) by (simp_all add: stripe_ready_def)
  have pos: "iov_pos (iovs ?bio) 0 0 0" by (simp add: iov_pos_def)
  have R: "iov_rest (iovs ?bio) 0 0 0 = iov_addrs (iovs ?bio)" by (simp add: iov_rest_def)
  have dl: "length (data_chunks ?rb ?p) = ?n - 1" by (rule data_chunks_length[OF p])
  obtain cs where cs: "map_data_chunks True ?rb ?bio (data_chunks ?rb ?p) (sr_chunks ?s, 0, 0, 0) = (0, cs)"
    "length cs = length (sr_chunks ?s)" "cs ! ?p = sr_chunks ?s ! ?p"
    "\<forall>k < ?n - 1. iov_addrs (ck_used (cs ! (data_chunks ?rb ?p ! k))) =
       take (chunk_len ?rb) (drop (k * chunk_len ?rb) (iov_addrs (iovs ?bio))) \<and>
       (md_buf ?bio \<noteq> None \<longrightarrow> ck_md_buf (cs ! (data_chunks ?rb ?p ! k)) =
          Some (the (md_buf ?bio) +
            (0 + k * chunk_len ?rb) div 2 ^ unat (blocklen_shift ?rb) * unat (md_len ?rb)))"
    using map_data_chunks_splits[OF pos L, where js = "data_chunks ?rb ?p" and cs = "sr_chunks ?s"]
      data_chunks_props[where rb = ?rb and p = ?p] assms(3) unfolding R dl len by auto
  define cs2 where "cs2 = cs[?p := (cs ! ?p)
      \<lparr>ck_iovs := (ck_iovs (cs ! ?p))[0 := \<lparr>iov_base = sr_parity_buf ?s, iov_len = chunk_len ?rb\<rparr>],
       ck_iovcnt := 1, ck_md_buf := sr_parity_md_buf ?s\<rparr>]"
  have par: "ck_used (cs2 ! ?p) = [\<lparr>iov_base = sr_parity_buf ?s, iov_len = chunk_len ?rb\<rparr>]"
    using pne p cs(2,3) len by (cases "ck_iovs (sr_chunks ?s ! ?p)") (simp_all add: cs2_def ck_used_def)
  have other: "cs2 ! (data_chunks ?rb ?p ! k) = cs ! (data_chunks ?rb ?p ! k)" if "k < ?n - 1" for k
  proof -
    have "data_chunks ?rb ?p ! k \<in> set (data_chunks ?rb ?p)" using that dl by simp
    then have "data_chunks ?rb ?p ! k \<noteq> ?p" using data_chunks_props(2)[where rb = ?rb and p = ?p] by auto
    then show ?thesis by (simp add: cs2_def)
  qed
  show ?thesis
  proof (rule that[of cs2])
    show "raid5f_stripe_request_map_iovecs e sid w = (0, r5_stripe sid (\<lambda>s. s\<lparr>sr_chunks := cs2\<rparr>) w)"
      using assms(2) cs(1) by (simp add: raid5f_stripe_request_map_iovecs_def Let_def cs2_def)
    show "length cs2 = length (sr_chunks ?s)" using cs(2) by (simp add: cs2_def)
  qed (use cs(4) other par in simp_all)
qed

text \<open>C16: mapping the buffers of a full-stripe write succeeds and loses, repeats and reorders nothing,
  however the request's buffers are cut into iovecs (also with empty ones): the bytes of the data
  chunks one after the other are the bytes of the request, every data chunk gets exactly one strip
  of them, its metadata starts at the metadata of its first block, and the parity chunk is the
  parity buffer.\<close>

theorem raid5f_map_iovecs_splits:
  assumes "stripe_ready e (r5_stripes w sid)" and "env_realloc e"
    and "length (iov_addrs (iovs (env_io e (sr_raid_io (r5_stripes w sid))))) =
      (unat (num_base_bdevs (env_rb e)) - 1) * chunk_len (env_rb e)"
  defines "w' \<equiv> snd (raid5f_stripe_request_map_iovecs e sid w)"
    and "bio \<equiv> env_io e (sr_raid_io (r5_stripes w sid))"
    and "js \<equiv> data_chunks (env_rb e) (sr_parity_chunk (r5_stripes w sid))"
  shows "fst (raid5f_stripe_request_map_iovecs e sid w) = 0 \<and>
    concat (map (\<lambda>i. iov_addrs (ck_used (sr_chunks (r5_stripes w' sid) ! i))) js) =
      iov_addrs (iovs bio) \<and>
    (\<forall>k < length js.
       length (iov_addrs (ck_used (sr_chunks (r5_stripes w' sid) ! (js ! k)))) = chunk_len (env_rb e) \<and>
       (md_buf bio \<noteq> None \<longrightarrow> ck_md_buf (sr_chunks (r5_stripes w' sid) ! (js ! k)) =
          Some (the (md_buf bio) + k * chunk_len (env_rb e) div 2 ^ unat (blocklen_shift (env_rb e)) *
            unat (md_len (env_rb e))))) \<and>
    iov_addrs (ck_used (sr_chunks (r5_stripes w' sid) ! sr_parity_chunk (r5_stripes w sid))) =
      [sr_parity_buf (r5_stripes w sid)..<sr_parity_buf (r5_stripes w sid) + chunk_len (env_rb e)]"
proof -
  let ?n = "unat (num_base_bdevs (env_rb e))" and ?L = "chunk_len (env_rb e)"
  obtain cs where cs:
    "raid5f_stripe_request_map_iovecs e sid w = (0, r5_stripe sid (\<lambda>s. s\<lparr>sr_chunks := cs\<rparr>) w)"
    "\<forall>k < ?n - 1. iov_addrs (ck_used (cs ! (js ! k))) = take ?L (drop (k * ?L) (iov_addrs (iovs bio))) \<and>
       (md_buf bio \<noteq> None \<longrightarrow> ck_md_buf (cs ! (js ! k)) =
          Some (the (md_buf bio) + k * ?L div 2 ^ unat (blocklen_shift (env_rb e)) *
            unat (md_len (env_rb e))))"
    "ck_used (cs ! sr_parity_chunk (r5_stripes w sid)) =
       [\<lparr>iov_base = sr_parity_buf (r5_stripes w sid), iov_len = ?L\<rparr>]"
    by (rule map_iovecs_result[OF assms(1-3)]) (auto simp: bio_def js_def)
  have w': "sr_chunks (r5_stripes w' sid) = cs" by (simp add: w'_def cs(1) r5_stripe_def)
  have jl: "length js = ?n - 1"
    using assms(1) data_chunks_length by (simp add: js_def stripe_ready_def)
  have R: "length (iov_addrs (iovs bio)) = (?n - 1) * ?L" using assms(3) by (simp add: bio_def)
  have piece: "length (iov_addrs (ck_used (cs ! (js ! k)))) = ?L" if k: "k < ?n - 1" for k
  proof -
    have "Suc k * ?L \<le> (?n - 1) * ?L" using k by (intro mult_right_mono) simp_all
    then show ?thesis using cs(2) k R by simp
  qed
  have "map (\<lambda>i. iov_addrs (ck_used (cs ! i))) js =
      map (\<lambda>k. iov_addrs (ck_used (cs ! (js ! k)))) [0..<length js]"
    by (rule nth_equalityI) simp_all
  then have "concat (map (\<lambda>i. iov_addrs (ck_used (cs ! i))) js) =
      concat (map (\<lambda>k. iov_addrs (ck_used (cs ! (js ! k)))) [0..<length js])" by simp
  also have "\<dots> = concat (map (\<lambda>k. take ?L (drop (k * ?L) (iov_addrs (iovs bio)))) [0..<?n - 1])"
    by (intro arg_cong[of _ _ concat] map_cong) (use cs(2) jl in auto)
  also have "\<dots> = iov_addrs (iovs bio)" by (rule concat_pieces[OF R])
  finally show ?thesis using cs(1,2,3) piece by (simp add: w' jl)
qed

subsection \<open>A concrete channel\<close>

text \<open>The bdev of \<open>raid5f_example_started\<close>, whose chunks have 16 bytes, with two stripe requests of
  each type; \<open>segments\<close> cuts equal chunks into pieces of at most 16 bytes.\<close>

definition r5_example_chunk :: "nat \<Rightarrow> chunk" where
  "r5_example_chunk i =
     \<lparr>ck_index = i, ck_iovs = replicate 4 \<lparr>iov_base = 0, iov_len = 0\<rparr>, ck_iovcnt = 0, ck_md_buf = None\<rparr>"

definition r5_example_stripe :: "nat \<Rightarrow> stripe_request" where
  "r5_example_stripe sid =
     \<lparr>sr_type = (if sid < 2 then STRIPE_REQ_WRITE else STRIPE_REQ_RECONSTRUCT), sr_poisoned = False,
      sr_saved_iovs = [], sr_raid_io = 0, sr_stripe_index = 0, sr_parity_chunk = 0,
      sr_parity_buf = 1000 + 100 * sid, sr_parity_md_buf = None,
      sr_chunk_buffers = [2000 + 100 * sid, 2050 + 100 * sid], sr_chunk_md_buffers = [],
      sr_chunk = 0, sr_chunk_offset = 0, xor_iters = [], xor_len = 0, xor_remaining = 0,
      xor_remaining_md = 0, xor_status = 0, sr_chunks = map r5_example_chunk [0, 1, 2]\<rparr>"

definition r5_example_world :: r5_world where
  "r5_example_world =
     \<lparr>r5_stripes = r5_example_stripe, r5_ios = (\<lambda>_. raid_io_init), free_write = [0, 1],
      free_reconstruct = [2, 3], xor_retry_queue = [], chunk_xor_buffers = [], xor_jobs = [],
      r5_mem = (\<lambda>_. 0), read_cb_args = 0\<rparr>"

definition r5_example_segments :: "iovec list list \<Rightarrow> (nat \<times> nat list) list" where
  "r5_example_segments vss = [(16, map (\<lambda>vs. iov_base (hd vs)) vss)]"

definition r5_example_env :: "nat option list \<Rightarrow> (nat \<Rightarrow> bdev_io) \<Rightarrow> r5_env" where
  "r5_example_env bases ios =
     \<lparr>env_rb = raid5f_example_started,
      env_ch = \<lparr>base_channel = bases, num_channels = 3, module_channel = Some 9\<rparr>,
      env_io = ios, env_rc = (\<lambda>_. 0), env_accel = (\<lambda>_ _. 0), env_segments = r5_example_segments,
      env_realloc = True, env_poison = (\<lambda>_. False)\<rparr>"

text \<open>A write of the second stripe from three buffers, one of them empty.\<close>

definition r5_example_write :: bdev_io where
  "r5_example_write =
     \<lparr>bdev_io_type = IO_WRITE, offset_blocks = 8, num_blocks = 8,
      iovs = [\<lparr>iov_base = 100, iov_len = 5\<rparr>, \<lparr>iov_base = 200, iov_len = 0\<rparr>,
              \<lparr>iov_base = 300, iov_len = 27\<rparr>], md_buf = None\<rparr>"

abbreviation r5_write_env :: r5_env where
  "r5_write_env \<equiv> r5_example_env [Some 11, Some 12, Some 13] (\<lambda>_. r5_example_write)"

definition r5_write_world :: r5_world where
  "r5_write_world = raid5f_stripe_request_init r5_write_env 0 0 1 r5_example_world"

lemma r5_write_ready: "stripe_ready r5_write_env (r5_stripes r5_write_world 0)"
  unfolding stripe_ready_def by code_simp

lemma raid5f_map_iovecs_splits_witness:
  "concat (map (\<lambda>i. iov_addrs (ck_used (sr_chunks (r5_stripes
       (snd (raid5f_stripe_request_map_iovecs r5_write_env 0 r5_write_world)) 0) ! i)))
     (data_chunks raid5f_example_started (sr_parity_chunk (r5_stripes r5_write_world 0)))) =
   [100..<105] @ [300..<327]"
proof -
  have "env_realloc r5_write_env" "env_rb r5_write_env = raid5f_example_started"
    "iov_addrs (iovs (env_io r5_write_env (sr_raid_io (r5_stripes r5_write_world 0)))) =
      [100..<105] @ [300..<327]"
    by (simp_all add: r5_example_env_def r5_example_write_def)
  moreover have "(unat (num_base_bdevs raid5f_example_started) - 1) * chunk_len raid5f_example_started = 32"
    by code_simp
  ultimately show ?thesis
    using raid5f_map_iovecs_splits[OF r5_write_ready] by simp
qed

end
