(* ===== verification/Raid_Batch.thy ===== *)
theory Raid_Batch
  imports Raid_Io
begin

text \<open>
  The contract shared by every handler that sends one raid I/O to several base bdevs: RESET,
  UNMAP and FLUSH on raid0 and concat, and WRITE on raid1. Such a handler walks over a list of
  jobs from \<open>base_bdev_io_submitted\<close> on, leaves the loop when the layer below answers
  \<open>-ENOMEM\<close> (after queueing itself), and is entered again later.

  \<open>batch_spec\<close> is the reference loop, \<open>batch_step\<close> the life of one raid I/O (activations of the
  handler interleaved with completions of the base I/Os in flight). The locale \<open>batch_loop\<close>
  holds the laws of one loop iteration, \<open>resumable_batch\<close> adds the laws of entering the handler
  and of the base completion callback; its lemmas show that a raid I/O completes exactly once,
  after all jobs have been sent once, in order, and have completed.
\<close>

subsection \<open>The reference loop\<close>

text \<open>A job is \<open>None\<close> for a slot whose base bdev is missing.\<close>

fun batch_spec ::
  "(raid_io \<Rightarrow> raid_io) \<Rightarrow> (base_io \<Rightarrow> int) \<Rightarrow> base_io option list \<Rightarrow> raid_io \<Rightarrow> raid_io" where
  "batch_spec fail rc [] rio = rio"
| "batch_spec fail rc (None # js) rio =
     batch_spec fail rc js
       (snd (raid_bdev_io_complete_part 1 STATUS_SUCCESS
               (rio\<lparr>base_bdev_io_submitted := base_bdev_io_submitted rio + 1\<rparr>)))"
| "batch_spec fail rc (Some b # js) rio =
     (if rc b = 0
      then batch_spec fail rc js
             ((rio_emit (EvSubmit b) rio)
                \<lparr>base_bdev_io_submitted := base_bdev_io_submitted rio + 1\<rparr>)
      else if rc b = - ENOMEM then raid_bdev_queue_io_wait (bio_slot b) rio
      else fail rio)"

subsection \<open>The life of one raid I/O\<close>

text \<open>
  \<open>outstanding\<close> are the base I/Os in flight, \<open>waiting\<close> tells that the handler sits in the wait
  queue of a base bdev, \<open>some_failed\<close> that a base I/O has failed.
\<close>

record batch_state =
  bs_rio :: raid_io
  outstanding :: "base_io list"
  waiting :: bool
  some_failed :: bool

fun submitted_of :: "raid_event list \<Rightarrow> base_io list" where
  "submitted_of [] = []"
| "submitted_of (EvSubmit b # es) = b # submitted_of es"
| "submitted_of (_ # es) = submitted_of es"

fun completions_of :: "raid_event list \<Rightarrow> io_status list" where
  "completions_of [] = []"
| "completions_of (EvComplete st # es) = st # completions_of es"
| "completions_of (_ # es) = completions_of es"

fun waits_of :: "raid_event list \<Rightarrow> nat list" where
  "waits_of [] = []"
| "waits_of (EvWait i # es) = i # waits_of es"
| "waits_of (_ # es) = waits_of es"

definition batch_activate :: "(raid_io \<Rightarrow> raid_io) \<Rightarrow> batch_state \<Rightarrow> batch_state" where
  "batch_activate h s =
     (let rio' = h (bs_rio s);
          new = drop (length (rio_events (bs_rio s))) (rio_events rio')
      in s\<lparr>bs_rio := rio', outstanding := outstanding s @ submitted_of new,
           waiting := waits_of new \<noteq> []\<rparr>)"

definition batch_complete ::
  "(bool \<Rightarrow> raid_io \<Rightarrow> raid_io) \<Rightarrow> bool \<Rightarrow> base_io \<Rightarrow> batch_state \<Rightarrow> batch_state" where
  "batch_complete compl success b s =
     s\<lparr>bs_rio := compl success (bs_rio s), outstanding := remove1 b (outstanding s),
       some_failed := some_failed s \<or> \<not> success\<rparr>"

definition batch_init :: batch_state where
  "batch_init = \<lparr>bs_rio = raid_io_init, outstanding = [], waiting = False, some_failed = False\<rparr>"

text \<open>The layer below either takes a base I/O or asks to try again later.\<close>

definition accepts_or_nomem :: "(base_io \<Rightarrow> int) \<Rightarrow> bool" where
  "accepts_or_nomem rc \<longleftrightarrow> (\<forall>b. rc b = 0 \<or> rc b = - ENOMEM)"

inductive batch_reach ::
  "((base_io \<Rightarrow> int) \<Rightarrow> raid_io \<Rightarrow> raid_io) \<Rightarrow> (bool \<Rightarrow> raid_io \<Rightarrow> raid_io) \<Rightarrow> batch_state \<Rightarrow> bool"
  for h compl where
  batch_start:
    "accepts_or_nomem rc \<Longrightarrow> batch_reach h compl (batch_activate (h rc) batch_init)"
| batch_retry:
    "batch_reach h compl s \<Longrightarrow> waiting s \<Longrightarrow> accepts_or_nomem rc \<Longrightarrow>
     batch_reach h compl (batch_activate (h rc) s)"
| batch_done:
    "batch_reach h compl s \<Longrightarrow> b \<in> set (outstanding s) \<Longrightarrow>
     batch_reach h compl (batch_complete compl success b s)"

subsection \<open>Events\<close>

lemma submitted_of_append [simp]: "submitted_of (xs @ ys) = submitted_of xs @ submitted_of ys"
  by (induction xs rule: submitted_of.induct) auto

lemma completions_of_append [simp]:
  "completions_of (xs @ ys) = completions_of xs @ completions_of ys"
  by (induction xs rule: completions_of.induct) auto

lemma waits_of_append [simp]: "waits_of (xs @ ys) = waits_of xs @ waits_of ys"
  by (induction xs rule: waits_of.induct) auto

text \<open>The base I/Os of a list of jobs, the missing slots left out.\<close>

fun jobs_sent :: "base_io option list \<Rightarrow> base_io list" where
  "jobs_sent [] = []"
| "jobs_sent (None # js) = jobs_sent js"
| "jobs_sent (Some b # js) = b # jobs_sent js"

lemma jobs_sent_append [simp]: "jobs_sent (xs @ ys) = jobs_sent xs @ jobs_sent ys"
  by (induction xs rule: jobs_sent.induct) auto

lemma jobs_sent_map_Some [simp]: "jobs_sent (map Some bs) = bs"
  by (induction bs) auto

lemma jobs_sent_take_Suc:
  "k < length js \<Longrightarrow>
   jobs_sent (take (Suc k) js) = jobs_sent (take k js) @ (case js ! k of None \<Rightarrow> [] | Some b \<Rightarrow> [b])"
  by (simp add: take_Suc_conv_app_nth split: option.split)

text \<open>
  What one activation of the loop over the jobs \<open>js\<close> does under answers that are 0 or
  \<open>-ENOMEM\<close>: it gets through the first \<open>j\<close> jobs, has them in its new events in order, queues
  itself exactly when some job is left, and completes the raid I/O exactly when the last open
  part is a missing slot.
\<close>

definition activation :: "base_io option list \<Rightarrow> raid_io \<Rightarrow> raid_io \<Rightarrow> nat \<Rightarrow> raid_event list \<Rightarrow> bool" where
  "activation js rio rio' j new \<longleftrightarrow>
     j \<le> length js \<and>
     rio_events rio' = rio_events rio @ new \<and>
     unat (base_bdev_io_submitted rio') = unat (base_bdev_io_submitted rio) + j \<and>
     unat (base_bdev_io_remaining rio') + j =
       unat (base_bdev_io_remaining rio) + length (jobs_sent (take j js)) \<and>
     base_bdev_io_status rio' = base_bdev_io_status rio \<and>
     submitted_of new = jobs_sent (take j js) \<and>
     (waits_of new \<noteq> [] \<longleftrightarrow> j < length js) \<and>
     completions_of new =
       (if js \<noteq> [] \<and> base_bdev_io_remaining rio' = 0 then [base_bdev_io_status rio] else [])"

lemma batch_spec_activation:
  assumes "accepts_or_nomem rc"
    and "length js \<le> unat (base_bdev_io_remaining rio)"
    and "unat (base_bdev_io_submitted rio) + length js < 256"
  shows "\<exists>j new. activation js rio (batch_spec fail rc js rio) j new"
  using assms
proof (induction js arbitrary: rio)
  case Nil
  then show ?case by (auto simp: activation_def)
next
  case (Cons x js)
  let ?s1 = "base_bdev_io_submitted rio + 1"
  have s1: "unat ?s1 = Suc (unat (base_bdev_io_submitted rio))"
    using Cons.prems(3) by (simp add: unat_plus_no_wrap)
  have R: "Suc (length js) \<le> unat (base_bdev_io_remaining rio)"
    using Cons.prems(2) by simp
  show ?case
  proof (cases x)
    case None
    define r1 where
      "r1 = snd (raid_bdev_io_complete_part 1 STATUS_SUCCESS (rio\<lparr>base_bdev_io_submitted := ?s1\<rparr>))"
    have rem1: "unat (base_bdev_io_remaining r1) = unat (base_bdev_io_remaining rio) - 1"
      using R unfolding r1_def by (simp, subst unat_minus_no_wrap) auto
    have sub1: "unat (base_bdev_io_submitted r1) = Suc (unat (base_bdev_io_submitted rio))"
      using s1 by (simp add: r1_def)
    have "\<exists>j new. activation js r1 (batch_spec fail rc js r1) j new"
      by (rule Cons.IH) (use Cons.prems R rem1 sub1 in auto)
    then obtain j new where IH: "activation js r1 (batch_spec fail rc js r1) j new"
      by blast
    have last: "js = []" if "base_bdev_io_remaining rio = 1"
      using that R by simp
    have one: "base_bdev_io_remaining rio = 1" if "base_bdev_io_remaining r1 = 0"
      using that by (simp add: r1_def)
    have "activation (x # js) rio (batch_spec fail rc (x # js) rio) (Suc j)
       ((if base_bdev_io_remaining rio = 1 then [EvComplete (base_bdev_io_status rio)] else []) @ new)"
      using IH sub1 rem1 R last one unfolding None activation_def r1_def by auto
    then show ?thesis by blast
  next
    case (Some b)
    consider "rc b = 0" | "rc b = - ENOMEM" "rc b \<noteq> 0"
      using Cons.prems(1) by (auto simp: accepts_or_nomem_def)
    then show ?thesis
    proof cases
      case 1
      define r1 where "r1 = (rio_emit (EvSubmit b) rio)\<lparr>base_bdev_io_submitted := ?s1\<rparr>"
      have "\<exists>j new. activation js r1 (batch_spec fail rc js r1) j new"
        by (rule Cons.IH) (use Cons.prems s1 in \<open>auto simp: r1_def\<close>)
      then obtain j new where IH: "activation js r1 (batch_spec fail rc js r1) j new"
        by blast
      have "base_bdev_io_remaining (batch_spec fail rc js r1) \<noteq> 0"
        using IH R by (auto simp: activation_def r1_def)
      then have "activation (x # js) rio (batch_spec fail rc (x # js) rio) (Suc j) (EvSubmit b # new)"
        using IH 1 s1 unfolding Some activation_def r1_def by auto
      then show ?thesis by blast
    next
      case 2
      have "base_bdev_io_remaining rio \<noteq> 0" using R by auto
      then have "activation (x # js) rio (batch_spec fail rc (x # js) rio) 0 [EvWait (bio_slot b)]"
        using 2 unfolding Some activation_def by (auto simp: raid_bdev_queue_io_wait_def)
      then show ?thesis by blast
    qed
  qed
qed

lemma batch_spec_no_wait:
  "waits_of (rio_events (batch_spec fail (\<lambda>_. 0) js rio)) = waits_of (rio_events rio)"
  by (induction fail "\<lambda>_ :: base_io. 0 :: int" js rio rule: batch_spec.induct) auto

subsection \<open>The laws of the loop\<close>

text \<open>
  \<open>ok c\<close> is what the handler relies on for its request \<open>c\<close>, \<open>jobs c\<close> its base I/Os. The laws
  describe one iteration of the loop, with \<open>base_bdev_io_submitted\<close> as its only index.
\<close>

locale batch_loop =
  fixes ok :: "'c \<Rightarrow> bool"
    and loop :: "'c \<Rightarrow> (base_io \<Rightarrow> int) \<Rightarrow> raid_io \<Rightarrow> raid_io"
    and jobs :: "'c \<Rightarrow> base_io option list"
    and fail :: "'c \<Rightarrow> raid_io \<Rightarrow> raid_io"
  assumes jobs_len: "ok c \<Longrightarrow> 0 < length (jobs c) \<and> length (jobs c) < 256"
    and loop_finish:
      "ok c \<Longrightarrow> unat (base_bdev_io_submitted rio) = length (jobs c) \<Longrightarrow> loop c rc rio = rio"
    and loop_skip:
      "ok c \<Longrightarrow> unat (base_bdev_io_submitted rio) < length (jobs c) \<Longrightarrow>
       jobs c ! unat (base_bdev_io_submitted rio) = None \<Longrightarrow>
       loop c rc rio =
         loop c rc (snd (raid_bdev_io_complete_part 1 STATUS_SUCCESS
           (rio\<lparr>base_bdev_io_submitted := base_bdev_io_submitted rio + 1\<rparr>)))"
    and loop_send:
      "ok c \<Longrightarrow> unat (base_bdev_io_submitted rio) < length (jobs c) \<Longrightarrow>
       jobs c ! unat (base_bdev_io_submitted rio) = Some b \<Longrightarrow> rc b = 0 \<Longrightarrow>
       loop c rc rio =
         loop c rc ((rio_emit (EvSubmit b) rio)
           \<lparr>base_bdev_io_submitted := base_bdev_io_submitted rio + 1\<rparr>)"
    and loop_wait:
      "ok c \<Longrightarrow> unat (base_bdev_io_submitted rio) < length (jobs c) \<Longrightarrow>
       jobs c ! unat (base_bdev_io_submitted rio) = Some b \<Longrightarrow> rc b = - ENOMEM \<Longrightarrow>
       loop c rc rio = raid_bdev_queue_io_wait (bio_slot b) rio"
    and loop_hard:
      "ok c \<Longrightarrow> unat (base_bdev_io_submitted rio) < length (jobs c) \<Longrightarrow>
       jobs c ! unat (base_bdev_io_submitted rio) = Some b \<Longrightarrow>
       rc b \<noteq> 0 \<Longrightarrow> rc b \<noteq> - ENOMEM \<Longrightarrow> loop c rc rio = fail c rio"
begin

lemma loop_refines:
  assumes "ok c" and "unat (base_bdev_io_submitted rio) \<le> length (jobs c)"
  shows "loop c rc rio =
    batch_spec (fail c) rc (drop (unat (base_bdev_io_submitted rio)) (jobs c)) rio"
  using assms(2)
proof (induction "length (jobs c) - unat (base_bdev_io_submitted rio)" arbitrary: rio)
  case 0
  then have "unat (base_bdev_io_submitted rio) = length (jobs c)" by simp
  then show ?case using loop_finish[OF assms(1)] by simp
next
  case (Suc d)
  let ?k = "unat (base_bdev_io_submitted rio)"
  have k: "?k < length (jobs c)" using Suc.hyps(2) by simp
  have k1: "unat (base_bdev_io_submitted rio + 1) = Suc ?k"
    using k jobs_len[OF assms(1)] by (subst unat_plus_no_wrap) auto
  have d: "drop ?k (jobs c) = jobs c ! ?k # drop (Suc ?k) (jobs c)"
    using k by (rule Cons_nth_drop_Suc [symmetric])
  have IH: "loop c rc rio' = batch_spec (fail c) rc (drop (Suc ?k) (jobs c)) rio'"
    if "base_bdev_io_submitted rio' = base_bdev_io_submitted rio + 1" for rio'
    using Suc.hyps(1)[of rio'] Suc.hyps(2) that k k1 by auto
  show ?case
  proof (cases "jobs c ! ?k")
    case None
    then show ?thesis using loop_skip[OF assms(1) k] IH d by simp
  next
    case (Some b)
    consider "rc b = 0" | "rc b = - ENOMEM" | "rc b \<noteq> 0" "rc b \<noteq> - ENOMEM" by blast
    then show ?thesis
      using loop_send[OF assms(1) k Some] loop_wait[OF assms(1) k Some]
        loop_hard[OF assms(1) k Some] IH d Some by cases auto
  qed
qed

end

subsection \<open>The laws of the handler\<close>

locale resumable_batch = batch_loop ok loop jobs fail
  for ok :: "'c \<Rightarrow> bool"
    and loop :: "'c \<Rightarrow> (base_io \<Rightarrow> int) \<Rightarrow> raid_io \<Rightarrow> raid_io"
    and jobs :: "'c \<Rightarrow> base_io option list"
    and fail :: "'c \<Rightarrow> raid_io \<Rightarrow> raid_io" +
  fixes handler :: "'c \<Rightarrow> (base_io \<Rightarrow> int) \<Rightarrow> raid_io \<Rightarrow> raid_io"
    and compl :: "bool \<Rightarrow> raid_io \<Rightarrow> raid_io"
  assumes handler_start:
      "ok c \<Longrightarrow> base_bdev_io_remaining rio = 0 \<Longrightarrow> base_bdev_io_submitted rio = 0 \<Longrightarrow>
       handler c rc rio = loop c rc (rio\<lparr>base_bdev_io_remaining := of_nat (length (jobs c))\<rparr>)"
    and handler_resume:
      "ok c \<Longrightarrow> base_bdev_io_remaining rio \<noteq> 0 \<Longrightarrow>
       (base_bdev_io_submitted rio = 0 \<Longrightarrow>
          base_bdev_io_remaining rio = of_nat (length (jobs c))) \<Longrightarrow>
       handler c rc rio = loop c rc rio"
    and compl_part:
      "compl success rio = snd (raid_bdev_io_complete_part 1 (status_of success) rio)"

text \<open>
  What the raid I/O, its base I/Os in flight and the wait queue agree on at every moment:
  \<open>base_bdev_io_remaining\<close> counts the jobs not yet sent and the base I/Os in flight, and the
  parent has been completed, once, exactly when that count is zero.
\<close>

definition batch_inv :: "base_io option list \<Rightarrow> batch_state \<Rightarrow> bool" where
  "batch_inv js s \<longleftrightarrow>
     (let rio = bs_rio s; k = unat (base_bdev_io_submitted rio)
      in k \<le> length js \<and>
         unat (base_bdev_io_remaining rio) = length js - k + length (outstanding s) \<and>
         length (outstanding s) \<le> k \<and>
         (waiting s \<longleftrightarrow> k < length js) \<and>
         base_bdev_io_status rio = status_of (\<not> some_failed s) \<and>
         submitted_of (rio_events rio) = jobs_sent (take k js) \<and>
         completions_of (rio_events rio) =
           (if base_bdev_io_remaining rio = 0 then [base_bdev_io_status rio] else []))"

lemma length_jobs_sent: "length (jobs_sent js) \<le> length js"
  by (induction js rule: jobs_sent.induct) auto

context resumable_batch
begin

lemma activate_inv:
  assumes ok: "ok c" and rc: "accepts_or_nomem rc"
    and h: "h (bs_rio s) = loop c rc rio"
    and ev: "rio_events rio = rio_events (bs_rio s)"
    and k: "unat (base_bdev_io_submitted rio) < length (jobs c)"
    and r: "unat (base_bdev_io_remaining rio) =
      length (jobs c) - unat (base_bdev_io_submitted rio) + length (outstanding s)"
    and o: "length (outstanding s) \<le> unat (base_bdev_io_submitted rio)"
    and st: "base_bdev_io_status rio = status_of (\<not> some_failed s)"
    and su: "submitted_of (rio_events rio) =
      jobs_sent (take (unat (base_bdev_io_submitted rio)) (jobs c))"
    and co: "completions_of (rio_events rio) = []"
  shows "batch_inv (jobs c) (batch_activate h s)"
proof -
  define k where "k = unat (base_bdev_io_submitted rio)"
  define rio' where "rio' = batch_spec (fail c) rc (drop k (jobs c)) rio"
  define s' where "s' = batch_activate h s"
  have ref: "h (bs_rio s) = rio'"
    using h loop_refines[OF ok less_imp_le[OF k]] by (simp add: rio'_def k_def)
  have "\<exists>j new. activation (drop k (jobs c)) rio rio' j new"
    unfolding rio'_def
    by (rule batch_spec_activation[OF rc]) (use assms(5,6) jobs_len[OF ok] in \<open>auto simp: k_def\<close>)
  then obtain j new where act: "activation (drop k (jobs c)) rio rio' j new" by blast
  define sent where "sent = jobs_sent (take j (drop k (jobs c)))"
  note a = act[unfolded activation_def, folded sent_def k_def]
  have s': "bs_rio s' = rio'" "outstanding s' = outstanding s @ sent"
    "waiting s' \<longleftrightarrow> waits_of new \<noteq> []" "some_failed s' = some_failed s"
    using a ev by (auto simp: s'_def batch_activate_def ref Let_def)
  have take: "jobs_sent (take (k + j) (jobs c)) = jobs_sent (take k (jobs c)) @ sent"
    by (simp add: take_add sent_def)
  have len: "length sent \<le> j"
    using length_jobs_sent[of "take j (drop k (jobs c))"] by (simp add: sent_def)
  have sub: "unat (base_bdev_io_submitted rio') = k + j" and j: "k + j \<le> length (jobs c)"
    using a assms(5) by (auto simp: k_def)
  have rem: "unat (base_bdev_io_remaining rio') = length (jobs c) - (k + j) + length (outstanding s')"
    using a assms(6) j by (auto simp: s' k_def)
  have compl: "completions_of (rio_events rio') =
      (if base_bdev_io_remaining rio' = 0 then [base_bdev_io_status rio'] else [])"
    using a co assms(5) by (auto simp: k_def)
  have subm: "submitted_of (rio_events rio') = jobs_sent (take (k + j) (jobs c))"
    using a su unfolding take by (auto simp: k_def)
  have w: "waiting s' \<longleftrightarrow> k + j < length (jobs c)" using a j s' by auto
  have o': "length (outstanding s') \<le> k + j" using o len by (simp add: s' k_def)
  have st': "base_bdev_io_status rio' = status_of (\<not> some_failed s')" using a st s' by simp
  show ?thesis
    unfolding s'_def [symmetric] batch_inv_def Let_def s'(1) sub
    using j rem o' w st' subm compl by blast
qed

lemma start_inv:
  assumes "ok c" and "accepts_or_nomem rc"
  shows "batch_inv (jobs c) (batch_activate (handler c rc) batch_init)"
proof -
  let ?n = "length (jobs c)"
  let ?rio = "raid_io_init\<lparr>base_bdev_io_remaining := of_nat ?n\<rparr>"
  have n: "0 < ?n" "?n < 256" using jobs_len[OF assms(1)] by auto
  then have n64: "unat (of_nat ?n :: u64) = ?n"
    by (simp add: unsigned_of_nat take_bit_nat_eq_self)
  show ?thesis
    by (rule activate_inv[where rio = ?rio, OF assms])
       (use n n64 handler_start[OF assms(1), of raid_io_init rc] in
         \<open>auto simp: batch_init_def raid_io_init_def\<close>)
qed

lemma retry_inv:
  assumes "ok c" and "accepts_or_nomem rc" and inv: "batch_inv (jobs c) s" and w: "waiting s"
  shows "batch_inv (jobs c) (batch_activate (handler c rc) s)"
proof (rule activate_inv[where rio = "bs_rio s", OF assms(1,2)])
  let ?rio = "bs_rio s"
  have k: "unat (base_bdev_io_submitted ?rio) < length (jobs c)"
    using inv w by (auto simp: batch_inv_def Let_def)
  then have rem: "base_bdev_io_remaining ?rio \<noteq> 0"
    using inv by (auto simp: batch_inv_def Let_def)
  have "base_bdev_io_remaining ?rio = of_nat (length (jobs c))" if "base_bdev_io_submitted ?rio = 0"
  proof -
    have "unat (base_bdev_io_remaining ?rio) = length (jobs c)"
      using inv that by (auto simp: batch_inv_def Let_def)
    then show ?thesis by (metis of_nat_unat ucast_id)
  qed
  with rem show "handler c rc ?rio = loop c rc ?rio"
    by (rule handler_resume[OF assms(1)])
  show "completions_of (rio_events ?rio) = []"
    using inv rem by (auto simp: batch_inv_def Let_def)
qed (use inv w in \<open>auto simp: batch_inv_def Let_def\<close>)

lemma complete_inv:
  assumes inv: "batch_inv js s" and b: "b \<in> set (outstanding s)"
  shows "batch_inv js (batch_complete compl success b s)"
proof -
  let ?rio = "bs_rio s"
  obtain m where m: "length (outstanding s) = Suc m"
    using b by (cases "outstanding s") auto
  then have len: "length (remove1 b (outstanding s)) = m"
    using b by (simp add: length_remove1)
  have r: "unat (base_bdev_io_remaining ?rio - 1) = unat (base_bdev_io_remaining ?rio) - 1"
    using inv m by (subst unat_minus_no_wrap) (auto simp: batch_inv_def Let_def)
  have nz: "base_bdev_io_remaining ?rio \<noteq> 0"
    using inv m by (auto simp: batch_inv_def Let_def)
  show ?thesis
    using inv m r len nz
    unfolding batch_inv_def batch_complete_def Let_def compl_part
    by (cases success; cases "some_failed s") auto
qed

lemma reach_inv:
  assumes "ok c" and "batch_reach (handler c) compl s"
  shows "batch_inv (jobs c) s"
  using assms(2)
  by induction (auto intro: start_inv retry_inv complete_inv assms(1))

text \<open>The contract: at most one completion, and exactly when everything is over.\<close>

lemma completes_exactly_once:
  assumes "ok c" and "batch_reach (handler c) compl s"
  shows "if waiting s \<or> outstanding s \<noteq> []
         then completions_of (rio_events (bs_rio s)) = []
         else completions_of (rio_events (bs_rio s)) = [status_of (\<not> some_failed s)] \<and>
              submitted_of (rio_events (bs_rio s)) = jobs_sent (jobs c)"
proof -
  let ?rio = "bs_rio s"
  have inv: "batch_inv (jobs c) s" by (rule reach_inv[OF assms])
  then have zero: "base_bdev_io_remaining ?rio = 0 \<longleftrightarrow> \<not> waiting s \<and> outstanding s = []"
    by (auto simp: batch_inv_def Let_def unat_eq_zero [symmetric] simp del: unat_eq_zero)
  show ?thesis
    using inv zero by (auto simp: batch_inv_def Let_def)
qed

text \<open>A single activation in which the layer below takes everything sends all jobs at once.\<close>

lemma sends_in_order:
  assumes "ok c" and "batch_reach (handler c) compl s"
  shows "\<exists>k \<le> length (jobs c).
    submitted_of (rio_events (bs_rio s)) = jobs_sent (take k (jobs c))"
  using reach_inv[OF assms] by (auto simp: batch_inv_def Let_def)

text \<open>A request can always be finished: all base I/Os accepted at once, then completed.\<close>

lemma drain:
  assumes "batch_reach h compl s"
  shows "\<exists>s'. batch_reach h compl s' \<and> waiting s' = waiting s \<and> outstanding s' = []"
  using assms
proof (induction "length (outstanding s)" arbitrary: s)
  case 0
  then show ?case by auto
next
  case (Suc n)
  then obtain b bs where b: "outstanding s = b # bs" by (cases "outstanding s") auto
  let ?t = "batch_complete compl True b s"
  have "batch_reach h compl ?t" using Suc.prems b by (intro batch_done) simp_all
  moreover have "n = length (outstanding ?t)"
    using Suc.hyps(2) b by (simp add: batch_complete_def)
  ultimately have "\<exists>s'. batch_reach h compl s' \<and> waiting s' = waiting ?t \<and> outstanding s' = []"
    using Suc.hyps(1) by blast
  then show ?case by (simp add: batch_complete_def)
qed

lemma can_finish:
  assumes ok: "ok c"
  shows "\<exists>s. batch_reach (handler c) compl s \<and> \<not> waiting s \<and> outstanding s = []"
proof -
  let ?s = "batch_activate (handler c (\<lambda>_. 0)) batch_init"
  let ?rio = "raid_io_init\<lparr>base_bdev_io_remaining := of_nat (length (jobs c))\<rparr>"
  have "batch_reach (handler c) compl ?s" by (rule batch_start) (simp add: accepts_or_nomem_def)
  moreover have "\<not> waiting ?s"
    using handler_start[OF ok, of raid_io_init "\<lambda>_. 0"] loop_refines[OF ok, of ?rio "\<lambda>_. 0"]
      batch_spec_no_wait[of "fail c" "jobs c" ?rio]
    by (simp add: batch_activate_def batch_init_def raid_io_init_def Let_def)
  ultimately show ?thesis using drain[of "handler c" ?s] by auto
qed

end

subsection \<open>Hard errors\<close>

text \<open>
  A handler that accounts for a hard error by completing all jobs it has not sent, as failed, keeps
  the contract under every answer of the layer below. \<open>batch_reach_any\<close> is \<open>batch_reach\<close> without
  the restriction on the answers.
\<close>

inductive batch_reach_any ::
  "((base_io \<Rightarrow> int) \<Rightarrow> raid_io \<Rightarrow> raid_io) \<Rightarrow> (bool \<Rightarrow> raid_io \<Rightarrow> raid_io) \<Rightarrow> batch_state \<Rightarrow> bool"
  for h compl where
  any_start: "batch_reach_any h compl (batch_activate (h rc) batch_init)"
| any_retry:
    "batch_reach_any h compl s \<Longrightarrow> waiting s \<Longrightarrow> batch_reach_any h compl (batch_activate (h rc) s)"
| any_done:
    "batch_reach_any h compl s \<Longrightarrow> b \<in> set (outstanding s) \<Longrightarrow>
     batch_reach_any h compl (batch_complete compl success b s)"

lemma batch_reach_any_of_reach: "batch_reach h compl s \<Longrightarrow> batch_reach_any h compl s"
  by (induction rule: batch_reach.induct) (auto intro: batch_reach_any.intros)

text \<open>The answers with every hard error read as \<open>-ENOMEM\<close>.\<close>

definition soften :: "(base_io \<Rightarrow> int) \<Rightarrow> base_io \<Rightarrow> int" where
  "soften rc b = (if rc b = 0 then 0 else - ENOMEM)"

lemma soften_accepts: "accepts_or_nomem (soften rc)"
  by (simp add: accepts_or_nomem_def soften_def)

lemma batch_spec_hard:
  "batch_spec fail rc js rio = batch_spec fail (soften rc) js rio \<or>
   (\<exists>j < length js. batch_spec fail rc js rio = fail (batch_spec fail (soften rc) (take j js) rio) \<and>
      (\<forall>i < j. case js ! i of None \<Rightarrow> True | Some b \<Rightarrow> rc b = 0))"
proof (induction js arbitrary: rio)
  case Nil
  then show ?case by simp
next
  case (Cons x js)
  show ?case
  proof (cases "case x of None \<Rightarrow> True | Some b \<Rightarrow> rc b = 0")
    case True
    define r1 where "r1 = (case x of
        None \<Rightarrow> snd (raid_bdev_io_complete_part 1 STATUS_SUCCESS
                  (rio\<lparr>base_bdev_io_submitted := base_bdev_io_submitted rio + 1\<rparr>))
      | Some b \<Rightarrow> (rio_emit (EvSubmit b) rio)
                  \<lparr>base_bdev_io_submitted := base_bdev_io_submitted rio + 1\<rparr>)"
    have step: "batch_spec fail rc' (x # ys) rio = batch_spec fail rc' ys r1"
      if "rc' = rc \<or> rc' = soften rc" for rc' ys
      using True that by (auto simp: r1_def soften_def split: option.splits)
    consider "batch_spec fail rc js r1 = batch_spec fail (soften rc) js r1"
      | j where "j < length js" "batch_spec fail rc js r1 = fail (batch_spec fail (soften rc) (take j js) r1)"
        "\<forall>i < j. case js ! i of None \<Rightarrow> True | Some b \<Rightarrow> rc b = 0"
      using Cons.IH[of r1] by blast
    then show ?thesis
    proof cases
      case 1
      then show ?thesis using step by simp
    next
      case (2 j)
      then have "\<forall>i < Suc j. case (x # js) ! i of None \<Rightarrow> True | Some b \<Rightarrow> rc b = 0"
        using True by (auto simp: nth_Cons split: nat.split)
      then show ?thesis using 2 step by (intro disjI2 exI[of _ "Suc j"]) simp
    qed
  next
    case False
    then obtain b where b: "x = Some b" "rc b \<noteq> 0" by (auto split: option.splits)
    show ?thesis
    proof (cases "rc b = - ENOMEM")
      case True
      then show ?thesis using b by (simp add: soften_def)
    next
      case False
      then have "batch_spec fail rc (x # js) rio = fail (batch_spec fail (soften rc) (take 0 (x # js)) rio)"
        using b by simp
      then show ?thesis by (intro disjI2 exI[of _ 0]) simp
    qed
  qed
qed

lemma batch_spec_all_sent:
  assumes "\<forall>i < length js. case js ! i of None \<Rightarrow> True | Some b \<Rightarrow> rc b = 0"
  shows "waits_of (rio_events (batch_spec fail (soften rc) js rio)) = waits_of (rio_events rio)"
  using assms
proof (induction js arbitrary: rio)
  case (Cons x js)
  have "\<forall>i < length js. case js ! i of None \<Rightarrow> True | Some b \<Rightarrow> rc b = 0"
    using Cons.prems by force
  moreover have "case x of None \<Rightarrow> True | Some b \<Rightarrow> rc b = 0"
    using Cons.prems by force
  ultimately show ?case
    using Cons.IH by (cases x) (auto simp: soften_def)
qed simp

definition batch_inv_any :: "base_io option list \<Rightarrow> batch_state \<Rightarrow> bool" where
  "batch_inv_any js s \<longleftrightarrow>
     (let rio = bs_rio s; k = unat (base_bdev_io_submitted rio)
      in k \<le> length js \<and>
         unat (base_bdev_io_remaining rio) =
           (if waiting s then length js - k else 0) + length (outstanding s) \<and>
         length (outstanding s) \<le> k \<and>
         (waiting s \<longrightarrow> k < length js) \<and>
         base_bdev_io_status rio =
           status_of (\<not> some_failed s \<and> (waiting s \<or> k = length js)) \<and>
         submitted_of (rio_events rio) = jobs_sent (take k js) \<and>
         completions_of (rio_events rio) =
           (if base_bdev_io_remaining rio = 0 then [base_bdev_io_status rio] else []))"

lemma batch_inv_imp_any: "batch_inv js s \<Longrightarrow> batch_inv_any js s"
  by (auto simp: batch_inv_def batch_inv_any_def Let_def)

locale failing_batch = resumable_batch +
  assumes fail_part:
    "ok c \<Longrightarrow> unat (base_bdev_io_submitted rio) \<le> length (jobs c) \<Longrightarrow>
     fail c rio = snd (raid_bdev_io_complete_part
       (of_nat (length (jobs c) - unat (base_bdev_io_submitted rio))) STATUS_FAILED rio)"
begin

text \<open>One activation, hard errors included, from a state with jobs left.\<close>

lemma activate_any:
  assumes ok: "ok c"
    and h: "handler c rc (bs_rio s) = loop c rc rio"
    and ev: "rio_events rio = rio_events (bs_rio s)"
    and k: "unat (base_bdev_io_submitted rio) < length (jobs c)"
    and r: "unat (base_bdev_io_remaining rio) =
      length (jobs c) - unat (base_bdev_io_submitted rio) + length (outstanding s)"
    and o: "length (outstanding s) \<le> unat (base_bdev_io_submitted rio)"
    and st: "base_bdev_io_status rio = status_of (\<not> some_failed s)"
    and su: "submitted_of (rio_events rio) =
      jobs_sent (take (unat (base_bdev_io_submitted rio)) (jobs c))"
    and co: "completions_of (rio_events rio) = []"
  shows "batch_inv_any (jobs c) (batch_activate (handler c rc) s)"
proof -
  define k where "k = unat (base_bdev_io_submitted rio)"
  let ?js = "drop k (jobs c)"
  define soft where "soft ys = batch_spec (fail c) (soften rc) ys rio" for ys
  have ref: "handler c rc (bs_rio s) = batch_spec (fail c) rc ?js rio"
    using h loop_refines[OF ok less_imp_le[OF assms(4)]] by (simp add: k_def)
  have act: "\<exists>j' new. activation ys rio (soft ys) j' new" if "length ys \<le> length ?js" for ys
    unfolding soft_def
    by (rule batch_spec_activation[OF soften_accepts])
       (use that assms(5) jobs_len[OF ok] assms(4) in \<open>auto simp: k_def\<close>)
  have upd: "bs_rio (batch_activate (handler c rc) s) = rio'"
    "outstanding (batch_activate (handler c rc) s) = outstanding s @ submitted_of new"
    "waiting (batch_activate (handler c rc) s) \<longleftrightarrow> waits_of new \<noteq> []"
    "some_failed (batch_activate (handler c rc) s) = some_failed s"
    if "handler c rc (bs_rio s) = rio'" "rio_events rio' = rio_events rio @ new" for rio' new
    using that ev by (simp_all add: batch_activate_def Let_def)
  have tk: "jobs_sent (take (k + j) (jobs c)) = jobs_sent (take k (jobs c)) @ jobs_sent (take j ?js)"
    for j by (simp add: take_add)
  have len: "length (jobs_sent (take j ?js)) \<le> j" for j
    using length_jobs_sent[of "take j ?js"] by simp
  consider (soft) "batch_spec (fail c) rc ?js rio = soft ?js"
    | (hard) j where "j < length ?js" "batch_spec (fail c) rc ?js rio = fail c (soft (take j ?js))"
      "\<forall>i < j. case ?js ! i of None \<Rightarrow> True | Some b \<Rightarrow> rc b = 0"
    using batch_spec_hard[of "fail c" rc ?js rio] unfolding soft_def by blast
  then show ?thesis
  proof cases
    case soft
    have "handler c rc (bs_rio s) = loop c (soften rc) rio"
      using soft loop_refines[OF ok less_imp_le[OF assms(4)]] unfolding ref soft_def k_def by simp
    then show ?thesis
      by (rule batch_inv_imp_any[OF activate_inv[OF ok soften_accepts _ assms(3-9)]])
  next
    case (hard j)
    obtain j' new where a: "activation (take j ?js) rio (soft (take j ?js)) j' new"
      using act[of "take j ?js"] by auto
    note a' = a[unfolded activation_def]
    have evs: "rio_events (soft (take j ?js)) = rio_events rio @ new" using a' by blast
    have "waits_of (rio_events (soft (take j ?js))) = waits_of (rio_events rio)"
      unfolding soft_def by (rule batch_spec_all_sent) (use hard in auto)
    then have nw: "waits_of new = []" by (simp add: evs)
    then have j': "j' = j" using a' hard(1) by auto
    define r1 where "r1 = soft (take j ?js)"
    have sub: "unat (base_bdev_io_submitted r1) = k + j" using a' j' by (simp add: r1_def k_def)
    have jl: "k + j < length (jobs c)" using hard(1) by simp
    let ?m = "length (jobs c) - (k + j)"
    have "?m < 256" using jobs_len[OF ok] by linarith
    then have "?m < 2 ^ LENGTH(64)" by simp
    then have m64: "unat (of_nat ?m :: u64) = ?m"
      by (simp only: unsigned_of_nat take_bit_nat_eq_self of_nat_id)
    have rem: "unat (base_bdev_io_remaining r1) = ?m + length (outstanding s @ submitted_of new)"
    proof -
      have "unat (base_bdev_io_remaining r1) + j =
          unat (base_bdev_io_remaining rio) + length (submitted_of new)"
        using a' j' by (simp add: r1_def)
      then show ?thesis using assms(5) jl unfolding k_def [symmetric] length_append by linarith
    qed
    have "base_bdev_io_remaining r1 \<noteq> 0" using rem jl by auto
    then have c0: "completions_of new = []" using a' by (auto simp: r1_def)
    have f: "fail c r1 = snd (raid_bdev_io_complete_part (of_nat ?m) STATUS_FAILED r1)"
      using fail_part[OF ok, of r1] sub jl by simp
    let ?fin = "if base_bdev_io_remaining r1 = of_nat ?m then [EvComplete STATUS_FAILED] else []"
    have "rio_events (fail c r1) = rio_events rio @ (new @ ?fin)"
      unfolding f by (simp add: r1_def evs)
    note u = upd[OF ref[unfolded hard(2), folded r1_def] this]
    have rem': "unat (base_bdev_io_remaining r1 - of_nat ?m) = length (outstanding s @ submitted_of new)"
      using rem m64 by (subst unat_minus_no_wrap) simp_all
    have c1: "length (outstanding s @ submitted_of new) \<le> k + j"
      using assms(6) a' j' len[of j] by (simp add: k_def)
    have c2: "submitted_of (rio_events rio @ (new @ ?fin)) = jobs_sent (take (k + j) (jobs c))"
      using a' j' assms(8) tk[of j] by (simp add: k_def)
    have c3: "completions_of (rio_events rio @ (new @ ?fin)) =
        (if base_bdev_io_remaining r1 - of_nat ?m = 0 then [STATUS_FAILED] else [])"
      using assms(9) c0 by simp
    have fsub: "unat (base_bdev_io_submitted (fail c r1)) = k + j"
      and fst: "base_bdev_io_status (fail c r1) = STATUS_FAILED"
      and frem: "base_bdev_io_remaining (fail c r1) = base_bdev_io_remaining r1 - of_nat ?m"
      unfolding f using sub by simp_all
    have fev: "rio_events (fail c r1) = rio_events rio @ (new @ ?fin)"
      unfolding f by (simp add: r1_def evs)
    have nwl: "\<not> waits_of (new @ ?fin) \<noteq> []" and sub_new: "submitted_of (new @ ?fin) = submitted_of new"
      using nw by simp_all
    show ?thesis
      unfolding batch_inv_any_def Let_def u fsub frem fst fev rem' sub_new c2 c3
      using c1 jl nwl by simp
  qed
qed

lemma start_any:
  assumes ok: "ok c"
  shows "batch_inv_any (jobs c) (batch_activate (handler c rc) batch_init)"
proof -
  let ?n = "length (jobs c)"
  let ?rio = "raid_io_init\<lparr>base_bdev_io_remaining := of_nat ?n\<rparr>"
  have n: "0 < ?n" "?n < 256" using jobs_len[OF ok] by auto
  then have n64: "unat (of_nat ?n :: u64) = ?n"
    by (simp add: unsigned_of_nat take_bit_nat_eq_self)
  show ?thesis
    by (rule activate_any[where rio = ?rio, OF ok])
       (use n n64 handler_start[OF ok, of raid_io_init rc] in
         \<open>auto simp: batch_init_def raid_io_init_def\<close>)
qed

lemma retry_any:
  assumes ok: "ok c" and inv: "batch_inv_any (jobs c) s" and w: "waiting s"
  shows "batch_inv_any (jobs c) (batch_activate (handler c rc) s)"
proof (rule activate_any[where rio = "bs_rio s", OF ok])
  let ?rio = "bs_rio s"
  have k: "unat (base_bdev_io_submitted ?rio) < length (jobs c)"
    using inv w by (auto simp: batch_inv_any_def Let_def)
  then have rem: "base_bdev_io_remaining ?rio \<noteq> 0"
    using inv w by (auto simp: batch_inv_any_def Let_def)
  have "base_bdev_io_remaining ?rio = of_nat (length (jobs c))" if "base_bdev_io_submitted ?rio = 0"
  proof -
    have "unat (base_bdev_io_remaining ?rio) = length (jobs c)"
      using inv that w by (auto simp: batch_inv_any_def Let_def)
    then show ?thesis by (metis of_nat_unat ucast_id)
  qed
  with rem show "handler c rc ?rio = loop c rc ?rio"
    by (rule handler_resume[OF ok])
  show "completions_of (rio_events ?rio) = []"
    using inv rem by (auto simp: batch_inv_any_def Let_def)
qed (use inv w in \<open>auto simp: batch_inv_any_def Let_def\<close>)

lemma complete_any:
  assumes inv: "batch_inv_any js s" and b: "b \<in> set (outstanding s)"
  shows "batch_inv_any js (batch_complete compl success b s)"
proof -
  let ?rio = "bs_rio s"
  obtain m where m: "length (outstanding s) = Suc m"
    using b by (cases "outstanding s") auto
  then have len: "length (remove1 b (outstanding s)) = m"
    using b by (simp add: length_remove1)
  have r: "unat (base_bdev_io_remaining ?rio - 1) = unat (base_bdev_io_remaining ?rio) - 1"
    using inv m by (subst unat_minus_no_wrap) (auto simp: batch_inv_any_def Let_def split: if_splits)
  have nz: "base_bdev_io_remaining ?rio \<noteq> 0"
    using inv m by (auto simp: batch_inv_any_def Let_def split: if_splits)
  have one: "base_bdev_io_remaining ?rio - 1 = 0 \<longleftrightarrow> base_bdev_io_remaining ?rio = 1" by simp
  show ?thesis
    using inv m r len nz
    unfolding batch_inv_any_def batch_complete_def Let_def compl_part
    by (cases success; cases "some_failed s"; cases "waiting s") (auto simp: status_of_def)
qed

lemma reach_any_inv:
  assumes "ok c" and "batch_reach_any (handler c) compl s"
  shows "batch_inv_any (jobs c) s"
  using assms(2)
  by induction (auto intro: start_any retry_any complete_any assms(1))

text \<open>The contract under every answer of the layer below.\<close>

lemma completes_exactly_once_any:
  assumes "ok c" and "batch_reach_any (handler c) compl s"
  shows "\<exists>k \<le> length (jobs c). submitted_of (rio_events (bs_rio s)) = jobs_sent (take k (jobs c)) \<and>
    completions_of (rio_events (bs_rio s)) =
      (if waiting s \<or> outstanding s \<noteq> [] then []
       else [status_of (\<not> some_failed s \<and> k = length (jobs c))])"
proof -
  let ?rio = "bs_rio s"
  have inv: "batch_inv_any (jobs c) s" by (rule reach_any_inv[OF assms])
  then have zero: "base_bdev_io_remaining ?rio = 0 \<longleftrightarrow> \<not> waiting s \<and> outstanding s = []"
    by (auto simp: batch_inv_any_def Let_def unat_eq_zero [symmetric] simp del: unat_eq_zero)
  show ?thesis
    using inv zero by (intro exI[of _ "unat (base_bdev_io_submitted ?rio)"])
      (auto simp: batch_inv_any_def Let_def)
qed

end

end
