(* ===== verification/Raid5f_Write.thy ===== *)
theory Raid5f_Write
  imports Raid5f_Iovecs Raid_Batch
begin

text \<open>
  The submission of the chunks of a full-stripe write of \<open>raid/raid5f.c\<close>, its retries and its
  completions. The interpretation \<open>raid5f_write_batch\<close> shows that the raid I/O of such a write keeps
  the contract of \<open>failing_batch\<close>; \<open>r5_write_reach\<close> is the life of the write on its channel, where
  the stripe request must also come back to the free list, once.
\<close>

subsection \<open>The raid I/O of a stripe request\<close>

text \<open>The submission of chunks, seen from the raid I/O alone.\<close>

definition chunks_left :: "r5_env \<Rightarrow> stripe_request \<Rightarrow> raid_io \<Rightarrow> u64" where
  "chunks_left e s rio =
     word_of_int (uint (case sr_type s of
         STRIPE_REQ_WRITE \<Rightarrow> num_base_bdevs (env_rb e)
       | STRIPE_REQ_RECONSTRUCT \<Rightarrow> raid5f_stripe_data_chunks_num (env_rb e))
     - uint (base_bdev_io_submitted rio))"

definition chunk_fail :: "r5_env \<Rightarrow> stripe_request \<Rightarrow> raid_io \<Rightarrow> raid_io" where
  "chunk_fail e s rio = snd (raid_bdev_io_complete_part (chunks_left e s rio) STATUS_FAILED rio)"

primrec chunks_rio :: "r5_env \<Rightarrow> stripe_request \<Rightarrow> nat list \<Rightarrow> raid_io \<Rightarrow> raid_io" where
  "chunks_rio e s [] rio = rio"
| "chunks_rio e s (i # js) rio =
     (let rio1 = rio\<lparr>base_bdev_io_submitted := base_bdev_io_submitted rio + 1\<rparr>;
          b = chunk_base_io e s i
      in if chunk_skipped e s i
         then chunks_rio e s js (snd (raid_bdev_io_complete_part 1 STATUS_SUCCESS rio1))
         else if env_rc e b = 0 then chunks_rio e s js (rio_emit (EvSubmit b) rio1)
         else if env_rc e b = - ENOMEM then raid_bdev_queue_io_wait i rio
         else chunk_fail e s rio)"

lemma raid_io_submitted_same [simp]:
  "rio\<lparr>base_bdev_io_submitted := base_bdev_io_submitted rio\<rparr> = (rio :: raid_io)"
  by (cases rio) simp

lemma poisoned_chunk [simp]:
  "chunk_base_io e (s\<lparr>sr_poisoned := p\<rparr>) i = chunk_base_io e s i"
  "chunk_skipped e (s\<lparr>sr_poisoned := p\<rparr>) i = chunk_skipped e s i"
  "chunk_fail e (s\<lparr>sr_poisoned := p\<rparr>) rio = chunk_fail e s rio"
  by (simp_all add: chunk_base_io_def chunk_skipped_def chunk_fail_def chunks_left_def ck_used_def Let_def
      cong: stripe_request_type.case_cong)

lemma poisoned_chunks [simp]: "chunks_rio e (s\<lparr>sr_poisoned := p\<rparr>) js rio = chunks_rio e s js rio"
  by (induction js arbitrary: rio) (simp_all add: Let_def)

text \<open>Stripe requests that differ at most in the mark of the bit flip.\<close>

definition same_stripe :: "stripe_request \<Rightarrow> stripe_request \<Rightarrow> bool" where
  "same_stripe s s' \<longleftrightarrow> (\<exists>p. s' = s\<lparr>sr_poisoned := p\<rparr>)"

lemma same_stripe_refl [simp]: "same_stripe s s"
  unfolding same_stripe_def by (rule exI[of _ "sr_poisoned s"]) simp

lemma same_stripe_trans: "same_stripe s s' \<Longrightarrow> same_stripe s' s'' \<Longrightarrow> same_stripe s s''"
  by (auto simp: same_stripe_def)

lemma same_stripeD:
  assumes "same_stripe s s'"
  shows "sr_type s' = sr_type s" "sr_raid_io s' = sr_raid_io s"
    "chunk_base_io e s' = chunk_base_io e s" "chunk_skipped e s' = chunk_skipped e s"
    "chunks_rio e s' = chunks_rio e s" "sr_chunks s' = sr_chunks s" "chunks_left e s' = chunks_left e s"
  using assms by (auto simp: same_stripe_def fun_eq_iff chunks_left_def)

lemma r5_update_simps [simp]:
  "r5_ios (r5_stripe sid f w) = r5_ios w"
  "r5_stripes (r5_io io g w) = r5_stripes w"
  "r5_stripes (raid5f_stripe_request_release sid w) = r5_stripes w"
  "r5_ios (raid5f_stripe_request_release sid w) = r5_ios w"
  "r5_ios (r5_io io g w) io = g (r5_ios w io)"
  "r5_stripes (r5_stripe sid f w) sid = f (r5_stripes w sid)"
  "fst (r5_complete_part io n st w) \<longleftrightarrow> base_bdev_io_remaining (r5_ios w io) = n"
  "r5_stripes (snd (r5_complete_part io n st w)) = r5_stripes w"
  "r5_ios (snd (r5_complete_part io n st w)) io = snd (raid_bdev_io_complete_part n st (r5_ios w io))"
  by (simp_all add: r5_stripe_def r5_io_def raid5f_stripe_request_release_def r5_complete_part_def
      split: stripe_request_type.split)

lemma chunk_poison_simps [simp]:
  "r5_ios (chunk_poison e sid i w) = r5_ios w"
  "free_write (chunk_poison e sid i w) = free_write w"
  "same_stripe (r5_stripes w sid) (r5_stripes (chunk_poison e sid i w) sid)"
  by (auto simp: chunk_poison_def Let_def r5_stripe_def same_stripe_def intro: exI[of _ "sr_poisoned (r5_stripes w sid)"])

lemma r5_update_free [simp]:
  "free_write (r5_stripe sid f w) = free_write w"
  "free_write (r5_io io g w) = free_write w"
  "free_write (snd (r5_complete_part io n st w)) = free_write w"
  by (simp_all add: r5_stripe_def r5_io_def r5_complete_part_def)

lemma chunk_refused_hard:
  fixes w :: r5_world and sid :: nat and e :: r5_env
  defines "s \<equiv> r5_stripes w sid"
  defines "w' \<equiv> r5_io (sr_raid_io s)
    (\<lambda>rio. rio\<lparr>base_bdev_io_submitted := base_bdev_io_submitted rio - 1\<rparr>) w"
  defines "p \<equiv> r5_complete_part (sr_raid_io s) (chunks_left e s (r5_ios w' (sr_raid_io s))) STATUS_FAILED w'"
  assumes "ret \<noteq> - ENOMEM"
  shows "chunk_refused e sid i ret w =
    (if fst p then raid5f_stripe_request_release sid (snd p) else snd p)"
  using assms(4)
  unfolding chunk_refused_def Let_def p_def chunks_left_def s_def w'_def case_prod_beta by (simp only: if_False)

lemma release_free_write:
  "sr_type (r5_stripes w sid) = STRIPE_REQ_WRITE \<Longrightarrow>
   free_write (raid5f_stripe_request_release sid w) = sid # free_write w"
  by (simp add: raid5f_stripe_request_release_def)

lemma rio_emit_submitted:
  "rio_emit ev (rio\<lparr>base_bdev_io_submitted := k\<rparr>) = (rio_emit ev rio)\<lparr>base_bdev_io_submitted := k\<rparr>"
  by (cases rio) (simp add: rio_emit_def)

text \<open>One chunk.\<close>

lemma chunk_submit_step:
  fixes w :: r5_world and sid i :: nat and e :: r5_env
  defines "s \<equiv> r5_stripes w sid" and "w' \<equiv> snd (raid5f_chunk_submit e sid i w)"
  defines "rio \<equiv> r5_ios w (sr_raid_io s)" and "b \<equiv> chunk_base_io e s i"
  defines "rio1 \<equiv> rio\<lparr>base_bdev_io_submitted := base_bdev_io_submitted rio + 1\<rparr>"
  shows "same_stripe s (r5_stripes w' sid)"
    and "chunk_skipped e s i \<Longrightarrow> fst (raid5f_chunk_submit e sid i w) = 0 \<and>
      free_write w' = free_write w \<and>
      r5_ios w' (sr_raid_io s) = snd (raid_bdev_io_complete_part 1 STATUS_SUCCESS rio1)"
    and "\<not> chunk_skipped e s i \<Longrightarrow> env_rc e b = 0 \<Longrightarrow> fst (raid5f_chunk_submit e sid i w) = 0 \<and>
      free_write w' = free_write w \<and> r5_ios w' (sr_raid_io s) = rio_emit (EvSubmit b) rio1"
    and "\<not> chunk_skipped e s i \<Longrightarrow> env_rc e b = - ENOMEM \<Longrightarrow>
      fst (raid5f_chunk_submit e sid i w) \<noteq> 0 \<and> free_write w' = free_write w \<and>
      r5_ios w' (sr_raid_io s) = raid_bdev_queue_io_wait i rio"
    and "\<not> chunk_skipped e s i \<Longrightarrow> env_rc e b \<noteq> 0 \<Longrightarrow> env_rc e b \<noteq> - ENOMEM \<Longrightarrow>
      fst (raid5f_chunk_submit e sid i w) \<noteq> 0 \<and>
      r5_ios w' (sr_raid_io s) = chunk_fail e s rio \<and>
      (sr_type s = STRIPE_REQ_WRITE \<longrightarrow>
       free_write w' = (if base_bdev_io_remaining (chunk_fail e s rio) = 0
         then sid # free_write w else free_write w))"
proof -
  let ?io = "sr_raid_io s"
  define w1 where "w1 = r5_io ?io (\<lambda>rio. rio\<lparr>base_bdev_io_submitted := base_bdev_io_submitted rio + 1\<rparr>) w"
  define w2 where "w2 = chunk_poison e sid i w1"
  define w3 where "w3 = r5_io ?io (\<lambda>rio. snd (bdev_submit (env_rc e) b rio)) w2"
  have st1: "r5_stripes w1 sid = s" by (simp add: w1_def s_def)
  have st2: "same_stripe s (r5_stripes w2 sid)"
    using chunk_poison_simps(3)[of w1 sid e i] by (simp add: w2_def st1)
  have st3: "same_stripe s (r5_stripes w3 sid)" using st2 by (simp add: w3_def)
  note [simp] = same_stripeD[OF st2] same_stripeD[OF st3]
  have f: "free_write w1 = free_write w" "free_write w2 = free_write w" "free_write w3 = free_write w"
    by (simp_all add: w1_def w2_def w3_def)
  have r1: "r5_ios w1 ?io = rio1" by (simp add: w1_def rio1_def rio_def)
  have r2: "r5_ios w2 ?io = rio1" by (simp add: w2_def r1)
  have r3: "r5_ios w3 ?io = snd (bdev_submit (env_rc e) b rio1)" by (simp add: w3_def r2)
  have b: "chunk_base_io e (r5_stripes w2 sid) i = b" by (simp add: b_def)
  have sub: "raid5f_chunk_submit e sid i w =
      (if chunk_skipped e s i then (0, snd (r5_complete_part ?io 1 STATUS_SUCCESS w1))
       else (env_rc e b, if env_rc e b \<noteq> 0 then chunk_refused e sid i (env_rc e b) w3 else w3))"
    unfolding raid5f_chunk_submit_def Let_def s_def[symmetric] w1_def[symmetric] w2_def[symmetric]
      st1 b_def[symmetric] b w3_def[symmetric] by simp
  show "same_stripe s (r5_stripes w' sid)"
    using st3 st1 by (simp add: w'_def sub chunk_refused_def Let_def case_prod_beta)
  show "chunk_skipped e s i \<Longrightarrow> fst (raid5f_chunk_submit e sid i w) = 0 \<and>
      free_write w' = free_write w \<and>
      r5_ios w' (sr_raid_io s) = snd (raid_bdev_io_complete_part 1 STATUS_SUCCESS rio1)"
    by (simp add: w'_def sub f r1)
  show "\<not> chunk_skipped e s i \<Longrightarrow> env_rc e b = 0 \<Longrightarrow> fst (raid5f_chunk_submit e sid i w) = 0 \<and>
      free_write w' = free_write w \<and> r5_ios w' (sr_raid_io s) = rio_emit (EvSubmit b) rio1"
    by (simp add: w'_def sub f r3 bdev_submit_def)
  have restored: "rio1\<lparr>base_bdev_io_submitted := base_bdev_io_submitted rio1 - 1\<rparr> = rio"
    by (simp add: rio1_def)
  show "\<not> chunk_skipped e s i \<Longrightarrow> env_rc e b = - ENOMEM \<Longrightarrow>
      fst (raid5f_chunk_submit e sid i w) \<noteq> 0 \<and> free_write w' = free_write w \<and>
      r5_ios w' (sr_raid_io s) = raid_bdev_queue_io_wait i rio"
    by (simp add: w'_def sub chunk_refused_def f r3 bdev_submit_def restored Let_def)
  show "\<not> chunk_skipped e s i \<Longrightarrow> env_rc e b \<noteq> 0 \<Longrightarrow> env_rc e b \<noteq> - ENOMEM \<Longrightarrow>
      fst (raid5f_chunk_submit e sid i w) \<noteq> 0 \<and>
      r5_ios w' (sr_raid_io s) = chunk_fail e s rio \<and>
      (sr_type s = STRIPE_REQ_WRITE \<longrightarrow>
       free_write w' = (if base_bdev_io_remaining (chunk_fail e s rio) = 0
         then sid # free_write w else free_write w))"
    by (simp add: w'_def sub chunk_refused_hard f r3 bdev_submit_def restored release_free_write
        chunk_fail_def)
qed


text \<open>All chunks from some slot on.\<close>

lemma submit_chunks_rio:
  "r5_ios (submit_chunks_from e sid js w) (sr_raid_io (r5_stripes w sid)) =
     chunks_rio e (r5_stripes w sid) js (r5_ios w (sr_raid_io (r5_stripes w sid))) \<and>
   same_stripe (r5_stripes w sid) (r5_stripes (submit_chunks_from e sid js w) sid)"
proof (induction js arbitrary: w)
  case Nil
  then show ?case by simp
next
  case (Cons i js)
  let ?s = "r5_stripes w sid" and ?w' = "snd (raid5f_chunk_submit e sid i w)"
  note step = chunk_submit_step[where w = w and sid = sid and e = e and i = i]
  have st: "same_stripe ?s (r5_stripes ?w' sid)" by (rule step(1))
  have rest: "r5_ios (submit_chunks_from e sid js ?w') (sr_raid_io ?s) =
      chunks_rio e ?s js (r5_ios ?w' (sr_raid_io ?s)) \<and>
    same_stripe ?s (r5_stripes (submit_chunks_from e sid js ?w') sid)"
    using Cons.IH[of ?w'] same_stripeD[OF st] same_stripe_trans[OF st] by simp
  consider "chunk_skipped e ?s i" | "\<not> chunk_skipped e ?s i" "env_rc e (chunk_base_io e ?s i) = 0"
    | "\<not> chunk_skipped e ?s i" "env_rc e (chunk_base_io e ?s i) = - ENOMEM"
    | "\<not> chunk_skipped e ?s i" "env_rc e (chunk_base_io e ?s i) \<noteq> 0"
      "env_rc e (chunk_base_io e ?s i) \<noteq> - ENOMEM" by blast
  then show ?case
    by cases (use step rest st in \<open>simp_all add: Let_def case_prod_beta\<close>)
qed

subsection \<open>Writes keep the contract\<close>

type_synonym raid5f_write = "r5_env \<times> stripe_request"

fun raid5f_write_ok :: "raid5f_write \<Rightarrow> bool" where
  "raid5f_write_ok (e, s) \<longleftrightarrow> num_base_bdevs (env_rb e) \<noteq> 0 \<and> sr_type s = STRIPE_REQ_WRITE"

fun raid5f_write_jobs :: "raid5f_write \<Rightarrow> base_io option list" where
  "raid5f_write_jobs (e, s) =
     map (\<lambda>i. if chunk_skipped e s i then None else Some (chunk_base_io e s i))
       [0..<unat (num_base_bdevs (env_rb e))]"

fun raid5f_write_loop :: "raid5f_write \<Rightarrow> (base_io \<Rightarrow> int) \<Rightarrow> raid_io \<Rightarrow> raid_io" where
  "raid5f_write_loop (e, s) rc rio =
     chunks_rio (e\<lparr>env_rc := rc\<rparr>) s
       [unat (base_bdev_io_submitted rio)..<unat (num_base_bdevs (env_rb e))] rio"

fun raid5f_write_fail :: "raid5f_write \<Rightarrow> raid_io \<Rightarrow> raid_io" where
  "raid5f_write_fail (e, s) rio = chunk_fail e s rio"

text \<open>\<open>raid5f_submit_write_request\<close> sets the count, every later activation goes on from it.\<close>

fun raid5f_write_handler :: "raid5f_write \<Rightarrow> (base_io \<Rightarrow> int) \<Rightarrow> raid_io \<Rightarrow> raid_io" where
  "raid5f_write_handler (e, s) rc rio =
     raid5f_write_loop (e, s) rc
       (if base_bdev_io_remaining rio = 0
        then rio\<lparr>base_bdev_io_remaining := ucast (num_base_bdevs (env_rb e))\<rparr> else rio)"

definition raid5f_write_completion :: "bool \<Rightarrow> raid_io \<Rightarrow> raid_io" where
  "raid5f_write_completion success rio =
     snd (raid_bdev_io_complete_part 1 (status_of success) rio)"

lemma env_rc_irrelevant [simp]:
  "chunk_base_io (e\<lparr>env_rc := rc\<rparr>) s i = chunk_base_io e s i"
  "chunk_skipped (e\<lparr>env_rc := rc\<rparr>) s i = chunk_skipped e s i"
  "chunk_fail (e\<lparr>env_rc := rc\<rparr>) s rio = chunk_fail e s rio"
  "chunk_base_io (e\<lparr>env_poison := p\<rparr>) s i = chunk_base_io e s i"
  "chunk_skipped (e\<lparr>env_poison := p\<rparr>) s i = chunk_skipped e s i"
  "chunk_fail (e\<lparr>env_poison := p\<rparr>) s rio = chunk_fail e s rio"
  by (simp_all add: chunk_base_io_def chunk_skipped_def chunk_fail_def chunks_left_def ck_used_def Let_def
      cong: stripe_request_type.case_cong)

lemma raid5f_write_jobs_length [simp]:
  "length (raid5f_write_jobs (e, s)) = unat (num_base_bdevs (env_rb e))"
  by simp

lemma raid5f_write_jobs_nth [simp]:
  "k < unat (num_base_bdevs (env_rb e)) \<Longrightarrow>
   raid5f_write_jobs (e, s) ! k = (if chunk_skipped e s k then None else Some (chunk_base_io e s k))"
  by simp

declare raid5f_write_jobs.simps [simp del]

lemma chunk_base_io_slot: "bio_slot (chunk_base_io e s i) = i"
  by (simp add: chunk_base_io_def raid_bdev_writev_blocks_ext_def raid_bdev_readv_blocks_ext_def Let_def
      split: stripe_request_type.split)

interpretation raid5f_write_batch: failing_batch raid5f_write_ok raid5f_write_loop raid5f_write_jobs
  raid5f_write_fail raid5f_write_handler raid5f_write_completion
proof (unfold_locales, goal_cases)
  case (1 c)
  then show ?case by (cases c) (auto simp: unat_gt_0)
next
  case (2 c rio rc)
  then show ?case by (cases c) simp
next
  case (3 c rio rc)
  then show ?case by (cases c) (auto simp: upt_conv_Cons unat_u8_Suc split: if_splits)
next
  case (4 c rio b rc)
  then show ?case by (cases c) (auto simp: upt_conv_Cons unat_u8_Suc rio_emit_submitted split: if_splits)
next
  case (5 c rio b rc)
  then show ?case by (cases c) (auto simp: upt_conv_Cons chunk_base_io_slot split: if_splits)
next
  case (6 c rio b rc)
  then show ?case by (cases c) (auto simp: upt_conv_Cons split: if_splits)
next
  case (7 c rio rc)
  then show ?case by (cases c) (simp add: unsigned_ucast_eq del: raid5f_write_loop.simps)
next
  case (8 c rio rc)
  then show ?case by (cases c) (simp del: raid5f_write_loop.simps)
next
  case (9 success rio)
  then show ?case by (simp add: raid5f_write_completion_def)
next
  case (10 c rio)
  obtain e s where c: "c = (e, s)" by (cases c)
  have "uint (num_base_bdevs (env_rb e)) - uint (base_bdev_io_submitted rio) =
      int (unat (num_base_bdevs (env_rb e)) - unat (base_bdev_io_submitted rio))"
    using 10(2) by (simp add: c of_nat_diff)
  then show ?case using 10(1) by (simp add: c chunk_fail_def chunks_left_def)
qed

subsection \<open>The life of a write\<close>

text \<open>
  A write from the moment its parity is there: \<open>raid5f_stripe_write_request_xor_done\<close>, then its
  retries from the wait queue and the completions of its base I/Os, in any order; the answers of the
  layer below and the bit flips differ from one activation to the next. \<open>out\<close> are the base I/Os in
  flight, \<open>waits\<close> tells that the write is queued, \<open>failed\<close> that a base I/O has failed.
\<close>

abbreviation r5_answers :: "r5_env \<Rightarrow> (base_io \<Rightarrow> int) \<Rightarrow> (nat \<Rightarrow> bool) \<Rightarrow> r5_env" where
  "r5_answers e rc p \<equiv> e\<lparr>env_rc := rc, env_poison := p\<rparr>"

definition new_events :: "nat \<Rightarrow> r5_world \<Rightarrow> r5_world \<Rightarrow> raid_event list" where
  "new_events io w w' = drop (length (rio_events (r5_ios w io))) (rio_events (r5_ios w' io))"

inductive r5_write_reach ::
  "r5_env \<Rightarrow> nat \<Rightarrow> nat \<Rightarrow> r5_world \<Rightarrow> r5_world \<Rightarrow> base_io list \<Rightarrow> bool \<Rightarrow> bool \<Rightarrow> bool"
  for e sid io w0 where
  write_parity:
    "w = raid5f_stripe_write_request_xor_done (r5_answers e rc p) sid 0 w0 \<Longrightarrow>
     r5_write_reach e sid io w0 w (submitted_of (new_events io w0 w))
       (waits_of (new_events io w0 w) \<noteq> []) False"
| write_retry:
    "r5_write_reach e sid io w0 w out True failed \<Longrightarrow>
     w' = raid5f_chunk_submit_retry (r5_answers e rc p) io w \<Longrightarrow>
     r5_write_reach e sid io w0 w' (out @ submitted_of (new_events io w w'))
       (waits_of (new_events io w w') \<noteq> []) failed"
| write_done:
    "r5_write_reach e sid io w0 w out waits failed \<Longrightarrow> b \<in> set out \<Longrightarrow>
     r5_write_reach e sid io w0 (raid5f_chunk_complete_bdev_io e sid success w) (remove1 b out) waits
       (failed \<or> \<not> success)"

text \<open>What the code relies on when the parity is there: the stripe request is taken and new, and some
  base bdev is present.\<close>

definition r5_write_started :: "r5_env \<Rightarrow> nat \<Rightarrow> nat \<Rightarrow> r5_world \<Rightarrow> bool" where
  "r5_write_started e sid io w \<longleftrightarrow>
     (let s = r5_stripes w sid; rio = r5_ios w io
      in sr_type s = STRIPE_REQ_WRITE \<and> sr_raid_io s = io \<and> rio_private rio = Some sid \<and>
         base_bdev_io_remaining rio = ucast (num_base_bdevs (env_rb e)) \<and>
         base_bdev_io_submitted rio = 0 \<and> base_bdev_io_status rio = STATUS_SUCCESS \<and>
         rio_events rio = [] \<and>
         (\<exists>i < unat (num_base_bdevs (env_rb e)). base_channel (env_ch e) ! i \<noteq> None))"

text \<open>
  The free list over one activation. It starts at a slot whose base bdev is there, or with base I/Os in
  flight, so the last part is never completed by a slot that is skipped.
\<close>

lemma submit_chunks_free:
  fixes w :: r5_world and sid k :: nat and e :: r5_env
  defines "s \<equiv> r5_stripes w sid" and "n \<equiv> unat (num_base_bdevs (env_rb e))"
  defines "rio \<equiv> r5_ios w (sr_raid_io s)" and "w' \<equiv> submit_chunks_from e sid [k..<n] w"
  assumes "sr_type s = STRIPE_REQ_WRITE" and "unat (base_bdev_io_submitted rio) = k" and "k \<le> n"
    and "n - k \<le> unat (base_bdev_io_remaining rio)"
    and "(\<exists>i \<in> {k..<n}. \<not> chunk_skipped e s i) \<or> n - k < unat (base_bdev_io_remaining rio)"
  shows "free_write w' =
      (if base_bdev_io_remaining (r5_ios w' (sr_raid_io s)) = 0 then sid # free_write w else free_write w) \<and>
    rio_private (r5_ios w' (sr_raid_io s)) = rio_private rio \<and>
    (\<exists>new. rio_events (r5_ios w' (sr_raid_io s)) = rio_events rio @ new \<and>
       (waits_of new \<noteq> [] \<longrightarrow>
        \<not> chunk_skipped e s (unat (base_bdev_io_submitted (r5_ios w' (sr_raid_io s))))))"
  using assms(5-) unfolding s_def n_def rio_def w'_def
proof (induction "n - k" arbitrary: k w)
  case 0
  then have "base_bdev_io_remaining (r5_ios w (sr_raid_io (r5_stripes w sid))) \<noteq> 0"
    by (auto simp: n_def)
  then show ?case using 0 by (simp add: n_def)
next
  case (Suc d)
  let ?n = "unat (num_base_bdevs (env_rb e))"
  let ?s = "r5_stripes w sid" and ?w1 = "snd (raid5f_chunk_submit e sid k w)"
  let ?io = "sr_raid_io ?s"
  let ?rio = "r5_ios w ?io"
  have k: "k < ?n" using Suc.hyps(2) by (simp add: n_def)
  note step = chunk_submit_step[where w = w and sid = sid and e = e and i = k]
  note st = same_stripeD[OF step(1)]
  have k1: "unat (base_bdev_io_submitted ?rio + 1) = Suc k"
    using unat_u8_Suc[of "base_bdev_io_submitted ?rio" "num_base_bdevs (env_rb e)"] Suc.prems(2) k by simp
  have IH: ?case
    if sub: "fst (raid5f_chunk_submit e sid k w) = 0" and free: "free_write ?w1 = free_write w"
      and r1: "r5_ios ?w1 ?io = rx" and s1: "base_bdev_io_submitted rx = base_bdev_io_submitted ?rio + 1"
      and pr: "rio_private rx = rio_private ?rio"
      and ev: "rio_events rx = rio_events ?rio @ es" "waits_of es = []"
      and rem: "?n - Suc k \<le> unat (base_bdev_io_remaining rx)"
      and ok: "(\<exists>i \<in> {Suc k..<?n}. \<not> chunk_skipped e ?s i) \<or> ?n - Suc k < unat (base_bdev_io_remaining rx)"
    for rx es
  proof -
    have eq: "submit_chunks_from e sid [k..<?n] w = submit_chunks_from e sid [Suc k..<?n] ?w1"
      using k sub by (simp add: upt_conv_Cons Let_def case_prod_beta)
    have "free_write (submit_chunks_from e sid [Suc k..<?n] ?w1) =
        (if base_bdev_io_remaining (r5_ios (submit_chunks_from e sid [Suc k..<?n] ?w1) ?io) = 0
         then sid # free_write ?w1 else free_write ?w1) \<and>
      rio_private (r5_ios (submit_chunks_from e sid [Suc k..<?n] ?w1) ?io) = rio_private rx \<and>
      (\<exists>new. rio_events (r5_ios (submit_chunks_from e sid [Suc k..<?n] ?w1) ?io) = rio_events rx @ new \<and>
         (waits_of new \<noteq> [] \<longrightarrow>
          \<not> chunk_skipped e ?s (unat (base_bdev_io_submitted
                (r5_ios (submit_chunks_from e sid [Suc k..<?n] ?w1) ?io)))))"
      using Suc.hyps(1)[of "Suc k" ?w1] Suc.hyps(2) Suc.prems(1) k rem ok s1 k1 unfolding st n_def r1
      by (simp add: r1)
    then show ?thesis unfolding eq free pr using ev by fastforce
  qed
  consider (skip) "chunk_skipped e ?s k" | (sent) "\<not> chunk_skipped e ?s k" "env_rc e (chunk_base_io e ?s k) = 0"
    | (wait) "\<not> chunk_skipped e ?s k" "env_rc e (chunk_base_io e ?s k) = - ENOMEM"
    | (hard) "\<not> chunk_skipped e ?s k" "env_rc e (chunk_base_io e ?s k) \<noteq> 0"
      "env_rc e (chunk_base_io e ?s k) \<noteq> - ENOMEM" by blast
  then show ?case
  proof cases
    case skip
    have more: "{k..<?n} = insert k {Suc k..<?n}" using k by auto
    have r0: "1 < unat (base_bdev_io_remaining ?rio)"
    proof (cases "?n - k < unat (base_bdev_io_remaining ?rio)")
      case False
      then obtain i where "i \<in> {k..<?n}" "\<not> chunk_skipped e ?s i" using Suc.prems(5) by auto
      then have "Suc k < ?n" using skip by (cases "i = k") auto
      then show ?thesis using Suc.prems(4) by linarith
    qed (use k in linarith)
    then have r1: "unat (base_bdev_io_remaining ?rio - 1) = unat (base_bdev_io_remaining ?rio) - 1"
      by (subst unat_minus_no_wrap) simp_all
    have ne: "base_bdev_io_remaining ?rio \<noteq> 1" using r0 by auto
    show ?thesis
    proof (rule IH)
      show "(\<exists>i \<in> {Suc k..<?n}. \<not> chunk_skipped e ?s i) \<or> ?n - Suc k < unat (base_bdev_io_remaining
          (snd (raid_bdev_io_complete_part 1 STATUS_SUCCESS
            (?rio\<lparr>base_bdev_io_submitted := base_bdev_io_submitted ?rio + 1\<rparr>))))"
        using Suc.prems(5) r1 skip k more by auto
    qed (use step(2)[OF skip] ne r1 Suc.prems(4) in \<open>auto\<close>)
  next
    case sent
    then show ?thesis
      by (intro IH[where es = "[EvSubmit (chunk_base_io e ?s k)]" and
            rx = "rio_emit (EvSubmit (chunk_base_io e ?s k))
              (?rio\<lparr>base_bdev_io_submitted := base_bdev_io_submitted ?rio + 1\<rparr>)"])
        (use step(3) Suc.prems(4) k in auto)
  next
    case wait
    have "base_bdev_io_remaining ?rio \<noteq> 0" using Suc.prems(4) k by auto
    then show ?thesis
      using wait k step(4) Suc.prems(2)
      by (auto simp: upt_conv_Cons Let_def case_prod_beta raid_bdev_queue_io_wait_def)
  next
    case hard
    then show ?thesis
      using k step(5) Suc.prems(1)
      by (auto simp: upt_conv_Cons Let_def case_prod_beta chunk_fail_def)
  qed
qed

lemma poison_irrelevant [simp]: "chunks_rio (e\<lparr>env_poison := p\<rparr>) s js rio = chunks_rio e s js rio"
  by (induction js arbitrary: rio) (simp_all add: Let_def)

definition r5_write_inv :: "r5_env \<Rightarrow> nat \<Rightarrow> nat \<Rightarrow> r5_world \<Rightarrow> r5_world \<Rightarrow> base_io list \<Rightarrow> bool \<Rightarrow> bool \<Rightarrow> bool" where
  "r5_write_inv e sid io w0 w out waits failed \<longleftrightarrow>
     same_stripe (r5_stripes w0 sid) (r5_stripes w sid) \<and>
     rio_private (r5_ios w io) = Some sid \<and>
     batch_inv_any (raid5f_write_jobs (e, r5_stripes w0 sid))
       \<lparr>bs_rio = r5_ios w io, outstanding = out, waiting = waits, some_failed = failed\<rparr> \<and>
     free_write w = (if base_bdev_io_remaining (r5_ios w io) = 0 then sid # free_write w0
       else free_write w0) \<and>
     (waits \<longrightarrow>
        (\<exists>i \<in> {unat (base_bdev_io_submitted (r5_ios w io))..<unat (num_base_bdevs (env_rb e))}.
           \<not> chunk_skipped e (r5_stripes w0 sid) i))"

lemma r5_write_activation:
  assumes ok: "raid5f_write_ok (e, r5_stripes w0 sid)" and io: "sr_raid_io (r5_stripes w0 sid) = io"
    and inv: "r5_write_inv e sid io w0 w out True failed"
    and w': "w' = raid5f_stripe_request_submit_chunks (r5_answers e rc p) sid w"
  shows "r5_write_inv e sid io w0 w' (out @ submitted_of (new_events io w w'))
    (waits_of (new_events io w w') \<noteq> []) failed"
proof -
  let ?s0 = "r5_stripes w0 sid" and ?e = "r5_answers e rc p" and ?n = "unat (num_base_bdevs (env_rb e))"
  let ?b = "\<lparr>bs_rio = r5_ios w io, outstanding = out, waiting = True, some_failed = failed\<rparr>"
  define k where "k = unat (base_bdev_io_submitted (r5_ios w io))"
  have st: "same_stripe ?s0 (r5_stripes w sid)" and priv: "rio_private (r5_ios w io) = Some sid"
    and bi: "batch_inv_any (raid5f_write_jobs (e, ?s0)) ?b"
    and free: "free_write w = (if base_bdev_io_remaining (r5_ios w io) = 0 then sid # free_write w0
       else free_write w0)"
    and pre: "\<exists>i \<in> {k..<?n}. \<not> chunk_skipped e ?s0 i"
    using inv by (simp_all add: r5_write_inv_def k_def)
  note same = same_stripeD[OF st]
  have k: "k < ?n" and rem: "?n - k \<le> unat (base_bdev_io_remaining (r5_ios w io))"
    using bi by (auto simp: batch_inv_any_def Let_def k_def)
  then have r0: "base_bdev_io_remaining (r5_ios w io) \<noteq> 0" by auto
  have w'': "w' = submit_chunks_from ?e sid [k..<?n] w"
    by (simp add: w' raid5f_stripe_request_submit_chunks_def same io k_def)
  have rio: "r5_ios w' io = raid5f_write_handler (e, ?s0) rc (r5_ios w io)"
    using submit_chunks_rio[of ?e sid "[k..<?n]" w] r0 by (simp add: w'' same io k_def)
  have st': "same_stripe ?s0 (r5_stripes w' sid)"
    using submit_chunks_rio[of ?e sid "[k..<?n]" w] same_stripe_trans[OF st] by (simp add: w'')
  have ok': "sr_type (r5_stripes w sid) = STRIPE_REQ_WRITE" using ok by (simp add: same)
  have facts: "free_write w' =
      (if base_bdev_io_remaining (r5_ios w' io) = 0 then sid # free_write w else free_write w) \<and>
    rio_private (r5_ios w' io) = rio_private (r5_ios w io) \<and>
    (\<exists>new. rio_events (r5_ios w' io) = rio_events (r5_ios w io) @ new \<and>
       (waits_of new \<noteq> [] \<longrightarrow> \<not> chunk_skipped e ?s0 (unat (base_bdev_io_submitted (r5_ios w' io)))))"
    using submit_chunks_free[where w = w and sid = sid and k = k and e = ?e] ok' k rem pre
    by (simp add: same io w'' k_def)
  have bi': "batch_inv_any (raid5f_write_jobs (e, ?s0))
      (batch_activate (raid5f_write_handler (e, ?s0) rc) ?b)"
    by (rule raid5f_write_batch.retry_any[OF ok bi]) simp
  have act: "batch_activate (raid5f_write_handler (e, ?s0) rc) ?b =
      \<lparr>bs_rio = r5_ios w' io, outstanding = out @ submitted_of (new_events io w w'),
       waiting = waits_of (new_events io w w') \<noteq> [], some_failed = failed\<rparr>"
    by (simp add: batch_activate_def Let_def rio[symmetric] new_events_def
        del: raid5f_write_handler.simps raid5f_write_loop.simps)
  have w2: "\<exists>i \<in> {unat (base_bdev_io_submitted (r5_ios w' io))..<?n}. \<not> chunk_skipped e ?s0 i"
    if "waits_of (new_events io w w') \<noteq> []"
  proof -
    have "\<not> chunk_skipped e ?s0 (unat (base_bdev_io_submitted (r5_ios w' io)))"
      using facts that by (auto simp: new_events_def)
    moreover have "unat (base_bdev_io_submitted (r5_ios w' io)) < ?n"
      using bi'[unfolded act] that by (auto simp: batch_inv_any_def Let_def)
    ultimately show ?thesis by auto
  qed
  show ?thesis
    unfolding r5_write_inv_def using st' facts priv bi'[unfolded act] w2 free r0 by simp
qed

lemma r5_write_completion:
  assumes ok: "raid5f_write_ok (e, r5_stripes w0 sid)" and io: "sr_raid_io (r5_stripes w0 sid) = io"
    and inv: "r5_write_inv e sid io w0 w out waits failed" and b: "b \<in> set out"
  shows "r5_write_inv e sid io w0 (raid5f_chunk_complete_bdev_io e sid success w) (remove1 b out) waits
    (failed \<or> \<not> success)"
proof -
  let ?s0 = "r5_stripes w0 sid" and ?w' = "raid5f_chunk_complete_bdev_io e sid success w"
  let ?b = "\<lparr>bs_rio = r5_ios w io, outstanding = out, waiting = waits, some_failed = failed\<rparr>"
  have st: "same_stripe ?s0 (r5_stripes w sid)" and bi: "batch_inv_any (raid5f_write_jobs (e, ?s0)) ?b"
    using inv by (simp_all add: r5_write_inv_def)
  note same = same_stripeD[OF st]
  have ty: "sr_type (r5_stripes w sid) = STRIPE_REQ_WRITE" using ok by (simp add: same)
  have r0: "base_bdev_io_remaining (r5_ios w io) \<noteq> 0"
    using bi b by (auto simp: batch_inv_any_def Let_def)
  have rio: "r5_ios ?w' io = raid5f_write_completion success (r5_ios w io)"
    and st': "r5_stripes ?w' = r5_stripes w"
    and free: "free_write ?w' = (if base_bdev_io_remaining (r5_ios w io) = 1 then sid # free_write w
      else free_write w)"
    by (simp_all add: raid5f_chunk_complete_bdev_io_def ty raid5f_stripe_request_chunk_write_complete_def
        Let_def case_prod_beta same io raid5f_write_completion_def release_free_write)
  have bi': "batch_inv_any (raid5f_write_jobs (e, ?s0)) (batch_complete raid5f_write_completion success b ?b)"
    by (rule raid5f_write_batch.complete_any[OF bi]) (simp add: b)
  have "batch_complete raid5f_write_completion success b ?b =
      \<lparr>bs_rio = r5_ios ?w' io, outstanding = remove1 b out, waiting = waits, some_failed = failed \<or> \<not> success\<rparr>"
    by (simp add: batch_complete_def rio)
  with bi' show ?thesis
    using inv r0 by (simp add: r5_write_inv_def st' free rio raid5f_write_completion_def)
qed

lemma r5_write_reach_inv:
  assumes ok: "num_base_bdevs (env_rb e) \<noteq> 0" and start: "r5_write_started e sid io w0"
    and run: "r5_write_reach e sid io w0 w out waits failed"
  shows "r5_write_inv e sid io w0 w out waits failed"
proof -
  let ?s0 = "r5_stripes w0 sid"
  have io: "sr_raid_io ?s0 = io" and ok: "raid5f_write_ok (e, ?s0)"
    using ok start by (simp_all add: r5_write_started_def Let_def)
  have sk: "chunk_skipped e ?s0 i \<longleftrightarrow> base_channel (env_ch e) ! i = None" for i
    using ok by (simp add: chunk_skipped_def)
  have "0 < unat (num_base_bdevs (env_rb e))" using ok by (simp add: unat_gt_0)
  moreover from this have "ucast (num_base_bdevs (env_rb e)) \<noteq> (0 :: u64)"
    by (metis unat_u64_of_u8 unsigned_0 less_irrefl)
  ultimately have inv0: "r5_write_inv e sid io w0 w0 [] True False"
    using start ok by (auto simp: r5_write_started_def r5_write_inv_def Let_def batch_inv_any_def sk)
  from run show ?thesis
  proof induction
    case (write_parity w rc p)
    then have "w = raid5f_stripe_request_submit_chunks (r5_answers e rc p) sid w0"
      by (simp add: raid5f_stripe_write_request_xor_done_def)
    from r5_write_activation[OF ok io inv0 this] show ?case by simp
  next
    case (write_retry w out failed w' rc p)
    then have "w' = raid5f_stripe_request_submit_chunks (r5_answers e rc p) sid w"
      by (simp add: raid5f_chunk_submit_retry_def r5_write_inv_def)
    then show ?case by (rule r5_write_activation[OF ok io write_retry.IH])
  next
    case (write_done w out waits failed b success)
    then show ?case by (intro r5_write_completion[OF ok io])
  qed
qed

lemma r5_write_jobs_present:
  assumes "sr_type s = STRIPE_REQ_WRITE"
  shows "k \<le> unat (num_base_bdevs (env_rb e)) \<Longrightarrow>
    jobs_sent (take k (raid5f_write_jobs (e, s))) =
      map (chunk_base_io e s) (filter (\<lambda>i. base_channel (env_ch e) ! i \<noteq> None) [0..<k])"
proof (induction k)
  case (Suc k)
  then show ?case using assms by (simp add: jobs_sent_take_Suc chunk_skipped_def)
qed simp

text \<open>C8: a full-stripe write whose parity is there, under every answer of the layer below and every bit
  flip at every moment, sends the chunks of the present base bdevs of the first slots, in slot order
  and each once; it completes exactly once, when nothing is in flight or waiting any more, and with
  success only if every slot was reached and no base write failed; and its stripe request is back on
  the free list, once, exactly when it has completed.\<close>

theorem raid5f_write_correct:
  assumes "num_base_bdevs (env_rb e) \<noteq> 0" and "r5_write_started e sid io w0"
    and "r5_write_reach e sid io w0 w out waits failed"
  shows "\<exists>k \<le> unat (num_base_bdevs (env_rb e)).
    submitted_of (rio_events (r5_ios w io)) =
      map (chunk_base_io e (r5_stripes w0 sid))
        (filter (\<lambda>i. base_channel (env_ch e) ! i \<noteq> None) [0..<k]) \<and>
    completions_of (rio_events (r5_ios w io)) =
      (if waits \<or> out \<noteq> [] then []
       else [status_of (\<not> failed \<and> k = unat (num_base_bdevs (env_rb e)))]) \<and>
    free_write w = (if waits \<or> out \<noteq> [] then free_write w0 else sid # free_write w0)"
proof -
  let ?n = "unat (num_base_bdevs (env_rb e))" and ?rio = "r5_ios w io"
  define k where "k = unat (base_bdev_io_submitted ?rio)"
  have inv: "r5_write_inv e sid io w0 w out waits failed" by (rule r5_write_reach_inv[OF assms])
  have bi: "k \<le> ?n" "unat (base_bdev_io_remaining ?rio) = (if waits then ?n - k else 0) + length out"
    "waits \<longrightarrow> k < ?n" "base_bdev_io_status ?rio = status_of (\<not> failed \<and> (waits \<or> k = ?n))"
    "submitted_of (rio_events ?rio) = jobs_sent (take k (raid5f_write_jobs (e, r5_stripes w0 sid)))"
    "completions_of (rio_events ?rio) =
      (if base_bdev_io_remaining ?rio = 0 then [base_bdev_io_status ?rio] else [])"
    using inv by (auto simp: r5_write_inv_def batch_inv_any_def Let_def k_def)
  have zero: "base_bdev_io_remaining ?rio = 0 \<longleftrightarrow> \<not> (waits \<or> out \<noteq> [])"
    using bi(2,3) by (auto simp: unat_eq_zero[symmetric] simp del: unat_eq_zero)
  have "sr_type (r5_stripes w0 sid) = STRIPE_REQ_WRITE"
    using assms(2) by (simp add: r5_write_started_def Let_def)
  from r5_write_jobs_present[OF this bi(1)] show ?thesis
    using inv bi zero by (intro exI[of _ k]) (auto simp: r5_write_inv_def)
qed

subsection \<open>A concrete write\<close>

text \<open>The write of \<open>r5_example_write\<close> with the second base bdev missing, its parity computed.\<close>

abbreviation r5_degraded_env :: r5_env where
  "r5_degraded_env \<equiv> r5_example_env [Some 11, None, Some 13] (\<lambda>_. r5_example_write)"

definition r5_degraded_world :: r5_world where
  "r5_degraded_world =
     r5_io 0 (\<lambda>rio. rio\<lparr>rio_private := Some 0, base_bdev_io_remaining := 3\<rparr>)
       (snd (raid5f_stripe_request_map_iovecs r5_degraded_env 0
         ((raid5f_stripe_request_init r5_degraded_env 0 0 1 r5_example_world)\<lparr>free_write := [1]\<rparr>)))"

definition r5_degraded_sent :: r5_world where
  "r5_degraded_sent = raid5f_stripe_write_request_xor_done r5_degraded_env 0 0 r5_degraded_world"

lemma r5_degraded_started: "r5_write_started r5_degraded_env 0 0 r5_degraded_world"
  unfolding r5_write_started_def by code_simp

lemma r5_degraded_run:
  "r5_write_reach r5_degraded_env 0 0 r5_degraded_world
     (raid5f_chunk_complete_bdev_io r5_degraded_env 0 True
       (raid5f_chunk_complete_bdev_io r5_degraded_env 0 False r5_degraded_sent)) [] False True"
proof -
  let ?s = "r5_stripes r5_degraded_world 0" and ?e = r5_degraded_env
  have e: "r5_answers ?e (\<lambda>_. 0) (\<lambda>_. False) = ?e" by (simp add: r5_example_env_def)
  have "submitted_of (new_events 0 r5_degraded_world r5_degraded_sent) =
      [chunk_base_io ?e ?s 0, chunk_base_io ?e ?s 2]"
    "waits_of (new_events 0 r5_degraded_world r5_degraded_sent) = []"
    unfolding new_events_def by code_simp+
  then have "r5_write_reach ?e 0 0 r5_degraded_world r5_degraded_sent
      [chunk_base_io ?e ?s 0, chunk_base_io ?e ?s 2] False False"
    using write_parity[where w = r5_degraded_sent and e = ?e and rc = "\<lambda>_. 0" and p = "\<lambda>_. False"
        and sid = 0 and ?w0.0 = r5_degraded_world and io = 0]
    by (simp add: e r5_degraded_sent_def)
  then have "r5_write_reach ?e 0 0 r5_degraded_world
      (raid5f_chunk_complete_bdev_io ?e 0 False r5_degraded_sent) [chunk_base_io ?e ?s 2] False True"
    using write_done[where b = "chunk_base_io ?e ?s 0" and success = False] by force
  then show ?thesis
    using write_done[where b = "chunk_base_io ?e ?s 2" and success = True] by force
qed

lemma raid5f_write_correct_witness:
  "completions_of (rio_events (r5_ios (raid5f_chunk_complete_bdev_io r5_degraded_env 0 True
       (raid5f_chunk_complete_bdev_io r5_degraded_env 0 False r5_degraded_sent)) 0)) = [STATUS_FAILED] \<and>
   free_write (raid5f_chunk_complete_bdev_io r5_degraded_env 0 True
       (raid5f_chunk_complete_bdev_io r5_degraded_env 0 False r5_degraded_sent)) = [0, 1]"
proof -
  have "num_base_bdevs (env_rb r5_degraded_env) \<noteq> 0" "free_write r5_degraded_world = [1]"
    by code_simp+
  then show ?thesis
    using raid5f_write_correct[OF _ r5_degraded_started r5_degraded_run] by auto
qed

end
