(* ===== verification/Raid5f_Parity.thy ===== *)
theory Raid5f_Parity
  imports Raid5f_Write
begin

text \<open>
  The parity computation of \<open>raid/raid5f.c\<close> as a program on memory: \<open>raid5f_xor_stripe\<close> and its
  callbacks, driven by an accel framework that takes every job and finishes them in any order, leave
  in the destination chunk the exclusive or of the other chunks, data and metadata, however the chunks
  are cut into iovecs. With it, a stripe as written has parity zero, and the reconstruction of a chunk
  from the others gives back the chunk.
\<close>

subsection \<open>Exclusive or of bytes\<close>

definition xor_all :: "u8 list \<Rightarrow> u8" where
  "xor_all xs = foldr (XOR) xs 0"

lemma xor_all_simps [simp]:
  "xor_all [] = 0" "xor_all (x # xs) = x XOR xor_all xs"
  by (simp_all add: xor_all_def)

lemma xor_all_append [simp]: "xor_all (xs @ ys) = xor_all xs XOR xor_all ys"
  by (induction xs) (simp_all add: xor.assoc)

lemma xor_bytes_all: "xor_bytes m srcs k = xor_all (map (\<lambda>a. m (a + k)) srcs)"
  by (induction srcs) (simp_all add: xor_bytes_def)

subsection \<open>Iterators\<close>

text \<open>What \<open>spdk_ioviter_firstv\<close> and \<open>spdk_ioviter_nextv\<close> promise of iovec arrays of equal size: the
  segments are not empty, and those of one array are its bytes in their order.\<close>

definition segment_addrs :: "nat \<Rightarrow> (nat \<times> nat list) list \<Rightarrow> nat list" where
  "segment_addrs j segs = concat (map (\<lambda>(n, ptrs). [ptrs ! j..<ptrs ! j + n]) segs)"

definition segments_len :: "(nat \<times> nat list) list \<Rightarrow> nat" where
  "segments_len segs = sum_list (map fst segs)"

definition ioviter_ok :: "r5_env \<Rightarrow> iovec list list \<Rightarrow> bool" where
  "ioviter_ok e vss \<longleftrightarrow>
     (\<forall>(n, ptrs) \<in> set (env_segments e vss). 0 < n \<and> length ptrs = length vss) \<and>
     (\<forall>j < length vss. segment_addrs j (env_segments e vss) = iov_addrs (vss ! j))"

lemma segment_simps [simp]:
  "segment_addrs j [] = []"
  "segment_addrs j ((n, ptrs) # segs) = [ptrs ! j..<ptrs ! j + n] @ segment_addrs j segs"
  "segment_addrs j (xs @ ys) = segment_addrs j xs @ segment_addrs j ys"
  "segments_len [] = 0" "segments_len ((n, ptrs) # segs) = n + segments_len segs"
  "segments_len (xs @ ys) = segments_len xs + segments_len ys"
  by (simp_all add: segment_addrs_def segments_len_def)

lemma length_segment_addrs [simp]: "length (segment_addrs j segs) = segments_len segs"
  by (induction segs) auto

lemma segment_nth:
  assumes "segs = pre @ (n, ptrs) # post" and "t < n"
  shows "segment_addrs j segs ! (segments_len pre + t) = ptrs ! j + t"
  using assms by (simp add: nth_append)

subsection \<open>The buffers of a parity computation\<close>

definition data_addrs :: "stripe_request \<Rightarrow> nat \<Rightarrow> nat list" where
  "data_addrs s i = iov_addrs (ck_used (sr_chunks s ! i))"

definition xor_len_data :: "r5_env \<Rightarrow> stripe_request \<Rightarrow> nat" where
  "xor_len_data e s = xor_num_blocks e s * 2 ^ unat (blocklen_shift (env_rb e))"

definition xor_len_md :: "r5_env \<Rightarrow> stripe_request \<Rightarrow> nat" where
  "xor_len_md e s =
     (if md_buf (env_io e (sr_raid_io s)) = None then 0
      else xor_num_blocks e s * unat (md_len (env_rb e)))"

definition md_addrs :: "r5_env \<Rightarrow> stripe_request \<Rightarrow> nat \<Rightarrow> nat list" where
  "md_addrs e s i =
     (let a = the (ck_md_buf (sr_chunks s ! i)) in [a..<a + xor_len_md e s])"

definition xor_arrays :: "r5_env \<Rightarrow> stripe_request \<Rightarrow> iovec list list" where
  "xor_arrays e s =
     map (\<lambda>i. ck_used (sr_chunks s ! i)) (xor_sources (env_rb e) s @ [xor_dest_chunk s])"

definition xor_source_addrs :: "r5_env \<Rightarrow> stripe_request \<Rightarrow> nat set" where
  "xor_source_addrs e s =
     (\<Union>i \<in> set (xor_sources (env_rb e) s). set (data_addrs s i) \<union> set (md_addrs e s i))"

text \<open>The stripe request is about to compute a parity and nothing else is under way on the channel; the
  chunks have the size of the computation, and the destination overlaps neither itself nor a source.\<close>

definition xor_ready :: "r5_env \<Rightarrow> nat \<Rightarrow> r5_world \<Rightarrow> bool" where
  "xor_ready e sid w \<longleftrightarrow>
     (let s = r5_stripes w sid; d = xor_dest_chunk s; n = unat (num_base_bdevs (env_rb e))
      in d < n \<and> unat (raid5f_stripe_data_chunks_num (env_rb e)) = n - 1 \<and>
         xor_jobs w = [] \<and> xor_retry_queue w = [] \<and> ioviter_ok e (xor_arrays e s) \<and>
         0 < xor_len_data e s \<and> (\<forall>i < n. length (data_addrs s i) = xor_len_data e s) \<and>
         (if md_buf (env_io e (sr_raid_io s)) = None then xor_remaining_md s = 0
          else 0 < xor_len_md e s) \<and>
         distinct (data_addrs s d) \<and> set (data_addrs s d) \<inter> set (md_addrs e s d) = {} \<and>
         (set (data_addrs s d) \<union> set (md_addrs e s d)) \<inter> xor_source_addrs e s = {})"

text \<open>The accel framework finishes a job in flight.\<close>

inductive accel_reach :: "r5_env \<Rightarrow> r5_world \<Rightarrow> r5_world \<Rightarrow> bool" for e w0 where
  accel_refl: "accel_reach e w0 w0"
| accel_step: "accel_reach e w0 w \<Longrightarrow> j \<in> set (xor_jobs w) \<Longrightarrow> accel_reach e w0 (accel_finish e j 0 w)"

subsection \<open>The phases of a computation\<close>

definition xor_world ::
  "nat \<Rightarrow> r5_world \<Rightarrow> (nat \<times> nat list) list \<Rightarrow> nat \<Rightarrow> nat \<Rightarrow> nat \<Rightarrow> (nat \<Rightarrow> u8) \<Rightarrow> nat list
     \<Rightarrow> xor_job list \<Rightarrow> r5_world" where
  "xor_world sid w0 iters len rem rem_md m bufs jobs =
     w0\<lparr>r5_stripes := (r5_stripes w0)(sid := (r5_stripes w0 sid)
          \<lparr>xor_iters := iters, xor_len := len, xor_remaining := rem, xor_remaining_md := rem_md,
           xor_status := 0\<rparr>),
        chunk_xor_buffers := bufs, xor_jobs := jobs, r5_mem := m\<rparr>"

definition data_job :: "r5_env \<Rightarrow> nat \<Rightarrow> nat \<Rightarrow> nat list \<Rightarrow> xor_job" where
  "data_job e sid len ptrs =
     (let n = unat (raid5f_stripe_data_chunks_num (env_rb e))
      in \<lparr>job_stripe = sid, job_md = False, job_dest = ptrs ! n, job_srcs = take n ptrs, job_len = len\<rparr>)"

definition md_job :: "r5_env \<Rightarrow> nat \<Rightarrow> stripe_request \<Rightarrow> xor_job" where
  "md_job e sid s =
     \<lparr>job_stripe = sid, job_md = True, job_dest = the (ck_md_buf (sr_chunks s ! xor_dest_chunk s)),
      job_srcs = map (\<lambda>i. the (ck_md_buf (sr_chunks s ! i))) (xor_sources (env_rb e) s),
      job_len = xor_len_md e s\<rparr>"

text \<open>What is in memory when the first \<open>p\<close> bytes are done, and the metadata unless \<open>pending\<close>.\<close>

definition xor_memory :: "r5_env \<Rightarrow> stripe_request \<Rightarrow> (nat \<Rightarrow> u8) \<Rightarrow> nat \<Rightarrow> bool \<Rightarrow> (nat \<Rightarrow> u8) \<Rightarrow> bool" where
  "xor_memory e s m0 p pending m \<longleftrightarrow>
     (let d = xor_dest_chunk s; srcs = xor_sources (env_rb e) s
      in (\<forall>k < p. m (data_addrs s d ! k) = xor_all (map (\<lambda>i. m0 (data_addrs s i ! k)) srcs)) \<and>
         (\<not> pending \<longrightarrow> (\<forall>k < xor_len_md e s.
            m (md_addrs e s d ! k) = xor_all (map (\<lambda>i. m0 (md_addrs e s i ! k)) srcs))) \<and>
         (\<forall>a. a \<notin> set (take p (data_addrs s d)) \<longrightarrow> pending \<or> a \<notin> set (md_addrs e s d) \<longrightarrow> m a = m0 a))"

text \<open>\<open>c\<close> bounds the jobs still to come.\<close>

definition xor_phase :: "r5_env \<Rightarrow> nat \<Rightarrow> r5_world \<Rightarrow> nat \<Rightarrow> r5_world \<Rightarrow> bool" where
  "xor_phase e sid w0 c w \<longleftrightarrow>
     (let s = r5_stripes w0 sid; segs = env_segments e (xor_arrays e s); t = xor_len_data e s
      in (\<exists>pre n ptrs post pending m.
            segs = pre @ (n, ptrs) # post \<and> xor_memory e s (r5_mem w0) (segments_len pre) pending m \<and>
            (pending \<longrightarrow> 0 < xor_len_md e s) \<and> c = Suc (length post) + (if pending then 1 else 0) \<and>
            w = xor_world sid w0 post n (t - segments_len pre) (if pending then xor_len_md e s else 0)
                  m ptrs ((if pending then [md_job e sid s] else []) @ [data_job e sid n ptrs])) \<or>
         (\<exists>n ptrs m. xor_memory e s (r5_mem w0) t True m \<and> 0 < xor_len_md e s \<and> c = 1 \<and>
            w = xor_world sid w0 [] n 0 (xor_len_md e s) m ptrs [md_job e sid s]) \<or>
         (\<exists>n ptrs m. xor_memory e s (r5_mem w0) t False m \<and> c = 0 \<and>
            w = xor_callback e sid (xor_world sid w0 [] n 0 0 m ptrs [])))"

subsection \<open>Memory\<close>

lemma xor_sources_length:
  assumes "xor_ready e sid w"
  shows "length (xor_sources (env_rb e) (r5_stripes w sid)) = unat (raid5f_stripe_data_chunks_num (env_rb e))"
  using assms data_chunks_length by (auto simp: xor_ready_def Let_def xor_sources_def)

text \<open>A segment, in terms of the bytes of the chunks.\<close>

lemma xor_segment:
  assumes ready: "xor_ready e sid w" and segs: "env_segments e (xor_arrays e (r5_stripes w sid)) = pre @ (n, ptrs) # post"
  defines "s \<equiv> r5_stripes w sid" and "ns \<equiv> unat (raid5f_stripe_data_chunks_num (env_rb e))"
  shows "0 < n" and "length ptrs = Suc ns"
    and "segments_len pre + n + segments_len post = xor_len_data e s"
    and "t < n \<Longrightarrow> data_addrs s (xor_dest_chunk s) ! (segments_len pre + t) = ptrs ! ns + t"
    and "t < n \<Longrightarrow> j < ns \<Longrightarrow>
      data_addrs s (xor_sources (env_rb e) s ! j) ! (segments_len pre + t) = ptrs ! j + t"
proof -
  let ?segs = "env_segments e (xor_arrays e s)" and ?srcs = "xor_sources (env_rb e) s"
  have len: "length ?srcs = ns" using xor_sources_length[OF ready] by (simp add: s_def ns_def)
  have al: "length (xor_arrays e s) = Suc ns" by (simp add: xor_arrays_def len)
  have ok: "ioviter_ok e (xor_arrays e s)" and d: "xor_dest_chunk s < unat (num_base_bdevs (env_rb e))"
    and eq: "\<forall>i < unat (num_base_bdevs (env_rb e)). length (data_addrs s i) = xor_len_data e s"
    using ready by (simp_all add: xor_ready_def Let_def s_def)
  have seg: "?segs = pre @ (n, ptrs) # post" using segs by (simp add: s_def)
  have "(n, ptrs) \<in> set ?segs" by (simp add: seg)
  then show "0 < n" "length ptrs = Suc ns" using ok al by (auto simp: ioviter_ok_def)
  have arr: "segment_addrs j ?segs = iov_addrs (xor_arrays e s ! j)" if "j < Suc ns" for j
    using ok that al by (simp add: ioviter_ok_def)
  have dest: "segment_addrs ns ?segs = data_addrs s (xor_dest_chunk s)"
    using arr[of ns] by (simp add: xor_arrays_def nth_append len data_addrs_def)
  have src: "segment_addrs j ?segs = data_addrs s (?srcs ! j)" if "j < ns" for j
    using arr[of j] that by (simp add: xor_arrays_def nth_append len data_addrs_def)
  have "segments_len ?segs = xor_len_data e s"
    using dest eq d by (metis length_segment_addrs)
  then show "segments_len pre + n + segments_len post = xor_len_data e s" by (simp add: seg)
  show "t < n \<Longrightarrow> data_addrs s (xor_dest_chunk s) ! (segments_len pre + t) = ptrs ! ns + t"
    using segment_nth[OF seg] dest by metis
  show "t < n \<Longrightarrow> j < ns \<Longrightarrow>
      data_addrs s (?srcs ! j) ! (segments_len pre + t) = ptrs ! j + t"
    using segment_nth[OF seg] src by metis
qed

text \<open>The buffers do not overlap.\<close>

lemma xor_disjoint:
  assumes ready: "xor_ready e sid w"
  defines "s \<equiv> r5_stripes w sid"
  defines "d \<equiv> xor_dest_chunk s"
  shows "length (data_addrs s d) = xor_len_data e s" "distinct (data_addrs s d)"
    "a \<in> set (data_addrs s d) \<Longrightarrow> a \<notin> set (md_addrs e s d)"
    "i \<in> set (xor_sources (env_rb e) s) \<Longrightarrow> length (data_addrs s i) = xor_len_data e s"
    "i \<in> set (xor_sources (env_rb e) s) \<Longrightarrow> k < xor_len_data e s \<Longrightarrow>
       data_addrs s i ! k \<notin> set (data_addrs s d) \<union> set (md_addrs e s d)"
    "i \<in> set (xor_sources (env_rb e) s) \<Longrightarrow> k < xor_len_md e s \<Longrightarrow>
       md_addrs e s i ! k \<notin> set (data_addrs s d) \<union> set (md_addrs e s d)"
proof -
  have r: "d < unat (num_base_bdevs (env_rb e))"
    "\<forall>i < unat (num_base_bdevs (env_rb e)). length (data_addrs s i) = xor_len_data e s"
    "distinct (data_addrs s d)" "set (data_addrs s d) \<inter> set (md_addrs e s d) = {}"
    "(set (data_addrs s d) \<union> set (md_addrs e s d)) \<inter> xor_source_addrs e s = {}"
    using ready by (simp_all add: xor_ready_def Let_def s_def d_def)
  show "length (data_addrs s d) = xor_len_data e s" "distinct (data_addrs s d)"
    "a \<in> set (data_addrs s d) \<Longrightarrow> a \<notin> set (md_addrs e s d)"
    using r by auto
  show len: "length (data_addrs s i) = xor_len_data e s" if "i \<in> set (xor_sources (env_rb e) s)" for i
    using r(2) that by (auto simp: xor_sources_def data_chunks_def)
  show "data_addrs s i ! k \<notin> set (data_addrs s d) \<union> set (md_addrs e s d)"
    if i: "i \<in> set (xor_sources (env_rb e) s)" and "k < xor_len_data e s" for i k
  proof -
    have "data_addrs s i ! k \<in> set (data_addrs s i)" using len[OF i] that by simp
    then show ?thesis using r(5) i unfolding xor_source_addrs_def by blast
  qed
  show "md_addrs e s i ! k \<notin> set (data_addrs s d) \<union> set (md_addrs e s d)"
    if i: "i \<in> set (xor_sources (env_rb e) s)" and "k < xor_len_md e s" for i k
  proof -
    have "md_addrs e s i ! k \<in> set (md_addrs e s i)"
      by (rule nth_mem) (use that in \<open>simp add: md_addrs_def Let_def\<close>)
    then show ?thesis using r(5) i unfolding xor_source_addrs_def by blast
  qed
qed

lemma xor_memory_source:
  assumes "xor_ready e sid w" and "xor_memory e (r5_stripes w sid) m0 p pending m"
    and "i \<in> set (xor_sources (env_rb e) (r5_stripes w sid))"
  shows "k < xor_len_data e (r5_stripes w sid) \<Longrightarrow>
      m (data_addrs (r5_stripes w sid) i ! k) = m0 (data_addrs (r5_stripes w sid) i ! k)"
    and "k < xor_len_md e (r5_stripes w sid) \<Longrightarrow>
      m (md_addrs e (r5_stripes w sid) i ! k) = m0 (md_addrs e (r5_stripes w sid) i ! k)"
  using xor_disjoint(5,6)[OF assms(1,3), of k] assms(2)
  by (auto simp: xor_memory_def Let_def dest: in_set_takeD)

lemma xor_memory_data:
  fixes w :: r5_world and sid :: nat
  defines "s \<equiv> r5_stripes w sid"
  assumes ready: "xor_ready e sid w" and segs: "env_segments e (xor_arrays e s) = pre @ (n, ptrs) # post"
    and m: "xor_memory e s m0 (segments_len pre) pending m"
  shows "xor_memory e s m0 (segments_len pre + n) pending (xor_write (data_job e sid n ptrs) m)"
proof -
  let ?ns = "unat (raid5f_stripe_data_chunks_num (env_rb e))" and ?p = "segments_len pre"
  let ?D = "data_addrs s (xor_dest_chunk s)" and ?srcs = "xor_sources (env_rb e) s"
  let ?M = "md_addrs e s (xor_dest_chunk s)" and ?m = "xor_write (data_job e sid n ptrs) m"
  note seg = xor_segment[OF ready segs[unfolded s_def], folded s_def]
  note dis = xor_disjoint[OF ready, folded s_def]
  have len: "length ?srcs = ?ns" using xor_sources_length[OF ready] by (simp add: s_def)
  have pn: "?p + n \<le> length ?D" using seg(3) dis(1) by simp
  have here: "?m (?D ! (?p + t)) = xor_all (map (\<lambda>i. m0 (data_addrs s i ! (?p + t))) ?srcs)" if t: "t < n" for t
  proof -
    have "map (\<lambda>a. m (a + t)) (take ?ns ptrs) = map (\<lambda>i. m0 (data_addrs s i ! (?p + t))) ?srcs"
    proof (rule nth_equalityI)
      fix j assume "j < length (map (\<lambda>a. m (a + t)) (take ?ns ptrs))"
      then have j: "j < ?ns" using seg(2) by simp
      then have "?srcs ! j \<in> set ?srcs" using len by simp
      then have "m (data_addrs s (?srcs ! j) ! (?p + t)) = m0 (data_addrs s (?srcs ! j) ! (?p + t))"
        using xor_memory_source(1)[OF ready m[unfolded s_def]] t pn dis(1) by (simp add: s_def)
      then show "map (\<lambda>a. m (a + t)) (take ?ns ptrs) ! j = map (\<lambda>i. m0 (data_addrs s i ! (?p + t))) ?srcs ! j"
        using j seg(2) seg(5)[OF t j] len by simp
    qed (use seg(2) len in simp)
    then show ?thesis using seg(4)[OF t] t by (simp add: xor_write_def data_job_def Let_def xor_bytes_all)
  qed
  have other: "?m a = m a" if "a \<notin> set (take n (drop ?p ?D))" for a
  proof -
    have "\<not> (ptrs ! ?ns \<le> a \<and> a < ptrs ! ?ns + n)"
    proof
      assume a: "ptrs ! ?ns \<le> a \<and> a < ptrs ! ?ns + n"
      define t where "t = a - ptrs ! ?ns"
      have t: "t < n" and "a = ptrs ! ?ns + t" using a by (auto simp: t_def)
      then have "?D ! (?p + t) = a" using seg(4) by simp
      then have "take n (drop ?p ?D) ! t = a" using pn t by simp
      moreover have "take n (drop ?p ?D) ! t \<in> set (take n (drop ?p ?D))"
        by (rule nth_mem) (use t pn in simp)
      ultimately show False using that by simp
    qed
    then show ?thesis by (auto simp: xor_write_def data_job_def Let_def)
  qed
  have tk: "take (?p + n) ?D = take ?p ?D @ take n (drop ?p ?D)" by (rule take_add)
  have sub: "set (take n (drop ?p ?D)) \<subseteq> set ?D" by (meson in_set_dropD in_set_takeD subsetI)
  have dt: "distinct (take (?p + n) ?D)" using dis(2) by simp
  have early: "?m (?D ! k) = m (?D ! k)" if "k < ?p" for k
  proof (rule other)
    have "?D ! k = take ?p ?D ! k" "k < length (take ?p ?D)" using that pn by simp_all
    then have "?D ! k \<in> set (take ?p ?D)" by (metis nth_mem)
    then show "?D ! k \<notin> set (take n (drop ?p ?D))" using dt unfolding tk by auto
  qed
  have md: "?m (?M ! k) = m (?M ! k)" if "k < xor_len_md e s" for k
  proof (rule other)
    have "?M ! k \<in> set ?M" by (rule nth_mem) (use that in \<open>simp add: md_addrs_def Let_def\<close>)
    then show "?M ! k \<notin> set (take n (drop ?p ?D))" using sub dis(3) by auto
  qed
  have 1: "?m (?D ! k) = xor_all (map (\<lambda>i. m0 (data_addrs s i ! k)) ?srcs)" if k: "k < ?p + n" for k
  proof (cases "k < ?p")
    case True
    then show ?thesis using early m by (simp add: xor_memory_def Let_def)
  next
    case False
    then show ?thesis using here[of "k - ?p"] k by simp
  qed
  show ?thesis
    unfolding xor_memory_def Let_def
  proof (intro conjI allI impI)
    show "?m a = m0 a" if "a \<notin> set (take (?p + n) ?D)" "pending \<or> a \<notin> set ?M" for a
      using that other m unfolding tk by (auto simp: xor_memory_def Let_def)
  qed (use 1 md m in \<open>simp_all add: xor_memory_def Let_def\<close>)
qed

lemma xor_memory_md:
  fixes w :: r5_world and sid :: nat
  defines "s \<equiv> r5_stripes w sid"
  assumes ready: "xor_ready e sid w" and m: "xor_memory e s m0 p True m" and p: "p \<le> xor_len_data e s"
  shows "xor_memory e s m0 p False (xor_write (md_job e sid s) m)"
proof -
  let ?D = "data_addrs s (xor_dest_chunk s)" and ?srcs = "xor_sources (env_rb e) s"
  let ?M = "md_addrs e s (xor_dest_chunk s)" and ?m = "xor_write (md_job e sid s) m"
  note dis = xor_disjoint[OF ready, folded s_def]
  have at: "md_addrs e s i ! t = the (ck_md_buf (sr_chunks s ! i)) + t" if "t < xor_len_md e s" for i t
    using that by (simp add: md_addrs_def Let_def)
  have here: "?m (?M ! t) = xor_all (map (\<lambda>i. m0 (md_addrs e s i ! t)) ?srcs)" if t: "t < xor_len_md e s" for t
  proof -
    have "map (\<lambda>i. m (the (ck_md_buf (sr_chunks s ! i)) + t)) ?srcs = map (\<lambda>i. m0 (md_addrs e s i ! t)) ?srcs"
      using xor_memory_source(2)[OF ready m[unfolded s_def]] t at by (auto simp: s_def)
    then show ?thesis
      using t by (simp add: xor_write_def md_job_def xor_bytes_all at comp_def cong: map_cong)
  qed
  have other: "?m a = m a" if "a \<notin> set ?M" for a
    using that by (auto simp: xor_write_def md_job_def md_addrs_def Let_def)
  have "?m (?D ! k) = m (?D ! k)" if "k < p" for k
    by (rule other) (use that p dis(1,3) in simp)
  then show ?thesis using m here other by (auto simp: xor_memory_def Let_def)
qed

subsection \<open>Steps\<close>

lemma xor_world_simps [simp]:
  "xor_jobs (xor_world sid w0 it n r rm m b js) = js"
  "r5_mem (xor_world sid w0 it n r rm m b js) = m"
  "xor_retry_queue (xor_world sid w0 it n r rm m b js) = xor_retry_queue w0"
  "xor_remaining (r5_stripes (xor_world sid w0 it n r rm m b js) sid) = r"
  "xor_remaining_md (r5_stripes (xor_world sid w0 it n r rm m b js) sid) = rm"
  "(xor_world sid w0 it n r rm m b js)\<lparr>xor_jobs := js'\<rparr> = xor_world sid w0 it n r rm m b js'"
  "(xor_world sid w0 it n r rm m b js)\<lparr>r5_mem := m'\<rparr> = xor_world sid w0 it n r rm m' b js"
  by (simp_all add: xor_world_def)

lemma xor_world_remaining:
  "r5_stripe sid (\<lambda>s. s\<lparr>xor_remaining := xor_remaining s - xor_len s\<rparr>)
     (xor_world sid w0 it n r rm m b js) = xor_world sid w0 it n (r - n) rm m b js"
  "r5_stripe sid (\<lambda>s. s\<lparr>xor_remaining_md := 0\<rparr>) (xor_world sid w0 it n r rm m b js) =
     xor_world sid w0 it n r 0 m b js"
  by (cases w0; cases "r5_stripes w0 sid"; simp add: xor_world_def r5_stripe_def)+

lemma xor_world_next:
  "xor_next_segment sid (xor_world sid w0 ((n', ptrs) # it) n r rm m b js) =
     xor_world sid w0 it n' r rm m ptrs js"
  by (cases w0; cases "r5_stripes w0 sid"; simp add: xor_world_def r5_stripe_def xor_next_segment_def)

lemma xor_world_continue:
  assumes "env_accel e sid False = 0"
  shows "raid5f_xor_stripe_continue e sid (xor_world sid w0 it n r rm m b js) =
    (None, xor_world sid w0 it n r rm m b (js @ [data_job e sid n b]))"
  using assms by (simp add: raid5f_xor_stripe_continue_def Let_def data_job_def xor_world_def)

text \<open>The end: nobody waits, so the callback is all that happens.\<close>

lemma xor_world_done:
  assumes "xor_retry_queue w = []"
  shows "raid5f_xor_stripe_done e sid w = xor_callback e sid w"
  using assms by (simp add: raid5f_xor_stripe_done.simps Let_def)

lemma r5_update_jobs [simp]:
  "xor_jobs (r5_stripe sid f w) = xor_jobs w"
  "xor_jobs (r5_io io g w) = xor_jobs w"
  "xor_jobs (snd (r5_complete_part io n st w)) = xor_jobs w"
  "xor_jobs (raid5f_stripe_request_release sid w) = xor_jobs w"
  "xor_jobs (chunk_poison e sid i w) = xor_jobs w"
  by (auto simp: r5_stripe_def r5_io_def r5_complete_part_def raid5f_stripe_request_release_def
      chunk_poison_def Let_def split: stripe_request_type.split)

lemma submit_chunks_jobs [simp]: "xor_jobs (submit_chunks_from e sid js w) = xor_jobs w"
proof -
  have "xor_jobs (snd (raid5f_chunk_submit e sid i w)) = xor_jobs w" for i w
    by (simp add: raid5f_chunk_submit_def chunk_refused_def Let_def case_prod_beta)
  then show ?thesis by (induction js arbitrary: w) (simp_all add: Let_def case_prod_beta)
qed

lemma xor_callback_jobs [simp]: "xor_jobs (xor_callback e sid w) = xor_jobs w"
  by (simp add: xor_callback_def raid5f_stripe_write_request_xor_done_def
      raid5f_stripe_request_submit_chunks_def raid5f_stripe_request_reconstruct_xor_done_def Let_def
      split: stripe_request_type.split)

text \<open>The first job of a computation.\<close>

lemma xor_world_begin:
  assumes "xor_jobs w0 = []" and "s = r5_stripes w0 sid"
    and "env_segments e (xor_arrays e s) = (n, ptrs) # post"
  defines "w \<equiv> xor_world sid w0 post n (xor_len_data e s) (xor_remaining_md s) (r5_mem w0) ptrs []"
  shows "raid5f_xor_stripe e sid w0 =
    (case xor_stripe_md e sid w of (go, failed, w) \<Rightarrow>
       if go then raid5f_xor_stripe_continue e sid w else (failed, w))"
proof -
  have "r5_stripe sid (\<lambda>s. s\<lparr>xor_remaining := xor_num_blocks e s * 2 ^ unat (blocklen_shift (env_rb e)),
      xor_status := 0\<rparr>) (xor_next_segment sid (r5_stripe sid (\<lambda>s. s\<lparr>xor_iters := (n, ptrs) # post\<rparr>) w0)) = w"
    using assms(1,2)
    by (cases w0; cases "r5_stripes w0 sid")
       (simp add: xor_next_segment_def w_def xor_world_def r5_stripe_def xor_len_data_def xor_num_blocks_def
         cong: stripe_request_type.case_cong)
  then show ?thesis
    using assms(3) unfolding raid5f_xor_stripe_def Let_def assms(2) xor_arrays_def[symmetric]
    by simp
qed

lemma xor_world_static [simp]:
  "sr_raid_io (r5_stripes (xor_world sid w0 it n r rm m b js) sid) = sr_raid_io (r5_stripes w0 sid)"
  "sr_chunks (r5_stripes (xor_world sid w0 it n r rm m b js) sid) = sr_chunks (r5_stripes w0 sid)"
  "xor_num_blocks e (r5_stripes (xor_world sid w0 it n r rm m b js) sid) = xor_num_blocks e (r5_stripes w0 sid)"
  "xor_dest_chunk (r5_stripes (xor_world sid w0 it n r rm m b js) sid) = xor_dest_chunk (r5_stripes w0 sid)"
  "xor_sources rb (r5_stripes (xor_world sid w0 it n r rm m b js) sid) = xor_sources rb (r5_stripes w0 sid)"
  by (simp_all add: xor_world_def xor_num_blocks_def xor_dest_chunk_def xor_sources_def
      cong: stripe_request_type.case_cong)

lemma xor_world_set_md:
  "r5_stripe sid (\<lambda>s. s\<lparr>xor_remaining_md := k\<rparr>) (xor_world sid w0 it n r rm m b js) =
     xor_world sid w0 it n r k m b js"
  by (cases w0; cases "r5_stripes w0 sid"; simp add: xor_world_def r5_stripe_def)

lemma xor_world_md:
  assumes "env_accel e sid True = 0" and "s = r5_stripes w0 sid"
  shows "xor_stripe_md e sid (xor_world sid w0 it n r rm m b js) =
    (True, None,
     if md_buf (env_io e (sr_raid_io s)) = None then xor_world sid w0 it n r rm m b js
     else xor_world sid w0 it n r (xor_len_md e s) m b (js @ [md_job e sid s]))"
  using assms by (auto simp: xor_stripe_md_def Let_def xor_world_set_md xor_len_md_def md_job_def)

lemma xor_start_phase:
  assumes ready: "xor_ready e sid w0" and acc: "\<forall>md. env_accel e sid md = 0"
  shows "fst (raid5f_xor_stripe e sid w0) = None \<and> (\<exists>c. xor_phase e sid w0 c (snd (raid5f_xor_stripe e sid w0)))"
proof -
  let ?s = "r5_stripes w0 sid" and ?segs = "env_segments e (xor_arrays e (r5_stripes w0 sid))"
  let ?t = "xor_len_data e ?s" and ?pending = "md_buf (env_io e (sr_raid_io ?s)) \<noteq> None"
  have jobs: "xor_jobs w0 = []" and t: "0 < ?t"
    and md: "if ?pending then 0 < xor_len_md e ?s else xor_remaining_md ?s = 0"
    using ready by (auto simp: xor_ready_def Let_def)
  have "?segs \<noteq> []"
  proof
    assume "?segs = []"
    then have "iov_addrs (xor_arrays e ?s ! length (xor_sources (env_rb e) ?s)) = []"
      using ready by (auto simp: xor_ready_def Let_def ioviter_ok_def xor_arrays_def)
    then show False
      using xor_disjoint(1)[OF ready] t by (simp add: xor_arrays_def nth_append data_addrs_def)
  qed
  then obtain n ptrs post where segs: "?segs = (n, ptrs) # post" by (metis neq_Nil_conv surj_pair)
  have mem: "xor_memory e ?s (r5_mem w0) 0 ?pending (r5_mem w0)"
    by (auto simp: xor_memory_def Let_def xor_len_md_def)
  have start: "raid5f_xor_stripe e sid w0 = (None, xor_world sid w0 post n ?t
      (if ?pending then xor_len_md e ?s else 0) (r5_mem w0) ptrs
      ((if ?pending then [md_job e sid ?s] else []) @ [data_job e sid n ptrs]))"
    using acc md unfolding xor_world_begin[OF jobs refl segs]
    by (auto simp: xor_world_md xor_world_continue)
  from start have "xor_phase e sid w0 (Suc (length post) + (if ?pending then 1 else 0))
      (snd (raid5f_xor_stripe e sid w0))"
    using mem segs md
    unfolding xor_phase_def Let_def
    by (intro disjI1 exI[of _ "[]"] exI[of _ n] exI[of _ ptrs] exI[of _ post] exI[of _ ?pending]
        exI[of _ "r5_mem w0"]) simp_all
  then show ?thesis using start by auto
qed

lemma xor_world_cb_next:
  assumes "env_accel e sid False = 0" and "n < r"
  shows "raid5f_xor_stripe_cb e sid 0 (xor_world sid w0 ((n', ptrs) # it) n r rm m b js) =
    xor_world sid w0 it n' (r - n) rm m ptrs (js @ [data_job e sid n' ptrs])"
  using assms
  by (simp add: raid5f_xor_stripe_cb_def Let_def xor_world_remaining xor_world_next xor_world_continue
      xor_settle_def xor_stripe_cb_common_def)

lemma xor_world_cb_last:
  assumes "xor_retry_queue w0 = []" and "r = n"
  shows "raid5f_xor_stripe_cb e sid 0 (xor_world sid w0 it n r rm m b js) =
    (if rm = 0 then xor_callback e sid (xor_world sid w0 it n 0 0 m b js)
     else xor_world sid w0 it n 0 rm m b js)"
  using assms
  by (simp add: raid5f_xor_stripe_cb_def Let_def xor_world_remaining xor_stripe_cb_common_def
      xor_world_done)

lemma xor_world_md_cb:
  assumes "xor_retry_queue w0 = []"
  shows "raid5f_xor_stripe_md_cb e sid 0 (xor_world sid w0 it n r rm m b js) =
    (if r = 0 then xor_callback e sid (xor_world sid w0 it n 0 0 m b js)
     else xor_world sid w0 it n r 0 m b js)"
  using assms
  by (simp add: raid5f_xor_stripe_md_cb_def xor_world_remaining xor_stripe_cb_common_def Let_def
      xor_world_done)

lemma job_kinds [simp]:
  "job_md (data_job e sid n ptrs) = False" "job_stripe (data_job e sid n ptrs) = sid"
  "job_md (md_job e sid s) = True" "job_stripe (md_job e sid s) = sid"
  "md_job e sid s \<noteq> data_job e sid n ptrs" "data_job e sid n ptrs \<noteq> md_job e sid s"
  by (simp_all add: data_job_def md_job_def Let_def)

text \<open>The data job of a segment finishes.\<close>

lemma xor_data_step:
  assumes ready: "xor_ready e sid w0" and acc: "\<forall>md. env_accel e sid md = 0"
    and s: "s = r5_stripes w0 sid"
    and segs: "env_segments e (xor_arrays e s) = pre @ (n, ptrs) # post"
    and m: "xor_memory e s (r5_mem w0) (segments_len pre) pending m" "pending \<longrightarrow> 0 < xor_len_md e s"
    and w: "w = xor_world sid w0 post n (xor_len_data e s - segments_len pre)
      (if pending then xor_len_md e s else 0) m ptrs
      ((if pending then [md_job e sid s] else []) @ [data_job e sid n ptrs])"
  shows "xor_phase e sid w0 (length post + (if pending then 1 else 0)) (accel_finish e (data_job e sid n ptrs) 0 w)"
proof -
  let ?m = "xor_write (data_job e sid n ptrs) m" and ?t = "xor_len_data e s"
  let ?rm = "if pending then xor_len_md e s else 0" and ?js = "if pending then [md_job e sid s] else []"
  have q: "xor_retry_queue w0 = []" using ready by (simp add: xor_ready_def Let_def)
  have m': "xor_memory e s (r5_mem w0) (segments_len pre + n) pending ?m"
    using xor_memory_data[OF ready] segs m(1) by (simp add: s)
  note seg = xor_segment[OF ready segs[unfolded s], folded s]
  have fin: "accel_finish e (data_job e sid n ptrs) 0 w =
      raid5f_xor_stripe_cb e sid 0 (xor_world sid w0 post n (?t - segments_len pre) ?rm ?m ptrs ?js)"
    by (simp add: accel_finish_def w Let_def)
  show ?thesis
  proof (cases post)
    case Nil
    then have "segments_len pre + n = ?t" using seg(3) by simp
    then have r: "?t - segments_len pre = n" and mt: "xor_memory e s (r5_mem w0) ?t pending ?m"
      using m' by simp_all
    show ?thesis
    proof (cases pending)
      case True
      then show ?thesis
        using mt m(2) unfolding fin r Nil xor_world_cb_last[OF q refl] xor_phase_def Let_def s[symmetric]
        by (intro disjI2 disjI1 exI[of _ n] exI[of _ ptrs] exI[of _ ?m]) simp
    next
      case False
      then show ?thesis
        using mt unfolding fin r Nil xor_world_cb_last[OF q refl] xor_phase_def Let_def s[symmetric]
        by (intro disjI2 exI[of _ n] exI[of _ ptrs] exI[of _ ?m]) simp
    qed
  next
    case (Cons x post')
    then obtain n' ptrs' where post: "post = (n', ptrs') # post'" by (cases x) auto
    then have segs': "env_segments e (xor_arrays e s) = (pre @ [(n, ptrs)]) @ (n', ptrs') # post'"
      using segs by simp
    have "0 < n'" using xor_segment(1)[OF ready segs'[unfolded s]] .
    then have r: "n < ?t - segments_len pre" using seg(3) post by simp
    have len: "segments_len (pre @ [(n, ptrs)]) = segments_len pre + n" by simp
    have acc0: "env_accel e sid False = 0" using acc by simp
    show ?thesis
      unfolding fin post xor_world_cb_next[OF acc0 r] xor_phase_def Let_def s[symmetric]
      by (intro disjI1 exI[of _ "pre @ [(n, ptrs)]"] exI[of _ n'] exI[of _ ptrs'] exI[of _ post']
          exI[of _ pending] exI[of _ ?m] conjI)
         (use segs' m' m(2) in \<open>simp_all\<close>)
  qed
qed

lemma xor_phase_step:
  assumes ready: "xor_ready e sid w0" and acc: "\<forall>md. env_accel e sid md = 0"
    and ph: "xor_phase e sid w0 c w" and j: "j \<in> set (xor_jobs w)"
  shows "\<exists>c' < c. xor_phase e sid w0 c' (accel_finish e j 0 w)"
proof -
  let ?s = "r5_stripes w0 sid"
  let ?t = "xor_len_data e ?s" and ?L = "xor_len_md e ?s"
  have q: "xor_retry_queue w0 = []" and t: "0 < ?t" using ready by (simp_all add: xor_ready_def Let_def)
  from ph[unfolded xor_phase_def Let_def] show ?thesis
  proof (elim disjE exE conjE)
    fix pre n ptrs post pending m
    assume segs: "env_segments e (xor_arrays e ?s) = pre @ (n, ptrs) # post"
      and m: "xor_memory e ?s (r5_mem w0) (segments_len pre) pending m" "pending \<longrightarrow> 0 < ?L"
      and c: "c = Suc (length post) + (if pending then 1 else 0)"
      and w: "w = xor_world sid w0 post n (?t - segments_len pre) (if pending then ?L else 0) m ptrs
        ((if pending then [md_job e sid ?s] else []) @ [data_job e sid n ptrs])"
    consider "j = data_job e sid n ptrs" | "j = md_job e sid ?s" "pending"
      using j w by (auto split: if_splits)
    then show ?thesis
    proof cases
      case 1
      then show ?thesis using xor_data_step[OF ready acc refl segs m w] c by auto
    next
      case 2
      note seg = xor_segment[OF ready segs]
      have m': "xor_memory e ?s (r5_mem w0) (segments_len pre) False (xor_write j m)"
        using xor_memory_md[OF ready] m(1) 2 seg(3) by simp
      have r: "?t - segments_len pre \<noteq> 0" using seg(1,3) by linarith
      have "accel_finish e j 0 w = xor_world sid w0 post n (?t - segments_len pre) 0 (xor_write j m) ptrs
          [data_job e sid n ptrs]"
        using 2 r by (simp add: accel_finish_def w Let_def xor_world_md_cb[OF q])
      then have "xor_phase e sid w0 (Suc (length post)) (accel_finish e j 0 w)"
        using segs m' unfolding xor_phase_def Let_def
        by (intro disjI1 exI[of _ pre] exI[of _ n] exI[of _ ptrs] exI[of _ post] exI[of _ False]
            exI[of _ "xor_write j m"]) simp
      then show ?thesis using 2 c by auto
    qed
  next
    fix n ptrs m
    assume m: "xor_memory e ?s (r5_mem w0) ?t True m" "0 < ?L" and c: "c = 1"
      and w: "w = xor_world sid w0 [] n 0 ?L m ptrs [md_job e sid ?s]"
    then have j: "j = md_job e sid ?s" using j by simp
    have m': "xor_memory e ?s (r5_mem w0) ?t False (xor_write j m)"
      using xor_memory_md[OF ready m(1)] j by simp
    have "accel_finish e j 0 w =
        xor_callback e sid (xor_world sid w0 [] n 0 0 (xor_write j m) ptrs [])"
      using j by (simp add: accel_finish_def w Let_def xor_world_md_cb[OF q])
    then show ?thesis using m' c unfolding xor_phase_def Let_def by (intro exI[of _ 0]) auto
  next
    fix n ptrs m
    assume "w = xor_callback e sid (xor_world sid w0 [] n 0 0 m ptrs [])"
    then show ?thesis using j by simp
  qed
qed

lemma xor_reach_phase:
  assumes ready: "xor_ready e sid w0" and acc: "\<forall>md. env_accel e sid md = 0"
    and run: "accel_reach e (snd (raid5f_xor_stripe e sid w0)) w"
  shows "\<exists>c. xor_phase e sid w0 c w"
  using run
proof induction
  case accel_refl
  then show ?case using xor_start_phase[OF ready acc] by simp
next
  case (accel_step w j)
  then show ?case using xor_phase_step[OF ready acc] by blast
qed

lemma accel_reach_trans: "accel_reach e w1 w2 \<Longrightarrow> accel_reach e w0 w1 \<Longrightarrow> accel_reach e w0 w2"
  by (induction rule: accel_reach.induct) (auto intro: accel_reach.intros)

lemma xor_phase_finishes:
  assumes ready: "xor_ready e sid w0" and acc: "\<forall>md. env_accel e sid md = 0"
  shows "xor_phase e sid w0 c w \<Longrightarrow> \<exists>w'. accel_reach e w w' \<and> xor_jobs w' = []"
proof (induction c arbitrary: w rule: less_induct)
  case (less c)
  show ?case
  proof (cases "xor_jobs w = []")
    case True
    then show ?thesis by (auto intro: accel_refl)
  next
    case False
    then obtain j where j: "j \<in> set (xor_jobs w)" by fastforce
    obtain c' where "c' < c" "xor_phase e sid w0 c' (accel_finish e j 0 w)"
      using xor_phase_step[OF ready acc less.prems j] by blast
    from less.IH[OF this] show ?thesis
      using accel_reach_trans[OF _ accel_step[OF accel_refl j]] by blast
  qed
qed

lemma xor_reach_finished:
  assumes ready: "xor_ready e sid w0" and acc: "\<forall>md. env_accel e sid md = 0"
    and run: "accel_reach e (snd (raid5f_xor_stripe e sid w0)) w" and over: "xor_jobs w = []"
  obtains n ptrs m where "xor_memory e (r5_stripes w0 sid) (r5_mem w0) (xor_len_data e (r5_stripes w0 sid)) False m"
    and "w = xor_callback e sid (xor_world sid w0 [] n 0 0 m ptrs [])"
proof -
  have "\<exists>c. xor_phase e sid w0 c w" by (rule xor_reach_phase[OF ready acc run])
  then show ?thesis using over that unfolding xor_phase_def Let_def by force
qed

subsection \<open>The parity is right\<close>

text \<open>C9: a parity computation of a write or of a reconstruction, driven by an accel framework that takes
  every job, can always be finished, and in whatever order its data and metadata jobs end: when none
  is left the callback has been called once, with status 0, on a memory where every byte of the
  destination chunk is the exclusive or of the bytes of the other chunks, and so is every byte of its
  metadata, and where nothing else has changed.\<close>

theorem raid5f_xor_stripe_correct:
  assumes ready: "xor_ready e sid w0" and acc: "\<forall>md. env_accel e sid md = 0"
    and run: "accel_reach e (snd (raid5f_xor_stripe e sid w0)) w"
  defines "s \<equiv> r5_stripes w0 sid"
  defines "d \<equiv> xor_dest_chunk s" and "srcs \<equiv> xor_sources (env_rb e) s"
  shows "(\<exists>w'. accel_reach e w w' \<and> xor_jobs w' = []) \<and>
    (xor_jobs w = [] \<longrightarrow>
     (\<exists>w1. w = xor_callback e sid w1 \<and> r5_ios w1 = r5_ios w0 \<and> xor_status (r5_stripes w1 sid) = 0 \<and>
        (\<forall>k < xor_len_data e s. r5_mem w1 (data_addrs s d ! k) =
           xor_all (map (\<lambda>i. r5_mem w0 (data_addrs s i ! k)) srcs)) \<and>
        (\<forall>k < xor_len_md e s. r5_mem w1 (md_addrs e s d ! k) =
           xor_all (map (\<lambda>i. r5_mem w0 (md_addrs e s i ! k)) srcs)) \<and>
        (\<forall>a. a \<notin> set (data_addrs s d) \<union> set (md_addrs e s d) \<longrightarrow> r5_mem w1 a = r5_mem w0 a)))"
proof (intro conjI impI)
  obtain c where "xor_phase e sid w0 c w" using xor_reach_phase[OF ready acc run] by blast
  then show "\<exists>w'. accel_reach e w w' \<and> xor_jobs w' = []" by (rule xor_phase_finishes[OF ready acc])
next
  assume over: "xor_jobs w = []"
  obtain n ptrs m where m: "xor_memory e s (r5_mem w0) (xor_len_data e s) False m"
    and w: "w = xor_callback e sid (xor_world sid w0 [] n 0 0 m ptrs [])"
    using xor_reach_finished[OF ready acc run over] unfolding s_def by blast
  have "length (data_addrs s d) = xor_len_data e s" using xor_disjoint(1)[OF ready] by (simp add: s_def d_def)
  then show "\<exists>w1. w = xor_callback e sid w1 \<and> r5_ios w1 = r5_ios w0 \<and> xor_status (r5_stripes w1 sid) = 0 \<and>
        (\<forall>k < xor_len_data e s. r5_mem w1 (data_addrs s d ! k) =
           xor_all (map (\<lambda>i. r5_mem w0 (data_addrs s i ! k)) srcs)) \<and>
        (\<forall>k < xor_len_md e s. r5_mem w1 (md_addrs e s d ! k) =
           xor_all (map (\<lambda>i. r5_mem w0 (md_addrs e s i ! k)) srcs)) \<and>
        (\<forall>a. a \<notin> set (data_addrs s d) \<union> set (md_addrs e s d) \<longrightarrow> r5_mem w1 a = r5_mem w0 a)"
    using m w by (intro exI[of _ "xor_world sid w0 [] n 0 0 m ptrs []"])
      (auto simp: xor_memory_def Let_def d_def srcs_def xor_world_def)
qed

text \<open>A stripe whose first chunk lies in two buffers, with metadata, one accel job after the other.\<close>

definition xor_example_env :: r5_env where
  "xor_example_env = (r5_example_env [Some 11, Some 12, Some 13] (\<lambda>_. r5_example_write\<lparr>md_buf := Some 400\<rparr>))
     \<lparr>env_rb := raid5f_example_started\<lparr>md_len := 2\<rparr>,
      env_segments := (\<lambda>_. [(4, [0, 200, 100]), (12, [40, 204, 104])])\<rparr>"

definition xor_example_world :: r5_world where
  "xor_example_world = r5_example_world
     \<lparr>r5_mem := of_nat,
      r5_stripes := (\<lambda>_. (r5_example_stripe 0)\<lparr>sr_parity_chunk := 1, sr_chunks :=
        [\<lparr>ck_index = 0, ck_iovs = [\<lparr>iov_base = 0, iov_len = 4\<rparr>, \<lparr>iov_base = 40, iov_len = 12\<rparr>],
          ck_iovcnt = 2, ck_md_buf = Some 300\<rparr>,
         \<lparr>ck_index = 1, ck_iovs = [\<lparr>iov_base = 100, iov_len = 16\<rparr>], ck_iovcnt = 1, ck_md_buf = Some 310\<rparr>,
         \<lparr>ck_index = 2, ck_iovs = [\<lparr>iov_base = 200, iov_len = 16\<rparr>], ck_iovcnt = 1, ck_md_buf = Some 320\<rparr>]\<rparr>)\<rparr>"

lemma xor_example_chunks:
  "xor_sources (env_rb xor_example_env) (r5_stripes xor_example_world 0) = [0, 2]"
  "xor_dest_chunk (r5_stripes xor_example_world 0) = 1"
  "unat (num_base_bdevs (env_rb xor_example_env)) = 3"
  "xor_len_data xor_example_env (r5_stripes xor_example_world 0) = 16"
  "xor_len_md xor_example_env (r5_stripes xor_example_world 0) = 8"
  "data_addrs (r5_stripes xor_example_world 0) 0 = [0..<4] @ [40..<52]"
  "data_addrs (r5_stripes xor_example_world 0) 1 = [100..<116]"
  "data_addrs (r5_stripes xor_example_world 0) 2 = [200..<216]"
  "md_addrs xor_example_env (r5_stripes xor_example_world 0) 0 = [300..<308]"
  "md_addrs xor_example_env (r5_stripes xor_example_world 0) 1 = [310..<318]"
  "md_addrs xor_example_env (r5_stripes xor_example_world 0) 2 = [320..<328]"
  by code_simp+

lemma xor_example_memory [simp]: "r5_mem xor_example_world = of_nat"
  by (simp add: xor_example_world_def)

lemma xor_example_ready: "xor_ready xor_example_env 0 xor_example_world"
proof -
  have "ioviter_ok xor_example_env (xor_arrays xor_example_env (r5_stripes xor_example_world 0))"
    by code_simp
  moreover have "\<forall>i < 3. length (data_addrs (r5_stripes xor_example_world 0) i) = 16"
    by (auto simp: numeral_3_eq_3 less_Suc_eq xor_example_chunks(6)
        xor_example_chunks(7)[unfolded One_nat_def] xor_example_chunks(8)[unfolded numeral_2_eq_2])
  moreover have "unat (raid5f_stripe_data_chunks_num (env_rb xor_example_env)) = 2"
    "xor_jobs xor_example_world = [] \<and> xor_retry_queue xor_example_world = []"
    "md_buf (env_io xor_example_env (sr_raid_io (r5_stripes xor_example_world 0))) = Some 400"
    by code_simp+
  ultimately show ?thesis
    by (auto simp: xor_ready_def Let_def xor_example_chunks xor_source_addrs_def simp del: One_nat_def)
qed

lemma raid5f_xor_stripe_correct_witness:
  "\<exists>w w1. accel_reach xor_example_env (snd (raid5f_xor_stripe xor_example_env 0 xor_example_world)) w \<and>
     w = xor_callback xor_example_env 0 w1 \<and> r5_mem w1 105 = 41 XOR 205 \<and> r5_mem w1 311 = 301 XOR 321 \<and>
     r5_mem w1 41 = 41"
proof -
  let ?e = xor_example_env and ?w0 = xor_example_world
  have acc: "\<forall>md. env_accel ?e 0 md = 0" by (simp add: xor_example_env_def r5_example_env_def)
  note result = raid5f_xor_stripe_correct[OF xor_example_ready acc, unfolded xor_example_chunks]
  obtain w where w: "accel_reach ?e (snd (raid5f_xor_stripe ?e 0 ?w0)) w" "xor_jobs w = []"
    using result[OF accel_refl] by blast
  obtain w1 where w1: "w = xor_callback ?e 0 w1"
    "\<forall>k < 16. r5_mem w1 ([100..<116] ! k) = xor_all (map (\<lambda>i. r5_mem ?w0 (data_addrs (r5_stripes ?w0 0) i ! k)) [0, 2])"
    "\<forall>k < 8. r5_mem w1 ([310..<318] ! k) = xor_all (map (\<lambda>i. r5_mem ?w0 (md_addrs ?e (r5_stripes ?w0 0) i ! k)) [0, 2])"
    "\<forall>a. a \<notin> set [100..<116] \<union> set [310..<318] \<longrightarrow> r5_mem w1 a = r5_mem ?w0 a"
    using result[OF w(1)] w(2) by blast
  have "r5_mem w1 105 = 41 XOR 205" using w1(2)[rule_format, of 5]
    by (simp add: xor_example_chunks nth_append del: One_nat_def)
  moreover have "r5_mem w1 311 = 301 XOR 321" using w1(3)[rule_format, of 1]
    by (simp add: xor_example_chunks del: One_nat_def)
  moreover have "r5_mem w1 41 = 41" using w1(4) by simp
  ultimately show ?thesis using w w1(1) by blast
qed

end
