(* ===== verification/Raid5f_Data.thy ===== *)
theory Raid5f_Data
  imports Raid5f_Parity
begin

text \<open>
  What a raid5f bdev stores: a full-stripe write from \<open>raid5f_submit_rw_request\<close> to its base writes, and a
  reconstruction from \<open>raid5f_submit_reconstruct_read\<close> to its completion, as programs on memory and on the
  contents of the base bdevs.
\<close>

subsection \<open>Iterators over equal arrays\<close>

text \<open>The documented behaviour of the iovec iterators, for all arrays of equal size.\<close>

definition ioviter_spec :: "r5_env \<Rightarrow> bool" where
  "ioviter_spec e \<longleftrightarrow>
     (\<forall>vss t. vss \<noteq> [] \<longrightarrow> (\<forall>vs \<in> set vss. length (iov_addrs vs) = t) \<longrightarrow> ioviter_ok e vss)"

text \<open>An iterator that keeps it, byte by byte.\<close>

definition bytewise_segments :: "iovec list list \<Rightarrow> (nat \<times> nat list) list" where
  "bytewise_segments vss =
     map (\<lambda>k. (1, map (\<lambda>vs. iov_addrs vs ! k) vss)) [0..<length (iov_addrs (hd vss))]"

lemma bytewise_ioviter_spec: "ioviter_spec (e\<lparr>env_segments := bytewise_segments\<rparr>)"
proof -
  have single: "segment_addrs j (map (\<lambda>k. (Suc 0, map (\<lambda>vs. iov_addrs vs ! k) vss)) ks) =
      map (\<lambda>k. iov_addrs (vss ! j) ! k) ks" if "j < length vss" for j vss ks
    using that by (induction ks) simp_all
  have "segment_addrs j (bytewise_segments vss) = iov_addrs (vss ! j)"
    if "j < length vss" "\<forall>vs \<in> set vss. length (iov_addrs vs) = t" for j vss t
  proof -
    have "vss \<noteq> []" using that by auto
    then have "hd vss \<in> set vss" "vss ! j \<in> set vss" using that by simp_all
    then have "length (iov_addrs (hd vss)) = length (iov_addrs (vss ! j))" using that by simp
    then show ?thesis using single[OF that(1)] by (simp add: bytewise_segments_def map_nth)
  qed
  moreover have "\<forall>(n, ptrs) \<in> set (bytewise_segments vss). 0 < n \<and> length ptrs = length vss" for vss
    by (auto simp: bytewise_segments_def)
  ultimately show ?thesis by (simp add: ioviter_spec_def ioviter_ok_def) blast
qed

subsection \<open>Chunks that are all accepted\<close>

lemma chunks_rio_accepted:
  assumes "\<forall>b. env_rc e b = 0" and "sr_type s = STRIPE_REQ_WRITE"
  shows "submitted_of (rio_events (chunks_rio e s js rio)) =
    submitted_of (rio_events rio) @
      map (chunk_base_io e s) (filter (\<lambda>i. base_channel (env_ch e) ! i \<noteq> None) js)"
  using assms
  by (induction js arbitrary: rio) (auto simp: Let_def chunk_skipped_def)

text \<open>Before each write that is sent a bit of its chunk may be flipped, once in a stripe: the memory after the
  submission. \<open>poison_slot\<close> is the slot whose chunk is hit.\<close>

definition poison_here :: "r5_env \<Rightarrow> nat \<Rightarrow> bool" where
  "poison_here e i \<longleftrightarrow> base_channel (env_ch e) ! i \<noteq> None \<and> env_poison e i"

definition poison_slot :: "r5_env \<Rightarrow> nat option" where
  "poison_slot e = List.find (poison_here e) [0..<unat (num_base_bdevs (env_rb e))]"

text \<open>What the flip changes at an address: the lowest bit at the start of the first iovec of that chunk.\<close>

definition poison_flip :: "r5_env \<Rightarrow> stripe_request \<Rightarrow> nat \<Rightarrow> u8" where
  "poison_flip e s a =
     (case poison_slot e of
        None \<Rightarrow> 0
      | Some q \<Rightarrow> if a = iov_base (ck_iovs (sr_chunks s ! q) ! 0) then 1 else 0)"

lemma poison_flip_none:
  assumes "\<forall>i < unat (num_base_bdevs (env_rb e)). \<not> poison_here e i"
  shows "poison_flip e s a = 0"
  using assms by (simp add: poison_flip_def poison_slot_def find_None_iff[THEN iffD2])

lemma poison_flip_chunks:
  "sr_chunks s = sr_chunks s' \<Longrightarrow> poison_flip e s = poison_flip e s'"
  by (simp add: poison_flip_def fun_eq_iff split: option.split)

lemma chunk_submit_memory:
  fixes w :: r5_world and sid i :: nat and e :: r5_env
  defines "s \<equiv> r5_stripes w sid" and "w' \<equiv> snd (raid5f_chunk_submit e sid i w)"
  assumes "\<forall>b. env_rc e b = 0"
  shows "sr_type s = STRIPE_REQ_WRITE \<Longrightarrow>
      r5_mem w' = (if \<not> sr_poisoned s \<and> poison_here e i
        then flip_bit (iov_base (ck_iovs (sr_chunks s ! i) ! 0)) (r5_mem w) else r5_mem w) \<and>
      sr_poisoned (r5_stripes w' sid) = (sr_poisoned s \<or> poison_here e i)"
    and "sr_type s = STRIPE_REQ_RECONSTRUCT \<Longrightarrow> r5_mem w' = r5_mem w \<and> r5_stripes w' = r5_stripes w"
  using assms(3)
  by (auto simp: s_def w'_def raid5f_chunk_submit_def Let_def case_prod_beta chunk_skipped_def chunk_poison_def
      r5_io_def r5_complete_part_def r5_stripe_def poison_here_def)

lemma submit_chunks_flips:
  assumes rc: "\<forall>b. env_rc e b = 0" and ty: "sr_type (r5_stripes w sid) = STRIPE_REQ_WRITE"
  shows "r5_mem (submit_chunks_from e sid js w) =
      (case (if sr_poisoned (r5_stripes w sid) then None else List.find (poison_here e) js) of
         None \<Rightarrow> r5_mem w
       | Some q \<Rightarrow> flip_bit (iov_base (ck_iovs (sr_chunks (r5_stripes w sid) ! q) ! 0)) (r5_mem w))"
    and "same_stripe (r5_stripes w sid) (r5_stripes (submit_chunks_from e sid js w) sid)"
proof -
  have "r5_mem (submit_chunks_from e sid js w) =
      (case (if sr_poisoned (r5_stripes w sid) then None else List.find (poison_here e) js) of
         None \<Rightarrow> r5_mem w
       | Some q \<Rightarrow> flip_bit (iov_base (ck_iovs (sr_chunks (r5_stripes w sid) ! q) ! 0)) (r5_mem w)) \<and>
    same_stripe (r5_stripes w sid) (r5_stripes (submit_chunks_from e sid js w) sid)"
    using ty
  proof (induction js arbitrary: w)
    case (Cons i js)
    let ?w = "snd (raid5f_chunk_submit e sid i w)"
    have st: "same_stripe (r5_stripes w sid) (r5_stripes ?w sid)" by (rule chunk_submit_step(1))
    note mem = chunk_submit_memory(1)[OF rc Cons.prems]
    have "fst (raid5f_chunk_submit e sid i w) = 0"
      using chunk_submit_step(2,3)[of e w sid i] rc by blast
    then have "submit_chunks_from e sid (i # js) w = submit_chunks_from e sid js ?w"
      by (simp add: Let_def case_prod_beta)
    moreover note Cons.IH[of ?w]
    moreover have "sr_type (r5_stripes ?w sid) = STRIPE_REQ_WRITE"
      "sr_chunks (r5_stripes ?w sid) = sr_chunks (r5_stripes w sid)"
      using Cons.prems same_stripeD(1,6)[OF st] by simp_all
    moreover have "r5_mem ?w = (if \<not> sr_poisoned (r5_stripes w sid) \<and> poison_here e i
        then flip_bit (iov_base (ck_iovs (sr_chunks (r5_stripes w sid) ! i) ! 0)) (r5_mem w) else r5_mem w)"
      "sr_poisoned (r5_stripes ?w sid) = (sr_poisoned (r5_stripes w sid) \<or> poison_here e i)"
      using mem by blast+
    ultimately show ?case
      using same_stripe_trans[OF st] by (auto simp del: submit_chunks_from.simps split: option.split)
  qed simp
  then show "r5_mem (submit_chunks_from e sid js w) =
      (case (if sr_poisoned (r5_stripes w sid) then None else List.find (poison_here e) js) of
         None \<Rightarrow> r5_mem w
       | Some q \<Rightarrow> flip_bit (iov_base (ck_iovs (sr_chunks (r5_stripes w sid) ! q) ! 0)) (r5_mem w))"
    and "same_stripe (r5_stripes w sid) (r5_stripes (submit_chunks_from e sid js w) sid)" by blast+
qed

lemma submit_chunks_write_memory:
  assumes "\<forall>b. env_rc e b = 0" and "sr_type (r5_stripes w sid) = STRIPE_REQ_WRITE"
    and "\<not> sr_poisoned (r5_stripes w sid)" and "n = unat (num_base_bdevs (env_rb e))"
  shows "r5_mem (submit_chunks_from e sid [0..<n] w) a = r5_mem w a XOR poison_flip e (r5_stripes w sid) a"
  using assms submit_chunks_flips(1)[OF assms(1,2), of "[0..<n]"]
  by (auto simp: poison_flip_def poison_slot_def flip_bit_def split: option.split)

text \<open>Reads flip nothing.\<close>

lemma submit_chunks_quiet:
  assumes "\<forall>b. env_rc e b = 0" and "sr_type (r5_stripes w sid) = STRIPE_REQ_RECONSTRUCT"
  shows "r5_mem (submit_chunks_from e sid js w) = r5_mem w \<and>
    r5_stripes (submit_chunks_from e sid js w) = r5_stripes w"
  using assms(2)
proof (induction js arbitrary: w)
  case (Cons i js)
  show ?case
    using Cons.IH[of "snd (raid5f_chunk_submit e sid i w)"] Cons.prems
      chunk_submit_memory(2)[OF assms(1) Cons.prems]
    by (simp add: Let_def case_prod_beta)
qed simp

subsection \<open>A full-stripe write\<close>

text \<open>What a full-stripe write relies on: a started bdev, a free stripe request with its buffers, a
  request of the right size, a parity buffer that is not part of it, and an idle accel framework.\<close>

definition r5_write_request :: "r5_env \<Rightarrow> nat \<Rightarrow> nat \<Rightarrow> r5_world \<Rightarrow> bool" where
  "r5_write_request e sid io w \<longleftrightarrow>
     (let rb = env_rb e; bio = env_io e io; s = r5_stripes w sid; n = unat (num_base_bdevs rb);
          t = unat (strip_size rb) * 2 ^ unat (blocklen_shift rb)
      in raid5f_geometry rb \<and> 0 < t \<and> t < 2 ^ 32 \<and> bdev_io_type bio = IO_WRITE \<and> md_buf bio = None \<and>
         free_write w \<noteq> [] \<and> hd (free_write w) = sid \<and> sr_type s = STRIPE_REQ_WRITE \<and>
         length (sr_chunks s) = n \<and> (\<forall>c \<in> set (sr_chunks s). ck_iovs c \<noteq> []) \<and>
         xor_remaining_md s = 0 \<and> xor_jobs w = [] \<and> xor_retry_queue w = [] \<and>
         length (iov_addrs (iovs bio)) = (n - 1) * t \<and>
         {sr_parity_buf s..<sr_parity_buf s + t} \<inter> set (iov_addrs (iovs bio)) = {} \<and>
         base_bdev_io_submitted (r5_ios w io) = 0 \<and> rio_events (r5_ios w io) = [])"

text \<open>The answers of a run without trouble: the layers below take everything. Bits may be flipped all the same.\<close>

definition r5_accepting :: "r5_env \<Rightarrow> bool" where
  "r5_accepting e \<longleftrightarrow>
     env_realloc e \<and> ioviter_spec e \<and> (\<forall>sid md. env_accel e sid md = 0) \<and> (\<forall>b. env_rc e b = 0)"

text \<open>A stripe request whose data chunks are consecutive pieces of one buffer and whose parity chunk is
  elsewhere is ready for its XOR.\<close>

lemma pieces_xor_ready:
  fixes w1 :: r5_world and sid :: nat and e :: r5_env
  defines "rb \<equiv> env_rb e" and "s \<equiv> r5_stripes w1 sid" and "n \<equiv> unat (num_base_bdevs (env_rb e))"
  assumes g: "raid5f_geometry rb" and it: "ioviter_spec e"
    and st: "sr_type s = STRIPE_REQ_WRITE" "sr_parity_chunk s = p" "p < n"
    and md: "md_buf (env_io e (sr_raid_io s)) = None" "xor_remaining_md s = 0"
    and idle: "xor_jobs w1 = []" "xor_retry_queue w1 = []"
    and t: "xor_len_data e s = t" "0 < t"
    and data: "\<And>k. k < n - 1 \<Longrightarrow> data_addrs s (data_chunks rb p ! k) = take t (drop (k * t) as)"
    and as: "length as = (n - 1) * t"
    and parity: "data_addrs s p = [b..<b + t]" and dis: "{b..<b + t} \<inter> set as = {}"
  shows "xor_ready e sid w1"
proof -
  have dn: "unat (raid5f_stripe_data_chunks_num rb) = n - 1"
    using g by (simp add: raid5f_geometry_def raid5f_stripe_data_chunks_num_def rb_def n_def)
  have dest: "xor_dest_chunk s = p" and srcs: "xor_sources rb s = data_chunks rb p"
    by (simp_all add: st xor_dest_chunk_def xor_sources_def)
  have M: "xor_len_md e s = 0" using md by (simp add: xor_len_md_def)
  have dl: "length (data_chunks rb p) = n - 1"
    using data_chunks_length[of p rb] st(3) by (simp add: n_def rb_def)
  have other: "\<exists>k < n - 1. i = data_chunks rb p ! k" if "i < n" "i \<noteq> p" for i
  proof -
    have "i \<in> set (data_chunks rb p)" using that by (simp add: data_chunks_def n_def rb_def)
    then show ?thesis using dl by (auto simp: in_set_conv_nth)
  qed
  have piece: "length (take t (drop (k * t) as)) = t" if "k < n - 1" for k
  proof -
    have "Suc k * t \<le> (n - 1) * t" using that by (intro mult_right_mono) simp_all
    then show ?thesis using as by simp
  qed
  have len: "length (data_addrs s i) = t" if "i < n" for i
    by (cases "i = p") (use other[OF that] data piece parity in auto)
  have "\<forall>vs \<in> set (xor_arrays e s). length (iov_addrs vs) = t"
    using len st(3) by (auto simp: xor_arrays_def data_addrs_def dest srcs[unfolded rb_def] data_chunks_def rb_def n_def)
  then have iter: "ioviter_ok e (xor_arrays e s)"
    using it unfolding ioviter_spec_def by (auto simp: xor_arrays_def)
  have "a \<in> set as" if src: "a \<in> xor_source_addrs e s" for a
  proof -
    obtain i where i: "i \<in> set (data_chunks rb p)" "a \<in> set (data_addrs s i)"
      using src M srcs by (auto simp: xor_source_addrs_def md_addrs_def Let_def rb_def)
    then obtain k where "k < n - 1" "i = data_chunks rb p ! k" using dl by (auto simp: in_set_conv_nth)
    then have "a \<in> set (take t (drop (k * t) as))" using i(2) data by simp
    then show ?thesis by (meson in_set_dropD in_set_takeD)
  qed
  then have sep: "(set (data_addrs s p) \<union> set (md_addrs e s p)) \<inter> xor_source_addrs e s = {}"
    using dis M by (auto simp: parity md_addrs_def Let_def)
  have self: "distinct (data_addrs s p)" "set (data_addrs s p) \<inter> set (md_addrs e s p) = {}"
    by (simp_all add: parity md_addrs_def M Let_def)
  show ?thesis
    unfolding xor_ready_def Let_def s_def[symmetric] dest t(1) M rb_def[symmetric]
    using st(3) idle iter t(2) len dn md self sep by (simp add: n_def rb_def)
qed

lemma r5_write_mapped:
  fixes w0 :: r5_world and sid io :: nat and e :: r5_env
  defines "rb \<equiv> env_rb e" and "bio \<equiv> env_io e io"
  defines "t \<equiv> unat (strip_size rb) * 2 ^ unat (blocklen_shift rb)"
    and "si \<equiv> offset_blocks bio div stripe_blocks (raid5f_info_of rb)"
  defines "p \<equiv> unat (raid5f_stripe_parity_chunk_index rb si)"
  assumes req: "r5_write_request e sid io w0" and acc: "r5_accepting e"
    and par: "base_channel (env_ch e) ! p \<noteq> None"
  obtains w1 where "raid5f_submit_rw_request e io w0 = snd (raid5f_xor_stripe e sid w1)"
    and "xor_ready e sid w1" and "sr_type (r5_stripes w1 sid) = STRIPE_REQ_WRITE"
    and "sr_raid_io (r5_stripes w1 sid) = io" and "sr_parity_chunk (r5_stripes w1 sid) = p"
    and "sr_stripe_index (r5_stripes w1 sid) = si"
    and "r5_mem w1 = r5_mem w0" and "base_bdev_io_submitted (r5_ios w1 io) = 0"
    and "rio_events (r5_ios w1 io) = []" and "xor_len_data e (r5_stripes w1 sid) = t"
    and "\<forall>k < unat (num_base_bdevs rb) - 1. data_addrs (r5_stripes w1 sid) (data_chunks rb p ! k) =
           take t (drop (k * t) (iov_addrs (iovs bio)))"
    and "ck_used (sr_chunks (r5_stripes w1 sid) ! p) =
           [\<lparr>iov_base = sr_parity_buf (r5_stripes w0 sid), iov_len = t\<rparr>]"
    and "\<not> sr_poisoned (r5_stripes w1 sid)"
proof -
  let ?n = "unat (num_base_bdevs rb)"
  have g: "raid5f_geometry rb" and t: "0 < t" "t < 2 ^ 32" and ty: "bdev_io_type bio = IO_WRITE"
    and md: "md_buf bio = None" and free0: "free_write w0 \<noteq> [] \<and> hd (free_write w0) = sid"
    and st: "sr_type (r5_stripes w0 sid) = STRIPE_REQ_WRITE"
    and cl: "length (sr_chunks (r5_stripes w0 sid)) = ?n"
    and ci: "\<forall>c \<in> set (sr_chunks (r5_stripes w0 sid)). ck_iovs c \<noteq> []"
    and rm: "xor_remaining_md (r5_stripes w0 sid) = 0" and jobs: "xor_jobs w0 = []" "xor_retry_queue w0 = []"
    and size: "length (iov_addrs (iovs bio)) = (?n - 1) * t"
    and dis: "{sr_parity_buf (r5_stripes w0 sid)..<sr_parity_buf (r5_stripes w0 sid) + t} \<inter>
      set (iov_addrs (iovs bio)) = {}"
    and rio: "base_bdev_io_submitted (r5_ios w0 io) = 0" "rio_events (r5_ios w0 io) = []"
    using req by (auto simp: r5_write_request_def Let_def rb_def bio_def t_def)
  obtain rest where free: "free_write w0 = sid # rest" using free0 by (cases "free_write w0") auto
  have ra: "env_realloc e" and it: "ioviter_spec e" and ac: "\<forall>sid md. env_accel e sid md = 0"
    using acc by (simp_all add: r5_accepting_def)
  have n1: "1 < ?n" using g by (simp add: raid5f_geometry_def)
  have L: "chunk_len rb = t"
    using t(2) by (simp add: chunk_len_def t_def unat_push_bit_no_wrap)
  have p: "p < ?n" using parity_less[of ?n] n1 by (simp add: p_def raid5f_parity_index[OF g])
  define wi where "wi = raid5f_stripe_request_init e sid io si w0"
  have wi: "r5_stripes wi sid = (r5_stripes w0 sid)\<lparr>sr_raid_io := io, sr_stripe_index := si,
      sr_parity_chunk := p, sr_poisoned := False\<rparr>" "r5_mem wi = r5_mem w0" "r5_ios wi = r5_ios w0"
    "xor_jobs wi = []" "xor_retry_queue wi = []"
    using jobs by (simp_all add: wi_def raid5f_stripe_request_init_def r5_stripe_def p_def rb_def)
  have ready: "stripe_ready e (r5_stripes wi sid)"
    using cl ci p L t by (simp add: stripe_ready_def wi rb_def)
  obtain cs where cs: "raid5f_stripe_request_map_iovecs e sid wi = (0, r5_stripe sid (\<lambda>s. s\<lparr>sr_chunks := cs\<rparr>) wi)"
    "length cs = ?n"
    "\<forall>k < ?n - 1. iov_addrs (ck_used (cs ! (data_chunks rb p ! k))) =
       take t (drop (k * t) (iov_addrs (iovs bio)))"
    "ck_used (cs ! p) = [\<lparr>iov_base = sr_parity_buf (r5_stripes w0 sid), iov_len = t\<rparr>]"
  proof (rule map_iovecs_result[OF ready ra])
    show "length (iov_addrs (iovs (env_io e (sr_raid_io (r5_stripes wi sid))))) =
        (unat (num_base_bdevs (env_rb e)) - 1) * chunk_len (env_rb e)"
      using size L by (simp add: wi bio_def rb_def)
  qed (use that L cl in \<open>auto simp: wi rb_def bio_def\<close>)
  define w1 where "w1 = r5_io io (\<lambda>rio. rio\<lparr>rio_private := Some sid,
      base_bdev_io_remaining := ucast (num_base_bdevs rb)\<rparr>)
    ((r5_stripe sid (\<lambda>s. s\<lparr>sr_chunks := cs\<rparr>) wi)\<lparr>free_write := rest\<rparr>)"
  have s1: "r5_stripes w1 sid = (r5_stripes wi sid)\<lparr>sr_chunks := cs\<rparr>"
    by (simp add: w1_def r5_stripe_def)
  have f1: "r5_mem w1 = r5_mem w0" "xor_jobs w1 = []" "xor_retry_queue w1 = []"
    "base_bdev_io_submitted (r5_ios w1 io) = 0" "rio_events (r5_ios w1 io) = []"
    using rio by (simp_all add: w1_def r5_io_def r5_stripe_def wi)
  let ?s = "r5_stripes w1 sid"
  have sub: "raid5f_submit_rw_request e io w0 = xor_settle e sid (raid5f_xor_stripe e sid w1)"
  proof -
    have "raid5f_submit_write_request e io si w0 = (0, xor_settle e sid (raid5f_xor_stripe e sid w1))"
      using par free cs(1)
      by (simp add: raid5f_submit_write_request_def Let_def wi_def[symmetric] w1_def rb_def r5_stripe_def wi)
    then show ?thesis using ty by (simp add: raid5f_submit_rw_request_def bio_def si_def rb_def Let_def)
  qed
  have data: "data_addrs ?s (data_chunks rb p ! k) = take t (drop (k * t) (iov_addrs (iovs bio)))"
    if "k < ?n - 1" for k
    using cs(3) that by (simp add: data_addrs_def s1)
  have parity: "data_addrs ?s p = [sr_parity_buf (r5_stripes w0 sid)..<sr_parity_buf (r5_stripes w0 sid) + t]"
    using cs(4) by (simp add: data_addrs_def s1)
  have T: "xor_len_data e ?s = t"
    by (simp add: xor_len_data_def xor_num_blocks_def s1 wi st t_def rb_def)
  have ready1: "xor_ready e sid w1"
    by (rule pieces_xor_ready[OF g[unfolded rb_def] it _ _ _ _ _ f1(2,3) T t(1) _ _ parity dis])
       (use data size p md rm in \<open>simp_all add: s1 wi st rb_def bio_def\<close>)
  have "fst (raid5f_xor_stripe e sid w1) = None"
    using xor_start_phase[OF ready1] ac by simp
  then have "raid5f_submit_rw_request e io w0 = snd (raid5f_xor_stripe e sid w1)"
    unfolding sub by (cases "raid5f_xor_stripe e sid w1") (simp add: xor_settle_def)
  then show ?thesis
    by (rule that) (use ready1 f1 T data st cs(4) in \<open>simp_all add: s1 wi\<close>)
qed

text \<open>The parity of a stripe.\<close>

lemma xor_all_split:
  assumes "distinct xs" and "p \<in> set xs"
  shows "xor_all (map f xs) = f p XOR xor_all (map f (filter (\<lambda>i. i \<noteq> p) xs))"
  using assms
proof (induction xs)
  case (Cons x xs)
  show ?case
  proof (cases "x = p")
    case True
    then have "filter (\<lambda>i. i \<noteq> p) xs = xs" using Cons.prems(1) by (auto simp: filter_id_conv)
    then show ?thesis using True by simp
  next
    case False
    then show ?thesis using Cons by (simp add: xor.left_commute)
  qed
qed simp

lemma data_addrs_xor_world [simp]:
  "data_addrs (r5_stripes (xor_world sid w0 it n r rm m b js) sid) i = data_addrs (r5_stripes w0 sid) i"
  by (simp add: data_addrs_def)

lemma ck_used_first: "ck_used c = v # vs \<Longrightarrow> ck_iovs c ! 0 = v"
  unfolding ck_used_def by (cases "ck_iovs c"; cases "ck_iovcnt c") simp_all

lemma xor_all_xor:
  "xor_all (map (\<lambda>i. f i XOR g i) xs) = xor_all (map f xs) XOR xor_all (map g xs)"
  by (induction xs) (simp_all add: xor.assoc xor.left_commute)

text \<open>The whole write.\<close>

lemma r5_write_stripe:
  fixes e :: r5_env and sid io :: nat and w0 w :: r5_world
  defines "rb \<equiv> env_rb e" and "bio \<equiv> env_io e io" and "s \<equiv> r5_stripes w sid"
  defines "t \<equiv> unat (strip_size rb) * 2 ^ unat (blocklen_shift rb)"
    and "si \<equiv> offset_blocks bio div stripe_blocks (raid5f_info_of rb)" and "n \<equiv> unat (num_base_bdevs rb)"
  defines "p \<equiv> unat (raid5f_stripe_parity_chunk_index rb si)"
  assumes "r5_write_request e sid io w0" and "r5_accepting e" and "base_channel (env_ch e) ! p \<noteq> None"
    and run: "accel_reach e (raid5f_submit_rw_request e io w0) w" and over: "xor_jobs w = []"
  shows "submitted_of (rio_events (r5_ios w io)) =
      map (\<lambda>i. raid_bdev_writev_blocks_ext rb i (base_channel (env_ch e) ! i) (ck_used (sr_chunks s ! i))
                 (ck_md_buf (sr_chunks s ! i)) (push_bit (unat (strip_size_shift rb)) si) (ucast (strip_size rb)))
        (filter (\<lambda>i. base_channel (env_ch e) ! i \<noteq> None) [0..<n]) \<and>
    ck_used (sr_chunks s ! p) = [\<lparr>iov_base = sr_parity_buf (r5_stripes w0 sid), iov_len = t\<rparr>] \<and>
    (\<forall>j < n - 1. data_addrs s (data_chunks rb p ! j) = take t (drop (j * t) (iov_addrs (iovs bio)))) \<and>
    (\<forall>j < n - 1. \<forall>k < t. r5_mem w (data_addrs s (data_chunks rb p ! j) ! k) =
       r5_mem w0 (iov_addrs (iovs bio) ! (j * t + k)) XOR
         poison_flip e s (data_addrs s (data_chunks rb p ! j) ! k)) \<and>
    (\<forall>k < t. xor_all (map (\<lambda>i. r5_mem w (data_addrs s i ! k)) [0..<n]) =
       xor_all (map (\<lambda>i. poison_flip e s (data_addrs s i ! k)) [0..<n]))"
proof -
  obtain w1 where sub: "raid5f_submit_rw_request e io w0 = snd (raid5f_xor_stripe e sid w1)"
    and ready: "xor_ready e sid w1" and ty: "sr_type (r5_stripes w1 sid) = STRIPE_REQ_WRITE"
    and io: "sr_raid_io (r5_stripes w1 sid) = io" and pc: "sr_parity_chunk (r5_stripes w1 sid) = p"
    and idx: "sr_stripe_index (r5_stripes w1 sid) = si"
    and mem: "r5_mem w1 = r5_mem w0" and rio: "base_bdev_io_submitted (r5_ios w1 io) = 0"
      "rio_events (r5_ios w1 io) = []" and T: "xor_len_data e (r5_stripes w1 sid) = t"
    and data: "\<forall>k < n - 1. data_addrs (r5_stripes w1 sid) (data_chunks rb p ! k) =
           take t (drop (k * t) (iov_addrs (iovs bio)))"
    and parity: "ck_used (sr_chunks (r5_stripes w1 sid) ! p) =
           [\<lparr>iov_base = sr_parity_buf (r5_stripes w0 sid), iov_len = t\<rparr>]"
    and clean: "\<not> sr_poisoned (r5_stripes w1 sid)"
    using r5_write_mapped[OF assms(8-9) assms(10)[unfolded p_def si_def bio_def rb_def]]
    unfolding rb_def bio_def t_def si_def p_def n_def by blast
  let ?s1 = "r5_stripes w1 sid"
  have acc: "\<forall>md. env_accel e sid md = 0" and rc: "\<forall>b. env_rc e b = 0"
    using assms(9) by (simp_all add: r5_accepting_def)
  have dest: "xor_dest_chunk ?s1 = p" and srcs: "xor_sources rb ?s1 = data_chunks rb p"
    by (simp_all add: xor_dest_chunk_def ty pc xor_sources_def)
  obtain l ptrs m where m: "xor_memory e ?s1 (r5_mem w1) t False m"
    and w: "w = xor_callback e sid (xor_world sid w1 [] l 0 0 m ptrs [])"
    using xor_reach_finished[OF ready acc run[unfolded sub] over] unfolding T by blast
  define w2 where "w2 = xor_world sid w1 [] l 0 0 m ptrs []"
  have st2: "sr_type (r5_stripes w2 sid) = STRIPE_REQ_WRITE" "xor_status (r5_stripes w2 sid) = 0"
    "sr_raid_io (r5_stripes w2 sid) = io" "r5_mem w2 = m" "r5_ios w2 = r5_ios w1"
    "sr_stripe_index (r5_stripes w2 sid) = si"
    "data_addrs (r5_stripes w2 sid) = data_addrs ?s1" "sr_chunks (r5_stripes w2 sid) = sr_chunks ?s1"
    "\<not> sr_poisoned (r5_stripes w2 sid)"
    using clean by (simp_all add: w2_def xor_world_def ty io idx data_addrs_def fun_eq_iff)
  have w': "w = submit_chunks_from e sid [0..<n] w2"
    by (simp add: w w2_def[symmetric] xor_callback_def Let_def st2 raid5f_stripe_write_request_xor_done_def
        raid5f_stripe_request_submit_chunks_def rio n_def rb_def)
  have same: "same_stripe (r5_stripes w2 sid) s"
    using submit_chunks_flips(2)[OF rc st2(1)] by (simp add: s_def w')
  note s = same_stripeD[OF same]
  have mw: "r5_mem w a = m a XOR poison_flip e s a" for a
    using submit_chunks_write_memory[OF rc st2(1) st2(9), of n] poison_flip_chunks[OF s(6)]
    by (simp add: w' st2(4) n_def rb_def)
  have cb: "chunk_base_io e s i = raid_bdev_writev_blocks_ext rb i (base_channel (env_ch e) ! i)
      (ck_used (sr_chunks s ! i)) (ck_md_buf (sr_chunks s ! i)) (push_bit (unat (strip_size_shift rb)) si)
      (ucast (strip_size rb))" for i
    unfolding s(3)[of e] by (simp add: chunk_base_io_def Let_def st2(1,6) s(6) rb_def)
  have "r5_ios w io = chunks_rio e s [0..<n] (r5_ios w1 io)"
    using submit_chunks_rio[of e sid "[0..<n]" w2] by (simp add: w' st2 s)
  then have 1: "submitted_of (rio_events (r5_ios w io)) = map (chunk_base_io e s)
      (filter (\<lambda>i. base_channel (env_ch e) ! i \<noteq> None) [0..<n])"
    using chunks_rio_accepted[OF rc, of s] st2(1) rio by (simp add: s)
  have ck: "sr_chunks s = sr_chunks ?s1" by (simp add: s(6) st2)
  then have da: "data_addrs s = data_addrs ?s1" by (simp add: data_addrs_def fun_eq_iff)
  have src: "m (data_addrs ?s1 i ! k) = r5_mem w0 (data_addrs ?s1 i ! k)"
    if "i \<in> set (data_chunks rb p)" "k < t" for i k
    using xor_memory_source(1)[OF ready m] that unfolding srcs[unfolded rb_def] T
    by (simp add: rb_def mem)
  have dl: "length (data_chunks rb p) = n - 1"
    unfolding n_def by (rule data_chunks_length)
      (use ready in \<open>simp add: xor_ready_def Let_def dest rb_def\<close>)
  have 2: "r5_mem w (data_addrs s (data_chunks rb p ! j) ! k) = r5_mem w0 (iov_addrs (iovs bio) ! (j * t + k)) XOR
      poison_flip e s (data_addrs s (data_chunks rb p ! j) ! k)"
    if "j < n - 1" "k < t" for j k
  proof -
    have i: "data_chunks rb p ! j \<in> set (data_chunks rb p)" using that dl by simp
    have "length (data_addrs ?s1 (data_chunks rb p ! j)) = t"
      using xor_disjoint(4)[OF ready, of "data_chunks rb p ! j"] i T srcs by (simp add: rb_def)
    then have "data_addrs ?s1 (data_chunks rb p ! j) ! k = iov_addrs (iovs bio) ! (j * t + k)"
      using data that by simp
    then show ?thesis using src[OF i that(2)] by (simp add: mw da)
  qed
  have 3: "xor_all (map (\<lambda>i. r5_mem w (data_addrs s i ! k)) [0..<n]) =
      xor_all (map (\<lambda>i. poison_flip e s (data_addrs s i ! k)) [0..<n])" if k: "k < t" for k
  proof -
    have "p < n" using ready by (simp add: xor_ready_def Let_def dest n_def rb_def)
    then have "xor_all (map (\<lambda>i. m (data_addrs ?s1 i ! k)) [0..<n]) =
        m (data_addrs ?s1 p ! k) XOR xor_all (map (\<lambda>i. m (data_addrs ?s1 i ! k)) (data_chunks rb p))"
      using xor_all_split[of "[0..<n]" p] by (simp add: data_chunks_def n_def)
    moreover have "m (data_addrs ?s1 p ! k) =
        xor_all (map (\<lambda>i. r5_mem w1 (data_addrs ?s1 i ! k)) (data_chunks rb p))"
      using m k by (simp add: xor_memory_def Let_def dest srcs[unfolded rb_def] rb_def)
    moreover have "map (\<lambda>i. m (data_addrs ?s1 i ! k)) (data_chunks rb p) =
        map (\<lambda>i. r5_mem w1 (data_addrs ?s1 i ! k)) (data_chunks rb p)"
      using src k by (simp add: mem)
    ultimately have "xor_all (map (\<lambda>i. m (data_addrs ?s1 i ! k)) [0..<n]) = 0" by simp
    then show ?thesis by (simp add: mw da xor_all_xor)
  qed
  show ?thesis using 1 2 3 parity data unfolding cb by (simp add: ck da)
qed

lemma xor_all_zeros: "xor_all (map (\<lambda>i. 0) xs) = (0 :: u8)"
  by (induction xs) simp_all

text \<open>C7: a full-stripe write, from \<open>raid5f_submit_rw_request\<close> on, when the layers below take everything:
  once the parity computation is over, every present base bdev has been sent one write of one strip,
  at the stripe's strip and in slot order; the parity chunk is the parity buffer and the data chunks are
  the consecutive pieces of the request's buffers. They hold the bytes of the request in their order,
  and the exclusive or of all chunks is zero at every byte, up to the bit flip that the code makes once
  in a thousand chunks, after the parity has been computed: it flips the lowest bit at the start of the
  first iovec of the first chunk it hits, in the request's own buffer or in the parity buffer, and the
  data, or the parity, and the exclusive or are wrong by this bit. If no chunk is hit they are as above
  without exception.\<close>

theorem raid5f_write_stripe_correct:
  fixes e :: r5_env and sid io :: nat and w0 w :: r5_world
  defines "rb \<equiv> env_rb e" and "bio \<equiv> env_io e io" and "s \<equiv> r5_stripes w sid"
  defines "t \<equiv> unat (strip_size rb) * 2 ^ unat (blocklen_shift rb)"
    and "si \<equiv> offset_blocks bio div stripe_blocks (raid5f_info_of rb)" and "n \<equiv> unat (num_base_bdevs rb)"
  defines "p \<equiv> unat (raid5f_stripe_parity_chunk_index rb si)"
  assumes "r5_write_request e sid io w0" and "r5_accepting e" and "base_channel (env_ch e) ! p \<noteq> None"
    and run: "accel_reach e (raid5f_submit_rw_request e io w0) w" and over: "xor_jobs w = []"
  shows "submitted_of (rio_events (r5_ios w io)) =
      map (\<lambda>i. raid_bdev_writev_blocks_ext rb i (base_channel (env_ch e) ! i) (ck_used (sr_chunks s ! i))
                 (ck_md_buf (sr_chunks s ! i)) (push_bit (unat (strip_size_shift rb)) si) (ucast (strip_size rb)))
        (filter (\<lambda>i. base_channel (env_ch e) ! i \<noteq> None) [0..<n]) \<and>
    ck_used (sr_chunks s ! p) = [\<lparr>iov_base = sr_parity_buf (r5_stripes w0 sid), iov_len = t\<rparr>] \<and>
    (\<forall>j < n - 1. data_addrs s (data_chunks rb p ! j) = take t (drop (j * t) (iov_addrs (iovs bio)))) \<and>
    (\<forall>j < n - 1. \<forall>k < t. r5_mem w (data_addrs s (data_chunks rb p ! j) ! k) =
       r5_mem w0 (iov_addrs (iovs bio) ! (j * t + k)) XOR
         poison_flip e s (data_addrs s (data_chunks rb p ! j) ! k)) \<and>
    (\<forall>k < t. xor_all (map (\<lambda>i. r5_mem w (data_addrs s i ! k)) [0..<n]) =
       xor_all (map (\<lambda>i. poison_flip e s (data_addrs s i ! k)) [0..<n])) \<and>
    ((\<forall>i < n. \<not> poison_here e i) \<longrightarrow>
       (\<forall>j < n - 1. \<forall>k < t. r5_mem w (data_addrs s (data_chunks rb p ! j) ! k) =
          r5_mem w0 (iov_addrs (iovs bio) ! (j * t + k))) \<and>
       (\<forall>k < t. xor_all (map (\<lambda>i. r5_mem w (data_addrs s i ! k)) [0..<n]) = 0))"
proof -
  note stripe = r5_write_stripe[OF assms(8,9) assms(10)[unfolded p_def si_def bio_def rb_def] assms(11,12),
      folded rb_def bio_def, folded s_def t_def si_def n_def, folded p_def]
  have zero: "poison_flip e s = (\<lambda>a. 0)" if "\<forall>i < n. \<not> poison_here e i"
    using poison_flip_none that by (auto simp: n_def rb_def)
  have bytes: "\<forall>j < n - 1. \<forall>k < t. r5_mem w (data_addrs s (data_chunks rb p ! j) ! k) =
       r5_mem w0 (iov_addrs (iovs bio) ! (j * t + k)) XOR
         poison_flip e s (data_addrs s (data_chunks rb p ! j) ! k)"
    and parity: "\<forall>k < t. xor_all (map (\<lambda>i. r5_mem w (data_addrs s i ! k)) [0..<n]) =
       xor_all (map (\<lambda>i. poison_flip e s (data_addrs s i ! k)) [0..<n])"
    using stripe by blast+
  have "(\<forall>j < n - 1. \<forall>k < t. r5_mem w (data_addrs s (data_chunks rb p ! j) ! k) =
        r5_mem w0 (iov_addrs (iovs bio) ! (j * t + k))) \<and>
      (\<forall>k < t. xor_all (map (\<lambda>i. r5_mem w (data_addrs s i ! k)) [0..<n]) = 0)"
    if "\<forall>i < n. \<not> poison_here e i"
    using bytes parity unfolding zero[OF that] xor_all_zeros xor.right_neutral by (rule conjI)
  then show ?thesis using stripe by blast
qed

text \<open>Such a run can always be finished.\<close>

lemma r5_write_finishes:
  fixes e :: r5_env and sid io :: nat and w0 :: r5_world
  defines "p \<equiv> unat (raid5f_stripe_parity_chunk_index (env_rb e)
    (offset_blocks (env_io e io) div stripe_blocks (raid5f_info_of (env_rb e))))"
  assumes "r5_write_request e sid io w0" and "r5_accepting e" and "base_channel (env_ch e) ! p \<noteq> None"
  shows "\<exists>w. accel_reach e (raid5f_submit_rw_request e io w0) w \<and> xor_jobs w = []"
proof -
  obtain w1 where w1: "raid5f_submit_rw_request e io w0 = snd (raid5f_xor_stripe e sid w1)" "xor_ready e sid w1"
    using r5_write_mapped[OF assms(2,3) assms(4)[unfolded p_def]] by blast
  have acc: "\<forall>md. env_accel e sid md = 0" using assms(3) by (simp add: r5_accepting_def)
  obtain c where "xor_phase e sid w1 c (snd (raid5f_xor_stripe e sid w1))"
    using xor_start_phase[OF w1(2) acc] by blast
  from xor_phase_finishes[OF w1(2) acc this] show ?thesis by (simp add: w1)
qed

abbreviation r5_healthy_env :: r5_env where
  "r5_healthy_env \<equiv> r5_write_env\<lparr>env_segments := bytewise_segments\<rparr>"

definition r5_healthy_world :: r5_world where
  "r5_healthy_world = r5_example_world\<lparr>r5_mem := of_nat\<rparr>"

lemma r5_healthy_request: "r5_write_request r5_healthy_env 0 0 r5_healthy_world"
proof -
  have g: "raid5f_geometry (env_rb r5_healthy_env)"
    using raid5f_example_started_ok by (simp add: r5_example_env_def)
  have t: "unat (strip_size (env_rb r5_healthy_env)) * 2 ^ unat (blocklen_shift (env_rb r5_healthy_env)) = 16"
    by code_simp
  have dis: "{sr_parity_buf (r5_stripes r5_healthy_world 0)..<sr_parity_buf (r5_stripes r5_healthy_world 0) + 16} \<inter>
      set (iov_addrs (iovs (env_io r5_healthy_env 0))) = {}"
    by (auto simp: r5_healthy_world_def r5_example_world_def r5_example_stripe_def r5_example_env_def
        r5_example_write_def)
  have t32: "(16 :: nat) < 2 ^ 32" by simp
  show ?thesis
    unfolding r5_write_request_def Let_def t by (intro conjI g dis t32) code_simp+
qed

lemma r5_healthy_accepting: "r5_accepting r5_healthy_env"
  using bytewise_ioviter_spec[of r5_write_env]
  by (simp add: r5_accepting_def r5_example_env_def)

text \<open>The same write with the parity chunk hit by the bit flip.\<close>

abbreviation r5_flipped_env :: r5_env where
  "r5_flipped_env \<equiv> r5_healthy_env\<lparr>env_poison := (\<lambda>i. i = 1)\<rparr>"

lemma r5_flipped_request: "r5_write_request r5_flipped_env 0 0 r5_healthy_world"
  using r5_healthy_request by (simp add: r5_write_request_def)

lemma r5_flipped_accepting: "r5_accepting r5_flipped_env"
  using bytewise_ioviter_spec[of "r5_write_env\<lparr>env_poison := (\<lambda>i. i = 1)\<rparr>"]
  by (simp add: r5_accepting_def r5_example_env_def)

lemma raid5f_write_stripe_correct_witness:
  "(\<exists>w. accel_reach r5_healthy_env (raid5f_submit_rw_request r5_healthy_env 0 r5_healthy_world) w \<and>
      map bio_slot (submitted_of (rio_events (r5_ios w 0))) = [0, 1, 2] \<and>
      r5_mem w (data_addrs (r5_stripes w 0) 0 ! 3) = 103) \<and>
   (\<exists>w. accel_reach r5_flipped_env (raid5f_submit_rw_request r5_flipped_env 0 r5_healthy_world) w \<and>
      map bio_slot (submitted_of (rio_events (r5_ios w 0))) = [0, 1, 2] \<and>
      xor_all (map (\<lambda>i. r5_mem w (data_addrs (r5_stripes w 0) i ! 0)) [0..<3]) = 1)"
proof -
  let ?e = r5_healthy_env and ?f = r5_flipped_env and ?rb = raid5f_example_started
  have rb: "env_rb ?e = ?rb" "env_io ?e 0 = r5_example_write"
    "base_channel (env_ch ?e) = [Some 11, Some 12, Some 13]" by (simp_all add: r5_example_env_def)
  have rf: "env_rb ?f = ?rb" "env_io ?f 0 = r5_example_write"
    "base_channel (env_ch ?f) = [Some 11, Some 12, Some 13]" by (simp_all add: r5_example_env_def)
  have geo: "unat (raid5f_stripe_parity_chunk_index ?rb
        (offset_blocks r5_example_write div stripe_blocks (raid5f_info_of ?rb))) = 1"
      "unat (num_base_bdevs ?rb) = 3" "data_chunks ?rb 1 = [0, 2]"
      "unat (strip_size ?rb) * 2 ^ unat (blocklen_shift ?rb) = 16"
      "r5_mem r5_healthy_world (iov_addrs (iovs r5_example_write) ! 3) = 103"
    by code_simp+
  have par: "base_channel (env_ch e) ! unat (raid5f_stripe_parity_chunk_index (env_rb e)
      (offset_blocks (env_io e 0) div stripe_blocks (raid5f_info_of (env_rb e)))) \<noteq> None"
    if "env_rb e = ?rb" "env_io e 0 = r5_example_write" "base_channel (env_ch e) = [Some 11, Some 12, Some 13]" for e
    using geo(1) that by simp
  have present: "filter (\<lambda>i. [Some 11, Some 12, Some (13 :: nat)] ! i \<noteq> None) [0..<3] = [0, 1, 2]"
    by code_simp
  have "\<exists>w. accel_reach ?e (raid5f_submit_rw_request ?e 0 r5_healthy_world) w \<and>
      map bio_slot (submitted_of (rio_events (r5_ios w 0))) = [0, 1, 2] \<and>
      r5_mem w (data_addrs (r5_stripes w 0) 0 ! 3) = 103"
  proof -
    obtain w where w: "accel_reach ?e (raid5f_submit_rw_request ?e 0 r5_healthy_world) w" "xor_jobs w = []"
      using r5_write_finishes[OF r5_healthy_request r5_healthy_accepting par[OF rb]] by blast
    note result = raid5f_write_stripe_correct[OF r5_healthy_request r5_healthy_accepting par[OF rb] w, unfolded rb geo]
    have "map bio_slot (submitted_of (rio_events (r5_ios w 0))) = [0, 1, 2]"
      unfolding result[THEN conjunct1] present by (simp add: raid_bdev_writev_blocks_ext_def)
    moreover have "r5_mem w (data_addrs (r5_stripes w 0) 0 ! 3) = 103"
    proof -
      have clean: "\<forall>i < 3. \<not> poison_here ?e i" by (simp add: poison_here_def r5_example_env_def)
      have "0 < (3 :: nat) - 1" "(3 :: nat) < 16" by simp_all
      with result clean have "r5_mem w (data_addrs (r5_stripes w 0) ([0, 2] ! 0) ! 3) =
          r5_mem r5_healthy_world (iov_addrs (iovs r5_example_write) ! (0 * 16 + 3))" by blast
      then show ?thesis by (simp only: nth_Cons_0 mult_zero_left add_0_left geo(5))
    qed
    ultimately show ?thesis by (intro exI[of _ w] conjI w)
  qed
  moreover have "\<exists>w. accel_reach ?f (raid5f_submit_rw_request ?f 0 r5_healthy_world) w \<and>
      map bio_slot (submitted_of (rio_events (r5_ios w 0))) = [0, 1, 2] \<and>
      xor_all (map (\<lambda>i. r5_mem w (data_addrs (r5_stripes w 0) i ! 0)) [0..<3]) = 1"
  proof -
    obtain w where w: "accel_reach ?f (raid5f_submit_rw_request ?f 0 r5_healthy_world) w" "xor_jobs w = []"
      using r5_write_finishes[OF r5_flipped_request r5_flipped_accepting par[OF rf]] by blast
    let ?s = "r5_stripes w 0"
    note result = raid5f_write_stripe_correct[OF r5_flipped_request r5_flipped_accepting par[OF rf] w, unfolded rf geo]
    have slots: "map bio_slot (submitted_of (rio_events (r5_ios w 0))) = [0, 1, 2]"
      unfolding result[THEN conjunct1] present by (simp add: raid_bdev_writev_blocks_ext_def)
    have used: "ck_used (sr_chunks ?s ! 1) = [\<lparr>iov_base = 1000, iov_len = 16\<rparr>]"
      and data: "\<forall>j < 3 - 1. data_addrs ?s ([0, 2] ! j) = take 16 (drop (j * 16) (iov_addrs (iovs r5_example_write)))"
      using result by (simp_all add: r5_healthy_world_def r5_example_world_def r5_example_stripe_def)
    have "data_addrs ?s ([0, 2] ! 0) = take 16 (drop (0 * 16) (iov_addrs (iovs r5_example_write)))"
      "data_addrs ?s ([0, 2] ! 1) = take 16 (drop (1 * 16) (iov_addrs (iovs r5_example_write)))"
      using data[rule_format, of 0] data[rule_format, of 1] by simp_all
    moreover have "take 16 (drop (0 * 16) (iov_addrs (iovs r5_example_write))) ! 0 = 100"
      "take 16 (drop (1 * 16) (iov_addrs (iovs r5_example_write))) ! 0 = 311" by code_simp+
    ultimately have a: "data_addrs ?s 0 ! 0 = 100" "data_addrs ?s 2 ! 0 = 311" by simp_all
    have b: "data_addrs ?s 1 ! 0 = 1000" using used by (simp add: data_addrs_def)
    have "iov_base (ck_iovs (sr_chunks ?s ! 1) ! 0) = 1000" by (simp only: ck_used_first[OF used] iovec.select_convs)
    moreover have "poison_slot ?f = Some 1"
      using geo(2) by (simp add: poison_slot_def poison_here_def r5_example_env_def upt_rec)
    ultimately have flip: "poison_flip ?f ?s a = (if a = 1000 then 1 else 0)" for a
      by (simp add: poison_flip_def)
    have slots3: "[0..<3] = [0, 1, 2 :: nat]" by code_simp
    have "xor_all (map (\<lambda>i. r5_mem w (data_addrs ?s i ! 0)) [0..<3]) =
        xor_all (map (\<lambda>i. poison_flip ?f ?s (data_addrs ?s i ! 0)) [0..<3])"
      using result[THEN conjunct2, THEN conjunct2, THEN conjunct2, THEN conjunct2, THEN conjunct1] zero_less_numeral
      by blast
    also have "\<dots> = 1" unfolding flip slots3 list.map a b by simp
    finally show ?thesis by (intro exI[of _ w] conjI w(1) slots)
  qed
  ultimately show ?thesis by blast
qed

end
