(* ===== verification/Raid5f_Reconstruct.thy ===== *)
theory Raid5f_Reconstruct
  imports Raid5f_Data
begin

text \<open>
  Reads of a missing chunk: the submission of the reads of the other chunks, their completion in any
  order, the parity computation that follows the last one, and what the request's buffers then hold,
  given the contents of the base bdevs.
\<close>

subsection \<open>Chunks of a reconstruction\<close>

lemma reconstruct_chunks_result:
  fixes e :: r5_env and s :: stripe_request and js :: "nat list"
  assumes "env_realloc e" and "distinct js" and "\<forall>i \<in> set js. i < length cs \<and> ck_iovs (cs ! i) \<noteq> []"
  defines "bio \<equiv> env_io e (sr_raid_io s)"
  defines "others \<equiv> filter (\<lambda>i. i \<noteq> sr_chunk s) js"
  shows "\<exists>cs'. reconstruct_chunks e s js (n, cs) = (0, cs') \<and> length cs' = length cs \<and>
    (\<forall>i. i \<notin> set js \<longrightarrow> cs' ! i = cs ! i) \<and>
    (sr_chunk s \<in> set js \<longrightarrow> ck_used (cs' ! sr_chunk s) = iovs bio) \<and>
    (\<forall>k < length others. ck_used (cs' ! (others ! k)) =
       [\<lparr>iov_base = sr_chunk_buffers s ! (n + k),
         iov_len = unat (push_bit (unat (blocklen_shift (env_rb e))) (num_blocks bio))\<rparr>])"
  using assms(2,3) unfolding others_def bio_def
proof (induction js arbitrary: n cs)
  case Nil
  then show ?case by simp
next
  case (Cons i js)
  let ?bio = "env_io e (sr_raid_io s)" and ?c = "sr_chunk s"
  let ?len = "unat (push_bit (unat (blocklen_shift (env_rb e))) (num_blocks ?bio))"
  show ?case
  proof (cases "i = ?c")
    case True
    define ck where "ck = snd (raid5f_chunk_set_iovcnt True (length (iovs ?bio)) (cs ! i))"
    define ck2 where "ck2 = ck\<lparr>ck_iovs := iovs ?bio @ drop (length (iovs ?bio)) (ck_iovs ck), ck_md_buf := md_buf ?bio\<rparr>"
    have ck: "raid5f_chunk_set_iovcnt True (length (iovs ?bio)) (cs ! i) = (0, ck)"
      "ck_iovcnt ck = length (iovs ?bio)"
      by (simp_all add: ck_def raid5f_chunk_set_iovcnt_def)
    have used: "ck_used ck2 = iovs ?bio" using ck(2) by (simp add: ck2_def ck_used_def)
    have step: "reconstruct_chunks e s (i # js) (n, cs) = reconstruct_chunks e s js (n, cs[i := ck2])"
      using True ck assms(1) by (simp add: Let_def ck2_def)
    have pre: "distinct js" "\<forall>j \<in> set js. j < length (cs[i := ck2]) \<and> ck_iovs (cs[i := ck2] ! j) \<noteq> []"
      using Cons.prems by (auto simp: nth_list_update)
    obtain cs' where IH: "reconstruct_chunks e s js (n, cs[i := ck2]) = (0, cs')"
      "length cs' = length (cs[i := ck2])" "\<forall>j. j \<notin> set js \<longrightarrow> cs' ! j = cs[i := ck2] ! j"
      "\<forall>k < length (filter (\<lambda>i. i \<noteq> ?c) js). ck_used (cs' ! (filter (\<lambda>i. i \<noteq> ?c) js ! k)) =
         [\<lparr>iov_base = sr_chunk_buffers s ! (n + k), iov_len = ?len\<rparr>]"
      using Cons.IH[OF pre, of n] by blast
    have "cs' ! i = ck2" using IH(3) Cons.prems by simp
    then show ?thesis using step IH used True Cons.prems by (intro exI[of _ cs']) auto
  next
    case False
    define ck where "ck = (cs ! i)
        \<lparr>ck_iovs := (ck_iovs (cs ! i))[0 := \<lparr>iov_base = sr_chunk_buffers s ! n, iov_len = ?len\<rparr>],
         ck_iovcnt := 1,
         ck_md_buf := (if md_buf ?bio \<noteq> None then Some (sr_chunk_md_buffers s ! n) else ck_md_buf (cs ! i))\<rparr>"
    have used: "ck_used ck = [\<lparr>iov_base = sr_chunk_buffers s ! n, iov_len = ?len\<rparr>]"
      using Cons.prems(2) by (cases "ck_iovs (cs ! i)") (auto simp: ck_def ck_used_def)
    have step: "reconstruct_chunks e s (i # js) (n, cs) = reconstruct_chunks e s js (n + 1, cs[i := ck])"
      using False by (simp add: Let_def ck_def)
    have pre: "distinct js" "\<forall>j \<in> set js. j < length (cs[i := ck]) \<and> ck_iovs (cs[i := ck] ! j) \<noteq> []"
      using Cons.prems by (auto simp: nth_list_update)
    obtain cs' where IH: "reconstruct_chunks e s js (n + 1, cs[i := ck]) = (0, cs')"
      "length cs' = length (cs[i := ck])" "\<forall>j. j \<notin> set js \<longrightarrow> cs' ! j = cs[i := ck] ! j"
      "?c \<in> set js \<longrightarrow> ck_used (cs' ! ?c) = iovs ?bio"
      "\<forall>k < length (filter (\<lambda>i. i \<noteq> ?c) js). ck_used (cs' ! (filter (\<lambda>i. i \<noteq> ?c) js ! k)) =
         [\<lparr>iov_base = sr_chunk_buffers s ! (n + 1 + k), iov_len = ?len\<rparr>]"
      using Cons.IH[OF pre, of "n + 1"] by blast
    have "cs' ! i = ck" using IH(3) Cons.prems by simp
    then have "ck_used (cs' ! (filter (\<lambda>i. i \<noteq> ?c) (i # js) ! k)) =
         [\<lparr>iov_base = sr_chunk_buffers s ! (n + k), iov_len = ?len\<rparr>]"
      if "k < length (filter (\<lambda>i. i \<noteq> ?c) (i # js))" for k
      using that used IH(5) False by (cases k) auto
    then show ?thesis using step IH False by (intro exI[of _ cs']) auto
  qed
qed

text \<open>The reads of the other chunks, all accepted.\<close>

lemma chunks_rio_reads:
  fixes e :: r5_env and s :: stripe_request and js :: "nat list" and rio :: raid_io
  assumes "\<forall>b. env_rc e b = 0" and "sr_type s = STRIPE_REQ_RECONSTRUCT" and "distinct js"
    and "(if sr_chunk s \<in> set js then 1 else 0) < unat (base_bdev_io_remaining rio)"
  defines "rio' \<equiv> chunks_rio e s js rio"
  shows "rio_events rio' = rio_events rio @
      map (\<lambda>i. EvSubmit (chunk_base_io e s i)) (filter (\<lambda>i. i \<noteq> sr_chunk s) js) \<and>
    unat (base_bdev_io_remaining rio') =
      unat (base_bdev_io_remaining rio) - (if sr_chunk s \<in> set js then 1 else 0) \<and>
    base_bdev_io_status rio' = base_bdev_io_status rio"
  using assms(3,4) unfolding rio'_def
proof (induction js arbitrary: rio)
  case Nil
  then show ?case by simp
next
  case (Cons i js)
  let ?rio1 = "rio\<lparr>base_bdev_io_submitted := base_bdev_io_submitted rio + 1\<rparr>"
  show ?case
  proof (cases "i = sr_chunk s")
    case True
    let ?r = "snd (raid_bdev_io_complete_part 1 STATUS_SUCCESS ?rio1)"
    have rem: "1 < unat (base_bdev_io_remaining rio)" using Cons.prems True by simp
    then have r1: "unat (base_bdev_io_remaining rio - 1) = unat (base_bdev_io_remaining rio) - 1"
      by (subst unat_minus_no_wrap) simp_all
    have ne: "base_bdev_io_remaining rio \<noteq> 1" using rem by auto
    have nin: "sr_chunk s \<notin> set js" using Cons.prems True by simp
    have eq: "chunks_rio e s (i # js) rio = chunks_rio e s js ?r"
      using True assms(2) by (simp add: Let_def chunk_skipped_def)
    show ?thesis
      unfolding eq using Cons.IH[of ?r] Cons.prems True nin r1 rem ne by simp
  next
    case False
    let ?r = "rio_emit (EvSubmit (chunk_base_io e s i)) ?rio1"
    have eq: "chunks_rio e s (i # js) rio = chunks_rio e s js ?r"
      using False assms(1,2) by (simp add: Let_def chunk_skipped_def)
    show ?thesis unfolding eq using Cons.IH[of ?r] Cons.prems False by simp
  qed
qed

lemma submit_chunks_accepted:
  assumes "\<forall>b. env_rc e b = 0"
  shows "free_reconstruct (submit_chunks_from e sid js w) = free_reconstruct w"
proof -
  have upd: "free_reconstruct (r5_io io g w) = free_reconstruct w"
    "free_reconstruct (snd (r5_complete_part io n st w)) = free_reconstruct w"
    "free_reconstruct (chunk_poison e sid i w) = free_reconstruct w" for io g n st i w
    by (simp_all add: r5_io_def r5_complete_part_def chunk_poison_def r5_stripe_def Let_def)
  have "free_reconstruct (snd (raid5f_chunk_submit e sid i w)) = free_reconstruct w" for i w
    using assms by (simp add: raid5f_chunk_submit_def Let_def case_prod_beta upd)
  then show ?thesis by (induction js arbitrary: w) (simp_all add: Let_def case_prod_beta)
qed

subsection \<open>A reconstruction request\<close>

text \<open>What the reconstruction of chunk \<open>c\<close> relies on: a started bdev, a free stripe request with a buffer for
  each of the other chunks, all buffers apart from each other, and an idle accel framework.\<close>

definition r5_recon_request :: "r5_env \<Rightarrow> nat \<Rightarrow> nat \<Rightarrow> nat \<Rightarrow> r5_world \<Rightarrow> bool" where
  "r5_recon_request e sid io c w \<longleftrightarrow>
     (let rb = env_rb e; bio = env_io e io; s = r5_stripes w sid; n = unat (num_base_bdevs rb);
          t = unat (num_blocks bio) * 2 ^ unat (blocklen_shift rb); rio = r5_ios w io
      in raid5f_geometry rb \<and> 0 < t \<and> t < 2 ^ 64 \<and> md_buf bio = None \<and> c < n \<and>
         free_reconstruct w \<noteq> [] \<and> hd (free_reconstruct w) = sid \<and> sr_type s = STRIPE_REQ_RECONSTRUCT \<and>
         length (sr_chunks s) = n \<and> (\<forall>ck \<in> set (sr_chunks s). ck_iovs ck \<noteq> []) \<and>
         xor_remaining_md s = 0 \<and> xor_jobs w = [] \<and> xor_retry_queue w = [] \<and>
         length (iov_addrs (iovs bio)) = t \<and> length (sr_chunk_buffers s) = n - 1 \<and>
         distinct (concat (iov_addrs (iovs bio) # map (\<lambda>a. [a..<a + t]) (sr_chunk_buffers s))) \<and>
         base_bdev_io_submitted rio = 0 \<and> base_bdev_io_status rio = STATUS_SUCCESS \<and>
         completions_of (rio_events rio) = [])"

text \<open>The state when the reads have been sent.\<close>

definition r5_recon_sent :: "r5_env \<Rightarrow> nat \<Rightarrow> nat \<Rightarrow> nat \<Rightarrow> r5_world \<Rightarrow> r5_world \<Rightarrow> bool" where
  "r5_recon_sent e sid io c w0 w \<longleftrightarrow>
     (let rb = env_rb e; bio = env_io e io; s = r5_stripes w sid; n = unat (num_base_bdevs rb);
          t = unat (num_blocks bio) * 2 ^ unat (blocklen_shift rb); rio = r5_ios w io
      in sr_type s = STRIPE_REQ_RECONSTRUCT \<and> sr_raid_io s = io \<and> sr_chunk s = c \<and>
         xor_remaining_md s = 0 \<and> xor_jobs w = [] \<and> xor_retry_queue w = [] \<and>
         r5_mem w = r5_mem w0 \<and> free_reconstruct w0 = sid # free_reconstruct w \<and>
         rio_events rio = rio_events (r5_ios w0 io) @
           map (\<lambda>i. EvSubmit (chunk_base_io e s i)) (data_chunks rb c) \<and>
         completions_of (rio_events (r5_ios w0 io)) = [] \<and>
         unat (base_bdev_io_remaining rio) = n - 1 \<and> base_bdev_io_status rio = STATUS_SUCCESS \<and>
         data_addrs s c = iov_addrs (iovs bio) \<and>
         (\<forall>k < n - 1. data_addrs s (data_chunks rb c ! k) =
            [sr_chunk_buffers (r5_stripes w0 sid) ! k..<sr_chunk_buffers (r5_stripes w0 sid) ! k + t]))"

lemma r5_recon_start:
  assumes req: "r5_recon_request e sid io c w0" and acc: "r5_accepting e" and ci: "unat ci = c"
  shows "\<exists>w. raid5f_submit_reconstruct_read e io si ci co ri w0 = (0, w) \<and> r5_recon_sent e sid io c w0 w \<and>
    (\<forall>i. chunk_base_io e (r5_stripes w sid) i =
       raid_bdev_readv_blocks_ext (env_rb e) i (base_channel (env_ch e) ! i)
         (ck_used (sr_chunks (r5_stripes w sid) ! i)) (ck_md_buf (sr_chunks (r5_stripes w sid) ! i))
         (push_bit (unat (strip_size_shift (env_rb e))) si + co) (num_blocks (env_io e io)))"
proof -
  let ?rb = "env_rb e" and ?bio = "env_io e io" and ?s0 = "r5_stripes w0 sid"
  let ?n = "unat (num_base_bdevs ?rb)"
  let ?t = "unat (num_blocks ?bio) * 2 ^ unat (blocklen_shift ?rb)"
  have g: "raid5f_geometry ?rb" and t: "0 < ?t" "?t < 2 ^ 64" and md: "md_buf ?bio = None" and c: "c < ?n"
    and free0: "free_reconstruct w0 \<noteq> [] \<and> hd (free_reconstruct w0) = sid"
    and ty: "sr_type ?s0 = STRIPE_REQ_RECONSTRUCT" and cl: "length (sr_chunks ?s0) = ?n"
    and cin: "\<forall>ck \<in> set (sr_chunks ?s0). ck_iovs ck \<noteq> []" and rm: "xor_remaining_md ?s0 = 0"
    and jobs: "xor_jobs w0 = []" "xor_retry_queue w0 = []"
    and rio: "base_bdev_io_submitted (r5_ios w0 io) = 0" "base_bdev_io_status (r5_ios w0 io) = STATUS_SUCCESS"
      "completions_of (rio_events (r5_ios w0 io)) = []"
    using req by (simp_all add: r5_recon_request_def Let_def)
  have ra: "env_realloc e" and rc: "\<forall>b. env_rc e b = 0"
    using acc by (simp_all add: r5_accepting_def)
  obtain rest where free: "free_reconstruct w0 = sid # rest" using free0 by (cases "free_reconstruct w0") auto
  have n1: "1 < ?n" using g by (simp add: raid5f_geometry_def)
  have sh: "unat (push_bit (unat (blocklen_shift ?rb)) (num_blocks ?bio)) = ?t"
    by (rule unat_push_bit_no_wrap) (use t(2) in simp)
  define wi where "wi = r5_stripe sid (\<lambda>s. s\<lparr>sr_chunk := c, sr_chunk_offset := co,
      sr_saved_iovs := (case ri of None \<Rightarrow> sr_saved_iovs s | Some vs \<Rightarrow> vs)\<rparr>)
    (raid5f_stripe_request_init e sid io si w0)"
  define s where "s = r5_stripes wi sid"
  have s: "sr_type s = STRIPE_REQ_RECONSTRUCT" "sr_raid_io s = io" "sr_chunk s = c" "sr_chunk_offset s = co"
    "sr_stripe_index s = si" "xor_remaining_md s = 0" "sr_chunks s = sr_chunks ?s0"
    "sr_chunk_buffers s = sr_chunk_buffers ?s0"
    by (simp_all add: s_def wi_def raid5f_stripe_request_init_def ty rm)
  have wi: "r5_mem wi = r5_mem w0" "xor_jobs wi = []" "xor_retry_queue wi = []" "r5_ios wi = r5_ios w0"
    by (simp_all add: wi_def raid5f_stripe_request_init_def r5_stripe_def jobs)
  have "\<forall>i \<in> set [0..<?n]. i < length (sr_chunks s) \<and> ck_iovs (sr_chunks s ! i) \<noteq> []"
    using cl cin by (simp add: s)
  from reconstruct_chunks_result[OF ra distinct_upt this, where n = 0 and s = s] c obtain cs where cs:
    "reconstruct_chunks e s [0..<?n] (0, sr_chunks s) = (0, cs)" "ck_used (cs ! c) = iovs ?bio"
    "\<forall>k < length (data_chunks ?rb c). ck_used (cs ! (data_chunks ?rb c ! k)) =
       [\<lparr>iov_base = sr_chunk_buffers ?s0 ! k, iov_len = ?t\<rparr>]"
    unfolding data_chunks_def s(2,3,8) sh by auto
  define wm where "wm = (r5_io io (\<lambda>rio. rio\<lparr>rio_private := Some sid,
      base_bdev_io_remaining := ucast (num_base_bdevs ?rb)\<rparr>) (r5_stripe sid (\<lambda>s. s\<lparr>sr_chunks := cs\<rparr>) wi))
    \<lparr>free_reconstruct := rest\<rparr>"
  have sm: "r5_stripes wm sid = s\<lparr>sr_chunks := cs\<rparr>" by (simp add: wm_def s_def r5_io_def r5_stripe_def)
  have wm: "r5_mem wm = r5_mem w0" "xor_jobs wm = []" "xor_retry_queue wm = []" "free_reconstruct wm = rest"
    "r5_ios wm io = (r5_ios w0 io)\<lparr>rio_private := Some sid, base_bdev_io_remaining := ucast (num_base_bdevs ?rb)\<rparr>"
    by (simp_all add: wm_def wi r5_io_def r5_stripe_def)
  define w where "w = submit_chunks_from e sid [0..<?n] wm"
  have sub: "raid5f_submit_reconstruct_read e io si ci co ri w0 = (0, w)"
    unfolding raid5f_submit_reconstruct_read_def free Let_def list.case ci wi_def[symmetric] s_def[symmetric] cs(1)
    by (simp add: wm_def[symmetric] w_def raid5f_stripe_request_submit_chunks_def wm(5) sm s rio wi
        s(2)[unfolded s_def])
  have sw: "r5_stripes w = r5_stripes wm" "r5_mem w = r5_mem wm"
    using submit_chunks_quiet[OF rc, of wm sid] by (simp_all add: w_def sm s)
  let ?s = "r5_stripes w sid"
  have ws: "?s = s\<lparr>sr_chunks := cs\<rparr>" by (simp add: sw sm)
  have "r5_ios w io = chunks_rio e ?s [0..<?n] (r5_ios wm io)"
    using submit_chunks_rio[of e sid "[0..<?n]" wm] by (simp add: w_def[symmetric] sm ws s)
  moreover have "c \<in> set [0..<?n]" using c by simp
  ultimately have "rio_events (r5_ios w io) =
        rio_events (r5_ios w0 io) @ map (\<lambda>i. EvSubmit (chunk_base_io e ?s i)) (data_chunks ?rb c) \<and>
      unat (base_bdev_io_remaining (r5_ios w io)) = ?n - 1 \<and>
      base_bdev_io_status (r5_ios w io) = STATUS_SUCCESS"
    using chunks_rio_reads[OF rc, of ?s "[0..<?n]" "r5_ios wm io"] n1 rio
    by (simp add: ws s wm(5) data_chunks_def)
  moreover have "length (data_chunks ?rb c) = ?n - 1" by (rule data_chunks_length[OF c])
  ultimately have "r5_recon_sent e sid io c w0 w"
    unfolding r5_recon_sent_def Let_def
    using cs(2,3) rio(3) submit_chunks_accepted[OF rc, of sid "[0..<?n]" wm]
    by (simp add: ws s sw(2) wm w_def[symmetric] data_addrs_def free) (simp add: w_def wm)
  moreover have "chunk_base_io e ?s i = raid_bdev_readv_blocks_ext ?rb i (base_channel (env_ch e) ! i)
      (ck_used (sr_chunks ?s ! i)) (ck_md_buf (sr_chunks ?s ! i))
      (push_bit (unat (strip_size_shift ?rb)) si + co) (num_blocks ?bio)" for i
    by (simp add: chunk_base_io_def Let_def ws s)
  ultimately show ?thesis using sub by blast
qed

subsection \<open>Its buffers\<close>

lemma distinct_concat_nth:
  "distinct (concat xss) \<Longrightarrow> i < length xss \<Longrightarrow> j < length xss \<Longrightarrow> i \<noteq> j \<Longrightarrow>
   set (xss ! i) \<inter> set (xss ! j) = {}"
proof (induction xss arbitrary: i j)
  case (Cons xs xss)
  have apart: "set xs \<inter> set (xss ! k) = {}" if "k < length xss" for k
    using Cons.prems(1) nth_mem[OF that] by auto
  show ?case
    using Cons apart by (cases i; cases j) (auto simp: Int_commute)
qed simp

text \<open>The other chunks have the stripe request's buffers, apart from each other and from the request's.\<close>

lemma r5_recon_buffers:
  assumes req: "r5_recon_request e sid io c w0" and sent: "r5_recon_sent e sid io c w0 w"
  defines "t \<equiv> unat (num_blocks (env_io e io)) * 2 ^ unat (blocklen_shift (env_rb e))"
    and "s \<equiv> r5_stripes w sid" and "srcs \<equiv> data_chunks (env_rb e) c"
  shows "i \<in> set srcs \<Longrightarrow> length (data_addrs s i) = t \<and> distinct (data_addrs s i) \<and>
      set (data_addrs s i) \<inter> set (data_addrs s c) = {}"
    and "i \<in> set srcs \<Longrightarrow> j \<in> set srcs \<Longrightarrow> i \<noteq> j \<Longrightarrow> set (data_addrs s i) \<inter> set (data_addrs s j) = {}"
    and "length (data_addrs s c) = t" and "distinct (data_addrs s c)"
proof -
  let ?n = "unat (num_base_bdevs (env_rb e))" and ?bufs = "sr_chunk_buffers (r5_stripes w0 sid)"
  let ?xss = "iov_addrs (iovs (env_io e io)) # map (\<lambda>a. [a..<a + t]) ?bufs"
  have c: "c < ?n" and len: "length ?bufs = ?n - 1" and dist: "distinct (concat ?xss)"
    and rl: "length (iov_addrs (iovs (env_io e io))) = t"
    using req by (simp_all add: r5_recon_request_def Let_def t_def)
  have da: "data_addrs s c = iov_addrs (iovs (env_io e io))"
    "\<forall>k < ?n - 1. data_addrs s (srcs ! k) = [?bufs ! k..<?bufs ! k + t]"
    using sent by (simp_all add: r5_recon_sent_def Let_def t_def s_def srcs_def)
  have dl: "length srcs = ?n - 1" unfolding srcs_def by (rule data_chunks_length[OF c])
  have ex: "\<exists>k < ?n - 1. i = srcs ! k" if "i \<in> set srcs" for i
    using that dl by (auto simp: in_set_conv_nth)
  have sep: "set (?xss ! k) \<inter> set (?xss ! l) = {}" if "k < ?n" "l < ?n" "k \<noteq> l" for k l
    using distinct_concat_nth[OF dist] that len by simp
  show "length (data_addrs s c) = t" "distinct (data_addrs s c)" using da rl dist by simp_all
  show "i \<in> set srcs \<Longrightarrow> length (data_addrs s i) = t \<and> distinct (data_addrs s i) \<and>
      set (data_addrs s i) \<inter> set (data_addrs s c) = {}"
    using ex[of i] da sep[of "Suc _" 0] len by force
  show "set (data_addrs s i) \<inter> set (data_addrs s j) = {}" if ij: "i \<in> set srcs" "j \<in> set srcs" "i \<noteq> j"
  proof -
    obtain k l where kl: "k < ?n - 1" "i = srcs ! k" "l < ?n - 1" "j = srcs ! l" using ex ij by blast
    then have "k \<noteq> l" using ij(3) by auto
    then show ?thesis using sep[of "Suc k" "Suc l"] kl da(2) len by simp
  qed
qed

lemma r5_recon_xor_ready:
  assumes req: "r5_recon_request e sid io c w0" and sent: "r5_recon_sent e sid io c w0 w"
    and it: "ioviter_spec e"
  defines "t \<equiv> unat (num_blocks (env_io e io)) * 2 ^ unat (blocklen_shift (env_rb e))"
  shows "xor_ready e sid w" and "xor_len_data e (r5_stripes w sid) = t"
    and "xor_dest_chunk (r5_stripes w sid) = c"
    and "xor_sources (env_rb e) (r5_stripes w sid) = data_chunks (env_rb e) c"
proof -
  let ?n = "unat (num_base_bdevs (env_rb e))" and ?s = "r5_stripes w sid" and ?rb = "env_rb e"
  have c: "c < ?n" and md: "md_buf (env_io e io) = None" and g: "raid5f_geometry ?rb" and t: "0 < t"
    using req by (simp_all add: r5_recon_request_def Let_def t_def)
  have s: "sr_type ?s = STRIPE_REQ_RECONSTRUCT" "sr_raid_io ?s = io" "sr_chunk ?s = c"
    "xor_remaining_md ?s = 0" "xor_jobs w = []" "xor_retry_queue w = []"
    using sent by (simp_all add: r5_recon_sent_def Let_def)
  note buf = r5_recon_buffers[OF req sent, folded t_def]
  show dest: "xor_dest_chunk ?s = c" and srcs: "xor_sources ?rb ?s = data_chunks ?rb c"
    by (simp_all add: xor_dest_chunk_def xor_sources_def s)
  show T: "xor_len_data e ?s = t" by (simp add: xor_len_data_def xor_num_blocks_def s t_def)
  have M: "xor_len_md e ?s = 0" by (simp add: xor_len_md_def s md)
  then have Ma: "md_addrs e ?s i = []" for i by (simp add: md_addrs_def)
  have len: "length (data_addrs ?s i) = t" if "i < ?n" for i
  proof (cases "i = c")
    case False
    then show ?thesis using buf(1)[of i] that by (simp add: data_chunks_def)
  qed (simp add: buf(3))
  have "\<forall>vs \<in> set (xor_arrays e ?s). length (iov_addrs vs) = t"
    using len c by (auto simp: xor_arrays_def data_addrs_def dest srcs data_chunks_def)
  then have iter: "ioviter_ok e (xor_arrays e ?s)"
    using it unfolding ioviter_spec_def by (auto simp: xor_arrays_def)
  have sep: "set (data_addrs ?s c) \<inter> xor_source_addrs e ?s = {}"
    using buf(1) by (auto simp: xor_source_addrs_def srcs Ma)
  have dn: "unat (raid5f_stripe_data_chunks_num ?rb) = ?n - 1"
    using g by (simp add: raid5f_geometry_def raid5f_stripe_data_chunks_num_def)
  show "xor_ready e sid w"
    unfolding xor_ready_def Let_def dest T M Ma using c dn s iter t len md buf(4) sep by simp
qed

lemma xor_ready_elsewhere [simp]:
  "xor_ready e sid (w\<lparr>r5_mem := m\<rparr>) = xor_ready e sid w"
  "xor_ready e sid (r5_io io g w) = xor_ready e sid w"
  by (simp_all add: xor_ready_def r5_io_def Let_def)

subsection \<open>The life of a reconstruction\<close>

text \<open>\<open>disk slot a\<close> is byte \<open>a\<close> of the base bdev of a slot. A base read that succeeds has filled its buffers
  from it; parity jobs succeed; all in any order.\<close>

definition read_bytes :: "r5_env \<Rightarrow> (nat \<Rightarrow> nat \<Rightarrow> u8) \<Rightarrow> base_io \<Rightarrow> nat \<Rightarrow> u8" where
  "read_bytes e disk b k = disk (bio_slot b) (unat (bio_lba b) * 2 ^ unat (blocklen_shift (env_rb e)) + k)"

inductive r5_recon_reach ::
  "r5_env \<Rightarrow> nat \<Rightarrow> (nat \<Rightarrow> nat \<Rightarrow> u8) \<Rightarrow> r5_world \<Rightarrow> base_io list \<Rightarrow> r5_world \<Rightarrow> base_io list \<Rightarrow> bool"
  for e sid disk w0 out0 where
  recon_sent: "r5_recon_reach e sid disk w0 out0 w0 out0"
| recon_read:
    "r5_recon_reach e sid disk w0 out0 w out \<Longrightarrow> b \<in> set out \<Longrightarrow>
     r5_recon_reach e sid disk w0 out0
       (raid5f_chunk_complete_bdev_io e sid True
         (w\<lparr>r5_mem := fill_memory (iov_addrs (bio_iovs b)) (read_bytes e disk b) (r5_mem w)\<rparr>))
       (remove1 b out)"
| recon_xor:
    "r5_recon_reach e sid disk w0 out0 w out \<Longrightarrow> j \<in> set (xor_jobs w) \<Longrightarrow>
     r5_recon_reach e sid disk w0 out0 (accel_finish e j 0 w) out"

text \<open>
  What holds at every moment: as long as reads are in flight they are counted, and the buffers of those
  that are back hold the contents of their base bdevs; after the last one the parity computation runs.
\<close>

definition r5_recon_filled :: "r5_env \<Rightarrow> nat \<Rightarrow> (nat \<Rightarrow> nat \<Rightarrow> u8) \<Rightarrow> nat list \<Rightarrow> nat \<Rightarrow> r5_world \<Rightarrow> bool" where
  "r5_recon_filled e sid disk js t w \<longleftrightarrow>
     (\<forall>i \<in> set js. \<forall>k < t. r5_mem w (data_addrs (r5_stripes w sid) i ! k) =
        read_bytes e disk (chunk_base_io e (r5_stripes w sid) i) k)"

definition r5_recon_reading ::
  "nat \<Rightarrow> nat \<Rightarrow> r5_world \<Rightarrow> nat \<Rightarrow> r5_world \<Rightarrow> bool" where
  "r5_recon_reading sid io w0 left w \<longleftrightarrow>
     (\<exists>m g. w = r5_io io g (w0\<lparr>r5_mem := m\<rparr>)) \<and>
     rio_events (r5_ios w io) = rio_events (r5_ios w0 io) \<and>
     base_bdev_io_status (r5_ios w io) = STATUS_SUCCESS \<and>
     unat (base_bdev_io_remaining (r5_ios w io)) = left"

definition r5_recon_inv ::
  "r5_env \<Rightarrow> nat \<Rightarrow> nat \<Rightarrow> (nat \<Rightarrow> nat \<Rightarrow> u8) \<Rightarrow> nat list \<Rightarrow> nat \<Rightarrow> r5_world \<Rightarrow> r5_world \<Rightarrow> base_io list \<Rightarrow> bool" where
  "r5_recon_inv e sid io disk srcs t w0 w out \<longleftrightarrow>
     (if out \<noteq> []
      then \<exists>js. out = map (chunk_base_io e (r5_stripes w0 sid)) js \<and> distinct js \<and> set js \<subseteq> set srcs \<and>
             r5_recon_reading sid io w0 (length js) w \<and>
             r5_recon_filled e sid disk (filter (\<lambda>i. i \<notin> set js) srcs) t w
      else \<exists>w1. r5_recon_reading sid io w0 1 w1 \<and> r5_recon_filled e sid disk srcs t w1 \<and>
             accel_reach e (snd (raid5f_xor_stripe e sid w1)) w)"

lemma r5_recon_reading_static:
  assumes "r5_recon_reading sid io w0 left w"
  shows "r5_stripes w = r5_stripes w0" "xor_jobs w = xor_jobs w0" "free_reconstruct w = free_reconstruct w0"
    "xor_ready e sid w = xor_ready e sid w0" "xor_retry_queue w = xor_retry_queue w0"
proof -
  obtain m g where w: "w = r5_io io g (w0\<lparr>r5_mem := m\<rparr>)" using assms by (auto simp: r5_recon_reading_def)
  show "xor_ready e sid w = xor_ready e sid w0" by (simp add: w)
  show "r5_stripes w = r5_stripes w0" "xor_jobs w = xor_jobs w0" "free_reconstruct w = free_reconstruct w0"
    "xor_retry_queue w = xor_retry_queue w0"
    by (simp_all add: w) (simp_all add: r5_io_def)
qed

lemma r5_recon_reading_update:
  assumes "r5_recon_reading sid io w0 left w" and "w' = r5_io io h (w\<lparr>r5_mem := m\<rparr>)"
    and "rio_events (h (r5_ios w io)) = rio_events (r5_ios w io)"
    and "base_bdev_io_status (h (r5_ios w io)) = STATUS_SUCCESS"
    and "unat (base_bdev_io_remaining (h (r5_ios w io))) = left'"
  shows "r5_recon_reading sid io w0 left' w'"
proof -
  obtain m' g where w: "w = r5_io io g (w0\<lparr>r5_mem := m'\<rparr>)" using assms(1) by (auto simp: r5_recon_reading_def)
  have "w' = r5_io io (\<lambda>rio. h (g rio)) (w0\<lparr>r5_mem := m\<rparr>)"
    unfolding assms(2) w by (simp add: r5_io_def)
  moreover have "r5_ios w' io = h (r5_ios w io)" by (simp add: assms(2) r5_io_def)
  ultimately show ?thesis using assms(1,3-5) unfolding r5_recon_reading_def by auto
qed

text \<open>One read comes back.\<close>

lemma r5_recon_fill:
  assumes req: "r5_recon_request e sid io c w0'" and sent: "r5_recon_sent e sid io c w0' w0"
  defines "t \<equiv> unat (num_blocks (env_io e io)) * 2 ^ unat (blocklen_shift (env_rb e))"
    and "srcs \<equiv> data_chunks (env_rb e) c" and "s \<equiv> r5_stripes w0 sid"
  assumes i: "i \<in> set srcs" and js: "set js \<subseteq> set srcs" and st: "r5_stripes w = r5_stripes w0"
    and filled: "r5_recon_filled e sid disk js t w"
    and w': "r5_stripes w' = r5_stripes w"
      "r5_mem w' = fill_memory (data_addrs s i) (read_bytes e disk (chunk_base_io e s i)) (r5_mem w)"
  shows "r5_recon_filled e sid disk (i # js) t w'"
proof -
  note buf = r5_recon_buffers[OF req sent, folded t_def s_def srcs_def]
  have here: "r5_mem w' (data_addrs s i ! k) = read_bytes e disk (chunk_base_io e s i) k" if "k < t" for k
    using buf(1)[OF i] that by (simp add: w' fill_memory_nth)
  have "r5_mem w' (data_addrs s j ! k) = read_bytes e disk (chunk_base_io e s j) k" if j: "j \<in> set js" "k < t" for j k
  proof (cases "j = i")
    case False
    have jl: "j \<in> set srcs" using j(1) js by auto
    have "data_addrs s j ! k \<in> set (data_addrs s j)" using buf(1)[OF jl] j(2) by simp
    then have "data_addrs s j ! k \<notin> set (data_addrs s i)" using buf(2)[OF jl i False] by auto
    then show ?thesis using filled j by (simp add: w' fill_memory_other r5_recon_filled_def st s_def)
  qed (use here j in simp)
  then show ?thesis using here by (simp add: r5_recon_filled_def w' st s_def)
qed

lemma r5_recon_read_step:
  assumes req: "r5_recon_request e sid io c w0'" and sent: "r5_recon_sent e sid io c w0' w0"
    and acc: "r5_accepting e"
  defines "t \<equiv> unat (num_blocks (env_io e io)) * 2 ^ unat (blocklen_shift (env_rb e))"
    and "srcs \<equiv> data_chunks (env_rb e) c"
  assumes inv: "r5_recon_inv e sid io disk srcs t w0 w out" and b: "b \<in> set out"
    and w': "w' = raid5f_chunk_complete_bdev_io e sid True
      (w\<lparr>r5_mem := fill_memory (iov_addrs (bio_iovs b)) (read_bytes e disk b) (r5_mem w)\<rparr>)"
  shows "r5_recon_inv e sid io disk srcs t w0 w' (remove1 b out)"
proof -
  let ?s = "r5_stripes w0 sid"
  obtain js where js: "out = map (chunk_base_io e ?s) js" "distinct js" "set js \<subseteq> set srcs"
    and rd: "r5_recon_reading sid io w0 (length js) w"
    and filled: "r5_recon_filled e sid disk (filter (\<lambda>i. i \<notin> set js) srcs) t w"
    using inv b by (auto simp: r5_recon_inv_def split: if_splits)
  obtain i where i: "i \<in> set js" "b = chunk_base_io e ?s i" using b js(1) by auto
  have eq: "chunk_base_io e ?s k = chunk_base_io e ?s l \<longleftrightarrow> k = l" for k l by (metis chunk_base_io_slot)
  have "remove1 (chunk_base_io e ?s i) (map (chunk_base_io e ?s) ks) = map (chunk_base_io e ?s) (remove1 i ks)"
    for ks by (induction ks) (simp_all add: eq)
  then have out': "remove1 b out = map (chunk_base_io e ?s) (remove1 i js)" by (simp add: js(1) i(2))
  define wm where "wm = w\<lparr>r5_mem := fill_memory (iov_addrs (bio_iovs b)) (read_bytes e disk b) (r5_mem w)\<rparr>"
  note static = r5_recon_reading_static[OF rd]
  have ty: "sr_type ?s = STRIPE_REQ_RECONSTRUCT" "sr_raid_io ?s = io"
    using sent by (simp_all add: r5_recon_sent_def Let_def)
  have iovs: "iov_addrs (bio_iovs b) = data_addrs ?s i"
    by (simp add: i(2) chunk_base_io_def Let_def ty raid_bdev_readv_blocks_ext_def data_addrs_def)
  have f: "r5_recon_filled e sid disk (i # filter (\<lambda>i. i \<notin> set js) srcs) t wm"
    by (rule r5_recon_fill[OF req sent, folded srcs_def t_def])
      (use i js filled static in \<open>auto simp: wm_def iovs[unfolded i(2)] i(2)\<close>)
  have f': "r5_recon_filled e sid disk (filter (\<lambda>k. k \<notin> set (remove1 i js)) srcs) t w2"
    if "r5_stripes w2 = r5_stripes wm" "r5_mem w2 = r5_mem wm" for w2
    using f that js(2) by (auto simp: r5_recon_filled_def)
  have rio: "unat (base_bdev_io_remaining (r5_ios w io)) = length js"
    "base_bdev_io_status (r5_ios w io) = STATUS_SUCCESS"
    using rd by (simp_all add: r5_recon_reading_def)
  have len: "length (remove1 i js) = length js - 1" using i(1) by (simp add: length_remove1)
  have one: "base_bdev_io_remaining (r5_ios wm io) = 1 \<longleftrightarrow> length js = 1"
    using rio(1) word_unat_eq_iff[of "base_bdev_io_remaining (r5_ios w io)" 1] by (simp add: wm_def)
  have stm: "r5_stripes wm = r5_stripes w0" and riom: "r5_ios wm = r5_ios w" by (simp_all add: wm_def static)
  have cc: "w' = (if length js = 1 then xor_settle e sid (raid5f_xor_stripe e sid wm)
      else snd (r5_complete_part io 1 STATUS_SUCCESS wm))"
    using one rio(2) unfolding w' wm_def[symmetric]
    by (simp add: raid5f_chunk_complete_bdev_io_def raid5f_stripe_request_chunk_read_complete_def Let_def
        ty stm riom)
  have rdm: "r5_recon_reading sid io w0 (length js) wm"
    by (rule r5_recon_reading_update[OF rd, where h = "\<lambda>r. r"]) (use rio in \<open>simp_all add: wm_def r5_io_def\<close>)
  show ?thesis
  proof (cases "length js = 1")
    case True
    then have "js = [i]" using i(1) by (cases js) auto
    then have nil: "remove1 b out = []" and all: "r5_recon_filled e sid disk srcs t wm"
      using out' f'[of wm] by simp_all
    have "xor_ready e sid wm"
      using r5_recon_xor_ready(1)[OF req sent] acc r5_recon_reading_static(4)[OF rdm]
      by (simp add: r5_accepting_def)
    then have "fst (raid5f_xor_stripe e sid wm) = None"
      using xor_start_phase acc by (simp add: r5_accepting_def)
    then have "w' = snd (raid5f_xor_stripe e sid wm)"
      using cc True by (cases "raid5f_xor_stripe e sid wm") (simp add: xor_settle_def)
    then show ?thesis
      using all rdm True nil by (auto simp: r5_recon_inv_def intro!: exI[of _ wm] accel_refl)
  next
    case False
    let ?h = "\<lambda>rio. snd (raid_bdev_io_complete_part 1 STATUS_SUCCESS rio)"
    have ne: "base_bdev_io_remaining (r5_ios w io) \<noteq> 1" using one False by (simp add: wm_def)
    have l0: "length js \<noteq> 0" using i(1) by auto
    then have r1: "unat (base_bdev_io_remaining (r5_ios w io) - 1) = length js - 1"
      using rio(1) by (subst unat_minus_no_wrap) (simp_all add: Suc_le_eq)
    have w2: "w' = r5_io io ?h wm" using cc False by (simp add: r5_complete_part_def)
    have "r5_recon_reading sid io w0 (length (remove1 i js)) w'"
      by (rule r5_recon_reading_update[OF rd, where h = ?h])
         (use w2 rio r1 ne len in \<open>simp_all add: wm_def\<close>)
    moreover have "remove1 i js \<noteq> []"
    proof
      assume "remove1 i js = []"
      then show False using len l0 False by (simp only: list.size)
    qed
    moreover have "r5_recon_filled e sid disk (filter (\<lambda>k. k \<notin> set (remove1 i js)) srcs) t w'"
      by (rule f') (simp_all add: w2, simp add: r5_io_def)
    moreover have "distinct (remove1 i js)" "set (remove1 i js) \<subseteq> set srcs" using js by auto
    ultimately show ?thesis unfolding r5_recon_inv_def out' by auto
  qed
qed

lemma r5_recon_reach_inv:
  assumes req: "r5_recon_request e sid io c w0'" and sent: "r5_recon_sent e sid io c w0' w0"
    and acc: "r5_accepting e"
  defines "t \<equiv> unat (num_blocks (env_io e io)) * 2 ^ unat (blocklen_shift (env_rb e))"
    and "srcs \<equiv> data_chunks (env_rb e) c"
  assumes run: "r5_recon_reach e sid disk w0 (map (chunk_base_io e (r5_stripes w0 sid)) srcs) w out"
  shows "r5_recon_inv e sid io disk srcs t w0 w out"
  using run
proof induction
  case recon_sent
  have c: "c < unat (num_base_bdevs (env_rb e))" and n: "1 < unat (num_base_bdevs (env_rb e))"
    using req by (simp_all add: r5_recon_request_def Let_def raid5f_geometry_def)
  have len: "length srcs = unat (num_base_bdevs (env_rb e)) - 1" unfolding srcs_def by (rule data_chunks_length[OF c])
  have same: "w0 = r5_io io (\<lambda>r. r) (w0\<lparr>r5_mem := r5_mem w0\<rparr>)" by (simp add: r5_io_def)
  have "r5_recon_reading sid io w0 (length srcs) w0"
    unfolding r5_recon_reading_def len using sent same by (auto simp: r5_recon_sent_def Let_def)
  moreover have "srcs \<noteq> []" using len n by auto
  moreover have "distinct srcs" unfolding srcs_def by (rule data_chunks_props(1))
  ultimately show ?case by (auto simp: r5_recon_inv_def r5_recon_filled_def intro!: exI[of _ srcs])
next
  case (recon_read w out b)
  show ?case
    unfolding t_def srcs_def
    by (rule r5_recon_read_step[OF req sent acc _ _ refl])
       (use recon_read in \<open>simp_all add: t_def srcs_def\<close>)
next
  case (recon_xor w out j)
  show ?case
  proof (cases "out = []")
    case True
    then show ?thesis using recon_xor by (auto simp: r5_recon_inv_def intro: accel_step)
  next
    case False
    then obtain left where "r5_recon_reading sid io w0 left w"
      using recon_xor.IH by (auto simp: r5_recon_inv_def)
    then have "xor_jobs w = []"
      using r5_recon_reading_static(2) sent by (simp add: r5_recon_sent_def Let_def)
    then show ?thesis using recon_xor.hyps by simp
  qed
qed

text \<open>A reconstruction can always be finished.\<close>

lemma r5_recon_accel:
  "accel_reach e w w' \<Longrightarrow> r5_recon_reach e sid disk w0 out0 w out \<Longrightarrow> r5_recon_reach e sid disk w0 out0 w' out"
  by (induction rule: accel_reach.induct) (auto intro: recon_xor)

lemma r5_recon_finishes:
  assumes req: "r5_recon_request e sid io c w0'" and sent: "r5_recon_sent e sid io c w0' w0"
    and acc: "r5_accepting e"
  defines "out0 \<equiv> map (chunk_base_io e (r5_stripes w0 sid)) (data_chunks (env_rb e) c)"
  shows "r5_recon_reach e sid disk w0 out0 w out \<Longrightarrow>
    \<exists>w'. r5_recon_reach e sid disk w0 out0 w' [] \<and> xor_jobs w' = []"
proof (induction "length out" arbitrary: w out)
  case 0
  then have run: "r5_recon_reach e sid disk w0 out0 w []" by simp
  have acc2: "\<forall>md. env_accel e sid md = 0" using acc by (simp add: r5_accepting_def)
  obtain w1 where rd: "r5_recon_reading sid io w0 1 w1" and ar: "accel_reach e (snd (raid5f_xor_stripe e sid w1)) w"
    using r5_recon_reach_inv[OF req sent acc run[unfolded out0_def]] by (auto simp: r5_recon_inv_def)
  have ready: "xor_ready e sid w1"
    using r5_recon_xor_ready(1)[OF req sent] acc r5_recon_reading_static(4)[OF rd] by (simp add: r5_accepting_def)
  obtain ph where "xor_phase e sid w1 ph w" using xor_reach_phase[OF ready acc2 ar] by blast
  from xor_phase_finishes[OF ready acc2 this] show ?case using r5_recon_accel[OF _ run] by blast
next
  case (Suc n)
  then obtain b where b: "b \<in> set out" by (cases out) auto
  have "n = length (remove1 b out)" using Suc.hyps(2) b by (simp add: length_remove1)
  from Suc.hyps(1)[OF this recon_read[OF Suc.prems b]] show ?case .
qed

lemma xor_all_zero_split:
  assumes "distinct xs" and "p \<in> set xs" and "xor_all (map f xs) = 0"
  shows "xor_all (map f (filter (\<lambda>i. i \<noteq> p) xs)) = f p"
proof -
  have "f p XOR xor_all (map f (filter (\<lambda>i. i \<noteq> p) xs)) = 0" using xor_all_split[OF assms(1,2), of f] assms(3) by simp
  then have "f p XOR (f p XOR xor_all (map f (filter (\<lambda>i. i \<noteq> p) xs))) = f p" by simp
  then show ?thesis by (simp add: xor.assoc[symmetric])
qed

text \<open>The base reads in flight when a reconstruction has been sent.\<close>

definition r5_recon_reads :: "r5_env \<Rightarrow> nat \<Rightarrow> nat \<Rightarrow> r5_world \<Rightarrow> base_io list" where
  "r5_recon_reads e sid c w = map (chunk_base_io e (r5_stripes w sid)) (data_chunks (env_rb e) c)"

lemma submitted_of_reads:
  "submitted_of (map (\<lambda>i. EvSubmit (f i)) js) = map f js" "completions_of (map (\<lambda>i. EvSubmit (f i)) js) = []"
  by (induction js) simp_all

lemma r5_recon_new:
  assumes "r5_recon_sent e sid io c w0 w"
  shows "submitted_of (new_events io w0 w) = r5_recon_reads e sid c w"
  using assms by (simp add: r5_recon_sent_def Let_def new_events_def r5_recon_reads_def submitted_of_reads)

text \<open>The whole reconstruction, whatever the base bdevs hold.\<close>

lemma r5_recon_result:
  assumes req: "r5_recon_request e sid io c w0" and sent: "r5_recon_sent e sid io c w0 w1"
    and acc: "r5_accepting e"
    and run: "r5_recon_reach e sid disk w1 (r5_recon_reads e sid c w1) w out"
  defines "t \<equiv> unat (num_blocks (env_io e io)) * 2 ^ unat (blocklen_shift (env_rb e))"
    and "srcs \<equiv> data_chunks (env_rb e) c" and "s \<equiv> r5_stripes w1 sid"
  shows "if out \<noteq> [] \<or> xor_jobs w \<noteq> [] then completions_of (rio_events (r5_ios w io)) = []
     else completions_of (rio_events (r5_ios w io)) = [STATUS_SUCCESS] \<and>
       free_reconstruct w = free_reconstruct w0 \<and>
       (\<forall>k < t. r5_mem w (iov_addrs (iovs (env_io e io)) ! k) =
          xor_all (map (\<lambda>i. read_bytes e disk (chunk_base_io e s i) k) srcs))"
proof -
  have evs: "rio_events (r5_ios w1 io) = rio_events (r5_ios w0 io) @ map (\<lambda>i. EvSubmit (chunk_base_io e s i)) srcs"
    and no: "completions_of (rio_events (r5_ios w0 io)) = []"
    using sent by (simp_all add: r5_recon_sent_def Let_def s_def srcs_def)
  then have nocomp: "completions_of (rio_events (r5_ios w1 io)) = []" by (simp add: submitted_of_reads)
  have inv: "r5_recon_inv e sid io disk srcs t w1 w out"
    using r5_recon_reach_inv[OF req sent acc] run by (simp add: r5_recon_reads_def srcs_def t_def)
  note ready = r5_recon_xor_ready[OF req sent, folded t_def]
  have it: "ioviter_spec e" and acc2: "\<forall>md. env_accel e sid md = 0" using acc by (simp_all add: r5_accepting_def)
  have st1: "sr_type s = STRIPE_REQ_RECONSTRUCT" "sr_raid_io s = io"
    and free: "free_reconstruct w0 = sid # free_reconstruct w1"
    and dc: "data_addrs s c = iov_addrs (iovs (env_io e io))"
    using sent by (simp_all add: r5_recon_sent_def Let_def s_def)
  show ?thesis
  proof (cases "out = []")
    case False
    then have "rio_events (r5_ios w io) = rio_events (r5_ios w1 io)"
      using inv by (auto simp: r5_recon_inv_def r5_recon_reading_def)
    then show ?thesis using False by (simp add: nocomp)
  next
    case True
    then obtain w2 where rd: "r5_recon_reading sid io w1 1 w2" and filled: "r5_recon_filled e sid disk srcs t w2"
      and ar: "accel_reach e (snd (raid5f_xor_stripe e sid w2)) w"
      using inv by (auto simp: r5_recon_inv_def)
    note static = r5_recon_reading_static[OF rd]
    have ready2: "xor_ready e sid w2" using ready(1)[OF it] by (simp add: static(4))
    have rio2: "rio_events (r5_ios w2 io) = rio_events (r5_ios w1 io)"
      "base_bdev_io_status (r5_ios w2 io) = STATUS_SUCCESS" "base_bdev_io_remaining (r5_ios w2 io) = 1"
      using rd word_unat_eq_iff[of "base_bdev_io_remaining (r5_ios w2 io)" 1]
      by (simp_all add: r5_recon_reading_def)
    show ?thesis
    proof (cases "xor_jobs w = []")
      case False
      obtain ph where "xor_phase e sid w2 ph w" using xor_reach_phase[OF ready2 acc2 ar] by blast
      then have "r5_ios w = r5_ios w2"
        using False unfolding xor_phase_def Let_def by (auto simp: xor_world_def)
      then show ?thesis using False by (simp add: rio2 nocomp)
    next
      case over: True
      obtain l ptrs m where m: "xor_memory e s (r5_mem w2) t False m"
        and w: "w = xor_callback e sid (xor_world sid w2 [] l 0 0 m ptrs [])"
      proof (rule xor_reach_finished[OF ready2 acc2 ar over])
        fix l ptrs m
        assume "xor_memory e (r5_stripes w2 sid) (r5_mem w2) (xor_len_data e (r5_stripes w2 sid)) False m"
          and "w = xor_callback e sid (xor_world sid w2 [] l 0 0 m ptrs [])"
        then show thesis by (intro that) (simp_all add: static(1) ready(2)[OF it] s_def)
      qed
      define w3 where "w3 = xor_world sid w2 [] l 0 0 m ptrs []"
      have w3: "sr_type (r5_stripes w3 sid) = STRIPE_REQ_RECONSTRUCT" "sr_raid_io (r5_stripes w3 sid) = io"
        "xor_status (r5_stripes w3 sid) = 0" "r5_ios w3 = r5_ios w2" "r5_mem w3 = m"
        "free_reconstruct w3 = free_reconstruct w1"
        by (simp_all add: w3_def xor_world_def static st1[unfolded s_def])
      have fin: "w = snd (r5_complete_part io 1 STATUS_SUCCESS (raid5f_stripe_request_release sid w3))"
        by (simp add: w w3_def[symmetric] xor_callback_def Let_def w3 raid5f_stripe_request_reconstruct_xor_done_def)
      have "completions_of (rio_events (r5_ios w io)) = [STATUS_SUCCESS]"
        by (simp add: fin w3 rio2 nocomp)
      moreover have "free_reconstruct w = free_reconstruct w0" and mw: "r5_mem w = m"
        by (simp_all add: fin r5_complete_part_def r5_io_def raid5f_stripe_request_release_def w3 free)
      moreover have "m (iov_addrs (iovs (env_io e io)) ! k) =
          xor_all (map (\<lambda>i. read_bytes e disk (chunk_base_io e s i) k) srcs)" if k: "k < t" for k
      proof -
        have "m (iov_addrs (iovs (env_io e io)) ! k) = xor_all (map (\<lambda>i. r5_mem w2 (data_addrs s i ! k)) srcs)"
          using m k ready(3,4)[OF it] by (simp add: xor_memory_def Let_def dc[symmetric] s_def srcs_def)
        also have "map (\<lambda>i. r5_mem w2 (data_addrs s i ! k)) srcs =
            map (\<lambda>i. read_bytes e disk (chunk_base_io e s i) k) srcs"
          using filled k by (simp add: r5_recon_filled_def static(1) s_def)
        finally show ?thesis .
      qed
      ultimately show ?thesis using True over by simp
    qed
  qed
qed

text \<open>The reconstruction of a missing chunk of a consistent stripe.\<close>

lemma r5_degraded_start:
  fixes e :: r5_env and sid io :: nat and w0 :: r5_world
  defines "rb \<equiv> env_rb e" and "bio \<equiv> env_io e io" and "ws \<equiv> raid5f_submit_rw_request e io w0"
  defines "c \<equiv> unat (raid5f_slot rb (offset_blocks bio))"
  assumes ty: "bdev_io_type bio = IO_READ" and req: "r5_recon_request e sid io c w0" and acc: "r5_accepting e"
    and miss: "base_channel (env_ch e) ! c = None"
  shows "r5_recon_sent e sid io c w0 ws" and "submitted_of (new_events io w0 ws) = r5_recon_reads e sid c ws"
    and "chunk_base_io e (r5_stripes ws sid) i = raid_bdev_readv_blocks_ext rb i (base_channel (env_ch e) ! i)
      (ck_used (sr_chunks (r5_stripes ws sid) ! i)) (ck_md_buf (sr_chunks (r5_stripes ws sid) ! i))
      (raid5f_lba rb (offset_blocks bio)) (num_blocks bio)"
proof -
  define si where "si = offset_blocks bio div stripe_blocks (raid5f_info_of rb)"
  define so where "so = offset_blocks bio mod stripe_blocks (raid5f_info_of rb)"
  have ci: "unat (raid5f_chunk_idx rb si so) = c" by (simp add: c_def raid5f_slot_def si_def so_def)
  have lba: "push_bit (unat (strip_size_shift rb)) si + raid5f_chunk_offset rb so = raid5f_lba rb (offset_blocks bio)"
    by (simp add: raid5f_lba_def si_def so_def)
  obtain w1 where w1: "raid5f_submit_reconstruct_read e io si (raid5f_chunk_idx rb si so)
      (raid5f_chunk_offset rb so) None w0 = (0, w1)"
    "r5_recon_sent e sid io c w0 w1"
    "\<forall>i. chunk_base_io e (r5_stripes w1 sid) i = raid_bdev_readv_blocks_ext rb i (base_channel (env_ch e) ! i)
         (ck_used (sr_chunks (r5_stripes w1 sid) ! i)) (ck_md_buf (sr_chunks (r5_stripes w1 sid) ! i))
         (raid5f_lba rb (offset_blocks bio)) (num_blocks bio)"
    using r5_recon_start[OF req acc ci] lba unfolding rb_def bio_def by metis
  have ws: "ws = w1"
    using w1(1) ty miss ci
    by (simp add: ws_def raid5f_submit_rw_request_def Let_def bio_def rb_def si_def so_def
        raid5f_submit_read_request_def)
  show "r5_recon_sent e sid io c w0 ws" "submitted_of (new_events io w0 ws) = r5_recon_reads e sid c ws"
    using w1(2) r5_recon_new by (simp_all add: ws)
  show "chunk_base_io e (r5_stripes ws sid) i = raid_bdev_readv_blocks_ext rb i (base_channel (env_ch e) ! i)
      (ck_used (sr_chunks (r5_stripes ws sid) ! i)) (ck_md_buf (sr_chunks (r5_stripes ws sid) ! i))
      (raid5f_lba rb (offset_blocks bio)) (num_blocks bio)"
    using w1(3) by (simp add: ws)
qed

text \<open>What it delivers, consistent or not.\<close>

lemma r5_degraded_bytes:
  fixes e :: r5_env and sid io :: nat and w0 :: r5_world
  defines "rb \<equiv> env_rb e" and "bio \<equiv> env_io e io" and "ws \<equiv> raid5f_submit_rw_request e io w0"
  defines "c \<equiv> unat (raid5f_slot rb (offset_blocks bio))" and "lba \<equiv> raid5f_lba rb (offset_blocks bio)"
    and "t \<equiv> unat (num_blocks bio) * 2 ^ unat (blocklen_shift rb)"
  defines "addr \<equiv> \<lambda>i. unat (data_offset (base_bdev_info rb ! i) + lba) * 2 ^ unat (blocklen_shift rb)"
  assumes ty: "bdev_io_type bio = IO_READ" and req: "r5_recon_request e sid io c w0" and acc: "r5_accepting e"
    and miss: "base_channel (env_ch e) ! c = None"
    and run: "r5_recon_reach e sid disk ws (submitted_of (new_events io w0 ws)) w out"
  shows "if out \<noteq> [] \<or> xor_jobs w \<noteq> [] then completions_of (rio_events (r5_ios w io)) = []
     else completions_of (rio_events (r5_ios w io)) = [STATUS_SUCCESS] \<and>
       free_reconstruct w = free_reconstruct w0 \<and>
       (\<forall>k < t. r5_mem w (iov_addrs (iovs bio) ! k) = xor_all (map (\<lambda>i. disk i (addr i + k)) (data_chunks rb c)))"
proof -
  note start = r5_degraded_start[of e io sid w0, folded rb_def bio_def, folded c_def ws_def lba_def, OF ty req acc miss]
  have bytes: "read_bytes e disk (chunk_base_io e (r5_stripes ws sid) i) k = disk i (addr i + k)" for i k
    by (simp add: start(3) read_bytes_def raid_bdev_readv_blocks_ext_def addr_def rb_def)
  show ?thesis
    using r5_recon_result[OF req start(1) acc run[unfolded start(2)], folded rb_def bio_def, folded t_def]
    by (simp add: bytes)
qed

lemma r5_degraded_read:
  fixes e :: r5_env and sid io :: nat and w0 :: r5_world
  defines "rb \<equiv> env_rb e" and "bio \<equiv> env_io e io" and "ws \<equiv> raid5f_submit_rw_request e io w0"
  defines "c \<equiv> unat (raid5f_slot rb (offset_blocks bio))" and "lba \<equiv> raid5f_lba rb (offset_blocks bio)"
    and "t \<equiv> unat (num_blocks bio) * 2 ^ unat (blocklen_shift rb)"
  defines "addr \<equiv> \<lambda>i. unat (data_offset (base_bdev_info rb ! i) + lba) * 2 ^ unat (blocklen_shift rb)"
  assumes ty: "bdev_io_type bio = IO_READ" and req: "r5_recon_request e sid io c w0" and acc: "r5_accepting e"
    and miss: "base_channel (env_ch e) ! c = None"
    and consistent: "\<forall>k < t. xor_all (map (\<lambda>i. disk i (addr i + k)) [0..<unat (num_base_bdevs rb)]) = 0"
    and run: "r5_recon_reach e sid disk ws (submitted_of (new_events io w0 ws)) w out"
  shows "map (\<lambda>b. (bio_type b, bio_slot b, bio_lba b, bio_blocks b)) (submitted_of (new_events io w0 ws)) =
      map (\<lambda>i. (IO_READ, i, data_offset (base_bdev_info rb ! i) + lba, num_blocks bio))
        (filter (\<lambda>i. i \<noteq> c) [0..<unat (num_base_bdevs rb)]) \<and>
    map (\<lambda>b. (bio_desc b, bio_ch b)) (submitted_of (new_events io w0 ws)) =
      map (\<lambda>i. (bi_desc (base_bdev_info rb ! i), base_channel (env_ch e) ! i))
        (filter (\<lambda>i. i \<noteq> c) [0..<unat (num_base_bdevs rb)]) \<and>
    (\<exists>w'. r5_recon_reach e sid disk ws (submitted_of (new_events io w0 ws)) w' [] \<and> xor_jobs w' = []) \<and>
    (if out \<noteq> [] \<or> xor_jobs w \<noteq> [] then completions_of (rio_events (r5_ios w io)) = []
     else completions_of (rio_events (r5_ios w io)) = [STATUS_SUCCESS] \<and>
       free_reconstruct w = free_reconstruct w0 \<and>
       (\<forall>k < t. r5_mem w (iov_addrs (iovs bio) ! k) = disk c (addr c + k)))"
proof -
  note start = r5_degraded_start[of e io sid w0, folded rb_def bio_def, folded c_def ws_def lba_def, OF ty req acc miss]
  have "c \<in> set [0..<unat (num_base_bdevs rb)]" using req by (simp add: r5_recon_request_def Let_def rb_def)
  from xor_all_zero_split[OF distinct_upt this] consistent
  have c: "xor_all (map (\<lambda>i. disk i (addr i + k)) (data_chunks rb c)) = disk c (addr c + k)" if "k < t" for k
    using that by (simp add: data_chunks_def)
  have 1: "map (\<lambda>b. (bio_type b, bio_slot b, bio_lba b, bio_blocks b)) (submitted_of (new_events io w0 ws)) =
      map (\<lambda>i. (IO_READ, i, data_offset (base_bdev_info rb ! i) + lba, num_blocks bio))
        (filter (\<lambda>i. i \<noteq> c) [0..<unat (num_base_bdevs rb)])"
    by (simp add: start(2,3) r5_recon_reads_def raid_bdev_readv_blocks_ext_def data_chunks_def rb_def)
  have h: "map (\<lambda>b. (bio_desc b, bio_ch b)) (submitted_of (new_events io w0 ws)) =
      map (\<lambda>i. (bi_desc (base_bdev_info rb ! i), base_channel (env_ch e) ! i))
        (filter (\<lambda>i. i \<noteq> c) [0..<unat (num_base_bdevs rb)])"
    by (simp add: start(2,3) r5_recon_reads_def raid_bdev_readv_blocks_ext_def data_chunks_def rb_def)
  have 2: "if out \<noteq> [] \<or> xor_jobs w \<noteq> [] then completions_of (rio_events (r5_ios w io)) = []
     else completions_of (rio_events (r5_ios w io)) = [STATUS_SUCCESS] \<and>
       free_reconstruct w = free_reconstruct w0 \<and>
       (\<forall>k < t. r5_mem w (iov_addrs (iovs bio) ! k) = disk c (addr c + k))"
    using r5_degraded_bytes[of e io sid w0, folded rb_def bio_def, folded c_def ws_def lba_def t_def,
        OF ty req acc miss run]
    by (simp add: c[unfolded addr_def] addr_def)
  have 3: "\<exists>w'. r5_recon_reach e sid disk ws (submitted_of (new_events io w0 ws)) w' [] \<and> xor_jobs w' = []"
    unfolding start(2) r5_recon_reads_def
    by (rule r5_recon_finishes[OF req start(1) acc]) (rule recon_sent)
  show ?thesis by (intro conjI 1 2 3 h)
qed

text \<open>C5: a read whose base bdev is missing, when the layers below take everything: it reads the same blocks
  once from every other base bdev, and in whatever order these reads and the parity jobs end, it
  completes exactly once, with success, when all are over, which it can always reach; its stripe request is back on the free list
  then, and if the stripe is consistent on the base bdevs, the request's buffers hold, byte for byte,
  what the missing base bdev holds at these blocks. The descriptors and channels of these reads are those
  of the slots: if a second base bdev is missing, its read is sent with a null channel, and the program
  crashes there (\<open>null_handle\<close>).\<close>

theorem raid5f_degraded_read_correct:
  fixes e :: r5_env and sid io :: nat and w0 :: r5_world
  defines "rb \<equiv> env_rb e" and "bio \<equiv> env_io e io" and "ws \<equiv> raid5f_submit_rw_request e io w0"
  defines "c \<equiv> unat (raid5f_slot rb (offset_blocks bio))" and "lba \<equiv> raid5f_lba rb (offset_blocks bio)"
    and "t \<equiv> unat (num_blocks bio) * 2 ^ unat (blocklen_shift rb)"
  defines "addr \<equiv> \<lambda>i. unat (data_offset (base_bdev_info rb ! i) + lba) * 2 ^ unat (blocklen_shift rb)"
  assumes ty: "bdev_io_type bio = IO_READ" and req: "r5_recon_request e sid io c w0" and acc: "r5_accepting e"
    and miss: "base_channel (env_ch e) ! c = None"
    and consistent: "\<forall>k < t. xor_all (map (\<lambda>i. disk i (addr i + k)) [0..<unat (num_base_bdevs rb)]) = 0"
    and run: "r5_recon_reach e sid disk ws (submitted_of (new_events io w0 ws)) w out"
  shows "map (\<lambda>b. (bio_type b, bio_slot b, bio_lba b, bio_blocks b)) (submitted_of (new_events io w0 ws)) =
      map (\<lambda>i. (IO_READ, i, data_offset (base_bdev_info rb ! i) + lba, num_blocks bio))
        (filter (\<lambda>i. i \<noteq> c) [0..<unat (num_base_bdevs rb)]) \<and>
    map (\<lambda>b. (bio_desc b, bio_ch b)) (submitted_of (new_events io w0 ws)) =
      map (\<lambda>i. (bi_desc (base_bdev_info rb ! i), base_channel (env_ch e) ! i))
        (filter (\<lambda>i. i \<noteq> c) [0..<unat (num_base_bdevs rb)]) \<and>
    (\<exists>w'. r5_recon_reach e sid disk ws (submitted_of (new_events io w0 ws)) w' [] \<and> xor_jobs w' = []) \<and>
    (if out \<noteq> [] \<or> xor_jobs w \<noteq> [] then completions_of (rio_events (r5_ios w io)) = []
     else completions_of (rio_events (r5_ios w io)) = [STATUS_SUCCESS] \<and>
       free_reconstruct w = free_reconstruct w0 \<and>
       (\<forall>k < t. r5_mem w (iov_addrs (iovs bio) ! k) = disk c (addr c + k)))"
  unfolding rb_def bio_def ws_def c_def lba_def t_def addr_def
  by (rule r5_degraded_read[OF assms(8-13)[unfolded addr_def t_def lba_def c_def ws_def bio_def rb_def]])

subsection \<open>A concrete read\<close>

text \<open>Two blocks of the second stripe whose base bdev, the first one, is missing.\<close>

definition r5_example_read :: bdev_io where
  "r5_example_read =
     \<lparr>bdev_io_type = IO_READ, offset_blocks = 9, num_blocks = 2,
      iovs = [\<lparr>iov_base = 400, iov_len = 8\<rparr>], md_buf = None\<rparr>"

abbreviation r5_missing_env :: r5_env where
  "r5_missing_env \<equiv> (r5_example_env [None, Some 12, Some 13] (\<lambda>_. r5_example_read))
     \<lparr>env_segments := bytewise_segments\<rparr>"

definition r5_example_disk :: "nat \<Rightarrow> nat \<Rightarrow> u8" where
  "r5_example_disk slot a = (if slot = 0 then of_nat a else if slot = 1 then 5 else of_nat a XOR 5)"

lemma r5_missing_geometry:
  "unat (raid5f_slot (env_rb r5_missing_env) (offset_blocks (env_io r5_missing_env 0))) = 0"
  "unat (raid5f_lba (env_rb r5_missing_env) (offset_blocks (env_io r5_missing_env 0))) = 5"
  by code_simp+

lemma r5_missing_accepting: "r5_accepting r5_missing_env"
  using bytewise_ioviter_spec[of "r5_example_env [None, Some 12, Some 13] (\<lambda>_. r5_example_read)"]
  by (simp add: r5_accepting_def r5_example_env_def)

lemma r5_missing_request: "r5_recon_request r5_missing_env 2 0 0 r5_example_world"
proof -
  have g: "raid5f_geometry (env_rb r5_missing_env)"
    using raid5f_example_started_ok by (simp add: r5_example_env_def)
  have t: "unat (num_blocks (env_io r5_missing_env 0)) * 2 ^ unat (blocklen_shift (env_rb r5_missing_env)) = 8"
    by code_simp
  have t64: "(8 :: nat) < 2 ^ 64" by simp
  have apart: "distinct (concat (iov_addrs (iovs (env_io r5_missing_env 0)) #
      map (\<lambda>a. [a..<a + 8]) (sr_chunk_buffers (r5_stripes r5_example_world 2))))"
    by (auto simp: r5_example_env_def r5_example_read_def r5_example_world_def r5_example_stripe_def)
  show ?thesis unfolding r5_recon_request_def Let_def t by (intro conjI g t64 apart) code_simp+
qed

lemma raid5f_degraded_read_correct_witness:
  "\<exists>w. completions_of (rio_events (r5_ios w 0)) = [STATUS_SUCCESS] \<and> r5_mem w 403 = 23 \<and>
     r5_recon_reach r5_missing_env 2 r5_example_disk (raid5f_submit_rw_request r5_missing_env 0 r5_example_world)
       (submitted_of (new_events 0 r5_example_world (raid5f_submit_rw_request r5_missing_env 0 r5_example_world))) w []"
proof -
  let ?e = r5_missing_env
  let ?ws = "raid5f_submit_rw_request ?e 0 r5_example_world"
  have ty: "bdev_io_type (env_io ?e 0) = IO_READ" and t: "unat (num_blocks (env_io ?e 0)) = 2"
    "2 ^ unat (blocklen_shift (env_rb ?e)) = (4 :: nat)" "unat (num_base_bdevs (env_rb ?e)) = 3"
    "data_offset (base_bdev_info (env_rb ?e) ! 0) = 0" by code_simp+
  have off: "\<forall>i < 3. data_offset (base_bdev_info (env_rb ?e) ! i) = 0" by code_simp
  have miss: "base_channel (env_ch ?e) ! 0 = None" by (simp add: r5_example_env_def)
  note correct = raid5f_degraded_read_correct[OF ty, unfolded r5_missing_geometry(1),
      OF r5_missing_request r5_missing_accepting miss]
  have cons: "\<forall>k < unat (num_blocks (env_io ?e 0)) * 2 ^ unat (blocklen_shift (env_rb ?e)).
      xor_all (map (\<lambda>i. r5_example_disk i (unat (data_offset (base_bdev_info (env_rb ?e) ! i) +
        raid5f_lba (env_rb ?e) (offset_blocks (env_io ?e 0))) * 2 ^ unat (blocklen_shift (env_rb ?e)) + k))
        [0..<unat (num_base_bdevs (env_rb ?e))]) = 0"
    unfolding t using off by (simp add: r5_missing_geometry upt_rec r5_example_disk_def xor.commute)
  obtain w where w: "r5_recon_reach ?e 2 r5_example_disk ?ws (submitted_of (new_events 0 r5_example_world ?ws)) w []"
    "xor_jobs w = []"
    using correct[OF cons recon_sent] by blast
  have "completions_of (rio_events (r5_ios w 0)) = [STATUS_SUCCESS]" 
    using correct[OF cons w(1)] w(2) by simp
  moreover have "r5_mem w 403 = 23"
  proof -
    have "\<forall>k < unat (num_blocks (env_io ?e 0)) * 2 ^ unat (blocklen_shift (env_rb ?e)).
        r5_mem w (iov_addrs (iovs (env_io ?e 0)) ! k) =
        r5_example_disk 0 (unat (data_offset (base_bdev_info (env_rb ?e) ! 0) +
          raid5f_lba (env_rb ?e) (offset_blocks (env_io ?e 0))) * 2 ^ unat (blocklen_shift (env_rb ?e)) + k)"
      using correct[OF cons w(1)] w(2) by simp
    from this[rule_format, of 3] have "r5_mem w (iov_addrs (iovs (env_io ?e 0)) ! 3) = r5_example_disk 0 23"
      unfolding t by (simp add: r5_missing_geometry[simplified])
    moreover have "iov_addrs (iovs (env_io ?e 0)) ! 3 = 403"
      by (simp add: r5_example_env_def r5_example_read_def)
    ultimately show ?thesis by (simp add: r5_example_disk_def)
  qed
  ultimately show ?thesis using w(1) by blast
qed

end
