(* ===== verification/Raid_Names.thy ===== *)
theory Raid_Names
  imports Raid_Io "HOL-Library.Char_ord"
begin

text \<open>
  The name tables of \<open>raid/bdev_raid.c\<close> and the four functions between names and the enumerations
  of levels and states. \<open>strcasecmp\<close> compares the lower-case forms of two strings (in the C locale).
\<close>

definition ascii_tolower :: "char \<Rightarrow> char" where
  "ascii_tolower c = (if CHR ''A'' \<le> c \<and> c \<le> CHR ''Z'' then char_of (of_char c + 32 :: nat) else c)"

definition str_case_eq :: "string \<Rightarrow> string \<Rightarrow> bool" where
  "str_case_eq s t \<longleftrightarrow> map ascii_tolower s = map ascii_tolower t"

definition g_raid_level_names :: "(string \<times> raid_level) list" where
  "g_raid_level_names =
     [(''raid0'', RAID0), (''0'', RAID0), (''raid1'', RAID1), (''1'', RAID1),
      (''raid5f'', RAID5F), (''5f'', RAID5F), (''concat'', CONCAT)]"

definition g_raid_state_names :: "(string \<times> raid_bdev_state) list" where
  "g_raid_state_names =
     [(''online'', RAID_BDEV_STATE_ONLINE), (''configuring'', RAID_BDEV_STATE_CONFIGURING),
      (''offline'', RAID_BDEV_STATE_OFFLINE)]"

fun name_to_value :: "(string \<times> 'v) list \<Rightarrow> 'v \<Rightarrow> string \<Rightarrow> 'v" where
  "name_to_value [] dflt str = dflt"
| "name_to_value ((name, v) # tab) dflt str =
     (if str_case_eq name str then v else name_to_value tab dflt str)"

fun value_to_name :: "(string \<times> 'v) list \<Rightarrow> 'v \<Rightarrow> string" where
  "value_to_name [] v = []"
| "value_to_name ((name, v') # tab) v = (if v' = v then name else value_to_name tab v)"

definition raid_bdev_str_to_level :: "string \<Rightarrow> raid_level" where
  "raid_bdev_str_to_level str = name_to_value g_raid_level_names INVALID_RAID_LEVEL str"

definition raid_bdev_level_to_str :: "raid_level \<Rightarrow> string" where
  "raid_bdev_level_to_str level = value_to_name g_raid_level_names level"

definition raid_bdev_str_to_state :: "string \<Rightarrow> raid_bdev_state" where
  "raid_bdev_str_to_state str = name_to_value g_raid_state_names RAID_BDEV_STATE_MAX str"

definition raid_bdev_state_to_str :: "raid_bdev_state \<Rightarrow> string" where
  "raid_bdev_state_to_str state = value_to_name g_raid_state_names state"

text \<open>Both enumerations are finite: a statement about all levels or all states is evaluated.\<close>

instantiation raid_level :: enum
begin

definition enum_raid_level :: "raid_level list" where
  "enum_raid_level =
     [INVALID_RAID_LEVEL, RAID0, RAID1, RAID5F, CONCAT]"

definition enum_all_raid_level :: "(raid_level \<Rightarrow> bool) \<Rightarrow> bool" where
  "enum_all_raid_level P \<longleftrightarrow> (\<forall>l \<in> set enum_class.enum. P l)"

definition enum_ex_raid_level :: "(raid_level \<Rightarrow> bool) \<Rightarrow> bool" where
  "enum_ex_raid_level P \<longleftrightarrow> (\<exists>l \<in> set enum_class.enum. P l)"

instance
proof
  show all: "(UNIV :: raid_level set) = set enum_class.enum"
    unfolding enum_raid_level_def using raid_level.exhaust by auto
  show "distinct (enum_class.enum :: raid_level list)"
    by (simp add: enum_raid_level_def)
  show "enum_class.enum_all P \<longleftrightarrow> Ball UNIV P" and "enum_class.enum_ex P \<longleftrightarrow> Bex UNIV P"
    for P :: "raid_level \<Rightarrow> bool"
    by (simp_all only: enum_all_raid_level_def enum_ex_raid_level_def all)
qed

end

instantiation raid_bdev_state :: enum
begin

definition enum_raid_bdev_state :: "raid_bdev_state list" where
  "enum_raid_bdev_state =
     [RAID_BDEV_STATE_ONLINE, RAID_BDEV_STATE_CONFIGURING, RAID_BDEV_STATE_OFFLINE, RAID_BDEV_STATE_MAX]"

definition enum_all_raid_bdev_state :: "(raid_bdev_state \<Rightarrow> bool) \<Rightarrow> bool" where
  "enum_all_raid_bdev_state P \<longleftrightarrow> (\<forall>s \<in> set enum_class.enum. P s)"

definition enum_ex_raid_bdev_state :: "(raid_bdev_state \<Rightarrow> bool) \<Rightarrow> bool" where
  "enum_ex_raid_bdev_state P \<longleftrightarrow> (\<exists>s \<in> set enum_class.enum. P s)"

instance
proof
  show all: "(UNIV :: raid_bdev_state set) = set enum_class.enum"
    unfolding enum_raid_bdev_state_def using raid_bdev_state.exhaust by auto
  show "distinct (enum_class.enum :: raid_bdev_state list)"
    by (simp add: enum_raid_bdev_state_def)
  show "enum_class.enum_all P \<longleftrightarrow> Ball UNIV P" and "enum_class.enum_ex P \<longleftrightarrow> Bex UNIV P"
    for P :: "raid_bdev_state \<Rightarrow> bool"
    by (simp_all only: enum_all_raid_bdev_state_def enum_ex_raid_bdev_state_def all)
qed

end

lemma names_found_again:
  "\<forall>level. raid_bdev_str_to_level (raid_bdev_level_to_str level) = level"
  "\<forall>state. raid_bdev_str_to_state (raid_bdev_state_to_str state) = state"
  by code_simp+

lemma ascii_tolower_idem: "ascii_tolower (ascii_tolower c) = ascii_tolower c"
proof (cases "CHR ''A'' \<le> c \<and> c \<le> CHR ''Z''")
  case True
  then have "65 \<le> (of_char c :: nat)" "(of_char c :: nat) \<le> 90"
    by (simp_all add: less_eq_char_def)
  then show ?thesis
    using True by (simp add: ascii_tolower_def less_eq_char_def)
next
  case False
  then show ?thesis by (auto simp: ascii_tolower_def)
qed

lemma name_to_value_case:
  "name_to_value tab d (map ascii_tolower str) = name_to_value tab d str"
  by (induction tab d str rule: name_to_value.induct)
     (auto simp: str_case_eq_def comp_def ascii_tolower_idem)

text \<open>Every level that has a name is found again by the name it is written with, in any case of
  letters, and so is every state; a name outside the table gives the invalid value.\<close>

theorem raid_names_round_trip:
  "(level \<noteq> INVALID_RAID_LEVEL \<longrightarrow> map ascii_tolower str = raid_bdev_level_to_str level \<longrightarrow>
      raid_bdev_str_to_level str = level) \<and>
   (state \<noteq> RAID_BDEV_STATE_MAX \<longrightarrow> map ascii_tolower str = raid_bdev_state_to_str state \<longrightarrow>
      raid_bdev_str_to_state str = state) \<and>
   raid_bdev_str_to_level (raid_bdev_level_to_str INVALID_RAID_LEVEL) = INVALID_RAID_LEVEL"
proof -
  have "raid_bdev_str_to_level str = level" if "map ascii_tolower str = raid_bdev_level_to_str level"
    using names_found_again(1) name_to_value_case[of g_raid_level_names INVALID_RAID_LEVEL str]
    by (simp add: that raid_bdev_str_to_level_def)
  moreover have "raid_bdev_str_to_state str = state"
    if "map ascii_tolower str = raid_bdev_state_to_str state"
    using names_found_again(2) name_to_value_case[of g_raid_state_names RAID_BDEV_STATE_MAX str]
    by (simp add: that raid_bdev_str_to_state_def)
  moreover have "raid_bdev_str_to_level (raid_bdev_level_to_str INVALID_RAID_LEVEL) = INVALID_RAID_LEVEL"
    using names_found_again(1) by blast
  ultimately show ?thesis by blast
qed

lemma raid_names_round_trip_witness:
  "raid_bdev_str_to_level ''RAID5F'' = RAID5F \<and> raid_bdev_str_to_state ''Online'' = RAID_BDEV_STATE_ONLINE"
proof -
  have "map ascii_tolower ''RAID5F'' = raid_bdev_level_to_str RAID5F"
    "map ascii_tolower ''Online'' = raid_bdev_state_to_str RAID_BDEV_STATE_ONLINE"
    by code_simp+
  then show ?thesis
    using raid_names_round_trip[of RAID5F "''RAID5F''" RAID_BDEV_STATE_ONLINE]
      raid_names_round_trip[of RAID5F "''Online''" RAID_BDEV_STATE_ONLINE] by simp
qed

end
