(* ===== verification/Raid_Config.thy ===== *)
theory Raid_Config
  imports Raid_Names
begin

text \<open>
  The life of raid bdevs in \<open>raid/bdev_raid.c\<close>: the module registry, creation, adding, examining and
  removing base bdevs, configuration, deletion and destruction.

  The state is \<open>raid_world\<close>: the globals of the file (\<open>g_raid_bdev_list\<close>, \<open>g_raid_modules\<close>,
  \<open>g_shutdown_started\<close>), the asynchronous calls that are under way (\<open>w_pending\<close>: what the bdev layer
  will call back) and \<open>w_log\<close>, the other calls to the outside in their order. A raid bdev is named
  by its name, which is unique in the list, a base bdev slot by the raid bdev and its index, a
  callback with its argument by a number. What the code asks of the bdev layer and of
  \<open>spdk/util.h\<close> is the record \<open>raid_env\<close>.
\<close>

subsection \<open>Modules\<close>

datatype constraint_type =
  CONSTRAINT_UNSET | CONSTRAINT_MAX_BASE_BDEVS_REMOVED | CONSTRAINT_MIN_BASE_BDEVS_OPERATIONAL

text \<open>The optional functions of a module that this file calls; the request handlers are passed to the
  functions that dispatch to them.\<close>

record raid_bdev_module =
  mod_level :: raid_level
  base_bdevs_min :: u8
  constraint_kind :: constraint_type
  constraint_value :: u8
  memory_domains_supported :: bool
  mod_start :: "raid_bdev \<Rightarrow> int \<times> raid_bdev"
  mod_stop :: "(raid_bdev \<Rightarrow> bool \<times> raid_bdev) option"
  mod_null_payload :: bool
  mod_resize :: "(raid_bdev \<Rightarrow> raid_bdev) option"

fun raid_bdev_module_find :: "raid_bdev_module list \<Rightarrow> raid_level \<Rightarrow> raid_bdev_module option" where
  "raid_bdev_module_find [] level = None"
| "raid_bdev_module_find (m # ms) level =
     (if mod_level m = level then Some m else raid_bdev_module_find ms level)"

definition raid_bdev_module_list_add ::
  "raid_bdev_module \<Rightarrow> raid_bdev_module list \<Rightarrow> raid_bdev_module list" where
  "raid_bdev_module_list_add m ms =
     (if raid_bdev_module_find ms (mod_level m) \<noteq> None then ms else ms @ [m])"

subsection \<open>The world\<close>

record base_bdev =
  bd_blockcnt :: u64
  bd_blocklen :: u32
  bd_optimal_io_boundary :: u32
  bd_md_size :: u32
  bd_md_interleaved :: bool
  bd_dif_disabled :: bool

text \<open>
  What lies outside: the base bdevs by name, the results of opening and claiming them, of
  registering the raid bdev and of starting to quiesce it, of the three allocations of
  \<open>raid_bdev_create\<close>, and the three functions of \<open>spdk/util.h\<close>.
\<close>

record raid_env =
  env_bdev :: "string \<Rightarrow> base_bdev"
  env_open_rc :: "string \<Rightarrow> int"
  env_claim_rc :: "string \<Rightarrow> int"
  env_register_rc :: "string \<Rightarrow> int"
  env_quiesce_rc :: "string \<Rightarrow> int"
  env_alloc_raid :: bool
  env_alloc_infos :: bool
  env_strdup :: "string \<Rightarrow> bool"
  spdk_u32log2 :: "u32 \<Rightarrow> u32"
  spdk_u32_is_pow2 :: "u32 \<Rightarrow> bool"
  spdk_divide_round_up :: "u64 \<Rightarrow> u64 \<Rightarrow> u64"

text \<open>The asynchronous calls: quiesce, per-channel removal, unquiesce, unregistration of the bdev, of the
  module (its stop) and of the I/O device.\<close>

datatype raid_pending =
  PendQuiesce string nat | PendChannels string nat | PendUnquiesce string nat
  | PendUnregister string "nat option" | PendModuleStop string | PendIoUnregister string

datatype raid_log =
  LogClaim string | LogRelease string | LogClose string
  | LogIoRegister string | LogIoUnregister string | LogRegister string | LogDestructDone string
  | LogCallback nat int | LogFree string

record raid_world =
  g_raid_bdev_list :: "raid_bdev list"
  g_raid_modules :: "raid_bdev_module list"
  g_shutdown_started :: bool
  w_pending :: "raid_pending list"
  w_log :: "raid_log list"

definition w_emit :: "raid_log list \<Rightarrow> raid_world \<Rightarrow> raid_world" where
  "w_emit es w = w\<lparr>w_log := w_log w @ es\<rparr>"

definition w_defer :: "raid_pending \<Rightarrow> raid_world \<Rightarrow> raid_world" where
  "w_defer p w = w\<lparr>w_pending := w_pending w @ [p]\<rparr>"

definition raid_callback :: "nat option \<Rightarrow> int \<Rightarrow> raid_world \<Rightarrow> raid_world" where
  "raid_callback cb rc w = (case cb of None \<Rightarrow> w | Some f \<Rightarrow> w_emit [LogCallback f rc] w)"

definition raid_bdev_find_by_name :: "string \<Rightarrow> raid_world \<Rightarrow> raid_bdev option" where
  "raid_bdev_find_by_name name w = List.find (\<lambda>rb. rb_name rb = name) (g_raid_bdev_list w)"

text \<open>Writing back a raid bdev that has been changed through its pointer.\<close>

definition w_update :: "raid_bdev \<Rightarrow> raid_world \<Rightarrow> raid_world" where
  "w_update rb w =
     w\<lparr>g_raid_bdev_list := map (\<lambda>r. if rb_name r = rb_name rb then rb else r) (g_raid_bdev_list w)\<rparr>"

definition rb_module_of :: "raid_world \<Rightarrow> raid_bdev \<Rightarrow> raid_bdev_module option" where
  "rb_module_of w rb = raid_bdev_module_find (g_raid_modules w) (rb_module rb)"

definition update_info ::
  "nat \<Rightarrow> (raid_base_bdev_info \<Rightarrow> raid_base_bdev_info) \<Rightarrow> raid_bdev \<Rightarrow> raid_bdev" where
  "update_info slot f rb =
     rb\<lparr>base_bdev_info := (base_bdev_info rb)[slot := f (base_bdev_info rb ! slot)]\<rparr>"

subsection \<open>Releasing resources\<close>

definition raid_bdev_cleanup_and_free :: "string \<Rightarrow> raid_world \<Rightarrow> raid_world" where
  "raid_bdev_cleanup_and_free name w =
     w_emit [LogFree name]
       (w\<lparr>g_raid_bdev_list := filter (\<lambda>r. rb_name r \<noteq> name) (g_raid_bdev_list w)\<rparr>)"

text \<open>The slot of one raid bdev; the second part is the calls made.\<close>

definition raid_bdev_free_base_bdev_resource :: "nat \<Rightarrow> raid_bdev \<Rightarrow> raid_bdev \<times> raid_log list" where
  "raid_bdev_free_base_bdev_resource slot rb =
     (let info = base_bdev_info rb ! slot;
          rb = update_info slot (\<lambda>info. info\<lparr>bi_name := None\<rparr>) rb
      in case bi_desc info of
           None \<Rightarrow> (rb, [])
         | Some d \<Rightarrow>
             (let rb = update_info slot (\<lambda>info. info\<lparr>bi_desc := None\<rparr>) rb
              in (rb\<lparr>num_base_bdevs_discovered := num_base_bdevs_discovered rb - 1\<rparr>,
                  [LogRelease d, LogClose d])))"

text \<open>The loops that release the slots \<open>slots\<close> for which \<open>p\<close> holds.\<close>

fun free_base_bdevs ::
  "(raid_base_bdev_info \<Rightarrow> bool) \<Rightarrow> nat list \<Rightarrow> raid_bdev \<Rightarrow> raid_bdev \<times> raid_log list" where
  "free_base_bdevs p [] rb = (rb, [])"
| "free_base_bdevs p (slot # slots) rb =
     (if p (base_bdev_info rb ! slot)
      then (let (rb, es) = raid_bdev_free_base_bdev_resource slot rb;
                (rb, es') = free_base_bdevs p slots rb
            in (rb, es @ es'))
      else free_base_bdevs p slots rb)"

definition raid_bdev_io_device_unregister_cb :: "raid_bdev \<Rightarrow> raid_world \<Rightarrow> raid_world" where
  "raid_bdev_io_device_unregister_cb rb w =
     (if num_base_bdevs_discovered rb = 0
      then raid_bdev_cleanup_and_free (rb_name rb) (w_emit [LogDestructDone (rb_name rb)] w)
      else w_emit [LogDestructDone (rb_name rb)] w)"

definition raid_bdev_module_stop_done :: "raid_bdev \<Rightarrow> raid_world \<Rightarrow> raid_world" where
  "raid_bdev_module_stop_done rb w =
     (if rb_state rb \<noteq> RAID_BDEV_STATE_CONFIGURING
      then w_defer (PendIoUnregister (rb_name rb)) w else w)"

text \<open>\<open>raid_bdev_destruct\<close> sends this to the application thread and returns 1.\<close>

definition raid_bdev_destruct :: "raid_bdev \<Rightarrow> raid_world \<Rightarrow> raid_world" where
  "raid_bdev_destruct rb w =
     (let (rb, es) =
            free_base_bdevs (\<lambda>info. g_shutdown_started w \<or> remove_scheduled info)
              [0..<length (base_bdev_info rb)] rb;
          w = w_emit es w;
          rb = (if g_shutdown_started w then rb\<lparr>rb_state := RAID_BDEV_STATE_OFFLINE\<rparr> else rb)
      in case Option.bind (rb_module_of w rb) mod_stop of
           Some stop \<Rightarrow>
             (case stop rb of
                (stopped, rb) \<Rightarrow>
                  (if stopped then raid_bdev_module_stop_done rb (w_update rb w)
                   else w_defer (PendModuleStop (rb_name rb)) (w_update rb w)))
         | None \<Rightarrow> raid_bdev_module_stop_done rb (w_update rb w))"

subsection \<open>Creation\<close>

text \<open>\<open>None\<close>: the constraint of the module is not acceptable, the result is \<open>-EINVAL\<close>.\<close>

definition raid_min_operational :: "raid_bdev_module \<Rightarrow> u8 \<Rightarrow> u8 option" where
  "raid_min_operational m num =
     (case constraint_kind m of
        CONSTRAINT_MAX_BASE_BDEVS_REMOVED \<Rightarrow> Some (num - constraint_value m)
      | CONSTRAINT_MIN_BASE_BDEVS_OPERATIONAL \<Rightarrow> Some (constraint_value m)
      | CONSTRAINT_UNSET \<Rightarrow> if constraint_value m \<noteq> 0 then None else Some num)"

definition raid_bdev_create ::
  "raid_env \<Rightarrow> string \<Rightarrow> u32 \<Rightarrow> u8 \<Rightarrow> raid_level \<Rightarrow> bool \<Rightarrow> uuid \<Rightarrow> raid_world \<Rightarrow> int \<times> raid_world" where
  "raid_bdev_create env name ssize num level superblock uuid w =
     (if raid_bdev_find_by_name name w \<noteq> None then (- EEXIST, w)
      else if level = RAID1 \<and> ssize \<noteq> 0 then (- EINVAL, w)
      else if level \<noteq> RAID1 \<and> \<not> spdk_u32_is_pow2 env ssize then (- EINVAL, w)
      else
        (case raid_bdev_module_find (g_raid_modules w) level of
           None \<Rightarrow> (- EINVAL, w)
         | Some m \<Rightarrow>
             if num < base_bdevs_min m then (- EINVAL, w)
             else
               (case raid_min_operational m num of
                  None \<Rightarrow> (- EINVAL, w)
                | Some min_operational \<Rightarrow>
                    if min_operational = 0 \<or> min_operational > num then (- EINVAL, w)
                    else if \<not> env_alloc_raid env then (- ENOMEM, w)
                    else if \<not> env_alloc_infos env then (- ENOMEM, w)
                    else
                      (let rb = zero_raid_bdev
                             \<lparr>rb_module := mod_level m, num_base_bdevs := num,
                              base_bdev_info := replicate (unat num) zero_base_bdev_info,
                              strip_size := 0, strip_size_kb := ssize,
                              rb_state := RAID_BDEV_STATE_CONFIGURING, rb_level := level,
                              min_base_bdevs_operational := min_operational,
                              superblock_enabled := superblock, rb_name := name, rb_uuid := uuid\<rparr>
                       in if \<not> env_strdup env name then (- ENOMEM, w)
                          else (0, w\<lparr>g_raid_bdev_list := g_raid_bdev_list w @ [rb]\<rparr>)))))"

subsection \<open>Configuration\<close>

text \<open>The base bdevs are those of the slots, in order; the state of the loop is \<open>md_len\<close> and
  \<open>md_interleave\<close>, written at the first slot.\<close>

fun configure_md_loop :: "base_bdev list \<Rightarrow> raid_bdev \<Rightarrow> int \<times> raid_bdev" where
  "configure_md_loop [] rb = (0, rb)"
| "configure_md_loop (b # bs) rb =
     (if \<not> bd_dif_disabled b then (- EPERM, rb)
      else if md_len rb \<noteq> bd_md_size b \<or> md_interleave rb \<noteq> bd_md_interleaved b then (- EPERM, rb)
      else configure_md_loop bs rb)"

definition raid_bdev_configure_md :: "base_bdev list \<Rightarrow> raid_bdev \<Rightarrow> int \<times> raid_bdev" where
  "raid_bdev_configure_md bs rb =
     (case bs of
        [] \<Rightarrow> (0, rb)
      | b # bs \<Rightarrow>
          if \<not> bd_dif_disabled b then (- EPERM, rb)
          else configure_md_loop bs
                 (rb\<lparr>md_len := bd_md_size b, md_interleave := bd_md_interleaved b\<rparr>))"

text \<open>The loop that checks the block lengths; \<open>None\<close> when they differ.\<close>

fun common_blocklen :: "u32 \<Rightarrow> base_bdev list \<Rightarrow> u32 option" where
  "common_blocklen blen [] = Some blen"
| "common_blocklen blen (b # bs) =
     (if blen = 0 then common_blocklen (bd_blocklen b) bs
      else if blen \<noteq> bd_blocklen b then None
      else common_blocklen blen bs)"

definition base_bdevs_of :: "raid_env \<Rightarrow> raid_bdev \<Rightarrow> base_bdev list" where
  "base_bdevs_of env rb = map (\<lambda>info. env_bdev env (the (bi_desc info))) (base_bdev_info rb)"

text \<open>The end of \<open>raid_bdev_configure\<close>, once the module has started: going online and registering.\<close>

definition raid_bdev_go_online ::
  "raid_env \<Rightarrow> raid_bdev_module \<Rightarrow> raid_bdev \<Rightarrow> raid_world \<Rightarrow> int \<times> raid_bdev \<times> raid_world" where
  "raid_bdev_go_online env m rb w =
     (let rb = rb\<lparr>rb_state := RAID_BDEV_STATE_ONLINE\<rparr>;
          w = w_emit [LogIoRegister (rb_name rb)] w;
          rc = env_register_rc env (rb_name rb)
      in if rc \<noteq> 0
         then
           (let (stopped, rb) =
                  (case mod_stop m of None \<Rightarrow> (True, rb) | Some stop \<Rightarrow> stop rb);
                w = (if stopped then w else w_defer (PendModuleStop (rb_name rb)) w);
                w = w_emit [LogIoUnregister (rb_name rb)] w
            in (rc, rb\<lparr>rb_state := RAID_BDEV_STATE_CONFIGURING\<rparr>, w))
         else (0, rb, w_emit [LogRegister (rb_name rb)] w))"

definition raid_bdev_configure ::
  "raid_env \<Rightarrow> raid_bdev \<Rightarrow> raid_world \<Rightarrow> int \<times> raid_bdev \<times> raid_world" where
  "raid_bdev_configure env rb w =
     (case common_blocklen 0 (base_bdevs_of env rb) of
        None \<Rightarrow> (- EINVAL, rb, w)
      | Some blen \<Rightarrow>
          (let rb = rb\<lparr>strip_size := (strip_size_kb rb * 1024) div blen\<rparr>
           in if strip_size rb = 0 \<and> rb_level rb \<noteq> RAID1 then (- EINVAL, rb, w)
              else
                (let rb = rb\<lparr>strip_size_shift := spdk_u32log2 env (strip_size rb),
                            blocklen_shift := spdk_u32log2 env blen, blocklen := blen\<rparr>;
                     (rc, rb) = raid_bdev_configure_md (base_bdevs_of env rb) rb
                 in if rc \<noteq> 0 then (rc, rb, w)
                    else
                      (case rb_module_of w rb of
                         None \<Rightarrow> (- EINVAL, rb, w)
                       | Some m \<Rightarrow>
                           (let (rc, rb) = mod_start m rb
                            in if rc \<noteq> 0 then (rc, rb, w)
                               else raid_bdev_go_online env m rb w)))))"

text \<open>\<open>RAID_BDEV_MIN_DATA_OFFSET_SIZE\<close> is 1 MiB (\<open>bdev_raid.h\<close>).\<close>

abbreviation RAID_BDEV_MIN_DATA_OFFSET_SIZE :: u64 where
  "RAID_BDEV_MIN_DATA_OFFSET_SIZE \<equiv> 1024 * 1024"

text \<open>Where the data of a base bdev starts when the raid bdev has a superblock.\<close>

definition raid_base_data_offset :: "raid_env \<Rightarrow> base_bdev \<Rightarrow> u64" where
  "raid_base_data_offset env b =
     (let offset = RAID_BDEV_MIN_DATA_OFFSET_SIZE div ucast (bd_blocklen b);
          boundary = ucast (bd_optimal_io_boundary b) :: u64
      in if bd_optimal_io_boundary b \<noteq> 0
         then spdk_divide_round_up env offset boundary * boundary else offset)"

definition raid_bdev_configure_base_bdev ::
  "raid_env \<Rightarrow> raid_bdev \<Rightarrow> nat \<Rightarrow> raid_world \<Rightarrow> int \<times> raid_world" where
  "raid_bdev_configure_base_bdev env rb slot w =
     (let name = the (bi_name (base_bdev_info rb ! slot));
          rc = env_open_rc env name
      in if rc \<noteq> 0 then (rc, w)
         else
           (let rc = env_claim_rc env name
            in if rc \<noteq> 0 then (rc, w_emit [LogClose name] w)
               else
                 (let w = w_emit [LogClaim name] w;
                      b = env_bdev env name;
                      rb = update_info slot
                             (\<lambda>info. info\<lparr>bi_desc := Some name, bi_blockcnt := bd_blockcnt b,
                                         data_offset := 0, data_size := bd_blockcnt b\<rparr>) rb;
                      rb = rb\<lparr>num_base_bdevs_discovered := num_base_bdevs_discovered rb + 1\<rparr>;
                      offset = raid_base_data_offset env b;
                      rb = (if superblock_enabled rb
                            then update_info slot (\<lambda>info. info\<lparr>data_offset := offset\<rparr>) rb else rb)
                  in if superblock_enabled rb \<and> offset \<ge> bd_blockcnt b
                     then (- EINVAL, w_update rb w)
                     else
                       (let rb = (if superblock_enabled rb
                                  then update_info slot
                                         (\<lambda>info. info\<lparr>data_size := bd_blockcnt b - offset\<rparr>) rb
                                  else rb)
                        in if num_base_bdevs_discovered rb = num_base_bdevs rb
                           then (case raid_bdev_configure env rb w of
                                   (rc, rb, w) \<Rightarrow> (rc, w_update rb w))
                           else (0, w_update rb w)))))"

definition raid_bdev_add_base_device ::
  "raid_env \<Rightarrow> raid_bdev \<Rightarrow> string \<Rightarrow> u8 \<Rightarrow> raid_world \<Rightarrow> int \<times> raid_world" where
  "raid_bdev_add_base_device env rb name slot w =
     (if slot \<ge> num_base_bdevs rb then (- EINVAL, w)
      else if bi_name (base_bdev_info rb ! unat slot) \<noteq> None then (- EBUSY, w)
      else if \<not> env_strdup env name then (- ENOMEM, w)
      else
        (let rb = update_info (unat slot) (\<lambda>info. info\<lparr>bi_name := Some name\<rparr>) rb
         in raid_bdev_configure_base_bdev env rb (unat slot) (w_update rb w)))"

text \<open>The first free slot of a raid bdev that waits for the bdev \<open>name\<close>.\<close>

definition raid_waiting_slot :: "string \<Rightarrow> raid_bdev \<Rightarrow> nat option" where
  "raid_waiting_slot name rb =
     List.find (\<lambda>slot. bi_desc (base_bdev_info rb ! slot) = None \<and>
                       bi_name (base_bdev_info rb ! slot) = Some name)
       [0..<length (base_bdev_info rb)]"

fun examine_loop :: "raid_env \<Rightarrow> string \<Rightarrow> raid_bdev list \<Rightarrow> raid_world \<Rightarrow> raid_world" where
  "examine_loop env name [] w = w"
| "examine_loop env name (rb # rbs) w =
     examine_loop env name rbs
       (case raid_waiting_slot name rb of
          None \<Rightarrow> w
        | Some slot \<Rightarrow> snd (raid_bdev_configure_base_bdev env rb slot w))"

definition raid_bdev_examine :: "raid_env \<Rightarrow> string \<Rightarrow> raid_world \<Rightarrow> raid_world" where
  "raid_bdev_examine env name w = examine_loop env name (g_raid_bdev_list w) w"

subsection \<open>Removal of a base bdev\<close>

text \<open>\<open>raid_bdev_find_base_info_by_bdev\<close>: the raid bdev and the slot that hold the bdev open.\<close>

definition raid_slot_of_bdev :: "string \<Rightarrow> raid_bdev \<Rightarrow> nat option" where
  "raid_slot_of_bdev bdev rb =
     List.find (\<lambda>slot. bi_desc (base_bdev_info rb ! slot) = Some bdev)
       [0..<length (base_bdev_info rb)]"

fun raid_bdev_find_base_info_by_bdev :: "string \<Rightarrow> raid_bdev list \<Rightarrow> (raid_bdev \<times> nat) option" where
  "raid_bdev_find_base_info_by_bdev bdev [] = None"
| "raid_bdev_find_base_info_by_bdev bdev (rb # rbs) =
     (case raid_slot_of_bdev bdev rb of
        Some slot \<Rightarrow> Some (rb, slot)
      | None \<Rightarrow> raid_bdev_find_base_info_by_bdev bdev rbs)"

definition raid_bdev_deconfigure :: "raid_bdev \<Rightarrow> nat option \<Rightarrow> raid_world \<Rightarrow> raid_world" where
  "raid_bdev_deconfigure rb cb w =
     (if rb_state rb \<noteq> RAID_BDEV_STATE_ONLINE then raid_callback cb 0 w
      else w_defer (PendUnregister (rb_name rb) cb)
             (w_update (rb\<lparr>rb_state := RAID_BDEV_STATE_OFFLINE\<rparr>) w))"

definition raid_bdev_remove_base_bdev ::
  "raid_env \<Rightarrow> string \<Rightarrow> nat option \<Rightarrow> raid_world \<Rightarrow> int \<times> raid_world" where
  "raid_bdev_remove_base_bdev env bdev cb w =
     (case raid_bdev_find_base_info_by_bdev bdev (g_raid_bdev_list w) of
        None \<Rightarrow> (- ENODEV, w)
      | Some (rb, slot) \<Rightarrow>
          if remove_scheduled (base_bdev_info rb ! slot) then (0, w)
          else
            (let rb = update_info slot
                        (\<lambda>info. info\<lparr>remove_scheduled := True, remove_cb := cb\<rparr>) rb
             in if rb_state rb \<noteq> RAID_BDEV_STATE_ONLINE
                then
                  (let (rb, es) = raid_bdev_free_base_bdev_resource slot rb;
                       w = w_emit es (w_update rb w)
                   in (0, if num_base_bdevs_discovered rb = 0
                          then raid_bdev_cleanup_and_free (rb_name rb) w else w))
                else if num_base_bdevs_discovered rb = min_base_bdevs_operational rb
                then (0, raid_bdev_deconfigure rb cb (w_update rb w))
                else if env_quiesce_rc env (rb_name rb) \<noteq> 0
                then (0, w_update (update_info slot (\<lambda>info. info\<lparr>remove_scheduled := False\<rparr>) rb) w)
                else (0, w_defer (PendQuiesce (rb_name rb) slot) (w_update rb w))))"

text \<open>The callbacks of quiesce, of the walk over the channels and of unquiesce.\<close>

definition raid_bdev_remove_base_bdev_on_quiesced ::
  "raid_bdev \<Rightarrow> nat \<Rightarrow> int \<Rightarrow> raid_world \<Rightarrow> raid_world" where
  "raid_bdev_remove_base_bdev_on_quiesced rb slot status w =
     (if status \<noteq> 0
      then raid_callback (remove_cb (base_bdev_info rb ! slot)) status
             (w_update (update_info slot (\<lambda>info. info\<lparr>remove_scheduled := False\<rparr>) rb) w)
      else w_defer (PendChannels (rb_name rb) slot) w)"

text \<open>What the walk does to one channel; the second part is the base channel given back.\<close>

definition raid_bdev_channel_remove_base_bdev ::
  "nat \<Rightarrow> raid_bdev_io_channel \<Rightarrow> raid_bdev_io_channel \<times> nat list" where
  "raid_bdev_channel_remove_base_bdev slot ch =
     (case base_channel ch ! slot of
        None \<Rightarrow> (ch, [])
      | Some c \<Rightarrow> (ch\<lparr>base_channel := (base_channel ch)[slot := None]\<rparr>, [c]))"

definition raid_bdev_channels_remove_base_bdev_done ::
  "raid_bdev \<Rightarrow> nat \<Rightarrow> raid_world \<Rightarrow> raid_world" where
  "raid_bdev_channels_remove_base_bdev_done rb slot w =
     w_defer (PendUnquiesce (rb_name rb) slot) w"

definition raid_bdev_remove_base_bdev_on_unquiesced ::
  "raid_bdev \<Rightarrow> nat \<Rightarrow> int \<Rightarrow> raid_world \<Rightarrow> raid_world" where
  "raid_bdev_remove_base_bdev_on_unquiesced rb slot status w =
     (let cb = remove_cb (base_bdev_info rb ! slot);
          rb = update_info slot (\<lambda>info. info\<lparr>remove_scheduled := False\<rparr>) rb
      in if status \<noteq> 0 then raid_callback cb status (w_update rb w)
         else
           (let (rb, es) = raid_bdev_free_base_bdev_resource slot rb
            in raid_callback cb status (w_emit es (w_update rb w))))"

subsection \<open>Resize and events\<close>

definition raid_bdev_resize_base_bdev :: "string \<Rightarrow> raid_world \<Rightarrow> raid_world" where
  "raid_bdev_resize_base_bdev bdev w =
     (case raid_bdev_find_base_info_by_bdev bdev (g_raid_bdev_list w) of
        None \<Rightarrow> w
      | Some (rb, slot) \<Rightarrow>
          (case Option.bind (rb_module_of w rb) mod_resize of
             None \<Rightarrow> w
           | Some resize \<Rightarrow> w_update (resize rb) w))"

definition raid_bdev_event_base_bdev ::
  "raid_env \<Rightarrow> bdev_event \<Rightarrow> string \<Rightarrow> raid_world \<Rightarrow> raid_world" where
  "raid_bdev_event_base_bdev env ev bdev w =
     (case ev of
        SPDK_BDEV_EVENT_REMOVE \<Rightarrow> snd (raid_bdev_remove_base_bdev env bdev None w)
      | SPDK_BDEV_EVENT_RESIZE \<Rightarrow> raid_bdev_resize_base_bdev bdev w
      | SPDK_BDEV_EVENT_OTHER t \<Rightarrow> w)"

subsection \<open>Deletion and shutdown\<close>

text \<open>The loop of the deletion: every slot is scheduled, and released at once unless online.\<close>

fun delete_loop :: "nat list \<Rightarrow> raid_bdev \<Rightarrow> raid_bdev \<times> raid_log list" where
  "delete_loop [] rb = (rb, [])"
| "delete_loop (slot # slots) rb =
     (let rb = update_info slot (\<lambda>info. info\<lparr>remove_scheduled := True\<rparr>) rb;
          (rb, es) = (if rb_state rb \<noteq> RAID_BDEV_STATE_ONLINE
                      then raid_bdev_free_base_bdev_resource slot rb else (rb, []));
          (rb, es') = delete_loop slots rb
      in (rb, es @ es'))"

definition raid_bdev_delete :: "raid_bdev \<Rightarrow> nat option \<Rightarrow> raid_world \<Rightarrow> raid_world" where
  "raid_bdev_delete rb cb w =
     (if destroy_started rb then raid_callback cb (- EALREADY) w
      else
        (let rb = rb\<lparr>destroy_started := True\<rparr>;
             (rb, es) = delete_loop [0..<length (base_bdev_info rb)] rb;
             w = w_emit es (w_update rb w)
         in if num_base_bdevs_discovered rb = 0
            then raid_callback cb 0 (raid_bdev_cleanup_and_free (rb_name rb) w)
            else raid_bdev_deconfigure rb cb w))"

definition raid_bdev_fini_start :: "raid_world \<Rightarrow> raid_world" where
  "raid_bdev_fini_start w = w\<lparr>g_shutdown_started := True\<rparr>"

definition raid_bdev_exit :: "raid_world \<Rightarrow> raid_world" where
  "raid_bdev_exit w =
     fold (\<lambda>rb. raid_bdev_cleanup_and_free (rb_name rb)) (g_raid_bdev_list w) w"

end
