(* ===== verification/Raid_Striping.thy ===== *)
theory Raid_Striping
  imports Raid_Prelude
begin

text \<open>
  Round-robin striping over natural numbers, the abstract specification of the raid0 module:
  \<open>raid0_map\<close> is the base bdev and the block on it that hold a logical block, \<open>raid0_unmap\<close> its
  inverse, and \<open>raid0_disk_blocks\<close> the blocks of one base bdev that a logical range touches.
  The lemmas at the end compute such a set as one contiguous range.
\<close>

text \<open>Strips of \<open>s\<close> blocks go round robin over \<open>n\<close> base bdevs.\<close>

definition raid0_map :: "nat \<Rightarrow> nat \<Rightarrow> nat \<Rightarrow> nat \<times> nat" where
  "raid0_map s n x = ((x div s) mod n, (x div s) div n * s + x mod s)"

definition raid0_unmap :: "nat \<Rightarrow> nat \<Rightarrow> nat \<times> nat \<Rightarrow> nat" where
  "raid0_unmap s n p = ((snd p div s) * n + fst p) * s + snd p mod s"

text \<open>The blocks of base bdev \<open>d\<close> that the logical blocks from \<open>a\<close> to \<open>b\<close> touch.\<close>

definition raid0_disk_blocks :: "nat \<Rightarrow> nat \<Rightarrow> nat \<Rightarrow> nat \<Rightarrow> nat \<Rightarrow> nat set" where
  "raid0_disk_blocks s n a b d = {l. \<exists>x. a \<le> x \<and> x \<le> b \<and> raid0_map s n x = (d, l)}"

subsection \<open>Positions in row-major order\<close>

lemma lex_less:
  fixes q r q' r' s :: nat
  assumes "r < s" "q < q'"
  shows "q * s + r < q' * s + r'"
proof -
  have "q * s + r < Suc q * s" using assms(1) by simp
  also have "Suc q * s \<le> q' * s" using assms(2) by (intro mult_le_mono1) simp
  finally show ?thesis by simp
qed

lemma lex_le:
  fixes q r q' r' s :: nat
  assumes "r < s" "r' < s"
  shows "q * s + r \<le> q' * s + r' \<longleftrightarrow> q < q' \<or> q = q' \<and> r \<le> r'"
  using lex_less[of r s q q' r'] lex_less[of r' s q' q r] assms
  by (cases q q' rule: linorder_cases) auto

lemma two_level_le:
  fixes A M R q d r n s :: nat
  assumes "M < n" "d < n" "R < s" "r < s"
  shows "(A * n + M) * s + R \<le> (q * n + d) * s + r \<longleftrightarrow>
    A < q \<or> A = q \<and> (M < d \<or> M = d \<and> R \<le> r)"
proof -
  have "A * n + M < q * n + d \<longleftrightarrow> A < q \<or> A = q \<and> M < d"
    using lex_le[OF assms(2,1), of q A] by (auto simp: not_le [symmetric])
  moreover have "A * n + M = q * n + d \<longleftrightarrow> A = q \<and> M = d"
    using lex_le[OF assms(2,1), of q A] lex_le[OF assms(1,2), of A q] by auto
  ultimately show ?thesis
    using lex_le[OF assms(3,4), of "A * n + M" "q * n + d"] by auto
qed

lemma two_level_split:
  fixes x s n :: nat
  shows "x = (x div s div n * n + x div s mod n) * s + x mod s"
  by simp

lemma range_lower:
  fixes a s n d l :: nat
  assumes s: "0 < s" and d: "d < n"
    and lo: "lo = a div s div n + (if d < a div s mod n then 1 else 0)"
    and so: "so = (if d = a div s mod n then a mod s else 0)"
  shows "a \<le> (l div s * n + d) * s + l mod s \<longleftrightarrow> lo * s + so \<le> l"
proof -
  have "a \<le> (l div s * n + d) * s + l mod s \<longleftrightarrow>
      a div s div n < l div s \<or> a div s div n = l div s \<and>
        (a div s mod n < d \<or> a div s mod n = d \<and> a mod s \<le> l mod s)"
    using two_level_le[of "a div s mod n" n d "a mod s" s "l mod s" "a div s div n" "l div s"] s d
    by (simp flip: two_level_split)
  moreover have "lo * s + so \<le> l \<longleftrightarrow> lo < l div s \<or> lo = l div s \<and> so \<le> l mod s"
    using lex_le[of so s "l mod s" lo "l div s"] s so by simp
  ultimately show ?thesis
    using lo so by (auto split: if_splits)
qed

lemma range_upper:
  fixes b s n d l :: nat
  assumes s: "0 < s" and d: "d < n"
    and hi: "hi = b div s div n - (if b div s mod n < d then 1 else 0)"
    and pos: "b div s mod n < d \<Longrightarrow> 0 < b div s div n"
    and eo: "eo = (if d = b div s mod n then b mod s else s - 1)"
  shows "(l div s * n + d) * s + l mod s \<le> b \<longleftrightarrow> l \<le> hi * s + eo"
proof -
  have r: "l mod s \<le> s - 1" using s by (metis Suc_pred' less_Suc_eq_le mod_less_divisor)
  have "(l div s * n + d) * s + l mod s \<le> b \<longleftrightarrow>
      l div s < b div s div n \<or> l div s = b div s div n \<and>
        (d < b div s mod n \<or> d = b div s mod n \<and> l mod s \<le> b mod s)"
    using two_level_le[of d n "b div s mod n" "l mod s" s "b mod s" "l div s" "b div s div n"] s d
    by (simp flip: two_level_split)
  moreover have "l \<le> hi * s + eo \<longleftrightarrow> l div s < hi \<or> l div s = hi \<and> l mod s \<le> eo"
    using lex_le[of "l mod s" s eo "l div s" hi] s eo by simp
  ultimately show ?thesis
    using hi eo pos r by (auto split: if_splits)
qed

subsection \<open>The map\<close>

lemma raid0_unmap_map: "0 < s \<Longrightarrow> raid0_unmap s n (raid0_map s n x) = x"
  by (simp add: raid0_unmap_def raid0_map_def)

lemma raid0_map_unmap: "0 < s \<Longrightarrow> d < n \<Longrightarrow> raid0_map s n (raid0_unmap s n (d, l)) = (d, l)"
  by (simp add: raid0_unmap_def raid0_map_def)

lemma raid0_map_iff:
  assumes "0 < s" "d < n"
  shows "raid0_map s n x = (d, l) \<longleftrightarrow> x = (l div s * n + d) * s + l mod s"
  using assms raid0_unmap_map[of s n x] raid0_map_unmap[of s d n l]
  by (auto simp: raid0_unmap_def)

lemma raid0_map_fst: "0 < n \<Longrightarrow> fst (raid0_map s n x) < n"
  by (simp add: raid0_map_def)

lemma raid0_map_snd:
  assumes "0 < s" "0 < n" "x < n * (k * s)"
  shows "snd (raid0_map s n x) < k * s"
proof -
  have "x < (n * k) * s" using assms(3) by (simp add: mult.assoc)
  then have "x div s < n * k" by (rule less_mult_imp_div_less)
  then have "x div s < k * n" by (simp add: mult.commute)
  then have "(x div s) div n < k" by (rule less_mult_imp_div_less)
  then have "(x div s) div n * s + x mod s < k * s + 0"
    using assms(1) by (intro lex_less) simp_all
  then show ?thesis by (simp add: raid0_map_def)
qed

lemma raid0_unmap_less:
  assumes "0 < s" "d < n" "l < k * s"
  shows "raid0_unmap s n (d, l) < n * (k * s)"
proof -
  have "l div s < k" using assms(3) by (rule less_mult_imp_div_less)
  then have "l div s * n + d < k * n + 0" by (intro lex_less assms(2))
  then have "(l div s * n + d) * s + l mod s < k * n * s + 0"
    using assms(1) by (intro lex_less) simp_all
  then show ?thesis by (simp add: raid0_unmap_def ac_simps)
qed

text \<open>Blocks of one strip, and all blocks when there is one base bdev, are consecutive below.\<close>

lemma raid0_map_one: "raid0_map s 1 x = (0, x)"
  by (simp add: raid0_map_def)

lemma raid0_map_consecutive:
  assumes s: "0 < s" and one: "n = 1 \<or> x div s = (x + m) div s" and k: "k \<le> m"
  shows "raid0_map s n (x + k) = (fst (raid0_map s n x), snd (raid0_map s n x) + k)"
proof (cases "n = 1")
  case True
  then show ?thesis by (simp add: raid0_map_one [unfolded One_nat_def])
next
  case False
  have "x div s \<le> (x + k) div s" "(x + k) div s \<le> (x + m) div s"
    using k by (simp_all add: div_le_mono)
  then have eq: "(x + k) div s = x div s" using one False by simp
  have "x div s * s + (x + k) mod s = x div s * s + x mod s + k"
    using div_mult_mod_eq[of "x + k" s] div_mult_mod_eq[of x s] eq by simp
  then have "(x + k) mod s = x mod s + k" by linarith
  then show ?thesis using eq by (simp add: raid0_map_def)
qed

subsection \<open>The blocks of one base bdev in a logical range\<close>

lemma disk_range:
  fixes a b s n d t :: nat
  assumes s: "0 < s" and d: "d < n" and ab: "a \<le> b"
    and t: "a div s \<le> t" "t \<le> b div s" "t mod n = d"
    and lo: "lo = a div s div n + (if d < a div s mod n then 1 else 0)"
    and so: "so = (if d = a div s mod n then a mod s else 0)"
    and hi: "hi = b div s div n - (if b div s mod n < d then 1 else 0)"
    and eo: "eo = (if d = b div s mod n then b mod s else s - 1)"
  shows "raid0_disk_blocks s n a b d = {lo * s + so..hi * s + eo}"
    and "lo \<le> hi" and "lo = hi \<Longrightarrow> so \<le> eo" and "hi * s + eo \<le> b"
    and "b div s mod n < d \<Longrightarrow> 0 < b div s div n" and "so < s" and "eo < s"
proof -
  have n: "0 < n" using d by simp
  have tq: "t = t div n * n + d" using t(3) by (metis div_mult_mod_eq)
  have up: "t div n < b div s div n \<or> t div n = b div s div n \<and> d \<le> b div s mod n"
    using lex_le[of d n "b div s mod n" "t div n" "b div s div n"] tq t(2) d n by simp
  have dn: "a div s div n < t div n \<or> a div s div n = t div n \<and> a div s mod n \<le> d"
    using lex_le[of "a div s mod n" n d "a div s div n" "t div n"] tq t(1) d n by simp
  show pos: "0 < b div s div n" if "b div s mod n < d"
    using up that by auto
  show "so < s" "eo < s" using s so eo by auto
  show lohi: "lo \<le> hi" using up dn lo hi by (auto split: if_splits)
  show "so \<le> eo" if "lo = hi"
  proof (cases "d = a div s mod n \<and> d = b div s mod n")
    case True
    then have "a div s div n = b div s div n" using that lo hi by simp
    then have "a div s = b div s" using True by (metis div_mult_mod_eq)
    then have "a mod s \<le> b mod s" using ab
      by (metis add_le_cancel_left div_mult_mod_eq)
    then show ?thesis using True so eo by simp
  next
    case False
    have "a mod s < s" using s by simp
    then show ?thesis using False so eo by auto
  qed
  show "raid0_disk_blocks s n a b d = {lo * s + so..hi * s + eo}"
    using range_lower[OF s d lo so] range_upper[OF s d hi pos eo]
    by (auto simp: raid0_disk_blocks_def raid0_map_iff[OF s d])
  have "((hi * s + eo) div s * n + d) * s + (hi * s + eo) mod s \<le> b"
    using range_upper[OF s d hi pos eo, of "hi * s + eo"] by simp
  then have "(hi * n + d) * s + eo \<le> b"
    using \<open>eo < s\<close> s by simp
  moreover have "hi * s + eo \<le> (hi * n + d) * s + eo"
    using n by (intro add_le_mono1 mult_le_mono1) (simp add: trans_le_add1)
  ultimately show "hi * s + eo \<le> b" by (rule order_trans[rotated])
qed

text \<open>A base bdev that holds none of the strips of the range has no block in it.\<close>

lemma disk_range_involved:
  fixes a b s n d l :: nat
  assumes "0 < s" "l \<in> raid0_disk_blocks s n a b d"
  shows "\<exists>t. a div s \<le> t \<and> t \<le> b div s \<and> t mod n = d"
proof -
  obtain x where "a \<le> x" "x \<le> b" "x div s mod n = d"
    using assms by (auto simp: raid0_disk_blocks_def raid0_map_def)
  then show ?thesis by (intro exI[of _ "x div s"]) (simp add: div_le_mono)
qed

text \<open>
  The base bdevs involved, in the order of the loop: the \<open>i\<close>-th from the first strip on, for
  \<open>i\<close> below the number of strips and the number of base bdevs.
\<close>

lemma involved_iff:
  fixes S E n d :: nat
  assumes n: "0 < n" and SE: "S \<le> E"
  shows "(\<exists>t. S \<le> t \<and> t \<le> E \<and> t mod n = d) \<longleftrightarrow>
    (\<exists>i < min (E - S + 1) n. (S mod n + i) mod n = d)"
proof
  assume "\<exists>t. S \<le> t \<and> t \<le> E \<and> t mod n = d"
  then obtain t where t: "S \<le> t" "t \<le> E" "t mod n = d" by blast
  let ?i = "(t - S) mod n"
  have "(S mod n + ?i) mod n = (S + (t - S)) mod n" by (simp add: mod_simps)
  then have "(S mod n + ?i) mod n = d" using t by simp
  moreover have "?i < n" using n by simp
  moreover have "?i < E - S + 1"
    using mod_less_eq_dividend[of "t - S" n] t by linarith
  ultimately show "\<exists>i < min (E - S + 1) n. (S mod n + i) mod n = d" by auto
next
  assume "\<exists>i < min (E - S + 1) n. (S mod n + i) mod n = d"
  then obtain i where i: "i < E - S + 1" "(S mod n + i) mod n = d" by auto
  then have "(S + i) mod n = d" by (simp add: mod_simps)
  moreover have "S + i \<le> E" using i SE by linarith
  ultimately show "\<exists>t. S \<le> t \<and> t \<le> E \<and> t mod n = d"
    by (intro exI[of _ "S + i"]) simp
qed

lemma involved_distinct:
  fixes M n :: nat
  assumes "0 < n"
  shows "inj_on (\<lambda>i. (M + i) mod n) {..<n}"
proof (rule inj_onI)
  fix i j assume i: "i \<in> {..<n}" and j: "j \<in> {..<n}" and eq: "(M + i) mod n = (M + j) mod n"
  have le: "a = b" if "a \<le> b" "b < n" "(M + a) mod n = (M + b) mod n" for a b
  proof -
    have "n dvd (M + b) - (M + a)"
      using mod_eq_dvd_iff_nat[of "M + a" "M + b" n] that by simp
    then have "n dvd b - a" by simp
    then show "a = b" using that by (auto dest: dvd_imp_le)
  qed
  show "i = j"
  proof (cases "i \<le> j")
    case True
    show ?thesis by (rule le[OF True _ eq]) (use j in simp)
  next
    case False
    then have "j \<le> i" by simp
    then have "j = i" by (rule le[OF _ _ eq [symmetric]]) (use i in simp)
    then show ?thesis by (rule sym)
  qed
qed

end
