(* ===== verification/Raid0_Level.thy ===== *)
theory Raid0_Level
  imports Raid_Batch Raid_Striping
begin

text \<open>
  The striping module \<open>raid/raid0.c\<close>: read and write requests go to the one base bdev that holds
  the strip, UNMAP and FLUSH requests are split into one range per base bdev, \<open>raid0_start\<close> and
  \<open>raid0_resize\<close> set the sizes. The abstract specification is \<open>raid0_map\<close>, the address of a
  logical block; the lemmas show that the code's shifts, masks and per-disk ranges compute it.
\<close>

subsection \<open>Read and write\<close>

definition raid0_bdev_io_completion :: "bool \<Rightarrow> raid_io \<Rightarrow> raid_io" where
  "raid0_bdev_io_completion success rio =
     (if success then raid_bdev_io_complete STATUS_SUCCESS rio
      else raid_bdev_io_complete STATUS_FAILED rio)"

definition raid0_submit_rw_request ::
  "(base_io \<Rightarrow> int) \<Rightarrow> raid_bdev \<Rightarrow> raid_bdev_io_channel \<Rightarrow> bdev_io \<Rightarrow> raid_io \<Rightarrow> raid_io" where
  "raid0_submit_rw_request rc rb ch bio rio =
     (let start_strip = drop_bit (unat (strip_size_shift rb)) (offset_blocks bio);
          end_strip = drop_bit (unat (strip_size_shift rb))
                        (offset_blocks bio + num_blocks bio - 1)
      in if start_strip \<noteq> end_strip \<and> num_base_bdevs rb > 1
         then raid_bdev_io_complete STATUS_FAILED rio
         else
           (let pd_strip = start_strip div ucast (num_base_bdevs rb);
                pd_idx = ucast (start_strip mod ucast (num_base_bdevs rb)) :: u8;
                offset_in_strip =
                  ucast (offset_blocks bio AND ucast (strip_size rb - 1)) :: u32;
                pd_lba = push_bit (unat (strip_size_shift rb)) pd_strip + ucast offset_in_strip;
                pd_blocks = num_blocks bio;
                slot = unat pd_idx;
                base_ch = base_channel ch ! slot;
                (ret, rio) =
                  (case bdev_io_type bio of
                     IO_READ \<Rightarrow>
                       bdev_submit rc
                         (raid_bdev_readv_blocks_ext rb slot base_ch (iovs bio) (md_buf bio)
                            pd_lba pd_blocks) rio
                   | IO_WRITE \<Rightarrow>
                       bdev_submit rc
                         (raid_bdev_writev_blocks_ext rb slot base_ch (iovs bio) (md_buf bio)
                            pd_lba pd_blocks) rio
                   | _ \<Rightarrow> (0, rio))
            in if ret = - ENOMEM then raid_bdev_queue_io_wait slot rio
               else if ret \<noteq> 0 then raid_bdev_io_complete STATUS_FAILED rio
               else rio))"

subsection \<open>Ranges without payload\<close>

record raid_bdev_io_range =
  io_strip_size :: u64
  start_strip_in_disk :: u64
  end_strip_in_disk :: u64
  start_offset_in_strip :: u64
  end_offset_in_strip :: u64
  start_disk :: u8
  end_disk :: u8
  n_disks_involved :: u8

definition raid0_get_io_range ::
  "u8 \<Rightarrow> u64 \<Rightarrow> u64 \<Rightarrow> u64 \<Rightarrow> u64 \<Rightarrow> raid_bdev_io_range" where
  "raid0_get_io_range n_bdevs ssize shift offset nblocks =
     (let total_blocks = offset + nblocks - (if nblocks > 0 then 1 else 0);
          start_strip = drop_bit (unat shift) offset;
          end_strip = drop_bit (unat shift) total_blocks
      in \<lparr>io_strip_size = ssize,
          start_strip_in_disk = start_strip div ucast n_bdevs,
          end_strip_in_disk = end_strip div ucast n_bdevs,
          start_offset_in_strip = offset mod ssize,
          end_offset_in_strip = total_blocks mod ssize,
          start_disk = ucast (start_strip mod ucast n_bdevs),
          end_disk = ucast (end_strip mod ucast n_bdevs),
          n_disks_involved = ucast (min (end_strip - start_strip + 1) (ucast n_bdevs))\<rparr>)"

text \<open>The result is the pair of the two out parameters, offset and number of blocks.\<close>

definition raid0_split_io_range :: "raid_bdev_io_range \<Rightarrow> u8 \<Rightarrow> u64 \<times> u64" where
  "raid0_split_io_range r disk_idx =
     (let start_strip = (if disk_idx < start_disk r then start_strip_in_disk r + 1
                         else start_strip_in_disk r);
          end_strip = (if disk_idx > end_disk r then end_strip_in_disk r - 1
                       else end_strip_in_disk r);
          n_strips_in_disk = end_strip - start_strip + 1;
          start_offset_in_disk = (if disk_idx = start_disk r then start_offset_in_strip r else 0);
          end_offset_in_disk = (if disk_idx = end_disk r then end_offset_in_strip r
                                else io_strip_size r - 1);
          offset_in_disk = start_offset_in_disk + start_strip * io_strip_size r;
          nblocks_in_disk = (n_strips_in_disk - 1) * io_strip_size r
                            + end_offset_in_disk - start_offset_in_disk + 1
      in (offset_in_disk, nblocks_in_disk))"

definition raid0_base_io_complete :: "bool \<Rightarrow> raid_io \<Rightarrow> raid_io" where
  "raid0_base_io_complete success rio =
     snd (raid_bdev_io_complete_part 1 (status_of success) rio)"

text \<open>\<open>start_disk + base_bdev_io_submitted\<close> is C \<open>int\<close> arithmetic on two bytes.\<close>

definition raid0_disk_idx :: "raid_bdev \<Rightarrow> raid_bdev_io_range \<Rightarrow> u8 \<Rightarrow> u8" where
  "raid0_disk_idx rb r submitted =
     ucast ((ucast (start_disk r) + ucast submitted :: u32) mod ucast (num_base_bdevs rb))"

text \<open>One base I/O of the loop; \<open>None\<close> is the invalid type, whose return code is \<open>-EIO\<close>.\<close>

definition raid0_null_payload_io ::
  "raid_bdev \<Rightarrow> raid_bdev_io_channel \<Rightarrow> bdev_io \<Rightarrow> raid_bdev_io_range \<Rightarrow> u8 \<Rightarrow> base_io option" where
  "raid0_null_payload_io rb ch bio r disk_idx =
     (let slot = unat disk_idx;
          base_ch = base_channel ch ! slot;
          (offset_in_disk, nblocks_in_disk) = raid0_split_io_range r disk_idx
      in case bdev_io_type bio of
           IO_UNMAP \<Rightarrow> Some (raid_bdev_unmap_blocks rb slot base_ch offset_in_disk nblocks_in_disk)
         | IO_FLUSH \<Rightarrow> Some (raid_bdev_flush_blocks rb slot base_ch offset_in_disk nblocks_in_disk)
         | _ \<Rightarrow> None)"

function raid0_null_payload_loop ::
  "(base_io \<Rightarrow> int) \<Rightarrow> raid_bdev \<Rightarrow> raid_bdev_io_channel \<Rightarrow> bdev_io \<Rightarrow> raid_bdev_io_range
     \<Rightarrow> raid_io \<Rightarrow> raid_io" where
  "raid0_null_payload_loop rc rb ch bio r rio =
     (if base_bdev_io_submitted rio < n_disks_involved r
      then
        (let disk_idx = raid0_disk_idx rb r (base_bdev_io_submitted rio);
             (ret, rio') =
               (case raid0_null_payload_io rb ch bio r disk_idx of
                  Some b \<Rightarrow> bdev_submit rc b rio
                | None \<Rightarrow> (- EIO, rio))
         in if ret = 0
            then raid0_null_payload_loop rc rb ch bio r
                   (rio'\<lparr>base_bdev_io_submitted := base_bdev_io_submitted rio + 1\<rparr>)
            else if ret = - ENOMEM then raid_bdev_queue_io_wait (unat disk_idx) rio'
            else raid_bdev_io_complete STATUS_FAILED rio')
      else rio)"
  by pat_completeness auto
termination
  by (relation "measure (\<lambda>(rc, rb, ch, bio, r, rio).
        unat (n_disks_involved r) - unat (base_bdev_io_submitted rio))")
     (auto simp: word_less_nat_alt unat_u8_Suc)

declare raid0_null_payload_loop.simps [simp del]

definition raid0_submit_null_payload_request ::
  "(base_io \<Rightarrow> int) \<Rightarrow> raid_bdev \<Rightarrow> raid_bdev_io_channel \<Rightarrow> bdev_io \<Rightarrow> raid_io \<Rightarrow> raid_io" where
  "raid0_submit_null_payload_request rc rb ch bio rio =
     (let io_range = raid0_get_io_range (num_base_bdevs rb) (ucast (strip_size rb))
                       (ucast (strip_size_shift rb)) (offset_blocks bio) (num_blocks bio);
          rio = (if base_bdev_io_remaining rio = 0
                 then rio\<lparr>base_bdev_io_remaining := ucast (n_disks_involved io_range)\<rparr> else rio)
      in raid0_null_payload_loop rc rb ch bio io_range rio)"

subsection \<open>Start and resize\<close>

definition raid0_start :: "raid_bdev \<Rightarrow> int \<times> raid_bdev" where
  "raid0_start rb =
     (let min_blockcnt = foldl (\<lambda>m info. min m (data_size info)) UINT64_MAX (base_bdev_info rb);
          shift = unat (strip_size_shift rb);
          base_bdev_data_size = push_bit shift (drop_bit shift min_blockcnt);
          rb = rb\<lparr>base_bdev_info :=
                     map (\<lambda>info. info\<lparr>data_size := base_bdev_data_size\<rparr>) (base_bdev_info rb)\<rparr>;
          rb = rb\<lparr>rb_blockcnt := base_bdev_data_size * ucast (num_base_bdevs rb)\<rparr>;
          rb = (if num_base_bdevs rb > 1
                then rb\<lparr>optimal_io_boundary := strip_size rb, split_on_optimal_io_boundary := True\<rparr>
                else rb\<lparr>optimal_io_boundary := 0, split_on_optimal_io_boundary := False\<rparr>)
      in (0, rb))"

text \<open>
  \<open>base_blockcnt\<close> gives the current size of the bdev behind a slot, and \<open>notify\<close> is the bdev
  layer's \<open>spdk_bdev_notify_blockcnt_change\<close>: its return code and the bdev afterwards.
\<close>

definition raid0_resize ::
  "(raid_base_bdev_info \<Rightarrow> u64) \<Rightarrow> (raid_bdev \<Rightarrow> u64 \<Rightarrow> int \<times> raid_bdev) \<Rightarrow> raid_bdev \<Rightarrow> raid_bdev" where
  "raid0_resize base_blockcnt notify rb =
     (let min_blockcnt =
            foldl (\<lambda>m info. min m (base_blockcnt info - data_offset info)) UINT64_MAX
              (base_bdev_info rb);
          shift = unat (strip_size_shift rb);
          base_bdev_data_size = push_bit shift (drop_bit shift min_blockcnt);
          blockcnt = base_bdev_data_size * ucast (num_base_bdevs rb)
      in if blockcnt = rb_blockcnt rb then rb
         else
           (let (rc, rb) = notify rb blockcnt
            in if rc \<noteq> 0 then rb
               else rb\<lparr>base_bdev_info :=
                         map (\<lambda>info. info\<lparr>data_size := base_bdev_data_size\<rparr>)
                           (base_bdev_info rb)\<rparr>))"

subsection \<open>What the module relies on\<close>

definition raid0_geometry :: "raid_bdev \<Rightarrow> bool" where
  "raid0_geometry rb \<longleftrightarrow>
     num_base_bdevs rb \<noteq> 0 \<and> unat (strip_size_shift rb) < 32 \<and>
     unat (strip_size rb) = 2 ^ unat (strip_size_shift rb)"

subsection \<open>The range of a request, as natural numbers\<close>

lemma io_range_fields:
  fixes nb :: u8 and ssize shift off num :: u64
  assumes n: "nb \<noteq> 0" and s: "unat ssize = 2 ^ unat shift" and num: "0 < unat num"
    and fit: "unat off + unat num < 2 ^ 64"
    and r: "r = raid0_get_io_range nb ssize shift off num"
    and b: "b = unat off + unat num - 1"
  shows "unat (io_strip_size r) = unat ssize"
    and "unat (start_strip_in_disk r) = unat off div unat ssize div unat nb"
    and "unat (end_strip_in_disk r) = b div unat ssize div unat nb"
    and "unat (start_offset_in_strip r) = unat off mod unat ssize"
    and "unat (end_offset_in_strip r) = b mod unat ssize"
    and "unat (start_disk r) = unat off div unat ssize mod unat nb"
    and "unat (end_disk r) = b div unat ssize mod unat nb"
    and "unat (n_disks_involved r) =
      min (b div unat ssize - unat off div unat ssize + 1) (unat nb)"
proof -
  have n0: "0 < unat nb" using n by (simp add: unat_gt_0)
  have nz: "num > 0" using num by (simp add: word_less_nat_alt)
  have sum: "unat (off + num) = unat off + unat num"
    using fit by (intro unat_plus_no_wrap) simp
  have tot: "unat (off + num - 1) = b"
    using num by (subst unat_minus_no_wrap) (simp_all add: sum b)
  have S: "unat (drop_bit (unat shift) off) = unat off div unat ssize"
    by (simp add: unat_drop_bit_div s)
  have E: "unat (drop_bit (unat shift) (off + num - 1)) = b div unat ssize"
    by (simp only: unat_drop_bit_div s tot)
  have mod_n: "x mod unat nb < 256" for x
    using less_trans[OF mod_less_divisor[OF n0] unat_u8_less] .
  show "unat (io_strip_size r) = unat ssize"
    "unat (start_strip_in_disk r) = unat off div unat ssize div unat nb"
    "unat (start_offset_in_strip r) = unat off mod unat ssize"
    by (simp_all add: r raid0_get_io_range_def Let_def unat_div_word unat_mod_word S)
  show "unat (end_strip_in_disk r) = b div unat ssize div unat nb"
    "unat (end_offset_in_strip r) = b mod unat ssize"
    using nz by (simp_all add: r raid0_get_io_range_def Let_def unat_div_word unat_mod_word E tot)
  show "unat (start_disk r) = unat off div unat ssize mod unat nb"
    by (simp add: r raid0_get_io_range_def Let_def unat_u8_of_u64 unat_mod_word S mod_n)
  show "unat (end_disk r) = b div unat ssize mod unat nb"
    using nz by (simp add: r raid0_get_io_range_def Let_def unat_u8_of_u64 unat_mod_word E mod_n)
  let ?d = "drop_bit (unat shift) (off + num - 1) - drop_bit (unat shift) off"
  have le: "unat off div unat ssize \<le> b div unat ssize"
    by (intro div_le_mono) (use num b in simp)
  have d: "unat ?d = b div unat ssize - unat off div unat ssize"
    by (subst unat_minus_no_wrap) (simp_all only: S E le)
  have "b div unat ssize \<le> b" by (rule div_le_dividend)
  moreover have "b + 1 < 2 ^ 64" using fit num b by simp
  ultimately have "b div unat ssize - unat off div unat ssize + 1 < 2 ^ 64" by linarith
  then have d1: "unat (?d + 1) = b div unat ssize - unat off div unat ssize + 1"
    by (subst unat_plus_no_wrap) (simp_all only: d unsigned_1 len64)
  have "unat (min (?d + 1) (ucast nb)) =
      min (b div unat ssize - unat off div unat ssize + 1) (unat nb)"
    by (simp only: unat_min d1 unat_u64_of_u8)
  moreover have "min (b div unat ssize - unat off div unat ssize + 1) (unat nb) < 256"
    by (rule le_less_trans[OF min.cobounded2 unat_u8_less])
  ultimately show "unat (n_disks_involved r) =
      min (b div unat ssize - unat off div unat ssize + 1) (unat nb)"
    using nz by (simp only: r raid0_get_io_range_def Let_def raid_bdev_io_range.simps if_True)
      (simp only: unat_u8_of_u64)
qed

text \<open>The range of one base bdev is the set of blocks that the abstract map gives it.\<close>

lemma raid0_split_io_range_exact:
  fixes nb :: u8 and ssize shift off num :: u64
  assumes n: "nb \<noteq> 0" and s: "unat ssize = 2 ^ unat shift" and num: "0 < unat num"
    and fit: "unat off + unat num < 2 ^ 64"
    and r: "r = raid0_get_io_range nb ssize shift off num"
    and t: "unat off div unat ssize \<le> t" "t \<le> (unat off + unat num - 1) div unat ssize"
      "t mod unat nb = unat d"
    and p: "raid0_split_io_range r d = (lba, len)"
  shows "raid0_disk_blocks (unat ssize) (unat nb) (unat off) (unat off + unat num - 1) (unat d) =
      {unat lba ..< unat lba + unat len}"
    and "0 < unat len" and "unat lba + unat len < 2 ^ 64"
proof -
  define a where "a = unat off"
  define b where "b = unat off + unat num - 1"
  define S where "S = unat ssize"
  define N where "N = unat nb"
  note f = io_range_fields[OF n s num fit r b_def, folded a_def S_def N_def]
  have N0: "0 < N" using n by (simp add: N_def unat_gt_0)
  have S0: "0 < S" using s by (simp add: S_def)
  have dN: "unat d < N" using t(3) N0 by (metis N_def mod_less_divisor)
  have ab: "a \<le> b" using num by (simp add: a_def b_def)
  have b64: "b + 1 < 2 ^ 64" using fit num by (simp add: b_def)
  define lo where "lo = a div S div N + (if unat d < a div S mod N then 1 else 0)"
  define so where "so = (if unat d = a div S mod N then a mod S else 0)"
  define hi where "hi = b div S div N - (if b div S mod N < unat d then 1 else 0)"
  define eo where "eo = (if unat d = b div S mod N then b mod S else S - 1)"
  note dr = disk_range[OF S0 dN ab t(1)[folded a_def S_def] t(2)[folded b_def S_def]
      t(3)[folded N_def] lo_def so_def hi_def eo_def]
  define ss where "ss = (if d < start_disk r then start_strip_in_disk r + 1 else start_strip_in_disk r)"
  define es where "es = (if d > end_disk r then end_strip_in_disk r - 1 else end_strip_in_disk r)"
  define sw where "sw = (if d = start_disk r then start_offset_in_strip r else 0)"
  define ew where "ew = (if d = end_disk r then end_offset_in_strip r else io_strip_size r - 1)"
  have hib: "hi \<le> b"
    using dr(4) S0 by (metis add_leD1 le_trans mult.commute mult_le_mono1 nat_mult_1 Suc_leI One_nat_def)
  have ss: "unat ss = lo"
    using hib dr(2) b64 f(2,6)
    by (auto simp: ss_def lo_def word_less_nat_alt unat_plus_no_wrap)
  have es: "unat es = hi"
    using dr(5) f(3,7) by (auto simp: es_def hi_def word_less_nat_alt unat_minus_no_wrap)
  have sw: "unat sw = so"
    using f(4,6) by (auto simp: sw_def so_def word_unat_eq_iff)
  have ew: "unat ew = eo"
    using f(1,5,7) S0 by (auto simp: ew_def eo_def word_unat_eq_iff unat_minus_no_wrap)
  have st: "unat (io_strip_size r) = S" using f(1) .
  have lt: "lo * S + so < hi * S + eo + 1"
    using lex_le[OF dr(6,7), of lo hi] dr(2,3) by auto
  have lba: "lba = sw + ss * io_strip_size r" and len: "len = (es - ss) * io_strip_size r + ew - sw + 1"
    using p by (simp_all add: raid0_split_io_range_def Let_def ss_def es_def sw_def ew_def)
  have ub: "hi * S + eo + 1 < 2 ^ 64" using dr(4) b64 by linarith
  have "lo * S \<le> hi * S" using dr(2) by (rule mult_le_mono1)
  then have sub: "(hi - lo) * S = hi * S - lo * S" and sub_le: "lo * S \<le> hi * S"
    by (simp_all add: diff_mult_distrib)
  have m1: "unat (ss * io_strip_size r) = lo * S"
    using ub lt by (subst unat_times_no_wrap; simp_all only: ss st len64; linarith)
  have u_lba: "unat lba = lo * S + so"
    unfolding lba using ub lt by (subst unat_plus_no_wrap; simp_all only: m1 sw len64; linarith)
  have hl: "unat (es - ss) = hi - lo"
    using dr(2) by (subst unat_minus_no_wrap) (simp_all only: ss es)
  have m2: "unat ((es - ss) * io_strip_size r) = hi * S - lo * S"
    using ub by (subst unat_times_no_wrap; simp_all only: hl st len64 sub; linarith)
  have m3: "unat ((es - ss) * io_strip_size r + ew) = hi * S - lo * S + eo"
    using ub by (subst unat_plus_no_wrap; simp_all only: m2 ew len64; linarith)
  have m4: "unat ((es - ss) * io_strip_size r + ew - sw) = hi * S - lo * S + eo - so"
    using lt sub_le by (subst unat_minus_no_wrap; simp_all only: m3 sw; linarith)
  have u_len: "unat len = hi * S - lo * S + eo - so + 1"
    unfolding len using ub by (subst unat_plus_no_wrap; simp_all only: m4 unsigned_1 len64; linarith)
  have e: "unat lba + unat len = hi * S + eo + 1"
    unfolding u_lba u_len using lt sub_le by linarith
  show "raid0_disk_blocks (unat ssize) (unat nb) (unat off) (unat off + unat num - 1) (unat d) =
      {unat lba ..< unat lba + unat len}"
    unfolding e using dr(1) unfolding u_lba
    by (simp add: a_def b_def S_def N_def atLeastLessThanSuc_atLeastAtMost)
  show "0 < unat len" by (simp add: u_len)
  show "unat lba + unat len < 2 ^ 64" using ub e by simp
qed

subsection \<open>Read and write requests follow the map\<close>

definition raid0_spans :: "raid_bdev \<Rightarrow> bdev_io \<Rightarrow> bool" where
  "raid0_spans rb bio \<longleftrightarrow>
     unat (num_base_bdevs rb) \<noteq> 1 \<and>
     unat (offset_blocks bio) div unat (strip_size rb) \<noteq>
       (unat (offset_blocks bio) + unat (num_blocks bio) - 1) div unat (strip_size rb)"

lemma raid0_strips:
  assumes g: "raid0_geometry rb" and num: "0 < unat (num_blocks bio)"
    and fit: "unat (offset_blocks bio) + unat (num_blocks bio) < 2 ^ 64"
  shows "drop_bit (unat (strip_size_shift rb)) (offset_blocks bio) \<noteq>
      drop_bit (unat (strip_size_shift rb)) (offset_blocks bio + num_blocks bio - 1) \<and>
      num_base_bdevs rb > 1 \<longleftrightarrow> raid0_spans rb bio"
proof -
  have sum: "unat (offset_blocks bio + num_blocks bio) = unat (offset_blocks bio) + unat (num_blocks bio)"
    using fit by (intro unat_plus_no_wrap) simp
  have last: "unat (offset_blocks bio + num_blocks bio - 1) =
      unat (offset_blocks bio) + unat (num_blocks bio) - 1"
    using num by (subst unat_minus_no_wrap) (simp_all add: sum)
  have n: "num_base_bdevs rb > 1 \<longleftrightarrow> unat (num_base_bdevs rb) \<noteq> 1"
    using g word_unat_eq_iff[of "num_base_bdevs rb" 1]
    by (simp add: u8_gt_one raid0_geometry_def)
  show ?thesis
    using g unfolding raid0_spans_def raid0_geometry_def n
    by (auto simp: word_unat_eq_iff unat_drop_bit_div last)
qed

lemma raid0_rw_address:
  fixes rb :: raid_bdev and off :: u64
  assumes g: "raid0_geometry rb"
  defines "strip \<equiv> drop_bit (unat (strip_size_shift rb)) off"
  shows "unat (ucast (strip mod ucast (num_base_bdevs rb)) :: u8) =
      fst (raid0_map (unat (strip_size rb)) (unat (num_base_bdevs rb)) (unat off))"
    and "unat (push_bit (unat (strip_size_shift rb)) (strip div ucast (num_base_bdevs rb)) +
        ucast (ucast (off AND ucast (strip_size rb - 1)) :: u32)) =
      snd (raid0_map (unat (strip_size rb)) (unat (num_base_bdevs rb)) (unat off))"
proof -
  define k where "k = unat (strip_size_shift rb)"
  have k: "k < 32" and s: "unat (strip_size rb) = 2 ^ k" and n: "0 < unat (num_base_bdevs rb)"
    using g by (simp_all add: raid0_geometry_def k_def unat_gt_0)
  have S: "unat strip = unat off div 2 ^ k" by (simp add: strip_def k_def unat_drop_bit_div)
  have "unat off div 2 ^ k mod unat (num_base_bdevs rb) < 256"
    using less_trans[OF mod_less_divisor[OF n] unat_u8_less] .
  then show "unat (ucast (strip mod ucast (num_base_bdevs rb)) :: u8) =
      fst (raid0_map (unat (strip_size rb)) (unat (num_base_bdevs rb)) (unat off))"
    by (simp add: unat_u8_of_u64 unat_mod_word S raid0_map_def s)
  have mask: "unat (ucast (strip_size rb - 1) :: u64) = mask k"
    using s by (simp add: unat_minus_no_wrap mask_eq_exp_minus_1)
  have o1: "unat (off AND ucast (strip_size rb - 1)) = unat off mod 2 ^ k"
    by (simp only: unsigned_and_eq mask) (simp only: take_bit_eq_mask [symmetric] take_bit_eq_mod)
  have "unat off mod 2 ^ k < 2 ^ k" by simp
  also have "(2 :: nat) ^ k \<le> 2 ^ 32" using k by (intro power_increasing) simp_all
  finally have o2: "unat (ucast (ucast (off AND ucast (strip_size rb - 1)) :: u32) :: u64) =
      unat off mod 2 ^ k"
    by (simp only: unat_u64_of_u32) (subst unat_u32_of_u64, simp_all only: o1)
  let ?q = "unat off div 2 ^ k div unat (num_base_bdevs rb)"
  have q: "unat (strip div ucast (num_base_bdevs rb)) = ?q" by (simp add: unat_div_word S)
  have "?q * 2 ^ k + unat off mod 2 ^ k \<le> unat off div 2 ^ k * 2 ^ k + unat off mod 2 ^ k"
    by (intro add_le_mono1 mult_le_mono1 div_le_dividend)
  also have "\<dots> = unat off" by (rule div_mult_mod_eq)
  also have "\<dots> < 2 ^ 64" using unsigned_less[of off] by simp
  finally have le: "?q * 2 ^ k + unat off mod 2 ^ k < 2 ^ 64" .
  have p: "unat (push_bit k (strip div ucast (num_base_bdevs rb))) = ?q * 2 ^ k"
    using le by (subst unat_push_bit_no_wrap; simp_all only: q len64; linarith)
  show "unat (push_bit (unat (strip_size_shift rb)) (strip div ucast (num_base_bdevs rb)) +
        ucast (ucast (off AND ucast (strip_size rb - 1)) :: u32)) =
      snd (raid0_map (unat (strip_size rb)) (unat (num_base_bdevs rb)) (unat off))"
    using le unfolding k_def [symmetric]
    by (subst unat_plus_no_wrap; simp only: p o2 len64 raid0_map_def s snd_conv)
qed

text \<open>C11: a read or write request that stays inside one strip (or goes to a raid bdev with one base
  bdev) becomes one base I/O whose blocks are exactly the images of the logical blocks under
  \<open>raid0_map\<close>, with the same buffers, the base bdev's descriptor and channel and its data offset
  added. If the layer below accepts it nothing else happens; if it is out of memory the request
  waits for that base bdev; any other error completes the request as failed.\<close>

theorem raid0_rw_follows_map:
  assumes g: "raid0_geometry rb" and ty: "bdev_io_type bio \<in> {IO_READ, IO_WRITE}"
    and num: "0 < unat (num_blocks bio)"
    and fit: "unat (offset_blocks bio) + unat (num_blocks bio) \<le> unat (rb_blockcnt rb)"
    and one: "\<not> raid0_spans rb bio"
  shows "\<exists>b. bio_type b = bdev_io_type bio \<and> bio_blocks b = num_blocks bio \<and>
      bio_iovs b = iovs bio \<and> bio_md b = md_buf bio \<and>
      bio_desc b = bi_desc (base_bdev_info rb ! bio_slot b) \<and>
      bio_ch b = base_channel ch ! bio_slot b \<and>
      (\<forall>k < unat (num_blocks bio).
        raid0_map (unat (strip_size rb)) (unat (num_base_bdevs rb)) (unat (offset_blocks bio) + k) =
          (bio_slot b,
           unat (bio_lba b - data_offset (base_bdev_info rb ! bio_slot b)) + k)) \<and>
      raid0_submit_rw_request rc rb ch bio rio =
        (if rc b = 0 then rio_emit (EvSubmit b) rio
         else if rc b = - ENOMEM then raid_bdev_queue_io_wait (bio_slot b) rio
         else raid_bdev_io_complete STATUS_FAILED rio)"
proof -
  let ?s = "unat (strip_size rb)" and ?n = "unat (num_base_bdevs rb)"
  let ?x = "unat (offset_blocks bio)" and ?m = "unat (num_blocks bio)"
  define strip where "strip = drop_bit (unat (strip_size_shift rb)) (offset_blocks bio)"
  define slot where "slot = unat (ucast (strip mod ucast (num_base_bdevs rb)) :: u8)"
  define lba where "lba = push_bit (unat (strip_size_shift rb)) (strip div ucast (num_base_bdevs rb)) +
        ucast (ucast (offset_blocks bio AND ucast (strip_size rb - 1)) :: u32)"
  define b where "b = (case bdev_io_type bio of
      IO_READ \<Rightarrow> raid_bdev_readv_blocks_ext rb slot (base_channel ch ! slot) (iovs bio) (md_buf bio)
                    lba (num_blocks bio)
    | _ \<Rightarrow> raid_bdev_writev_blocks_ext rb slot (base_channel ch ! slot) (iovs bio) (md_buf bio)
                    lba (num_blocks bio))"
  have fit64: "?x + ?m < 2 ^ 64"
    by (rule le_less_trans[OF fit]) (use unsigned_less[of "rb_blockcnt rb"] in simp)
  have no_span: "\<not> (drop_bit (unat (strip_size_shift rb)) (offset_blocks bio) \<noteq>
      drop_bit (unat (strip_size_shift rb)) (offset_blocks bio + num_blocks bio - 1) \<and>
      num_base_bdevs rb > 1)"
    using raid0_strips[OF g num fit64] one by blast
  have s: "0 < ?s" using g by (simp add: raid0_geometry_def)
  have addr: "raid0_map ?s ?n ?x = (slot, unat lba)"
    using raid0_rw_address[OF g, of "offset_blocks bio"]
    unfolding slot_def lba_def strip_def by (simp add: prod_eq_iff)
  have strip1: "?n = 1 \<or> ?x div ?s = (?x + (?m - 1)) div ?s"
    using one num by (auto simp: raid0_spans_def)
  have map: "raid0_map ?s ?n (?x + k) = (slot, unat lba + k)" if "k < ?m" for k
    using raid0_map_consecutive[OF s strip1, of k] that addr by simp
  have "raid0_submit_rw_request rc rb ch bio rio =
      (if rc b = 0 then rio_emit (EvSubmit b) rio
       else if rc b = - ENOMEM then raid_bdev_queue_io_wait (bio_slot b) rio
       else raid_bdev_io_complete STATUS_FAILED rio)"
    unfolding raid0_submit_rw_request_def Let_def if_not_P[OF no_span]
    unfolding strip_def[symmetric] slot_def[symmetric] lba_def[symmetric]
    using ty by (auto simp: b_def bdev_submit_def raid_bdev_readv_blocks_ext_def
        raid_bdev_writev_blocks_ext_def)
  moreover have "bio_slot b = slot" "bio_lba b = data_offset (base_bdev_info rb ! slot) + lba"
    "bio_type b = bdev_io_type bio" "bio_blocks b = num_blocks bio" "bio_iovs b = iovs bio"
    "bio_md b = md_buf bio" "bio_desc b = bi_desc (base_bdev_info rb ! slot)"
    "bio_ch b = base_channel ch ! slot"
    using ty by (auto simp: b_def raid_bdev_readv_blocks_ext_def raid_bdev_writev_blocks_ext_def)
  ultimately show ?thesis using map by (intro exI[of _ b]) simp
qed

text \<open>With more than one base bdev, a read or write request whose blocks lie in different strips
  is completed as failed and no base I/O is submitted.\<close>

theorem raid0_rw_spanning_fails:
  assumes g: "raid0_geometry rb" and num: "0 < unat (num_blocks bio)"
    and fit: "unat (offset_blocks bio) + unat (num_blocks bio) \<le> unat (rb_blockcnt rb)"
    and span: "raid0_spans rb bio"
  shows "raid0_submit_rw_request rc rb ch bio rio = raid_bdev_io_complete STATUS_FAILED rio"
proof -
  have fit64: "unat (offset_blocks bio) + unat (num_blocks bio) < 2 ^ 64"
    by (rule le_less_trans[OF fit]) (use unsigned_less[of "rb_blockcnt rb"] in simp)
  then show ?thesis
    using raid0_strips[OF g num fit64] span by (simp add: raid0_submit_rw_request_def Let_def)
qed

subsection \<open>Requests without payload keep the contract of a resumable batch\<close>

type_synonym raid0_request = "raid_bdev \<times> raid_bdev_io_channel \<times> bdev_io"

fun raid0_io_range_of :: "raid0_request \<Rightarrow> raid_bdev_io_range" where
  "raid0_io_range_of (rb, ch, bio) =
     raid0_get_io_range (num_base_bdevs rb) (ucast (strip_size rb))
       (ucast (strip_size_shift rb)) (offset_blocks bio) (num_blocks bio)"

fun raid0_null_ok :: "raid0_request \<Rightarrow> bool" where
  "raid0_null_ok (rb, ch, bio) \<longleftrightarrow>
     raid0_geometry rb \<and> bdev_io_type bio \<in> {IO_UNMAP, IO_FLUSH} \<and> 0 < unat (num_blocks bio) \<and>
     unat (offset_blocks bio) + unat (num_blocks bio) \<le> unat (rb_blockcnt rb)"

fun raid0_null_jobs :: "raid0_request \<Rightarrow> base_io option list" where
  "raid0_null_jobs (rb, ch, bio) =
     map (\<lambda>i. raid0_null_payload_io rb ch bio (raid0_io_range_of (rb, ch, bio))
                (raid0_disk_idx rb (raid0_io_range_of (rb, ch, bio)) (of_nat i)))
       [0..<unat (n_disks_involved (raid0_io_range_of (rb, ch, bio)))]"

fun raid0_null_run :: "raid0_request \<Rightarrow> (base_io \<Rightarrow> int) \<Rightarrow> raid_io \<Rightarrow> raid_io" where
  "raid0_null_run (rb, ch, bio) rc rio =
     raid0_null_payload_loop rc rb ch bio (raid0_io_range_of (rb, ch, bio)) rio"

fun raid0_null_handler :: "raid0_request \<Rightarrow> (base_io \<Rightarrow> int) \<Rightarrow> raid_io \<Rightarrow> raid_io" where
  "raid0_null_handler (rb, ch, bio) rc rio = raid0_submit_null_payload_request rc rb ch bio rio"

lemma raid0_null_handler_eq:
  "raid0_null_handler (rb, ch, bio) = (\<lambda>rc. raid0_submit_null_payload_request rc rb ch bio)"
  by (simp add: fun_eq_iff)

lemma raid0_null_range:
  assumes "raid0_null_ok (rb, ch, bio)"
  shows "num_base_bdevs rb \<noteq> 0"
    and "unat (ucast (strip_size rb) :: u64) = 2 ^ unat (ucast (strip_size_shift rb) :: u64)"
    and "0 < unat (num_blocks bio)"
    and "unat (offset_blocks bio) + unat (num_blocks bio) < 2 ^ 64"
  using assms le_less_trans[OF _ unsigned_less[of "rb_blockcnt rb"],
      of "unat (offset_blocks bio) + unat (num_blocks bio)"]
  by (auto simp: raid0_geometry_def)

lemma raid0_null_jobs_length [simp]:
  "length (raid0_null_jobs (rb, ch, bio)) = unat (n_disks_involved (raid0_io_range_of (rb, ch, bio)))"
  by simp

lemma raid0_null_jobs_nth [simp]:
  "k < unat (n_disks_involved (raid0_io_range_of (rb, ch, bio))) \<Longrightarrow>
   raid0_null_jobs (rb, ch, bio) ! k =
     raid0_null_payload_io rb ch bio (raid0_io_range_of (rb, ch, bio))
       (raid0_disk_idx rb (raid0_io_range_of (rb, ch, bio)) (of_nat k))"
  by (simp del: raid0_io_range_of.simps)

declare raid0_null_jobs.simps [simp del]

lemma raid0_null_payload_io_slot:
  "raid0_null_payload_io rb ch bio r d = Some b \<Longrightarrow> bio_slot b = unat d"
  by (auto simp: raid0_null_payload_io_def Let_def raid_bdev_unmap_blocks_def
      raid_bdev_flush_blocks_def split: prod.splits io_type.splits)

lemma raid0_null_payload_io_some:
  "raid0_null_ok (rb, ch, bio) \<Longrightarrow> raid0_null_payload_io rb ch bio r d \<noteq> None"
  by (auto simp: raid0_null_payload_io_def Let_def split: prod.splits)

lemma raid0_null_involved:
  assumes "raid0_null_ok (rb, ch, bio)"
  shows "unat (n_disks_involved (raid0_io_range_of (rb, ch, bio))) =
    min ((unat (offset_blocks bio) + unat (num_blocks bio) - 1) div unat (strip_size rb) -
         unat (offset_blocks bio) div unat (strip_size rb) + 1) (unat (num_base_bdevs rb))"
  using io_range_fields(8)[OF raid0_null_range[OF assms] refl refl] by simp

declare raid0_io_range_of.simps [simp del]

interpretation raid0_batch: resumable_batch raid0_null_ok raid0_null_run raid0_null_jobs
  "\<lambda>_. raid_bdev_io_complete STATUS_FAILED" raid0_null_handler raid0_base_io_complete
proof (unfold_locales, goal_cases)
  case (1 c)
  then show ?case
    by (cases c) (auto simp: raid0_null_involved raid0_geometry_def unat_gt_0
        intro: min.strict_coboundedI2)
next
  case (2 c rio rc)
  then show ?case
    by (cases c) (simp add: raid0_null_payload_loop.simps word_less_nat_alt)
next
  case (3 c rio rc)
  then show ?case
    by (cases c) (use raid0_null_payload_io_some in auto)
next
  case (4 c rio b rc)
  then show ?case
    by (cases c) (simp add: raid0_null_payload_loop.simps[where rio = rio] word_less_nat_alt
        bdev_submit_def)
next
  case (5 c rio b rc)
  then show ?case
    by (cases c) (auto simp: raid0_null_payload_loop.simps[where rio = rio] word_less_nat_alt
        bdev_submit_def dest: raid0_null_payload_io_slot)
next
  case (6 c rio b rc)
  then show ?case
    by (cases c) (simp add: raid0_null_payload_loop.simps[where rio = rio] word_less_nat_alt
        bdev_submit_def)
next
  case (7 c rio rc)
  then show ?case
    by (cases c) (simp add: raid0_submit_null_payload_request_def Let_def
        raid0_io_range_of.simps)
next
  case (8 c rio rc)
  then show ?case
    by (cases c) (simp add: raid0_submit_null_payload_request_def Let_def
        raid0_io_range_of.simps)
next
  case (9 success rio)
  then show ?case by (simp add: raid0_base_io_complete_def)
qed

text \<open>Whatever the order of out-of-memory retries and of completions, an UNMAP or FLUSH request
  is completed exactly once, after the last of its base I/Os, with failure exactly when one of them
  failed; until then it is not completed.\<close>

theorem raid0_null_payload_completes_once:
  assumes "raid0_null_ok (rb, ch, bio)"
    and "batch_reach (\<lambda>rc. raid0_submit_null_payload_request rc rb ch bio) raid0_base_io_complete s"
  shows "completions_of (rio_events (bs_rio s)) =
    (if waiting s \<or> outstanding s \<noteq> [] then [] else [status_of (\<not> some_failed s)])"
  using raid0_batch.completes_exactly_once[OF assms(1) assms(2)[folded raid0_null_handler_eq]]
  by (simp split: if_splits)

subsection \<open>The ranges of a request without payload\<close>

lemma raid0_disk_idx_nat:
  assumes ok: "raid0_null_ok (rb, ch, bio)" and i: "i < unat (num_base_bdevs rb)"
  shows "unat (raid0_disk_idx rb (raid0_io_range_of (rb, ch, bio)) (of_nat i)) =
    (unat (offset_blocks bio) div unat (strip_size rb) mod unat (num_base_bdevs rb) + i)
      mod unat (num_base_bdevs rb)"
proof -
  let ?n = "unat (num_base_bdevs rb)" and ?r = "raid0_io_range_of (rb, ch, bio)"
  have n: "0 < ?n" "?n < 256" using ok by (auto simp: raid0_geometry_def unat_gt_0)
  have sd: "unat (start_disk ?r) = unat (offset_blocks bio) div unat (strip_size rb) mod ?n"
    using io_range_fields(6)[OF raid0_null_range[OF ok] refl refl]
    by (simp add: raid0_io_range_of.simps)
  have i8: "unat (of_nat i :: u8) = i"
    using less_trans[OF i n(2)] by (subst unsigned_of_nat, subst take_bit_nat_eq_self) simp_all
  have "unat (start_disk ?r) < ?n" using n by (simp add: sd)
  then have "unat (start_disk ?r) + i < 512" using i n(2) by linarith
  then have "unat (ucast (start_disk ?r) + ucast (of_nat i :: u8) :: u32) = unat (start_disk ?r) + i"
    by (subst unat_plus_no_wrap) (simp_all add: i8)
  moreover have "(unat (start_disk ?r) + i) mod ?n < 256"
    using less_trans[OF mod_less_divisor[OF n(1)] n(2)] .
  ultimately show ?thesis
    by (simp add: raid0_disk_idx_def unat_u8_of_u32 unat_mod_word sd)
qed

lemma raid0_null_payload_io_eq:
  assumes "raid0_null_ok (rb, ch, bio)" and "raid0_null_payload_io rb ch bio r d = Some b"
  shows "bio_type b = bdev_io_type bio \<and> bio_slot b = unat d \<and>
    bio_ch b = base_channel ch ! unat d \<and>
    raid0_split_io_range r d =
      (bio_lba b - data_offset (base_bdev_info rb ! unat d), bio_blocks b)"
  using assms by (auto simp: raid0_null_payload_io_def Let_def raid_bdev_unmap_blocks_def
      raid_bdev_flush_blocks_def split: prod.splits)

lemma raid0_null_job_exact:
  assumes ok: "raid0_null_ok (rb, ch, bio)"
    and k: "k < length (raid0_null_jobs (rb, ch, bio))"
  shows "\<exists>b. raid0_null_jobs (rb, ch, bio) ! k = Some b \<and> bio_type b = bdev_io_type bio \<and>
    bio_slot b = (unat (offset_blocks bio) div unat (strip_size rb) mod unat (num_base_bdevs rb) + k)
      mod unat (num_base_bdevs rb) \<and>
    0 < unat (bio_blocks b) \<and>
    base_io_blocks rb b =
      raid0_disk_blocks (unat (strip_size rb)) (unat (num_base_bdevs rb)) (unat (offset_blocks bio))
        (unat (offset_blocks bio) + unat (num_blocks bio) - 1) (bio_slot b)"
proof -
  let ?r = "raid0_io_range_of (rb, ch, bio)" and ?n = "unat (num_base_bdevs rb)"
  let ?S = "unat (offset_blocks bio) div unat (strip_size rb)"
  let ?E = "(unat (offset_blocks bio) + unat (num_blocks bio) - 1) div unat (strip_size rb)"
  define d where "d = raid0_disk_idx rb ?r (of_nat k)"
  have n: "0 < ?n" using ok by (auto simp: raid0_geometry_def unat_gt_0)
  have kn: "k < ?n" and km: "k < min (?E - ?S + 1) ?n"
    using k by (simp_all add: raid0_null_involved[OF ok])
  have du: "unat d = (?S mod ?n + k) mod ?n"
    unfolding d_def by (rule raid0_disk_idx_nat[OF ok kn])
  have SE: "?S \<le> ?E"
    by (intro div_le_mono) (use ok in auto)
  obtain t where t: "?S \<le> t" "t \<le> ?E" "t mod ?n = unat d"
    using involved_iff[OF n SE, of "unat d"] km du by auto
  obtain b where b: "raid0_null_payload_io rb ch bio ?r d = Some b"
    using raid0_null_payload_io_some[OF ok] by blast
  note eq = raid0_null_payload_io_eq[OF ok b]
  have r: "?r = raid0_get_io_range (num_base_bdevs rb) (ucast (strip_size rb))
      (ucast (strip_size_shift rb)) (offset_blocks bio) (num_blocks bio)"
    by (simp add: raid0_io_range_of.simps)
  note ex = raid0_split_io_range_exact[OF raid0_null_range[OF ok] r, of t d,
      unfolded unat_u64_of_u32, OF t]
  have "raid0_null_jobs (rb, ch, bio) ! k = Some b"
    using k b by (simp add: d_def)
  then show ?thesis
    using eq ex[of _ "bio_blocks b"] du by (intro exI[of _ b]) (auto simp: base_io_blocks_def)
qed

lemma raid0_null_jobs_all:
  assumes ok: "raid0_null_ok (rb, ch, bio)"
  shows "\<exists>bs. raid0_null_jobs (rb, ch, bio) = map Some bs"
proof -
  have "None \<notin> set (raid0_null_jobs (rb, ch, bio))"
  proof
    assume "None \<in> set (raid0_null_jobs (rb, ch, bio))"
    then obtain k where "k < length (raid0_null_jobs (rb, ch, bio))"
      "raid0_null_jobs (rb, ch, bio) ! k = None" by (auto simp: in_set_conv_nth)
    then show False using raid0_null_job_exact[OF ok, of k] by auto
  qed
  then have "map Some (map the (raid0_null_jobs (rb, ch, bio))) = raid0_null_jobs (rb, ch, bio)"
    unfolding map_map by (intro map_idI) (metis comp_apply option.exhaust_sel)
  then show ?thesis by metis
qed

lemma raid0_null_jobs_cover:
  assumes ok: "raid0_null_ok (rb, ch, bio)"
    and bs: "raid0_null_jobs (rb, ch, bio) = map Some bs"
    and d: "d < unat (num_base_bdevs rb)"
  shows "raid0_disk_blocks (unat (strip_size rb)) (unat (num_base_bdevs rb)) (unat (offset_blocks bio))
        (unat (offset_blocks bio) + unat (num_blocks bio) - 1) d =
      (\<Union>b \<in> {b \<in> set bs. bio_slot b = d}. base_io_blocks rb b)"
proof -
  let ?n = "unat (num_base_bdevs rb)" and ?s = "unat (strip_size rb)"
  let ?a = "unat (offset_blocks bio)"
  let ?b = "?a + unat (num_blocks bio) - 1"
  have n: "0 < ?n" and s: "0 < ?s" using ok by (auto simp: raid0_geometry_def unat_gt_0)
  have SE: "?a div ?s \<le> ?b div ?s" by (intro div_le_mono) (use ok in auto)
  have job: "\<exists>k. k < length bs \<and> bio_slot b = (?a div ?s mod ?n + k) mod ?n \<and>
      base_io_blocks rb b = raid0_disk_blocks ?s ?n ?a ?b (bio_slot b)" if b: "b \<in> set bs" for b
  proof -
    obtain k where "k < length bs" "bs ! k = b" using b by (auto simp: in_set_conv_nth)
    then show ?thesis using raid0_null_job_exact[OF ok, of k] bs by auto
  qed
  have "\<exists>b \<in> set bs. bio_slot b = d" if l: "l \<in> raid0_disk_blocks ?s ?n ?a ?b d" for l
  proof -
    obtain k where k: "k < min (?b div ?s - ?a div ?s + 1) ?n" "(?a div ?s mod ?n + k) mod ?n = d"
      using disk_range_involved[OF s l] involved_iff[OF n SE, of d] by blast
    have "length bs = min (?b div ?s - ?a div ?s + 1) ?n"
      using raid0_null_involved[OF ok] raid0_null_jobs_length[of rb ch bio] bs by simp
    then have "k < length bs" using k by simp
    then show ?thesis
      using raid0_null_job_exact[OF ok, of k] bs k by (intro bexI[of _ "bs ! k"]) auto
  qed
  then show ?thesis using job by auto blast
qed

lemma raid0_null_slots_distinct:
  assumes ok: "raid0_null_ok (rb, ch, bio)"
    and bs: "raid0_null_jobs (rb, ch, bio) = map Some bs"
  shows "distinct (map bio_slot bs)"
proof -
  let ?n = "unat (num_base_bdevs rb)"
  let ?M = "unat (offset_blocks bio) div unat (strip_size rb) mod ?n"
  have n: "0 < ?n" using ok by (auto simp: raid0_geometry_def unat_gt_0)
  have len: "length bs \<le> ?n"
    using raid0_null_involved[OF ok] raid0_null_jobs_length[of rb ch bio] bs by simp
  have "map bio_slot bs = map (\<lambda>k. (?M + k) mod ?n) [0..<length bs]"
  proof (rule nth_equalityI)
    show "map bio_slot bs ! k = map (\<lambda>k. (?M + k) mod ?n) [0..<length bs] ! k"
      if "k < length (map bio_slot bs)" for k
      using that raid0_null_job_exact[OF ok, of k] bs by auto
  qed simp
  moreover have "inj_on (\<lambda>k. (?M + k) mod ?n) {..<length bs}"
    by (rule inj_on_subset[OF involved_distinct[OF n]]) (use len in auto)
  ultimately show ?thesis by (simp add: distinct_map atLeast0LessThan)
qed

text \<open>C10: the base I/Os that an UNMAP or FLUSH request has sent when it is over go to pairwise
  different base bdevs, have the request's type and are not empty, and on every base bdev they
  cover exactly the blocks to which \<open>raid0_map\<close> sends the blocks of the request, no block more
  and no block less.\<close>

theorem raid0_null_payload_covers_exactly:
  assumes ok: "raid0_null_ok (rb, ch, bio)"
    and reach: "batch_reach (\<lambda>rc. raid0_submit_null_payload_request rc rb ch bio)
      raid0_base_io_complete st"
    and over: "\<not> waiting st" "outstanding st = []"
    and bs: "bs = submitted_of (rio_events (bs_rio st))"
  shows "distinct (map bio_slot bs) \<and>
    (\<forall>b \<in> set bs. bio_type b = bdev_io_type bio \<and> bio_blocks b \<noteq> 0) \<and>
    (\<forall>d < unat (num_base_bdevs rb).
       raid0_disk_blocks (unat (strip_size rb)) (unat (num_base_bdevs rb)) (unat (offset_blocks bio))
         (unat (offset_blocks bio) + unat (num_blocks bio) - 1) d =
       (\<Union>b \<in> {b \<in> set bs. bio_slot b = d}. base_io_blocks rb b))"
proof -
  obtain js where js: "raid0_null_jobs (rb, ch, bio) = map Some js"
    using raid0_null_jobs_all[OF ok] by blast
  have "bs = js"
    using raid0_batch.completes_exactly_once[OF ok reach[folded raid0_null_handler_eq]] over js bs
    by simp
  moreover have "bio_type b = bdev_io_type bio \<and> bio_blocks b \<noteq> 0" if b: "b \<in> set js" for b
  proof -
    obtain k where "k < length js" "js ! k = b" using b by (auto simp: in_set_conv_nth)
    then show ?thesis using raid0_null_job_exact[OF ok, of k] js by auto
  qed
  ultimately show ?thesis
    using raid0_null_slots_distinct[OF ok js] raid0_null_jobs_cover[OF ok js] by blast
qed

subsection \<open>Sizes\<close>

text \<open>
  What the sizes of a started raid0 bdev agree on: every base bdev gives the same whole number of
  strips, and the raid bdev has all of them. \<open>raid0_start\<close> establishes it and \<open>raid0_resize\<close> keeps it.
\<close>

definition raid0_sized :: "raid_bdev \<Rightarrow> nat \<Rightarrow> bool" where
  "raid0_sized rb strips \<longleftrightarrow>
     (\<forall>info \<in> set (base_bdev_info rb). unat (data_size info) = strips * unat (strip_size rb)) \<and>
     unat (rb_blockcnt rb) = unat (num_base_bdevs rb) * (strips * unat (strip_size rb))"

lemma raid0_aligned_size:
  fixes f :: "raid_base_bdev_info \<Rightarrow> u64"
  assumes g: "raid0_geometry rb" and ne: "base_bdev_info rb \<noteq> []"
    and fit: "unat (num_base_bdevs rb) * Min ((\<lambda>i. unat (f i)) ` set (base_bdev_info rb)) < 2 ^ 64"
  defines "sz \<equiv> push_bit (unat (strip_size_shift rb)) (drop_bit (unat (strip_size_shift rb))
      (foldl (\<lambda>m info. min m (f info)) UINT64_MAX (base_bdev_info rb)))"
    and "strips \<equiv> Min ((\<lambda>i. unat (f i)) ` set (base_bdev_info rb)) div unat (strip_size rb)"
  shows "unat sz = strips * unat (strip_size rb)"
    and "unat (sz * ucast (num_base_bdevs rb)) =
      unat (num_base_bdevs rb) * (strips * unat (strip_size rb))"
proof -
  have s: "unat (strip_size rb) = 2 ^ unat (strip_size_shift rb)"
    using g by (simp add: raid0_geometry_def)
  show 1: "unat sz = strips * unat (strip_size rb)"
    using ne unfolding sz_def strips_def s unat_push_drop_bit
    by (simp add: foldl_min_u64 unat_Min_image)
  have "strips * unat (strip_size rb) \<le> Min ((\<lambda>i. unat (f i)) ` set (base_bdev_info rb))"
    by (simp add: strips_def)
  then have "unat (num_base_bdevs rb) * (strips * unat (strip_size rb)) < 2 ^ 64"
    by (rule le_less_trans[OF mult_le_mono2 fit])
  moreover have "unat sz * unat (ucast (num_base_bdevs rb) :: u64) =
      unat (num_base_bdevs rb) * (strips * unat (strip_size rb))"
    by (simp only: 1 unat_u64_of_u8 mult.commute)
  ultimately show "unat (sz * ucast (num_base_bdevs rb)) =
      unat (num_base_bdevs rb) * (strips * unat (strip_size rb))"
    by (metis len64 unat_times_no_wrap)
qed

text \<open>\<open>raid0_start\<close> succeeds, gives every base bdev the size of the smallest one rounded down to
  whole strips, makes the raid bdev as large as all of them together, and asks the bdev layer to
  split requests at strip boundaries exactly when there is more than one base bdev.\<close>

theorem raid0_start_sizes:
  assumes g: "raid0_geometry rb" and ne: "base_bdev_info rb \<noteq> []"
    and fit: "unat (num_base_bdevs rb) *
      Min ((\<lambda>i. unat (data_size i)) ` set (base_bdev_info rb)) < 2 ^ 64"
  shows "fst (raid0_start rb) = 0 \<and>
    raid0_sized (snd (raid0_start rb))
      (Min ((\<lambda>i. unat (data_size i)) ` set (base_bdev_info rb)) div unat (strip_size rb)) \<and>
    split_on_optimal_io_boundary (snd (raid0_start rb)) = (num_base_bdevs rb \<noteq> 1) \<and>
    (num_base_bdevs rb \<noteq> 1 \<longrightarrow> optimal_io_boundary (snd (raid0_start rb)) = strip_size rb)"
proof -
  have "num_base_bdevs rb > 1 \<longleftrightarrow> num_base_bdevs rb \<noteq> 1"
    using g by (simp add: u8_gt_one raid0_geometry_def)
  then show ?thesis
    using raid0_aligned_size[OF g ne fit]
    by (simp add: raid0_start_def Let_def raid0_sized_def)
qed

text \<open>With consistent sizes the address map is a bijection from the logical blocks of the raid
  bdev onto the blocks of the data areas of its base bdevs: no two logical blocks share a block, no
  address lies outside a base bdev and no block of a data area is unreachable.\<close>

theorem raid0_map_bijection:
  assumes g: "raid0_geometry rb" and len: "length (base_bdev_info rb) = unat (num_base_bdevs rb)"
    and sized: "raid0_sized rb strips"
  shows "bij_betw (raid0_map (unat (strip_size rb)) (unat (num_base_bdevs rb)))
    {..< unat (rb_blockcnt rb)}
    {(d, l). d < unat (num_base_bdevs rb) \<and> l < unat (data_size (base_bdev_info rb ! d))}"
proof -
  let ?n = "unat (num_base_bdevs rb)" and ?s = "unat (strip_size rb)"
  have n: "0 < ?n" and s: "0 < ?s" using g by (simp_all add: raid0_geometry_def unat_gt_0)
  have ds: "unat (data_size (base_bdev_info rb ! d)) = strips * ?s" if "d < ?n" for d
    using sized len that by (simp add: raid0_sized_def)
  have bc: "unat (rb_blockcnt rb) = ?n * (strips * ?s)" using sized by (simp add: raid0_sized_def)
  show ?thesis
  proof (rule bij_betw_byWitness[where f' = "raid0_unmap ?s ?n"])
    show "\<forall>x \<in> {..< unat (rb_blockcnt rb)}. raid0_unmap ?s ?n (raid0_map ?s ?n x) = x"
      using raid0_unmap_map[OF s] by simp
    show "\<forall>p \<in> {(d, l). d < ?n \<and> l < unat (data_size (base_bdev_info rb ! d))}.
        raid0_map ?s ?n (raid0_unmap ?s ?n p) = p"
      using raid0_map_unmap[OF s] by auto
    show "raid0_map ?s ?n ` {..< unat (rb_blockcnt rb)} \<subseteq>
        {(d, l). d < ?n \<and> l < unat (data_size (base_bdev_info rb ! d))}"
    proof (rule image_subsetI)
      fix x assume "x \<in> {..< unat (rb_blockcnt rb)}"
      then have "fst (raid0_map ?s ?n x) < ?n \<and> snd (raid0_map ?s ?n x) < strips * ?s"
        using raid0_map_fst[OF n] raid0_map_snd[OF s n] bc by simp
      then show "raid0_map ?s ?n x \<in> {(d, l). d < ?n \<and> l < unat (data_size (base_bdev_info rb ! d))}"
        using ds by (simp add: case_prod_beta)
    qed
    show "raid0_unmap ?s ?n ` {(d, l). d < ?n \<and> l < unat (data_size (base_bdev_info rb ! d))}
        \<subseteq> {..< unat (rb_blockcnt rb)}"
      using raid0_unmap_less[OF s] ds bc by auto
  qed
qed

text \<open>When base bdevs change their size, \<open>raid0_resize\<close> keeps the sizes consistent, also when the
  bdev layer refuses the change; when it accepts, the raid bdev has the new size, which is again
  the smallest base bdev rounded down to whole strips, times the number of base bdevs.\<close>

theorem raid0_resize_sizes:
  assumes g: "raid0_geometry rb" and ne: "base_bdev_info rb \<noteq> []"
    and sized: "raid0_sized rb strips"
    and fit: "unat (num_base_bdevs rb) *
      Min ((\<lambda>i. unat (cnt i - data_offset i)) ` set (base_bdev_info rb)) < 2 ^ 64"
    and notify: "\<And>c. notify rb c = (0, rb\<lparr>rb_blockcnt := c\<rparr>) \<or> (fst (notify rb c) \<noteq> 0 \<and> snd (notify rb c) = rb)"
  defines "strips' \<equiv> Min ((\<lambda>i. unat (cnt i - data_offset i)) ` set (base_bdev_info rb))
      div unat (strip_size rb)"
  shows "raid0_sized (raid0_resize cnt notify rb)
    (if fst (notify rb (of_nat (unat (num_base_bdevs rb) * (strips' * unat (strip_size rb))))) = 0
     then strips' else strips)"
proof -
  note al = raid0_aligned_size[OF g ne fit, folded strips'_def]
  let ?n = "unat (num_base_bdevs rb)" and ?s = "unat (strip_size rb)"
  have pos: "0 < ?n" "0 < ?s" using g by (simp_all add: raid0_geometry_def unat_gt_0)
  define c where "c = push_bit (unat (strip_size_shift rb)) (drop_bit (unat (strip_size_shift rb))
      (foldl (\<lambda>m info. min m (cnt info - data_offset info)) UINT64_MAX (base_bdev_info rb)))
      * ucast (num_base_bdevs rb)"
  have c: "c = of_nat (?n * (strips' * ?s))"
    using al(2) unfolding c_def [symmetric] by (metis of_nat_unat ucast_id)
  have same: "strips = strips'" if "rb_blockcnt rb = c"
    using that sized al(2) pos unfolding c_def [symmetric] by (simp add: raid0_sized_def)
  show ?thesis
    using notify[of c] sized al same unfolding c [symmetric]
    by (auto simp: raid0_resize_def Let_def c_def raid0_sized_def split: prod.splits)
qed

subsection \<open>Concrete instances\<close>

text \<open>Two base bdevs of ten and nine blocks, strips of four blocks: eight blocks of each are used.\<close>

definition raid0_example :: raid_bdev where
  "raid0_example = zero_raid_bdev
     \<lparr>num_base_bdevs := 2, strip_size := 4, strip_size_shift := 2, rb_blockcnt := 16,
      base_bdev_info :=
        [zero_base_bdev_info\<lparr>bi_desc := Some ''a'', data_offset := 100, data_size := 10\<rparr>,
         zero_base_bdev_info\<lparr>bi_desc := Some ''b'', data_offset := 200, data_size := 9\<rparr>]\<rparr>"

definition raid0_example_channel :: raid_bdev_io_channel where
  "raid0_example_channel =
     \<lparr>base_channel = [Some 1, Some 2], num_channels = 2, module_channel = None\<rparr>"

definition raid0_example_io :: "io_type \<Rightarrow> u64 \<Rightarrow> u64 \<Rightarrow> bdev_io" where
  "raid0_example_io ty off num =
     \<lparr>bdev_io_type = ty, offset_blocks = off, num_blocks = num, iovs = [], md_buf = None\<rparr>"

lemmas raid0_example_defs =
  raid0_example_def raid0_example_channel_def raid0_example_io_def zero_raid_bdev_def
  zero_base_bdev_info_def raid0_geometry_def raid0_spans_def raid0_sized_def

lemma raid0_rw_follows_map_witness:
  "\<exists>b. bio_slot b = 1 \<and> unat (bio_lba b - 200) = 1 \<and>
    raid0_submit_rw_request (\<lambda>_. 0) raid0_example raid0_example_channel
      (raid0_example_io IO_READ 5 2) raid_io_init = rio_emit (EvSubmit b) raid_io_init"
proof -
  have "raid0_geometry raid0_example"
    "bdev_io_type (raid0_example_io IO_READ 5 2) \<in> {IO_READ, IO_WRITE}"
    "0 < unat (num_blocks (raid0_example_io IO_READ 5 2))"
    "unat (offset_blocks (raid0_example_io IO_READ 5 2)) +
     unat (num_blocks (raid0_example_io IO_READ 5 2)) \<le> unat (rb_blockcnt raid0_example)"
    "\<not> raid0_spans raid0_example (raid0_example_io IO_READ 5 2)"
    by (simp_all add: raid0_example_defs)
  from raid0_rw_follows_map[OF this, of raid0_example_channel "\<lambda>_. 0" raid_io_init]
  obtain b where b: "\<forall>k < 2. raid0_map 4 2 (5 + k) = (bio_slot b, unat (bio_lba b -
        data_offset (base_bdev_info raid0_example ! bio_slot b)) + k)"
    "raid0_submit_rw_request (\<lambda>_. 0) raid0_example raid0_example_channel
      (raid0_example_io IO_READ 5 2) raid_io_init = rio_emit (EvSubmit b) raid_io_init"
    by (auto simp: raid0_example_defs)
  have "bio_slot b = 1" "unat (bio_lba b - 200) = 1"
    using b(1)[rule_format, of 0] by (auto simp: raid0_map_def raid0_example_defs)
  then show ?thesis using b(2) by blast
qed

lemma raid0_rw_spanning_fails_witness:
  "raid0_submit_rw_request (\<lambda>_. 0) raid0_example raid0_example_channel
     (raid0_example_io IO_READ 6 4) raid_io_init = raid_bdev_io_complete STATUS_FAILED raid_io_init"
  by (rule raid0_rw_spanning_fails) (simp_all add: raid0_example_defs)

lemma raid0_null_example_ok:
  "raid0_null_ok (raid0_example, raid0_example_channel, raid0_example_io IO_UNMAP 3 7)"
  by (simp add: raid0_example_defs)

lemmas raid0_null_example_reach =
  raid0_batch.can_finish[OF raid0_null_example_ok, unfolded raid0_null_handler_eq]

lemma raid0_null_payload_completes_once_witness:
  "\<exists>s. batch_reach (\<lambda>rc. raid0_submit_null_payload_request rc raid0_example
      raid0_example_channel (raid0_example_io IO_UNMAP 3 7)) raid0_base_io_complete s \<and>
    completions_of (rio_events (bs_rio s)) = [status_of (\<not> some_failed s)]"
proof -
  obtain s where s: "batch_reach (\<lambda>rc. raid0_submit_null_payload_request rc raid0_example
      raid0_example_channel (raid0_example_io IO_UNMAP 3 7)) raid0_base_io_complete s"
    "\<not> waiting s" "outstanding s = []"
    using raid0_null_example_reach by blast
  show ?thesis
    using raid0_null_payload_completes_once[OF raid0_null_example_ok s(1)] s
    by (intro exI[of _ s]) simp
qed

lemma raid0_null_payload_covers_exactly_witness:
  "\<exists>bs. distinct (map bio_slot bs) \<and>
    raid0_disk_blocks 4 2 3 9 1 =
      (\<Union>b \<in> {b \<in> set bs. bio_slot b = 1}. base_io_blocks raid0_example b)"
proof -
  obtain s where s: "batch_reach (\<lambda>rc. raid0_submit_null_payload_request rc raid0_example
      raid0_example_channel (raid0_example_io IO_UNMAP 3 7)) raid0_base_io_complete s"
    "\<not> waiting s" "outstanding s = []"
    using raid0_null_example_reach by blast
  show ?thesis
    using raid0_null_payload_covers_exactly[OF raid0_null_example_ok s refl]
    by (intro exI[of _ "submitted_of (rio_events (bs_rio s))"]) (simp add: raid0_example_defs)
qed

lemma raid0_start_sizes_witness: "raid0_sized (snd (raid0_start raid0_example)) 2"
  using raid0_start_sizes[of raid0_example] by (simp add: raid0_example_defs)

definition raid0_example_started :: raid_bdev where
  "raid0_example_started = raid0_example
     \<lparr>base_bdev_info := map (\<lambda>i. i\<lparr>data_size := 8\<rparr>) (base_bdev_info raid0_example)\<rparr>"

lemma raid0_map_bijection_witness:
  "bij_betw (raid0_map 4 2) {..<16}
     {(d, l). d < 2 \<and> l < unat (data_size (base_bdev_info raid0_example_started ! d))}"
  using raid0_map_bijection[of raid0_example_started 2]
  by (simp add: raid0_example_started_def raid0_example_defs)

lemma raid0_resize_sizes_witness:
  "raid0_sized (raid0_resize (\<lambda>i. data_offset i + 13)
     (\<lambda>rb c. (0, rb\<lparr>rb_blockcnt := c\<rparr>)) raid0_example_started) 3"
  using raid0_resize_sizes[of raid0_example_started 2 "\<lambda>i. data_offset i + 13"
      "\<lambda>rb c. (0, rb\<lparr>rb_blockcnt := c\<rparr>)"]
  by (simp add: raid0_example_started_def raid0_example_defs)

end
