(* ===== verification/Raid1_Level.thy ===== *)
theory Raid1_Level
  imports Raid_Batch
begin

text \<open>
  The mirroring module \<open>raid/raid1.c\<close>. A read goes to the base bdev with the fewest read blocks in
  flight on this channel, which the per-channel counters \<open>read_blocks_outstanding\<close> keep; a write
  goes to every base bdev that is present and completes the base I/Os it could not send when the
  layer below fails hard. The interpretation \<open>raid1_write_batch\<close> shows that writes keep the contract
  of \<open>failing_batch\<close>, the relation \<open>raid1_reads\<close> that the counters are exact.
\<close>

subsection \<open>Read counters\<close>

text \<open>The context of the module's channel: \<open>read_blocks_outstanding\<close>, one counter per base bdev.\<close>

type_synonym raid1_io_channel = "u64 list"

definition raid1_channel_inc_read_counters :: "raid1_io_channel \<Rightarrow> u8 \<Rightarrow> u64 \<Rightarrow> raid1_io_channel" where
  "raid1_channel_inc_read_counters r1ch idx nblocks =
     r1ch[unat idx := r1ch ! unat idx + nblocks]"

definition raid1_channel_dec_read_counters :: "raid1_io_channel \<Rightarrow> u8 \<Rightarrow> u64 \<Rightarrow> raid1_io_channel" where
  "raid1_channel_dec_read_counters r1ch idx nblocks =
     r1ch[unat idx := r1ch ! unat idx - nblocks]"

text \<open>The loop of the selection over the slots still to look at.\<close>

fun raid1_next_read_loop ::
  "raid_bdev_io_channel \<Rightarrow> raid1_io_channel \<Rightarrow> nat list \<Rightarrow> u64 \<Rightarrow> u8 \<Rightarrow> u8" where
  "raid1_next_read_loop ch r1ch [] read_blocks_min idx = idx"
| "raid1_next_read_loop ch r1ch (i # js) read_blocks_min idx =
     (if base_channel ch ! i \<noteq> None \<and> r1ch ! i < read_blocks_min
      then raid1_next_read_loop ch r1ch js (r1ch ! i) (of_nat i)
      else raid1_next_read_loop ch r1ch js read_blocks_min idx)"

definition raid1_channel_next_read_base_bdev :: "raid_bdev_io_channel \<Rightarrow> raid1_io_channel \<Rightarrow> u8" where
  "raid1_channel_next_read_base_bdev ch r1ch =
     raid1_next_read_loop ch r1ch [0..<unat (num_channels ch)] UINT64_MAX UINT8_MAX"

subsection \<open>Completions\<close>

definition raid1_bdev_io_completion :: "bool \<Rightarrow> raid_io \<Rightarrow> raid_io" where
  "raid1_bdev_io_completion success rio =
     snd (raid_bdev_io_complete_part 1 (status_of success) rio)"

definition raid1_write_bdev_io_completion :: "bool \<Rightarrow> raid_io \<Rightarrow> raid_io" where
  "raid1_write_bdev_io_completion success rio = raid1_bdev_io_completion success rio"

definition raid1_read_bdev_io_completion ::
  "bool \<Rightarrow> bdev_io \<Rightarrow> raid1_io_channel \<times> raid_io \<Rightarrow> raid1_io_channel \<times> raid_io" where
  "raid1_read_bdev_io_completion success bio st =
     (case st of (r1ch, rio) \<Rightarrow>
        (raid1_channel_dec_read_counters r1ch (base_bdev_io_submitted rio) (num_blocks bio),
         raid1_bdev_io_completion success rio))"

subsection \<open>Submission\<close>

definition raid1_submit_read_request ::
  "(base_io \<Rightarrow> int) \<Rightarrow> raid_bdev \<Rightarrow> raid_bdev_io_channel \<Rightarrow> bdev_io
     \<Rightarrow> raid1_io_channel \<times> raid_io \<Rightarrow> int \<times> raid1_io_channel \<times> raid_io" where
  "raid1_submit_read_request rc rb ch bio st =
     (let (r1ch, rio) = st;
          pd_lba = offset_blocks bio;
          pd_blocks = num_blocks bio;
          idx = raid1_channel_next_read_base_bdev ch r1ch
      in if idx = UINT8_MAX then (0, r1ch, raid_bdev_io_complete STATUS_FAILED rio)
         else
           (let slot = unat idx;
                base_ch = base_channel ch ! slot;
                rio = rio\<lparr>base_bdev_io_remaining := 1\<rparr>;
                (ret, rio) =
                  bdev_submit rc
                    (raid_bdev_readv_blocks_ext rb slot base_ch (iovs bio) (md_buf bio)
                       pd_lba pd_blocks) rio
            in if ret = 0
               then (ret, raid1_channel_inc_read_counters r1ch idx pd_blocks,
                     rio\<lparr>base_bdev_io_submitted := idx\<rparr>)
               else if ret = - ENOMEM then (0, r1ch, raid_bdev_queue_io_wait slot rio)
               else (ret, r1ch, rio)))"

text \<open>
  The loop of a write over the slots from \<open>base_bdev_io_submitted\<close> on; the boolean tells that the
  function has returned from inside the loop.
\<close>

fun raid1_write_loop ::
  "(base_io \<Rightarrow> int) \<Rightarrow> raid_bdev \<Rightarrow> raid_bdev_io_channel \<Rightarrow> bdev_io \<Rightarrow> nat list \<Rightarrow> raid_io
     \<Rightarrow> bool \<times> raid_io" where
  "raid1_write_loop rc rb ch bio [] rio = (False, rio)"
| "raid1_write_loop rc rb ch bio (idx # js) rio =
     (case base_channel ch ! idx of
        None \<Rightarrow>
          raid1_write_loop rc rb ch bio js
            (snd (raid_bdev_io_complete_part 1 STATUS_SUCCESS
                    (rio\<lparr>base_bdev_io_submitted := base_bdev_io_submitted rio + 1\<rparr>)))
      | Some base_ch \<Rightarrow>
          (let (ret, rio) =
                 bdev_submit rc
                   (raid_bdev_writev_blocks_ext rb idx (Some base_ch) (iovs bio) (md_buf bio)
                      (offset_blocks bio) (num_blocks bio)) rio
           in if ret \<noteq> 0
              then if ret = - ENOMEM then (True, raid_bdev_queue_io_wait idx rio)
                   else
                     (let base_bdev_io_not_submitted =
                            word_of_int (uint (num_base_bdevs rb)
                                         - uint (base_bdev_io_submitted rio))
                      in (True, snd (raid_bdev_io_complete_part base_bdev_io_not_submitted
                                       STATUS_FAILED rio)))
              else raid1_write_loop rc rb ch bio js
                     (rio\<lparr>base_bdev_io_submitted := base_bdev_io_submitted rio + 1\<rparr>)))"

definition raid1_submit_write_request ::
  "(base_io \<Rightarrow> int) \<Rightarrow> raid_bdev \<Rightarrow> raid_bdev_io_channel \<Rightarrow> bdev_io \<Rightarrow> raid_io \<Rightarrow> int \<times> raid_io" where
  "raid1_submit_write_request rc rb ch bio rio =
     (let rio = (if base_bdev_io_submitted rio = 0
                 then rio\<lparr>base_bdev_io_remaining := ucast (num_base_bdevs rb)\<rparr> else rio);
          (returned, rio) =
            raid1_write_loop rc rb ch bio
              [unat (base_bdev_io_submitted rio)..<unat (num_base_bdevs rb)] rio
      in if returned then (0, rio)
         else if base_bdev_io_submitted rio = 0 then (- ENODEV, rio) else (0, rio))"

definition raid1_submit_rw_request ::
  "(base_io \<Rightarrow> int) \<Rightarrow> raid_bdev \<Rightarrow> raid_bdev_io_channel \<Rightarrow> bdev_io
     \<Rightarrow> raid1_io_channel \<times> raid_io \<Rightarrow> raid1_io_channel \<times> raid_io" where
  "raid1_submit_rw_request rc rb ch bio st =
     (let (ret, r1ch, rio) =
            (case bdev_io_type bio of
               IO_READ \<Rightarrow> raid1_submit_read_request rc rb ch bio st
             | IO_WRITE \<Rightarrow>
                 (case raid1_submit_write_request rc rb ch bio (snd st) of
                    (ret, rio) \<Rightarrow> (ret, fst st, rio))
             | _ \<Rightarrow> (- EINVAL, st))
      in if ret \<noteq> 0 then (r1ch, raid_bdev_io_complete STATUS_FAILED rio) else (r1ch, rio))"

subsection \<open>Start and stop\<close>

text \<open>
  \<open>alloc_ok\<close>: the allocation of the module's info succeeds; \<open>raid1_start\<close> then registers it as an
  I/O device whose channels hold one zeroed counter per base bdev.
\<close>

definition raid1_start :: "bool \<Rightarrow> raid_bdev \<Rightarrow> int \<times> raid_bdev" where
  "raid1_start alloc_ok rb =
     (if \<not> alloc_ok then (- ENOMEM, rb)
      else
        (let min_blockcnt =
               foldl (\<lambda>m info. min m (data_size info)) UINT64_MAX (base_bdev_info rb)
         in (0, rb\<lparr>base_bdev_info :=
                     map (\<lambda>info. info\<lparr>data_size := min_blockcnt\<rparr>) (base_bdev_info rb),
                   rb_blockcnt := min_blockcnt, rb_private := Raid1Private\<rparr>)))"

definition raid1_channel_init :: "raid_bdev \<Rightarrow> raid1_io_channel" where
  "raid1_channel_init rb = replicate (unat (num_base_bdevs rb)) 0"

text \<open>\<open>False\<close>: the stop goes on in \<open>raid_bdev_module_stop_done\<close> once the device is unregistered.\<close>

definition raid1_stop :: "raid_bdev \<Rightarrow> bool \<times> raid_bdev" where
  "raid1_stop rb = (False, rb)"

text \<open>The callback of the unregistration: \<open>stop_done\<close> is the function of \<open>bdev_raid.c\<close> it calls.\<close>

definition raid1_io_device_unregister_done :: "(raid_bdev \<Rightarrow> 'w) \<Rightarrow> raid_bdev \<Rightarrow> 'w" where
  "raid1_io_device_unregister_done stop_done rb = stop_done rb"

subsection \<open>Writes keep the contract, hard errors included\<close>

type_synonym raid1_request = "raid_bdev \<times> raid_bdev_io_channel \<times> bdev_io \<times> raid1_io_channel"

fun raid1_write_ok :: "raid1_request \<Rightarrow> bool" where
  "raid1_write_ok (rb, ch, bio, r1ch) \<longleftrightarrow> num_base_bdevs rb \<noteq> 0 \<and> bdev_io_type bio = IO_WRITE"

fun raid1_write_jobs :: "raid1_request \<Rightarrow> base_io option list" where
  "raid1_write_jobs (rb, ch, bio, r1ch) =
     map (\<lambda>i. map_option (\<lambda>c. raid_bdev_writev_blocks_ext rb i (Some c) (iovs bio) (md_buf bio)
                             (offset_blocks bio) (num_blocks bio)) (base_channel ch ! i))
       [0..<unat (num_base_bdevs rb)]"

fun raid1_write_run :: "raid1_request \<Rightarrow> (base_io \<Rightarrow> int) \<Rightarrow> raid_io \<Rightarrow> raid_io" where
  "raid1_write_run (rb, ch, bio, r1ch) rc rio =
     snd (raid1_write_loop rc rb ch bio
            [unat (base_bdev_io_submitted rio)..<unat (num_base_bdevs rb)] rio)"

fun raid1_write_fail :: "raid1_request \<Rightarrow> raid_io \<Rightarrow> raid_io" where
  "raid1_write_fail (rb, ch, bio, r1ch) rio =
     snd (raid_bdev_io_complete_part
            (word_of_int (uint (num_base_bdevs rb) - uint (base_bdev_io_submitted rio)))
            STATUS_FAILED rio)"

fun raid1_write_handler :: "raid1_request \<Rightarrow> (base_io \<Rightarrow> int) \<Rightarrow> raid_io \<Rightarrow> raid_io" where
  "raid1_write_handler (rb, ch, bio, r1ch) rc rio =
     snd (raid1_submit_rw_request rc rb ch bio (r1ch, rio))"

lemma raid1_write_jobs_length [simp]:
  "length (raid1_write_jobs (rb, ch, bio, r1ch)) = unat (num_base_bdevs rb)"
  by simp

lemma raid1_write_jobs_nth [simp]:
  "k < unat (num_base_bdevs rb) \<Longrightarrow>
   raid1_write_jobs (rb, ch, bio, r1ch) ! k =
     map_option (\<lambda>c. raid_bdev_writev_blocks_ext rb k (Some c) (iovs bio) (md_buf bio)
                       (offset_blocks bio) (num_blocks bio)) (base_channel ch ! k)"
  by simp

declare raid1_write_jobs.simps [simp del]

text \<open>A loop that runs to its end has counted every slot, so the code never returns \<open>-ENODEV\<close>.\<close>

lemma raid1_write_loop_counts:
  assumes "raid1_write_loop rc rb ch bio [k..<n] rio = (False, rio')"
    and "unat (base_bdev_io_submitted rio) = k" "k \<le> n" "n < 256"
  shows "unat (base_bdev_io_submitted rio') = n"
  using assms
proof (induction "n - k" arbitrary: k rio)
  case 0
  then show ?case by simp
next
  case (Suc d)
  have k: "k < n" using Suc.hyps(2) by simp
  have k1: "unat (base_bdev_io_submitted rio + 1) = Suc k"
    using Suc.prems k by (subst unat_plus_no_wrap) simp_all
  have "raid1_write_loop rc rb ch bio [Suc k..<n] r1 = (False, rio') \<Longrightarrow>
      unat (base_bdev_io_submitted r1) = Suc k \<Longrightarrow> unat (base_bdev_io_submitted rio') = n" for r1
    using Suc.hyps(1)[of "Suc k" r1] Suc.hyps(2) Suc.prems k by simp
  then show ?case
    using Suc.prems k k1
    by (auto simp: upt_conv_Cons bdev_submit_def Let_def split: option.splits if_splits)
qed

lemma raid1_write_handler_run:
  assumes ok: "raid1_write_ok (rb, ch, bio, r1ch)"
  shows "raid1_submit_rw_request rc rb ch bio (r1ch, rio) =
    (r1ch, raid1_write_run (rb, ch, bio, r1ch) rc
       (if base_bdev_io_submitted rio = 0
        then rio\<lparr>base_bdev_io_remaining := ucast (num_base_bdevs rb)\<rparr> else rio))"
proof -
  define r0 where "r0 = (if base_bdev_io_submitted rio = 0
        then rio\<lparr>base_bdev_io_remaining := ucast (num_base_bdevs rb)\<rparr> else rio)"
  have sub: "base_bdev_io_submitted r0 = base_bdev_io_submitted rio" by (simp add: r0_def)
  obtain ret r1 where l: "raid1_write_loop rc rb ch bio
      [unat (base_bdev_io_submitted rio)..<unat (num_base_bdevs rb)] r0 = (ret, r1)" by fastforce
  have n0: "unat (num_base_bdevs rb) \<noteq> 0"
    using ok unat_gt_0[of "num_base_bdevs rb"] by simp
  have "base_bdev_io_submitted r1 \<noteq> 0" if nret: "\<not> ret"
  proof (cases "unat (base_bdev_io_submitted rio) \<le> unat (num_base_bdevs rb)")
    case True
    have "unat (base_bdev_io_submitted r1) = unat (num_base_bdevs rb)"
      using raid1_write_loop_counts[of rc rb ch bio "unat (base_bdev_io_submitted rio)"
          "unat (num_base_bdevs rb)" r0 r1] l nret sub True by simp
    then show ?thesis using n0 by auto
  next
    case False
    then have "r1 = r0" using l by simp
    then show ?thesis using False sub by auto
  qed
  then show ?thesis
    using ok l by (simp add: raid1_submit_rw_request_def raid1_submit_write_request_def
        r0_def [symmetric] sub)
qed

interpretation raid1_write_batch: failing_batch raid1_write_ok raid1_write_run raid1_write_jobs
  raid1_write_fail raid1_write_handler raid1_write_bdev_io_completion
proof (unfold_locales, goal_cases)
  case (1 c)
  then show ?case by (cases c) (auto simp: unat_gt_0)
next
  case (2 c rio rc)
  then show ?case by (cases c) simp
next
  case (3 c rio rc)
  then show ?case by (cases c) (auto simp: upt_conv_Cons unat_u8_Suc)
next
  case (4 c rio b rc)
  then show ?case by (cases c) (auto simp: upt_conv_Cons unat_u8_Suc bdev_submit_def)
next
  case (5 c rio b rc)
  then show ?case
    by (cases c) (auto simp: upt_conv_Cons bdev_submit_def raid_bdev_writev_blocks_ext_def)
next
  case (6 c rio b rc)
  then show ?case by (cases c) (auto simp: upt_conv_Cons bdev_submit_def)
next
  case (7 c rio rc)
  then show ?case
    by (cases c) (simp add: raid1_write_handler_run unsigned_ucast_eq del: raid1_write_run.simps)
next
  case (8 c rio rc)
  have same: "rio\<lparr>base_bdev_io_remaining := r\<rparr> = rio" if "base_bdev_io_remaining rio = r" for r
    using that by (cases rio) simp
  show ?case
    using 8 by (cases c)
      (auto simp add: raid1_write_handler_run unsigned_ucast_eq same simp del: raid1_write_run.simps)
next
  case (9 success rio)
  then show ?case by (simp add: raid1_write_bdev_io_completion_def raid1_bdev_io_completion_def)
next
  case (10 c rio)
  obtain rb ch bio r1ch where c: "c = (rb, ch, bio, r1ch)" by (cases c)
  have "uint (num_base_bdevs rb) - uint (base_bdev_io_submitted rio) =
      int (unat (num_base_bdevs rb) - unat (base_bdev_io_submitted rio))"
    using 10(2) by (simp add: c of_nat_diff)
  then show ?case by (simp add: c)
qed

lemma raid1_write_jobs_present:
  "jobs_sent (take k (raid1_write_jobs (rb, ch, bio, r1ch))) =
     map (\<lambda>i. raid_bdev_writev_blocks_ext rb i (base_channel ch ! i) (iovs bio) (md_buf bio)
                (offset_blocks bio) (num_blocks bio))
       (filter (\<lambda>i. base_channel ch ! i \<noteq> None) (take k [0..<unat (num_base_bdevs rb)]))"
proof -
  have "jobs_sent (map (\<lambda>i. map_option (\<lambda>c. raid_bdev_writev_blocks_ext rb i (Some c) (iovs bio)
      (md_buf bio) (offset_blocks bio) (num_blocks bio)) (base_channel ch ! i)) xs) =
     map (\<lambda>i. raid_bdev_writev_blocks_ext rb i (base_channel ch ! i) (iovs bio) (md_buf bio)
                (offset_blocks bio) (num_blocks bio))
       (filter (\<lambda>i. base_channel ch ! i \<noteq> None) xs)" for xs
    by (induction xs) auto
  then show ?thesis by (simp add: raid1_write_jobs.simps take_map)
qed

lemma raid1_write_handler_eq:
  "raid1_write_handler (rb, ch, bio, r1ch) =
     (\<lambda>rc rio. snd (raid1_submit_rw_request rc rb ch bio (r1ch, rio)))"
  by (simp add: fun_eq_iff)

text \<open>C12: a write to a mirror, under every answer of the layer below at every moment, sends the same
  blocks to the present base bdevs of the first slots, in slot order and each once; it completes
  exactly once, when nothing is in flight or waiting any more, and it reports success only if every
  slot was reached and none of the writes failed.\<close>

theorem raid1_write_correct:
  assumes "num_base_bdevs rb \<noteq> 0" and "bdev_io_type bio = IO_WRITE"
    and "batch_reach_any (\<lambda>rc rio. snd (raid1_submit_rw_request rc rb ch bio (r1ch, rio)))
      raid1_write_bdev_io_completion s"
  shows "\<exists>k \<le> unat (num_base_bdevs rb).
    submitted_of (rio_events (bs_rio s)) =
      map (\<lambda>i. raid_bdev_writev_blocks_ext rb i (base_channel ch ! i) (iovs bio) (md_buf bio)
                 (offset_blocks bio) (num_blocks bio))
        (filter (\<lambda>i. base_channel ch ! i \<noteq> None) [0..<k]) \<and>
    completions_of (rio_events (bs_rio s)) =
      (if waiting s \<or> outstanding s \<noteq> [] then []
       else [status_of (\<not> some_failed s \<and> k = unat (num_base_bdevs rb))])"
proof -
  have ok: "raid1_write_ok (rb, ch, bio, r1ch)" using assms by simp
  obtain k where k: "k \<le> unat (num_base_bdevs rb)"
    "submitted_of (rio_events (bs_rio s)) = jobs_sent (take k (raid1_write_jobs (rb, ch, bio, r1ch)))"
    "completions_of (rio_events (bs_rio s)) =
      (if waiting s \<or> outstanding s \<noteq> [] then []
       else [status_of (\<not> some_failed s \<and> k = unat (num_base_bdevs rb))])"
    using raid1_write_batch.completes_exactly_once_any[OF ok assms(3)[folded raid1_write_handler_eq]]
    by auto
  then show ?thesis
    by (intro exI[of _ k]) (simp add: raid1_write_jobs_present take_upt)
qed

lemma raid1_write_loop_missing:
  assumes "\<forall>i \<in> set js. base_channel ch ! i = None" and "js \<noteq> []"
    and "base_bdev_io_status rio = STATUS_SUCCESS"
    and "unat (base_bdev_io_remaining rio) = length js"
  shows "fst (raid1_write_loop rc rb ch bio js rio) = False \<and>
    rio_events (snd (raid1_write_loop rc rb ch bio js rio)) =
      rio_events rio @ [EvComplete STATUS_SUCCESS]"
  using assms
proof (induction js arbitrary: rio)
  case (Cons i js)
  let ?r1 = "snd (raid_bdev_io_complete_part 1 STATUS_SUCCESS
      (rio\<lparr>base_bdev_io_submitted := base_bdev_io_submitted rio + 1\<rparr>))"
  have rem: "unat (base_bdev_io_remaining rio) = Suc (length js)" using Cons.prems(4) by simp
  have rem1: "unat (base_bdev_io_remaining ?r1) = length js"
    by (simp, subst unat_minus_no_wrap) (simp_all add: rem)
  show ?case
  proof (cases "js = []")
    case True
    then have "base_bdev_io_remaining rio = 1"
      using rem word_unat_eq_iff[of "base_bdev_io_remaining rio" 1] by simp
    then show ?thesis using True Cons.prems by simp
  next
    case False
    then have "base_bdev_io_remaining rio \<noteq> 1" using rem by auto
    then show ?thesis using Cons.IH[of ?r1] Cons.prems rem1 False by simp
  qed
qed simp

text \<open>C18: when no base bdev has a channel, a write is completed with success although it has been
  written nowhere: the skipped slots count as submitted, so the check that should answer
  \<open>-ENODEV\<close> never applies.\<close>

theorem raid1_write_without_mirror_succeeds:
  assumes "num_base_bdevs rb \<noteq> 0" and "bdev_io_type bio = IO_WRITE"
    and "\<forall>i < unat (num_base_bdevs rb). base_channel ch ! i = None"
  shows "rio_events (snd (raid1_submit_rw_request rc rb ch bio (r1ch, raid_io_init))) =
    [EvComplete STATUS_SUCCESS]"
proof -
  let ?r = "raid_io_init\<lparr>base_bdev_io_remaining := ucast (num_base_bdevs rb) :: u64\<rparr>"
  have n0: "0 < unat (num_base_bdevs rb)" using assms(1) by (simp add: unat_gt_0)
  have "rio_events (snd (raid1_write_loop rc rb ch bio [0..<unat (num_base_bdevs rb)] ?r)) =
      [EvComplete STATUS_SUCCESS]"
    using raid1_write_loop_missing[of "[0..<unat (num_base_bdevs rb)]" ch ?r rc rb bio] assms(3) n0
    by (simp add: raid_io_init_def)
  then show ?thesis
    using assms raid1_write_handler_run[of rb ch bio r1ch rc raid_io_init]
    by (simp add: raid_io_init_def)
qed

subsection \<open>The choice of a mirror\<close>

lemma raid1_next_read_loop_correct:
  assumes "sorted_wrt (<) js"
  shows "if \<forall>i \<in> set js. base_channel ch ! i \<noteq> None \<longrightarrow> m \<le> r1ch ! i
    then raid1_next_read_loop ch r1ch js m idx = idx
    else \<exists>i \<in> set js. raid1_next_read_loop ch r1ch js m idx = of_nat i \<and>
      base_channel ch ! i \<noteq> None \<and> r1ch ! i < m \<and>
      (\<forall>j \<in> set js. base_channel ch ! j \<noteq> None \<longrightarrow>
         r1ch ! i \<le> r1ch ! j \<and> (j < i \<longrightarrow> r1ch ! i < r1ch ! j))"
  using assms
proof (induction js arbitrary: m idx)
  case Nil
  then show ?case by simp
next
  case (Cons a js)
  have gt: "\<forall>j \<in> set js. a < j" using Cons.prems by simp
  show ?case
  proof (cases "base_channel ch ! a \<noteq> None \<and> r1ch ! a < m")
    case True
    have IH: "if \<forall>i \<in> set js. base_channel ch ! i \<noteq> None \<longrightarrow> r1ch ! a \<le> r1ch ! i
      then raid1_next_read_loop ch r1ch js (r1ch ! a) (of_nat a) = of_nat a
      else \<exists>i \<in> set js. raid1_next_read_loop ch r1ch js (r1ch ! a) (of_nat a) = of_nat i \<and>
        base_channel ch ! i \<noteq> None \<and> r1ch ! i < r1ch ! a \<and>
        (\<forall>j \<in> set js. base_channel ch ! j \<noteq> None \<longrightarrow>
           r1ch ! i \<le> r1ch ! j \<and> (j < i \<longrightarrow> r1ch ! i < r1ch ! j))"
      by (rule Cons.IH) (use Cons.prems in simp)
    show ?thesis
    proof (cases "\<forall>i \<in> set js. base_channel ch ! i \<noteq> None \<longrightarrow> r1ch ! a \<le> r1ch ! i")
      case a_min: True
      then have "raid1_next_read_loop ch r1ch (a # js) m idx = of_nat a"
        using IH True by simp
      then show ?thesis using True a_min gt by (auto simp: not_le)
    next
      case False
      then obtain i where "i \<in> set js" "raid1_next_read_loop ch r1ch js (r1ch ! a) (of_nat a) = of_nat i"
        "base_channel ch ! i \<noteq> None" "r1ch ! i < r1ch ! a"
        "\<forall>j \<in> set js. base_channel ch ! j \<noteq> None \<longrightarrow>
           r1ch ! i \<le> r1ch ! j \<and> (j < i \<longrightarrow> r1ch ! i < r1ch ! j)"
        using IH[unfolded if_not_P[OF False]] by blast
      moreover from this have "r1ch ! i < m" using True by (meson less_trans)
      ultimately show ?thesis using True by (auto simp: not_le less_imp_le)
    qed
  next
    case False
    have skip: "raid1_next_read_loop ch r1ch (a # js) m idx = raid1_next_read_loop ch r1ch js m idx"
      by (subst raid1_next_read_loop.simps(2)) (rule if_not_P[OF False])
    have sorted: "sorted_wrt (<) js" using Cons.prems by simp
    show ?thesis
    proof (cases "\<forall>i \<in> set js. base_channel ch ! i \<noteq> None \<longrightarrow> m \<le> r1ch ! i")
      case True
      then have "\<forall>i \<in> set (a # js). base_channel ch ! i \<noteq> None \<longrightarrow> m \<le> r1ch ! i"
        using False by (auto simp: not_less)
      then show ?thesis
        using Cons.IH[OF sorted, of m idx] True unfolding skip by (simp only: if_P)
    next
      case False': False
      then have nall: "\<not> (\<forall>i \<in> set (a # js). base_channel ch ! i \<noteq> None \<longrightarrow> m \<le> r1ch ! i)" by auto
      obtain i where i: "i \<in> set js" "raid1_next_read_loop ch r1ch js m idx = of_nat i"
        "base_channel ch ! i \<noteq> None" "r1ch ! i < m"
        "\<forall>j \<in> set js. base_channel ch ! j \<noteq> None \<longrightarrow>
           r1ch ! i \<le> r1ch ! j \<and> (j < i \<longrightarrow> r1ch ! i < r1ch ! j)"
        using Cons.IH[OF sorted, of m idx, unfolded if_not_P[OF False']] by blast
      have "base_channel ch ! a \<noteq> None \<longrightarrow> r1ch ! i < r1ch ! a"
        using False i(4) by (auto simp: not_less intro: less_le_trans)
      then show ?thesis
        unfolding skip if_not_P[OF nall] using i by (intro bexI[of _ i]) auto
    qed
  qed
qed

lemma raid1_next_read_correct:
  "if \<forall>i < unat (num_channels ch). base_channel ch ! i \<noteq> None \<longrightarrow> r1ch ! i = UINT64_MAX
   then raid1_channel_next_read_base_bdev ch r1ch = UINT8_MAX
   else \<exists>i < unat (num_channels ch). unat (raid1_channel_next_read_base_bdev ch r1ch) = i \<and>
     i < 255 \<and> base_channel ch ! i \<noteq> None \<and>
     (\<forall>j < unat (num_channels ch). base_channel ch ! j \<noteq> None \<longrightarrow>
        r1ch ! i \<le> r1ch ! j \<and> (j < i \<longrightarrow> r1ch ! i < r1ch ! j))"
proof -
  let ?js = "[0..<unat (num_channels ch)]"
  have top: "UINT64_MAX \<le> x \<longleftrightarrow> x = UINT64_MAX" for x :: u64
    by (metis word_n1_ge order_antisym order_refl)
  have "sorted_wrt (<) ?js" by simp
  note L = raid1_next_read_loop_correct[OF this, of ch UINT64_MAX r1ch UINT8_MAX]
  show ?thesis
  proof (cases "\<forall>i < unat (num_channels ch). base_channel ch ! i \<noteq> None \<longrightarrow> r1ch ! i = UINT64_MAX")
    case True
    then have "\<forall>i \<in> set ?js. base_channel ch ! i \<noteq> None \<longrightarrow> UINT64_MAX \<le> r1ch ! i"
      by (simp add: top)
    then have "raid1_next_read_loop ch r1ch ?js UINT64_MAX UINT8_MAX = UINT8_MAX"
      using L by (simp only: if_P)
    then show ?thesis
      unfolding if_P[OF True] raid1_channel_next_read_base_bdev_def .
  next
    case False
    then have "\<not> (\<forall>i \<in> set ?js. base_channel ch ! i \<noteq> None \<longrightarrow> UINT64_MAX \<le> r1ch ! i)"
      by (auto simp: top Bex_def)
    from L[unfolded if_not_P[OF this]] obtain i where i: "i < unat (num_channels ch)"
      "raid1_next_read_loop ch r1ch ?js UINT64_MAX UINT8_MAX = of_nat i" "base_channel ch ! i \<noteq> None"
      "\<forall>j < unat (num_channels ch). base_channel ch ! j \<noteq> None \<longrightarrow>
         r1ch ! i \<le> r1ch ! j \<and> (j < i \<longrightarrow> r1ch ! i < r1ch ! j)"
      by auto
    have i255: "i < 255" using i(1) unat_u8_less[of "num_channels ch"] by linarith
    then have "unat (of_nat i :: u8) = i" by (simp add: unsigned_of_nat take_bit_nat_eq_self)
    then show ?thesis
      unfolding if_not_P[OF False] raid1_channel_next_read_base_bdev_def
      using i i255 by (intro exI[of _ i]) simp
  qed
qed

text \<open>A read goes to the present base bdev with the fewest read blocks in flight on this channel,
  the one with the lowest slot among equals; only when every present counter is at its maximum, or
  nothing is present, the search answers \<open>UINT8_MAX\<close>, which is never a slot.\<close>

theorem raid1_read_choice:
  "if \<forall>i < unat (num_channels ch). base_channel ch ! i \<noteq> None \<longrightarrow> r1ch ! i = UINT64_MAX
   then raid1_channel_next_read_base_bdev ch r1ch = UINT8_MAX
   else \<exists>i < unat (num_channels ch). unat (raid1_channel_next_read_base_bdev ch r1ch) = i \<and>
     i < 255 \<and> base_channel ch ! i \<noteq> None \<and>
     (\<forall>j < unat (num_channels ch). base_channel ch ! j \<noteq> None \<longrightarrow>
        r1ch ! i \<le> r1ch ! j \<and> (j < i \<longrightarrow> r1ch ! i < r1ch ! j))"
  by (rule raid1_next_read_correct)

subsection \<open>Reads\<close>

lemma raid1_read_step:
  fixes ch :: raid_bdev_io_channel and r1ch :: raid1_io_channel and rb :: raid_bdev and bio :: bdev_io
  assumes "bdev_io_type bio = IO_READ"
  defines "idx \<equiv> raid1_channel_next_read_base_bdev ch r1ch"
  defines "b \<equiv> raid_bdev_readv_blocks_ext rb (unat idx) (base_channel ch ! unat idx) (iovs bio)
    (md_buf bio) (offset_blocks bio) (num_blocks bio)"
  shows "raid1_submit_rw_request rc rb ch bio (r1ch, rio) =
    (if idx = UINT8_MAX then (r1ch, raid_bdev_io_complete STATUS_FAILED rio)
     else if rc b = 0
       then (r1ch[unat idx := r1ch ! unat idx + num_blocks bio],
             (rio_emit (EvSubmit b) (rio\<lparr>base_bdev_io_remaining := 1\<rparr>))
               \<lparr>base_bdev_io_submitted := idx\<rparr>)
     else if rc b = - ENOMEM
       then (r1ch, raid_bdev_queue_io_wait (unat idx) (rio\<lparr>base_bdev_io_remaining := 1\<rparr>))
     else (r1ch, raid_bdev_io_complete STATUS_FAILED (rio\<lparr>base_bdev_io_remaining := 1\<rparr>)))"
  using assms(1)
  by (simp add: raid1_submit_rw_request_def raid1_submit_read_request_def idx_def [symmetric]
      b_def [symmetric] bdev_submit_def raid1_channel_inc_read_counters_def Let_def)

text \<open>A read on every branch. Without a mirror it completes as failed. Otherwise it is sent once,
  unchanged, to the chosen mirror: when accepted the mirror's counter grows by its blocks and the
  slot is remembered; out of memory it waits with the counters unchanged; another error completes
  it as failed.\<close>

theorem raid1_read_request:
  fixes ch :: raid_bdev_io_channel and r1ch :: raid1_io_channel and rb :: raid_bdev and bio :: bdev_io
  assumes "bdev_io_type bio = IO_READ"
  defines "idx \<equiv> raid1_channel_next_read_base_bdev ch r1ch"
  defines "b \<equiv> raid_bdev_readv_blocks_ext rb (unat idx) (base_channel ch ! unat idx) (iovs bio)
    (md_buf bio) (offset_blocks bio) (num_blocks bio)"
  shows "raid1_submit_rw_request rc rb ch bio (r1ch, rio) =
    (if idx = UINT8_MAX then (r1ch, raid_bdev_io_complete STATUS_FAILED rio)
     else if rc b = 0
       then (r1ch[unat idx := r1ch ! unat idx + num_blocks bio],
             (rio_emit (EvSubmit b) (rio\<lparr>base_bdev_io_remaining := 1\<rparr>))
               \<lparr>base_bdev_io_submitted := idx\<rparr>)
     else if rc b = - ENOMEM
       then (r1ch, raid_bdev_queue_io_wait (unat idx) (rio\<lparr>base_bdev_io_remaining := 1\<rparr>))
     else (r1ch, raid_bdev_io_complete STATUS_FAILED (rio\<lparr>base_bdev_io_remaining := 1\<rparr>)))"
  unfolding idx_def b_def by (rule raid1_read_step[OF assms(1)])

text \<open>
  The reads of one channel: \<open>reads\<close> are the requests in flight with their raid I/Os. A read enters
  new or after having waited, and leaves when its base I/O completes.
\<close>

inductive raid1_reads ::
  "raid_bdev \<Rightarrow> raid_bdev_io_channel \<Rightarrow> raid1_io_channel \<Rightarrow> (bdev_io \<times> raid_io) list \<Rightarrow> bool"
  for rb ch where
  reads_start: "raid1_reads rb ch (raid1_channel_init rb) []"
| reads_submit:
    "raid1_reads rb ch r1ch reads \<Longrightarrow> bdev_io_type bio = IO_READ \<Longrightarrow>
     submitted_of (rio_events rio) = [] \<Longrightarrow> completions_of (rio_events rio) = [] \<Longrightarrow>
     base_bdev_io_status rio = STATUS_SUCCESS \<Longrightarrow>
     raid1_submit_rw_request rc rb ch bio (r1ch, rio) = (r1ch', rio') \<Longrightarrow>
     raid1_reads rb ch r1ch'
       (if submitted_of (rio_events rio') = [] then reads else (bio, rio') # reads)"
| reads_done:
    "raid1_reads rb ch r1ch (xs @ (bio, rio) # ys) \<Longrightarrow>
     raid1_read_bdev_io_completion success bio (r1ch, rio) = (r1ch', rio') \<Longrightarrow>
     raid1_reads rb ch r1ch' (xs @ ys)"

text \<open>The blocks of the reads in flight on slot \<open>i\<close>.\<close>

definition raid1_in_flight :: "(bdev_io \<times> raid_io) list \<Rightarrow> nat \<Rightarrow> u64" where
  "raid1_in_flight reads i =
     (\<Sum>(bio, rio) \<leftarrow> reads. if unat (base_bdev_io_submitted rio) = i then num_blocks bio else 0)"

definition raid1_reads_inv ::
  "raid_bdev \<Rightarrow> raid1_io_channel \<Rightarrow> (bdev_io \<times> raid_io) list \<Rightarrow> bool" where
  "raid1_reads_inv rb r1ch reads \<longleftrightarrow>
     length r1ch = unat (num_base_bdevs rb) \<and>
     (\<forall>i < length r1ch. r1ch ! i = raid1_in_flight reads i) \<and>
     (\<forall>(bio, rio) \<in> set reads. unat (base_bdev_io_submitted rio) < length r1ch \<and>
        base_bdev_io_remaining rio = 1 \<and> base_bdev_io_status rio = STATUS_SUCCESS \<and>
        completions_of (rio_events rio) = [])"

lemma raid1_in_flight_simps [simp]:
  "raid1_in_flight [] i = 0"
  "raid1_in_flight ((bio, rio) # rs) i =
     (if unat (base_bdev_io_submitted rio) = i then num_blocks bio else 0) + raid1_in_flight rs i"
  "raid1_in_flight (xs @ ys) i = raid1_in_flight xs i + raid1_in_flight ys i"
  by (simp_all add: raid1_in_flight_def)

lemma raid1_reads_keep:
  assumes n: "num_channels ch = num_base_bdevs rb" and "raid1_reads rb ch r1ch reads"
  shows "raid1_reads_inv rb r1ch reads"
  using assms(2)
proof induction
  case reads_start
  then show ?case by (simp add: raid1_reads_inv_def raid1_channel_init_def)
next
  case (reads_submit r1ch reads bio rio rc r1ch' rio')
  define idx where "idx = raid1_channel_next_read_base_bdev ch r1ch"
  have idx: "unat idx < length r1ch" if "idx \<noteq> UINT8_MAX"
    using raid1_next_read_correct[of ch r1ch] that n reads_submit.IH
    by (auto simp: idx_def raid1_reads_inv_def split: if_splits)
  define b where "b = raid_bdev_readv_blocks_ext rb (unat idx) (base_channel ch ! unat idx) (iovs bio)
    (md_buf bio) (offset_blocks bio) (num_blocks bio)"
  note step = raid1_read_step[OF reads_submit.hyps(2), of rc rb ch r1ch rio, folded idx_def, folded b_def]
  show ?case
  proof (cases "idx \<noteq> UINT8_MAX \<and> rc b = 0")
    case True
    then have "r1ch' = r1ch[unat idx := r1ch ! unat idx + num_blocks bio]"
      "rio' = (rio_emit (EvSubmit b) (rio\<lparr>base_bdev_io_remaining := 1\<rparr>))\<lparr>base_bdev_io_submitted := idx\<rparr>"
      using step reads_submit.hyps(6) by auto
    then show ?thesis
      using True idx reads_submit.IH reads_submit.hyps(3-5)
      by (auto simp: raid1_reads_inv_def nth_list_update add.commute)
  next
    case False
    then have "r1ch' = r1ch" "submitted_of (rio_events rio') = []"
      using step reads_submit.hyps(3,6)
      by (auto simp: raid_bdev_queue_io_wait_def split: if_splits)
    then show ?thesis using reads_submit.IH by simp
  qed
next
  case (reads_done r1ch xs bio rio ys success r1ch' rio')
  let ?i = "unat (base_bdev_io_submitted rio)"
  have "r1ch' = r1ch[?i := r1ch ! ?i - num_blocks bio]"
    using reads_done.hyps(2)
    by (simp add: raid1_read_bdev_io_completion_def raid1_channel_dec_read_counters_def)
  then show ?case
    using reads_done.IH by (auto simp: raid1_reads_inv_def nth_list_update ball_Un)
qed

text \<open>C13: on a channel the read counter of a base bdev is at every moment exactly the number of blocks of
  the reads in flight on it, whatever the order of reads, retries and completions; in particular
  it returns to zero when all reads are back.\<close>

theorem raid1_read_counters_exact:
  assumes "num_channels ch = num_base_bdevs rb" and "raid1_reads rb ch r1ch reads"
  shows "length r1ch = unat (num_base_bdevs rb) \<and>
    (\<forall>i < length r1ch. r1ch ! i = raid1_in_flight reads i)"
  using raid1_reads_keep[OF assms] by (simp add: raid1_reads_inv_def)

text \<open>A read in flight has not been completed yet, and the completion of its base I/O completes it
  exactly once, with the status of that base I/O.\<close>

theorem raid1_read_completes_once:
  assumes "num_channels ch = num_base_bdevs rb" and "raid1_reads rb ch r1ch reads"
    and "(bio, rio) \<in> set reads"
  shows "completions_of (rio_events rio) = [] \<and>
    completions_of (rio_events (snd (raid1_read_bdev_io_completion success bio (r1ch, rio)))) =
      [status_of success]"
proof -
  have "completions_of (rio_events rio) = [] \<and> base_bdev_io_remaining rio = 1 \<and>
      base_bdev_io_status rio = STATUS_SUCCESS"
    using raid1_reads_keep[OF assms(1,2)] assms(3) by (auto simp: raid1_reads_inv_def)
  then show ?thesis
    by (cases success) (simp_all add: raid1_read_bdev_io_completion_def raid1_bdev_io_completion_def)
qed

subsection \<open>Sizes\<close>

text \<open>A started mirror is as large as its smallest base bdev, and every base bdev gives it exactly
  that many blocks; a failed allocation leaves the bdev as it is.\<close>

theorem raid1_start_sizes:
  assumes "base_bdev_info rb \<noteq> []"
  shows "raid1_start False rb = (- ENOMEM, rb) \<and>
    fst (raid1_start True rb) = 0 \<and>
    unat (rb_blockcnt (snd (raid1_start True rb))) =
      Min ((\<lambda>i. unat (data_size i)) ` set (base_bdev_info rb)) \<and>
    (\<forall>info \<in> set (base_bdev_info (snd (raid1_start True rb))).
       data_size info = rb_blockcnt (snd (raid1_start True rb)))"
  using assms by (simp add: raid1_start_def foldl_min_u64 unat_Min_image)

subsection \<open>Concrete instances\<close>

definition raid1_example :: raid_bdev where
  "raid1_example = zero_raid_bdev
     \<lparr>num_base_bdevs := 2,
      base_bdev_info := [zero_base_bdev_info\<lparr>data_size := 9\<rparr>, zero_base_bdev_info\<lparr>data_size := 7\<rparr>]\<rparr>"

definition raid1_example_channel :: "nat option list \<Rightarrow> raid_bdev_io_channel" where
  "raid1_example_channel bases =
     \<lparr>base_channel = bases, num_channels = 2, module_channel = Some 9\<rparr>"

definition raid1_example_io :: "io_type \<Rightarrow> bdev_io" where
  "raid1_example_io ty =
     \<lparr>bdev_io_type = ty, offset_blocks = 3, num_blocks = 2, iovs = [], md_buf = None\<rparr>"

lemmas raid1_example_defs =
  raid1_example_def raid1_example_channel_def raid1_example_io_def zero_raid_bdev_def
  zero_base_bdev_info_def

lemma raid1_write_correct_witness:
  "\<exists>s. batch_reach_any (\<lambda>rc rio. snd (raid1_submit_rw_request rc raid1_example
         (raid1_example_channel [Some 11, None]) (raid1_example_io IO_WRITE) ([0, 0], rio)))
       raid1_write_bdev_io_completion s \<and>
     (\<exists>st. completions_of (rio_events (bs_rio s)) = [st])"
proof -
  have ok: "num_base_bdevs raid1_example \<noteq> 0" "bdev_io_type (raid1_example_io IO_WRITE) = IO_WRITE"
    by (simp_all add: raid1_example_defs)
  then obtain s where s: "batch_reach (\<lambda>rc rio. snd (raid1_submit_rw_request rc raid1_example
      (raid1_example_channel [Some 11, None]) (raid1_example_io IO_WRITE) ([0, 0], rio)))
      raid1_write_bdev_io_completion s" "\<not> waiting s" "outstanding s = []"
    using raid1_write_batch.can_finish[of "(raid1_example, raid1_example_channel [Some 11, None],
        raid1_example_io IO_WRITE, [0, 0])", unfolded raid1_write_handler_eq] by auto
  show ?thesis
    using raid1_write_correct[OF ok batch_reach_any_of_reach[OF s(1)]] s
    by (intro exI[of _ s]) (auto intro: batch_reach_any_of_reach)
qed

lemma raid1_write_without_mirror_succeeds_witness:
  "rio_events (snd (raid1_submit_rw_request (\<lambda>_. 0) raid1_example (raid1_example_channel [None, None])
     (raid1_example_io IO_WRITE) ([0, 0], raid_io_init))) = [EvComplete STATUS_SUCCESS]"
  by (rule raid1_write_without_mirror_succeeds) (simp_all add: raid1_example_defs all_less_two)

lemma raid1_read_choice_witness:
  "raid1_channel_next_read_base_bdev (raid1_example_channel [Some 11, Some 12]) [UINT64_MAX, UINT64_MAX]
     = UINT8_MAX"
  using raid1_read_choice[of "raid1_example_channel [Some 11, Some 12]" "[UINT64_MAX, UINT64_MAX]"]
  by (simp add: raid1_example_channel_def all_less_two)

lemma raid1_read_request_witness:
  "fst (raid1_submit_rw_request (\<lambda>_. 0) raid1_example (raid1_example_channel [Some 11, Some 12])
     (raid1_example_io IO_READ) ([5, 4], raid_io_init)) = [5, 6]"
  by (subst raid1_read_request)
     (simp_all add: raid1_example_defs raid1_channel_next_read_base_bdev_def upt_rec)

lemma raid1_read_example_choice:
  "raid1_channel_next_read_base_bdev (raid1_example_channel [Some 11, Some 12]) [0, 0] = 0"
  by code_simp

lemma raid1_read_example:
  "raid1_reads raid1_example (raid1_example_channel [Some 11, Some 12]) [2, 0]
     [(raid1_example_io IO_READ,
       snd (raid1_submit_rw_request (\<lambda>_. 0) raid1_example (raid1_example_channel [Some 11, Some 12])
              (raid1_example_io IO_READ) ([0, 0], raid_io_init)))]"
proof -
  let ?ch = "raid1_example_channel [Some 11, Some 12]" and ?io = "raid1_example_io IO_READ"
  obtain r1ch rio where r: "raid1_submit_rw_request (\<lambda>_. 0) raid1_example ?ch ?io
      ([0, 0], raid_io_init) = (r1ch, rio)" by fastforce
  have vals: "r1ch = [2, 0]" "submitted_of (rio_events rio) \<noteq> []"
    using r by (auto simp: raid1_read_step raid1_example_io_def raid_io_init_def
        raid1_read_example_choice)
  have "raid1_reads raid1_example ?ch (raid1_channel_init raid1_example) []" by (rule reads_start)
  moreover have "raid1_channel_init raid1_example = [0, 0]"
    by code_simp
  ultimately have "raid1_reads raid1_example ?ch [0, 0] []" by simp
  from reads_submit[OF this _ _ _ _ r] show ?thesis
    using vals r by (simp add: raid_io_init_def raid1_example_io_def)
qed

lemma raid1_read_counters_exact_witness:
  "raid1_in_flight [(raid1_example_io IO_READ,
       snd (raid1_submit_rw_request (\<lambda>_. 0) raid1_example (raid1_example_channel [Some 11, Some 12])
              (raid1_example_io IO_READ) ([0, 0], raid_io_init)))] 0 = 2"
  using raid1_read_counters_exact[OF _ raid1_read_example, THEN conjunct2, rule_format, of 0]
  by (simp add: raid1_example_def raid1_example_channel_def zero_raid_bdev_def)

lemma raid1_read_completes_once_witness:
  "completions_of (rio_events (snd (raid1_read_bdev_io_completion True (raid1_example_io IO_READ)
     ([2, 0], snd (raid1_submit_rw_request (\<lambda>_. 0) raid1_example
        (raid1_example_channel [Some 11, Some 12]) (raid1_example_io IO_READ) ([0, 0], raid_io_init))))))
   = [STATUS_SUCCESS]"
  using raid1_read_completes_once[OF _ raid1_read_example, of "raid1_example_io IO_READ"
      "snd (raid1_submit_rw_request (\<lambda>_. 0) raid1_example (raid1_example_channel [Some 11, Some 12])
         (raid1_example_io IO_READ) ([0, 0], raid_io_init))" True]
  by (simp add: raid1_example_defs)

lemma raid1_start_sizes_witness:
  "unat (rb_blockcnt (snd (raid1_start True raid1_example))) = 7"
  using raid1_start_sizes[of raid1_example] by (simp add: raid1_example_defs)

end
