(* ===== verification/Concat_Level.thy ===== *)
theory Concat_Level
  imports Raid_Batch
begin

text \<open>
  The concatenation module \<open>raid/concat.c\<close>: \<open>concat_start\<close> lays the base bdevs one after the other,
  read and write requests look up the base bdev that holds the first block, UNMAP and FLUSH
  requests walk over the base bdevs that the range touches. The specification is the pair
  \<open>concat_start_of\<close>, \<open>concat_len_of\<close>: base bdev \<open>i\<close> holds the logical blocks from the one up to the
  sum of both.

  \<open>None\<close> is the access before the array \<open>block_range\<close> that the code's assertion on a negative index
  excludes; the lemmas show that it does not happen on a started bdev.
\<close>

subsection \<open>Read and write\<close>

definition concat_bdev_io_completion :: "bool \<Rightarrow> raid_io \<Rightarrow> raid_io" where
  "concat_bdev_io_completion success rio =
     (if success then raid_bdev_io_complete STATUS_SUCCESS rio
      else raid_bdev_io_complete STATUS_FAILED rio)"

fun concat_ranges :: "module_private \<Rightarrow> concat_block_range list" where
  "concat_ranges (ConcatPrivate rs) = rs"
| "concat_ranges _ = []"

text \<open>The search loop: \<open>i\<close> is the loop variable, \<open>pd_idx\<close> the last index seen.\<close>

fun concat_pd_idx :: "concat_block_range list \<Rightarrow> u64 \<Rightarrow> nat \<Rightarrow> int \<Rightarrow> int" where
  "concat_pd_idx [] off i pd_idx = pd_idx"
| "concat_pd_idx (r # rs) off i pd_idx =
     (if range_start r > off then pd_idx else concat_pd_idx rs off (i + 1) (int i))"

definition concat_submit_rw_request ::
  "(base_io \<Rightarrow> int) \<Rightarrow> raid_bdev \<Rightarrow> raid_bdev_io_channel \<Rightarrow> bdev_io \<Rightarrow> raid_io \<Rightarrow> raid_io option" where
  "concat_submit_rw_request rc rb ch bio rio =
     (let block_range = concat_ranges (rb_private rb);
          pd_idx = concat_pd_idx block_range (offset_blocks bio) 0 (- 1)
      in if pd_idx < 0 then None
         else
           (let slot = nat pd_idx;
                pd_lba = offset_blocks bio - range_start (block_range ! slot);
                pd_blocks = num_blocks bio;
                base_ch = base_channel ch ! slot;
                (ret, rio) =
                  (case bdev_io_type bio of
                     IO_READ \<Rightarrow>
                       bdev_submit rc
                         (raid_bdev_readv_blocks_ext rb slot base_ch (iovs bio) (md_buf bio)
                            pd_lba pd_blocks) rio
                   | IO_WRITE \<Rightarrow>
                       bdev_submit rc
                         (raid_bdev_writev_blocks_ext rb slot base_ch (iovs bio) (md_buf bio)
                            pd_lba pd_blocks) rio
                   | _ \<Rightarrow> (0, rio))
            in Some (if ret = - ENOMEM then raid_bdev_queue_io_wait slot rio
                     else if ret \<noteq> 0 then raid_bdev_io_complete STATUS_FAILED rio
                     else rio)))"

subsection \<open>Ranges without payload\<close>

definition concat_base_io_complete :: "bool \<Rightarrow> raid_io \<Rightarrow> raid_io" where
  "concat_base_io_complete success rio =
     snd (raid_bdev_io_complete_part 1 (status_of success) rio)"

text \<open>The first loop: the indices of the first and the last base bdev, \<open>- 1\<close> when not found.\<close>

fun concat_find :: "concat_block_range list \<Rightarrow> int \<Rightarrow> u64 \<Rightarrow> u64 \<Rightarrow> int \<Rightarrow> int \<times> int" where
  "concat_find [] i off num start_idx = (start_idx, - 1)"
| "concat_find (r # rs) i off num start_idx =
     (if off \<ge> range_start r + range_length r then concat_find rs (i + 1) off num start_idx
      else
        (let start_idx = (if start_idx = - 1 then i else start_idx);
             pd_lba = off - range_start r;
             pd_blocks = min num (range_length r - pd_lba);
             off = off + pd_blocks;
             num = num - pd_blocks
         in if num = 0 then (start_idx, i) else concat_find rs (i + 1) off num start_idx))"

text \<open>One base I/O of the second loop; \<open>None\<close> is the invalid type, whose return code is \<open>-EIO\<close>.\<close>

definition concat_null_payload_io ::
  "raid_bdev \<Rightarrow> raid_bdev_io_channel \<Rightarrow> bdev_io \<Rightarrow> nat \<Rightarrow> u64 \<Rightarrow> u64 \<Rightarrow> base_io option" where
  "concat_null_payload_io rb ch bio i pd_lba pd_blocks =
     (case bdev_io_type bio of
        IO_UNMAP \<Rightarrow> Some (raid_bdev_unmap_blocks rb i (base_channel ch ! i) pd_lba pd_blocks)
      | IO_FLUSH \<Rightarrow> Some (raid_bdev_flush_blocks rb i (base_channel ch ! i) pd_lba pd_blocks)
      | _ \<Rightarrow> None)"

text \<open>The second loop over the indices from \<open>start_idx\<close> to \<open>stop_idx\<close>.\<close>

fun concat_null_loop ::
  "(base_io \<Rightarrow> int) \<Rightarrow> raid_bdev \<Rightarrow> raid_bdev_io_channel \<Rightarrow> bdev_io \<Rightarrow> nat \<Rightarrow> nat list
     \<Rightarrow> u64 \<Rightarrow> u64 \<Rightarrow> raid_io \<Rightarrow> raid_io" where
  "concat_null_loop rc rb ch bio start_idx [] off num rio = rio"
| "concat_null_loop rc rb ch bio start_idx (i # idxs) off num rio =
     (let r = concat_ranges (rb_private rb) ! i;
          pd_lba = off - range_start r;
          pd_blocks = min num (range_length r - pd_lba);
          off = off + pd_blocks;
          num = num - pd_blocks
      in if i < start_idx + unat (base_bdev_io_submitted rio)
         then concat_null_loop rc rb ch bio start_idx idxs off num rio
         else
           (let (ret, rio') =
                  (case concat_null_payload_io rb ch bio i pd_lba pd_blocks of
                     Some b \<Rightarrow> bdev_submit rc b rio
                   | None \<Rightarrow> (- EIO, rio))
            in if ret = 0
               then concat_null_loop rc rb ch bio start_idx idxs off num
                      (rio'\<lparr>base_bdev_io_submitted := base_bdev_io_submitted rio' + 1\<rparr>)
               else if ret = - ENOMEM then raid_bdev_queue_io_wait i rio'
               else raid_bdev_io_complete STATUS_FAILED rio'))"

definition concat_submit_null_payload_request ::
  "(base_io \<Rightarrow> int) \<Rightarrow> raid_bdev \<Rightarrow> raid_bdev_io_channel \<Rightarrow> bdev_io \<Rightarrow> raid_io \<Rightarrow> raid_io option" where
  "concat_submit_null_payload_request rc rb ch bio rio =
     (let (start_idx, stop_idx) =
            concat_find (concat_ranges (rb_private rb)) 0 (offset_blocks bio) (num_blocks bio) (- 1);
          rio = (if base_bdev_io_remaining rio = 0
                 then rio\<lparr>base_bdev_io_remaining := word_of_int (stop_idx - start_idx + 1)\<rparr>
                 else rio)
      in if start_idx < 0 then None
         else Some (concat_null_loop rc rb ch bio (nat start_idx)
                      [nat start_idx..<nat (stop_idx + 1)] (offset_blocks bio) (num_blocks bio) rio))"

subsection \<open>Start and stop\<close>

text \<open>The loop over the base bdevs: the new slots, the block ranges and the total so far.\<close>

fun concat_layout ::
  "nat \<Rightarrow> raid_base_bdev_info list \<Rightarrow> u64
     \<Rightarrow> raid_base_bdev_info list \<times> concat_block_range list \<times> u64" where
  "concat_layout shift [] total_blockcnt = ([], [], total_blockcnt)"
| "concat_layout shift (info # infos) total_blockcnt =
     (let strip_cnt = drop_bit shift (data_size info);
          pd_block_cnt = push_bit shift strip_cnt;
          (infos', ranges, total) = concat_layout shift infos (total_blockcnt + pd_block_cnt)
      in (info\<lparr>data_size := pd_block_cnt\<rparr> # infos',
          \<lparr>range_start = total_blockcnt, range_length = pd_block_cnt\<rparr> # ranges, total))"

text \<open>\<open>alloc_ok\<close> tells whether the allocation of the array succeeds.\<close>

definition concat_start :: "bool \<Rightarrow> raid_bdev \<Rightarrow> int \<times> raid_bdev" where
  "concat_start alloc_ok rb =
     (if \<not> alloc_ok then (- ENOMEM, rb)
      else
        (let (infos, block_range, total_blockcnt) =
               concat_layout (unat (strip_size_shift rb)) (base_bdev_info rb) 0
         in (0, rb\<lparr>base_bdev_info := infos, rb_private := ConcatPrivate block_range,
                   rb_blockcnt := total_blockcnt, optimal_io_boundary := strip_size rb,
                   split_on_optimal_io_boundary := True\<rparr>)))"

definition concat_stop :: "raid_bdev \<Rightarrow> bool \<times> raid_bdev" where
  "concat_stop rb = (True, rb\<lparr>rb_private := NoPrivate\<rparr>)"

subsection \<open>The layout\<close>

definition concat_lens :: "concat_block_range list \<Rightarrow> nat list" where
  "concat_lens rs = map (\<lambda>r. unat (range_length r)) rs"

definition concat_start_of :: "concat_block_range list \<Rightarrow> nat \<Rightarrow> nat" where
  "concat_start_of rs i = sum_list (take i (concat_lens rs))"

definition concat_len_of :: "concat_block_range list \<Rightarrow> nat \<Rightarrow> nat" where
  "concat_len_of rs i = concat_lens rs ! i"

text \<open>What a started concat bdev guarantees: ranges that follow each other and fill the bdev.\<close>

definition concat_wf :: "raid_bdev \<Rightarrow> bool" where
  "concat_wf rb \<longleftrightarrow>
     (let rs = concat_ranges (rb_private rb)
      in length rs = unat (num_base_bdevs rb) \<and>
         (\<forall>i < length rs. unat (range_start (rs ! i)) = concat_start_of rs i) \<and>
         unat (rb_blockcnt rb) = concat_start_of rs (length rs))"

lemma concat_start_of_0 [simp]: "concat_start_of rs 0 = 0"
  by (simp add: concat_start_of_def)

lemma concat_start_of_Suc:
  "i < length rs \<Longrightarrow> concat_start_of rs (Suc i) = concat_start_of rs i + concat_len_of rs i"
  by (simp add: concat_start_of_def concat_len_of_def concat_lens_def take_Suc_conv_app_nth)

lemma concat_start_of_mono: "i \<le> j \<Longrightarrow> concat_start_of rs i \<le> concat_start_of rs j"
  by (auto simp: concat_start_of_def take_add le_iff_add)

lemma concat_len_of_nth:
  "i < length rs \<Longrightarrow> concat_len_of rs i = unat (range_length (rs ! i))"
  by (simp add: concat_len_of_def concat_lens_def)

lemma concat_layout_length:
  "concat_layout shift infos cnt = (infos', rs, cnt') \<Longrightarrow> length rs = length infos"
  by (induction infos arbitrary: cnt infos' rs) (auto simp: Let_def split: prod.splits)

lemma concat_layout_correct:
  assumes "concat_layout shift infos cnt = (infos', rs, cnt')"
    and "unat cnt + (\<Sum>i \<leftarrow> infos. unat (data_size i) div 2 ^ shift * 2 ^ shift) < 2 ^ 64"
  shows "infos' = map (\<lambda>i. i\<lparr>data_size := push_bit shift (drop_bit shift (data_size i))\<rparr>) infos \<and>
    concat_lens rs = map (\<lambda>i. unat (data_size i) div 2 ^ shift * 2 ^ shift) infos \<and>
    (\<forall>k < length rs. unat (range_start (rs ! k)) = unat cnt + concat_start_of rs k) \<and>
    unat cnt' = unat cnt + concat_start_of rs (length rs)"
  using assms
proof (induction infos arbitrary: cnt infos' rs)
  case Nil
  then show ?case by (simp add: concat_lens_def)
next
  case (Cons i xs)
  let ?p = "push_bit shift (drop_bit shift (data_size i))"
  obtain xs' rs' where l: "concat_layout shift xs (cnt + ?p) = (xs', rs', cnt')"
    "infos' = i\<lparr>data_size := ?p\<rparr> # xs'"
    "rs = \<lparr>range_start = cnt, range_length = ?p\<rparr> # rs'"
    using Cons.prems(1) by (auto simp: Let_def split: prod.splits)
  have t: "unat (cnt + ?p) = unat cnt + unat (data_size i) div 2 ^ shift * 2 ^ shift"
    using Cons.prems(2) by (subst unat_plus_no_wrap) (simp_all add: unat_push_drop_bit)
  have "unat (cnt + ?p) + (\<Sum>i \<leftarrow> xs. unat (data_size i) div 2 ^ shift * 2 ^ shift) < 2 ^ 64"
    using Cons.prems(2) by (simp add: t)
  from Cons.IH[OF l(1) this] show ?case
    using t concat_layout_length[OF l(1)]
    by (auto simp: l concat_lens_def concat_start_of_def unat_push_drop_bit nth_Cons
        split: nat.split)
qed

text \<open>\<open>concat_start\<close> rounds every base bdev down to whole strips, places the base bdevs one after
  the other without gap or overlap and makes the raid bdev as large as their sum; a failed
  allocation leaves the bdev as it is.\<close>

theorem concat_start_layout:
  assumes "length (base_bdev_info rb) = unat (num_base_bdevs rb)"
    and "(\<Sum>i \<leftarrow> base_bdev_info rb.
      unat (data_size i) div 2 ^ unat (strip_size_shift rb) * 2 ^ unat (strip_size_shift rb)) < 2 ^ 64"
  shows "concat_start False rb = (- ENOMEM, rb) \<and>
    (\<exists>rb'. concat_start True rb = (0, rb') \<and> concat_wf rb' \<and>
      concat_lens (concat_ranges (rb_private rb')) =
        map (\<lambda>i. unat (data_size i) div 2 ^ unat (strip_size_shift rb)
                   * 2 ^ unat (strip_size_shift rb)) (base_bdev_info rb) \<and>
      map (\<lambda>i. unat (data_size i)) (base_bdev_info rb') =
        concat_lens (concat_ranges (rb_private rb')))"
proof -
  obtain infos rs cnt where l:
    "concat_layout (unat (strip_size_shift rb)) (base_bdev_info rb) 0 = (infos, rs, cnt)"
    by (metis prod_cases3)
  note c = concat_layout_correct[OF l, unfolded unsigned_0 add_0_left, OF assms(2)]
  have "concat_start True rb = (0, rb\<lparr>base_bdev_info := infos, rb_private := ConcatPrivate rs,
      rb_blockcnt := cnt, optimal_io_boundary := strip_size rb, split_on_optimal_io_boundary := True\<rparr>)"
    by (simp add: concat_start_def l)
  moreover have "length rs = unat (num_base_bdevs rb)"
    using concat_layout_length[OF l] assms(1) by simp
  ultimately show ?thesis
    using c by (auto simp: concat_start_def concat_wf_def Let_def unat_push_drop_bit comp_def)
qed

subsection \<open>Where a block lives\<close>

lemma concat_find_block:
  assumes "x < concat_start_of rs (length rs)"
  shows "\<exists>i < length rs. concat_start_of rs i \<le> x \<and> x < concat_start_of rs (Suc i)"
proof -
  have ex: "\<exists>j. x < concat_start_of rs j" using assms by blast
  define j where "j = (LEAST j. x < concat_start_of rs j)"
  have j: "x < concat_start_of rs j" unfolding j_def using ex by (rule LeastI_ex)
  have min: "k < j \<Longrightarrow> concat_start_of rs k \<le> x" for k
    unfolding j_def using not_less_Least by fastforce
  obtain i where i: "j = Suc i" using j by (cases j) auto
  have "j \<le> length rs" unfolding j_def using assms by (rule Least_le)
  then show ?thesis using i j min[of i] by (intro exI[of _ i]) simp
qed

lemma concat_block_unique:
  assumes "concat_start_of rs i \<le> x" "x < concat_start_of rs (Suc i)"
    and "concat_start_of rs j \<le> x" "x < concat_start_of rs (Suc j)"
  shows "i = j"
proof (rule ccontr)
  assume "i \<noteq> j"
  then have "Suc i \<le> j \<or> Suc j \<le> i" by auto
  then show False
    using concat_start_of_mono[of "Suc i" j rs] concat_start_of_mono[of "Suc j" i rs] assms by auto
qed

lemma concat_pd_idx_takeWhile:
  "concat_pd_idx rs off i acc =
     (let m = length (takeWhile (\<lambda>r. range_start r \<le> off) rs)
      in if m = 0 then acc else int (i + m - 1))"
proof (induction rs arbitrary: i acc)
  case Nil
  then show ?case by simp
next
  case (Cons r rs)
  show ?case
    by (auto simp: Cons Let_def not_less)
qed

lemma concat_pd_idx_block:
  assumes wf: "concat_wf rb" and off: "unat off < unat (rb_blockcnt rb)"
  defines "rs \<equiv> concat_ranges (rb_private rb)"
  shows "\<exists>i < length rs. concat_pd_idx rs off 0 (- 1) = int i \<and>
    concat_start_of rs i \<le> unat off \<and> unat off < concat_start_of rs (Suc i)"
proof -
  let ?P = "\<lambda>r. range_start r \<le> off"
  define m where "m = length (takeWhile ?P rs)"
  have starts: "unat (range_start (rs ! i)) = concat_start_of rs i" if "i < length rs" for i
    using wf that by (simp add: concat_wf_def rs_def Let_def)
  have last: "unat off < concat_start_of rs (length rs)"
    using wf off by (simp add: concat_wf_def rs_def Let_def)
  have ne: "rs \<noteq> []" using last by auto
  then have first: "?P (rs ! 0)" using starts[of 0] by (simp add: word_le_nat_alt)
  have mle: "m \<le> length rs" by (simp add: m_def length_takeWhile_le)
  have m0: "0 < m" using ne first by (cases rs) (auto simp: m_def)
  have "?P (rs ! (m - 1))"
  proof -
    have "takeWhile ?P rs ! (m - 1) \<in> set (takeWhile ?P rs)"
      using m0 by (intro nth_mem) (simp add: m_def)
    moreover have "takeWhile ?P rs ! (m - 1) = rs ! (m - 1)"
      by (rule takeWhile_nth) (use m0 in \<open>simp add: m_def\<close>)
    ultimately show ?thesis by (auto dest: set_takeWhileD)
  qed
  then have lo: "concat_start_of rs (m - 1) \<le> unat off"
    using starts[of "m - 1"] m0 mle by (simp add: word_le_nat_alt)
  have hi: "unat off < concat_start_of rs m"
  proof (cases "m < length rs")
    case True
    then have "\<not> ?P (rs ! m)" unfolding m_def by (rule nth_length_takeWhile)
    then show ?thesis using starts[OF True] by (simp add: word_le_nat_alt)
  next
    case False
    then show ?thesis using last mle by simp
  qed
  have "concat_pd_idx rs off 0 (- 1) = int (m - 1)"
    using m0 by (simp add: concat_pd_idx_takeWhile m_def Let_def)
  then show ?thesis using lo hi m0 mle by (intro exI[of _ "m - 1"]) simp
qed

lemma strip_end_bound:
  fixes x y s k :: nat
  assumes "0 < s" "x < k * s" "x div s = y div s"
  shows "y < k * s"
proof -
  have "y div s < k" using less_mult_imp_div_less[OF assms(2)] assms(3) by simp
  then show ?thesis using assms(1) by (simp add: div_less_iff_less_mult)
qed

definition concat_aligned :: "raid_bdev \<Rightarrow> bool" where
  "concat_aligned rb \<longleftrightarrow> 0 < unat (strip_size rb) \<and>
     (\<forall>len \<in> set (concat_lens (concat_ranges (rb_private rb))). unat (strip_size rb) dvd len)"

lemma dvd_sum_list: "\<forall>x \<in> set xs. s dvd x \<Longrightarrow> s dvd sum_list (xs :: nat list)"
  by (induction xs) auto

lemma concat_start_dvd:
  "concat_aligned rb \<Longrightarrow> unat (strip_size rb) dvd concat_start_of (concat_ranges (rb_private rb)) i"
  unfolding concat_aligned_def concat_start_of_def
  by (rule dvd_sum_list) (auto dest: in_set_takeD)

text \<open>On a concat bdev whose base bdevs are whole strips, a read or write request inside one strip
  becomes one base I/O to the one base bdev that holds its first block, at the block's distance
  from the start of that base bdev, and it does not reach past the end of that base bdev. What the
  layer below answers is handled as on raid0.\<close>

theorem concat_rw_one_base:
  assumes wf: "concat_wf rb" and al: "concat_aligned rb"
    and ty: "bdev_io_type bio \<in> {IO_READ, IO_WRITE}" and num: "0 < unat (num_blocks bio)"
    and fit: "unat (offset_blocks bio) + unat (num_blocks bio) \<le> unat (rb_blockcnt rb)"
    and one: "unat (offset_blocks bio) div unat (strip_size rb) =
      (unat (offset_blocks bio) + unat (num_blocks bio) - 1) div unat (strip_size rb)"
  shows "\<exists>b. bio_type b = bdev_io_type bio \<and> bio_blocks b = num_blocks bio \<and>
      bio_iovs b = iovs bio \<and> bio_md b = md_buf bio \<and>
      bio_desc b = bi_desc (base_bdev_info rb ! bio_slot b) \<and>
      bio_ch b = base_channel ch ! bio_slot b \<and>
      bio_slot b < unat (num_base_bdevs rb) \<and>
      unat (offset_blocks bio) = concat_start_of (concat_ranges (rb_private rb)) (bio_slot b) +
        unat (bio_lba b - data_offset (base_bdev_info rb ! bio_slot b)) \<and>
      unat (bio_lba b - data_offset (base_bdev_info rb ! bio_slot b)) + unat (num_blocks bio)
        \<le> concat_len_of (concat_ranges (rb_private rb)) (bio_slot b) \<and>
      concat_submit_rw_request rc rb ch bio rio =
        Some (if rc b = 0 then rio_emit (EvSubmit b) rio
              else if rc b = - ENOMEM then raid_bdev_queue_io_wait (bio_slot b) rio
              else raid_bdev_io_complete STATUS_FAILED rio)"
proof -
  let ?rs = "concat_ranges (rb_private rb)" and ?s = "unat (strip_size rb)"
  let ?x = "unat (offset_blocks bio)" and ?m = "unat (num_blocks bio)"
  obtain i where i: "i < length ?rs" "concat_pd_idx ?rs (offset_blocks bio) 0 (- 1) = int i"
    "concat_start_of ?rs i \<le> ?x" "?x < concat_start_of ?rs (Suc i)"
    using concat_pd_idx_block[OF wf, of "offset_blocks bio"] num fit by auto
  obtain k where k: "concat_start_of ?rs (Suc i) = k * ?s"
    using concat_start_dvd[OF al, of "Suc i"] by (metis dvd_def mult.commute)
  have "?x + ?m - 1 < k * ?s"
    by (rule strip_end_bound[of ?s ?x]) (use al i(4) k one in \<open>auto simp: concat_aligned_def\<close>)
  then have bound: "?x + ?m \<le> concat_start_of ?rs i + concat_len_of ?rs i"
    using k concat_start_of_Suc[OF i(1)] num by linarith
  define lba where "lba = offset_blocks bio - range_start (?rs ! i)"
  have st: "unat (range_start (?rs ! i)) = concat_start_of ?rs i" and n: "i < unat (num_base_bdevs rb)"
    using wf i(1) by (auto simp: concat_wf_def Let_def)
  have lba: "unat lba = ?x - concat_start_of ?rs i"
    unfolding lba_def using i(3) st by (subst unat_minus_no_wrap) simp_all
  define b where "b = (case bdev_io_type bio of
      IO_READ \<Rightarrow> raid_bdev_readv_blocks_ext rb i (base_channel ch ! i) (iovs bio) (md_buf bio)
                    lba (num_blocks bio)
    | _ \<Rightarrow> raid_bdev_writev_blocks_ext rb i (base_channel ch ! i) (iovs bio) (md_buf bio)
                    lba (num_blocks bio))"
  have "concat_submit_rw_request rc rb ch bio rio =
        Some (if rc b = 0 then rio_emit (EvSubmit b) rio
              else if rc b = - ENOMEM then raid_bdev_queue_io_wait (bio_slot b) rio
              else raid_bdev_io_complete STATUS_FAILED rio)"
    using ty i(2) by (auto simp: concat_submit_rw_request_def Let_def b_def lba_def bdev_submit_def
        raid_bdev_readv_blocks_ext_def raid_bdev_writev_blocks_ext_def)
  moreover have "bio_slot b = i" "bio_lba b = data_offset (base_bdev_info rb ! i) + lba"
    "bio_type b = bdev_io_type bio" "bio_blocks b = num_blocks bio" "bio_iovs b = iovs bio"
    "bio_md b = md_buf bio" "bio_desc b = bi_desc (base_bdev_info rb ! i)"
    "bio_ch b = base_channel ch ! i"
    using ty by (auto simp: b_def raid_bdev_readv_blocks_ext_def raid_bdev_writev_blocks_ext_def)
  ultimately show ?thesis using n lba bound i(3) by (intro exI[of _ b]) simp
qed

subsection \<open>The walk over a range\<close>

text \<open>The walk from block \<open>a\<close> to block \<open>e\<close> (excluded), at base bdev \<open>i\<close>: what is left to do.\<close>

definition concat_at :: "nat \<Rightarrow> nat \<Rightarrow> concat_block_range list \<Rightarrow> nat \<Rightarrow> u64 \<Rightarrow> u64 \<Rightarrow> bool" where
  "concat_at a e rs i off num \<longleftrightarrow>
     unat off = max a (concat_start_of rs i) \<and> unat off + unat num = e \<and> 0 < unat num"

text \<open>The part of the range that base bdev \<open>i\<close> holds.\<close>

definition concat_part :: "nat \<Rightarrow> nat \<Rightarrow> concat_block_range list \<Rightarrow> nat \<Rightarrow> nat set" where
  "concat_part a e rs i =
     {l. l < concat_len_of rs i \<and> a \<le> concat_start_of rs i + l \<and> concat_start_of rs i + l < e}"

definition concat_filled :: "concat_block_range list \<Rightarrow> bool" where
  "concat_filled rs \<longleftrightarrow>
     (\<forall>i < length rs. unat (range_start (rs ! i)) = concat_start_of rs i \<and>
        0 < concat_len_of rs i) \<and>
     concat_start_of rs (length rs) < 2 ^ 64"

lemma concat_at_step:
  assumes f: "concat_filled rs" and i: "i < length rs" and at: "concat_at a e rs i off num"
    and a: "a < concat_start_of rs (Suc i)"
  defines "lba \<equiv> off - range_start (rs ! i)"
    and "blocks \<equiv> min num (range_length (rs ! i) - (off - range_start (rs ! i)))"
  shows "unat lba = max a (concat_start_of rs i) - concat_start_of rs i"
    and "unat blocks = min e (concat_start_of rs (Suc i)) - max a (concat_start_of rs i)"
    and "0 < unat blocks"
    and "num - blocks = 0 \<longleftrightarrow> e \<le> concat_start_of rs (Suc i)"
    and "concat_start_of rs (Suc i) < e \<Longrightarrow> concat_at a e rs (Suc i) (off + blocks) (num - blocks)"
    and "\<not> off \<ge> range_start (rs ! i) + range_length (rs ! i)"
proof -
  let ?S = "concat_start_of rs i" and ?L = "concat_len_of rs i" and ?o = "max a (concat_start_of rs i)"
  have suc: "concat_start_of rs (Suc i) = ?S + ?L" by (rule concat_start_of_Suc[OF i])
  have st: "unat (range_start (rs ! i)) = ?S" and pos: "0 < ?L" using f i by (auto simp: concat_filled_def)
  have ln: "unat (range_length (rs ! i)) = ?L" using i by (simp add: concat_len_of_nth)
  have off: "unat off = ?o" and num: "unat num = e - ?o" and oe: "?o < e"
    using at by (auto simp: concat_at_def)
  have SL: "?S + ?L < 2 ^ 64"
    using f i concat_start_of_mono[of "Suc i" "length rs" rs] suc by (simp add: concat_filled_def)
  have oS: "?S \<le> ?o" "?o < ?S + ?L" using a suc pos by auto
  show lba: "unat lba = ?o - ?S"
    unfolding lba_def using oS off st by (subst unat_minus_no_wrap) simp_all
  have room: "unat (range_length (rs ! i) - (off - range_start (rs ! i))) = ?S + ?L - ?o"
    using oS lba ln unfolding lba_def [symmetric] by (subst unat_minus_no_wrap) auto
  show bl: "unat blocks = min e (concat_start_of rs (Suc i)) - ?o"
    unfolding blocks_def unat_min room num suc using oS oe by linarith
  show "0 < unat blocks" using bl oS oe suc by simp
  have ble: "unat blocks \<le> unat num" unfolding bl num by (intro diff_le_mono) simp
  have nb: "unat (num - blocks) = e - ?o - (min e (?S + ?L) - ?o)"
    using ble by (subst unat_minus_no_wrap) (simp_all add: num bl suc)
  have "num - blocks = 0 \<longleftrightarrow> unat (num - blocks) = 0"
    using word_unat_eq_iff[of "num - blocks" 0] by (simp only: unsigned_0)
  then show "num - blocks = 0 \<longleftrightarrow> e \<le> concat_start_of rs (Suc i)"
    unfolding nb suc using oS oe by auto
  show "concat_at a e rs (Suc i) (off + blocks) (num - blocks)" if "concat_start_of rs (Suc i) < e"
  proof -
    have "unat (off + blocks) = ?S + ?L"
      using SL that oS bl suc off by (subst unat_plus_no_wrap) auto
    then show ?thesis
      using that oS nb suc by (auto simp: concat_at_def)
  qed
  have "unat (range_start (rs ! i) + range_length (rs ! i)) = ?S + ?L"
    using SL by (subst unat_plus_no_wrap) (simp_all add: st ln)
  then show "\<not> off \<ge> range_start (rs ! i) + range_length (rs ! i)"
    using oS(2) by (simp only: word_le_nat_alt not_le off)
qed

lemma concat_find_range:
  assumes f: "concat_filled rs" and at: "concat_at a e rs i off num" and i: "i \<le> q" "q < length rs"
    and p: "p \<le> i" and lo: "a < concat_start_of rs (Suc p)"
    and q: "concat_start_of rs q < e" "e \<le> concat_start_of rs (Suc q)"
    and st: "st = (if i = p then - 1 else int p)"
  shows "concat_find (drop i rs) (int i) off num st = (int p, int q)"
  using at i p st
proof (induction "q - i" arbitrary: i off num st)
  case 0
  then have iq: "i = q" by simp
  have a: "a < concat_start_of rs (Suc q)"
    using lo concat_start_of_mono[of "Suc p" "Suc q" rs] 0 iq by simp
  have d: "drop q rs = rs ! q # drop (Suc q) rs" using i(2) by (rule Cons_nth_drop_Suc [symmetric])
  note s = concat_at_step[OF f i(2) 0(2)[unfolded iq] a]
  show ?case using s(4,6) q(2) 0(5,6) iq d by (auto simp: Let_def)
next
  case (Suc k)
  have i': "i < length rs" "i < q" using Suc.hyps(2) i(2) by auto
  have a: "a < concat_start_of rs (Suc i)"
    using lo concat_start_of_mono[of "Suc p" "Suc i" rs] Suc.prems(4) by simp
  have lt: "concat_start_of rs (Suc i) < e"
    using q(1) concat_start_of_mono[of "Suc i" q rs] i' by simp
  have d: "drop i rs = rs ! i # drop (Suc i) rs" using i'(1) by (rule Cons_nth_drop_Suc [symmetric])
  note s = concat_at_step[OF f i'(1) Suc.prems(1) a]
  let ?o = "off + min num (range_length (rs ! i) - (off - range_start (rs ! i)))"
  let ?m = "num - min num (range_length (rs ! i) - (off - range_start (rs ! i)))"
  have "concat_find (drop (Suc i) rs) (int (Suc i)) ?o ?m (int p) = (int p, int q)"
    by (rule Suc.hyps(1)) (use Suc.hyps(2) s(5)[OF lt] i' Suc.prems in auto)
  then show ?case using s(4,6) lt Suc.prems d by (auto simp: Let_def algebra_simps)
qed

lemma concat_find_skip:
  assumes f: "concat_filled rs" and p: "p \<le> length rs" and a: "concat_start_of rs p \<le> unat off"
  shows "concat_find rs 0 off num (- 1) = concat_find (drop p rs) (int p) off num (- 1)"
  using p a
proof (induction p)
  case 0
  then show ?case by simp
next
  case (Suc p)
  then have p: "p < length rs" by simp
  have suc: "concat_start_of rs (Suc p) = concat_start_of rs p + concat_len_of rs p"
    by (rule concat_start_of_Suc[OF p])
  have "concat_start_of rs (Suc p) < 2 ^ 64"
    using f concat_start_of_mono[OF Suc.prems(1), of rs] by (simp add: concat_filled_def)
  then have "unat (range_start (rs ! p) + range_length (rs ! p)) = concat_start_of rs (Suc p)"
    using f p suc by (subst unat_plus_no_wrap) (simp_all add: concat_filled_def concat_len_of_nth)
  then have "off \<ge> range_start (rs ! p) + range_length (rs ! p)"
    using Suc.prems(2) by (simp add: word_le_nat_alt)
  moreover have "drop p rs = rs ! p # drop (Suc p) rs" using p by (rule Cons_nth_drop_Suc [symmetric])
  ultimately show ?case using Suc suc by (simp add: add.commute)
qed

text \<open>The first loop finds the base bdevs of the first and of the last block.\<close>

lemma concat_find_correct:
  assumes f: "concat_filled rs" and num: "0 < unat num"
    and fit: "unat off + unat num \<le> concat_start_of rs (length rs)"
  shows "\<exists>p q. concat_find rs 0 off num (- 1) = (int p, int q) \<and> p \<le> q \<and> q < length rs \<and>
    concat_start_of rs p \<le> unat off \<and> unat off < concat_start_of rs (Suc p) \<and>
    concat_start_of rs q < unat off + unat num \<and>
    unat off + unat num \<le> concat_start_of rs (Suc q)"
proof -
  let ?a = "unat off" and ?e = "unat off + unat num"
  obtain p where p: "p < length rs" "concat_start_of rs p \<le> ?a" "?a < concat_start_of rs (Suc p)"
    using concat_find_block[of ?a rs] num fit by auto
  have last: "?e - 1 < concat_start_of rs (length rs)" using num fit by linarith
  obtain q where q: "q < length rs" "concat_start_of rs q \<le> ?e - 1" "?e - 1 < concat_start_of rs (Suc q)"
    using concat_find_block[of "?e - 1" rs, OF last] by blast
  have pq: "p \<le> q"
  proof (rule ccontr)
    assume "\<not> p \<le> q"
    then show False using concat_start_of_mono[of "Suc q" p rs] p q num by simp
  qed
  have "concat_at ?a ?e rs p off num" using p num by (simp add: concat_at_def)
  then have "concat_find (drop p rs) (int p) off num (- 1) = (int p, int q)"
    by (rule concat_find_range[OF f _ pq q(1) order_refl p(3)]) (use q num in auto)
  then show ?thesis
    using concat_find_skip[OF f less_imp_le[OF p(1)] p(2), of num] p q pq num
    by (intro exI[of _ p] exI[of _ q]) auto
qed

subsection \<open>UNMAP and FLUSH keep the contract of a resumable batch\<close>

type_synonym concat_request = "raid_bdev \<times> raid_bdev_io_channel \<times> bdev_io"

fun concat_null_ok :: "concat_request \<Rightarrow> bool" where
  "concat_null_ok (rb, ch, bio) \<longleftrightarrow>
     concat_wf rb \<and> concat_filled (concat_ranges (rb_private rb)) \<and>
     bdev_io_type bio \<in> {IO_UNMAP, IO_FLUSH} \<and> 0 < unat (num_blocks bio) \<and>
     unat (offset_blocks bio) + unat (num_blocks bio) \<le> unat (rb_blockcnt rb)"

fun concat_found :: "concat_request \<Rightarrow> nat \<times> nat" where
  "concat_found (rb, ch, bio) =
     (case concat_find (concat_ranges (rb_private rb)) 0 (offset_blocks bio) (num_blocks bio) (- 1)
      of (p, q) \<Rightarrow> (nat p, nat q))"

text \<open>What the second loop sends for a list of indices, and where it stands after it.\<close>

fun concat_jobs_from ::
  "raid_bdev \<Rightarrow> raid_bdev_io_channel \<Rightarrow> bdev_io \<Rightarrow> nat list \<Rightarrow> u64 \<Rightarrow> u64 \<Rightarrow> base_io option list" where
  "concat_jobs_from rb ch bio [] off num = []"
| "concat_jobs_from rb ch bio (i # idxs) off num =
     (let r = concat_ranges (rb_private rb) ! i;
          pd_lba = off - range_start r;
          pd_blocks = min num (range_length r - pd_lba)
      in concat_null_payload_io rb ch bio i pd_lba pd_blocks
           # concat_jobs_from rb ch bio idxs (off + pd_blocks) (num - pd_blocks))"

fun concat_after :: "concat_block_range list \<Rightarrow> nat list \<Rightarrow> u64 \<times> u64 \<Rightarrow> u64 \<times> u64" where
  "concat_after rs [] on = on"
| "concat_after rs (i # idxs) (off, num) =
     (let pd_blocks = min num (range_length (rs ! i) - (off - range_start (rs ! i)))
      in concat_after rs idxs (off + pd_blocks, num - pd_blocks))"

fun concat_null_jobs :: "concat_request \<Rightarrow> base_io option list" where
  "concat_null_jobs (rb, ch, bio) =
     (case concat_found (rb, ch, bio) of (p, q) \<Rightarrow>
        concat_jobs_from rb ch bio [p..<q + 1] (offset_blocks bio) (num_blocks bio))"

fun concat_null_run :: "concat_request \<Rightarrow> (base_io \<Rightarrow> int) \<Rightarrow> raid_io \<Rightarrow> raid_io" where
  "concat_null_run (rb, ch, bio) rc rio =
     (case concat_found (rb, ch, bio) of (p, q) \<Rightarrow>
        concat_null_loop rc rb ch bio p [p..<q + 1] (offset_blocks bio) (num_blocks bio) rio)"

text \<open>The handler's result is always \<open>Some\<close> on a started bdev.\<close>

fun concat_null_handler :: "concat_request \<Rightarrow> (base_io \<Rightarrow> int) \<Rightarrow> raid_io \<Rightarrow> raid_io" where
  "concat_null_handler (rb, ch, bio) rc rio =
     the (concat_submit_null_payload_request rc rb ch bio rio)"

lemma concat_jobs_from_append:
  "concat_jobs_from rb ch bio (xs @ ys) off num =
     concat_jobs_from rb ch bio xs off num @
     (case concat_after (concat_ranges (rb_private rb)) xs (off, num) of (off', num') \<Rightarrow>
        concat_jobs_from rb ch bio ys off' num')"
  by (induction xs arbitrary: off num) (auto simp: Let_def)

lemma concat_jobs_from_length [simp]: "length (concat_jobs_from rb ch bio xs off num) = length xs"
  by (induction xs arbitrary: off num) (auto simp: Let_def)

lemma concat_null_loop_skip:
  assumes "\<forall>i \<in> set xs. i < start + unat (base_bdev_io_submitted rio)"
  shows "concat_null_loop rc rb ch bio start (xs @ ys) off num rio =
    (case concat_after (concat_ranges (rb_private rb)) xs (off, num) of (off', num') \<Rightarrow>
       concat_null_loop rc rb ch bio start ys off' num' rio)"
  using assms by (induction xs arbitrary: off num) (auto simp: Let_def)

text \<open>The loop entered with \<open>k\<close> base I/Os already sent starts with the \<open>k\<close>-th index.\<close>

lemma concat_null_loop_resume:
  assumes k: "unat (base_bdev_io_submitted rio) = k" and le: "start + k \<le> stop"
  shows "concat_null_loop rc rb ch bio start [start..<stop] off num rio =
    (case concat_after (concat_ranges (rb_private rb)) [start..<start + k] (off, num) of (off', num') \<Rightarrow>
       concat_null_loop rc rb ch bio start [start + k..<stop] off' num' rio)"
proof -
  have "[start..<stop] = [start..<start + k] @ [start + k..<stop]"
    using le by (metis le_add1 le_add_diff_inverse upt_add_eq_append)
  then show ?thesis using k by (simp add: concat_null_loop_skip)
qed

lemma concat_jobs_from_nth:
  assumes "start + k < stop"
  shows "concat_jobs_from rb ch bio [start..<stop] off num ! k =
    (case concat_after (concat_ranges (rb_private rb)) [start..<start + k] (off, num) of (off', num') \<Rightarrow>
       let lba = off' - range_start (concat_ranges (rb_private rb) ! (start + k))
       in concat_null_payload_io rb ch bio (start + k) lba
            (min num' (range_length (concat_ranges (rb_private rb) ! (start + k)) - lba)))"
proof -
  have "[start..<stop] = [start..<start + k] @ (start + k) # [Suc (start + k)..<stop]"
    using assms by (metis le_add1 less_imp_le_nat upt_add_eq_append upt_conv_Cons le_add_diff_inverse)
  then show ?thesis
    by (simp add: concat_jobs_from_append nth_append Let_def split: prod.splits)
qed

lemma concat_found_props:
  assumes ok: "concat_null_ok (rb, ch, bio)" and pq: "concat_found (rb, ch, bio) = (p, q)"
  defines "rs \<equiv> concat_ranges (rb_private rb)"
  shows "concat_find rs 0 (offset_blocks bio) (num_blocks bio) (- 1) = (int p, int q)"
    and "p \<le> q" and "q < length rs" and "length rs < 256"
    and "concat_start_of rs p \<le> unat (offset_blocks bio)"
    and "unat (offset_blocks bio) < concat_start_of rs (Suc p)"
    and "concat_start_of rs q < unat (offset_blocks bio) + unat (num_blocks bio)"
    and "unat (offset_blocks bio) + unat (num_blocks bio) \<le> concat_start_of rs (Suc q)"
proof -
  have f: "concat_filled rs" and num: "0 < unat (num_blocks bio)"
    and fit: "unat (offset_blocks bio) + unat (num_blocks bio) \<le> concat_start_of rs (length rs)"
    and len: "length rs = unat (num_base_bdevs rb)"
    using ok by (auto simp: rs_def concat_wf_def Let_def)
  note * = concat_find_correct[OF f num fit]
  then have eq: "concat_find rs 0 (offset_blocks bio) (num_blocks bio) (- 1) = (int p, int q)"
    using pq by (auto simp: rs_def)
  then show "concat_find rs 0 (offset_blocks bio) (num_blocks bio) (- 1) = (int p, int q)" .
  show "p \<le> q" "q < length rs" "length rs < 256"
    "concat_start_of rs p \<le> unat (offset_blocks bio)"
    "unat (offset_blocks bio) < concat_start_of rs (Suc p)"
    "concat_start_of rs q < unat (offset_blocks bio) + unat (num_blocks bio)"
    "unat (offset_blocks bio) + unat (num_blocks bio) \<le> concat_start_of rs (Suc q)"
    using * len unfolding eq by auto
qed

lemma concat_null_payload_io_slot:
  "concat_null_payload_io rb ch bio i lba n = Some b \<Longrightarrow> bio_slot b = i"
  by (auto simp: concat_null_payload_io_def raid_bdev_unmap_blocks_def raid_bdev_flush_blocks_def
      split: io_type.splits)

lemma concat_null_payload_io_some:
  "concat_null_ok (rb, ch, bio) \<Longrightarrow> concat_null_payload_io rb ch bio i lba n \<noteq> None"
  by (auto simp: concat_null_payload_io_def)

declare concat_found.simps [simp del] concat_null_ok.simps [simp del]

lemma concat_after_append [simp]:
  "concat_after rs (xs @ ys) on = concat_after rs ys (concat_after rs xs on)"
  by (induction rs xs on rule: concat_after.induct) (auto simp: Let_def)

text \<open>One iteration of the second loop, in terms of the job it stands at.\<close>

lemma concat_null_run_step:
  assumes ok: "concat_null_ok (rb, ch, bio)"
    and k: "unat (base_bdev_io_submitted rio) < length (concat_null_jobs (rb, ch, bio))"
    and b: "concat_null_jobs (rb, ch, bio) ! unat (base_bdev_io_submitted rio) = Some b"
  shows "concat_null_run (rb, ch, bio) rc rio =
    (if rc b = 0
     then concat_null_run (rb, ch, bio) rc ((rio_emit (EvSubmit b) rio)
            \<lparr>base_bdev_io_submitted := base_bdev_io_submitted rio + 1\<rparr>)
     else if rc b = - ENOMEM then raid_bdev_queue_io_wait (bio_slot b) rio
     else raid_bdev_io_complete STATUS_FAILED rio)"
proof -
  obtain p q where pq: "concat_found (rb, ch, bio) = (p, q)" by fastforce
  define k where "k = unat (base_bdev_io_submitted rio)"
  let ?rs = "concat_ranges (rb_private rb)" and ?on = "(offset_blocks bio, num_blocks bio)"
  have kq: "p + k < q + 1" using k pq by (simp add: k_def del: upt_Suc)
  have k1: "unat (base_bdev_io_submitted rio + 1) = Suc k"
    using kq concat_found_props(3,4)[OF ok pq] k_def
    by (subst unat_plus_no_wrap) simp_all
  obtain off num where at: "concat_after ?rs [p..<p + k] ?on = (off, num)" by fastforce
  define lba where "lba = off - range_start (?rs ! (p + k))"
  define n where "n = min num (range_length (?rs ! (p + k)) - lba)"
  have io: "concat_null_payload_io rb ch bio (p + k) lba n = Some b"
    using b concat_jobs_from_nth[OF kq, of rb ch bio "offset_blocks bio" "num_blocks bio"] at pq
    by (simp add: k_def lba_def n_def Let_def del: upt_Suc)
  have slot: "bio_slot b = p + k" using io by (rule concat_null_payload_io_slot)
  have at1: "concat_after ?rs [p..<p + Suc k] ?on = (off + n, num - n)"
    using at by (simp add: n_def lba_def Let_def)
  have here: "concat_null_run (rb, ch, bio) rc rio =
      concat_null_loop rc rb ch bio p [p + k..<q + 1] off num rio"
    using concat_null_loop_resume[of rio k p "q + 1" rc rb ch bio "offset_blocks bio" "num_blocks bio"] at kq pq
    by (simp add: k_def del: upt_Suc)
  have next_run: "concat_null_run (rb, ch, bio) rc rio' =
      concat_null_loop rc rb ch bio p [p + Suc k..<q + 1] (off + n) (num - n) rio'"
    if "base_bdev_io_submitted rio' = base_bdev_io_submitted rio + 1" for rio'
    using concat_null_loop_resume[of rio' "Suc k" p "q + 1" rc rb ch bio "offset_blocks bio" "num_blocks bio"]
      at1 kq pq that k1
    by (simp del: upt_Suc)
  have upt: "[p + k..<q + 1] = (p + k) # [p + Suc k..<q + 1]" using kq by (simp add: upt_conv_Cons del: upt_Suc)
  show ?thesis
    unfolding here upt
    using io slot next_run[of "(rio_emit (EvSubmit b) rio)
            \<lparr>base_bdev_io_submitted := base_bdev_io_submitted rio + 1\<rparr>"]
    by (simp add: k_def [symmetric] bdev_submit_def lba_def [symmetric] n_def [symmetric] del: upt_Suc)
qed

lemma concat_null_handler_start:
  assumes ok: "concat_null_ok (rb, ch, bio)" and pq: "concat_found (rb, ch, bio) = (p, q)"
  shows "concat_submit_null_payload_request rc rb ch bio rio =
    Some (concat_null_run (rb, ch, bio) rc
      (if base_bdev_io_remaining rio = 0
       then rio\<lparr>base_bdev_io_remaining := of_nat (length (concat_null_jobs (rb, ch, bio)))\<rparr>
       else rio))"
proof -
  have "int q - int p + 1 = int (q + 1 - p)" using concat_found_props(2)[OF ok pq] by simp
  then have "(word_of_int (int q - int p + 1) :: u64) = of_nat (q + 1 - p)"
    by (simp only: of_int_of_nat_eq)
  moreover have "nat (int q + 1) = q + 1" by simp
  ultimately show ?thesis
    using concat_found_props(1)[OF ok pq] pq
    by (simp add: concat_submit_null_payload_request_def del: upt_Suc)
qed

declare concat_null_jobs.simps [simp del] concat_null_run.simps [simp del]

lemma concat_null_jobs_length:
  "concat_found (rb, ch, bio) = (p, q) \<Longrightarrow> length (concat_null_jobs (rb, ch, bio)) = q + 1 - p"
  by (simp add: concat_null_jobs.simps del: upt_Suc)

interpretation concat_batch: resumable_batch concat_null_ok concat_null_run concat_null_jobs
  "\<lambda>_. raid_bdev_io_complete STATUS_FAILED" concat_null_handler concat_base_io_complete
proof (unfold_locales, goal_cases)
  case (1 c)
  obtain rb ch bio where c: "c = (rb, ch, bio)" by (cases c)
  obtain p q where pq: "concat_found (rb, ch, bio) = (p, q)" by fastforce
  show ?case
    using concat_found_props(2,3,4)[OF 1[unfolded c] pq] concat_null_jobs_length[OF pq]
    by (simp add: c)
next
  case (2 c rio rc)
  obtain rb ch bio where c: "c = (rb, ch, bio)" by (cases c)
  obtain p q where pq: "concat_found (rb, ch, bio) = (p, q)" by fastforce
  have "p \<le> q" using concat_found_props(2)[OF 2(1)[unfolded c] pq] .
  then show ?case
    using 2(2) concat_null_jobs_length[OF pq] pq
      concat_null_loop_skip[of "[p..<q + 1]" p rio rc rb ch bio "[]"]
    by (simp add: c concat_null_run.simps split: prod.splits del: upt_Suc)
next
  case (3 c rio rc)
  obtain rb ch bio where c: "c = (rb, ch, bio)" by (cases c)
  obtain p q where pq: "concat_found (rb, ch, bio) = (p, q)" by fastforce
  have "p + unat (base_bdev_io_submitted rio) < q + 1"
    using 3(2) concat_null_jobs_length[OF pq] by (simp add: c)
  from concat_jobs_from_nth[OF this, of rb ch bio "offset_blocks bio" "num_blocks bio"]
  have "\<exists>i lba n. concat_null_jobs c ! unat (base_bdev_io_submitted rio) =
      concat_null_payload_io rb ch bio i lba n"
    using pq by (auto simp: c concat_null_jobs.simps Let_def simp del: upt_Suc split: prod.splits)
  then show ?case
    using 3(3) concat_null_payload_io_some[OF 3(1)[unfolded c]] by metis
next
  case (4 c rio b rc)
  then show ?case
    by (cases c) (simp only: concat_null_run_step[where b = b], simp)
next
  case (5 c rio b rc)
  then show ?case
    by (cases c) (simp only: concat_null_run_step[where b = b], simp)
next
  case (6 c rio b rc)
  then show ?case
    by (cases c) (simp only: concat_null_run_step[where b = b], simp)
next
  case (7 c rio rc)
  then show ?case
    by (cases c; cases "concat_found c") (simp add: concat_null_handler_start)
next
  case (8 c rio rc)
  then show ?case
    by (cases c; cases "concat_found c") (simp add: concat_null_handler_start)
next
  case (9 success rio)
  then show ?case by (simp add: concat_base_io_complete_def)
qed

subsection \<open>The ranges sent\<close>

lemma concat_at_after:
  assumes f: "concat_filled rs" and at: "concat_at a e rs p off num"
    and lo: "a < concat_start_of rs (Suc p)" and q: "concat_start_of rs q < e" "q < length rs"
    and k: "p + k \<le> q"
  shows "case concat_after rs [p..<p + k] (off, num) of (off', num') \<Rightarrow> concat_at a e rs (p + k) off' num'"
  using k
proof (induction k)
  case 0
  then show ?case using at by simp
next
  case (Suc k)
  obtain off' num' where o: "concat_after rs [p..<p + k] (off, num) = (off', num')" by fastforce
  have at': "concat_at a e rs (p + k) off' num'" using Suc o by simp
  have a: "a < concat_start_of rs (Suc (p + k))"
    using lo concat_start_of_mono[of "Suc p" "Suc (p + k)" rs] by simp
  have lt: "concat_start_of rs (Suc (p + k)) < e"
    using q(1) concat_start_of_mono[of "Suc (p + k)" q rs] Suc.prems by simp
  have "p + k < length rs" using Suc.prems q(2) by simp
  from concat_at_step(5)[OF f this at' a lt] show ?case using o by (simp add: Let_def)
qed

lemma concat_part_interval:
  assumes suc: "concat_start_of rs (Suc i) = concat_start_of rs i + concat_len_of rs i"
    and lt: "concat_start_of rs i < e" and lo: "a < concat_start_of rs (Suc i)" and ae: "a < e"
  shows "{max a (concat_start_of rs i) - concat_start_of rs i ..<
      max a (concat_start_of rs i) - concat_start_of rs i +
      (min e (concat_start_of rs (Suc i)) - max a (concat_start_of rs i))} = concat_part a e rs i"
    (is "?A = ?B")
proof (rule set_eqI)
  fix l
  show "l \<in> ?A \<longleftrightarrow> l \<in> ?B"
    using lt lo ae unfolding suc concat_part_def
    by (cases "a \<le> concat_start_of rs i"; cases "e \<le> concat_start_of rs i + concat_len_of rs i")
       (simp_all add: max_def min_def, linarith+)
qed

lemma concat_null_job_exact:
  assumes ok: "concat_null_ok (rb, ch, bio)" and pq: "concat_found (rb, ch, bio) = (p, q)"
    and k: "p + k \<le> q"
  defines "a \<equiv> unat (offset_blocks bio)"
    and "e \<equiv> unat (offset_blocks bio) + unat (num_blocks bio)"
    and "rs \<equiv> concat_ranges (rb_private rb)"
  shows "\<exists>b. concat_null_jobs (rb, ch, bio) ! k = Some b \<and> bio_slot b = p + k \<and>
    bio_type b = bdev_io_type bio \<and> 0 < unat (bio_blocks b) \<and>
    base_io_blocks rb b = concat_part a e rs (p + k)"
proof -
  note pp = concat_found_props[OF ok pq, folded a_def rs_def]
  have f: "concat_filled rs" and num: "0 < unat (num_blocks bio)"
    using ok by (simp_all add: concat_null_ok.simps rs_def)
  have at: "concat_at a e rs p (offset_blocks bio) (num_blocks bio)"
    using pp(5) num by (simp add: concat_at_def a_def e_def)
  obtain off num where o: "concat_after rs [p..<p + k] (offset_blocks bio, num_blocks bio) = (off, num)"
    by fastforce
  have at': "concat_at a e rs (p + k) off num"
    using concat_at_after[OF f at pp(6) _ pp(3) k] pp(7) o by (simp add: a_def e_def)
  have lo: "a < concat_start_of rs (Suc (p + k))"
    using pp(6) concat_start_of_mono[of "Suc p" "Suc (p + k)" rs] by simp
  have i: "p + k < length rs" using k pp(3) by simp
  note s = concat_at_step[OF f i at' lo]
  define lba where "lba = off - range_start (rs ! (p + k))"
  define n where "n = min num (range_length (rs ! (p + k)) - lba)"
  obtain b where b: "concat_null_payload_io rb ch bio (p + k) lba n = Some b"
    using concat_null_payload_io_some[OF ok] by blast
  have job: "concat_null_jobs (rb, ch, bio) ! k = Some b"
    using concat_jobs_from_nth[of p k "q + 1" rb ch bio "offset_blocks bio" "num_blocks bio"] k pq o b
    by (simp add: concat_null_jobs.simps rs_def lba_def n_def Let_def del: upt_Suc)
  have eq: "bio_slot b = p + k" "bio_type b = bdev_io_type bio" "bio_blocks b = n"
    "bio_lba b - data_offset (base_bdev_info rb ! (p + k)) = lba"
    using b by (auto simp: concat_null_payload_io_def raid_bdev_unmap_blocks_def
        raid_bdev_flush_blocks_def split: io_type.splits)
  have suc: "concat_start_of rs (Suc (p + k)) = concat_start_of rs (p + k) + concat_len_of rs (p + k)"
    by (rule concat_start_of_Suc[OF i])
  have lt: "concat_start_of rs (p + k) < e"
    using at' by (auto simp: concat_at_def)
  have ae: "a < e" using num by (simp add: a_def e_def)
  have "base_io_blocks rb b = concat_part a e rs (p + k)"
    unfolding base_io_blocks_def eq lba_def n_def s(1,2)
    by (rule concat_part_interval[OF suc lt lo ae])
  then show ?thesis using job eq s(3) by (intro exI[of _ b]) (simp add: n_def lba_def)
qed

lemma concat_part_empty:
  assumes "concat_null_ok (rb, ch, bio)" and "concat_found (rb, ch, bio) = (p, q)"
    and "d < p \<or> q < d" and "d < unat (num_base_bdevs rb)"
  shows "concat_part (unat (offset_blocks bio)) (unat (offset_blocks bio) + unat (num_blocks bio))
    (concat_ranges (rb_private rb)) d = {}"
proof -
  let ?rs = "concat_ranges (rb_private rb)"
  note pp = concat_found_props[OF assms(1,2)]
  have "d < length ?rs" using assms(1,4) by (simp add: concat_null_ok.simps concat_wf_def Let_def)
  note suc = concat_start_of_Suc[OF this]
  show ?thesis
    using assms(3) pp(5,8) suc concat_start_of_mono[of "Suc d" p ?rs]
      concat_start_of_mono[of "Suc q" d ?rs]
    by (auto simp: concat_part_def)
qed

lemma concat_handler_eq:
  "concat_null_handler (rb, ch, bio) = (\<lambda>rc rio. the (concat_submit_null_payload_request rc rb ch bio rio))"
  by (simp add: fun_eq_iff)

text \<open>On a started concat bdev with non-empty base bdevs, an UNMAP or FLUSH request inside the
  bdev never indexes before the array of ranges.\<close>

theorem concat_null_payload_defined:
  assumes "concat_null_ok (rb, ch, bio)"
  shows "concat_submit_null_payload_request rc rb ch bio rio \<noteq> None"
  by (cases "concat_found (rb, ch, bio)") (simp add: concat_null_handler_start[OF assms])

text \<open>All base I/Os of a request at once: one for each slot from the first to the last.\<close>

lemma concat_null_jobs_exact:
  assumes ok: "concat_null_ok (rb, ch, bio)" and pq: "concat_found (rb, ch, bio) = (p, q)"
  obtains js where "concat_null_jobs (rb, ch, bio) = map Some js" and "length js = q + 1 - p"
    and "\<And>k. k < length js \<Longrightarrow> bio_slot (js ! k) = p + k \<and> bio_type (js ! k) = bdev_io_type bio \<and>
      bio_blocks (js ! k) \<noteq> 0 \<and> base_io_blocks rb (js ! k) =
      concat_part (unat (offset_blocks bio)) (unat (offset_blocks bio) + unat (num_blocks bio))
        (concat_ranges (rb_private rb)) (p + k)"
proof -
  define js where "js = map (\<lambda>k. the (concat_null_jobs (rb, ch, bio) ! k)) [0..<q + 1 - p]"
  have len: "length js = q + 1 - p" by (simp add: js_def del: upt_Suc)
  have job: "\<exists>b. concat_null_jobs (rb, ch, bio) ! k = Some b \<and> js ! k = b \<and> bio_slot b = p + k \<and>
      bio_type b = bdev_io_type bio \<and> bio_blocks b \<noteq> 0 \<and> base_io_blocks rb b =
      concat_part (unat (offset_blocks bio)) (unat (offset_blocks bio) + unat (num_blocks bio))
        (concat_ranges (rb_private rb)) (p + k)" if "k < q + 1 - p" for k
  proof -
    have "p + k \<le> q" using that by linarith
    from concat_null_job_exact[OF ok pq this] obtain b where
      "concat_null_jobs (rb, ch, bio) ! k = Some b \<and> bio_slot b = p + k \<and>
       bio_type b = bdev_io_type bio \<and> 0 < unat (bio_blocks b) \<and> base_io_blocks rb b =
       concat_part (unat (offset_blocks bio)) (unat (offset_blocks bio) + unat (num_blocks bio))
         (concat_ranges (rb_private rb)) (p + k)" ..
    then show ?thesis using that by (intro exI[of _ b]) (auto simp: js_def simp del: upt_Suc)
  qed
  have "concat_null_jobs (rb, ch, bio) = map Some js"
  proof (rule nth_equalityI)
    show "concat_null_jobs (rb, ch, bio) ! k = map Some js ! k" if "k < length (concat_null_jobs (rb, ch, bio))" for k
      using job[of k] that len by (auto simp only: concat_null_jobs_length[OF pq] nth_map)
  qed (simp add: concat_null_jobs_length[OF pq] len)
  then show ?thesis
  proof (rule that[OF _ len])
    fix k assume "k < length js"
    then show "bio_slot (js ! k) = p + k \<and> bio_type (js ! k) = bdev_io_type bio \<and>
      bio_blocks (js ! k) \<noteq> 0 \<and> base_io_blocks rb (js ! k) =
      concat_part (unat (offset_blocks bio)) (unat (offset_blocks bio) + unat (num_blocks bio))
        (concat_ranges (rb_private rb)) (p + k)"
      using job[of k] len by (auto simp only:)
  qed
qed

lemma consecutive_slots:
  assumes "\<And>k. k < length js \<Longrightarrow> bio_slot (js ! k) = p + k"
  shows "sorted_wrt (<) (map bio_slot js)"
    and "{b \<in> set js. bio_slot b = d} = (if p \<le> d \<and> d < p + length js then {js ! (d - p)} else {})"
  using assms by (auto simp: sorted_wrt_iff_nth_less in_set_conv_nth intro!: exI[of _ "d - p"])

text \<open>C14: an UNMAP or FLUSH request on a concat bdev completes exactly once, after the last of its
  base I/Os, and fails exactly when one of them failed; when it is over it has sent one non-empty
  base I/O, in slot order, to each base bdev that holds a block of the range, and each covers
  exactly the blocks of the range that this base bdev holds.\<close>

theorem concat_null_payload_correct:
  assumes ok: "concat_null_ok (rb, ch, bio)"
    and reach: "batch_reach (\<lambda>rc rio. the (concat_submit_null_payload_request rc rb ch bio rio))
      concat_base_io_complete s"
    and bs: "bs = submitted_of (rio_events (bs_rio s))"
  shows "if waiting s \<or> outstanding s \<noteq> [] then completions_of (rio_events (bs_rio s)) = []
    else completions_of (rio_events (bs_rio s)) = [status_of (\<not> some_failed s)] \<and>
      sorted_wrt (<) (map bio_slot bs) \<and>
      (\<forall>b \<in> set bs. bio_type b = bdev_io_type bio \<and> bio_blocks b \<noteq> 0) \<and>
      (\<forall>d < unat (num_base_bdevs rb).
         concat_part (unat (offset_blocks bio)) (unat (offset_blocks bio) + unat (num_blocks bio))
           (concat_ranges (rb_private rb)) d =
         (\<Union>b \<in> {b \<in> set bs. bio_slot b = d}. base_io_blocks rb b))"
proof (cases "waiting s \<or> outstanding s \<noteq> []")
  case True
  then show ?thesis
    using concat_batch.completes_exactly_once[OF ok reach[folded concat_handler_eq]] by simp
next
  case False
  obtain p q where pq: "concat_found (rb, ch, bio) = (p, q)" by fastforce
  from concat_null_jobs_exact[OF ok pq] obtain js where jobs: "concat_null_jobs (rb, ch, bio) = map Some js"
    and len: "length js = q + 1 - p"
    and job: "\<And>k. k < length js \<Longrightarrow> bio_slot (js ! k) = p + k \<and> bio_type (js ! k) = bdev_io_type bio \<and>
      bio_blocks (js ! k) \<noteq> 0 \<and> base_io_blocks rb (js ! k) =
      concat_part (unat (offset_blocks bio)) (unat (offset_blocks bio) + unat (num_blocks bio))
        (concat_ranges (rb_private rb)) (p + k)" by blast
  have "completions_of (rio_events (bs_rio s)) = [status_of (\<not> some_failed s)]"
    and js: "bs = js"
    using concat_batch.completes_exactly_once[OF ok reach[folded concat_handler_eq]] False bs jobs by auto
  moreover have "sorted_wrt (<) (map bio_slot js)" using job consecutive_slots(1) by blast
  moreover have "\<forall>b \<in> set js. bio_type b = bdev_io_type bio \<and> bio_blocks b \<noteq> 0"
    using job by (auto simp: in_set_conv_nth)
  moreover have "concat_part (unat (offset_blocks bio)) (unat (offset_blocks bio) + unat (num_blocks bio))
        (concat_ranges (rb_private rb)) d = (\<Union>b \<in> {b \<in> set js. bio_slot b = d}. base_io_blocks rb b)"
    if d: "d < unat (num_base_bdevs rb)" for d
  proof (cases "p \<le> d \<and> d \<le> q")
    case True
    then have k: "d - p < length js" and d': "p + (d - p) = d" using len by linarith+
    then show ?thesis using job[OF k] True len consecutive_slots(2)[of js p d] job by simp
  next
    case False
    then show ?thesis
      using concat_part_empty[OF ok pq _ d] len consecutive_slots(2)[of js p d] job by (auto simp: not_le)
  qed
  ultimately show ?thesis using False by simp
qed

subsection \<open>Concrete instances\<close>

text \<open>Three base bdevs with strips of four blocks; \<open>len\<close> is the size of the one in the middle.\<close>

definition concat_example :: "u64 \<Rightarrow> raid_bdev" where
  "concat_example len = zero_raid_bdev
     \<lparr>num_base_bdevs := 3, strip_size := 4, strip_size_shift := 2,
      base_bdev_info :=
        [zero_base_bdev_info\<lparr>data_offset := 100, data_size := 9\<rparr>,
         zero_base_bdev_info\<lparr>data_size := len\<rparr>,
         zero_base_bdev_info\<lparr>data_offset := 200, data_size := 4\<rparr>]\<rparr>"

definition concat_example_started :: "u64 \<Rightarrow> raid_bdev" where
  "concat_example_started len = snd (concat_start True (concat_example len))"

definition concat_example_channel :: raid_bdev_io_channel where
  "concat_example_channel =
     \<lparr>base_channel = [Some 1, Some 2, Some 3], num_channels = 3, module_channel = None\<rparr>"

definition concat_example_io :: "io_type \<Rightarrow> u64 \<Rightarrow> u64 \<Rightarrow> bdev_io" where
  "concat_example_io ty off num =
     \<lparr>bdev_io_type = ty, offset_blocks = off, num_blocks = num, iovs = [], md_buf = None\<rparr>"

lemma concat_example_started_eval:
  "concat_example_started 4 = (concat_example 4)
     \<lparr>base_bdev_info :=
        [zero_base_bdev_info\<lparr>data_offset := 100, data_size := 8\<rparr>,
         zero_base_bdev_info\<lparr>data_size := 4\<rparr>,
         zero_base_bdev_info\<lparr>data_offset := 200, data_size := 4\<rparr>],
      rb_private := ConcatPrivate
        [\<lparr>range_start = 0, range_length = 8\<rparr>, \<lparr>range_start = 8, range_length = 4\<rparr>,
         \<lparr>range_start = 12, range_length = 4\<rparr>],
      rb_blockcnt := 16, optimal_io_boundary := 4, split_on_optimal_io_boundary := True\<rparr>"
  by (simp add: concat_example_started_def concat_start_def concat_example_def zero_raid_bdev_def
      zero_base_bdev_info_def)

lemma concat_example_facts:
  "concat_wf (concat_example_started 4)" "concat_aligned (concat_example_started 4)"
  "concat_filled (concat_ranges (rb_private (concat_example_started 4)))"
  "concat_start_of (concat_ranges (rb_private (concat_example_started 4))) 1 = 8"
  "num_base_bdevs (concat_example_started 4) = 3" "rb_blockcnt (concat_example_started 4) = 16"
  "strip_size (concat_example_started 4) = 4"
  by (simp_all add: concat_example_started_eval concat_wf_def concat_aligned_def concat_filled_def
      concat_lens_def concat_start_of_def concat_len_of_def concat_example_def zero_raid_bdev_def
      All_less_Suc)

lemma concat_start_layout_witness: "concat_wf (concat_example_started 4)"
  using concat_start_layout[of "concat_example 4"]
  by (auto simp: concat_example_started_def concat_example_def zero_raid_bdev_def
      zero_base_bdev_info_def)

lemma concat_rw_one_base_witness:
  "\<exists>b. bio_slot b < 3 \<and>
    10 = concat_start_of (concat_ranges (rb_private (concat_example_started 4))) (bio_slot b) +
      unat (bio_lba b - data_offset (base_bdev_info (concat_example_started 4) ! bio_slot b)) \<and>
    concat_submit_rw_request (\<lambda>_. 0) (concat_example_started 4) concat_example_channel
      (concat_example_io IO_WRITE 10 2) raid_io_init = Some (rio_emit (EvSubmit b) raid_io_init)"
  using concat_rw_one_base[OF concat_example_facts(1,2),
      of "concat_example_io IO_WRITE 10 2" concat_example_channel "\<lambda>_. 0" raid_io_init]
  by (auto simp: concat_example_io_def concat_example_facts)

lemma concat_null_example_ok:
  "concat_null_ok (concat_example_started 4, concat_example_channel, concat_example_io IO_FLUSH 5 9)"
  using concat_example_facts by (simp add: concat_null_ok.simps concat_example_io_def)

lemma concat_null_payload_defined_witness:
  "concat_submit_null_payload_request (\<lambda>_. 0) (concat_example_started 4) concat_example_channel
     (concat_example_io IO_FLUSH 5 9) raid_io_init \<noteq> None"
  by (rule concat_null_payload_defined[OF concat_null_example_ok])

lemma concat_null_payload_correct_witness:
  "\<exists>s. batch_reach (\<lambda>rc rio. the (concat_submit_null_payload_request rc (concat_example_started 4)
         concat_example_channel (concat_example_io IO_FLUSH 5 9) rio)) concat_base_io_complete s \<and>
       sorted_wrt (<) (map bio_slot (submitted_of (rio_events (bs_rio s)))) \<and>
       completions_of (rio_events (bs_rio s)) = [status_of (\<not> some_failed s)]"
proof -
  obtain s where s: "batch_reach (\<lambda>rc rio. the (concat_submit_null_payload_request rc
      (concat_example_started 4) concat_example_channel (concat_example_io IO_FLUSH 5 9) rio))
      concat_base_io_complete s" "\<not> waiting s" "outstanding s = []"
    using concat_batch.can_finish[OF concat_null_example_ok, unfolded concat_handler_eq] by blast
  show ?thesis
    using concat_null_payload_correct[OF concat_null_example_ok s(1) refl] s
    by (intro exI[of _ s]) simp
qed

text \<open>A base bdev smaller than one strip becomes an empty member, and an UNMAP that spans it sends
  it a base I/O of zero blocks: the second loop does not skip the members that the first one skips.\<close>

theorem concat_empty_member_gets_zero_blocks:
  "\<exists>b \<in> set (submitted_of (rio_events (the (concat_submit_null_payload_request (\<lambda>_. 0)
      (concat_example_started 3) concat_example_channel (concat_example_io IO_UNMAP 6 4)
      raid_io_init)))).
    bio_slot b = 1 \<and> bio_blocks b = 0"
  by code_simp

end
