(* ===== verification/Raid_Lifecycle.thy ===== *)
theory Raid_Lifecycle
  imports Raid_Config Raid0_Level Raid1_Level Concat_Level "HOL-Library.Multiset"
begin

text \<open>
  The invariants of the life of raid bdevs over all interleavings of requests and callbacks:
  \<open>raid_reach\<close> is the transition system whose steps are the functions of \<open>Raid_Config\<close> and the
  callbacks of the asynchronous calls under way. The locale \<open>raid_module_contract\<close> holds what
  \<open>bdev_raid.c\<close> relies on in a module's \<open>start\<close>, \<open>stop\<close> and \<open>resize\<close>; it is interpreted on the module
  tables of \<open>raid0.c\<close>, \<open>raid1.c\<close> and \<open>concat.c\<close>.
\<close>

subsection \<open>What a module keeps\<close>

definition slot_view :: "raid_base_bdev_info \<Rightarrow> string option \<times> string option \<times> bool \<times> nat option" where
  "slot_view info = (bi_name info, bi_desc info, remove_scheduled info, remove_cb info)"

definition same_slots :: "raid_bdev \<Rightarrow> raid_bdev \<Rightarrow> bool" where
  "same_slots rb rb' \<longleftrightarrow>
     rb_name rb' = rb_name rb \<and> rb_uuid rb' = rb_uuid rb \<and> rb_state rb' = rb_state rb \<and>
     rb_module rb' = rb_module rb \<and> map slot_view (base_bdev_info rb') = map slot_view (base_bdev_info rb) \<and>
     num_base_bdevs rb' = num_base_bdevs rb \<and>
     num_base_bdevs_discovered rb' = num_base_bdevs_discovered rb \<and>
     min_base_bdevs_operational rb' = min_base_bdevs_operational rb \<and>
     destroy_started rb' = destroy_started rb \<and> rb_level rb' = rb_level rb \<and>
     strip_size_kb rb' = strip_size_kb rb \<and> superblock_enabled rb' = superblock_enabled rb"

locale raid_module_contract =
  fixes m :: raid_bdev_module
  assumes start_keeps: "same_slots rb (snd (mod_start m rb))"
    and stop_keeps: "mod_stop m = Some stop \<Longrightarrow> same_slots rb (snd (stop rb))"
    and resize_keeps: "mod_resize m = Some resize \<Longrightarrow> same_slots rb (resize rb)"

text \<open>The same as a predicate, for the modules of a world.\<close>

definition module_keeps :: "raid_bdev_module \<Rightarrow> bool" where
  "module_keeps m \<longleftrightarrow>
     (\<forall>rb. same_slots rb (snd (mod_start m rb))) \<and>
     (\<forall>stop rb. mod_stop m = Some stop \<longrightarrow> same_slots rb (snd (stop rb))) \<and>
     (\<forall>resize rb. mod_resize m = Some resize \<longrightarrow> same_slots rb (resize rb))"

context raid_module_contract
begin

lemma keeps: "module_keeps m"
  using start_keeps stop_keeps resize_keeps by (simp add: module_keeps_def)

end

lemma same_slots_refl [simp]: "same_slots rb rb"
  by (simp add: same_slots_def)

lemma same_slots_trans: "same_slots a b \<Longrightarrow> same_slots b c \<Longrightarrow> same_slots a c"
  by (simp add: same_slots_def)

text \<open>The tables of the modules; the last argument of each is what the table's functions ask of
  outside: the success of an allocation, the sizes of the base bdevs and the bdev layer's
  notification.\<close>

definition g_raid0_module ::
  "(raid_base_bdev_info \<Rightarrow> u64) \<Rightarrow> (raid_bdev \<Rightarrow> u64 \<Rightarrow> int \<times> raid_bdev) \<Rightarrow> raid_bdev_module" where
  "g_raid0_module cnt notify =
     \<lparr>mod_level = RAID0, base_bdevs_min = 1, constraint_kind = CONSTRAINT_UNSET,
      constraint_value = 0, memory_domains_supported = True, mod_start = raid0_start,
      mod_stop = None, mod_null_payload = True, mod_resize = Some (raid0_resize cnt notify)\<rparr>"

definition g_raid1_module :: "bool \<Rightarrow> raid_bdev_module" where
  "g_raid1_module alloc_ok =
     \<lparr>mod_level = RAID1, base_bdevs_min = 2, constraint_kind = CONSTRAINT_MIN_BASE_BDEVS_OPERATIONAL,
      constraint_value = 1, memory_domains_supported = True, mod_start = raid1_start alloc_ok,
      mod_stop = Some raid1_stop, mod_null_payload = False, mod_resize = None\<rparr>"

definition g_concat_module :: "bool \<Rightarrow> raid_bdev_module" where
  "g_concat_module alloc_ok =
     \<lparr>mod_level = CONCAT, base_bdevs_min = 1, constraint_kind = CONSTRAINT_UNSET,
      constraint_value = 0, memory_domains_supported = True, mod_start = concat_start alloc_ok,
      mod_stop = Some concat_stop, mod_null_payload = True, mod_resize = None\<rparr>"

lemma slot_view_data_size [simp]: "slot_view (info\<lparr>data_size := s\<rparr>) = slot_view info"
  by (simp add: slot_view_def)

lemma raid0_start_keeps: "same_slots rb (snd (raid0_start rb))"
  by (simp add: same_slots_def raid0_start_def Let_def comp_def)

lemma raid0_resize_keeps:
  assumes "\<And>rb c. same_slots rb (snd (notify rb c))"
  shows "same_slots rb (raid0_resize cnt notify rb)"
proof -
  have *: "same_slots r (r\<lparr>base_bdev_info := map (\<lambda>i. i\<lparr>data_size := s\<rparr>) (base_bdev_info r)\<rparr>)" for r s
    by (simp add: same_slots_def comp_def)
  show ?thesis
    using assms by (auto simp: raid0_resize_def Let_def case_prod_beta
        intro!: same_slots_trans[OF _ *])
qed

lemma concat_layout_keeps:
  "map slot_view (fst (concat_layout shift infos cnt)) = map slot_view infos"
  by (induction infos arbitrary: cnt) (auto simp: Let_def case_prod_beta)

lemma concat_start_keeps: "same_slots rb (snd (concat_start alloc_ok rb))"
  using concat_layout_keeps[of "unat (strip_size_shift rb)" "base_bdev_info rb" 0]
  by (auto simp: concat_start_def same_slots_def Let_def case_prod_beta)

lemma raid1_start_keeps: "same_slots rb (snd (raid1_start alloc_ok rb))"
  by (simp add: raid1_start_def same_slots_def Let_def comp_def)

lemma concat_stop_keeps: "same_slots rb (snd (concat_stop rb))"
  by (simp add: concat_stop_def same_slots_def)

text \<open>\<open>spdk_bdev_notify_blockcnt_change\<close> changes nothing but the size of the bdev.\<close>

lemma notify_keeps: "same_slots rb (if ok then rb\<lparr>rb_blockcnt := c\<rparr> else rb)"
  by (simp add: same_slots_def)

interpretation raid0_module: raid_module_contract
  "g_raid0_module cnt (\<lambda>rb c. (if ok then 0 else - EBUSY, if ok then rb\<lparr>rb_blockcnt := c\<rparr> else rb))"
  for cnt ok
proof (unfold_locales, goal_cases)
  case (1 rb)
  then show ?case by (simp add: g_raid0_module_def raid0_start_keeps)
next
  case (2 stop rb)
  then show ?case by (simp add: g_raid0_module_def)
next
  case (3 resize rb)
  have "same_slots rb (raid0_resize cnt
      (\<lambda>rb c. (if ok then 0 else - EBUSY, if ok then rb\<lparr>rb_blockcnt := c\<rparr> else rb)) rb)"
    by (rule raid0_resize_keeps) (simp only: snd_conv notify_keeps)
  then show ?case using 3 by (auto simp: g_raid0_module_def)
qed

interpretation raid1_module: raid_module_contract "g_raid1_module alloc_ok" for alloc_ok
  by unfold_locales (auto simp: g_raid1_module_def raid1_start_keeps raid1_stop_def)

interpretation concat_module: raid_module_contract "g_concat_module alloc_ok" for alloc_ok
  by unfold_locales (auto simp: g_concat_module_def concat_start_keeps concat_stop_keeps)

subsection \<open>One raid bdev\<close>

definition raid_descs :: "raid_bdev \<Rightarrow> string multiset" where
  "raid_descs rb = mset (List.map_filter bi_desc (base_bdev_info rb))"

text \<open>The well-formedness of a raid bdev: as many slots as base bdevs, the counter counts the open
  ones, an open slot has the name of its bdev.\<close>

definition slots_ok :: "raid_bdev \<Rightarrow> bool" where
  "slots_ok rb \<longleftrightarrow>
     length (base_bdev_info rb) = unat (num_base_bdevs rb) \<and>
     size (raid_descs rb) = unat (num_base_bdevs_discovered rb) \<and>
     0 < unat (min_base_bdevs_operational rb) \<and>
     unat (min_base_bdevs_operational rb) \<le> unat (num_base_bdevs rb) \<and>
     (\<forall>info \<in> set (base_bdev_info rb). bi_desc info \<noteq> None \<longrightarrow> bi_name info = bi_desc info)"

definition opt_mset :: "'a option \<Rightarrow> 'a multiset" where
  "opt_mset x = (case x of None \<Rightarrow> {#} | Some d \<Rightarrow> {#d#})"

lemma opt_mset_simps [simp]: "opt_mset None = {#}" "opt_mset (Some d) = {#d#}"
  by (simp_all add: opt_mset_def)

lemma map_filter_update:
  "i < length xs \<Longrightarrow>
   mset (List.map_filter f (xs[i := y])) + opt_mset (f (xs ! i)) =
   mset (List.map_filter f xs) + opt_mset (f y)"
proof (induction xs arbitrary: i)
  case (Cons x xs)
  then show ?case by (cases i) (auto simp: List.map_filter_simps split: option.splits)
qed simp

lemma map_filter_length: "length (List.map_filter f xs) \<le> length xs"
  by (induction xs) (auto simp: List.map_filter_simps split: option.splits)

lemma map_filter_map: "List.map_filter f xs = List.map_filter id (map f xs)"
  by (induction xs) (simp_all add: List.map_filter_simps split: option.split)

lemma map_filter_slot_view:
  assumes "map slot_view xs = map slot_view ys"
  shows "List.map_filter bi_desc xs = List.map_filter bi_desc ys"
proof -
  have *: "map bi_desc zs = map (\<lambda>v. fst (snd v)) (map slot_view zs)" for zs
    by (simp add: slot_view_def comp_def)
  have "map bi_desc xs = map bi_desc ys" by (simp only: * assms)
  then show ?thesis by (simp only: map_filter_map[of bi_desc])
qed

lemma slot_view_names:
  assumes "map slot_view xs = map slot_view ys"
  shows "(\<forall>i \<in> set xs. bi_desc i \<noteq> None \<longrightarrow> bi_name i = bi_desc i) \<longleftrightarrow>
    (\<forall>i \<in> set ys. bi_desc i \<noteq> None \<longrightarrow> bi_name i = bi_desc i)"
proof -
  have *: "(\<forall>i \<in> set zs. bi_desc i \<noteq> None \<longrightarrow> bi_name i = bi_desc i) \<longleftrightarrow>
    (\<forall>v \<in> set (map slot_view zs). fst (snd v) \<noteq> None \<longrightarrow> fst v = fst (snd v))" for zs
    by (simp add: slot_view_def)
  show ?thesis by (simp only: * assms)
qed

lemma same_slots_descs: "same_slots rb rb' \<Longrightarrow> raid_descs rb' = raid_descs rb"
  unfolding raid_descs_def same_slots_def by (intro arg_cong[of _ _ mset] map_filter_slot_view) blast

lemma same_slots_ok: "same_slots rb rb' \<Longrightarrow> slots_ok rb' \<longleftrightarrow> slots_ok rb"
proof -
  assume s: "same_slots rb rb'"
  then have l: "map slot_view (base_bdev_info rb') = map slot_view (base_bdev_info rb)"
    by (simp add: same_slots_def)
  then have "length (base_bdev_info rb') = length (base_bdev_info rb)"
    by (rule map_eq_imp_length_eq)
  then show ?thesis
    using s slot_view_names[OF l] same_slots_descs[OF s] by (simp add: slots_ok_def same_slots_def)
qed

subsection \<open>Claims and releases\<close>

fun log_claim :: "raid_log \<Rightarrow> string option" where
  "log_claim (LogClaim d) = Some d"
| "log_claim _ = None"

fun log_release :: "raid_log \<Rightarrow> string option" where
  "log_release (LogRelease d) = Some d"
| "log_release _ = None"

definition claims :: "raid_log list \<Rightarrow> string multiset" where
  "claims es = mset (List.map_filter log_claim es)"

definition releases :: "raid_log list \<Rightarrow> string multiset" where
  "releases es = mset (List.map_filter log_release es)"

lemma map_filter_append: "List.map_filter f (xs @ ys) = List.map_filter f xs @ List.map_filter f ys"
  by (induction xs) (auto simp: List.map_filter_simps split: option.split)

lemma claims_simps [simp]:
  "claims [] = {#}" "claims (xs @ ys) = claims xs + claims ys"
  "claims (e # es) = opt_mset (log_claim e) + claims es"
  by (auto simp: claims_def map_filter_append List.map_filter_simps split: option.split)

lemma releases_simps [simp]:
  "releases [] = {#}" "releases (xs @ ys) = releases xs + releases ys"
  "releases (e # es) = opt_mset (log_release e) + releases es"
  by (auto simp: releases_def map_filter_append List.map_filter_simps split: option.split)

text \<open>How one raid bdev may change while the calls \<open>es\<close> are made.\<close>

definition evolves :: "raid_bdev \<Rightarrow> raid_bdev \<Rightarrow> raid_log list \<Rightarrow> bool" where
  "evolves rb rb' es \<longleftrightarrow>
     rb_name rb' = rb_name rb \<and> slots_ok rb' \<and>
     length (base_bdev_info rb') = length (base_bdev_info rb) \<and>
     min_base_bdevs_operational rb' = min_base_bdevs_operational rb \<and>
     raid_descs rb' + releases es = raid_descs rb + claims es"

lemma evolves_refl: "slots_ok rb \<Longrightarrow> evolves rb rb []"
  by (simp add: evolves_def)

lemma evolves_trans: "evolves a b xs \<Longrightarrow> evolves b c ys \<Longrightarrow> evolves a c (xs @ ys)"
proof -
  assume ab: "evolves a b xs" and bc: "evolves b c ys"
  have 1: "raid_descs b + releases xs = raid_descs a + claims xs"
    and 2: "raid_descs c + releases ys = raid_descs b + claims ys"
    using ab bc by (simp_all add: evolves_def)
  have "raid_descs c + (releases xs + releases ys) = (raid_descs c + releases ys) + releases xs"
    by (simp only: ac_simps)
  also have "\<dots> = (raid_descs b + releases xs) + claims ys" by (simp only: 2 ac_simps)
  also have "\<dots> = raid_descs a + (claims xs + claims ys)" by (simp only: 1 ac_simps)
  finally show ?thesis using ab bc by (simp add: evolves_def)
qed

lemma evolves_ok: "evolves a b xs \<Longrightarrow> slots_ok b"
  by (simp add: evolves_def)

lemma evolves_same:
  assumes "same_slots rb rb'" and "slots_ok rb" shows "evolves rb rb' []"
proof -
  have "length (base_bdev_info rb') = length (base_bdev_info rb)"
    using assms(1) by (auto simp: same_slots_def dest: map_eq_imp_length_eq)
  then show ?thesis
    using assms same_slots_ok[OF assms(1)] same_slots_descs[OF assms(1)]
    by (simp add: evolves_def same_slots_def)
qed

lemma slots_ok_fields [simp]:
  "slots_ok (rb\<lparr>rb_state := st\<rparr>) = slots_ok rb"
  "slots_ok (rb\<lparr>destroy_started := b\<rparr>) = slots_ok rb"
  "slots_ok (rb\<lparr>strip_size := x\<rparr>) = slots_ok rb"
  "slots_ok (rb\<lparr>strip_size_shift := x\<rparr>) = slots_ok rb"
  "slots_ok (rb\<lparr>blocklen_shift := x\<rparr>) = slots_ok rb"
  "slots_ok (rb\<lparr>blocklen := x\<rparr>) = slots_ok rb"
  "slots_ok (rb\<lparr>md_len := x\<rparr>) = slots_ok rb"
  "slots_ok (rb\<lparr>md_interleave := b\<rparr>) = slots_ok rb"
  by (simp_all add: slots_ok_def raid_descs_def)

lemma raid_descs_fields [simp]:
  "raid_descs (rb\<lparr>rb_state := st\<rparr>) = raid_descs rb"
  "raid_descs (rb\<lparr>destroy_started := b\<rparr>) = raid_descs rb"
  "raid_descs (rb\<lparr>strip_size := x\<rparr>) = raid_descs rb"
  "raid_descs (rb\<lparr>strip_size_shift := x\<rparr>) = raid_descs rb"
  "raid_descs (rb\<lparr>blocklen_shift := x\<rparr>) = raid_descs rb"
  "raid_descs (rb\<lparr>blocklen := x\<rparr>) = raid_descs rb"
  "raid_descs (rb\<lparr>md_len := x\<rparr>) = raid_descs rb"
  "raid_descs (rb\<lparr>md_interleave := b\<rparr>) = raid_descs rb"
  "raid_descs (rb\<lparr>num_base_bdevs_discovered := n\<rparr>) = raid_descs rb"
  by (simp_all add: raid_descs_def)

lemma update_info_simps [simp]:
  "rb_name (update_info i f rb) = rb_name rb" "rb_state (update_info i f rb) = rb_state rb"
  "num_base_bdevs (update_info i f rb) = num_base_bdevs rb"
  "num_base_bdevs_discovered (update_info i f rb) = num_base_bdevs_discovered rb"
  "min_base_bdevs_operational (update_info i f rb) = min_base_bdevs_operational rb"
  "rb_level (update_info i f rb) = rb_level rb" "rb_module (update_info i f rb) = rb_module rb"
  "superblock_enabled (update_info i f rb) = superblock_enabled rb"
  "destroy_started (update_info i f rb) = destroy_started rb"
  "length (base_bdev_info (update_info i f rb)) = length (base_bdev_info rb)"
  "base_bdev_info (update_info i f rb) =
     (base_bdev_info rb)[i := f (base_bdev_info rb ! i)]"
  by (simp_all add: update_info_def)

lemma descs_update_info:
  "i < length (base_bdev_info rb) \<Longrightarrow>
   raid_descs (update_info i f rb) + opt_mset (bi_desc (base_bdev_info rb ! i)) =
   raid_descs rb + opt_mset (bi_desc (f (base_bdev_info rb ! i)))"
  unfolding raid_descs_def update_info_simps by (rule map_filter_update)

text \<open>A change of one slot that leaves its descriptor and counter alone.\<close>

lemma update_info_ok:
  assumes "slots_ok rb" and "i < length (base_bdev_info rb)"
    and d: "bi_desc (f (base_bdev_info rb ! i)) = bi_desc (base_bdev_info rb ! i)"
    and n: "bi_desc (base_bdev_info rb ! i) \<noteq> None \<Longrightarrow>
      bi_name (f (base_bdev_info rb ! i)) = bi_name (base_bdev_info rb ! i)"
  shows "evolves rb (update_info i f rb) []"
proof -
  have descs: "raid_descs (update_info i f rb) = raid_descs rb"
    using descs_update_info[OF assms(2), of f] by (simp add: d)
  have "bi_name info = bi_desc info"
    if mem: "info \<in> set (base_bdev_info (update_info i f rb))" and open_slot: "bi_desc info \<noteq> None"
    for info
  proof -
    have "info \<in> set (base_bdev_info rb) \<or> info = f (base_bdev_info rb ! i)"
      using mem set_update_subset_insert[of "base_bdev_info rb" i "f (base_bdev_info rb ! i)"] by auto
    then show ?thesis
    proof
      assume "info \<in> set (base_bdev_info rb)"
      then show ?thesis using assms(1) open_slot by (simp add: slots_ok_def)
    next
      assume eq: "info = f (base_bdev_info rb ! i)"
      then have "bi_desc (base_bdev_info rb ! i) \<noteq> None" using open_slot d by simp
      then show ?thesis using eq n d assms(1,2) by (simp add: slots_ok_def)
    qed
  qed
  then show ?thesis
    using assms(1) descs by (auto simp: evolves_def slots_ok_def)
qed

lemma discovered_descs: "slots_ok rb \<Longrightarrow> size (raid_descs rb) = unat (num_base_bdevs_discovered rb)"
  by (simp add: slots_ok_def)

lemma free_resource_evolves:
  assumes ok: "slots_ok rb" and i: "i < length (base_bdev_info rb)"
    and f: "raid_bdev_free_base_bdev_resource i rb = (rb', es)"
  shows "evolves rb rb' es \<and> rb_state rb' = rb_state rb \<and> num_base_bdevs rb' = num_base_bdevs rb \<and>
    rb_module rb' = rb_module rb \<and> claims es = {#} \<and>
    es = (case bi_desc (base_bdev_info rb ! i) of None \<Rightarrow> [] | Some d \<Rightarrow> [LogRelease d, LogClose d]) \<and>
    base_bdev_info rb' =
      (base_bdev_info rb)[i := (base_bdev_info rb ! i)\<lparr>bi_name := None, bi_desc := None\<rparr>]"
proof (cases "bi_desc (base_bdev_info rb ! i)")
  case None
  have same: "(base_bdev_info rb ! i)\<lparr>bi_name := None, bi_desc := None\<rparr> =
      (base_bdev_info rb ! i)\<lparr>bi_name := None\<rparr>"
    using None by (cases "base_bdev_info rb ! i") simp
  have "evolves rb (update_info i (\<lambda>info. info\<lparr>bi_name := None\<rparr>) rb) []"
    by (rule update_info_ok[OF ok i]) (simp_all add: None)
  then show ?thesis
    using f None by (auto simp: raid_bdev_free_base_bdev_resource_def Let_def same)
next
  case (Some d)
  let ?f = "\<lambda>info. info\<lparr>bi_name := None, bi_desc := None\<rparr>"
  let ?r = "update_info i ?f rb"
  have infos: "(base_bdev_info rb)[i := (base_bdev_info rb ! i)\<lparr>bi_name := None\<rparr>,
      i := (base_bdev_info rb ! i)\<lparr>bi_name := None, bi_desc := None\<rparr>] = base_bdev_info ?r"
    by simp
  have rb': "rb' = ?r\<lparr>num_base_bdevs_discovered := num_base_bdevs_discovered rb - 1\<rparr>"
    and es: "es = [LogRelease d, LogClose d]"
    using f Some i
    by (auto simp: raid_bdev_free_base_bdev_resource_def Let_def update_info_def)
  have descs: "raid_descs ?r + {#d#} = raid_descs rb"
    using descs_update_info[OF i, of ?f] Some by simp
  then have sz: "size (raid_descs rb) = Suc (size (raid_descs ?r))"
    by (metis add.commute add_mset_add_single size_add_mset)
  have "unat (num_base_bdevs_discovered rb - 1) = unat (num_base_bdevs_discovered rb) - 1"
    using discovered_descs[OF ok] sz by (subst unat_minus_no_wrap) simp_all
  then have disc: "size (raid_descs ?r) = unat (num_base_bdevs_discovered rb - 1)"
    using discovered_descs[OF ok] sz by simp
  have "bi_name info = bi_desc info"
    if "info \<in> set (base_bdev_info ?r)" "bi_desc info \<noteq> None" for info
    using that set_update_subset_insert[of "base_bdev_info rb" i "?f (base_bdev_info rb ! i)"] ok
    by (auto simp: slots_ok_def)
  then have "slots_ok rb'"
    using ok disc unfolding rb' by (auto simp: slots_ok_def)
  then show ?thesis
    using descs Some unfolding es by (auto simp: evolves_def rb')
qed

lemma free_base_bdevs_evolves:
  assumes "slots_ok rb" and "\<forall>i \<in> set slots. i < length (base_bdev_info rb)"
    and "free_base_bdevs p slots rb = (rb', es)"
  shows "evolves rb rb' es \<and> rb_state rb' = rb_state rb \<and> rb_module rb' = rb_module rb"
  using assms
proof (induction slots arbitrary: rb es)
  case Nil
  then show ?case by (simp add: evolves_refl)
next
  case (Cons i slots)
  show ?case
  proof (cases "p (base_bdev_info rb ! i)")
    case True
    obtain r1 e1 where f: "raid_bdev_free_base_bdev_resource i rb = (r1, e1)" by fastforce
    obtain e2 where l: "free_base_bdevs p slots r1 = (rb', e2)" "es = e1 @ e2"
      using Cons.prems(3) True f by (auto split: prod.splits)
    have e: "evolves rb r1 e1" "rb_state r1 = rb_state rb" "rb_module r1 = rb_module rb"
      using free_resource_evolves[OF Cons.prems(1) _ f] Cons.prems(2) by auto
    moreover have "evolves r1 rb' e2 \<and> rb_state rb' = rb_state r1 \<and> rb_module rb' = rb_module r1"
      by (rule Cons.IH[OF _ _ l(1)]) (use e Cons.prems(2) in \<open>auto simp: evolves_def\<close>)
    ultimately show ?thesis using l(2) evolves_trans by auto
  next
    case False
    then show ?thesis using Cons.IH[OF Cons.prems(1)] Cons.prems by simp
  qed
qed

text \<open>The loop of the deletion: all slots of a raid bdev that is not online end up closed.\<close>

lemma delete_loop_evolves:
  assumes "slots_ok rb" and "\<forall>i \<in> set slots. i < length (base_bdev_info rb)"
    and "delete_loop slots rb = (rb', es)"
  shows "evolves rb rb' es \<and> rb_state rb' = rb_state rb \<and>
    (rb_state rb \<noteq> RAID_BDEV_STATE_ONLINE \<longrightarrow>
       (\<forall>i \<in> set slots. bi_desc (base_bdev_info rb' ! i) = None) \<and>
       (\<forall>i. bi_desc (base_bdev_info rb ! i) = None \<longrightarrow> bi_desc (base_bdev_info rb' ! i) = None))"
  using assms
proof (induction slots arbitrary: rb es)
  case Nil
  then show ?case by (simp add: evolves_refl)
next
  case (Cons i slots)
  let ?r0 = "update_info i (\<lambda>info. info\<lparr>remove_scheduled := True\<rparr>) rb"
  have i: "i < length (base_bdev_info rb)" using Cons.prems(2) by simp
  have e0: "evolves rb ?r0 []" by (rule update_info_ok[OF Cons.prems(1) i]) simp_all
  obtain r1 e1 where f: "(if rb_state rb \<noteq> RAID_BDEV_STATE_ONLINE
      then raid_bdev_free_base_bdev_resource i ?r0 else (?r0, [])) = (r1, e1)" by fastforce
  obtain e2 where l: "delete_loop slots r1 = (rb', e2)" "es = e1 @ e2"
    using Cons.prems(3) f by (auto simp: Let_def split: prod.splits if_splits)
  have e: "evolves ?r0 r1 e1 \<and> rb_state r1 = rb_state rb"
    and n: "rb_state rb \<noteq> RAID_BDEV_STATE_ONLINE \<Longrightarrow> base_bdev_info r1 = (base_bdev_info ?r0)
      [i := (base_bdev_info ?r0 ! i)\<lparr>bi_name := None, bi_desc := None\<rparr>]"
    using free_resource_evolves[OF evolves_ok[OF e0], of i r1 e1] f i evolves_refl[OF evolves_ok[OF e0]]
    by (auto split: if_splits)
  have IH: "evolves r1 rb' e2 \<and> rb_state rb' = rb_state r1 \<and>
    (rb_state r1 \<noteq> RAID_BDEV_STATE_ONLINE \<longrightarrow>
       (\<forall>j \<in> set slots. bi_desc (base_bdev_info rb' ! j) = None) \<and>
       (\<forall>j. bi_desc (base_bdev_info r1 ! j) = None \<longrightarrow> bi_desc (base_bdev_info rb' ! j) = None))"
    by (rule Cons.IH[OF _ _ l(1)]) (use e Cons.prems(2) in \<open>auto simp: evolves_def\<close>)
  have ev: "evolves rb rb' es"
    using evolves_trans[OF e0 evolves_trans[OF conjunct1[OF e] conjunct1[OF IH]]] l(2) by simp
  have closed: "bi_desc (base_bdev_info r1 ! j) = None"
    if "rb_state rb \<noteq> RAID_BDEV_STATE_ONLINE" "j = i \<or> bi_desc (base_bdev_info rb ! j) = None" for j
    using n[OF that(1)] that(2) i by (cases "j = i") (auto simp: nth_list_update)
  show ?case using ev IH e closed by auto
qed

lemma no_open_slot:
  assumes "slots_ok rb" and "\<forall>i < length (base_bdev_info rb). bi_desc (base_bdev_info rb ! i) = None"
  shows "raid_descs rb = {#}"
proof -
  have "\<forall>info \<in> set (base_bdev_info rb). bi_desc info = None"
    using assms(2) by (auto simp: in_set_conv_nth)
  then have "List.map_filter bi_desc (base_bdev_info rb) = []"
    by (induction "base_bdev_info rb") (auto simp: List.map_filter_simps map_filter_def)
  then show ?thesis by (simp add: raid_descs_def)
qed

lemma undiscovered_descs: "slots_ok rb \<Longrightarrow> num_base_bdevs_discovered rb = 0 \<Longrightarrow> raid_descs rb = {#}"
  using discovered_descs[of rb] by simp

subsection \<open>The world\<close>

definition owned :: "raid_world \<Rightarrow> string multiset" where
  "owned w = (\<Sum>rb \<leftarrow> g_raid_bdev_list w. raid_descs rb)"

text \<open>
  Names are unique, every raid bdev is well-formed, the modules keep their contract, and the base
  bdevs claimed and not yet released are exactly those held open by a slot.
\<close>

definition raid_world_ok :: "raid_world \<Rightarrow> bool" where
  "raid_world_ok w \<longleftrightarrow>
     distinct (map rb_name (g_raid_bdev_list w)) \<and>
     (\<forall>rb \<in> set (g_raid_bdev_list w). slots_ok rb) \<and>
     (\<forall>m \<in> set (g_raid_modules w). module_keeps m) \<and>
     owned w + releases (w_log w) = claims (w_log w)"

lemma owned_update:
  assumes "distinct (map rb_name xs)" and "rb \<in> set xs" and "rb_name rb' = rb_name rb"
  shows "(\<Sum>r \<leftarrow> map (\<lambda>r. if rb_name r = rb_name rb' then rb' else r) xs. raid_descs r) + raid_descs rb =
    (\<Sum>r \<leftarrow> xs. raid_descs r) + raid_descs rb'"
  using assms(1,2)
proof (induction xs)
  case (Cons x xs)
  show ?case
  proof (cases "x = rb")
    case True
    then have "map (\<lambda>r. if rb_name r = rb_name rb' then rb' else r) xs = xs"
      using Cons.prems(1) assms(3) by (intro map_idI) (auto simp: rev_image_eqI)
    then show ?thesis using True assms(3) by (simp add: ac_simps)
  next
    case False
    then have "rb_name x \<noteq> rb_name rb" "rb \<in> set xs"
      using Cons.prems by (auto simp: rev_image_eqI)
    then show ?thesis using Cons False assms(3) by (simp add: ac_simps)
  qed
qed simp

lemma names_update:
  "map rb_name (map (\<lambda>r. if rb_name r = rb_name rb' then rb' else r) xs) = map rb_name xs"
  by simp

lemma world_change:
  assumes ok: "raid_world_ok w" and rb: "rb \<in> set (g_raid_bdev_list w)" and ev: "evolves rb rb' es"
    and l: "g_raid_bdev_list w' =
      map (\<lambda>r. if rb_name r = rb_name rb' then rb' else r) (g_raid_bdev_list w)"
    and m: "g_raid_modules w' = g_raid_modules w" and lg: "w_log w' = w_log w @ es'"
    and cr: "claims es' = claims es" "releases es' = releases es"
  shows "raid_world_ok w'"
proof -
  have nm: "rb_name rb' = rb_name rb" and okr: "slots_ok rb'"
    and d: "raid_descs rb' + releases es = raid_descs rb + claims es"
    using ev by (simp_all add: evolves_def)
  have o: "owned w' + raid_descs rb = owned w + raid_descs rb'"
    unfolding owned_def l by (rule owned_update[OF _ rb nm]) (use ok in \<open>simp add: raid_world_ok_def\<close>)
  have c: "owned w + releases (w_log w) = claims (w_log w)" using ok by (simp add: raid_world_ok_def)
  have "owned w' + (releases (w_log w) + releases es) + raid_descs rb =
      (owned w' + raid_descs rb) + releases (w_log w) + releases es" by (simp only: ac_simps)
  also have "\<dots> = (owned w + releases (w_log w)) + (raid_descs rb' + releases es)"
    unfolding o by (simp only: ac_simps)
  also have "\<dots> = claims (w_log w) + claims es + raid_descs rb"
    unfolding c d by (simp only: ac_simps)
  finally have "owned w' + (releases (w_log w) + releases es) = claims (w_log w) + claims es"
    by (rule add_right_imp_eq)
  moreover have "map rb_name (g_raid_bdev_list w') = map rb_name (g_raid_bdev_list w)"
    unfolding l by (rule names_update)
  moreover have "\<forall>r \<in> set (g_raid_bdev_list w'). slots_ok r"
    using ok okr by (auto simp: raid_world_ok_def l)
  ultimately show ?thesis
    using ok by (simp only: raid_world_ok_def m lg cr claims_simps releases_simps) simp
qed

text \<open>Steps that leave the raid bdevs alone.\<close>

lemma world_same:
  assumes "raid_world_ok w" and "g_raid_bdev_list w' = g_raid_bdev_list w"
    and "g_raid_modules w' = g_raid_modules w" and "w_log w' = w_log w @ es"
    and "claims es = {#}" "releases es = {#}"
  shows "raid_world_ok w'"
  using assms by (simp add: raid_world_ok_def owned_def)

lemma sum_list_filter_name:
  assumes "distinct (map rb_name xs)" and "rb \<in> set xs" and "raid_descs rb = {#}"
  shows "(\<Sum>r \<leftarrow> filter (\<lambda>r. rb_name r \<noteq> rb_name rb) xs. raid_descs r) = (\<Sum>r \<leftarrow> xs. raid_descs r)"
  using assms
proof (induction xs)
  case (Cons x xs)
  show ?case
  proof (cases "x = rb")
    case True
    then have "filter (\<lambda>r. rb_name r \<noteq> rb_name rb) xs = xs"
      using Cons.prems(1) by (intro filter_True) (auto simp: rev_image_eqI)
    then show ?thesis using True assms(3) by simp
  next
    case False
    then have "rb_name x \<noteq> rb_name rb" "rb \<in> set xs"
      using Cons.prems by (auto simp: rev_image_eqI)
    then show ?thesis using Cons by simp
  qed
qed simp

lemma cleanup_ok:
  assumes ok: "raid_world_ok w" and rb: "rb \<in> set (g_raid_bdev_list w)" and d: "raid_descs rb = {#}"
  shows "raid_world_ok (raid_bdev_cleanup_and_free (rb_name rb) w)"
proof -
  have "owned (raid_bdev_cleanup_and_free (rb_name rb) w) = owned w"
    using sum_list_filter_name[OF _ rb d] ok
    by (simp add: owned_def raid_bdev_cleanup_and_free_def w_emit_def raid_world_ok_def)
  then show ?thesis
    using ok by (auto simp: raid_world_ok_def raid_bdev_cleanup_and_free_def w_emit_def
        distinct_map_filter)
qed

subsection \<open>Every operation keeps the world well-formed\<close>

lemma module_find_in: "raid_bdev_module_find ms l = Some m \<Longrightarrow> m \<in> set ms"
  by (induction ms) (auto split: if_splits)

lemma module_find_level: "raid_bdev_module_find ms l = Some m \<Longrightarrow> mod_level m = l"
  by (induction ms) (auto split: if_splits)

lemma configure_md_keeps: "slots_ok rb \<Longrightarrow> evolves rb (snd (raid_bdev_configure_md bs rb)) []"
proof -
  have loop: "slots_ok r \<Longrightarrow> snd (configure_md_loop cs r) = r" for cs r
    by (induction cs) auto
  have md: "slots_ok r \<Longrightarrow> evolves r (r\<lparr>md_len := x, md_interleave := y\<rparr>) []" for r x y
    by (simp add: evolves_def)
  assume "slots_ok rb"
  then show ?thesis
    using loop md evolves_refl by (auto simp: raid_bdev_configure_md_def split: list.split)
qed

lemma evolves_fields:
  assumes "slots_ok rb"
  shows "evolves rb (rb\<lparr>rb_state := st\<rparr>) []" "evolves rb (rb\<lparr>strip_size := x\<rparr>) []"
    "evolves rb (rb\<lparr>destroy_started := b\<rparr>) []"
    "evolves rb (rb\<lparr>strip_size_shift := x, blocklen_shift := y, blocklen := z\<rparr>) []"
  using assms by (simp_all add: evolves_def)

lemma evolves_trans0: "evolves a b [] \<Longrightarrow> evolves b c [] \<Longrightarrow> evolves a c []"
  using evolves_trans[of a b "[]" c "[]"] by simp

lemma go_online_keeps:
  assumes ok: "slots_ok rb" and km: "module_keeps m"
    and c: "raid_bdev_go_online env m rb w = (rc, rb', w')"
  shows "evolves rb rb' [] \<and> g_raid_bdev_list w' = g_raid_bdev_list w \<and>
    g_raid_modules w' = g_raid_modules w \<and>
    (\<exists>es. w_log w' = w_log w @ es \<and> claims es = {#} \<and> releases es = {#})"
proof -
  define r5 where "r5 = rb\<lparr>rb_state := RAID_BDEV_STATE_ONLINE\<rparr>"
  have e5: "evolves rb r5 []"
    using evolves_fields(1)[OF ok] by (simp add: r5_def)
  obtain sd r6 where sp: "(case mod_stop m of None \<Rightarrow> (True, r5) | Some stop \<Rightarrow> stop r5) = (sd, r6)"
    by fastforce
  have "same_slots r5 r6"
  proof (cases "mod_stop m")
    case None
    then show ?thesis using sp by simp
  next
    case (Some stop)
    then have "same_slots r5 (snd (stop r5))" using km by (simp add: module_keeps_def)
    then show ?thesis using sp Some by simp
  qed
  then have "evolves rb r6 []"
    using evolves_trans0[OF e5 evolves_same[OF _ evolves_ok[OF e5]]] by simp
  then have e7: "evolves rb (r6\<lparr>rb_state := RAID_BDEV_STATE_CONFIGURING\<rparr>) []"
    using evolves_trans0[OF _ evolves_fields(1)] evolves_ok by blast
  show ?thesis
  proof (cases "env_register_rc env (rb_name r5) = 0")
    case True
    then show ?thesis
      using c e5 unfolding raid_bdev_go_online_def r5_def[symmetric] Let_def by (auto simp: w_emit_def)
  next
    case False
    then show ?thesis
      using c e7 unfolding raid_bdev_go_online_def r5_def[symmetric] Let_def sp
      by (auto simp: w_emit_def w_defer_def)
  qed
qed

text \<open>What the configuration calls outside neither claims nor releases a base bdev.\<close>

lemma configure_keeps:
  assumes ok: "slots_ok rb" and ms: "\<forall>m \<in> set (g_raid_modules w). module_keeps m"
    and c: "raid_bdev_configure env rb w = (rc, rb', w')"
  shows "evolves rb rb' [] \<and> g_raid_bdev_list w' = g_raid_bdev_list w \<and>
    g_raid_modules w' = g_raid_modules w \<and>
    (\<exists>es. w_log w' = w_log w @ es \<and> claims es = {#} \<and> releases es = {#})"
proof (cases "common_blocklen 0 (base_bdevs_of env rb)")
  case None
  then show ?thesis using c ok by (auto simp: raid_bdev_configure_def evolves_refl intro: exI[of _ "[]"])
next
  case (Some blen)
  define r1 where "r1 = rb\<lparr>strip_size := (strip_size_kb rb * 1024) div blen\<rparr>"
  have e1: "evolves rb r1 []" using evolves_fields(2)[OF ok] by (simp add: r1_def)
  show ?thesis
  proof (cases "strip_size r1 = 0 \<and> rb_level r1 \<noteq> RAID1")
    case True
    then show ?thesis
      using c Some e1 by (auto simp: raid_bdev_configure_def r1_def[symmetric] intro: exI[of _ "[]"])
  next
    case False
    define r2 where "r2 = r1\<lparr>strip_size_shift := spdk_u32log2 env (strip_size r1),
                            blocklen_shift := spdk_u32log2 env blen, blocklen := blen\<rparr>"
    have e2: "evolves rb r2 []"
      using evolves_trans0[OF e1 evolves_fields(4)[OF evolves_ok[OF e1]]] by (simp add: r2_def)
    obtain rc3 r3 where md: "raid_bdev_configure_md (base_bdevs_of env r2) r2 = (rc3, r3)" by fastforce
    have e3: "evolves rb r3 []"
      using evolves_trans0[OF e2 configure_md_keeps[OF evolves_ok[OF e2]]] md by (metis snd_conv)
    note unf = raid_bdev_configure_def Some option.case Let_def r1_def[symmetric] if_not_P[OF False]
      r2_def[symmetric] md prod.case
    show ?thesis
    proof (cases "rc3 \<noteq> 0 \<or> rb_module_of w r3 = None")
      case True
      then show ?thesis using c e3 unfolding unf by (auto intro: exI[of _ "[]"] split: if_splits)
    next
      case False
      then obtain m where m: "rc3 = 0" "rb_module_of w r3 = Some m" by auto
      have km: "module_keeps m" using ms m(2) module_find_in by (auto simp: rb_module_of_def)
      obtain rc4 r4 where st: "mod_start m r3 = (rc4, r4)" by fastforce
      have "same_slots r3 r4" using km st by (metis module_keeps_def snd_conv)
      then have e4: "evolves rb r4 []"
        using evolves_trans0[OF e3 evolves_same[OF _ evolves_ok[OF e3]]] by simp
      show ?thesis
      proof (cases "rc4 = 0")
        case True
        then have "raid_bdev_go_online env m r4 w = (rc, rb', w')"
          using c m st unfolding unf by simp
        from go_online_keeps[OF evolves_ok[OF e4] km this] show ?thesis
          using evolves_trans0[OF e4] by blast
      next
        case False
        then show ?thesis using c e4 m st unfolding unf by (auto intro: exI[of _ "[]"])
      qed
    qed
  qed
qed

text \<open>Opening a slot: the descriptor and the counter change together.\<close>

lemma open_slot_evolves:
  assumes ok: "slots_ok rb" and i: "i < length (base_bdev_info rb)"
    and nm: "bi_name (base_bdev_info rb ! i) = Some d" and none: "bi_desc (base_bdev_info rb ! i) = None"
    and f: "\<And>info. bi_desc (f info) = Some d" "\<And>info. bi_name (f info) = bi_name info"
  shows "evolves rb ((update_info i f rb)
    \<lparr>num_base_bdevs_discovered := num_base_bdevs_discovered rb + 1\<rparr>) [LogClaim d]"
proof -
  let ?r = "update_info i f rb"
  have descs: "raid_descs ?r = raid_descs rb + {#d#}"
    using descs_update_info[OF i, of f] none f by simp
  have "size (raid_descs ?r) \<le> length (base_bdev_info ?r)"
    unfolding raid_descs_def by (simp add: map_filter_length del: update_info_simps)
  then have "Suc (size (raid_descs rb)) \<le> unat (num_base_bdevs rb)"
    using ok descs by (simp add: slots_ok_def)
  then have lt: "unat (num_base_bdevs_discovered rb) < unat (num_base_bdevs rb)"
    using discovered_descs[OF ok] by simp
  have disc: "unat (num_base_bdevs_discovered rb + 1) = Suc (unat (num_base_bdevs_discovered rb))"
    by (rule unat_u8_Suc[OF lt])
  have "bi_name info = bi_desc info"
    if mem: "info \<in> set (base_bdev_info ?r)" and open_slot: "bi_desc info \<noteq> None" for info
  proof -
    have "info \<in> set (base_bdev_info rb) \<or> info = f (base_bdev_info rb ! i)"
      using mem set_update_subset_insert[of "base_bdev_info rb" i "f (base_bdev_info rb ! i)"] by auto
    then show ?thesis
      using ok nm f open_slot by (auto simp: slots_ok_def)
  qed
  then have "slots_ok (?r\<lparr>num_base_bdevs_discovered := num_base_bdevs_discovered rb + 1\<rparr>)"
    using ok descs disc discovered_descs[OF ok] by (auto simp: slots_ok_def)
  then show ?thesis using descs by (simp add: evolves_def)
qed

lemma world_fields [simp]:
  "g_raid_bdev_list (w_emit es w) = g_raid_bdev_list w" "g_raid_modules (w_emit es w) = g_raid_modules w"
  "w_pending (w_emit es w) = w_pending w" "w_log (w_emit es w) = w_log w @ es"
  "g_shutdown_started (w_emit es w) = g_shutdown_started w"
  "g_raid_bdev_list (w_defer p w) = g_raid_bdev_list w" "g_raid_modules (w_defer p w) = g_raid_modules w"
  "w_pending (w_defer p w) = w_pending w @ [p]" "w_log (w_defer p w) = w_log w"
  "g_shutdown_started (w_defer p w) = g_shutdown_started w"
  "g_raid_modules (w_update rb w) = g_raid_modules w" "w_pending (w_update rb w) = w_pending w"
  "w_log (w_update rb w) = w_log w" "g_shutdown_started (w_update rb w) = g_shutdown_started w"
  "g_raid_bdev_list (raid_callback cb rc w) = g_raid_bdev_list w"
  "g_raid_modules (raid_callback cb rc w) = g_raid_modules w"
  "w_pending (raid_callback cb rc w) = w_pending w"
  "g_shutdown_started (raid_callback cb rc w) = g_shutdown_started w"
  by (simp_all add: w_emit_def w_defer_def w_update_def raid_callback_def split: option.split)

lemma callback_log:
  "\<exists>es. w_log (raid_callback cb rc w) = w_log w @ es \<and> claims es = {#} \<and> releases es = {#}"
  by (auto simp: raid_callback_def split: option.split)

text \<open>A step that changes one raid bdev, \<open>rb\<close> to \<open>rb'\<close>, and nothing else but the log and the calls
  under way.\<close>

definition raid_step :: "raid_world \<Rightarrow> raid_bdev \<Rightarrow> raid_bdev \<Rightarrow> raid_world \<Rightarrow> bool" where
  "raid_step w rb rb' w' \<longleftrightarrow>
     g_raid_modules w' = g_raid_modules w \<and>
     g_raid_bdev_list w' =
       map (\<lambda>r. if rb_name r = rb_name rb' then rb' else r) (g_raid_bdev_list w) \<and>
     (\<exists>es es'. evolves rb rb' es \<and> w_log w' = w_log w @ es' \<and> claims es' = claims es \<and>
        releases es' = releases es)"

lemma raid_stepI:
  assumes "evolves rb rb' es" and "g_raid_modules w' = g_raid_modules w"
    and "g_raid_bdev_list w' =
      map (\<lambda>r. if rb_name r = rb_name rb' then rb' else r) (g_raid_bdev_list w)"
    and "w_log w' = w_log w @ es'" and "claims es' = claims es" and "releases es' = releases es"
  shows "raid_step w rb rb' w'"
  using assms unfolding raid_step_def by blast

lemma raid_step_world_ok:
  assumes "raid_world_ok w" and "rb \<in> set (g_raid_bdev_list w)" and "raid_step w rb rb' w'"
  shows "raid_world_ok w'"
  using assms(3) world_change[OF assms(1,2)] unfolding raid_step_def by blast

lemma raid_step_update: "evolves rb rb' es \<Longrightarrow> raid_step w rb rb' (w_emit es (w_update rb' w))"
  by (rule raid_stepI) (simp_all add: w_update_def w_emit_def)

lemma raid_step_slots_ok: "raid_step w rb rb' w' \<Longrightarrow> slots_ok rb'"
  by (auto simp: raid_step_def evolves_def)

lemma raid_step_name: "raid_step w rb rb' w' \<Longrightarrow> rb_name rb' = rb_name rb"
  by (auto simp: raid_step_def evolves_def)

text \<open>Further calls that neither claim nor release and leave the raid bdevs alone.\<close>

lemma raid_step_more:
  assumes "raid_step w rb rb' w1" and "g_raid_bdev_list w' = g_raid_bdev_list w1"
    and "g_raid_modules w' = g_raid_modules w1"
    and "\<exists>es. w_log w' = w_log w1 @ es \<and> claims es = {#} \<and> releases es = {#}"
  shows "raid_step w rb rb' w'"
proof -
  obtain es where es: "w_log w' = w_log w1 @ es" "claims es = {#}" "releases es = {#}"
    using assms(4) by blast
  obtain xs ys where "evolves rb rb' xs" "w_log w1 = w_log w @ ys" "claims ys = claims xs"
    "releases ys = releases xs" using assms(1) by (auto simp: raid_step_def)
  then show ?thesis
    using assms(1-3) es by (intro raid_stepI[of _ _ xs _ _ "ys @ es"]) (simp_all add: raid_step_def)
qed

text \<open>A slot is opened: either the world stays as it is, or the raid bdev has one more open slot and
  may have been configured.\<close>

lemma configure_base_bdev_cases:
  assumes okr: "slots_ok rb" and ms: "\<forall>m \<in> set (g_raid_modules w). module_keeps m"
    and i: "slot < length (base_bdev_info rb)"
    and nm: "bi_name (base_bdev_info rb ! slot) = Some d"
    and none: "bi_desc (base_bdev_info rb ! slot) = None"
  obtains (same) es where "snd (raid_bdev_configure_base_bdev env rb slot w) = w_emit es w"
      "claims es = {#}" "releases es = {#}"
  | (opened) rb' where
      "raid_step w rb rb' (w_update rb' (w_emit [LogClaim d] w))"
      "snd (raid_bdev_configure_base_bdev env rb slot w) = w_update rb' (w_emit [LogClaim d] w)"
      "rb_state rb' = rb_state rb"
  | (configured) r3 rc rb' w' where
      "raid_step w rb rb' (w_update rb' w')"
      "snd (raid_bdev_configure_base_bdev env rb slot w) = w_update rb' w'"
      "raid_bdev_configure env r3 (w_emit [LogClaim d] w) = (rc, rb', w')"
      "rb_state r3 = rb_state rb" "rb_name r3 = rb_name rb" "evolves r3 rb' []"
      "num_base_bdevs_discovered r3 = num_base_bdevs r3" "slots_ok r3"
proof (cases "env_open_rc env d \<noteq> 0 \<or> env_claim_rc env d \<noteq> 0")
  case True
  define es where "es = (if env_open_rc env d \<noteq> 0 then [] else [LogClose d])"
  have "snd (raid_bdev_configure_base_bdev env rb slot w) = w_emit es w"
    using True nm by (auto simp: raid_bdev_configure_base_bdev_def es_def Let_def w_emit_def)
  then show ?thesis by (rule same) (simp_all add: es_def)
next
  case False
  define b where "b = env_bdev env d"
  define w1 where "w1 = w_emit [LogClaim d] w"
  define r1 where "r1 = (update_info slot
      (\<lambda>info. info\<lparr>bi_desc := Some d, bi_blockcnt := bd_blockcnt b, data_offset := 0,
                 data_size := bd_blockcnt b\<rparr>) rb)
      \<lparr>num_base_bdevs_discovered := num_base_bdevs_discovered rb + 1\<rparr>"
  have e1: "evolves rb r1 [LogClaim d]"
    unfolding r1_def by (rule open_slot_evolves[OF okr i nm none]) simp_all
  define off where "off = raid_base_data_offset env b"
  define r2 where "r2 = (if superblock_enabled r1
      then update_info slot (\<lambda>info. info\<lparr>data_offset := off\<rparr>) r1 else r1)"
  have len1: "slot < length (base_bdev_info r1)" using i by (simp add: r1_def)
  have "evolves r1 r2 []"
    unfolding r2_def using evolves_refl[OF evolves_ok[OF e1]]
    by (auto intro: update_info_ok[OF evolves_ok[OF e1] len1])
  from evolves_trans[OF e1 this] have e2: "evolves rb r2 [LogClaim d]" by simp
  define r3 where "r3 = (if superblock_enabled r2
      then update_info slot (\<lambda>info. info\<lparr>data_size := bd_blockcnt b - off\<rparr>) r2 else r2)"
  have len2: "slot < length (base_bdev_info r2)" using len1 by (simp add: r2_def)
  have "evolves r2 r3 []"
    unfolding r3_def using evolves_refl[OF evolves_ok[OF e2]]
    by (auto intro: update_info_ok[OF evolves_ok[OF e2] len2])
  from evolves_trans[OF e2 this] have e3: "evolves rb r3 [LogClaim d]" by simp
  have st: "rb_state r2 = rb_state rb" "rb_state r3 = rb_state rb" "rb_name r3 = rb_name rb"
    by (simp_all add: r3_def r2_def r1_def)
  obtain rc r4 w4 where cf: "raid_bdev_configure env r3 w1 = (rc, r4, w4)" by (metis prod_cases3)
  have ms1: "\<forall>m \<in> set (g_raid_modules w1). module_keeps m" using ms by (simp add: w1_def)
  have k: "evolves r3 r4 []" "g_raid_bdev_list w4 = g_raid_bdev_list w1"
    "g_raid_modules w4 = g_raid_modules w1"
    "\<exists>es. w_log w4 = w_log w1 @ es \<and> claims es = {#} \<and> releases es = {#}"
    using configure_keeps[OF evolves_ok[OF e3] ms1 cf] by blast+
  then obtain es where es: "w_log w4 = w_log w1 @ es" "claims es = {#}" "releases es = {#}" by blast
  have e4: "evolves rb r4 [LogClaim d]" using evolves_trans[OF e3 k(1)] by simp
  have step4: "raid_step w rb r4 (w_update r4 w4)"
    by (rule raid_stepI[OF e4, where es' = "[LogClaim d] @ es"])
       (use k es in \<open>simp_all add: w_update_def w1_def w_emit_def\<close>)
  have step1: "raid_step w rb r (w_update r w1)" if "evolves rb r [LogClaim d]" for r
    by (rule raid_stepI[OF that, where es' = "[LogClaim d]"])
       (simp_all add: w_update_def w1_def w_emit_def)
  have eq: "raid_bdev_configure_base_bdev env rb slot w =
      (if superblock_enabled r2 \<and> off \<ge> bd_blockcnt b then (- EINVAL, w_update r2 w1)
       else if num_base_bdevs_discovered r3 = num_base_bdevs r3 then (rc, w_update r4 w4)
       else (0, w_update r3 w1))"
    using False nm cf
    unfolding raid_bdev_configure_base_bdev_def Let_def
    by (cases "superblock_enabled r1"; simp add: b_def[symmetric] w1_def[symmetric]
        r1_def[symmetric] off_def[symmetric] r2_def r3_def)
  consider (sb) "superblock_enabled r2 \<and> off \<ge> bd_blockcnt b"
    | (all) "\<not> (superblock_enabled r2 \<and> off \<ge> bd_blockcnt b)" "num_base_bdevs_discovered r3 = num_base_bdevs r3"
    | (some) "\<not> (superblock_enabled r2 \<and> off \<ge> bd_blockcnt b)" "num_base_bdevs_discovered r3 \<noteq> num_base_bdevs r3"
    by blast
  then show ?thesis
  proof cases
    case sb
    then have "snd (raid_bdev_configure_base_bdev env rb slot w) = w_update r2 w1"
      unfolding eq by (simp only: if_True simp_thms snd_conv)
    then show ?thesis using opened[of r2] step1[OF e2] st by (simp add: w1_def)
  next
    case all
    then have "snd (raid_bdev_configure_base_bdev env rb slot w) = w_update r4 w4"
      unfolding eq by (simp only: if_False if_True refl snd_conv)
    then show ?thesis
      by (rule configured[of r4 w4 r3 rc, OF step4 _ cf[unfolded w1_def] st(2,3) k(1) all(2) evolves_ok[OF e3]])
  next
    case some
    then have "snd (raid_bdev_configure_base_bdev env rb slot w) = w_update r3 w1"
      unfolding eq by (simp only: if_False snd_conv)
    then show ?thesis using opened[of r3] step1[OF e3] st by (simp add: w1_def)
  qed
qed

end
