(* ===== verification/Raid_Reset.thy ===== *)
theory Raid_Reset
  imports Raid_Batch
begin

text \<open>
  RESET requests of \<open>raid/bdev_raid.c\<close>: \<open>raid_bdev_submit_reset_request\<close> sends a reset to every
  base bdev that is present, and \<open>raid_base_bdev_reset_complete\<close> accounts for its completion.
  The interpretation \<open>reset_batch\<close> shows that they keep the contract of \<open>resumable_batch\<close>.
\<close>

subsection \<open>RESET requests\<close>

definition raid_base_bdev_reset_complete :: "bool \<Rightarrow> raid_io \<Rightarrow> raid_io" where
  "raid_base_bdev_reset_complete success rio =
     snd (raid_bdev_io_complete_part 1 (status_of success) rio)"

text \<open>The loop over the slots from \<open>base_bdev_io_submitted\<close> on.\<close>

fun reset_loop ::
  "(base_io \<Rightarrow> int) \<Rightarrow> raid_bdev \<Rightarrow> raid_bdev_io_channel \<Rightarrow> nat list \<Rightarrow> raid_io \<Rightarrow> raid_io" where
  "reset_loop rc rb ch [] rio = rio"
| "reset_loop rc rb ch (i # is) rio =
     (case base_channel ch ! i of
        None \<Rightarrow>
          reset_loop rc rb ch is
            (snd (raid_bdev_io_complete_part 1 STATUS_SUCCESS
                    (rio\<lparr>base_bdev_io_submitted := base_bdev_io_submitted rio + 1\<rparr>)))
      | Some c \<Rightarrow>
          (let (ret, rio) = bdev_submit rc (spdk_bdev_reset_io rb i (Some c)) rio
           in if ret = 0
              then reset_loop rc rb ch is
                     (rio\<lparr>base_bdev_io_submitted := base_bdev_io_submitted rio + 1\<rparr>)
              else if ret = - ENOMEM then raid_bdev_queue_io_wait i rio
              else raid_bdev_io_complete STATUS_FAILED rio))"

definition raid_bdev_submit_reset_request ::
  "(base_io \<Rightarrow> int) \<Rightarrow> raid_bdev \<Rightarrow> raid_bdev_io_channel \<Rightarrow> raid_io \<Rightarrow> raid_io" where
  "raid_bdev_submit_reset_request rc rb ch rio =
     (let rio = (if base_bdev_io_remaining rio = 0
                 then rio\<lparr>base_bdev_io_remaining := ucast (num_base_bdevs rb)\<rparr> else rio)
      in reset_loop rc rb ch
           [unat (base_bdev_io_submitted rio)..<unat (num_base_bdevs rb)] rio)"

subsection \<open>The contract\<close>

text \<open>A request is the raid bdev with the channel it came on; its jobs are one reset per slot.\<close>

fun reset_ok :: "raid_bdev \<times> raid_bdev_io_channel \<Rightarrow> bool" where
  "reset_ok (rb, ch) \<longleftrightarrow> num_base_bdevs rb \<noteq> 0"

fun reset_jobs :: "raid_bdev \<times> raid_bdev_io_channel \<Rightarrow> base_io option list" where
  "reset_jobs (rb, ch) =
     map (\<lambda>i. map_option (\<lambda>c. spdk_bdev_reset_io rb i (Some c)) (base_channel ch ! i))
       [0..<unat (num_base_bdevs rb)]"

fun reset_run ::
  "raid_bdev \<times> raid_bdev_io_channel \<Rightarrow> (base_io \<Rightarrow> int) \<Rightarrow> raid_io \<Rightarrow> raid_io" where
  "reset_run (rb, ch) rc rio =
     reset_loop rc rb ch [unat (base_bdev_io_submitted rio)..<unat (num_base_bdevs rb)] rio"

fun reset_handler ::
  "raid_bdev \<times> raid_bdev_io_channel \<Rightarrow> (base_io \<Rightarrow> int) \<Rightarrow> raid_io \<Rightarrow> raid_io" where
  "reset_handler (rb, ch) rc rio = raid_bdev_submit_reset_request rc rb ch rio"

lemma reset_jobs_length [simp]: "length (reset_jobs (rb, ch)) = unat (num_base_bdevs rb)"
  by simp

lemma reset_jobs_nth [simp]:
  "k < unat (num_base_bdevs rb) \<Longrightarrow>
   reset_jobs (rb, ch) ! k =
     map_option (\<lambda>c. spdk_bdev_reset_io rb k (Some c)) (base_channel ch ! k)"
  by simp

declare reset_jobs.simps [simp del]

interpretation reset_batch: resumable_batch reset_ok reset_run reset_jobs
  "\<lambda>_. raid_bdev_io_complete STATUS_FAILED" reset_handler raid_base_bdev_reset_complete
proof (unfold_locales, goal_cases)
  case (1 c)
  then show ?case
    by (cases c) (auto simp: unat_u8_less unat_gt_0)
next
  case (2 c rio rc)
  then show ?case by (cases c) simp
next
  case (3 c rio rc)
  then show ?case by (cases c) (auto simp: upt_conv_Cons unat_u8_Suc)
next
  case (4 c rio b rc)
  then show ?case
    by (cases c) (auto simp: upt_conv_Cons unat_u8_Suc bdev_submit_def)
next
  case (5 c rio b rc)
  then show ?case
    by (cases c) (auto simp: upt_conv_Cons bdev_submit_def spdk_bdev_reset_io_def)
next
  case (6 c rio b rc)
  then show ?case by (cases c) (auto simp: upt_conv_Cons bdev_submit_def)
next
  case (7 c rio rc)
  then show ?case
    by (cases c) (auto simp: raid_bdev_submit_reset_request_def unsigned_ucast_eq)
next
  case (8 c rio rc)
  then show ?case by (cases c) (auto simp: raid_bdev_submit_reset_request_def)
next
  case (9 success rio)
  then show ?case by (simp add: raid_base_bdev_reset_complete_def)
qed

subsection \<open>Correctness\<close>

lemma reset_handler_eq:
  "reset_handler (rb, ch) = (\<lambda>rc. raid_bdev_submit_reset_request rc rb ch)"
  by (simp add: fun_eq_iff)

lemma reset_jobs_present:
  "jobs_sent (reset_jobs (rb, ch)) =
     map (\<lambda>i. spdk_bdev_reset_io rb i (base_channel ch ! i))
       (filter (\<lambda>i. base_channel ch ! i \<noteq> None) [0..<unat (num_base_bdevs rb)])"
proof -
  have "jobs_sent (map (\<lambda>i. map_option (\<lambda>c. spdk_bdev_reset_io rb i (Some c)) (base_channel ch ! i)) xs) =
     map (\<lambda>i. spdk_bdev_reset_io rb i (base_channel ch ! i))
       (filter (\<lambda>i. base_channel ch ! i \<noteq> None) xs)" for xs
    by (induction xs) auto
  then show ?thesis by (simp add: reset_jobs.simps)
qed

text \<open>C17: a RESET of the raid bdev, however it is interrupted by a lack of memory below, sends one
  reset to every base bdev that has a channel, in slot order, and none to a missing one; it
  completes exactly once, when all of them are back, with failure exactly when one of them
  failed.\<close>

theorem reset_request_correct:
  assumes "num_base_bdevs rb \<noteq> 0"
    and "batch_reach (\<lambda>rc. raid_bdev_submit_reset_request rc rb ch) raid_base_bdev_reset_complete s"
  shows "if waiting s \<or> outstanding s \<noteq> []
    then completions_of (rio_events (bs_rio s)) = []
    else completions_of (rio_events (bs_rio s)) = [status_of (\<not> some_failed s)] \<and>
      submitted_of (rio_events (bs_rio s)) =
        map (\<lambda>i. spdk_bdev_reset_io rb i (base_channel ch ! i))
          (filter (\<lambda>i. base_channel ch ! i \<noteq> None) [0..<unat (num_base_bdevs rb)])"
  using reset_batch.completes_exactly_once[of "(rb, ch)", unfolded reset_handler_eq
      reset_jobs_present, OF _ assms(2)] assms(1)
  by simp

definition reset_example :: raid_bdev where
  "reset_example = zero_raid_bdev
     \<lparr>num_base_bdevs := 2, base_bdev_info := [zero_base_bdev_info, zero_base_bdev_info]\<rparr>"

definition reset_example_channel :: raid_bdev_io_channel where
  "reset_example_channel =
     \<lparr>base_channel = [None, Some 7], num_channels = 2, module_channel = None\<rparr>"

lemma reset_request_correct_witness:
  "\<exists>s. batch_reach (\<lambda>rc. raid_bdev_submit_reset_request rc reset_example reset_example_channel)
         raid_base_bdev_reset_complete s \<and>
       submitted_of (rio_events (bs_rio s)) = [spdk_bdev_reset_io reset_example 1 (Some 7)]"
proof -
  have ok: "num_base_bdevs reset_example \<noteq> 0"
    by (simp add: reset_example_def zero_raid_bdev_def)
  have slots: "filter (\<lambda>i. base_channel reset_example_channel ! i \<noteq> None)
      [0..<unat (num_base_bdevs reset_example)] = [1]"
    by (simp add: reset_example_def reset_example_channel_def zero_raid_bdev_def upt_rec)
  obtain s where s: "batch_reach (\<lambda>rc. raid_bdev_submit_reset_request rc reset_example
      reset_example_channel) raid_base_bdev_reset_complete s" "\<not> waiting s" "outstanding s = []"
    using reset_batch.can_finish[of "(reset_example, reset_example_channel)",
        unfolded reset_handler_eq] ok by auto
  show ?thesis
    using reset_request_correct[OF ok s(1), unfolded slots] s
    by (intro exI[of _ s]) (simp add: reset_example_channel_def)
qed

end
