(* ===== verification/Raid_Channel.thy ===== *)
theory Raid_Channel
  imports Raid_Lifecycle Raid_Reset
begin

text \<open>
  The entry points of a raid bdev in \<open>raid/bdev_raid.c\<close> that the bdev layer calls: creation and
  destruction of a channel, the dispatch of a request to the module, the supported I/O types and the
  memory domains.
\<close>

subsection \<open>Channels\<close>

text \<open>What a channel takes from the layers below and gives back.\<close>

datatype channel_event = ChGet nat | ChPut nat

text \<open>The loop over the slots: the channels obtained, \<open>None\<close> for a slot without base bdev and for the slots
  after one whose channel cannot be had, and whether all could be had.\<close>

fun create_loop :: "(string \<Rightarrow> nat option) \<Rightarrow> raid_base_bdev_info list \<Rightarrow> nat option list \<times> bool" where
  "create_loop get [] = ([], True)"
| "create_loop get (info # infos) =
     (case bi_desc info of
        None \<Rightarrow> (let (cs, ok) = create_loop get infos in (None # cs, ok))
      | Some d \<Rightarrow>
          (case get d of
             None \<Rightarrow> (replicate (Suc (length infos)) None, False)
           | Some c \<Rightarrow> (let (cs, ok) = create_loop get infos in (Some c # cs, ok))))"

definition channels_of :: "nat option list \<Rightarrow> nat list" where
  "channels_of cs = List.map_filter id cs"

text \<open>\<open>mod_get\<close> is the module's \<open>get_io_channel\<close>, if it has one, with the channel that it yields.\<close>

definition raid_bdev_create_cb ::
  "bool \<Rightarrow> (string \<Rightarrow> nat option) \<Rightarrow> nat option option \<Rightarrow> raid_bdev \<Rightarrow>
     int \<times> raid_bdev_io_channel \<times> channel_event list" where
  "raid_bdev_create_cb alloc_ok get mod_get rb =
     (let ch = \<lparr>base_channel = [], num_channels = num_base_bdevs rb, module_channel = None\<rparr>
      in if \<not> alloc_ok then (- ENOMEM, ch, [])
         else
           (let (cs, ok) = create_loop get (base_bdev_info rb);
                gets = map ChGet (channels_of cs);
                ret = (if ok then 0 else - ENOMEM);
                (ret, mc, gets) =
                  (case mod_get of
                     None \<Rightarrow> (ret, None, gets)
                   | Some mc \<Rightarrow>
                       if ret \<noteq> 0 then (ret, None, gets)
                       else (case mc of
                               None \<Rightarrow> (- ENOMEM, None, gets)
                             | Some c \<Rightarrow> (0, Some c, gets @ [ChGet c])))
            in if ret \<noteq> 0 then (ret, ch, gets @ map ChPut (channels_of cs))
               else (0, ch\<lparr>base_channel := cs, module_channel := mc\<rparr>, gets)))"

definition raid_bdev_destroy_cb :: "raid_bdev_io_channel \<Rightarrow> raid_bdev_io_channel \<times> channel_event list" where
  "raid_bdev_destroy_cb ch =
     (ch\<lparr>base_channel := []\<rparr>,
      map ChPut (channels_of [module_channel ch]) @ map ChPut (channels_of (base_channel ch)))"

subsection \<open>Dispatch\<close>

text \<open>The request functions of a module; the state is the module's channel with the context of the request,
  and \<open>None\<close> as a result is undefined behaviour of the handler.\<close>

record 'c raid_handlers =
  submit_rw_request :: "'c \<times> raid_io \<Rightarrow> ('c \<times> raid_io) option"
  submit_null_payload_request :: "('c \<times> raid_io \<Rightarrow> ('c \<times> raid_io) option) option"
  submit_reset_request :: "raid_io \<Rightarrow> raid_io"

datatype 'c dispatched = AwaitsBuffer u64 "'c \<times> raid_io" | Handled "'c \<times> raid_io" | UndefinedCall

definition handled :: "('c \<times> raid_io) option \<Rightarrow> 'c dispatched" where
  "handled r = (case r of None \<Rightarrow> UndefinedCall | Some st \<Rightarrow> Handled st)"

definition raid_bdev_submit_request ::
  "'c raid_handlers \<Rightarrow> raid_bdev \<Rightarrow> bdev_io \<Rightarrow> 'c \<times> raid_io \<Rightarrow> 'c dispatched" where
  "raid_bdev_submit_request h rb bio st =
     (case st of (mc, rio) \<Rightarrow>
       (let rio = rio\<lparr>base_bdev_io_remaining := 0, base_bdev_io_submitted := 0,
                      base_bdev_io_status := STATUS_SUCCESS\<rparr>
        in case bdev_io_type bio of
             IO_READ \<Rightarrow> AwaitsBuffer (num_blocks bio * ucast (blocklen rb)) (mc, rio)
           | IO_WRITE \<Rightarrow> handled (submit_rw_request h (mc, rio))
           | IO_RESET \<Rightarrow> Handled (mc, submit_reset_request h rio)
           | IO_FLUSH \<Rightarrow> (case submit_null_payload_request h of
                           None \<Rightarrow> UndefinedCall | Some f \<Rightarrow> handled (f (mc, rio)))
           | IO_UNMAP \<Rightarrow> (case submit_null_payload_request h of
                           None \<Rightarrow> UndefinedCall | Some f \<Rightarrow> handled (f (mc, rio)))
           | _ \<Rightarrow> Handled (mc, raid_bdev_io_complete STATUS_FAILED rio)))"

definition raid_bdev_get_buf_cb :: "'c raid_handlers \<Rightarrow> bool \<Rightarrow> 'c \<times> raid_io \<Rightarrow> 'c dispatched" where
  "raid_bdev_get_buf_cb h success st =
     (case st of (mc, rio) \<Rightarrow>
        if \<not> success then Handled (mc, raid_bdev_io_complete STATUS_FAILED rio)
        else handled (submit_rw_request h (mc, rio)))"

text \<open>The inner function asks every base bdev that is open.\<close>

definition raid_base_io_type_supported ::
  "raid_bdev_module \<Rightarrow> (string \<Rightarrow> io_type \<Rightarrow> bool) \<Rightarrow> raid_bdev \<Rightarrow> io_type \<Rightarrow> bool" where
  "raid_base_io_type_supported m supported rb ty =
     (if ty \<in> {IO_FLUSH, IO_UNMAP} \<and> \<not> mod_null_payload m then False
      else (\<forall>info\<in>set (base_bdev_info rb). case bi_desc info of None \<Rightarrow> True | Some d \<Rightarrow> supported d ty))"

definition raid_bdev_io_type_supported ::
  "raid_bdev_module \<Rightarrow> (string \<Rightarrow> io_type \<Rightarrow> bool) \<Rightarrow> raid_bdev \<Rightarrow> io_type \<Rightarrow> bool" where
  "raid_bdev_io_type_supported m supported rb ty =
     (case ty of
        IO_READ \<Rightarrow> True | IO_WRITE \<Rightarrow> True
      | IO_FLUSH \<Rightarrow> raid_base_io_type_supported m supported rb ty
      | IO_RESET \<Rightarrow> raid_base_io_type_supported m supported rb ty
      | IO_UNMAP \<Rightarrow> raid_base_io_type_supported m supported rb ty
      | _ \<Rightarrow> False)"

subsection \<open>Memory domains\<close>

text \<open>\<open>domains_of d\<close> is the result of \<open>spdk_bdev_get_memory_domains\<close> for the base bdev \<open>d\<close>: the number of its
  domains, or a negative error, with the domains that it stores. The first loop counts, the second
  stores; the result is the return code and what is stored from the start of the array on.\<close>

fun domains_count :: "(string \<Rightarrow> int \<times> nat list) \<Rightarrow> raid_base_bdev_info list \<Rightarrow> int \<Rightarrow> int \<Rightarrow> int \<times> int" where
  "domains_count domains_of [] rc n = (rc, n)"
| "domains_count domains_of (info # infos) rc n =
     (case bi_desc info of
        None \<Rightarrow> domains_count domains_of infos rc n
      | Some d \<Rightarrow>
          (let rc = fst (domains_of d)
           in if rc < 0 then (rc, n) else domains_count domains_of infos rc (n + rc)))"

fun domains_store :: "(string \<Rightarrow> int \<times> nat list) \<Rightarrow> raid_base_bdev_info list \<Rightarrow> int \<Rightarrow> int \<times> nat list" where
  "domains_store domains_of [] rc = (rc, [])"
| "domains_store domains_of (info # infos) rc =
     (case bi_desc info of
        None \<Rightarrow> domains_store domains_of infos rc
      | Some d \<Rightarrow>
          (let (rc, ds) = domains_of d
           in if rc < 0 then (rc, [])
              else (let (rc, ds') = domains_store domains_of infos rc in (rc, ds @ ds'))))"

definition raid_bdev_get_memory_domains ::
  "raid_bdev_module \<Rightarrow> (string \<Rightarrow> int \<times> nat list) \<Rightarrow> raid_bdev \<Rightarrow> int option \<Rightarrow> int \<times> nat list" where
  "raid_bdev_get_memory_domains m domains_of rb array_size =
     (if \<not> memory_domains_supported m then (0, [])
      else
        (let (rc, n) = domains_count domains_of (base_bdev_info rb) 0 0
         in if rc < 0 then (rc, [])
            else
              (case array_size of
                 None \<Rightarrow> (n, [])
               | Some k \<Rightarrow>
                   if k < n then (n, [])
                   else
                     (let (rc, ds) = domains_store domains_of (base_bdev_info rb) rc
                      in (if rc < 0 then rc else n, ds)))))"


subsection \<open>Channels are given back\<close>

fun channel_got :: "channel_event \<Rightarrow> nat option" where
  "channel_got (ChGet c) = Some c"
| "channel_got (ChPut c) = None"

fun channel_put :: "channel_event \<Rightarrow> nat option" where
  "channel_put (ChGet c) = None"
| "channel_put (ChPut c) = Some c"

definition gets :: "channel_event list \<Rightarrow> nat multiset" where
  "gets es = mset (List.map_filter channel_got es)"

definition puts :: "channel_event list \<Rightarrow> nat multiset" where
  "puts es = mset (List.map_filter channel_put es)"

lemma gets_simps [simp]:
  "gets [] = {#}" "gets (e # es) = opt_mset (channel_got e) + gets es" "gets (xs @ ys) = gets xs + gets ys"
  by (auto simp: gets_def List.map_filter_simps map_filter_append split: option.split)

lemma puts_simps [simp]:
  "puts [] = {#}" "puts (e # es) = opt_mset (channel_put e) + puts es" "puts (xs @ ys) = puts xs + puts ys"
  by (auto simp: puts_def List.map_filter_simps map_filter_append split: option.split)

lemma gets_puts_map [simp]:
  "gets (map ChGet cs) = mset cs" "gets (map ChPut cs) = {#}"
  "puts (map ChGet cs) = {#}" "puts (map ChPut cs) = mset cs"
  by (induction cs) simp_all

lemma create_loop_length: "length (fst (create_loop get infos)) = length infos"
  by (induction infos) (auto simp: case_prod_beta split: option.split)

lemma create_loop_all:
  "snd (create_loop get infos) \<Longrightarrow>
     fst (create_loop get infos) = map (\<lambda>info. Option.bind (bi_desc info) get) infos \<and>
     (\<forall>info\<in>set infos. bi_desc info \<noteq> None \<longrightarrow> Option.bind (bi_desc info) get \<noteq> None)"
  by (induction infos) (auto simp: case_prod_beta split: option.splits)

text \<open>Base bdevs that are removed while the channel exists.\<close>

definition remove_slots :: "nat list \<Rightarrow> raid_bdev_io_channel \<Rightarrow> raid_bdev_io_channel \<times> nat list" where
  "remove_slots slots ch =
     fold (\<lambda>slot (ch, cs). let (ch, c) = raid_bdev_channel_remove_base_bdev slot ch in (ch, cs @ c)) slots (ch, [])"

lemma remove_slot_balance:
  assumes "slot < length (base_channel ch)" and "raid_bdev_channel_remove_base_bdev slot ch = (ch', c)"
  shows "mset (channels_of (base_channel ch')) + mset c = mset (channels_of (base_channel ch)) \<and>
    module_channel ch' = module_channel ch \<and> length (base_channel ch') = length (base_channel ch)"
  using map_filter_update[OF assms(1), of id None] assms(2)
  by (auto simp: raid_bdev_channel_remove_base_bdev_def channels_of_def split: option.splits)

lemma remove_slots_balance:
  assumes "\<forall>slot\<in>set slots. slot < length (base_channel ch)" and "remove_slots slots ch = (ch', cs)"
  shows "mset (channels_of (base_channel ch')) + mset cs = mset (channels_of (base_channel ch)) \<and>
    module_channel ch' = module_channel ch"
proof -
  have "mset (channels_of (base_channel ch1)) + mset cs1 = mset (channels_of (base_channel ch0)) + mset cs0 \<and>
      module_channel ch1 = module_channel ch0"
    if "\<forall>slot\<in>set slots. slot < length (base_channel ch0)"
      and "fold (\<lambda>slot (ch, cs). let (ch, c) = raid_bdev_channel_remove_base_bdev slot ch in (ch, cs @ c)) slots (ch0, cs0) = (ch1, cs1)"
    for ch0 cs0 ch1 cs1
    using that
  proof (induction slots arbitrary: ch0 cs0)
    case (Cons slot slots)
    obtain ch2 c where one: "raid_bdev_channel_remove_base_bdev slot ch0 = (ch2, c)" by (metis prod.exhaust)
    have "slot < length (base_channel ch0)" using Cons.prems(1) by simp
    note b = remove_slot_balance[OF this one]
    have "mset (channels_of (base_channel ch1)) + mset cs1 = mset (channels_of (base_channel ch2)) + mset (cs0 @ c) \<and>
        module_channel ch1 = module_channel ch2"
      using Cons.prems one b by (intro Cons.IH) auto
    then show ?case using b by (simp add: add.assoc add.left_commute)
  qed simp
  from this[of ch "[]" ch' cs] show ?thesis using assms by (simp add: remove_slots_def)
qed

text \<open>C35: a channel of a raid bdev has a channel of every base bdev that is open, in its slot, and one of the
  module if the module has channels; when one of them or the array cannot be had, the creation fails
  with \<open>-ENOMEM\<close>, everything obtained until then is given back and no array is left. Whatever base bdevs
  are removed later, the removals and the destruction together give back exactly what the creation got.\<close>

theorem raid_channel_balanced:
  assumes wf: "length (base_bdev_info rb) = unat (num_base_bdevs rb)"
    and create: "raid_bdev_create_cb alloc_ok get mod_get rb = (rc, ch, es)"
  shows "if rc = 0
    then alloc_ok \<and> base_channel ch = map (\<lambda>info. Option.bind (bi_desc info) get) (base_bdev_info rb) \<and>
      (\<forall>info\<in>set (base_bdev_info rb). bi_desc info \<noteq> None \<longrightarrow> Option.bind (bi_desc info) get \<noteq> None) \<and>
      module_channel ch = Option.bind mod_get id \<and> (mod_get \<noteq> None \<longrightarrow> module_channel ch \<noteq> None) \<and>
      (\<forall>slots ch' cs. (\<forall>slot\<in>set slots. slot < unat (num_base_bdevs rb)) \<and> remove_slots slots ch = (ch', cs) \<longrightarrow>
         gets es = mset cs + puts (snd (raid_bdev_destroy_cb ch')) \<and> base_channel (fst (raid_bdev_destroy_cb ch')) = [])
    else rc = - ENOMEM \<and> base_channel ch = [] \<and> gets es = puts es"
proof (cases "rc = 0")
  case False
  then show ?thesis
    using create by (auto simp: raid_bdev_create_cb_def Let_def case_prod_beta split: if_splits option.splits)
next
  case True
  have ok: "snd (create_loop get (base_bdev_info rb))" "alloc_ok" and mc: "mod_get = None \<or> (\<exists>c. mod_get = Some (Some c))"
    and ch: "base_channel ch = fst (create_loop get (base_bdev_info rb))" "module_channel ch = Option.bind mod_get id"
    and es: "gets es = mset (channels_of [module_channel ch]) + mset (channels_of (base_channel ch))"
    using create True
    by (auto simp: raid_bdev_create_cb_def Let_def case_prod_beta channels_of_def List.map_filter_simps
        split: if_splits option.splits)
  have "gets es = mset cs + puts (snd (raid_bdev_destroy_cb ch')) \<and> base_channel (fst (raid_bdev_destroy_cb ch')) = []"
    if "\<forall>slot\<in>set slots. slot < unat (num_base_bdevs rb)" "remove_slots slots ch = (ch', cs)" for slots ch' cs
    using remove_slots_balance[OF _ that(2)] that(1) wf ch(1) es
    by (simp add: create_loop_length raid_bdev_destroy_cb_def) (metis union_commute union_lcomm)
  then show ?thesis using True ok mc ch create_loop_all[OF ok(1)] by auto
qed

subsection \<open>Memory domains\<close>

definition open_descs :: "raid_base_bdev_info list \<Rightarrow> string list" where
  "open_descs infos = List.map_filter bi_desc infos"

lemma open_descs_simps [simp]:
  "open_descs [] = []"
  "open_descs (info # infos) = (case bi_desc info of None \<Rightarrow> open_descs infos | Some d \<Rightarrow> d # open_descs infos)"
  by (simp_all add: open_descs_def List.map_filter_simps split: option.split)

lemma domains_count_sum:
  assumes "\<forall>d\<in>set (open_descs infos). 0 \<le> fst (domains_of d)" and "0 \<le> rc"
  shows "0 \<le> fst (domains_count domains_of infos rc n) \<and>
    snd (domains_count domains_of infos rc n) = n + sum_list (map (\<lambda>d. fst (domains_of d)) (open_descs infos))"
  using assms by (induction infos arbitrary: rc n) (auto simp: Let_def split: option.splits)

lemma domains_count_error:
  assumes "\<exists>d\<in>set (open_descs infos). fst (domains_of d) < 0" and "0 \<le> rc"
  shows "fst (domains_count domains_of infos rc n) < 0"
  using assms by (induction infos arbitrary: rc n) (auto simp: Let_def not_less split: option.splits)

lemma domains_store_all:
  assumes "\<forall>d\<in>set (open_descs infos). 0 \<le> fst (domains_of d)" and "0 \<le> rc"
  shows "0 \<le> fst (domains_store domains_of infos rc) \<and>
    snd (domains_store domains_of infos rc) = concat (map (\<lambda>d. snd (domains_of d)) (open_descs infos))"
  using assms by (induction infos arbitrary: rc) (auto simp: case_prod_beta Let_def split: option.splits)

text \<open>The memory domains of a raid bdev are those of its open base bdevs, one after the other: their
  number is returned, and they are stored when there is an array with room for all of them, so that
  nothing is ever stored beyond its end; without room only the number is returned, and the error of a
  base bdev is the result.\<close>

theorem raid_memory_domains_correct:
  fixes rb :: raid_bdev and m :: raid_bdev_module and domains_of :: "string \<Rightarrow> int \<times> nat list" and room :: "int option"
  assumes honest: "\<forall>d. 0 \<le> fst (domains_of d) \<longrightarrow> int (length (snd (domains_of d))) = fst (domains_of d)"
    and supported: "memory_domains_supported m"
  defines "ds \<equiv> concat (map (\<lambda>d. snd (domains_of d)) (open_descs (base_bdev_info rb)))"
  shows "if \<forall>d\<in>set (open_descs (base_bdev_info rb)). 0 \<le> fst (domains_of d)
    then raid_bdev_get_memory_domains m domains_of rb room =
           (int (length ds), case room of None \<Rightarrow> [] | Some k \<Rightarrow> if int (length ds) \<le> k then ds else [])
    else fst (raid_bdev_get_memory_domains m domains_of rb room) < 0 \<and>
         snd (raid_bdev_get_memory_domains m domains_of rb room) = []"
proof (cases "\<forall>d\<in>set (open_descs (base_bdev_info rb)). 0 \<le> fst (domains_of d)")
  case True
  have "int (length (concat (map (\<lambda>d. snd (domains_of d)) xs))) = sum_list (map (\<lambda>d. fst (domains_of d)) xs)"
    if "\<forall>d\<in>set xs. 0 \<le> fst (domains_of d)" for xs
    using that honest by (induction xs) auto
  then have "int (length ds) = sum_list (map (\<lambda>d. fst (domains_of d)) (open_descs (base_bdev_info rb)))"
    using True by (simp add: ds_def)
  then show ?thesis
    using True supported domains_count_sum[OF True, of 0 0]
      domains_store_all[OF True, of "fst (domains_count domains_of (base_bdev_info rb) 0 0)"]
    by (auto simp: raid_bdev_get_memory_domains_def Let_def case_prod_beta ds_def split: option.split)
next
  case False
  then have "fst (domains_count domains_of (base_bdev_info rb) 0 0) < 0" by (intro domains_count_error) (auto simp: not_le)
  then show ?thesis using False supported
    by (auto simp: raid_bdev_get_memory_domains_def Let_def case_prod_beta)
qed


subsection \<open>Dispatch to the modules\<close>

text \<open>What the dispatch relies on: the table of the module says truly whether it has a function for requests
  without data.\<close>

locale raid_module_handlers =
  fixes m :: raid_bdev_module and h :: "'c raid_handlers"
  assumes null_payload: "mod_null_payload m \<longleftrightarrow> submit_null_payload_request h \<noteq> None"
begin

text \<open>A request of a supported type never calls a function that is not there.\<close>

lemma supported_dispatch:
  assumes "raid_bdev_io_type_supported m supported rb (bdev_io_type bio)"
    and "\<And>st. submit_rw_request h st \<noteq> None" and "\<And>f st. submit_null_payload_request h = Some f \<Longrightarrow> f st \<noteq> None"
  shows "raid_bdev_submit_request h rb bio st \<noteq> UndefinedCall"
proof -
  have rw: "submit_rw_request h st' \<noteq> None" for st' by (rule assms(2))
  have null: "f st' \<noteq> None" if "submit_null_payload_request h = Some f" for f st' by (rule assms(3)[OF that])
  show ?thesis
    using assms(1) null_payload rw null
    by (cases st; cases "bdev_io_type bio"; cases "submit_null_payload_request h")
      (simp_all add: raid_bdev_submit_request_def handled_def raid_bdev_io_type_supported_def
        raid_base_io_type_supported_def Let_def split: option.split)
qed

end

text \<open>The functions of the modules; the module's channel is the counters of raid1, nothing otherwise.\<close>

definition raid0_handlers ::
  "(base_io \<Rightarrow> int) \<Rightarrow> raid_bdev \<Rightarrow> raid_bdev_io_channel \<Rightarrow> bdev_io \<Rightarrow> unit raid_handlers" where
  "raid0_handlers rc rb ch bio =
     \<lparr>submit_rw_request = (\<lambda>(u, rio). Some (u, raid0_submit_rw_request rc rb ch bio rio)),
      submit_null_payload_request = Some (\<lambda>(u, rio). Some (u, raid0_submit_null_payload_request rc rb ch bio rio)),
      submit_reset_request = raid_bdev_submit_reset_request rc rb ch\<rparr>"

definition raid1_handlers ::
  "(base_io \<Rightarrow> int) \<Rightarrow> raid_bdev \<Rightarrow> raid_bdev_io_channel \<Rightarrow> bdev_io \<Rightarrow> raid1_io_channel raid_handlers" where
  "raid1_handlers rc rb ch bio =
     \<lparr>submit_rw_request = (\<lambda>st. Some (raid1_submit_rw_request rc rb ch bio st)),
      submit_null_payload_request = None,
      submit_reset_request = raid_bdev_submit_reset_request rc rb ch\<rparr>"

definition concat_handlers ::
  "(base_io \<Rightarrow> int) \<Rightarrow> raid_bdev \<Rightarrow> raid_bdev_io_channel \<Rightarrow> bdev_io \<Rightarrow> unit raid_handlers" where
  "concat_handlers rc rb ch bio =
     \<lparr>submit_rw_request = (\<lambda>(u, rio). map_option (Pair u) (concat_submit_rw_request rc rb ch bio rio)),
      submit_null_payload_request =
        Some (\<lambda>(u, rio). map_option (Pair u) (concat_submit_null_payload_request rc rb ch bio rio)),
      submit_reset_request = raid_bdev_submit_reset_request rc rb ch\<rparr>"

interpretation raid0_handled: raid_module_handlers "g_raid0_module cnt notify" "raid0_handlers rc rb ch bio"
  for cnt notify rc rb ch bio
  by unfold_locales (simp add: g_raid0_module_def raid0_handlers_def)

interpretation raid1_handled: raid_module_handlers "g_raid1_module alloc_ok" "raid1_handlers rc rb ch bio"
  for alloc_ok rc rb ch bio
  by unfold_locales (simp add: g_raid1_module_def raid1_handlers_def)

interpretation concat_handled: raid_module_handlers "g_concat_module alloc_ok" "concat_handlers rc rb ch bio"
  for alloc_ok rc rb ch bio
  by unfold_locales (simp add: g_concat_module_def concat_handlers_def)

lemma raid0_dispatch_defined:
  "raid_bdev_io_type_supported (g_raid0_module cnt notify) supported rb (bdev_io_type bio) \<Longrightarrow>
     raid_bdev_submit_request (raid0_handlers rc rb ch bio) rb bio st \<noteq> UndefinedCall"
  by (rule raid0_handled.supported_dispatch) (auto simp: raid0_handlers_def)

lemma raid1_dispatch_defined:
  "raid_bdev_io_type_supported (g_raid1_module alloc_ok) supported rb (bdev_io_type bio) \<Longrightarrow>
     raid_bdev_submit_request (raid1_handlers rc rb ch bio) rb bio st \<noteq> UndefinedCall"
  by (rule raid1_handled.supported_dispatch) (auto simp: raid1_handlers_def)

text \<open>A type that no raid bdev supports fails at once, without a base I/O.\<close>

lemma unknown_type_fails:
  assumes "bdev_io_type bio \<notin> {IO_READ, IO_WRITE, IO_RESET, IO_FLUSH, IO_UNMAP}"
  shows "\<not> raid_bdev_io_type_supported m supported rb (bdev_io_type bio) \<and>
    (\<exists>rio'. raid_bdev_submit_request h rb bio (mc, rio) = Handled (mc, rio') \<and>
       rio_events rio' = rio_events rio @ [EvComplete STATUS_FAILED])"
  using assms
  by (cases "bdev_io_type bio") (simp_all add: raid_bdev_io_type_supported_def raid_bdev_submit_request_def Let_def)

subsection \<open>Concrete channels\<close>

definition channel_example_rb :: raid_bdev where
  "channel_example_rb = zero_raid_bdev
     \<lparr>num_base_bdevs := 3,
      base_bdev_info := [zero_base_bdev_info\<lparr>bi_desc := Some ''a''\<rparr>, zero_base_bdev_info,
                         zero_base_bdev_info\<lparr>bi_desc := Some ''b''\<rparr>]\<rparr>"

text \<open>One channel that is made, loses its first base bdev and is destroyed; one that cannot be made because
  the channel of the module is missing.\<close>

theorem raid_channel_balanced_witness:
  "(let (rc, ch, es) = raid_bdev_create_cb True (\<lambda>d. if d = ''a'' then Some 7 else Some 9) (Some (Some 5)) channel_example_rb;
        (ch', cs) = remove_slots [0] ch
    in rc = 0 \<and> base_channel ch = [Some 7, None, Some 9] \<and> cs = [7] \<and>
       gets es = mset cs + puts (snd (raid_bdev_destroy_cb ch'))) \<and>
   (case raid_bdev_create_cb True (\<lambda>d. Some 7) (Some None) channel_example_rb of
      (rc, ch, es) \<Rightarrow> rc = - ENOMEM \<and> gets es = puts es)"
proof -
  have wf: "length (base_bdev_info channel_example_rb) = unat (num_base_bdevs channel_example_rb)"
    by (simp add: channel_example_rb_def)
  have run: "raid_bdev_create_cb True (\<lambda>d. if d = ''a'' then Some 7 else Some 9) (Some (Some 5)) channel_example_rb =
      (0, \<lparr>base_channel = [Some 7, None, Some 9], num_channels = 3, module_channel = Some 5\<rparr>,
       [ChGet 7, ChGet 9, ChGet 5])"
    by (simp add: raid_bdev_create_cb_def channel_example_rb_def zero_raid_bdev_def zero_base_bdev_info_def
        channels_of_def List.map_filter_simps)
  have removed: "remove_slots [0] \<lparr>base_channel = [Some 7, None, Some 9], num_channels = 3, module_channel = Some 5\<rparr> =
      (\<lparr>base_channel = [None, None, Some 9], num_channels = 3, module_channel = Some 5\<rparr>, [7])"
    by (simp add: remove_slots_def raid_bdev_channel_remove_base_bdev_def)
  have "\<forall>slot\<in>set [0]. slot < unat (num_base_bdevs channel_example_rb)" by (simp add: channel_example_rb_def)
  then have 1: "gets [ChGet 7, ChGet 9, ChGet 5] =
      mset [7] + puts (snd (raid_bdev_destroy_cb \<lparr>base_channel = [None, None, Some 9], num_channels = 3, module_channel = Some 5\<rparr>))"
    using raid_channel_balanced[OF wf run, unfolded if_P[OF refl]] removed by blast
  obtain rc ch es where fail: "raid_bdev_create_cb True (\<lambda>d. Some 7) (Some None) channel_example_rb = (rc, ch, es)"
    by (metis prod.exhaust)
  then have "rc = - ENOMEM" by (auto simp: raid_bdev_create_cb_def Let_def case_prod_beta split: if_splits)
  then have "rc = - ENOMEM \<and> gets es = puts es"
    using raid_channel_balanced[OF wf fail] by simp
  then show ?thesis using run removed 1 fail by (simp add: Let_def)
qed

theorem raid_memory_domains_correct_witness:
  "raid_bdev_get_memory_domains (g_raid1_module True) (\<lambda>d. (1, [of_char (hd d)])) channel_example_rb (Some 2) = (2, [97, 98]) \<and>
   raid_bdev_get_memory_domains (g_raid1_module True) (\<lambda>d. (1, [of_char (hd d)])) channel_example_rb (Some 1) = (2, [])"
  using raid_memory_domains_correct[of "\<lambda>d. (1, [of_char (hd d)])" "g_raid1_module True" channel_example_rb "Some 2"]
    raid_memory_domains_correct[of "\<lambda>d. (1, [of_char (hd d)])" "g_raid1_module True" channel_example_rb "Some 1"]
  by (simp add: g_raid1_module_def channel_example_rb_def zero_base_bdev_info_def)

end
