(* ===== verification/Raid5f_Alloc.thy ===== *)
theory Raid5f_Alloc
  imports Raid5f_Data Raid5f_Reconstruct Raid_Channel "HOL-Library.AList"
begin

text \<open>
  The channel of a raid5f bdev in \<open>raid/raid5f.c\<close>: the allocation of its stripe requests, its creation
  and destruction, and the table of the module. The theorems show that a channel is either complete or
  not there at all, that a destroyed channel leaves no allocation behind, and that the stripe requests
  of a new channel are ready for the writes and reads of \<open>Raid5f_Stripe\<close>.

  The heap is the list of the live blocks, each an address and a size; \<open>malloc\<close>, \<open>calloc\<close> and
  \<open>spdk_dma_malloc\<close> answer from a parameter, which sees the live blocks, the number of the call and the size.
\<close>

subsection \<open>The heap\<close>

record heap =
  block_list :: "(nat \<times> nat) list"
  alloc_calls :: nat
  bad_free :: bool

abbreviation live :: "heap \<Rightarrow> nat \<Rightarrow> nat option" where
  "live h \<equiv> map_of (block_list h)"

type_synonym alloc_answer = "(nat \<times> nat) list \<Rightarrow> nat \<Rightarrow> nat \<Rightarrow> nat option"

definition heap_alloc :: "alloc_answer \<Rightarrow> nat \<Rightarrow> heap \<Rightarrow> nat option \<times> heap" where
  "heap_alloc ans sz h =
     (let p = ans (block_list h) (alloc_calls h) sz; h = h\<lparr>alloc_calls := alloc_calls h + 1\<rparr>
      in (p, case p of None \<Rightarrow> h | Some a \<Rightarrow> h\<lparr>block_list := (a, sz) # block_list h\<rparr>))"

text \<open>\<open>free\<close> of \<open>NULL\<close> does nothing; of a block that is not live it is undefined behaviour, which
  \<open>bad_free\<close> remembers.\<close>

definition heap_free :: "nat option \<Rightarrow> heap \<Rightarrow> heap" where
  "heap_free p h =
     (case p of None \<Rightarrow> h
      | Some a \<Rightarrow> h\<lparr>block_list := AList.delete a (block_list h), bad_free := bad_free h \<or> live h a = None\<rparr>)"

text \<open>An allocation whose failure is a jump to the error exit: once one has failed, none follows.\<close>

definition alloc_or_err :: "alloc_answer \<Rightarrow> nat \<Rightarrow> bool \<times> heap \<Rightarrow> nat option \<times> bool \<times> heap" where
  "alloc_or_err ans sz st =
     (case st of (ok, h) \<Rightarrow>
        if \<not> ok then (None, False, h)
        else (case heap_alloc ans sz h of (p, h) \<Rightarrow> (p, p \<noteq> None, h)))"

primrec alloc_each :: "alloc_answer \<Rightarrow> nat \<Rightarrow> nat \<Rightarrow> bool \<times> heap \<Rightarrow> nat option list \<times> bool \<times> heap" where
  "alloc_each ans sz 0 st = ([], st)"
| "alloc_each ans sz (Suc n) st =
     (let (p, st) = alloc_or_err ans sz st; (ps, st) = alloc_each ans sz n st in (p # ps, st))"

definition alloc_if ::
  "bool \<Rightarrow> alloc_answer \<Rightarrow> nat \<Rightarrow> bool \<times> heap \<Rightarrow> nat option \<times> bool \<times> heap" where
  "alloc_if c ans sz st = (if c then alloc_or_err ans sz st else (None, st))"

definition alloc_each_if ::
  "bool \<Rightarrow> alloc_answer \<Rightarrow> nat \<Rightarrow> nat \<Rightarrow> bool \<times> heap \<Rightarrow> nat option list \<times> bool \<times> heap" where
  "alloc_each_if c ans sz n st = (if c then alloc_each ans sz n st else ([], st))"

subsection \<open>Stripe requests\<close>

text \<open>The pointers of a \<open>struct stripe_request\<close> to memory of its own. \<open>c_sizes\<close> are the sizes of the C
  structures.\<close>

record stripe_memory =
  sm_type :: stripe_request_type
  sm_self :: nat
  sm_iovs :: "nat option list"
  sm_parity_buf :: "nat option"
  sm_parity_md_buf :: "nat option"
  sm_chunk_array :: "nat option"
  sm_chunk_buffers :: "nat option list"
  sm_chunk_md_array :: "nat option"
  sm_chunk_md_buffers :: "nat option list"
  sm_iov_iters :: "nat option"
  sm_xor_buffers :: "nat option"
  sm_xor_md_buffers :: "nat option"

record c_sizes =
  sz_stripe_request :: nat
  sz_chunk :: nat
  sz_iovec :: nat
  sz_pointer :: nat
  sz_ioviter :: "nat \<Rightarrow> nat"

definition raid5f_stripe_request_free :: "stripe_memory \<Rightarrow> heap \<Rightarrow> heap" where
  "raid5f_stripe_request_free m h =
     (let h = fold heap_free (sm_iovs m) h;
          h = (case sm_type m of
                 STRIPE_REQ_WRITE \<Rightarrow> heap_free (sm_parity_md_buf m) (heap_free (sm_parity_buf m) h)
               | STRIPE_REQ_RECONSTRUCT \<Rightarrow>
                   let h = (if sm_chunk_array m = None then h
                            else heap_free (sm_chunk_array m) (fold heap_free (sm_chunk_buffers m) h))
                   in if sm_chunk_md_array m = None then h
                      else heap_free (sm_chunk_md_array m) (fold heap_free (sm_chunk_md_buffers m) h))
      in heap_free (Some (sm_self m))
           (heap_free (sm_iov_iters m) (heap_free (sm_xor_md_buffers m) (heap_free (sm_xor_buffers m) h))))"

definition raid5f_stripe_request_alloc ::
  "alloc_answer \<Rightarrow> c_sizes \<Rightarrow> raid_bdev \<Rightarrow> stripe_request_type \<Rightarrow> heap \<Rightarrow> stripe_memory option \<times> heap" where
  "raid5f_stripe_request_alloc ans z rb type h =
     (let n = unat (num_base_bdevs rb);
          d = unat (raid5f_stripe_data_chunks_num rb);
          md_bytes = unat (strip_size rb * md_len rb);
          writes = (type = STRIPE_REQ_WRITE);
          md = (md_len rb \<noteq> 0)
      in case heap_alloc ans (sz_stripe_request z + sz_chunk z * n) h of
           (None, h) \<Rightarrow> (None, h)
         | (Some self, h) \<Rightarrow>
             (let (iovs, st) = alloc_each ans (4 * sz_iovec z) n (True, h);
                  (parity, st) = alloc_if writes ans (chunk_len rb) st;
                  (parity_md, st) = alloc_if (writes \<and> md) ans md_bytes st;
                  (arr, st) = alloc_if (\<not> writes) ans (d * sz_pointer z) st;
                  (bufs, st) = alloc_each_if (\<not> writes) ans (chunk_len rb) d st;
                  (md_arr, st) = alloc_if (\<not> writes \<and> md) ans (d * sz_pointer z) st;
                  (md_bufs, st) = alloc_each_if (\<not> writes \<and> md) ans md_bytes d st;
                  (iters, st) = alloc_or_err ans (sz_ioviter z n) st;
                  (xors, st) = alloc_or_err ans (d * sz_pointer z) st;
                  (md_xors, st) = alloc_or_err ans (d * sz_pointer z) st;
                  m = \<lparr>sm_type = type, sm_self = self, sm_iovs = iovs, sm_parity_buf = parity,
                       sm_parity_md_buf = parity_md, sm_chunk_array = arr, sm_chunk_buffers = bufs,
                       sm_chunk_md_array = md_arr, sm_chunk_md_buffers = md_bufs, sm_iov_iters = iters,
                       sm_xor_buffers = xors, sm_xor_md_buffers = md_xors\<rparr>
              in if fst st then (Some m, snd st)
                 else (None, raid5f_stripe_request_free m (snd st))))"

subsection \<open>Channels\<close>

definition RAID5F_MAX_STRIPES :: nat where
  "RAID5F_MAX_STRIPES = 32"

text \<open>\<open>cm_accel_ch\<close>: whether the channel holds a reference to the accel framework's.\<close>

record raid5f_channel_memory =
  cm_write :: "stripe_memory list"
  cm_reconstruct :: "stripe_memory list"
  cm_accel_ch :: bool
  cm_xor_buffers :: "nat option"
  cm_xor_iovs :: "nat option"
  cm_xor_iovcnt :: "nat option"

definition raid5f_ioch_destroy :: "raid5f_channel_memory \<Rightarrow> heap \<times> nat \<Rightarrow> heap \<times> nat" where
  "raid5f_ioch_destroy ch st =
     (case st of (h, accel_refs) \<Rightarrow>
       (let h = fold raid5f_stripe_request_free (cm_write ch) h;
            h = fold raid5f_stripe_request_free (cm_reconstruct ch) h
        in (heap_free (cm_xor_iovcnt ch) (heap_free (cm_xor_iovs ch) (heap_free (cm_xor_buffers ch) h)),
            if cm_accel_ch ch then accel_refs - 1 else accel_refs)))"

text \<open>The loop that fills a free list, each request put at its head; it ends at the first failure.\<close>

primrec stripe_requests_alloc ::
  "alloc_answer \<Rightarrow> c_sizes \<Rightarrow> raid_bdev \<Rightarrow> stripe_request_type \<Rightarrow> nat \<Rightarrow> stripe_memory list \<Rightarrow>
     bool \<times> heap \<Rightarrow> stripe_memory list \<times> bool \<times> heap" where
  "stripe_requests_alloc ans z rb type 0 ms st = (ms, st)"
| "stripe_requests_alloc ans z rb type (Suc k) ms st =
     (case st of (ok, h) \<Rightarrow>
        if \<not> ok then (ms, False, h)
        else (case raid5f_stripe_request_alloc ans z rb type h of
                (None, h) \<Rightarrow> (ms, False, h)
              | (Some m, h) \<Rightarrow> stripe_requests_alloc ans z rb type k (m # ms) (True, h)))"

text \<open>\<open>accel_ok\<close>: whether \<open>spdk_accel_get_io_channel\<close> yields a channel; the number counts the references to it.\<close>

definition raid5f_ioch_create ::
  "alloc_answer \<Rightarrow> c_sizes \<Rightarrow> bool \<Rightarrow> raid_bdev \<Rightarrow> heap \<times> nat \<Rightarrow>
     int \<times> raid5f_channel_memory \<times> heap \<times> nat" where
  "raid5f_ioch_create ans z accel_ok rb s =
     (case s of (h, accel_refs) \<Rightarrow>
       (let n = unat (num_base_bdevs rb);
            (ws, st) = stripe_requests_alloc ans z rb STRIPE_REQ_WRITE RAID5F_MAX_STRIPES [] (True, h);
            (rs, st) = stripe_requests_alloc ans z rb STRIPE_REQ_RECONSTRUCT RAID5F_MAX_STRIPES [] st;
            accel = (fst st \<and> accel_ok);
            accel_refs = (if accel then accel_refs + 1 else accel_refs);
            (bufs, st) = alloc_or_err ans (n * sz_pointer z) (accel, snd st);
            (vecs, st) = alloc_or_err ans (n * sz_pointer z) st;
            (cnts, st) = alloc_or_err ans (n * sz_pointer z) st;
            ch = \<lparr>cm_write = ws, cm_reconstruct = rs, cm_accel_ch = accel, cm_xor_buffers = bufs,
                  cm_xor_iovs = vecs, cm_xor_iovcnt = cnts\<rparr>
        in if fst st then (0, ch, snd st, accel_refs)
           else (case raid5f_ioch_destroy ch (snd st, accel_refs) of (h, accel_refs) \<Rightarrow>
                   (- ENOMEM, ch, h, accel_refs))))"

subsection \<open>Ownership of blocks\<close>

definition pointers :: "nat option list \<Rightarrow> nat list" where
  "pointers ps = List.map_filter id ps"

lemma pointers_simps [simp]:
  "pointers [] = []" "pointers (None # ps) = pointers ps" "pointers (Some a # ps) = a # pointers ps"
  "pointers (ps @ qs) = pointers ps @ pointers qs"
  by (simp_all add: pointers_def List.map_filter_simps map_filter_append)

lemma pointers_split: "pointers (p # q # ps) = pointers [p] @ pointers (q # ps)"
  by (cases p) simp_all

lemma set_pointers: "a \<in> set (pointers ps) \<longleftrightarrow> Some a \<in> set ps"
  by (induction ps) (auto simp: pointers_def List.map_filter_simps split: option.splits)

text \<open>Between two states of the heap exactly the blocks \<open>ps\<close> are new.\<close>

definition owns :: "(nat \<Rightarrow> nat option) \<Rightarrow> nat list \<Rightarrow> (nat \<Rightarrow> nat option) \<Rightarrow> bool" where
  "owns L ps L' \<longleftrightarrow>
     distinct ps \<and> (\<forall>p \<in> set ps. L p = None \<and> L' p \<noteq> None) \<and> (\<forall>p. p \<notin> set ps \<longrightarrow> L' p = L p)"

definition disjoint_blocks :: "(nat \<Rightarrow> nat option) \<Rightarrow> bool" where
  "disjoint_blocks L \<longleftrightarrow>
     (\<forall>p q s t. L p = Some s \<and> L q = Some t \<and> p \<noteq> q \<longrightarrow> {p..<p + s} \<inter> {q..<q + t} = {})"

text \<open>What the allocation functions promise: a new block overlaps no live one.\<close>

definition allocator_ok :: "alloc_answer \<Rightarrow> bool" where
  "allocator_ok ans \<longleftrightarrow>
     (\<forall>L k sz p. ans L k sz = Some p \<longrightarrow>
        map_of L p = None \<and> (\<forall>q t. map_of L q = Some t \<longrightarrow> {p..<p + sz} \<inter> {q..<q + t} = {}))"

definition grown :: "heap \<Rightarrow> nat list \<Rightarrow> heap \<Rightarrow> bool" where
  "grown h ps h' \<longleftrightarrow>
     owns (live h) ps (live h') \<and> bad_free h' = bad_free h \<and>
     (disjoint_blocks (live h) \<longrightarrow> disjoint_blocks (live h'))"

lemma grown_refl [simp]: "grown h [] h"
  by (simp add: grown_def owns_def)

lemma owns_trans: "owns L ps L1 \<Longrightarrow> owns L1 qs L2 \<Longrightarrow> owns L (ps @ qs) L2"
  unfolding owns_def by (auto; metis)

lemma grown_trans: "grown h ps h1 \<Longrightarrow> grown h1 qs h2 \<Longrightarrow> grown h (ps @ qs) h2"
  by (auto simp: grown_def intro: owns_trans)

lemma owns_mset: "owns L ps L' \<Longrightarrow> mset ps = mset qs \<Longrightarrow> owns L qs L'"
  unfolding owns_def by (metis mset_eq_setD mset_eq_imp_distinct_iff)

lemma grown_mset: "grown h ps h' \<Longrightarrow> mset ps = mset qs \<Longrightarrow> grown h qs h'"
  by (auto simp: grown_def intro: owns_mset)

lemma grown_live: "grown h ps h' \<Longrightarrow> live h p = Some s \<Longrightarrow> live h' p = Some s"
  unfolding grown_def owns_def by (cases "p \<in> set ps") auto

text \<open>Freeing the new blocks, in any order, gives back the old heap and is no misuse.\<close>

lemma fold_free:
  "live (fold heap_free ps h) = (\<lambda>p. if p \<in> set (pointers ps) then None else live h p)"
  "bad_free (fold heap_free ps h) \<longleftrightarrow>
     bad_free h \<or> \<not> (distinct (pointers ps) \<and> (\<forall>p \<in> set (pointers ps). live h p \<noteq> None))"
proof (induction ps arbitrary: h)
  case (Cons p ps)
  { case 1 show ?case using Cons(1) by (cases p) (auto simp: heap_free_def delete_conv') }
  { case 2 show ?case using Cons(2) by (cases p) (auto simp: heap_free_def delete_conv') }
qed simp_all

lemma grown_freed:
  assumes "grown h (pointers ps) h'" and "fold heap_free ps h' = h2"
  shows "live h2 = live h" and "bad_free h2 = bad_free h"
  using assms by (auto simp: grown_def owns_def fold_free)

lemma pointers_None: "\<forall>p \<in> set ps. p = None \<Longrightarrow> pointers ps = []"
  by (induction ps) auto

subsection \<open>The allocation steps\<close>

lemma heap_alloc_grown:
  assumes "allocator_ok ans" and "heap_alloc ans sz h = (p, h')"
  shows "grown h (pointers [p]) h'" and "p = Some a \<Longrightarrow> live h' a = Some sz"
proof -
  have "grown h (pointers [p]) h' \<and> (\<forall>a. p = Some a \<longrightarrow> live h' a = Some sz)"
  proof (cases p)
    case None
    then show ?thesis using assms(2) by (auto simp: heap_alloc_def Let_def grown_def owns_def)
  next
    case (Some b)
    have new: "live h b = None" "\<forall>q t. live h q = Some t \<longrightarrow> {b..<b + sz} \<inter> {q..<q + t} = {}"
      using assms(1)[unfolded allocator_ok_def, rule_format, of "block_list h" "alloc_calls h" sz b] assms(2) Some
      by (simp_all add: heap_alloc_def Let_def split: option.splits)
    have h': "live h' = (live h)(b \<mapsto> sz)" "bad_free h' = bad_free h"
      using assms(2) Some by (auto simp: heap_alloc_def Let_def)
    have "disjoint_blocks (live h) \<longrightarrow> disjoint_blocks (live h')"
      unfolding disjoint_blocks_def h' using new(2) by (auto simp: Int_commute)
    then show ?thesis using Some new(1) h' by (simp add: grown_def owns_def)
  qed
  then show "grown h (pointers [p]) h'" "p = Some a \<Longrightarrow> live h' a = Some sz" by blast+
qed

text \<open>One step from the state \<open>st\<close> to \<open>st'\<close> that yields the pointers \<open>ps\<close>, taken if \<open>c\<close>: what it
  allocated is theirs, it only succeeds after a success, and then all its pointers are blocks of the
  size asked for; they are all \<open>NULL\<close> if it is not taken.\<close>

definition step_ok :: "bool \<Rightarrow> bool \<times> heap \<Rightarrow> nat option list \<Rightarrow> nat \<Rightarrow> bool \<times> heap \<Rightarrow> bool" where
  "step_ok c st ps sz st' \<longleftrightarrow>
     grown (snd st) (pointers ps) (snd st') \<and> (fst st' \<longrightarrow> fst st) \<and>
     (c \<and> fst st' \<longrightarrow> (\<forall>p \<in> set ps. \<exists>a. p = Some a \<and> live (snd st') a = Some sz)) \<and>
     (\<not> c \<or> \<not> fst st \<longrightarrow> (\<forall>p \<in> set ps. p = None))"

lemma alloc_or_err_step:
  assumes "allocator_ok ans" and "alloc_or_err ans sz st = (p, st')"
  shows "step_ok True st [p] sz st'"
proof -
  obtain ok h where st: "st = (ok, h)" by fastforce
  show ?thesis
  proof (cases ok)
    case True
    obtain h' where h': "heap_alloc ans sz h = (p, h')" "st' = (p \<noteq> None, h')"
      using assms(2) True st by (auto simp: alloc_or_err_def split: prod.splits)
    show ?thesis
      using heap_alloc_grown[OF assms(1) h'(1)] True h'(2) st by (auto simp: step_ok_def)
  next
    case False
    then show ?thesis using assms(2) st by (auto simp: alloc_or_err_def step_ok_def)
  qed
qed

lemma alloc_each_step:
  assumes "allocator_ok ans" and "alloc_each ans sz n st = (ps, st')"
  shows "step_ok True st ps sz st' \<and> length ps = n"
  using assms(2)
proof (induction n arbitrary: st ps)
  case (Suc n)
  obtain p st1 qs where one: "alloc_or_err ans sz st = (p, st1)"
    and rest: "alloc_each ans sz n st1 = (qs, st')" and ps: "ps = p # qs"
    using Suc.prems by (auto simp: Let_def split: prod.splits)
  have a: "step_ok True st [p] sz st1" by (rule alloc_or_err_step[OF assms(1) one])
  have b: "step_ok True st1 qs sz st'" "length qs = n" using Suc.IH[OF rest] by simp_all
  have "grown (snd st) (pointers [p] @ pointers qs) (snd st')"
    using a b(1) by (auto simp: step_ok_def intro: grown_trans)
  moreover have "pointers ps = pointers [p] @ pointers qs" by (cases p) (simp_all add: ps)
  ultimately show ?case
    using a b by (auto simp: step_ok_def ps dest: grown_live)
qed (simp add: step_ok_def)

lemma alloc_if_step:
  assumes "allocator_ok ans" and "alloc_if c ans sz st = (p, st')"
  shows "step_ok c st [p] sz st'"
  using assms(2) alloc_or_err_step[OF assms(1), of sz st p st']
  by (cases c) (simp_all add: alloc_if_def step_ok_def)

lemma alloc_each_if_step:
  assumes "allocator_ok ans" and "alloc_each_if c ans sz n st = (ps, st')"
  shows "step_ok c st ps sz st'" and "c \<Longrightarrow> length ps = n"
  using assms(2) alloc_each_step[OF assms(1), of sz n st ps st']
  by (cases c; simp add: alloc_each_if_def step_ok_def)+

text \<open>After a step its pointers hold their blocks as long as what follows only allocates.\<close>

definition held :: "nat option list \<Rightarrow> nat \<Rightarrow> heap \<Rightarrow> bool" where
  "held ps sz h \<longleftrightarrow> (\<forall>p \<in> set ps. \<exists>a. p = Some a \<and> live h a = Some sz)"

lemma held_grown: "held ps sz h \<Longrightarrow> grown h qs h' \<Longrightarrow> held ps sz h'"
  unfolding held_def using grown_live by metis

lemma step_held: "step_ok c st ps sz st' \<Longrightarrow> c \<Longrightarrow> fst st' \<Longrightarrow> held ps sz (snd st')"
  by (simp add: step_ok_def held_def)

lemma step_back: "step_ok c st ps sz st' \<Longrightarrow> fst st' \<Longrightarrow> fst st"
  by (simp add: step_ok_def)

lemma step_grown: "step_ok c st ps sz st' \<Longrightarrow> grown (snd st) (pointers ps) (snd st')"
  by (simp add: step_ok_def)

lemma step_null: "step_ok c st ps sz st' \<Longrightarrow> \<not> c \<or> \<not> fst st \<Longrightarrow> pointers ps = []"
  by (simp add: step_ok_def pointers_None)

text \<open>An array that is not there has no entries.\<close>

lemma step_entries:
  assumes "step_ok c st [arr] sz st1" and "step_ok c st1 ps sz' st2" and "arr = None"
  shows "pointers ps = []"
  using assms step_null[OF assms(2)] by (auto simp: step_ok_def)

subsection \<open>A stripe request is complete or not there\<close>

definition sm_frees :: "stripe_memory \<Rightarrow> nat option list" where
  "sm_frees m =
     sm_iovs m @
     (case sm_type m of
        STRIPE_REQ_WRITE \<Rightarrow> [sm_parity_buf m, sm_parity_md_buf m]
      | STRIPE_REQ_RECONSTRUCT \<Rightarrow>
          (if sm_chunk_array m = None then [] else sm_chunk_buffers m @ [sm_chunk_array m]) @
          (if sm_chunk_md_array m = None then [] else sm_chunk_md_buffers m @ [sm_chunk_md_array m])) @
     [sm_xor_buffers m, sm_xor_md_buffers m, sm_iov_iters m, Some (sm_self m)]"

lemma raid5f_stripe_request_free_fold: "raid5f_stripe_request_free m = fold heap_free (sm_frees m)"
  by (rule ext) (simp add: raid5f_stripe_request_free_def sm_frees_def Let_def split: stripe_request_type.split)

definition request_complete :: "raid_bdev \<Rightarrow> stripe_request_type \<Rightarrow> stripe_memory \<Rightarrow> heap \<Rightarrow> bool" where
  "request_complete rb type m h \<longleftrightarrow>
     (let n = unat (num_base_bdevs rb); d = unat (raid5f_stripe_data_chunks_num rb);
          md_bytes = unat (strip_size rb * md_len rb)
      in sm_type m = type \<and> length (sm_iovs m) = n \<and> None \<notin> set (sm_iovs m) \<and>
         sm_iov_iters m \<noteq> None \<and> sm_xor_buffers m \<noteq> None \<and> sm_xor_md_buffers m \<noteq> None \<and>
         (if type = STRIPE_REQ_WRITE
          then held [sm_parity_buf m] (chunk_len rb) h \<and>
               (md_len rb \<noteq> 0 \<longrightarrow> held [sm_parity_md_buf m] md_bytes h)
          else sm_chunk_array m \<noteq> None \<and> length (sm_chunk_buffers m) = d \<and> held (sm_chunk_buffers m) (chunk_len rb) h \<and>
               (md_len rb \<noteq> 0 \<longrightarrow> length (sm_chunk_md_buffers m) = d \<and> held (sm_chunk_md_buffers m) md_bytes h)))"

lemma request_complete_grown:
  "request_complete rb type m h \<Longrightarrow> grown h qs h' \<Longrightarrow> request_complete rb type m h'"
  by (auto simp: request_complete_def Let_def held_grown split: if_splits)

lemma stripe_request_alloc_outcome:
  assumes ok: "allocator_ok ans" and run: "raid5f_stripe_request_alloc ans z rb type h = (r, h')"
  shows "case r of None \<Rightarrow> live h' = live h \<and> bad_free h' = bad_free h
    | Some m \<Rightarrow> grown h (pointers (sm_frees m)) h' \<and> request_complete rb type m h'"
proof (cases "heap_alloc ans (sz_stripe_request z + sz_chunk z * unat (num_base_bdevs rb)) h")
  case (Pair p h0)
  let ?n = "unat (num_base_bdevs rb)" and ?d = "unat (raid5f_stripe_data_chunks_num rb)"
  let ?w = "type = STRIPE_REQ_WRITE" and ?md = "md_len rb \<noteq> 0" and ?ml = "unat (strip_size rb * md_len rb)"
  note g0 = heap_alloc_grown(1)[OF ok Pair]
  show ?thesis
  proof (cases p)
    case None
    then show ?thesis using run Pair g0 by (simp add: raid5f_stripe_request_alloc_def Let_def grown_def owns_def fun_eq_iff)
  next
    case (Some self)
    obtain iovs s1 where 1: "alloc_each ans (4 * sz_iovec z) ?n (True, h0) = (iovs, s1)" by (rule prod.exhaust)
    obtain parity s2 where 2: "alloc_if ?w ans (chunk_len rb) s1 = (parity, s2)" by (rule prod.exhaust)
    obtain parity_md s3 where 3: "alloc_if (?w \<and> ?md) ans ?ml s2 = (parity_md, s3)" by (rule prod.exhaust)
    obtain arr s4 where 4: "alloc_if (\<not> ?w) ans (?d * sz_pointer z) s3 = (arr, s4)" by (rule prod.exhaust)
    obtain bufs s5 where 5: "alloc_each_if (\<not> ?w) ans (chunk_len rb) ?d s4 = (bufs, s5)" by (rule prod.exhaust)
    obtain md_arr s6 where 6: "alloc_if (\<not> ?w \<and> ?md) ans (?d * sz_pointer z) s5 = (md_arr, s6)" by (rule prod.exhaust)
    obtain md_bufs s7 where 7: "alloc_each_if (\<not> ?w \<and> ?md) ans ?ml ?d s6 = (md_bufs, s7)" by (rule prod.exhaust)
    obtain iters s8 where 8: "alloc_or_err ans (sz_ioviter z ?n) s7 = (iters, s8)" by (rule prod.exhaust)
    obtain xors s9 where 9: "alloc_or_err ans (?d * sz_pointer z) s8 = (xors, s9)" by (rule prod.exhaust)
    obtain md_xors s10 where 10: "alloc_or_err ans (?d * sz_pointer z) s9 = (md_xors, s10)" by (rule prod.exhaust)
    note s1 = alloc_each_step[OF ok 1, THEN conjunct1] and s2 = alloc_if_step[OF ok 2]
      and s3 = alloc_if_step[OF ok 3] and s4 = alloc_if_step[OF ok 4] and s5 = alloc_each_if_step(1)[OF ok 5]
      and s6 = alloc_if_step[OF ok 6] and s7 = alloc_each_if_step(1)[OF ok 7]
      and s8 = alloc_or_err_step[OF ok 8] and s9 = alloc_or_err_step[OF ok 9] and s10 = alloc_or_err_step[OF ok 10]
    note steps = s1 s2 s3 s4 s5 s6 s7 s8 s9 s10
    define m where "m = \<lparr>sm_type = type, sm_self = self, sm_iovs = iovs, sm_parity_buf = parity,
      sm_parity_md_buf = parity_md, sm_chunk_array = arr, sm_chunk_buffers = bufs,
      sm_chunk_md_array = md_arr, sm_chunk_md_buffers = md_bufs, sm_iov_iters = iters,
      sm_xor_buffers = xors, sm_xor_md_buffers = md_xors\<rparr>"
    have "raid5f_stripe_request_alloc ans z rb type h =
        (if fst s10 then (Some m, snd s10) else (None, raid5f_stripe_request_free m (snd s10)))"
      using Pair Some 1 2 3 4 5 6 7 8 9 10 by (simp add: raid5f_stripe_request_alloc_def Let_def m_def)
    then have res: "r = (if fst s10 then Some m else None)"
        "h' = (if fst s10 then snd s10 else raid5f_stripe_request_free m (snd s10))"
      using run by (simp_all split: if_splits)
    have g: "grown h [self] h0" "grown h0 (pointers iovs) (snd s1)" using g0 Some step_grown[OF s1] by simp_all
    have grown: "grown h ([self] @ pointers iovs @ pointers [parity] @ pointers [parity_md] @ pointers [arr] @
        pointers bufs @ pointers [md_arr] @ pointers md_bufs @ pointers [iters] @ pointers [xors] @ pointers [md_xors])
        (snd s10)"
      by (intro grown_trans[OF g(1)] grown_trans[OF g(2)] grown_trans[OF step_grown[OF s2]]
        grown_trans[OF step_grown[OF s3]] grown_trans[OF step_grown[OF s4]] grown_trans[OF step_grown[OF s5]]
        grown_trans[OF step_grown[OF s6]] grown_trans[OF step_grown[OF s7]] grown_trans[OF step_grown[OF s8]]
        grown_trans[OF step_grown[OF s9]] step_grown[OF s10])
    have null: "\<not> ?w \<Longrightarrow> pointers [parity] = []" "\<not> ?w \<Longrightarrow> pointers [parity_md] = []" "?w \<Longrightarrow> pointers [arr] = []"
      "?w \<Longrightarrow> pointers bufs = []" "?w \<Longrightarrow> pointers [md_arr] = []" "?w \<Longrightarrow> pointers md_bufs = []"
      by (rule step_null[OF s2] step_null[OF s3] step_null[OF s4] step_null[OF s5] step_null[OF s6] step_null[OF s7]; simp)+
    have entries: "arr = None \<Longrightarrow> pointers bufs = []" "md_arr = None \<Longrightarrow> pointers md_bufs = []"
      by (erule step_entries[OF s4 s5] step_entries[OF s6 s7])+
    have "mset ([self] @ pointers iovs @ pointers [parity] @ pointers [parity_md] @ pointers [arr] @
        pointers bufs @ pointers [md_arr] @ pointers md_bufs @ pointers [iters] @ pointers [xors] @ pointers [md_xors]) =
        mset (pointers (sm_frees m))"
      using null entries by (cases type; cases arr; cases md_arr) (simp_all add: m_def sm_frees_def pointers_split)
    then have owned: "grown h (pointers (sm_frees m)) (snd s10)" by (rule grown_mset[OF grown])
    show ?thesis
    proof (cases "fst s10")
      case False
      then show ?thesis
        using res grown_freed[OF owned refl] by (simp add: raid5f_stripe_request_free_fold)
    next
      case True
      have before: "fst s1" "fst s2" "fst s3" "fst s4" "fst s5" "fst s6" "fst s7" "fst s8" "fst s9"
        using True steps[THEN step_back] by blast+
      note up = steps[THEN step_grown, THEN held_grown[rotated]]
      have "held iovs (4 * sz_iovec z) (snd s1)" "held [iters] (sz_ioviter z ?n) (snd s8)"
        "held [xors] (?d * sz_pointer z) (snd s9)" "held [md_xors] (?d * sz_pointer z) (snd s10)"
        using step_held[OF s1] step_held[OF s8] step_held[OF s9] step_held[OF s10] before True by simp_all
      then have "None \<notin> set iovs" "iters \<noteq> None" "xors \<noteq> None" "md_xors \<noteq> None" by (auto simp: held_def)
      moreover have "?w \<Longrightarrow> held [parity] (chunk_len rb) (snd s10)" "?w \<and> ?md \<Longrightarrow> held [parity_md] ?ml (snd s10)"
        "\<not> ?w \<Longrightarrow> held bufs (chunk_len rb) (snd s10)" "\<not> ?w \<and> ?md \<Longrightarrow> held md_bufs ?ml (snd s10)"
        using step_held[OF s2] step_held[OF s3] step_held[OF s5] step_held[OF s7] before up by meson+
      moreover have "\<not> ?w \<Longrightarrow> arr \<noteq> None" using step_held[OF s4] before by (auto simp: held_def)
      moreover have "length iovs = ?n" "\<not> ?w \<Longrightarrow> length bufs = ?d" "\<not> ?w \<and> ?md \<Longrightarrow> length md_bufs = ?d"
        using alloc_each_step[OF ok 1] alloc_each_if_step(2)[OF ok 5] alloc_each_if_step(2)[OF ok 7] by simp_all
      ultimately show ?thesis
        using res True owned by (simp add: request_complete_def Let_def m_def)
    qed
  qed
qed

subsection \<open>A channel is complete or not there\<close>

lemma requests_free_fold:
  "fold raid5f_stripe_request_free ms = fold heap_free (concat (map sm_frees ms))"
  by (induction ms) (simp_all add: raid5f_stripe_request_free_fold)

lemma requests_alloc_failed: "stripe_requests_alloc ans z rb type k ms (False, h) = (ms, False, h)"
  by (cases k) simp_all

lemma requests_alloc_outcome:
  assumes "allocator_ok ans" and "stripe_requests_alloc ans z rb type k ms (True, h) = (ms', ok, h')"
  shows "\<exists>new. ms' = new @ ms \<and> grown h (pointers (concat (map sm_frees new))) h' \<and>
    (\<forall>m \<in> set new. request_complete rb type m h') \<and> (ok \<longrightarrow> length new = k)"
  using assms(2)
proof (induction k arbitrary: ms h)
  case (Suc k)
  obtain r h1 where one: "raid5f_stripe_request_alloc ans z rb type h = (r, h1)" by (rule prod.exhaust)
  note out = stripe_request_alloc_outcome[OF assms(1) one]
  show ?case
  proof (cases r)
    case None
    then have "grown h [] h1" using out by (simp add: grown_def owns_def)
    then show ?thesis using Suc.prems one None by simp
  next
    case (Some m)
    obtain new where new: "ms' = new @ m # ms" "grown h1 (pointers (concat (map sm_frees new))) h'"
      "\<forall>m \<in> set new. request_complete rb type m h'" "ok \<longrightarrow> length new = k"
      using Suc.IH[of "m # ms" h1] Suc.prems one Some by auto
    have m: "grown h (pointers (sm_frees m)) h1" "request_complete rb type m h1" using out Some by simp_all
    have "grown h (pointers (sm_frees m) @ pointers (concat (map sm_frees new))) h'"
      by (rule grown_trans[OF m(1) new(2)])
    then have "grown h (pointers (concat (map sm_frees (new @ [m])))) h'" by (rule grown_mset) simp
    then show ?thesis
      using new m(2) request_complete_grown[OF m(2) new(2)] by (intro exI[of _ "new @ [m]"]) auto
  qed
qed simp

text \<open>Both loops of the creation.\<close>

lemma requests_alloc_next:
  assumes "allocator_ok ans" and "stripe_requests_alloc ans z rb type k [] st = (ms, st')"
  shows "grown (snd st) (pointers (concat (map sm_frees ms))) (snd st') \<and> (fst st' \<longrightarrow> fst st) \<and>
    (fst st' \<longrightarrow> length ms = k \<and> (\<forall>m \<in> set ms. request_complete rb type m (snd st')))"
proof (cases st)
  case (Pair ok h)
  show ?thesis
  proof (cases ok)
    case True
    then show ?thesis
      using requests_alloc_outcome[OF assms(1), of z rb type k "[]" h ms "fst st'" "snd st'"] assms(2) Pair by auto
  next
    case False
    then show ?thesis using assms(2) Pair by (auto simp: requests_alloc_failed)
  qed
qed

definition cm_frees :: "raid5f_channel_memory \<Rightarrow> nat option list" where
  "cm_frees ch =
     concat (map sm_frees (cm_write ch)) @ concat (map sm_frees (cm_reconstruct ch)) @
     [cm_xor_buffers ch, cm_xor_iovs ch, cm_xor_iovcnt ch]"

lemma raid5f_ioch_destroy_fold:
  "raid5f_ioch_destroy ch (h, refs) =
     (fold heap_free (cm_frees ch) h, if cm_accel_ch ch then refs - 1 else refs)"
  by (simp add: raid5f_ioch_destroy_def cm_frees_def requests_free_fold Let_def)

lemma ioch_create_outcome:
  assumes ok: "allocator_ok ans" and run: "raid5f_ioch_create ans z accel_ok rb (h, refs) = (rc, ch, h', refs')"
  shows "if rc = 0
    then length (cm_write ch) = RAID5F_MAX_STRIPES \<and> length (cm_reconstruct ch) = RAID5F_MAX_STRIPES \<and>
      (\<forall>m \<in> set (cm_write ch). request_complete rb STRIPE_REQ_WRITE m h') \<and>
      (\<forall>m \<in> set (cm_reconstruct ch). request_complete rb STRIPE_REQ_RECONSTRUCT m h') \<and>
      grown h (pointers (cm_frees ch)) h' \<and> refs' = refs + 1 \<and> cm_accel_ch ch
    else rc = - ENOMEM \<and> live h' = live h \<and> bad_free h' = bad_free h \<and> refs' = refs"
proof -
  let ?n = "unat (num_base_bdevs rb)"
  obtain ws s1 where 1: "stripe_requests_alloc ans z rb STRIPE_REQ_WRITE RAID5F_MAX_STRIPES [] (True, h) = (ws, s1)"
    by (rule prod.exhaust)
  obtain rs s2 where 2: "stripe_requests_alloc ans z rb STRIPE_REQ_RECONSTRUCT RAID5F_MAX_STRIPES [] s1 = (rs, s2)"
    by (rule prod.exhaust)
  define accel where "accel = (fst s2 \<and> accel_ok)"
  obtain bufs s3 where 3: "alloc_or_err ans (?n * sz_pointer z) (accel, snd s2) = (bufs, s3)" by (rule prod.exhaust)
  obtain vecs s4 where 4: "alloc_or_err ans (?n * sz_pointer z) s3 = (vecs, s4)" by (rule prod.exhaust)
  obtain cnts s5 where 5: "alloc_or_err ans (?n * sz_pointer z) s4 = (cnts, s5)" by (rule prod.exhaust)
  define c where "c = \<lparr>cm_write = ws, cm_reconstruct = rs, cm_accel_ch = accel, cm_xor_buffers = bufs,
    cm_xor_iovs = vecs, cm_xor_iovcnt = cnts\<rparr>"
  note w = requests_alloc_next[OF ok 1] and r = requests_alloc_next[OF ok 2]
  note s3 = alloc_or_err_step[OF ok 3] and s4 = alloc_or_err_step[OF ok 4] and s5 = alloc_or_err_step[OF ok 5]
  have g: "grown h (pointers (concat (map sm_frees ws))) (snd s1)"
      "grown (snd s1) (pointers (concat (map sm_frees rs))) (snd s2)" "grown (snd s2) (pointers [bufs]) (snd s3)"
    using w r step_grown[OF s3] by simp_all
  have "grown h (pointers (concat (map sm_frees ws)) @ pointers (concat (map sm_frees rs)) @ pointers [bufs] @
      pointers [vecs] @ pointers [cnts]) (snd s5)"
    by (intro grown_trans[OF g(1)] grown_trans[OF g(2)] grown_trans[OF g(3)]
      grown_trans[OF step_grown[OF s4]] step_grown[OF s5])
  then have owned: "grown h (pointers (cm_frees c)) (snd s5)" by (simp add: c_def cm_frees_def pointers_split)
  have "raid5f_ioch_create ans z accel_ok rb (h, refs) =
      (if fst s5 then (0, c, snd s5, if accel then refs + 1 else refs)
       else (- ENOMEM, c, fold heap_free (cm_frees c) (snd s5), refs))"
    using 1 2 3 4 5 by (simp add: raid5f_ioch_create_def Let_def accel_def c_def raid5f_ioch_destroy_fold)
  then have res: "rc = (if fst s5 then 0 else - ENOMEM)" "ch = c"
      "h' = (if fst s5 then snd s5 else fold heap_free (cm_frees c) (snd s5))"
      "refs' = (if fst s5 then if accel then refs + 1 else refs else refs)"
    using run by (simp_all split: if_splits)
  show ?thesis
  proof (cases "fst s5")
    case True
    then have up: "fst s4" "fst s3" "accel" using step_back[OF s5] step_back[OF s4] step_back[OF s3] by simp_all
    then have before: "fst s2" "fst s1" using r by (auto simp: accel_def)
    have later: "grown (snd s2) (pointers [bufs] @ pointers [vecs] @ pointers [cnts]) (snd s5)"
      by (intro grown_trans[OF g(3)] grown_trans[OF step_grown[OF s4]] step_grown[OF s5])
    show ?thesis
      using w r before up True res owned request_complete_grown[OF _ later]
        request_complete_grown[OF _ grown_trans[OF g(2) later]] by (simp add: c_def)
  next
    case False
    then show ?thesis using res grown_freed[OF owned refl] by simp
  qed
qed

subsection \<open>The requests of a new channel\<close>

text \<open>The contents of a stripe request as \<open>raid5f_stripe_request_alloc\<close> leaves it: all zero but for its
  type, its buffers, and the index and the four iovecs of each chunk.\<close>

definition raid5f_new_chunk :: "nat \<Rightarrow> chunk" where
  "raid5f_new_chunk i =
     \<lparr>ck_index = i, ck_iovs = replicate 4 \<lparr>iov_base = 0, iov_len = 0\<rparr>, ck_iovcnt = 0, ck_md_buf = None\<rparr>"

definition raid5f_new_stripe :: "raid_bdev \<Rightarrow> stripe_memory \<Rightarrow> stripe_request" where
  "raid5f_new_stripe rb m =
     \<lparr>sr_type = sm_type m, sr_poisoned = False, sr_saved_iovs = [], sr_raid_io = 0, sr_stripe_index = 0,
      sr_parity_chunk = 0, sr_parity_buf = (case sm_parity_buf m of None \<Rightarrow> 0 | Some a \<Rightarrow> a),
      sr_parity_md_buf = sm_parity_md_buf m, sr_chunk_buffers = pointers (sm_chunk_buffers m),
      sr_chunk_md_buffers = pointers (sm_chunk_md_buffers m), sr_chunk = 0, sr_chunk_offset = 0, xor_iters = [],
      xor_len = 0, xor_remaining = 0, xor_remaining_md = 0, xor_status = 0,
      sr_chunks = map raid5f_new_chunk [0..<unat (num_base_bdevs rb)]\<rparr>"

text \<open>A new channel; its stripe requests are named by their places, those for writes first.\<close>

definition raid5f_new_channel ::
  "raid_bdev \<Rightarrow> raid5f_channel_memory \<Rightarrow> (nat \<Rightarrow> u8) \<Rightarrow> (nat \<Rightarrow> raid_io) \<Rightarrow> r5_world" where
  "raid5f_new_channel rb ch mem ios =
     \<lparr>r5_stripes = (\<lambda>sid. raid5f_new_stripe rb ((cm_write ch @ cm_reconstruct ch) ! sid)), r5_ios = ios,
      free_write = [0..<length (cm_write ch)],
      free_reconstruct = [length (cm_write ch)..<length (cm_write ch) + length (cm_reconstruct ch)],
      xor_retry_queue = [], chunk_xor_buffers = replicate (unat (num_base_bdevs rb)) 0, xor_jobs = [],
      r5_mem = mem, read_cb_args = 0\<rparr>"

text \<open>Buffers that were there before the channel.\<close>

definition in_blocks :: "(nat \<Rightarrow> nat option) \<Rightarrow> nat set \<Rightarrow> bool" where
  "in_blocks L A \<longleftrightarrow> (\<forall>a \<in> A. \<exists>p s. L p = Some s \<and> a \<in> {p..<p + s})"

lemma new_block_apart:
  assumes "owns L ps L'" and "disjoint_blocks L'" and "in_blocks L A"
    and "b \<in> set ps" "L' b = Some s" "t \<le> s"
  shows "{b..<b + t} \<inter> A = {}"
proof (rule ccontr)
  assume "{b..<b + t} \<inter> A \<noteq> {}"
  then obtain a p q where a: "a \<in> {b..<b + t}" "L p = Some q" "a \<in> {p..<p + q}"
    using assms(3) unfolding in_blocks_def by (meson disjoint_iff)
  have b: "L b = None" using assms(1,4) by (simp add: owns_def)
  have p: "L' p = Some q" using assms(1) a(2) unfolding owns_def by (cases "p \<in> set ps") auto
  have "p \<noteq> b" using a(2) b by auto
  then have "{p..<p + q} \<inter> {b..<b + s} = {}" using assms(2,5) p by (simp add: disjoint_blocks_def)
  then show False using a assms(6) by auto
qed

lemma distinct_intervals:
  assumes "distinct bs" and "disjoint_blocks L" and "\<forall>b \<in> set bs. \<exists>s. L b = Some s \<and> t \<le> s"
  shows "distinct (concat (map (\<lambda>a. [a..<a + t]) bs))"
  using assms
proof (induction bs)
  case (Cons b bs)
  obtain s where s: "L b = Some s" "t \<le> s" using Cons.prems by auto
  have "{b..<b + t} \<inter> {c..<c + t} = {}" if c: "c \<in> set bs" for c
  proof -
    obtain q where "L c = Some q" "t \<le> q" "b \<noteq> c" using Cons.prems c by auto
    then have "{b..<b + s} \<inter> {c..<c + q} = {}" using Cons.prems(2) s by (simp add: disjoint_blocks_def)
    then show ?thesis using s \<open>t \<le> q\<close> by auto
  qed
  then have "set [b..<b + t] \<inter> (\<Union>c \<in> set bs. set [c..<c + t]) = {}"
    unfolding set_upt Int_UN_distrib by blast
  then show ?case using Cons by simp
qed simp

lemma pointers_held: "held ps sz h \<Longrightarrow> length (pointers ps) = length ps \<and> (\<forall>a \<in> set (pointers ps). live h a = Some sz)"
  by (induction ps) (auto simp: held_def)

text \<open>The buffers of the two requests at the heads of the free lists.\<close>

lemma new_channel_buffers:
  fixes mem :: "nat \<Rightarrow> u8" and ios :: "nat \<Rightarrow> raid_io"
  assumes ok: "allocator_ok ans"
    and run: "raid5f_ioch_create ans z accel_ok rb (h, refs) = (0, ch, h', refs')"
  defines "w \<equiv> raid5f_new_channel rb ch mem ios"
  shows "hd (free_write w) = 0 \<and> hd (free_reconstruct w) = RAID5F_MAX_STRIPES \<and> free_write w \<noteq> [] \<and>
      free_reconstruct w \<noteq> []"
    and "sr_type (r5_stripes w 0) = STRIPE_REQ_WRITE \<and> sr_type (r5_stripes w RAID5F_MAX_STRIPES) = STRIPE_REQ_RECONSTRUCT"
    and "\<exists>ps. owns (live h) ps (live h') \<and> sr_parity_buf (r5_stripes w 0) \<in> set ps \<and>
      live h' (sr_parity_buf (r5_stripes w 0)) = Some (chunk_len rb)"
    and "\<exists>ps. owns (live h) ps (live h') \<and> set (sr_chunk_buffers (r5_stripes w RAID5F_MAX_STRIPES)) \<subseteq> set ps \<and>
      distinct (sr_chunk_buffers (r5_stripes w RAID5F_MAX_STRIPES)) \<and>
      length (sr_chunk_buffers (r5_stripes w RAID5F_MAX_STRIPES)) = unat (raid5f_stripe_data_chunks_num rb) \<and>
      (\<forall>b \<in> set (sr_chunk_buffers (r5_stripes w RAID5F_MAX_STRIPES)). live h' b = Some (chunk_len rb))"
proof -
  note out = ioch_create_outcome[OF ok run]
  obtain m ms where ws: "cm_write ch = m # ms" using out by (cases "cm_write ch") (auto simp: RAID5F_MAX_STRIPES_def)
  obtain q qs where rs: "cm_reconstruct ch = q # qs" using out by (cases "cm_reconstruct ch") (auto simp: RAID5F_MAX_STRIPES_def)
  have len: "length (cm_write ch) = RAID5F_MAX_STRIPES" "length (cm_reconstruct ch) = RAID5F_MAX_STRIPES"
    using out by simp_all
  have m: "request_complete rb STRIPE_REQ_WRITE m h'" and q: "request_complete rb STRIPE_REQ_RECONSTRUCT q h'"
    using out ws rs by simp_all
  have own: "owns (live h) (pointers (cm_frees ch)) (live h')" using out by (simp add: grown_def)
  have st: "r5_stripes w 0 = raid5f_new_stripe rb m" "r5_stripes w RAID5F_MAX_STRIPES = raid5f_new_stripe rb q"
    using ws rs len by (simp_all add: w_def raid5f_new_channel_def nth_append)
  show "hd (free_write w) = 0 \<and> hd (free_reconstruct w) = RAID5F_MAX_STRIPES \<and> free_write w \<noteq> [] \<and> free_reconstruct w \<noteq> []"
    using len by (simp add: w_def raid5f_new_channel_def RAID5F_MAX_STRIPES_def)
  show "sr_type (r5_stripes w 0) = STRIPE_REQ_WRITE \<and> sr_type (r5_stripes w RAID5F_MAX_STRIPES) = STRIPE_REQ_RECONSTRUCT"
    using m q by (simp add: st raid5f_new_stripe_def request_complete_def Let_def)
  obtain a where a: "sm_parity_buf m = Some a" "live h' a = Some (chunk_len rb)"
    using m by (auto simp: request_complete_def Let_def held_def)
  have "Some a \<in> set (sm_frees m)" using m a by (simp add: sm_frees_def request_complete_def Let_def)
  then have "a \<in> set (pointers (cm_frees ch))" by (simp add: set_pointers cm_frees_def ws)
  then show "\<exists>ps. owns (live h) ps (live h') \<and> sr_parity_buf (r5_stripes w 0) \<in> set ps \<and>
      live h' (sr_parity_buf (r5_stripes w 0)) = Some (chunk_len rb)"
    using own a by (auto simp: st raid5f_new_stripe_def)
  have held: "held (sm_chunk_buffers q) (chunk_len rb) h'" "length (sm_chunk_buffers q) = unat (raid5f_stripe_data_chunks_num rb)"
    and arr: "sm_chunk_array q \<noteq> None" "sm_type q = STRIPE_REQ_RECONSTRUCT"
    using q by (simp_all add: request_complete_def Let_def)
  obtain ys where "sm_frees q = sm_iovs q @ sm_chunk_buffers q @ ys" using arr by (simp add: sm_frees_def)
  then have "pointers (cm_frees ch) = (pointers (concat (map sm_frees (cm_write ch))) @ pointers (sm_iovs q)) @
      pointers (sm_chunk_buffers q) @
      pointers (ys @ concat (map sm_frees qs) @ [cm_xor_buffers ch, cm_xor_iovs ch, cm_xor_iovcnt ch])"
    by (simp add: cm_frees_def rs)
  then obtain xs zs where "pointers (cm_frees ch) = xs @ pointers (sm_chunk_buffers q) @ zs" by blast
  then have "set (pointers (sm_chunk_buffers q)) \<subseteq> set (pointers (cm_frees ch))" "distinct (pointers (sm_chunk_buffers q))"
    using own by (auto simp: owns_def)
  then show "\<exists>ps. owns (live h) ps (live h') \<and> set (sr_chunk_buffers (r5_stripes w RAID5F_MAX_STRIPES)) \<subseteq> set ps \<and>
      distinct (sr_chunk_buffers (r5_stripes w RAID5F_MAX_STRIPES)) \<and>
      length (sr_chunk_buffers (r5_stripes w RAID5F_MAX_STRIPES)) = unat (raid5f_stripe_data_chunks_num rb) \<and>
      (\<forall>b \<in> set (sr_chunk_buffers (r5_stripes w RAID5F_MAX_STRIPES)). live h' b = Some (chunk_len rb))"
    using own pointers_held[OF held(1)] held(2) by (intro exI[of _ "pointers (cm_frees ch)"]) (simp add: st raid5f_new_stripe_def)
qed

lemma chunk_len_nat:
  "unat (strip_size rb) * 2 ^ unat (blocklen_shift rb) < 2 ^ 32 \<Longrightarrow>
     chunk_len rb = unat (strip_size rb) * 2 ^ unat (blocklen_shift rb)"
  by (simp add: chunk_len_def unat_push_bit_no_wrap)

text \<open>With enough memory nothing fails.\<close>

lemma alloc_or_err_success:
  "\<forall>L k sz. ans L k sz \<noteq> None \<Longrightarrow> fst (snd (alloc_or_err ans sz st)) = fst st"
  by (auto simp: alloc_or_err_def heap_alloc_def Let_def split: prod.split option.split)

lemma alloc_each_success:
  "\<forall>L k sz. ans L k sz \<noteq> None \<Longrightarrow> fst (snd (alloc_each ans sz n st)) = fst st"
  by (induction n arbitrary: st) (auto simp: Let_def case_prod_beta alloc_or_err_success)

lemma stripe_request_alloc_success:
  assumes "\<forall>L k sz. ans L k sz \<noteq> None"
  shows "fst (raid5f_stripe_request_alloc ans z rb type h) \<noteq> None"
proof -
  obtain self where "ans (block_list h) (alloc_calls h) (sz_stripe_request z + sz_chunk z * unat (num_base_bdevs rb)) = Some self"
    using assms by blast
  then show ?thesis
    using alloc_or_err_success[OF assms] alloc_each_success[OF assms]
    by (simp add: raid5f_stripe_request_alloc_def Let_def case_prod_beta heap_alloc_def alloc_if_def alloc_each_if_def)
qed

lemma requests_alloc_success:
  assumes "\<forall>L k sz. ans L k sz \<noteq> None"
  shows "fst (snd (stripe_requests_alloc ans z rb type k ms st)) = fst st"
proof (induction k arbitrary: ms st)
  case (Suc k)
  show ?case
    using Suc stripe_request_alloc_success[OF assms, where z = z and rb = rb and type = type and h = "snd st"]
    by (auto simp: case_prod_beta split: option.split)
qed simp

lemma ioch_create_success:
  assumes "\<forall>L k sz. ans L k sz \<noteq> None"
  shows "fst (raid5f_ioch_create ans z True rb s) = 0"
  by (simp add: raid5f_ioch_create_def Let_def case_prod_beta requests_alloc_success[OF assms] alloc_or_err_success[OF assms])

text \<open>C36: the creation of a channel is all or nothing: it fails with \<open>-ENOMEM\<close> and leaves the heap and the
  references to the accel framework as they were, or the channel has 32 stripe requests of each type
  with all their buffers, and destroying it gives back exactly what it took. No path frees a block
  twice or one that is not its own. When no allocation fails it succeeds.\<close>

theorem raid5f_channel_all_or_nothing:
  assumes ok: "allocator_ok ans"
    and run: "raid5f_ioch_create ans z accel_ok rb (h, refs) = (rc, ch, h', refs')"
  shows "bad_free h' = bad_free h \<and>
    (if rc = 0
     then length (cm_write ch) = RAID5F_MAX_STRIPES \<and> length (cm_reconstruct ch) = RAID5F_MAX_STRIPES \<and>
       (\<forall>m \<in> set (cm_write ch). request_complete rb STRIPE_REQ_WRITE m h') \<and>
       (\<forall>m \<in> set (cm_reconstruct ch). request_complete rb STRIPE_REQ_RECONSTRUCT m h') \<and>
       refs' = refs + 1 \<and>
       (case raid5f_ioch_destroy ch (h', refs') of (h2, refs2) \<Rightarrow>
          live h2 = live h \<and> bad_free h2 = bad_free h \<and> refs2 = refs)
     else rc = - ENOMEM \<and> live h' = live h \<and> refs' = refs) \<and>
    ((\<forall>L k sz. ans L k sz \<noteq> None) \<and> accel_ok \<longrightarrow> rc = 0)"
proof -
  have "rc = 0" if "\<forall>L k sz. ans L k sz \<noteq> None" accel_ok
    using ioch_create_success[of ans z rb "(h, refs)"] that run by simp
  then show ?thesis
    using ioch_create_outcome[OF ok run] grown_freed[of h "cm_frees ch" h', OF _ refl]
    by (auto simp: raid5f_ioch_destroy_fold grown_def)
qed

text \<open>C37: a new channel is ready for a full-stripe write and for the reconstruction of any chunk: with buffers of
  the request that were allocated before the channel, the state meets what the theorems on writes and
  degraded reads ask for: the parity buffer is no part of the request, the buffers of the other chunks are
  as many as needed and overlap neither each other nor the request.\<close>

theorem raid5f_new_channel_ready:
  fixes mem :: "nat \<Rightarrow> u8" and ios :: "nat \<Rightarrow> raid_io" and e :: r5_env and io c :: nat
  defines "rb \<equiv> env_rb e" and "bio \<equiv> env_io e io"
  defines "n \<equiv> unat (num_base_bdevs rb)" and "blk \<equiv> 2 ^ unat (blocklen_shift rb) :: nat"
  assumes "allocator_ok ans" and "disjoint_blocks (live h)"
    and "raid5f_ioch_create ans z accel_ok rb (h, refs) = (0, ch, h', refs')"
    and "raid5f_geometry rb" and "unat (strip_size rb) * blk < 2 ^ 32"
    and "in_blocks (live h) (set (iov_addrs (iovs bio)))" and "md_buf bio = None"
    and "ios io = raid_io_init"
  defines "w \<equiv> raid5f_new_channel rb ch mem ios"
  shows "(bdev_io_type bio = IO_WRITE \<and> length (iov_addrs (iovs bio)) = (n - 1) * (unat (strip_size rb) * blk) \<longrightarrow>
      r5_write_request e 0 io w) \<and>
    (c < n \<and> 0 < unat (num_blocks bio) \<and> unat (num_blocks bio) \<le> unat (strip_size rb) \<and> distinct (iov_addrs (iovs bio)) \<and>
      length (iov_addrs (iovs bio)) = unat (num_blocks bio) * blk \<longrightarrow>
      r5_recon_request e RAID5F_MAX_STRIPES io c w)"
proof -
  note ok = assms(5) and disj = assms(6) and run = assms(7) and geo = assms(8) and lim = assms(9)
    and inside = assms(10) and md = assms(11) and fresh = assms(12)
  let ?t = "unat (strip_size rb) * blk"
  note buffers = new_channel_buffers[OF ok run, where mem = mem and ios = ios, folded w_def]
  have cl: "chunk_len rb = ?t" using lim chunk_len_nat[of rb] by (simp add: blk_def)
  have pos: "0 < ?t" and d: "unat (raid5f_stripe_data_chunks_num rb) = n - 1"
    using geo by (simp_all add: raid5f_geometry_def blk_def n_def raid5f_stripe_data_chunks_num_def)
  have disj': "disjoint_blocks (live h')" using ioch_create_outcome[OF ok run] disj by (simp add: grown_def)
  have w: "length (sr_chunks (r5_stripes w sid)) = n" "\<forall>ck \<in> set (sr_chunks (r5_stripes w sid)). ck_iovs ck \<noteq> []"
    "xor_remaining_md (r5_stripes w sid) = 0" for sid
    by (auto simp: w_def raid5f_new_channel_def raid5f_new_stripe_def raid5f_new_chunk_def n_def)
  have idle: "xor_jobs w = []" "xor_retry_queue w = []" "r5_ios w io = raid_io_init"
    using fresh by (simp_all add: w_def raid5f_new_channel_def)
  have apart: "{sr_parity_buf (r5_stripes w 0)..<sr_parity_buf (r5_stripes w 0) + ?t} \<inter> set (iov_addrs (iovs bio)) = {}"
    using buffers(3) new_block_apart[OF _ disj' inside] cl by force
  obtain ps where ps: "owns (live h) ps (live h')" "set (sr_chunk_buffers (r5_stripes w RAID5F_MAX_STRIPES)) \<subseteq> set ps"
      "distinct (sr_chunk_buffers (r5_stripes w RAID5F_MAX_STRIPES))"
      "length (sr_chunk_buffers (r5_stripes w RAID5F_MAX_STRIPES)) = n - 1"
      "\<forall>b \<in> set (sr_chunk_buffers (r5_stripes w RAID5F_MAX_STRIPES)). live h' b = Some ?t"
    using buffers(4) cl d by auto
  have fit: "distinct (concat (iov_addrs (iovs bio) # map (\<lambda>a. [a..<a + t]) (sr_chunk_buffers (r5_stripes w RAID5F_MAX_STRIPES))))"
    if "distinct (iov_addrs (iovs bio))" "t \<le> ?t" for t
  proof -
    have "distinct (concat (map (\<lambda>a. [a..<a + t]) (sr_chunk_buffers (r5_stripes w RAID5F_MAX_STRIPES))))"
      using ps(5) that(2) by (intro distinct_intervals[OF ps(3) disj']) auto
    moreover have "{b..<b + t} \<inter> set (iov_addrs (iovs bio)) = {}"
      if "b \<in> set (sr_chunk_buffers (r5_stripes w RAID5F_MAX_STRIPES))" for b
      using new_block_apart[OF ps(1) disj' inside _ _ \<open>t \<le> ?t\<close>] ps(2,5) that by blast
    ultimately show ?thesis using that(1) by auto
  qed
  have "r5_write_request e 0 io w"
    if "bdev_io_type bio = IO_WRITE" "length (iov_addrs (iovs bio)) = (n - 1) * ?t"
    using that w[of 0] idle buffers(1,2) apart pos lim geo md
    by (simp add: r5_write_request_def Let_def rb_def[symmetric] bio_def[symmetric] n_def[symmetric] blk_def[symmetric] raid_io_init_def)
  moreover have "r5_recon_request e RAID5F_MAX_STRIPES io c w"
    if r: "c < n" "0 < unat (num_blocks bio)" "unat (num_blocks bio) \<le> unat (strip_size rb)" "distinct (iov_addrs (iovs bio))"
      "length (iov_addrs (iovs bio)) = unat (num_blocks bio) * blk"
  proof -
    have t: "unat (num_blocks bio) * blk \<le> ?t" "0 < unat (num_blocks bio) * blk" using r by (simp_all add: blk_def)
    have "unat (num_blocks bio) * blk < 2 ^ 64" by (rule less_trans[OF le_less_trans[OF t(1) lim]]) simp
    then show ?thesis
      using r w[of RAID5F_MAX_STRIPES] idle buffers(1,2) fit[OF r(4) t(1)] ps(4) t(2) geo md
      by (simp add: r5_recon_request_def Let_def rb_def[symmetric] bio_def[symmetric] n_def[symmetric] blk_def[symmetric]
        raid_io_init_def)
  qed
  ultimately show ?thesis by blast
qed

subsection \<open>The module\<close>

text \<open>\<open>get\<close> is the answer of \<open>spdk_get_io_channel\<close>.\<close>

definition raid5f_get_io_channel :: "(module_private \<Rightarrow> nat option) \<Rightarrow> raid_bdev \<Rightarrow> nat option" where
  "raid5f_get_io_channel get rb = get (rb_private rb)"

definition g_raid5f_module :: "bool \<Rightarrow> (raid_base_bdev_info \<Rightarrow> u64) \<Rightarrow> raid_bdev_module" where
  "g_raid5f_module alloc_ok buf_align =
     \<lparr>mod_level = RAID5F, base_bdevs_min = 3, constraint_kind = CONSTRAINT_MAX_BASE_BDEVS_REMOVED,
      constraint_value = 1, memory_domains_supported = False, mod_start = raid5f_start alloc_ok buf_align,
      mod_stop = Some raid5f_stop, mod_null_payload = False, mod_resize = None\<rparr>"

lemma raid5f_start_keeps: "same_slots rb (snd (raid5f_start alloc_ok buf_align rb))"
  by (simp add: raid5f_start_def same_slots_def Let_def comp_def)

interpretation raid5f_module: raid_module_contract "g_raid5f_module alloc_ok buf_align" for alloc_ok buf_align
  by unfold_locales (auto simp: g_raid5f_module_def raid5f_start_keeps raid5f_stop_def)

text \<open>The state of the handler is the module's channel, the raid I/O in question taken out of it.\<close>

definition raid5f_handlers ::
  "r5_env \<Rightarrow> nat \<Rightarrow> r5_world raid_handlers" where
  "raid5f_handlers e io =
     \<lparr>submit_rw_request = (\<lambda>(w, rio). let w = raid5f_submit_rw_request e io (r5_io io (\<lambda>_. rio) w)
                             in Some (w, r5_ios w io)),
      submit_null_payload_request = None,
      submit_reset_request =
        raid_bdev_submit_reset_request (env_rc e) (env_rb e) (env_ch e)\<rparr>"

interpretation raid5f_handled: raid_module_handlers "g_raid5f_module alloc_ok buf_align" "raid5f_handlers e io"
  for alloc_ok buf_align e io
  by unfold_locales (simp add: g_raid5f_module_def raid5f_handlers_def)

lemma raid5f_dispatch_defined:
  "raid_bdev_io_type_supported (g_raid5f_module alloc_ok buf_align) supported rb (bdev_io_type bio) \<Longrightarrow>
     raid_bdev_submit_request (raid5f_handlers e io) rb bio st \<noteq> UndefinedCall"
  by (rule raid5f_handled.supported_dispatch) (auto simp: raid5f_handlers_def Let_def)

subsection \<open>A concrete channel\<close>

text \<open>An allocator that places each block behind all live ones, and one whose first \<open>n\<close> calls only
  succeed.\<close>

definition bump_alloc :: alloc_answer where
  "bump_alloc L k sz = Some (Suc (foldr (\<lambda>(a, s) m. max (a + s) m) L 0))"

definition bump_alloc_upto :: "nat \<Rightarrow> alloc_answer" where
  "bump_alloc_upto n L k sz = (if k < n then bump_alloc L k sz else None)"

lemma bump_above:
  fixes L :: "(nat \<times> nat) list"
  shows "map_of L q = Some t \<Longrightarrow> q + t \<le> foldr (\<lambda>(a, s) m. max (a + s) m) L 0"
proof (induction L)
  case (Cons b L)
  obtain a s where "b = (a, s)" by fastforce
  then show ?case using Cons by (cases "q = a") (auto simp: le_max_iff_disj)
qed simp

lemma bump_alloc_ok: "allocator_ok bump_alloc"
proof -
  have "map_of L (Suc (foldr (\<lambda>(a, s) m. max (a + s) m) L 0)) = None" for L
    using bump_above[of L] by (cases "map_of L (Suc (foldr (\<lambda>(a, s) m. max (a + s) m) L 0))") fastforce+
  moreover have "{Suc (foldr (\<lambda>(a, s) m. max (a + s) m) L 0)..<Suc (foldr (\<lambda>(a, s) m. max (a + s) m) L 0) + sz} \<inter> {q..<q + t} = {}"
    if "map_of L q = Some t" for L sz q t
    using bump_above[OF that] by auto
  ultimately show ?thesis by (simp add: allocator_ok_def bump_alloc_def del: Int_atLeastLessThan)
qed

lemma bump_alloc_upto_ok: "allocator_ok (bump_alloc_upto n)"
  using bump_alloc_ok by (simp add: allocator_ok_def bump_alloc_upto_def)

definition example_sizes :: c_sizes where
  "example_sizes = \<lparr>sz_stripe_request = 200, sz_chunk = 64, sz_iovec = 16, sz_pointer = 8, sz_ioviter = (\<lambda>n. 16 + 40 * n)\<rparr>"

text \<open>The buffers of the example requests are live blocks.\<close>

definition example_heap :: heap where
  "example_heap = \<lparr>block_list = [(100, 5), (300, 27)], alloc_calls = 0, bad_free = False\<rparr>"

theorem raid5f_channel_all_or_nothing_witness:
  "(case raid5f_ioch_create bump_alloc example_sizes True raid5f_example_started (example_heap, 0) of
     (rc, ch, h', refs') \<Rightarrow> rc = 0 \<and> length (cm_write ch) = 32 \<and> refs' = 1 \<and>
       live (fst (raid5f_ioch_destroy ch (h', refs'))) = live example_heap) \<and>
   (case raid5f_ioch_create (bump_alloc_upto 5) example_sizes True raid5f_example_started (example_heap, 0) of
     (rc, ch, h', refs') \<Rightarrow> rc = - ENOMEM \<and> live h' = live example_heap \<and> \<not> bad_free h')"
proof -
  obtain rc ch h' refs' where run: "raid5f_ioch_create bump_alloc example_sizes True raid5f_example_started (example_heap, 0) =
      (rc, ch, h', refs')" by (metis prod.exhaust)
  obtain rc2 ch2 h2 refs2 where run2: "raid5f_ioch_create (bump_alloc_upto 5) example_sizes True raid5f_example_started
      (example_heap, 0) = (rc2, ch2, h2, refs2)" by (metis prod.exhaust)
  have "fst (raid5f_ioch_create (bump_alloc_upto 5) example_sizes True raid5f_example_started (example_heap, 0)) \<noteq> 0"
    by code_simp
  then have "rc2 \<noteq> 0" using run2 by simp
  moreover have "\<forall>L k sz. bump_alloc L k sz \<noteq> None" "\<not> bad_free example_heap" by (simp_all add: bump_alloc_def example_heap_def)
  ultimately have rc: "rc = 0" "rc2 \<noteq> 0" "\<not> bad_free example_heap"
    using raid5f_channel_all_or_nothing[OF bump_alloc_ok run] by simp_all
  note made = raid5f_channel_all_or_nothing[OF bump_alloc_ok run, THEN conjunct2, THEN conjunct1]
  have "length (cm_write ch) = 32 \<and> refs' = 1 \<and> live (fst (raid5f_ioch_destroy ch (h', refs'))) = live example_heap"
    using made unfolding rc(1) case_prod_beta by (auto simp: RAID5F_MAX_STRIPES_def)
  moreover have "rc2 = - ENOMEM \<and> live h2 = live example_heap \<and> \<not> bad_free h2"
    using raid5f_channel_all_or_nothing[OF bump_alloc_upto_ok run2] rc by simp
  ultimately show ?thesis using run run2 rc(1) by (elim conjE) simp
qed

text \<open>The write and the read of the examples on a new channel of that bdev.\<close>

lemma example_heap_disjoint: "disjoint_blocks (live example_heap)"
  by (auto simp: disjoint_blocks_def example_heap_def split: if_splits)

theorem raid5f_new_channel_ready_witness:
  "\<exists>w. (\<exists>ch h' refs'. raid5f_ioch_create bump_alloc example_sizes True raid5f_example_started (example_heap, 0) = (0, ch, h', refs') \<and>
      w = raid5f_new_channel raid5f_example_started ch (\<lambda>_. 0) (\<lambda>_. raid_io_init)) \<and> r5_write_request r5_write_env 0 0 w"
proof -
  have "fst (raid5f_ioch_create bump_alloc example_sizes True raid5f_example_started (example_heap, 0)) = 0"
    by (rule ioch_create_success) (simp add: bump_alloc_def)
  then obtain ch h' refs' where run: "raid5f_ioch_create bump_alloc example_sizes True raid5f_example_started (example_heap, 0) =
      (0, ch, h', refs')" by (metis prod.exhaust fst_conv)
  have rb: "env_rb r5_write_env = raid5f_example_started" "env_io r5_write_env 0 = r5_example_write"
    by (simp_all add: r5_example_env_def)
  have sizes: "unat (strip_size raid5f_example_started) * 2 ^ unat (blocklen_shift raid5f_example_started) = 16"
    "unat (num_base_bdevs raid5f_example_started) = 3" by code_simp+
  have bio: "md_buf r5_example_write = None" "length (iov_addrs (iovs r5_example_write)) = 32" "bdev_io_type r5_example_write = IO_WRITE"
    by code_simp+
  have "iov_addrs (iovs r5_example_write) = [100..<105] @ [300..<327]" by (simp add: r5_example_write_def iov_addrs_def)
  then have inside: "in_blocks (live example_heap) (set (iov_addrs (iovs r5_example_write)))"
    unfolding in_blocks_def
    by (auto simp: example_heap_def intro: exI[of _ 100] exI[of _ 300])
  show ?thesis
    using raid5f_new_channel_ready[where e = r5_write_env and io = 0 and c = 0 and mem = "\<lambda>_. 0" and ios = "\<lambda>_. raid_io_init",
      unfolded rb, OF bump_alloc_ok example_heap_disjoint run _ _ inside bio(1) refl]
      raid5f_example_started_ok sizes bio run by auto
qed

end
