(* ===== verification/Raid_Reach.thy ===== *)
theory Raid_Reach
  imports Raid_Lifecycle
begin

text \<open>
  The transition system of the life of raid bdevs: its steps are the operations of
  \<open>Raid_Config\<close> and the callbacks of the asynchronous calls under way, each with any answers from
  outside, and \<open>raid_inv\<close> is its invariant.
\<close>

lemma w_emit_nil [simp]: "w_emit [] w = w"
  by (simp add: w_emit_def)

subsection \<open>The calls under way\<close>

fun pend_name :: "raid_pending \<Rightarrow> string" where
  "pend_name (PendQuiesce name slot) = name"
| "pend_name (PendChannels name slot) = name"
| "pend_name (PendUnquiesce name slot) = name"
| "pend_name (PendUnregister name cb) = name"
| "pend_name (PendModuleStop name) = name"
| "pend_name (PendIoUnregister name) = name"

text \<open>The slot of a removal under way.\<close>

fun pend_slot :: "raid_pending \<Rightarrow> nat option" where
  "pend_slot (PendQuiesce name slot) = Some slot"
| "pend_slot (PendChannels name slot) = Some slot"
| "pend_slot (PendUnquiesce name slot) = Some slot"
| "pend_slot _ = None"

fun pend_unregister :: "raid_pending \<Rightarrow> bool" where
  "pend_unregister (PendUnregister name cb) = True"
| "pend_unregister _ = False"

definition calls_of :: "string \<Rightarrow> raid_pending list \<Rightarrow> raid_pending list" where
  "calls_of name ps = filter (\<lambda>p. pend_name p = name) ps"

definition removals :: "raid_pending list \<Rightarrow> nat" where
  "removals ps = length (filter (\<lambda>p. pend_slot p \<noteq> None) ps)"

lemma removals_simps [simp]:
  "removals [] = 0" "removals (ps @ qs) = removals ps + removals qs"
  "removals (p # ps) = (if pend_slot p = None then 0 else 1) + removals ps"
  by (simp_all add: removals_def)

lemma calls_of_simps [simp]:
  "calls_of name [] = []" "calls_of name (ps @ qs) = calls_of name ps @ calls_of name qs"
  "calls_of name (p # ps) = (if pend_name p = name then [p] else []) @ calls_of name ps"
  by (simp_all add: calls_of_def)

lemma calls_of_remove1:
  "calls_of name (remove1 p ps) =
     (if pend_name p = name then remove1 p (calls_of name ps) else calls_of name ps)"
  by (induction ps) auto

lemma removals_remove1:
  "p \<in> set ps \<Longrightarrow> removals ps = removals (remove1 p ps) + (if pend_slot p = None then 0 else 1)"
  by (induction ps) auto

lemma calls_of_in: "p \<in> set (calls_of name ps) \<longleftrightarrow> p \<in> set ps \<and> pend_name p = name"
  by (simp add: calls_of_def)

subsection \<open>What holds of a raid bdev and the calls under way for it\<close>

text \<open>
  Once configured a slot has a name only while it is open; nothing is removed asynchronously while
  configuring; a raid bdev being unregistered is offline; the slot of a removal exists. \<open>serial\<close> adds
  the bound that holds when removals do not overlap: an online raid bdev keeps enough base bdevs for
  itself after all the removals under way.
\<close>

definition raid_ready :: "bool \<Rightarrow> raid_pending list \<Rightarrow> raid_bdev \<Rightarrow> bool" where
  "raid_ready serial ps rb \<longleftrightarrow>
     (rb_state rb \<noteq> RAID_BDEV_STATE_CONFIGURING \<longrightarrow>
        (\<forall>info \<in> set (base_bdev_info rb). bi_name info = bi_desc info)) \<and>
     (rb_state rb = RAID_BDEV_STATE_CONFIGURING \<longrightarrow> removals ps = 0) \<and>
     ((\<exists>p \<in> set ps. pend_unregister p) \<longrightarrow> rb_state rb = RAID_BDEV_STATE_OFFLINE) \<and>
     (\<forall>p \<in> set ps. \<forall>slot. pend_slot p = Some slot \<longrightarrow> slot < length (base_bdev_info rb)) \<and>
     (serial \<longrightarrow> rb_state rb = RAID_BDEV_STATE_ONLINE \<longrightarrow>
        unat (min_base_bdevs_operational rb) + removals ps \<le> unat (num_base_bdevs_discovered rb))"

definition raid_inv :: "bool \<Rightarrow> raid_world \<Rightarrow> bool" where
  "raid_inv serial w \<longleftrightarrow>
     raid_world_ok w \<and>
     (\<forall>rb \<in> set (g_raid_bdev_list w). raid_ready serial (calls_of (rb_name rb) (w_pending w)) rb)"

lemma raid_inv_ok: "raid_inv serial w \<Longrightarrow> raid_world_ok w"
  by (simp add: raid_inv_def)

lemma raid_inv_ready:
  "raid_inv serial w \<Longrightarrow> rb \<in> set (g_raid_bdev_list w) \<Longrightarrow>
   raid_ready serial (calls_of (rb_name rb) (w_pending w)) rb"
  by (simp add: raid_inv_def)

lemma raid_inv_slots:
  "raid_inv serial w \<Longrightarrow> rb \<in> set (g_raid_bdev_list w) \<Longrightarrow> slots_ok rb"
  by (simp add: raid_inv_def raid_world_ok_def)

lemma raid_inv_modules: "raid_inv serial w \<Longrightarrow> \<forall>m \<in> set (g_raid_modules w). module_keeps m"
  by (simp add: raid_inv_def raid_world_ok_def)

text \<open>The rule for a step that changes one raid bdev and calls for it.\<close>

lemma raid_inv_step:
  assumes inv: "raid_inv serial w" and rb: "rb \<in> set (g_raid_bdev_list w)"
    and step: "raid_step w rb rb' w'"
    and others: "\<And>n. n \<noteq> rb_name rb \<Longrightarrow> calls_of n (w_pending w') = calls_of n (w_pending w)"
    and ready: "raid_ready serial (calls_of (rb_name rb) (w_pending w')) rb'"
  shows "raid_inv serial w'"
proof -
  have nm: "rb_name rb' = rb_name rb" by (rule raid_step_name[OF step])
  have "raid_ready serial (calls_of (rb_name r) (w_pending w')) r"
    if r: "r \<in> set (g_raid_bdev_list w')" for r
  proof (cases "rb_name r = rb_name rb")
    case True
    then have "r = rb'" using r step nm by (auto simp: raid_step_def)
    then show ?thesis using ready nm by simp
  next
    case False
    then have "r \<in> set (g_raid_bdev_list w)"
      using r step nm by (auto simp: raid_step_def split: if_splits)
    then show ?thesis using others[OF False] raid_inv_ready[OF inv] by simp
  qed
  then show ?thesis
    using raid_step_world_ok[OF raid_inv_ok[OF inv] rb step] by (simp add: raid_inv_def)
qed

text \<open>The rule for a step that changes no raid bdev.\<close>

lemma raid_inv_same:
  assumes inv: "raid_inv serial w" and l: "g_raid_bdev_list w' = g_raid_bdev_list w"
    and m: "g_raid_modules w' = g_raid_modules w" and lg: "w_log w' = w_log w @ es"
    and cr: "claims es = {#}" "releases es = {#}"
    and ready: "\<And>rb. rb \<in> set (g_raid_bdev_list w) \<Longrightarrow>
      raid_ready serial (calls_of (rb_name rb) (w_pending w)) rb \<Longrightarrow>
      raid_ready serial (calls_of (rb_name rb) (w_pending w')) rb"
  shows "raid_inv serial w'"
  using ready raid_inv_ready[OF inv] world_same[OF raid_inv_ok[OF inv] l m lg cr]
  by (simp add: raid_inv_def l)

text \<open>Freeing a raid bdev without open slots.\<close>

lemma cleanup_inv:
  assumes inv: "raid_inv serial w" and rb: "rb \<in> set (g_raid_bdev_list w)"
    and d: "num_base_bdevs_discovered rb = 0"
  shows "raid_inv serial (raid_bdev_cleanup_and_free (rb_name rb) w)"
proof -
  have "raid_descs rb = {#}" by (rule undiscovered_descs[OF raid_inv_slots[OF inv rb] d])
  from cleanup_ok[OF raid_inv_ok[OF inv] rb this] show ?thesis
    using inv by (auto simp: raid_inv_def raid_bdev_cleanup_and_free_def w_emit_def)
qed

text \<open>When every slot is open all slots have their names.\<close>

lemma all_slots_open:
  assumes ok: "slots_ok rb" and all: "num_base_bdevs_discovered rb = num_base_bdevs rb"
  shows "\<forall>info \<in> set (base_bdev_info rb). bi_desc info \<noteq> None \<and> bi_name info = bi_desc info"
proof -
  have "length (List.map_filter bi_desc (base_bdev_info rb)) = length (base_bdev_info rb)"
    using ok all by (simp add: slots_ok_def raid_descs_def)
  moreover have "\<forall>x \<in> set xs. f x \<noteq> None" if "length (List.map_filter f xs) = length xs"
    for f :: "raid_base_bdev_info \<Rightarrow> string option" and xs
    using that
  proof (induction xs)
    case (Cons x xs)
    then show ?case
      using map_filter_length[of f xs] by (auto simp: List.map_filter_simps split: option.splits)
  qed simp
  ultimately have "\<forall>info \<in> set (base_bdev_info rb). bi_desc info \<noteq> None" by blast
  then show ?thesis using ok by (simp add: slots_ok_def)
qed

subsection \<open>Creation and configuration\<close>

lemma find_name_some:
  "raid_bdev_find_by_name name w = Some rb \<Longrightarrow> rb \<in> set (g_raid_bdev_list w) \<and> rb_name rb = name"
  by (auto simp: raid_bdev_find_by_name_def find_Some_iff)

lemma find_name_none:
  "raid_bdev_find_by_name name w = None \<Longrightarrow> name \<notin> rb_name ` set (g_raid_bdev_list w)"
  by (auto simp: raid_bdev_find_by_name_def find_None_iff)

lemma no_slots_descs:
  "\<forall>info \<in> set infos. bi_desc info = None \<Longrightarrow> List.map_filter bi_desc infos = []"
  by (induction infos) (auto simp: List.map_filter_simps)

definition raid_new_bdev :: "string \<Rightarrow> u32 \<Rightarrow> u8 \<Rightarrow> raid_level \<Rightarrow> bool \<Rightarrow> uuid \<Rightarrow> u8 \<Rightarrow> raid_bdev" where
  "raid_new_bdev name ssize num level superblock uuid min_operational =
     zero_raid_bdev
       \<lparr>rb_module := level, num_base_bdevs := num,
        base_bdev_info := replicate (unat num) zero_base_bdev_info,
        strip_size := 0, strip_size_kb := ssize,
        rb_state := RAID_BDEV_STATE_CONFIGURING, rb_level := level,
        min_base_bdevs_operational := min_operational,
        superblock_enabled := superblock, rb_name := name, rb_uuid := uuid\<rparr>"

lemma new_bdev_descs [simp]: "raid_descs (raid_new_bdev name ssize num level sb uuid mo) = {#}"
  by (simp add: raid_descs_def raid_new_bdev_def no_slots_descs zero_base_bdev_info_def)

lemma new_bdev_ok:
  "mo \<noteq> 0 \<Longrightarrow> mo \<le> num \<Longrightarrow> slots_ok (raid_new_bdev name ssize num level sb uuid mo)"
  unfolding slots_ok_def new_bdev_descs
  by (simp add: raid_new_bdev_def zero_base_bdev_info_def zero_raid_bdev_def unat_gt_0 word_le_nat_alt)

lemma create_cases:
  obtains (failed) rc where "raid_bdev_create env name ssize num level sb uuid w = (rc, w)" "rc \<noteq> 0"
  | (created) mo where
      "raid_bdev_create env name ssize num level sb uuid w =
         (0, w\<lparr>g_raid_bdev_list := g_raid_bdev_list w @ [raid_new_bdev name ssize num level sb uuid mo]\<rparr>)"
      "raid_bdev_find_by_name name w = None" "mo \<noteq> 0" "mo \<le> num"
proof (cases "fst (raid_bdev_create env name ssize num level sb uuid w) = 0")
  case True
  then obtain m mo where *: "raid_bdev_find_by_name name w = None"
      "raid_bdev_module_find (g_raid_modules w) level = Some m" "raid_min_operational m num = Some mo"
      "\<not> (mo = 0 \<or> mo > num)"
    by (auto simp: raid_bdev_create_def split: option.splits if_splits)
  show ?thesis
    by (rule created[of mo])
      (use True * module_find_level[OF *(2)] in \<open>auto simp: raid_bdev_create_def raid_new_bdev_def
        Let_def split: if_splits\<close>)
next
  case False
  then have "snd (raid_bdev_create env name ssize num level sb uuid w) = w"
    by (auto simp: raid_bdev_create_def Let_def split: option.splits)
  then show ?thesis using failed False by (metis prod.collapse)
qed

lemma create_inv:
  assumes inv: "raid_inv serial w" and fresh: "\<forall>p \<in> set (w_pending w). pend_name p \<noteq> name"
  shows "raid_inv serial (snd (raid_bdev_create env name ssize num level sb uuid w))"
proof (cases rule: create_cases[of env name ssize num level sb uuid w])
  case (failed rc)
  then show ?thesis using inv by simp
next
  case (created mo)
  let ?rb = "raid_new_bdev name ssize num level sb uuid mo"
  have "slots_ok ?rb" by (rule new_bdev_ok[OF created(3,4)])
  moreover have "calls_of name (w_pending w) = []" using fresh by (auto simp: calls_of_def filter_empty_conv)
  then have "raid_ready serial (calls_of name (w_pending w)) ?rb"
    by (simp add: raid_ready_def raid_new_bdev_def)
  moreover have "rb_name ?rb = name" by (simp add: raid_new_bdev_def)
  ultimately show ?thesis
    using inv find_name_none[OF created(2)] unfolding created(1)
    by (auto simp: raid_inv_def raid_world_ok_def owned_def)
qed

text \<open>A configuration goes online or stays configuring; all it leaves under way is the stop of the
  module.\<close>

lemma go_online_state:
  assumes km: "module_keeps m" and c: "raid_bdev_go_online env m rb w = (rc, rb', w')"
  shows "rb_state rb' \<in> {RAID_BDEV_STATE_ONLINE, RAID_BDEV_STATE_CONFIGURING} \<and>
    (rc = 0 \<longrightarrow> rb_state rb' = RAID_BDEV_STATE_ONLINE) \<and>
    (w_pending w' = w_pending w \<or> w_pending w' = w_pending w @ [PendModuleStop (rb_name rb)])"
proof -
  define r5 where "r5 = rb\<lparr>rb_state := RAID_BDEV_STATE_ONLINE\<rparr>"
  obtain sd r6 where sp: "(case mod_stop m of None \<Rightarrow> (True, r5) | Some stop \<Rightarrow> stop r5) = (sd, r6)"
    by fastforce
  have "rb_name r6 = rb_name r5"
  proof (cases "mod_stop m")
    case (Some stop)
    then have "same_slots r5 (snd (stop r5))" using km by (simp add: module_keeps_def)
    then show ?thesis using sp Some by (simp add: same_slots_def)
  qed (use sp in simp)
  then have nm: "rb_name r6 = rb_name rb" by (simp add: r5_def)
  show ?thesis
  proof (cases "env_register_rc env (rb_name r5) = 0")
    case True
    then show ?thesis
      using c unfolding raid_bdev_go_online_def r5_def[symmetric] Let_def by (auto simp: r5_def)
  next
    case False
    then show ?thesis
      using c nm unfolding raid_bdev_go_online_def r5_def[symmetric] Let_def sp by (cases sd) auto
  qed
qed

lemma configure_md_state [simp]:
  "rb_state (snd (raid_bdev_configure_md bs rb)) = rb_state rb"
  "rb_name (snd (raid_bdev_configure_md bs rb)) = rb_name rb"
proof -
  have *: "rb_state (snd (configure_md_loop cs r)) = rb_state r \<and> rb_name (snd (configure_md_loop cs r)) = rb_name r"
    for cs r by (induction cs) auto
  show "rb_state (snd (raid_bdev_configure_md bs rb)) = rb_state rb"
    "rb_name (snd (raid_bdev_configure_md bs rb)) = rb_name rb"
    by (auto simp: raid_bdev_configure_md_def * split: list.split)
qed

lemma configure_state:
  assumes ms: "\<forall>m \<in> set (g_raid_modules w). module_keeps m"
    and st: "rb_state rb = RAID_BDEV_STATE_CONFIGURING"
    and c: "raid_bdev_configure env rb w = (rc, rb', w')"
  shows "rb_state rb' \<in> {RAID_BDEV_STATE_ONLINE, RAID_BDEV_STATE_CONFIGURING} \<and>
    (w_pending w' = w_pending w \<or> w_pending w' = w_pending w @ [PendModuleStop (rb_name rb)])"
proof (cases "common_blocklen 0 (base_bdevs_of env rb)")
  case None
  then show ?thesis using c st by (auto simp: raid_bdev_configure_def)
next
  case (Some blen)
  define r1 where "r1 = rb\<lparr>strip_size := (strip_size_kb rb * 1024) div blen\<rparr>"
  define r2 where "r2 = r1\<lparr>strip_size_shift := spdk_u32log2 env (strip_size r1),
                          blocklen_shift := spdk_u32log2 env blen, blocklen := blen\<rparr>"
  obtain rc3 r3 where md: "raid_bdev_configure_md (base_bdevs_of env r2) r2 = (rc3, r3)" by fastforce
  have s3: "rb_state r3 = RAID_BDEV_STATE_CONFIGURING" "rb_name r3 = rb_name rb"
    using configure_md_state[of "base_bdevs_of env r2" r2] st unfolding md by (simp_all add: r2_def r1_def)
  note unf = raid_bdev_configure_def Some option.case Let_def r1_def[symmetric] r2_def[symmetric] md prod.case
  show ?thesis
  proof (cases "(strip_size r1 = 0 \<and> rb_level r1 \<noteq> RAID1) \<or> rc3 \<noteq> 0 \<or> rb_module_of w r3 = None")
    case True
    then show ?thesis using c st s3 unfolding unf by (auto simp: r1_def split: if_splits)
  next
    case False
    then obtain m where m: "rb_module_of w r3 = Some m" by auto
    have km: "module_keeps m" using ms m module_find_in by (auto simp: rb_module_of_def)
    obtain rc4 r4 where s: "mod_start m r3 = (rc4, r4)" by fastforce
    then have "same_slots r3 r4" using km by (metis module_keeps_def snd_conv)
    then have s4: "rb_state r4 = RAID_BDEV_STATE_CONFIGURING" "rb_name r4 = rb_name rb"
      using s3 by (simp_all add: same_slots_def)
    show ?thesis
      using c False m s s4 go_online_state[OF km, of env r4 w rc rb' w'] unfolding unf
      by (auto split: if_splits)
  qed
qed

lemma raid_step_len: "raid_step w rb rb' w' \<Longrightarrow> length (base_bdev_info rb') = length (base_bdev_info rb)"
  by (auto simp: raid_step_def evolves_def)

lemma evolves_all_open:
  assumes "evolves r r' []" and "slots_ok r" and "num_base_bdevs_discovered r = num_base_bdevs r"
  shows "num_base_bdevs_discovered r' = num_base_bdevs r'"
proof -
  have "raid_descs r' = raid_descs r" "length (base_bdev_info r') = length (base_bdev_info r)"
    "slots_ok r'" using assms(1) by (simp_all add: evolves_def)
  then have "unat (num_base_bdevs_discovered r') = unat (num_base_bdevs r')"
    using assms(2,3) unfolding slots_ok_def by metis
  then show ?thesis by (simp add: word_unat_eq_iff)
qed

lemma configure_base_bdev_inv:
  assumes inv: "raid_inv serial w" and rb: "rb \<in> set (g_raid_bdev_list w)"
    and st: "rb_state rb = RAID_BDEV_STATE_CONFIGURING" and i: "slot < length (base_bdev_info rb)"
    and nm: "bi_name (base_bdev_info rb ! slot) = Some d"
    and none: "bi_desc (base_bdev_info rb ! slot) = None"
  shows "raid_inv serial (snd (raid_bdev_configure_base_bdev env rb slot w))"
proof -
  let ?ps = "calls_of (rb_name rb) (w_pending w)"
  have r: "removals ?ps = 0" "\<forall>p \<in> set ?ps. \<not> pend_unregister p"
    "\<forall>p \<in> set ?ps. \<forall>slot. pend_slot p = Some slot \<longrightarrow> slot < length (base_bdev_info rb)"
    using raid_inv_ready[OF inv rb] st by (auto simp: raid_ready_def)
  show ?thesis
  proof (rule configure_base_bdev_cases[OF raid_inv_slots[OF inv rb] raid_inv_modules[OF inv]
        i nm none, of env], goal_cases)
    case same: (1 es)
    then show ?thesis by (simp add: raid_inv_same[OF inv, of "w_emit es w" es])
  next
    case opened: (2 rb')
    show ?thesis unfolding opened(2)
      by (rule raid_inv_step[OF inv rb opened(1)])
         (use r opened(3) st raid_step_len[OF opened(1)] in \<open>auto simp: raid_ready_def\<close>)
  next
    case configured: (3 r3 rc rb' w')
    have cs: "rb_state rb' \<in> {RAID_BDEV_STATE_ONLINE, RAID_BDEV_STATE_CONFIGURING}"
      "w_pending w' = w_pending w \<or> w_pending w' = w_pending w @ [PendModuleStop (rb_name rb)]"
      using configure_state[OF _ _ configured(3)] raid_inv_modules[OF inv] configured(4,5) st by auto
    have ok: "slots_ok rb'" by (rule raid_step_slots_ok[OF configured(1)])
    have all: "num_base_bdevs_discovered rb' = num_base_bdevs rb'"
      by (rule evolves_all_open[OF configured(6,8,7)])
    show ?thesis unfolding configured(2)
    proof (rule raid_inv_step[OF inv rb configured(1)], goal_cases)
      case (1 n)
      then show ?case using cs(2) by auto
    next
      case 2
      then show ?case
        using cs r all_slots_open[OF ok all] all ok raid_step_len[OF configured(1)]
        by (auto simp: raid_ready_def slots_ok_def)
    qed
  qed
qed

lemma w_update_in:
  "rb \<in> set (g_raid_bdev_list w) \<Longrightarrow> rb_name rb' = rb_name rb \<Longrightarrow>
   rb' \<in> set (g_raid_bdev_list (w_update rb' w))"
  by (auto simp: w_update_def)

lemma add_base_device_inv:
  assumes inv: "raid_inv serial w" and rb: "rb \<in> set (g_raid_bdev_list w)"
    and st: "rb_state rb = RAID_BDEV_STATE_CONFIGURING"
  shows "raid_inv serial (snd (raid_bdev_add_base_device env rb name slot w))"
proof (cases "slot \<ge> num_base_bdevs rb \<or> bi_name (base_bdev_info rb ! unat slot) \<noteq> None \<or>
    \<not> env_strdup env name")
  case True
  then show ?thesis using inv by (auto simp: raid_bdev_add_base_device_def)
next
  case False
  let ?rb = "update_info (unat slot) (\<lambda>info. info\<lparr>bi_name := Some name\<rparr>) rb"
  have ok: "slots_ok rb" by (rule raid_inv_slots[OF inv rb])
  have i: "unat slot < length (base_bdev_info rb)"
    using False ok by (simp add: slots_ok_def word_less_nat_alt not_le)
  then have d: "bi_desc (base_bdev_info rb ! unat slot) = None"
    using False ok by (auto simp: slots_ok_def)
  have "evolves rb ?rb []"
    by (rule update_info_ok[OF ok i]) (simp_all add: d)
  from raid_step_update[OF this, of w]
  have step: "raid_step w rb ?rb (w_update ?rb w)" by simp
  have inv': "raid_inv serial (w_update ?rb w)"
    by (rule raid_inv_step[OF inv rb step])
       (use raid_inv_ready[OF inv rb] st in \<open>auto simp: raid_ready_def\<close>)
  have "raid_inv serial (snd (raid_bdev_configure_base_bdev env ?rb (unat slot) (w_update ?rb w)))"
    by (rule configure_base_bdev_inv[OF inv' w_update_in[OF rb], where d = name])
       (use st i d in simp_all)
  then show ?thesis using False by (auto simp: raid_bdev_add_base_device_def Let_def not_le)
qed

lemma waiting_slot_some:
  assumes "raid_waiting_slot name rb = Some slot"
  shows "slot < length (base_bdev_info rb) \<and> bi_desc (base_bdev_info rb ! slot) = None \<and>
    bi_name (base_bdev_info rb ! slot) = Some name"
  using assms unfolding raid_waiting_slot_def find_Some_iff by auto

text \<open>A raid bdev with a waiting slot is configuring.\<close>

lemma waiting_configuring:
  assumes "raid_ready serial ps rb" and "raid_waiting_slot name rb = Some slot"
  shows "rb_state rb = RAID_BDEV_STATE_CONFIGURING"
  using assms waiting_slot_some[OF assms(2)] by (fastforce simp: raid_ready_def)

lemma w_update_others:
  "rb_name r \<noteq> rb_name rb' \<Longrightarrow> r \<in> set (g_raid_bdev_list w) \<Longrightarrow> r \<in> set (g_raid_bdev_list (w_update rb' w))"
  by (auto simp: w_update_def)

lemma configure_base_bdev_others:
  assumes inv: "raid_inv serial w" and rb: "rb \<in> set (g_raid_bdev_list w)"
    and i: "slot < length (base_bdev_info rb)"
    and nm: "bi_name (base_bdev_info rb ! slot) = Some d"
    and none: "bi_desc (base_bdev_info rb ! slot) = None"
    and r: "r \<in> set (g_raid_bdev_list w)" "rb_name r \<noteq> rb_name rb"
  shows "r \<in> set (g_raid_bdev_list (snd (raid_bdev_configure_base_bdev env rb slot w)))"
proof (rule configure_base_bdev_cases[OF raid_inv_slots[OF inv rb] raid_inv_modules[OF inv]
      i nm none, of env], goal_cases)
  case same: (1 es)
  then show ?thesis using r by simp
next
  case opened: (2 rb')
  show ?thesis
    unfolding opened(2) using r raid_step_name[OF opened(1)] by (simp add: w_update_others)
next
  case configured: (3 r3 rc rb' w')
  have "g_raid_bdev_list (w_update rb' w') =
      map (\<lambda>r. if rb_name r = rb_name rb' then rb' else r) (g_raid_bdev_list w)"
    using configured(1) by (simp add: raid_step_def)
  then show ?thesis unfolding configured(2) using r raid_step_name[OF configured(1)] by auto
qed

lemma examine_loop_inv:
  assumes "raid_inv serial w" and "set rbs \<subseteq> set (g_raid_bdev_list w)" and "distinct (map rb_name rbs)"
  shows "raid_inv serial (examine_loop env name rbs w)"
  using assms
proof (induction rbs arbitrary: w)
  case (Cons rb rbs)
  show ?case
  proof (cases "raid_waiting_slot name rb")
    case None
    then show ?thesis using Cons by simp
  next
    case (Some slot)
    note sl = waiting_slot_some[OF Some]
    have rb: "rb \<in> set (g_raid_bdev_list w)" using Cons.prems by simp
    let ?w = "snd (raid_bdev_configure_base_bdev env rb slot w)"
    have "raid_inv serial ?w"
      using configure_base_bdev_inv[OF Cons.prems(1) rb waiting_configuring[OF raid_inv_ready[OF
            Cons.prems(1) rb] Some]] sl by blast
    moreover have "set rbs \<subseteq> set (g_raid_bdev_list ?w)"
      using configure_base_bdev_others[OF Cons.prems(1) rb] sl Cons.prems(2,3)
      by (fastforce simp: image_iff)
    ultimately show ?thesis using Cons.IH[of ?w] Cons.prems(3) Some by simp
  qed
qed simp

lemma examine_inv: "raid_inv serial w \<Longrightarrow> raid_inv serial (raid_bdev_examine env name w)"
  unfolding raid_bdev_examine_def
  by (rule examine_loop_inv) (auto simp: raid_inv_def raid_world_ok_def)

subsection \<open>Removal, deletion and destruction\<close>

lemma slot_of_bdev_some:
  assumes "raid_slot_of_bdev bdev rb = Some slot"
  shows "slot < length (base_bdev_info rb) \<and> bi_desc (base_bdev_info rb ! slot) = Some bdev"
  using assms unfolding raid_slot_of_bdev_def find_Some_iff by auto

lemma find_base_info_some:
  "raid_bdev_find_base_info_by_bdev bdev rbs = Some (rb, slot) \<Longrightarrow>
   rb \<in> set rbs \<and> slot < length (base_bdev_info rb) \<and> bi_desc (base_bdev_info rb ! slot) = Some bdev"
  by (induction rbs) (auto split: option.splits dest: slot_of_bdev_some)

text \<open>Slots that only change their mark and callback.\<close>

lemma raid_ready_slots:
  assumes "raid_ready serial ps rb" and "rb_state rb' = rb_state rb"
    and "length (base_bdev_info rb') = length (base_bdev_info rb)"
    and "min_base_bdevs_operational rb' = min_base_bdevs_operational rb"
    and "num_base_bdevs_discovered rb' = num_base_bdevs_discovered rb"
    and "\<forall>info \<in> set (base_bdev_info rb). bi_name info = bi_desc info \<Longrightarrow>
      \<forall>info \<in> set (base_bdev_info rb'). bi_name info = bi_desc info"
  shows "raid_ready serial ps rb'"
  using assms(1) assms(6) unfolding raid_ready_def assms(2-5) by blast

lemma mark_ready:
  assumes "raid_ready serial ps rb" and "slot < length (base_bdev_info rb)"
    and "bi_name (f (base_bdev_info rb ! slot)) = bi_name (base_bdev_info rb ! slot)"
    and "bi_desc (f (base_bdev_info rb ! slot)) = bi_desc (base_bdev_info rb ! slot)"
  shows "raid_ready serial ps (update_info slot f rb)"
proof (rule raid_ready_slots[OF assms(1)], goal_cases)
  case 5
  then have "bi_name (f (base_bdev_info rb ! slot)) = bi_desc (f (base_bdev_info rb ! slot))"
    using nth_mem[OF assms(2)] assms(3,4) by simp
  then show ?case
    using 5 set_update_subset_insert[of "base_bdev_info rb" slot "f (base_bdev_info rb ! slot)"] by auto
qed simp_all

text \<open>Freeing a slot: the counter falls by at most one.\<close>

lemma free_resource_ready:
  assumes ok: "slots_ok rb" and i: "slot < length (base_bdev_info rb)"
    and f: "raid_bdev_free_base_bdev_resource slot rb = (rb', es)"
    and r: "raid_ready serial ps rb"
    and bound: "rb_state rb = RAID_BDEV_STATE_ONLINE \<Longrightarrow> removals ps = Suc (removals ps')"
    and sub: "set ps' \<subseteq> set ps"
    and conf: "rb_state rb = RAID_BDEV_STATE_CONFIGURING \<Longrightarrow> removals ps' = 0"
  shows "raid_ready serial ps' rb'"
proof -
  note e = free_resource_evolves[OF ok i f]
  have ev: "evolves rb rb' es" and st: "rb_state rb' = rb_state rb" and cl: "claims es = {#}"
    using e by blast+
  have ok': "slots_ok rb'" and mo: "min_base_bdevs_operational rb' = min_base_bdevs_operational rb"
    and bal: "raid_descs rb' + releases es = raid_descs rb"
    and len: "length (base_bdev_info rb') = length (base_bdev_info rb)"
    using ev cl by (simp_all add: evolves_def)
  have "size (releases es) \<le> 1" using e by (auto split: option.splits)
  moreover have "size (raid_descs rb') + size (releases es) = size (raid_descs rb)"
    by (simp only: bal[symmetric] size_union)
  ultimately have disc: "unat (num_base_bdevs_discovered rb) \<le> Suc (unat (num_base_bdevs_discovered rb'))"
    using discovered_descs[OF ok] discovered_descs[OF ok'] by linarith
  have infos: "bi_name info = bi_desc info"
    if "\<forall>info \<in> set (base_bdev_info rb). bi_name info = bi_desc info" "info \<in> set (base_bdev_info rb')" for info
    using that e set_update_subset_insert[of "base_bdev_info rb" slot
        "(base_bdev_info rb ! slot)\<lparr>bi_name := None, bi_desc := None\<rparr>"] by auto
  have 1: "rb_state rb' \<noteq> RAID_BDEV_STATE_CONFIGURING \<longrightarrow>
      (\<forall>info \<in> set (base_bdev_info rb'). bi_name info = bi_desc info)"
    using r infos st by (simp add: raid_ready_def)
  have 2: "unat (min_base_bdevs_operational rb') + removals ps' \<le> unat (num_base_bdevs_discovered rb')"
    if "serial" "rb_state rb' = RAID_BDEV_STATE_ONLINE"
    using that r bound disc st mo by (simp add: raid_ready_def)
  have 3: "(\<exists>p \<in> set ps'. pend_unregister p) \<longrightarrow> rb_state rb' = RAID_BDEV_STATE_OFFLINE"
    "\<forall>p \<in> set ps'. \<forall>slot. pend_slot p = Some slot \<longrightarrow> slot < length (base_bdev_info rb')"
    using r sub st len by (auto simp: raid_ready_def)
  show ?thesis unfolding raid_ready_def using 1 2 3 conf st by auto
qed

lemma deconfigure_inv:
  assumes inv: "raid_inv serial w" and rb: "rb \<in> set (g_raid_bdev_list w)"
  shows "raid_inv serial (raid_bdev_deconfigure rb cb w)"
proof (cases "rb_state rb = RAID_BDEV_STATE_ONLINE")
  case False
  obtain es where "w_log (raid_callback cb 0 w) = w_log w @ es" "claims es = {#}" "releases es = {#}"
    using callback_log by blast
  then show ?thesis using False raid_inv_same[OF inv, of "raid_callback cb 0 w"]
    by (simp add: raid_bdev_deconfigure_def)
next
  case True
  let ?rb = "rb\<lparr>rb_state := RAID_BDEV_STATE_OFFLINE\<rparr>"
  let ?w = "w_defer (PendUnregister (rb_name rb) cb) (w_update ?rb w)"
  have "evolves rb ?rb []" by (rule evolves_fields(1)[OF raid_inv_slots[OF inv rb]])
  from raid_step_update[OF this, of w] have "raid_step w rb ?rb (w_update ?rb w)" by simp
  then have step: "raid_step w rb ?rb ?w" by (rule raid_step_more) simp_all
  have "raid_inv serial ?w"
    by (rule raid_inv_step[OF inv rb step])
       (use raid_inv_ready[OF inv rb] True in \<open>auto simp: raid_ready_def\<close>)
  then show ?thesis using True by (simp add: raid_bdev_deconfigure_def)
qed

lemma raid_step_mark:
  assumes "slots_ok rb" and "slot < length (base_bdev_info rb)"
    and "bi_name (f (base_bdev_info rb ! slot)) = bi_name (base_bdev_info rb ! slot)"
    and "bi_desc (f (base_bdev_info rb ! slot)) = bi_desc (base_bdev_info rb ! slot)"
  shows "evolves rb (update_info slot f rb) []"
    "raid_step w rb (update_info slot f rb) (w_update (update_info slot f rb) w)"
proof -
  show ev: "evolves rb (update_info slot f rb) []"
    by (rule update_info_ok) (use assms in simp_all)
  then show "raid_step w rb (update_info slot f rb) (w_update (update_info slot f rb) w)"
    using raid_step_update[of rb "update_info slot f rb" "[]" w] by simp
qed

lemma mark_inv:
  assumes inv: "raid_inv serial w" and rb: "rb \<in> set (g_raid_bdev_list w)"
    and i: "slot < length (base_bdev_info rb)"
    and f: "\<And>info. bi_name (f info) = bi_name info" "\<And>info. bi_desc (f info) = bi_desc info"
  shows "raid_inv serial (w_update (update_info slot f rb) w)"
  by (rule raid_inv_step[OF inv rb raid_step_mark(2)[where f = f, OF raid_inv_slots[OF inv rb] i f]])
     (use mark_ready[OF raid_inv_ready[OF inv rb] i, of f] f in simp_all)

lemma remove_base_bdev_inv:
  assumes inv: "raid_inv serial w"
    and one: "\<And>rb slot. serial \<Longrightarrow>
      raid_bdev_find_base_info_by_bdev bdev (g_raid_bdev_list w) = Some (rb, slot) \<Longrightarrow>
      removals (calls_of (rb_name rb) (w_pending w)) = 0"
  shows "raid_inv serial (snd (raid_bdev_remove_base_bdev env bdev cb w))"
proof (cases "raid_bdev_find_base_info_by_bdev bdev (g_raid_bdev_list w)")
  case None
  then show ?thesis using inv by (simp add: raid_bdev_remove_base_bdev_def)
next
  case (Some x)
  then obtain rb slot where fnd: "raid_bdev_find_base_info_by_bdev bdev (g_raid_bdev_list w) = Some (rb, slot)"
    by (cases x) auto
  note fb = find_base_info_some[OF fnd]
  have rb: "rb \<in> set (g_raid_bdev_list w)" and i: "slot < length (base_bdev_info rb)" using fb by auto
  define f :: "raid_base_bdev_info \<Rightarrow> raid_base_bdev_info" where
    "f = (\<lambda>info. info\<lparr>remove_scheduled := True, remove_cb := cb\<rparr>)"
  define r1 where "r1 = update_info slot f rb"
  have ff: "bi_name (f info) = bi_name info" "bi_desc (f info) = bi_desc info" for info
    by (simp_all add: f_def)
  have ok: "slots_ok rb" by (rule raid_inv_slots[OF inv rb])
  have ev1: "evolves rb r1 []" unfolding r1_def by (rule raid_step_mark(1)[where f = f, OF ok i ff])
  have inv1: "raid_inv serial (w_update r1 w)" unfolding r1_def by (rule mark_inv[OF inv rb i ff])
  have r1: "r1 \<in> set (g_raid_bdev_list (w_update r1 w))"
    by (rule w_update_in[OF rb]) (simp add: r1_def)
  have i1: "slot < length (base_bdev_info r1)" using i by (simp add: r1_def)
  let ?ps = "calls_of (rb_name rb) (w_pending w)"
  have rd: "raid_ready serial ?ps r1"
    unfolding r1_def by (rule mark_ready[OF raid_inv_ready[OF inv rb] i]) (simp_all add: ff)
  note unf = raid_bdev_remove_base_bdev_def fnd option.case prod.case f_def[symmetric] Let_def
    r1_def[symmetric]
  consider "remove_scheduled (base_bdev_info rb ! slot)"
    | (free) "\<not> remove_scheduled (base_bdev_info rb ! slot)" "rb_state r1 \<noteq> RAID_BDEV_STATE_ONLINE"
    | (last) "\<not> remove_scheduled (base_bdev_info rb ! slot)" "rb_state r1 = RAID_BDEV_STATE_ONLINE"
        "num_base_bdevs_discovered r1 = min_base_bdevs_operational r1"
    | (failed) "\<not> remove_scheduled (base_bdev_info rb ! slot)" "rb_state r1 = RAID_BDEV_STATE_ONLINE"
        "num_base_bdevs_discovered r1 \<noteq> min_base_bdevs_operational r1" "env_quiesce_rc env (rb_name r1) \<noteq> 0"
    | (quiesce) "\<not> remove_scheduled (base_bdev_info rb ! slot)" "rb_state r1 = RAID_BDEV_STATE_ONLINE"
        "num_base_bdevs_discovered r1 \<noteq> min_base_bdevs_operational r1" "env_quiesce_rc env (rb_name r1) = 0"
    by blast
  then show ?thesis
  proof cases
    case 1
    then show ?thesis using inv unfolding unf by simp
  next
    case free
    obtain r2 es where f2: "raid_bdev_free_base_bdev_resource slot r1 = (r2, es)" by fastforce
    let ?w = "w_emit es (w_update r2 w)"
    have ev2: "evolves r1 r2 es"
      using free_resource_evolves[OF evolves_ok[OF ev1] i1 f2] by blast
    have step: "raid_step w rb r2 ?w"
      using raid_step_update[OF evolves_trans[OF ev1 ev2], of w] by simp
    have "raid_ready serial ?ps r2"
      by (rule free_resource_ready[OF evolves_ok[OF ev1] i1 f2 rd])
         (use free(2) rd in \<open>auto simp: raid_ready_def\<close>)
    then have inv2: "raid_inv serial ?w"
      by (intro raid_inv_step[OF inv rb step]) simp_all
    have "r2 \<in> set (g_raid_bdev_list ?w)"
      using w_update_in[OF rb] raid_step_name[OF step] by simp
    then show ?thesis
      using inv2 cleanup_inv[OF inv2] free unfolding unf by (simp add: f2)
  next
    case last
    then show ?thesis using deconfigure_inv[OF inv1 r1] unfolding unf by simp
  next
    case failed
    have "raid_inv serial (w_update (update_info slot (\<lambda>info. info\<lparr>remove_scheduled := False\<rparr>) r1) w)"
    proof (rule raid_inv_step[OF inv rb])
      have "evolves r1 (update_info slot (\<lambda>info. info\<lparr>remove_scheduled := False\<rparr>) r1) []"
        by (rule raid_step_mark(1)[OF evolves_ok[OF ev1] i1]) simp_all
      from raid_step_update[OF evolves_trans[OF ev1 this], of w]
      show "raid_step w rb (update_info slot (\<lambda>info. info\<lparr>remove_scheduled := False\<rparr>) r1)
          (w_update (update_info slot (\<lambda>info. info\<lparr>remove_scheduled := False\<rparr>) r1) w)" by simp
    qed (use mark_ready[OF rd i1, of "\<lambda>info. info\<lparr>remove_scheduled := False\<rparr>"] in simp_all)
    then show ?thesis using failed unfolding unf by simp
  next
    case quiesce
    let ?w = "w_defer (PendQuiesce (rb_name r1) slot) (w_update r1 w)"
    have "raid_step w rb r1 (w_update r1 w)" using raid_step_update[OF ev1, of w] by simp
    then have step: "raid_step w rb r1 ?w" by (rule raid_step_more) simp_all
    have "unat (num_base_bdevs_discovered r1) \<noteq> unat (min_base_bdevs_operational r1)"
      using quiesce(3) by (simp add: word_unat_eq_iff)
    then have "raid_inv serial ?w"
      by (intro raid_inv_step[OF inv rb step])
         (use rd quiesce(2) one[OF _ fnd] i1 in \<open>auto simp: raid_ready_def r1_def\<close>)
    then show ?thesis using quiesce unfolding unf by simp
  qed
qed

subsection \<open>The callbacks\<close>

definition w_take :: "raid_pending \<Rightarrow> raid_world \<Rightarrow> raid_world" where
  "w_take p w = w\<lparr>w_pending := remove1 p (w_pending w)\<rparr>"

lemma w_take_fields [simp]:
  "g_raid_bdev_list (w_take p w) = g_raid_bdev_list w" "g_raid_modules (w_take p w) = g_raid_modules w"
  "w_log (w_take p w) = w_log w" "w_pending (w_take p w) = remove1 p (w_pending w)"
  "g_shutdown_started (w_take p w) = g_shutdown_started w"
  by (simp_all add: w_take_def)

lemma removals_le: "removals (remove1 p ps) \<le> removals ps"
  by (induction ps) auto

lemma raid_ready_fewer:
  assumes "raid_ready serial ps rb" and "removals ps' \<le> removals ps" and "set ps' \<subseteq> set ps"
  shows "raid_ready serial ps' rb"
  using assms by (fastforce simp: raid_ready_def)

lemma take_inv:
  assumes inv: "raid_inv serial w" shows "raid_inv serial (w_take p w)"
proof (rule raid_inv_same[OF inv, of _ "[]"], goal_cases)
  case (6 rb)
  show ?case
    by (rule raid_ready_fewer[OF 6(2)])
       (auto simp: calls_of_remove1 removals_le dest: subsetD[OF set_remove1_subset])
qed simp_all

lemma w_update_take: "w_update rb (w_take p w) = w_take p (w_update rb w)"
  by (simp add: w_update_def w_take_def)

lemma on_quiesced_inv:
  assumes inv: "raid_inv serial w" and rb: "rb \<in> set (g_raid_bdev_list w)"
    and p: "PendQuiesce (rb_name rb) slot \<in> set (w_pending w)"
  shows "raid_inv serial (raid_bdev_remove_base_bdev_on_quiesced rb slot status
    (w_take (PendQuiesce (rb_name rb) slot) w))"
proof (cases "status = 0")
  case True
  let ?w = "w_defer (PendChannels (rb_name rb) slot) (w_take (PendQuiesce (rb_name rb) slot) w)"
  let ?ps = "calls_of (rb_name rb) (w_pending w)"
  have in_ps: "PendQuiesce (rb_name rb) slot \<in> set ?ps" using p by (simp add: calls_of_in)
  have "raid_inv serial ?w"
  proof (rule raid_inv_same[OF inv, of _ "[]"], goal_cases)
    case (6 r)
    show ?case
    proof (cases "rb_name r = rb_name rb")
      case False
      then show ?thesis using 6(2) by (auto simp: calls_of_remove1)
    next
      case True
      have "raid_ready serial (remove1 (PendQuiesce (rb_name rb) slot) ?ps @ [PendChannels (rb_name rb) slot]) r"
        using 6(2) removals_remove1[OF in_ps] True in_ps
        by (auto simp: raid_ready_def dest!: subsetD[OF set_remove1_subset])
      then show ?thesis using True by (simp add: calls_of_remove1)
    qed
  qed simp_all
  then show ?thesis using True by (simp add: raid_bdev_remove_base_bdev_on_quiesced_def)
next
  case False
  let ?w = "w_take (PendQuiesce (rb_name rb) slot) w"
  have inv': "raid_inv serial ?w" by (rule take_inv[OF inv])
  have "PendQuiesce (rb_name rb) slot \<in> set (calls_of (rb_name rb) (w_pending w))"
    using p by (simp add: calls_of_in)
  then have i: "slot < length (base_bdev_info rb)"
    using raid_inv_ready[OF inv rb] by (fastforce simp: raid_ready_def)
  let ?w2 = "w_update (update_info slot (\<lambda>info. info\<lparr>remove_scheduled := False\<rparr>) rb) ?w"
  have inv2: "raid_inv serial ?w2" by (rule mark_inv[OF inv' _ i]) (use rb in simp_all)
  have "raid_inv serial (raid_callback (remove_cb (base_bdev_info rb ! slot)) status ?w2)"
  proof -
    obtain es where es: "w_log (raid_callback (remove_cb (base_bdev_info rb ! slot)) status ?w2) =
        w_log ?w2 @ es" "claims es = {#}" "releases es = {#}" using callback_log by blast
    show ?thesis by (rule raid_inv_same[OF inv2 _ _ es]) simp_all
  qed
  then show ?thesis using False by (simp add: raid_bdev_remove_base_bdev_on_quiesced_def)
qed

lemma channels_done_inv:
  assumes inv: "raid_inv serial w" and rb: "rb \<in> set (g_raid_bdev_list w)"
    and p: "PendChannels (rb_name rb) slot \<in> set (w_pending w)"
  shows "raid_inv serial (raid_bdev_channels_remove_base_bdev_done rb slot
    (w_take (PendChannels (rb_name rb) slot) w))"
  unfolding raid_bdev_channels_remove_base_bdev_done_def
proof (rule raid_inv_same[OF inv, of _ "[]"], goal_cases)
  case (6 r)
  let ?ps = "calls_of (rb_name rb) (w_pending w)"
  have in_ps: "PendChannels (rb_name rb) slot \<in> set ?ps" using p by (simp add: calls_of_in)
  show ?case
  proof (cases "rb_name r = rb_name rb")
    case False
    then show ?thesis using 6(2) by (auto simp: calls_of_remove1)
  next
    case True
    have "raid_ready serial (remove1 (PendChannels (rb_name rb) slot) ?ps @ [PendUnquiesce (rb_name rb) slot]) r"
      using 6(2) removals_remove1[OF in_ps] True in_ps
      by (auto simp: raid_ready_def dest!: subsetD[OF set_remove1_subset])
    then show ?thesis using True by (simp add: calls_of_remove1)
  qed
qed simp_all

lemma callback_inv:
  assumes inv: "raid_inv serial w" shows "raid_inv serial (raid_callback cb rc w)"
proof -
  obtain es where es: "w_log (raid_callback cb rc w) = w_log w @ es" "claims es = {#}" "releases es = {#}"
    using callback_log by blast
  show ?thesis by (rule raid_inv_same[OF inv _ _ es]) simp_all
qed

lemma on_unquiesced_inv:
  assumes inv: "raid_inv serial w" and rb: "rb \<in> set (g_raid_bdev_list w)"
    and p: "PendUnquiesce (rb_name rb) slot \<in> set (w_pending w)"
  shows "raid_inv serial (raid_bdev_remove_base_bdev_on_unquiesced rb slot status
    (w_take (PendUnquiesce (rb_name rb) slot) w))"
proof -
  let ?p = "PendUnquiesce (rb_name rb) slot"
  let ?w = "w_take ?p w" and ?ps = "calls_of (rb_name rb) (w_pending w)"
  let ?r = "update_info slot (\<lambda>info. info\<lparr>remove_scheduled := False\<rparr>) rb"
  have in_ps: "?p \<in> set ?ps" using p by (simp add: calls_of_in)
  have i: "slot < length (base_bdev_info rb)"
    using raid_inv_ready[OF inv rb] in_ps by (fastforce simp: raid_ready_def)
  have ok: "slots_ok rb" by (rule raid_inv_slots[OF inv rb])
  have ev: "evolves rb ?r []" by (rule raid_step_mark(1)[OF ok i]) simp_all
  have rd: "raid_ready serial ?ps ?r" by (rule mark_ready[OF raid_inv_ready[OF inv rb] i]) simp_all
  show ?thesis
  proof (cases "status = 0")
    case False
    have "raid_inv serial (w_update ?r ?w)" by (rule mark_inv[OF take_inv[OF inv] _ i]) (use rb in simp_all)
    then show ?thesis
      using False callback_inv by (simp add: raid_bdev_remove_base_bdev_on_unquiesced_def Let_def)
  next
    case True
    obtain r2 es where f2: "raid_bdev_free_base_bdev_resource slot ?r = (r2, es)" by fastforce
    let ?w2 = "w_emit es (w_update r2 ?w)"
    have i2: "slot < length (base_bdev_info ?r)" using i by simp
    have "evolves ?r r2 es" using free_resource_evolves[OF evolves_ok[OF ev] i2 f2] by blast
    from raid_step_update[OF evolves_trans[OF ev this], of ?w]
    have step: "raid_step w rb r2 ?w2" by (simp add: raid_step_def)
    have rm: "removals ?ps = Suc (removals (remove1 ?p ?ps))" using removals_remove1[OF in_ps] by simp
    have "raid_ready serial (remove1 ?p ?ps) r2"
      by (rule free_resource_ready[OF evolves_ok[OF ev] i2 f2 rd])
         (use rm rd in \<open>auto simp: raid_ready_def dest: subsetD[OF set_remove1_subset]\<close>)
    then have "raid_inv serial ?w2"
      by (intro raid_inv_step[OF inv rb step]) (simp_all add: calls_of_remove1)
    then show ?thesis
      using True callback_inv
      by (simp add: raid_bdev_remove_base_bdev_on_unquiesced_def Let_def f2)
  qed
qed

text \<open>Once offline a raid bdev has names only in open slots.\<close>

definition named_open :: "raid_bdev \<Rightarrow> bool" where
  "named_open rb \<longleftrightarrow> (\<forall>info \<in> set (base_bdev_info rb). bi_name info = bi_desc info)"

lemma named_open_same:
  assumes "same_slots rb rb'" and "named_open rb" shows "named_open rb'"
proof -
  have *: "named_open r \<longleftrightarrow> (\<forall>v \<in> set (map slot_view (base_bdev_info r)). fst v = fst (snd v))" for r
    by (simp add: named_open_def slot_view_def)
  show ?thesis using assms unfolding * by (simp only: same_slots_def)
qed

lemma named_open_free:
  assumes "slots_ok rb" and "\<forall>i \<in> set slots. i < length (base_bdev_info rb)"
    and "free_base_bdevs p slots rb = (rb', es)" and "named_open rb"
  shows "named_open rb'"
  using assms
proof (induction slots arbitrary: rb es)
  case (Cons i slots)
  show ?case
  proof (cases "p (base_bdev_info rb ! i)")
    case True
    obtain r1 e1 where f: "raid_bdev_free_base_bdev_resource i rb = (r1, e1)" by fastforce
    obtain e2 where l: "free_base_bdevs p slots r1 = (rb', e2)"
      using Cons.prems(3) True f by (auto split: prod.splits)
    have e: "evolves rb r1 e1" "base_bdev_info r1 =
        (base_bdev_info rb)[i := (base_bdev_info rb ! i)\<lparr>bi_name := None, bi_desc := None\<rparr>]"
      using free_resource_evolves[OF Cons.prems(1) _ f] Cons.prems(2) by auto
    have "named_open r1"
      using Cons.prems(4) e(2) set_update_subset_insert[of "base_bdev_info rb" i]
      by (fastforce simp: named_open_def)
    then show ?thesis
      using Cons.IH[OF evolves_ok[OF e(1)] _ l] e(1) Cons.prems(2) by (simp add: evolves_def)
  next
    case False
    then show ?thesis using Cons.IH[OF Cons.prems(1)] Cons.prems by simp
  qed
qed simp

lemma stop_done_fields [simp]:
  "g_raid_bdev_list (raid_bdev_module_stop_done rb w) = g_raid_bdev_list w"
  "g_raid_modules (raid_bdev_module_stop_done rb w) = g_raid_modules w"
  "w_log (raid_bdev_module_stop_done rb w) = w_log w"
  by (simp_all add: raid_bdev_module_stop_done_def)

lemma destruct_inv:
  assumes inv: "raid_inv serial w" and rb: "rb \<in> set (g_raid_bdev_list w)"
    and st: "rb_state rb = RAID_BDEV_STATE_OFFLINE \<or>
      g_shutdown_started w \<and> rb_state rb = RAID_BDEV_STATE_ONLINE"
  shows "raid_inv serial (raid_bdev_destruct rb w)"
proof -
  define p :: "raid_base_bdev_info \<Rightarrow> bool" where
    "p = (\<lambda>info. g_shutdown_started w \<or> remove_scheduled info)"
  obtain r1 es where fb: "free_base_bdevs p [0..<length (base_bdev_info rb)] rb = (r1, es)" by fastforce
  define r2 where "r2 = (if g_shutdown_started w then r1\<lparr>rb_state := RAID_BDEV_STATE_OFFLINE\<rparr> else r1)"
  define w1 where "w1 = w_emit es w"
  have ok: "slots_ok rb" by (rule raid_inv_slots[OF inv rb])
  have f: "evolves rb r1 es" "rb_state r1 = rb_state rb" "rb_module r1 = rb_module rb"
    using free_base_bdevs_evolves[OF ok _ fb] by auto
  have "named_open rb" using raid_inv_ready[OF inv rb] st by (auto simp: raid_ready_def named_open_def)
  then have "named_open r1" using named_open_free[OF ok _ fb] by simp
  then have no2: "named_open r2" by (simp add: r2_def named_open_def)
  have "evolves r1 r2 []"
    using evolves_fields(1)[OF evolves_ok[OF f(1)]] evolves_refl[OF evolves_ok[OF f(1)]] by (simp add: r2_def)
  from evolves_trans[OF f(1) this] have ev2: "evolves rb r2 es" by simp
  have st2: "rb_state r2 = RAID_BDEV_STATE_OFFLINE" using st f(2) by (auto simp: r2_def)
  have keep: "raid_inv serial w'"
    if "same_slots r2 r3" "g_raid_bdev_list w' = g_raid_bdev_list (w_update r3 w1)"
      "g_raid_modules w' = g_raid_modules w1" "w_log w' = w_log w1"
      and pend: "\<exists>q. w_pending w' = w_pending w1 @ [q] \<and> pend_name q = rb_name rb \<and> pend_slot q = None"
    for r3 w'
  proof -
    have "evolves rb r3 es"
      using evolves_trans[OF ev2 evolves_same[OF that(1) evolves_ok[OF ev2]]] by simp
    then have step: "raid_step w rb r3 w'"
      by (rule raid_stepI[where es' = es]) (use that in \<open>simp_all add: w1_def w_update_def\<close>)
    obtain q where q: "w_pending w' = w_pending w @ [q]" "pend_name q = rb_name rb" "pend_slot q = None"
      using pend by (auto simp: w1_def)
    have "rb_state r3 = RAID_BDEV_STATE_OFFLINE" "named_open r3"
      using that(1) st2 named_open_same[OF that(1) no2] by (simp_all add: same_slots_def)
    then have "raid_ready serial (calls_of (rb_name rb) (w_pending w')) r3"
      using raid_inv_ready[OF inv rb] raid_step_len[OF step] q
      by (auto simp: raid_ready_def named_open_def)
    then show ?thesis using q by (intro raid_inv_step[OF inv rb step]) auto
  qed
  have nm: "rb_name r2 = rb_name rb" using ev2 by (simp add: evolves_def)
  have shut: "g_shutdown_started w1 = g_shutdown_started w" by (simp add: w1_def)
  have eq: "raid_bdev_destruct rb w =
      (case Option.bind (rb_module_of w1 r2) mod_stop of
         Some stop \<Rightarrow>
           (case stop r2 of
              (stopped, r3) \<Rightarrow>
                (if stopped then raid_bdev_module_stop_done r3 (w_update r3 w1)
                 else w_defer (PendModuleStop (rb_name r3)) (w_update r3 w1)))
       | None \<Rightarrow> raid_bdev_module_stop_done r2 (w_update r2 w1))"
    unfolding raid_bdev_destruct_def p_def[symmetric] Let_def fb prod.case w1_def[symmetric] shut
      r2_def[symmetric] by (rule refl)
  show ?thesis
  proof (cases "Option.bind (rb_module_of w1 r2) mod_stop")
    case None
    then show ?thesis unfolding eq option.case
      using st2 nm by (intro keep[OF same_slots_refl]) (simp_all add: raid_bdev_module_stop_done_def)
  next
    case (Some stop)
    then obtain m where m: "rb_module_of w1 r2 = Some m" "mod_stop m = Some stop"
      by (auto simp: bind_eq_Some_conv)
    have km: "module_keeps m"
      using raid_inv_modules[OF inv] m(1) module_find_in by (auto simp: rb_module_of_def w1_def)
    obtain sd r3 where s: "stop r2 = (sd, r3)" by fastforce
    have "same_slots r2 (snd (stop r2))" using km m(2) by (simp add: module_keeps_def)
    then have sm: "same_slots r2 r3" by (simp add: s)
    show ?thesis unfolding eq Some option.case s prod.case
      by (rule keep[OF sm])
         (use sm st2 nm in \<open>auto simp: raid_bdev_module_stop_done_def same_slots_def\<close>)
  qed
qed

lemma module_stop_done_inv:
  assumes inv: "raid_inv serial w" shows "raid_inv serial (raid_bdev_module_stop_done rb w)"
proof (cases "rb_state rb = RAID_BDEV_STATE_CONFIGURING")
  case True
  then show ?thesis using inv by (simp add: raid_bdev_module_stop_done_def)
next
  case False
  show ?thesis
    by (rule raid_inv_same[OF inv, of _ "[]"])
       (use False in \<open>auto simp: raid_bdev_module_stop_done_def raid_ready_def\<close>)
qed

lemma io_device_unregister_inv:
  assumes inv: "raid_inv serial w" and rb: "rb \<in> set (g_raid_bdev_list w)"
  shows "raid_inv serial (raid_bdev_io_device_unregister_cb rb w)"
proof -
  have inv': "raid_inv serial (w_emit [LogDestructDone (rb_name rb)] w)"
    by (rule raid_inv_same[OF inv, of _ "[LogDestructDone (rb_name rb)]"]) simp_all
  then show ?thesis
    using cleanup_inv[OF inv', of rb] rb by (simp add: raid_bdev_io_device_unregister_cb_def)
qed

lemma delete_loop_ready:
  assumes "slots_ok rb" and "\<forall>i \<in> set slots. i < length (base_bdev_info rb)"
    and "delete_loop slots rb = (rb', es)" and "raid_ready serial ps rb"
  shows "raid_ready serial ps rb'"
  using assms
proof (induction slots arbitrary: rb es)
  case (Cons i slots)
  let ?r0 = "update_info i (\<lambda>info. info\<lparr>remove_scheduled := True\<rparr>) rb"
  have i: "i < length (base_bdev_info rb)" using Cons.prems(2) by simp
  have e0: "evolves rb ?r0 []" by (rule raid_step_mark(1)[OF Cons.prems(1) i]) simp_all
  have rd0: "raid_ready serial ps ?r0" by (rule mark_ready[OF Cons.prems(4) i]) simp_all
  obtain r1 e1 where f: "(if rb_state rb \<noteq> RAID_BDEV_STATE_ONLINE
      then raid_bdev_free_base_bdev_resource i ?r0 else (?r0, [])) = (r1, e1)" by fastforce
  obtain e2 where l: "delete_loop slots r1 = (rb', e2)"
    using Cons.prems(3) f by (auto simp: Let_def split: prod.splits if_splits)
  show ?case
  proof (cases "rb_state rb = RAID_BDEV_STATE_ONLINE")
    case True
    then have "r1 = ?r0" using f by simp
    then show ?thesis
      using Cons.IH[OF evolves_ok[OF e0] _ _ rd0] l Cons.prems(2) by simp
  next
    case False
    then have f1: "raid_bdev_free_base_bdev_resource i ?r0 = (r1, e1)" using f by simp
    have i0: "i < length (base_bdev_info ?r0)" using i by simp
    have e1: "evolves ?r0 r1 e1" using free_resource_evolves[OF evolves_ok[OF e0] i0 f1] by blast
    have "raid_ready serial ps r1"
      by (rule free_resource_ready[OF evolves_ok[OF e0] i0 f1 rd0])
         (use False rd0 in \<open>auto simp: raid_ready_def\<close>)
    then show ?thesis
      using Cons.IH[OF evolves_ok[OF e1] _ l] e1 Cons.prems(2) by (simp add: evolves_def)
  qed
qed simp

lemma delete_inv:
  assumes inv: "raid_inv serial w" and rb: "rb \<in> set (g_raid_bdev_list w)"
  shows "raid_inv serial (raid_bdev_delete rb cb w)"
proof (cases "destroy_started rb")
  case True
  then show ?thesis using callback_inv[OF inv] by (simp add: raid_bdev_delete_def)
next
  case False
  let ?r0 = "rb\<lparr>destroy_started := True\<rparr>"
  obtain r1 es where l: "delete_loop [0..<length (base_bdev_info ?r0)] ?r0 = (r1, es)" by fastforce
  let ?w = "w_emit es (w_update r1 w)"
  have ok: "slots_ok rb" by (rule raid_inv_slots[OF inv rb])
  have e0: "evolves rb ?r0 []" by (rule evolves_fields(3)[OF ok])
  have rd0: "raid_ready serial (calls_of (rb_name rb) (w_pending w)) ?r0"
    using raid_inv_ready[OF inv rb] by (simp add: raid_ready_def)
  have e1: "evolves ?r0 r1 es" using delete_loop_evolves[OF evolves_ok[OF e0] _ l] by simp
  have step: "raid_step w rb r1 ?w" using raid_step_update[OF evolves_trans[OF e0 e1], of w] by simp
  have "raid_ready serial (calls_of (rb_name rb) (w_pending w)) r1"
    by (rule delete_loop_ready[OF evolves_ok[OF e0] _ l rd0]) simp
  then have inv1: "raid_inv serial ?w" by (intro raid_inv_step[OF inv rb step]) simp_all
  have r1: "r1 \<in> set (g_raid_bdev_list ?w)" using w_update_in[OF rb] raid_step_name[OF step] by simp
  have eq: "raid_bdev_delete rb cb w =
      (if num_base_bdevs_discovered r1 = 0
       then raid_callback cb 0 (raid_bdev_cleanup_and_free (rb_name r1) ?w)
       else raid_bdev_deconfigure r1 cb ?w)"
    using False l by (simp add: raid_bdev_delete_def Let_def)
  show ?thesis unfolding eq using callback_inv[OF cleanup_inv[OF inv1 r1]] deconfigure_inv[OF inv1 r1] by simp
qed

lemma resize_inv:
  assumes inv: "raid_inv serial w" shows "raid_inv serial (raid_bdev_resize_base_bdev bdev w)"
proof (cases "raid_bdev_find_base_info_by_bdev bdev (g_raid_bdev_list w)")
  case None
  then show ?thesis using inv by (simp add: raid_bdev_resize_base_bdev_def)
next
  case (Some x)
  then obtain rb slot where fnd: "raid_bdev_find_base_info_by_bdev bdev (g_raid_bdev_list w) = Some (rb, slot)"
    by (cases x) auto
  then have rb: "rb \<in> set (g_raid_bdev_list w)" using find_base_info_some by blast
  show ?thesis
  proof (cases "Option.bind (rb_module_of w rb) mod_resize")
    case None
    then show ?thesis using inv fnd by (simp add: raid_bdev_resize_base_bdev_def)
  next
    case (Some resize)
    then obtain m where m: "rb_module_of w rb = Some m" "mod_resize m = Some resize"
      by (auto simp: bind_eq_Some_conv)
    have "module_keeps m" using raid_inv_modules[OF inv] m(1) module_find_in by (auto simp: rb_module_of_def)
    then have sm: "same_slots rb (resize rb)" using m(2) by (simp add: module_keeps_def)
    have ev: "evolves rb (resize rb) []" by (rule evolves_same[OF sm raid_inv_slots[OF inv rb]])
    have step: "raid_step w rb (resize rb) (w_update (resize rb) w)"
      using raid_step_update[OF ev, of w] by simp
    have "raid_ready serial (calls_of (rb_name rb) (w_pending w)) (resize rb)"
    proof (rule raid_ready_slots[OF raid_inv_ready[OF inv rb]], goal_cases)
      case 5
      then show ?case using named_open_same[OF sm] by (simp add: named_open_def)
    qed (use sm ev in \<open>simp_all add: same_slots_def evolves_def\<close>)
    then have "raid_inv serial (w_update (resize rb) w)"
      by (intro raid_inv_step[OF inv rb step]) simp_all
    then show ?thesis using fnd Some by (simp add: raid_bdev_resize_base_bdev_def)
  qed
qed

lemma fini_start_inv:
  "raid_inv serial w \<Longrightarrow> raid_inv serial (raid_bdev_fini_start w)"
  by (simp add: raid_inv_def raid_bdev_fini_start_def raid_world_ok_def owned_def)

end
