(* ===== verification/Raid_Interleaving.thy ===== *)
theory Raid_Interleaving
  imports Raid_Reach
begin

text \<open>
  The runs of the raid module: \<open>raid_reach serial ms w\<close> holds of the worlds reached from the empty one
  with the registered modules \<open>ms\<close> by any sequence of requests, events of the bdev layer and
  callbacks, with any answers from outside (each step has its own \<open>env\<close>). With \<open>serial\<close> a base bdev
  is not removed while another removal of the same raid bdev is under way. A base bdev is added only
  to a raid bdev that is configuring and a name is not used again while a call for it is under way;
  both hold of the callers in \<open>bdev_raid_rpc.c\<close>.
\<close>

subsection \<open>Runs\<close>

definition raid_initial :: "raid_bdev_module list \<Rightarrow> raid_world" where
  "raid_initial ms =
     \<lparr>g_raid_bdev_list = [], g_raid_modules = ms, g_shutdown_started = False,
      w_pending = [], w_log = []\<rparr>"

definition removal_free :: "string \<Rightarrow> raid_world \<Rightarrow> bool" where
  "removal_free bdev w \<longleftrightarrow>
     (case raid_bdev_find_base_info_by_bdev bdev (g_raid_bdev_list w) of
        None \<Rightarrow> True
      | Some (rb, slot) \<Rightarrow> removals (calls_of (rb_name rb) (w_pending w)) = 0)"

inductive raid_reach :: "bool \<Rightarrow> raid_bdev_module list \<Rightarrow> raid_world \<Rightarrow> bool"
  for serial :: bool and ms :: "raid_bdev_module list" where
  reach_init: "raid_reach serial ms (raid_initial ms)"
| reach_create:
    "raid_reach serial ms w \<Longrightarrow> \<forall>p \<in> set (w_pending w). pend_name p \<noteq> name \<Longrightarrow>
     raid_reach serial ms (snd (raid_bdev_create env name ssize num level sb uuid w))"
| reach_add:
    "raid_reach serial ms w \<Longrightarrow> raid_bdev_find_by_name name w = Some rb \<Longrightarrow>
     rb_state rb = RAID_BDEV_STATE_CONFIGURING \<Longrightarrow>
     raid_reach serial ms (snd (raid_bdev_add_base_device env rb bdev slot w))"
| reach_examine: "raid_reach serial ms w \<Longrightarrow> raid_reach serial ms (raid_bdev_examine env bdev w)"
| reach_remove:
    "raid_reach serial ms w \<Longrightarrow> serial \<longrightarrow> removal_free bdev w \<Longrightarrow>
     raid_reach serial ms (snd (raid_bdev_remove_base_bdev env bdev cb w))"
| reach_event:
    "raid_reach serial ms w \<Longrightarrow> serial \<longrightarrow> removal_free bdev w \<Longrightarrow>
     raid_reach serial ms (raid_bdev_event_base_bdev env ev bdev w)"
| reach_delete:
    "raid_reach serial ms w \<Longrightarrow> raid_bdev_find_by_name name w = Some rb \<Longrightarrow>
     raid_reach serial ms (raid_bdev_delete rb cb w)"
| reach_fini: "raid_reach serial ms w \<Longrightarrow> raid_reach serial ms (raid_bdev_fini_start w)"
| reach_shutdown:
    "raid_reach serial ms w \<Longrightarrow> g_shutdown_started w \<Longrightarrow>
     raid_bdev_find_by_name name w = Some rb \<Longrightarrow> rb_state rb = RAID_BDEV_STATE_ONLINE \<Longrightarrow>
     raid_reach serial ms (raid_bdev_destruct rb w)"
| reach_quiesced:
    "raid_reach serial ms w \<Longrightarrow> PendQuiesce name slot \<in> set (w_pending w) \<Longrightarrow>
     raid_bdev_find_by_name name w = Some rb \<Longrightarrow>
     raid_reach serial ms
       (raid_bdev_remove_base_bdev_on_quiesced rb slot status (w_take (PendQuiesce name slot) w))"
| reach_channels:
    "raid_reach serial ms w \<Longrightarrow> PendChannels name slot \<in> set (w_pending w) \<Longrightarrow>
     raid_bdev_find_by_name name w = Some rb \<Longrightarrow>
     raid_reach serial ms
       (raid_bdev_channels_remove_base_bdev_done rb slot (w_take (PendChannels name slot) w))"
| reach_unquiesced:
    "raid_reach serial ms w \<Longrightarrow> PendUnquiesce name slot \<in> set (w_pending w) \<Longrightarrow>
     raid_bdev_find_by_name name w = Some rb \<Longrightarrow>
     raid_reach serial ms
       (raid_bdev_remove_base_bdev_on_unquiesced rb slot status (w_take (PendUnquiesce name slot) w))"
| reach_unregistered:
    "raid_reach serial ms w \<Longrightarrow> PendUnregister name cb \<in> set (w_pending w) \<Longrightarrow>
     raid_bdev_find_by_name name w = Some rb \<Longrightarrow>
     raid_reach serial ms (raid_bdev_destruct rb (w_take (PendUnregister name cb) w))"
| reach_stopped:
    "raid_reach serial ms w \<Longrightarrow> PendModuleStop name \<in> set (w_pending w) \<Longrightarrow>
     raid_bdev_find_by_name name w = Some rb \<Longrightarrow>
     raid_reach serial ms (raid_bdev_module_stop_done rb (w_take (PendModuleStop name) w))"
| reach_io_unregistered:
    "raid_reach serial ms w \<Longrightarrow> PendIoUnregister name \<in> set (w_pending w) \<Longrightarrow>
     raid_bdev_find_by_name name w = Some rb \<Longrightarrow>
     raid_reach serial ms (raid_bdev_io_device_unregister_cb rb (w_take (PendIoUnregister name) w))"

lemma removal_free_removals:
  "removal_free bdev w \<Longrightarrow>
   raid_bdev_find_base_info_by_bdev bdev (g_raid_bdev_list w) = Some (rb, slot) \<Longrightarrow>
   removals (calls_of (rb_name rb) (w_pending w)) = 0"
  by (simp add: removal_free_def)

lemma raid_reach_inv:
  assumes "\<forall>m \<in> set ms. module_keeps m" and "raid_reach serial ms w"
  shows "raid_inv serial w"
  using assms(2)
proof (induction rule: raid_reach.induct)
  case reach_init
  then show ?case
    using assms(1) by (simp add: raid_inv_def raid_world_ok_def raid_initial_def owned_def)
next
  case (reach_create w name env ssize num level sb uuid)
  then show ?case by (intro create_inv)
next
  case (reach_add w name rb env bdev slot)
  then show ?case using find_name_some by (intro add_base_device_inv) blast+
next
  case (reach_examine w env bdev)
  then show ?case by (intro examine_inv)
next
  case (reach_remove w bdev env cb)
  then show ?case using removal_free_removals by (intro remove_base_bdev_inv) blast+
next
  case (reach_event w bdev env ev)
  then show ?case
    using removal_free_removals resize_inv remove_base_bdev_inv[of serial w bdev env None]
    by (cases ev) (auto simp: raid_bdev_event_base_bdev_def)
next
  case (reach_delete w name rb cb)
  then show ?case using find_name_some by (intro delete_inv) blast+
next
  case (reach_fini w)
  then show ?case by (intro fini_start_inv)
next
  case (reach_shutdown w name rb)
  then show ?case using find_name_some by (intro destruct_inv) blast+
next
  case (reach_quiesced w name slot rb status)
  then show ?case using find_name_some[of name w rb] on_quiesced_inv[of serial w rb slot status] by simp
next
  case (reach_channels w name slot rb)
  then show ?case using find_name_some[of name w rb] channels_done_inv[of serial w rb slot] by simp
next
  case (reach_unquiesced w name slot rb status)
  then show ?case using find_name_some[of name w rb] on_unquiesced_inv[of serial w rb slot status] by simp
next
  case (reach_unregistered w name cb rb)
  have rb: "rb \<in> set (g_raid_bdev_list w)" "rb_name rb = name"
    using find_name_some reach_unregistered(3) by blast+
  have "PendUnregister name cb \<in> set (calls_of (rb_name rb) (w_pending w))"
    using reach_unregistered(2) rb(2) by (simp add: calls_of_in)
  then have "rb_state rb = RAID_BDEV_STATE_OFFLINE"
    using raid_inv_ready[OF reach_unregistered.IH rb(1)] by (force simp: raid_ready_def)
  then show ?case
    using destruct_inv[OF take_inv[OF reach_unregistered.IH]] rb(1) by simp
next
  case (reach_stopped w name rb)
  then show ?case using module_stop_done_inv take_inv by blast
next
  case (reach_io_unregistered w name rb)
  then show ?case using io_device_unregister_inv[OF take_inv] find_name_some[of name w rb] by simp
qed

subsection \<open>What holds in every run\<close>

lemma descs_count:
  "slots_ok rb \<Longrightarrow>
   unat (num_base_bdevs_discovered rb) =
     length (filter (\<lambda>info. bi_desc info \<noteq> None) (base_bdev_info rb))"
proof -
  have "length (List.map_filter bi_desc infos) = length (filter (\<lambda>info. bi_desc info \<noteq> None) infos)" for infos
    by (induction infos) (auto simp: List.map_filter_simps split: option.split)
  then have "size (raid_descs rb) = length (filter (\<lambda>info. bi_desc info \<noteq> None) (base_bdev_info rb))"
    by (simp add: raid_descs_def)
  moreover assume "slots_ok rb"
  ultimately show ?thesis by (simp only: discovered_descs[symmetric])
qed

text \<open>C1: in every run, whatever the requests, the answers from outside and the order of the callbacks,
  no two raid bdevs have the same name, the counter of discovered base bdevs is the number of open
  slots of the raid bdev and never more than its slots, and the base bdevs claimed so far are exactly
  those released again together with those that a slot holds: none is leaked and none is released
  twice.\<close>

theorem raid_claims_balanced:
  assumes "\<forall>m \<in> set ms. module_keeps m" and "raid_reach serial ms w"
  shows "distinct (map rb_name (g_raid_bdev_list w)) \<and>
    (\<forall>rb \<in> set (g_raid_bdev_list w).
       length (base_bdev_info rb) = unat (num_base_bdevs rb) \<and>
       unat (num_base_bdevs_discovered rb) =
         length (filter (\<lambda>info. bi_desc info \<noteq> None) (base_bdev_info rb)) \<and>
       num_base_bdevs_discovered rb \<le> num_base_bdevs rb) \<and>
    claims (w_log w) = releases (w_log w) +
      (\<Sum>rb \<leftarrow> g_raid_bdev_list w. mset (List.map_filter bi_desc (base_bdev_info rb)))"
proof -
  have ok: "raid_world_ok w" using raid_inv_ok[OF raid_reach_inv[OF assms]] .
  have "length (base_bdev_info rb) = unat (num_base_bdevs rb) \<and>
      unat (num_base_bdevs_discovered rb) =
        length (filter (\<lambda>info. bi_desc info \<noteq> None) (base_bdev_info rb)) \<and>
      num_base_bdevs_discovered rb \<le> num_base_bdevs rb"
    if "rb \<in> set (g_raid_bdev_list w)" for rb
  proof -
    have s: "slots_ok rb" using ok that by (simp add: raid_world_ok_def)
    have "length (filter (\<lambda>info. bi_desc info \<noteq> None) (base_bdev_info rb)) \<le> length (base_bdev_info rb)"
      by (rule length_filter_le)
    moreover have "length (base_bdev_info rb) = unat (num_base_bdevs rb)" using s by (simp add: slots_ok_def)
    ultimately show ?thesis using descs_count[OF s] by (simp only: word_le_nat_alt)
  qed
  then show ?thesis using ok by (simp add: raid_world_ok_def owned_def raid_descs_def add.commute)
qed

text \<open>C2: in every run in which the removals of one raid bdev do not overlap, a raid bdev that is online
  has at least the number of base bdevs its level needs.\<close>

theorem raid_online_operational:
  assumes "\<forall>m \<in> set ms. module_keeps m" and "raid_reach True ms w"
    and "rb \<in> set (g_raid_bdev_list w)" and "rb_state rb = RAID_BDEV_STATE_ONLINE"
  shows "min_base_bdevs_operational rb \<le> num_base_bdevs_discovered rb"
  using raid_inv_ready[OF raid_reach_inv[OF assms(1,2)] assms(3)] assms(4)
  by (simp add: raid_ready_def word_le_nat_alt)

subsection \<open>Removal requests that are never answered\<close>

text \<open>C19: a removal is answered with 0, but its callback is neither called nor kept for later, when the
  removal of the base bdev has been scheduled before, when the raid bdev is not online, and when
  quiescing cannot be started; in the other cases the callback is kept with the unregistration or in
  the slot of the quiesce under way.\<close>

theorem raid_removal_callback:
  fixes env :: raid_env and f :: nat
  assumes fnd: "raid_bdev_find_base_info_by_bdev bdev (g_raid_bdev_list w) = Some (rb, slot)"
  defines "w' \<equiv> snd (raid_bdev_remove_base_bdev env bdev (Some f) w)"
  shows "fst (raid_bdev_remove_base_bdev env bdev (Some f) w) = 0 \<and>
    (if remove_scheduled (base_bdev_info rb ! slot) \<or> rb_state rb \<noteq> RAID_BDEV_STATE_ONLINE \<or>
        num_base_bdevs_discovered rb \<noteq> min_base_bdevs_operational rb \<and>
        env_quiesce_rc env (rb_name rb) \<noteq> 0
     then w_pending w' = w_pending w \<and>
       (\<exists>es. w_log w' = w_log w @ es \<and> (\<forall>rc. LogCallback f rc \<notin> set es))
     else w_log w' = w_log w \<and>
       w_pending w' = w_pending w @
         [if num_base_bdevs_discovered rb = min_base_bdevs_operational rb
          then PendUnregister (rb_name rb) (Some f) else PendQuiesce (rb_name rb) slot] \<and>
       (\<exists>rb' \<in> set (g_raid_bdev_list w'). rb_name rb' = rb_name rb \<and>
          remove_cb (base_bdev_info rb' ! slot) = Some f))"
proof -
  note fb = find_base_info_some[OF fnd]
  have i: "slot < length (base_bdev_info rb)" and rb: "rb \<in> set (g_raid_bdev_list w)" using fb by auto
  define r1 where "r1 = update_info slot (\<lambda>info. info\<lparr>remove_scheduled := True, remove_cb := Some f\<rparr>) rb"
  have r1: "rb_state r1 = rb_state rb" "rb_name r1 = rb_name rb"
    "num_base_bdevs_discovered r1 = num_base_bdevs_discovered rb"
    "min_base_bdevs_operational r1 = min_base_bdevs_operational rb"
    "remove_cb (base_bdev_info r1 ! slot) = Some f"
    using i by (simp_all add: r1_def)
  obtain r2 es where f2: "raid_bdev_free_base_bdev_resource slot r1 = (r2, es)" by fastforce
  have es: "\<forall>rc. LogCallback f rc \<notin> set es"
    using f2 by (auto simp: raid_bdev_free_base_bdev_resource_def Let_def split: option.splits)
  have in1: "r1 \<in> set (g_raid_bdev_list (w_update r1 w))" by (rule w_update_in[OF rb r1(2)])
  note unf = w'_def raid_bdev_remove_base_bdev_def fnd option.case prod.case Let_def r1_def[symmetric] f2
  consider "remove_scheduled (base_bdev_info rb ! slot)"
    | "\<not> remove_scheduled (base_bdev_info rb ! slot)" "rb_state rb \<noteq> RAID_BDEV_STATE_ONLINE"
    | "\<not> remove_scheduled (base_bdev_info rb ! slot)" "rb_state rb = RAID_BDEV_STATE_ONLINE"
    by blast
  then show ?thesis
  proof cases
    case 1
    then show ?thesis unfolding unf by simp
  next
    case 2
    have "w_pending (raid_bdev_cleanup_and_free n x) = w_pending x \<and>
        w_log (raid_bdev_cleanup_and_free n x) = w_log x @ [LogFree n]" for n x
      by (simp add: raid_bdev_cleanup_and_free_def w_emit_def)
    then show ?thesis using 2 es unfolding unf by (auto simp: r1)
  next
    case 3
    have "\<exists>rb' \<in> set (g_raid_bdev_list (w_update (r1\<lparr>rb_state := RAID_BDEV_STATE_OFFLINE\<rparr>) (w_update r1 w))).
        rb_name rb' = rb_name rb \<and> remove_cb (base_bdev_info rb' ! slot) = Some f"
      using w_update_in[OF in1, of "r1\<lparr>rb_state := RAID_BDEV_STATE_OFFLINE\<rparr>"] r1
      by (intro bexI[of _ "r1\<lparr>rb_state := RAID_BDEV_STATE_OFFLINE\<rparr>"]) auto
    moreover have "\<exists>rb' \<in> set (g_raid_bdev_list (w_update r1 w)). rb_name rb' = rb_name rb \<and>
        remove_cb (base_bdev_info rb' ! slot) = Some f"
      using in1 r1 by (intro bexI[of _ r1]) auto
    ultimately show ?thesis
      using 3 unfolding unf raid_bdev_deconfigure_def by (auto simp: r1)
  qed
qed

subsection \<open>Deletion\<close>

lemma free_keeps_marks:
  "raid_bdev_free_base_bdev_resource i rb = (rb', es) \<Longrightarrow> j < length (base_bdev_info rb) \<Longrightarrow>
   remove_scheduled (base_bdev_info rb' ! j) = remove_scheduled (base_bdev_info rb ! j)"
  by (cases "i = j")
     (auto simp: raid_bdev_free_base_bdev_resource_def Let_def nth_list_update split: option.splits)

text \<open>A walk over slots that are all to be freed closes them.\<close>

lemma free_all_closes:
  assumes "slots_ok rb" and "\<forall>i \<in> set slots. i < length (base_bdev_info rb)"
    and "\<forall>i < length (base_bdev_info rb). p (base_bdev_info rb ! i)"
    and "\<And>info info'. remove_scheduled info = remove_scheduled info' \<Longrightarrow> p info = p info'"
    and "free_base_bdevs p slots rb = (rb', es)"
  shows "\<forall>i < length (base_bdev_info rb).
    i \<in> set slots \<or> bi_desc (base_bdev_info rb ! i) = None \<longrightarrow> bi_desc (base_bdev_info rb' ! i) = None"
  using assms
proof (induction slots arbitrary: rb es)
  case Nil
  show ?case using Nil(5) by simp
next
  case (Cons i slots)
  have i: "i < length (base_bdev_info rb)" using Cons.prems(2) by simp
  then have pi: "p (base_bdev_info rb ! i)" using Cons.prems(3) by simp
  obtain r1 e1 where f: "raid_bdev_free_base_bdev_resource i rb = (r1, e1)" by fastforce
  obtain e2 where l: "free_base_bdevs p slots r1 = (rb', e2)"
    using Cons.prems(5) f pi by (auto split: prod.splits)
  have e: "evolves rb r1 e1" and b: "base_bdev_info r1 =
      (base_bdev_info rb)[i := (base_bdev_info rb ! i)\<lparr>bi_name := None, bi_desc := None\<rparr>]"
    using free_resource_evolves[OF Cons.prems(1) i f] by blast+
  have len: "length (base_bdev_info r1) = length (base_bdev_info rb)" using e by (simp add: evolves_def)
  have "\<forall>j < length (base_bdev_info r1). p (base_bdev_info r1 ! j)"
    using Cons.prems(3) len free_keeps_marks[OF f] Cons.prems(4) by metis
  from Cons.IH[OF evolves_ok[OF e] _ this Cons.prems(4) l]
  have "\<forall>j < length (base_bdev_info r1). j \<in> set slots \<or> bi_desc (base_bdev_info r1 ! j) = None \<longrightarrow>
      bi_desc (base_bdev_info rb' ! j) = None"
    using Cons.prems(2) len by simp
  then show ?case using len i by (auto simp: b nth_list_update)
qed

text \<open>The loop of the deletion of an online raid bdev marks every slot and changes nothing else.\<close>

lemma delete_loop_online:
  assumes "rb_state rb = RAID_BDEV_STATE_ONLINE" and "\<forall>i \<in> set slots. i < length (base_bdev_info rb)"
    and "delete_loop slots rb = (rb', es)"
  shows "es = [] \<and> rb_state rb' = RAID_BDEV_STATE_ONLINE \<and> rb_module rb' = rb_module rb \<and>
    num_base_bdevs_discovered rb' = num_base_bdevs_discovered rb \<and>
    destroy_started rb' = destroy_started rb \<and>
    length (base_bdev_info rb') = length (base_bdev_info rb) \<and>
    (\<forall>i < length (base_bdev_info rb). i \<in> set slots \<or> remove_scheduled (base_bdev_info rb ! i) \<longrightarrow>
       remove_scheduled (base_bdev_info rb' ! i))"
  using assms
proof (induction slots arbitrary: rb es)
  case (Cons i slots)
  let ?r = "update_info i (\<lambda>info. info\<lparr>remove_scheduled := True\<rparr>) rb"
  obtain e2 where l: "delete_loop slots ?r = (rb', e2)" "es = e2"
    using Cons.prems(1,3) by (auto simp: Let_def split: prod.splits)
  show ?case
    using Cons.IH[OF _ _ l(1)] Cons.prems(1,2) l(2) by (auto simp: nth_list_update)
qed simp

lemma find_fields [simp]:
  "raid_bdev_find_by_name n (w_emit es w) = raid_bdev_find_by_name n w"
  "raid_bdev_find_by_name n (w_defer q w) = raid_bdev_find_by_name n w"
  "raid_bdev_find_by_name n (w_take q w) = raid_bdev_find_by_name n w"
  "raid_bdev_find_by_name n (raid_callback cb rc w) = raid_bdev_find_by_name n w"
  "raid_bdev_find_by_name n (raid_bdev_module_stop_done rb w) = raid_bdev_find_by_name n w"
  by (simp_all add: raid_bdev_find_by_name_def)

lemma find_update:
  "raid_bdev_find_by_name n w = Some rb \<Longrightarrow> rb_name rb' = n \<Longrightarrow>
   raid_bdev_find_by_name n (w_update rb' w) = Some rb'"
proof -
  have "List.find P xs = Some x \<Longrightarrow> P y \<Longrightarrow> List.find P (map (\<lambda>r. if P r then y else r) xs) = Some y"
    for P :: "raid_bdev \<Rightarrow> bool" and xs x y by (induction xs) (auto split: if_splits)
  then show "raid_bdev_find_by_name n w = Some rb \<Longrightarrow> rb_name rb' = n \<Longrightarrow>
      raid_bdev_find_by_name n (w_update rb' w) = Some rb'"
    by (simp add: raid_bdev_find_by_name_def w_update_def)
qed

lemma find_cleanup [simp]:
  "raid_bdev_find_by_name n (raid_bdev_cleanup_and_free n w) = None"
  by (auto simp: raid_bdev_find_by_name_def raid_bdev_cleanup_and_free_def w_emit_def find_None_iff)

lemma cleanup_fields [simp]:
  "w_pending (raid_bdev_cleanup_and_free n w) = w_pending w"
  "w_log (raid_bdev_cleanup_and_free n w) = w_log w @ [LogFree n]"
  "g_raid_modules (raid_bdev_cleanup_and_free n w) = g_raid_modules w"
  by (simp_all add: raid_bdev_cleanup_and_free_def w_emit_def)

lemma callback_releases [simp]: "releases (w_log (raid_callback cb rc w)) = releases (w_log w)"
  using callback_log[of cb rc w] by auto

lemma callback_some [simp]: "w_log (raid_callback (Some f) rc w) = w_log w @ [LogCallback f rc]"
  by (simp add: raid_callback_def w_emit_def)

lemma free_base_bdevs_claims:
  "slots_ok rb \<Longrightarrow> \<forall>i \<in> set slots. i < length (base_bdev_info rb) \<Longrightarrow>
   free_base_bdevs p slots rb = (rb', es) \<Longrightarrow> claims es = {#}"
proof (induction slots arbitrary: rb es)
  case (Cons i slots)
  show ?case
  proof (cases "p (base_bdev_info rb ! i)")
    case True
    obtain r1 e1 where f: "raid_bdev_free_base_bdev_resource i rb = (r1, e1)" by fastforce
    obtain e2 where l: "free_base_bdevs p slots r1 = (rb', e2)" "es = e1 @ e2"
      using Cons.prems(3) True f by (auto split: prod.splits)
    have e: "evolves rb r1 e1" "claims e1 = {#}"
      using free_resource_evolves[OF Cons.prems(1) _ f] Cons.prems(2) by auto
    show ?thesis
      using Cons.IH[OF evolves_ok[OF e(1)] _ l(1)] e Cons.prems(2) l(2) by (simp add: evolves_def)
  next
    case False
    then show ?thesis using Cons.IH[OF Cons.prems(1)] Cons.prems by simp
  qed
qed simp

lemma delete_loop_closed:
  assumes ok: "slots_ok rb" and st: "rb_state rb \<noteq> RAID_BDEV_STATE_ONLINE"
    and l: "delete_loop [0..<length (base_bdev_info rb)] rb = (rb', es)"
  shows "num_base_bdevs_discovered rb' = 0 \<and> releases es = raid_descs rb + claims es"
proof -
  have e: "evolves rb rb' es" and "\<forall>i < length (base_bdev_info rb). bi_desc (base_bdev_info rb' ! i) = None"
    using delete_loop_evolves[OF ok _ l] st by auto
  then have "raid_descs rb' = {#}"
    using no_open_slot[OF evolves_ok[OF e]] by (simp add: evolves_def)
  then show ?thesis
    using e discovered_descs[OF evolves_ok[OF e]] by (simp add: evolves_def word_unat_eq_iff)
qed

lemma delete_loop_claims:
  "slots_ok rb \<Longrightarrow> \<forall>i \<in> set slots. i < length (base_bdev_info rb) \<Longrightarrow>
   delete_loop slots rb = (rb', es) \<Longrightarrow> claims es = {#}"
proof (induction slots arbitrary: rb es)
  case (Cons i slots)
  let ?r0 = "update_info i (\<lambda>info. info\<lparr>remove_scheduled := True\<rparr>) rb"
  have i: "i < length (base_bdev_info rb)" using Cons.prems(2) by simp
  have e0: "evolves rb ?r0 []" by (rule raid_step_mark(1)[OF Cons.prems(1) i]) simp_all
  obtain r1 e1 where f: "(if rb_state rb \<noteq> RAID_BDEV_STATE_ONLINE
      then raid_bdev_free_base_bdev_resource i ?r0 else (?r0, [])) = (r1, e1)" by fastforce
  obtain e2 where l: "delete_loop slots r1 = (rb', e2)" "es = e1 @ e2"
    using Cons.prems(3) f by (auto simp: Let_def split: prod.splits if_splits)
  have e1: "evolves ?r0 r1 e1 \<and> claims e1 = {#}"
    using free_resource_evolves[OF evolves_ok[OF e0], of i r1 e1] f i evolves_refl[OF evolves_ok[OF e0]]
    by (auto split: if_splits)
  have "length (base_bdev_info r1) = length (base_bdev_info rb)" using e1 by (simp add: evolves_def)
  then have "claims e2 = {#}"
    using Cons.IH[OF evolves_ok[OF conjunct1[OF e1]] _ l(1)] Cons.prems(2) by simp
  then show ?case using l(2) e1 by simp
qed simp

lemma delete_online:
  assumes ok: "slots_ok rb" and fnd: "raid_bdev_find_by_name name w = Some rb"
    and st: "rb_state rb = RAID_BDEV_STATE_ONLINE" and nd: "\<not> destroy_started rb"
    and disc: "num_base_bdevs_discovered rb \<noteq> 0"
  obtains rb' where "w_log (raid_bdev_delete rb cb w) = w_log w"
    "w_pending (raid_bdev_delete rb cb w) = w_pending w @ [PendUnregister name cb]"
    "raid_bdev_find_by_name name (raid_bdev_delete rb cb w) = Some rb'"
    "destroy_started rb'" "rb_state rb' = RAID_BDEV_STATE_OFFLINE"
    "\<forall>info \<in> set (base_bdev_info rb'). remove_scheduled info" "raid_descs rb' = raid_descs rb"
proof -
  let ?r0 = "rb\<lparr>destroy_started := True\<rparr>"
  have nm: "rb_name rb = name" using find_name_some[OF fnd] by simp
  obtain r1 es where l: "delete_loop [0..<length (base_bdev_info ?r0)] ?r0 = (r1, es)" by fastforce
  have ok0: "slots_ok ?r0" using ok by simp
  have e1: "evolves ?r0 r1 es" using delete_loop_evolves[OF ok0 _ l] by simp
  then have nm1: "rb_name r1 = name" using nm by (simp add: evolves_def)
  have on: "es = []" "rb_state r1 = RAID_BDEV_STATE_ONLINE" "destroy_started r1"
    "num_base_bdevs_discovered r1 = num_base_bdevs_discovered rb"
    "\<forall>info \<in> set (base_bdev_info r1). remove_scheduled info"
    using delete_loop_online[OF _ _ l] st by (auto simp: in_set_conv_nth)
  have eq: "raid_bdev_delete rb cb w = raid_bdev_deconfigure r1 cb (w_update r1 w)"
    using nd l disc on by (simp add: raid_bdev_delete_def Let_def)
  let ?r2 = "r1\<lparr>rb_state := RAID_BDEV_STATE_OFFLINE\<rparr>"
  have "raid_bdev_find_by_name name (w_update ?r2 (w_update r1 w)) = Some ?r2"
    by (rule find_update[OF find_update[OF fnd nm1]]) (simp add: nm1)
  moreover have "raid_descs r1 = raid_descs rb" using e1 on(1) by (simp add: evolves_def)
  ultimately show ?thesis
    using that[of ?r2] on nm1 by (simp add: eq raid_bdev_deconfigure_def)
qed

text \<open>What a deletion does in every world that can be reached. A second deletion is refused with
  \<open>-EALREADY\<close> and changes nothing else. A raid bdev that is not online is freed at once, all the base
  bdevs it holds are released and the callback gets 0. An online one goes offline, all its slots are
  scheduled for removal, nothing is released yet, and the callback goes with the unregistration.\<close>

theorem raid_delete_outcome:
  fixes cb :: "nat option"
  assumes "\<forall>m \<in> set ms. module_keeps m" and "raid_reach serial ms w"
    and fnd: "raid_bdev_find_by_name name w = Some rb"
  defines "w' \<equiv> raid_bdev_delete rb cb w"
  shows "if destroy_started rb then w' = raid_callback cb (- EALREADY) w
    else if rb_state rb \<noteq> RAID_BDEV_STATE_ONLINE
    then raid_bdev_find_by_name name w' = None \<and> w_pending w' = w_pending w \<and>
      releases (w_log w') = releases (w_log w) +
        mset (List.map_filter bi_desc (base_bdev_info rb)) \<and>
      (\<forall>f. cb = Some f \<longrightarrow> last (w_log w') = LogCallback f 0)
    else num_base_bdevs_discovered rb \<noteq> 0 \<longrightarrow>
      w_log w' = w_log w \<and> w_pending w' = w_pending w @ [PendUnregister name cb] \<and>
      (\<exists>rb'. raid_bdev_find_by_name name w' = Some rb' \<and> destroy_started rb' \<and>
         rb_state rb' = RAID_BDEV_STATE_OFFLINE \<and>
         (\<forall>info \<in> set (base_bdev_info rb'). remove_scheduled info))"
proof -
  note inv = raid_reach_inv[OF assms(1,2)]
  have rb: "rb \<in> set (g_raid_bdev_list w)" and nm: "rb_name rb = name" using find_name_some[OF fnd] by auto
  let ?r0 = "rb\<lparr>destroy_started := True\<rparr>"
  obtain r1 es where l: "delete_loop [0..<length (base_bdev_info ?r0)] ?r0 = (r1, es)" by fastforce
  have ok: "slots_ok rb" by (rule raid_inv_slots[OF inv rb])
  then have ok0: "slots_ok ?r0" by simp
  have e1: "evolves ?r0 r1 es" using delete_loop_evolves[OF ok0 _ l] by simp
  then have nm1: "rb_name r1 = name" using nm by (simp add: evolves_def)
  have cl: "claims es = {#}" using delete_loop_claims[OF ok0 _ l] by simp
  have eq: "raid_bdev_delete rb cb w =
      (if num_base_bdevs_discovered r1 = 0
       then raid_callback cb 0 (raid_bdev_cleanup_and_free (rb_name r1) (w_emit es (w_update r1 w)))
       else raid_bdev_deconfigure r1 cb (w_emit es (w_update r1 w)))" if "\<not> destroy_started rb"
    using that l by (simp add: raid_bdev_delete_def Let_def)
  consider "destroy_started rb" | "\<not> destroy_started rb" "rb_state rb \<noteq> RAID_BDEV_STATE_ONLINE"
    | "\<not> destroy_started rb" "rb_state rb = RAID_BDEV_STATE_ONLINE" by blast
  then show ?thesis
  proof cases
    case 1
    then show ?thesis by (simp add: w'_def raid_bdev_delete_def)
  next
    case 2
    have d: "num_base_bdevs_discovered r1 = 0" "releases es = raid_descs rb"
      using delete_loop_closed[OF ok0 _ l] 2(2) cl by simp_all
    have "w' = raid_callback cb 0 (raid_bdev_cleanup_and_free name (w_emit es (w_update r1 w)))"
      using 2(1) d(1) nm1 by (simp add: w'_def eq)
    then show ?thesis
      using 2 d(2) by (cases cb) (simp_all add: raid_descs_def)
  next
    case 3
    have "\<not> destroy_started rb" "rb_state rb = RAID_BDEV_STATE_ONLINE" using 3 by simp_all
    then show ?thesis
      using delete_online[OF ok fnd, of cb] by (auto simp: w'_def)
  qed
qed

text \<open>The destruction of a raid bdev all of whose slots are to be freed.\<close>

lemma destruct_closes:
  assumes inv: "raid_inv serial w" and fnd: "raid_bdev_find_by_name name w = Some rb"
    and all: "g_shutdown_started w \<or> (\<forall>info \<in> set (base_bdev_info rb). remove_scheduled info)"
    and st: "rb_state rb \<noteq> RAID_BDEV_STATE_CONFIGURING"
  obtains rb' q where "raid_bdev_find_by_name name (raid_bdev_destruct rb w) = Some rb'"
    "num_base_bdevs_discovered rb' = 0" "rb_state rb' \<noteq> RAID_BDEV_STATE_CONFIGURING"
    "releases (w_log (raid_bdev_destruct rb w)) = releases (w_log w) + raid_descs rb"
    "w_pending (raid_bdev_destruct rb w) = w_pending w @ [q]" "q = PendModuleStop name \<or> q = PendIoUnregister name"
proof -
  define p :: "raid_base_bdev_info \<Rightarrow> bool" where
    "p = (\<lambda>info. g_shutdown_started w \<or> remove_scheduled info)"
  obtain r1 es where fb: "free_base_bdevs p [0..<length (base_bdev_info rb)] rb = (r1, es)" by fastforce
  define r2 where "r2 = (if g_shutdown_started w then r1\<lparr>rb_state := RAID_BDEV_STATE_OFFLINE\<rparr> else r1)"
  define w1 where "w1 = w_emit es w"
  have shut: "g_shutdown_started w1 = g_shutdown_started w" by (simp add: w1_def)
  have rb: "rb \<in> set (g_raid_bdev_list w)" and nm: "rb_name rb = name" using find_name_some[OF fnd] by auto
  have ok: "slots_ok rb" by (rule raid_inv_slots[OF inv rb])
  have p_all: "\<forall>i < length (base_bdev_info rb). p (base_bdev_info rb ! i)" using all by (auto simp: p_def)
  have "\<forall>i < length (base_bdev_info rb). bi_desc (base_bdev_info r1 ! i) = None"
    using free_all_closes[OF ok _ p_all _ fb] by (auto simp: p_def)
  moreover have e: "evolves rb r1 es" using free_base_bdevs_evolves[OF ok _ fb] by simp
  ultimately have d1: "raid_descs r1 = {#}"
    using no_open_slot[OF evolves_ok[OF e]] by (simp add: evolves_def)
  have rel: "releases es = raid_descs rb"
    using e d1 free_base_bdevs_claims[OF ok _ fb] by (simp add: evolves_def)
  have ok2: "slots_ok r2" and d2: "raid_descs r2 = {#}" and nm2: "rb_name r2 = name"
    using evolves_ok[OF e] d1 e nm by (simp_all add: r2_def evolves_def)
  have st2: "rb_state r2 \<noteq> RAID_BDEV_STATE_CONFIGURING"
    using free_base_bdevs_evolves[OF ok _ fb] st by (simp add: r2_def)
  have closed: "num_base_bdevs_discovered r3 = 0 \<and> rb_name r3 = name \<and> rb_state r3 \<noteq> RAID_BDEV_STATE_CONFIGURING"
    if sm: "same_slots r2 r3" for r3
    using same_slots_descs[OF sm] same_slots_ok[OF sm] ok2 d2 discovered_descs[of r3] sm nm2 st2
    by (simp add: same_slots_def word_unat_eq_iff)
  have upd: "raid_bdev_find_by_name name (w_update r3 w1) = Some r3" if "same_slots r2 r3" for r3
    using find_update[of name w1 rb r3] fnd closed[OF that] by (simp add: w1_def)
  have eq: "raid_bdev_destruct rb w =
      (case Option.bind (rb_module_of w1 r2) mod_stop of
         Some stop \<Rightarrow>
           (case stop r2 of
              (stopped, r3) \<Rightarrow>
                (if stopped then raid_bdev_module_stop_done r3 (w_update r3 w1)
                 else w_defer (PendModuleStop (rb_name r3)) (w_update r3 w1)))
       | None \<Rightarrow> raid_bdev_module_stop_done r2 (w_update r2 w1))"
    unfolding raid_bdev_destruct_def p_def[symmetric] Let_def fb prod.case w1_def[symmetric] shut
      r2_def[symmetric] by (rule refl)
  have lg: "releases (w_log w1) = releases (w_log w) + raid_descs rb" "w_pending w1 = w_pending w"
    by (simp_all add: w1_def rel)
  show ?thesis
  proof (cases "Option.bind (rb_module_of w1 r2) mod_stop")
    case None
    then show ?thesis
      using that[of r2 "PendIoUnregister name"] upd[OF same_slots_refl] closed[OF same_slots_refl] lg
      unfolding eq by (simp add: raid_bdev_module_stop_done_def)
  next
    case (Some stop)
    then obtain m where m: "rb_module_of w1 r2 = Some m" "mod_stop m = Some stop"
      by (auto simp: bind_eq_Some_conv)
    have km: "module_keeps m"
      using raid_inv_modules[OF inv] m(1) module_find_in by (auto simp: rb_module_of_def w1_def)
    obtain sd r3 where s: "stop r2 = (sd, r3)" by fastforce
    have "same_slots r2 (snd (stop r2))" using km m(2) by (simp add: module_keeps_def)
    then have sm: "same_slots r2 r3" by (simp add: s)
    show ?thesis
      by (rule that[of r3 "if sd then PendIoUnregister name else PendModuleStop name"])
         (use upd[OF sm] closed[OF sm] lg in \<open>simp_all add: eq Some s raid_bdev_module_stop_done_def\<close>)
  qed
qed

text \<open>The callbacks of one raid bdev, as steps: each one needs its call to be under way and the raid bdev to be
  there, and is as in \<open>raid_reach\<close>. None of them happens by itself.\<close>

inductive raid_callback_step :: "string \<Rightarrow> raid_world \<Rightarrow> raid_world \<Rightarrow> bool" for name where
  step_quiesced:
    "PendQuiesce name slot \<in> set (w_pending w) \<Longrightarrow> raid_bdev_find_by_name name w = Some rb \<Longrightarrow>
     raid_callback_step name w
       (raid_bdev_remove_base_bdev_on_quiesced rb slot status (w_take (PendQuiesce name slot) w))"
| step_channels:
    "PendChannels name slot \<in> set (w_pending w) \<Longrightarrow> raid_bdev_find_by_name name w = Some rb \<Longrightarrow>
     raid_callback_step name w
       (raid_bdev_channels_remove_base_bdev_done rb slot (w_take (PendChannels name slot) w))"
| step_unquiesced:
    "PendUnquiesce name slot \<in> set (w_pending w) \<Longrightarrow> raid_bdev_find_by_name name w = Some rb \<Longrightarrow>
     raid_callback_step name w
       (raid_bdev_remove_base_bdev_on_unquiesced rb slot status (w_take (PendUnquiesce name slot) w))"
| step_unregistered:
    "PendUnregister name cb \<in> set (w_pending w) \<Longrightarrow> raid_bdev_find_by_name name w = Some rb \<Longrightarrow>
     raid_callback_step name w (raid_bdev_destruct rb (w_take (PendUnregister name cb) w))"
| step_stopped:
    "PendModuleStop name \<in> set (w_pending w) \<Longrightarrow> raid_bdev_find_by_name name w = Some rb \<Longrightarrow>
     raid_callback_step name w (raid_bdev_module_stop_done rb (w_take (PendModuleStop name) w))"
| step_io_unregistered:
    "PendIoUnregister name \<in> set (w_pending w) \<Longrightarrow> raid_bdev_find_by_name name w = Some rb \<Longrightarrow>
     raid_callback_step name w (raid_bdev_io_device_unregister_cb rb (w_take (PendIoUnregister name) w))"

inductive_cases raid_callback_stepE: "raid_callback_step name w w'"

lemma callback_step_reach:
  "raid_callback_step name w w' \<Longrightarrow> raid_reach serial ms w \<Longrightarrow> raid_reach serial ms w'"
  by (induction rule: raid_callback_step.induct)
    (auto intro: raid_reach.intros)

text \<open>The phases of a deletion, by the number of callbacks that are left at most: \<open>released\<close> is what had been
  released before it, \<open>held\<close> what the raid bdev held.\<close>

definition raid_deleting ::
  "string \<Rightarrow> string multiset \<Rightarrow> string multiset \<Rightarrow> nat \<Rightarrow> raid_world \<Rightarrow> bool" where
  "raid_deleting name released held k w \<longleftrightarrow>
     (case raid_bdev_find_by_name name w of
        None \<Rightarrow> k = 0 \<and> calls_of name (w_pending w) = [] \<and> releases (w_log w) = released + held
      | Some rb \<Rightarrow>
          if k = 3
          then (\<exists>serial. raid_inv serial w) \<and> rb_state rb = RAID_BDEV_STATE_OFFLINE \<and>
            (\<forall>info \<in> set (base_bdev_info rb). remove_scheduled info) \<and> raid_descs rb = held \<and>
            releases (w_log w) = released \<and> (\<exists>cb. calls_of name (w_pending w) = [PendUnregister name cb])
          else (k = 2 \<and> calls_of name (w_pending w) = [PendModuleStop name] \<or>
                k = 1 \<and> calls_of name (w_pending w) = [PendIoUnregister name]) \<and>
            num_base_bdevs_discovered rb = 0 \<and> rb_state rb \<noteq> RAID_BDEV_STATE_CONFIGURING \<and>
            releases (w_log w) = released + held)"

lemma deleting_call:
  assumes "raid_deleting name released held k w" and "p \<in> set (w_pending w)" and "pend_name p = name"
  shows "calls_of name (w_pending w) = [p]"
proof -
  have "p \<in> set (calls_of name (w_pending w))" using assms(2,3) by (simp add: calls_of_in)
  then show ?thesis using assms(1) by (auto simp: raid_deleting_def split: option.splits if_splits)
qed

lemma deleting_step:
  assumes del: "raid_deleting name released held k w" and step: "raid_callback_step name w w'"
  shows "\<exists>j < k. raid_deleting name released held j w'"
  using step
proof (rule raid_callback_stepE)
  fix slot rb status
  assume "PendQuiesce name slot \<in> set (w_pending w)" "raid_bdev_find_by_name name w = Some rb"
  then show ?thesis using deleting_call[OF del] del by (auto simp: raid_deleting_def split: if_splits)
next
  fix slot rb
  assume "PendChannels name slot \<in> set (w_pending w)" "raid_bdev_find_by_name name w = Some rb"
  then show ?thesis using deleting_call[OF del] del by (auto simp: raid_deleting_def split: if_splits)
next
  fix slot rb status
  assume "PendUnquiesce name slot \<in> set (w_pending w)" "raid_bdev_find_by_name name w = Some rb"
  then show ?thesis using deleting_call[OF del] del by (auto simp: raid_deleting_def split: if_splits)
next
  fix cb rb
  let ?w = "w_take (PendUnregister name cb) w"
  assume w': "w' = raid_bdev_destruct rb ?w" and p: "PendUnregister name cb \<in> set (w_pending w)"
    and fnd: "raid_bdev_find_by_name name w = Some rb"
  have calls: "calls_of name (w_pending w) = [PendUnregister name cb]" using deleting_call[OF del p] by simp
  obtain serial where inv: "raid_inv serial w" and st: "rb_state rb = RAID_BDEV_STATE_OFFLINE"
    and all: "\<forall>info \<in> set (base_bdev_info rb). remove_scheduled info" and held: "raid_descs rb = held"
    and rel: "releases (w_log w) = released" and k: "k = 3"
    using del fnd calls by (auto simp: raid_deleting_def split: if_splits)
  have fnd': "raid_bdev_find_by_name name ?w = Some rb" using fnd by simp
  obtain r3 q where c: "raid_bdev_find_by_name name w' = Some r3" "num_base_bdevs_discovered r3 = 0"
      "rb_state r3 \<noteq> RAID_BDEV_STATE_CONFIGURING" "releases (w_log w') = releases (w_log ?w) + raid_descs rb"
      "w_pending w' = w_pending ?w @ [q]" "q = PendModuleStop name \<or> q = PendIoUnregister name"
    by (rule destruct_closes[OF take_inv[OF inv] fnd']) (use all st w' in auto)
  have "calls_of name (w_pending w') = [q]" using calls c(6) by (auto simp: c(5) calls_of_remove1)
  then show ?thesis
    using c k held rel by (auto simp: raid_deleting_def intro: exI[of _ 1] exI[of _ 2])
next
  fix rb
  let ?w = "w_take (PendModuleStop name) w"
  assume w': "w' = raid_bdev_module_stop_done rb ?w" and p: "PendModuleStop name \<in> set (w_pending w)"
    and fnd: "raid_bdev_find_by_name name w = Some rb"
  have calls: "calls_of name (w_pending w) = [PendModuleStop name]" using deleting_call[OF del p] by simp
  have k: "k = 2" "num_base_bdevs_discovered rb = 0" "rb_state rb \<noteq> RAID_BDEV_STATE_CONFIGURING"
    "releases (w_log w) = released + held"
    using del fnd calls by (auto simp: raid_deleting_def split: if_splits)
  have "rb_name rb = name" using find_name_some[OF fnd] by simp
  then have "raid_deleting name released held 1 w'"
    using k fnd calls by (simp add: w' raid_bdev_module_stop_done_def raid_deleting_def calls_of_remove1)
  then show ?thesis by (intro exI[of _ 1] conjI) (simp_all add: k(1))
next
  fix rb
  let ?w = "w_take (PendIoUnregister name) w"
  assume w': "w' = raid_bdev_io_device_unregister_cb rb ?w" and p: "PendIoUnregister name \<in> set (w_pending w)"
    and fnd: "raid_bdev_find_by_name name w = Some rb"
  have calls: "calls_of name (w_pending w) = [PendIoUnregister name]" using deleting_call[OF del p] by simp
  have k: "k = 1" "num_base_bdevs_discovered rb = 0" "releases (w_log w) = released + held"
    using del fnd calls by (auto simp: raid_deleting_def split: if_splits)
  have "rb_name rb = name" using find_name_some[OF fnd] by simp
  then have "raid_deleting name released held 0 w'"
    using k calls by (simp add: w' raid_bdev_io_device_unregister_cb_def raid_deleting_def calls_of_remove1)
  then show ?thesis using k(1) by auto
qed

lemma deleting_steps:
  "raid_deleting name released held k w \<Longrightarrow> (raid_callback_step name ^^ m) w v \<Longrightarrow>
   \<exists>j. j + m \<le> k \<and> raid_deleting name released held j v"
proof (induction m arbitrary: v)
  case (Suc m)
  obtain u where u: "(raid_callback_step name ^^ m) w u" "raid_callback_step name u v" using Suc.prems(2) by auto
  from Suc.IH[OF Suc.prems(1) u(1)] obtain j where "j + m \<le> k" "raid_deleting name released held j u" by blast
  moreover from deleting_step[OF this(2) u(2)] obtain i where "i < j" "raid_deleting name released held i v" by blast
  ultimately show ?case by (intro exI[of _ i]) simp
qed auto

lemma deleting_stuck:
  assumes del: "raid_deleting name released held k v" and stuck: "\<And>v'. \<not> raid_callback_step name v v'"
  shows "raid_bdev_find_by_name name v = None \<and> calls_of name (w_pending v) = [] \<and>
    releases (w_log v) = released + held"
proof (cases "raid_bdev_find_by_name name v")
  case None
  then show ?thesis using del by (simp add: raid_deleting_def)
next
  case (Some rb)
  obtain p where p: "p \<in> set (calls_of name (w_pending v))"
    "(\<exists>cb. p = PendUnregister name cb) \<or> p = PendModuleStop name \<or> p = PendIoUnregister name"
    using del Some by (auto simp: raid_deleting_def split: if_splits)
  then have "\<exists>v'. raid_callback_step name v v'"
    using Some step_unregistered step_stopped step_io_unregistered by (fastforce simp: calls_of_in)
  then show ?thesis using stuck by blast
qed

text \<open>C3: the deletion of an online raid bdev with no call under way comes to its end: whatever callbacks of
  this raid bdev follow, in the order in which their calls have been made, there are at most three of
  them, and where no further one can come the raid bdev is gone, no call for it is left, and every base
  bdev that it held has been released exactly once. No callback is assumed that has not been asked for.\<close>

theorem raid_delete_completes:
  fixes cb :: "nat option"
  assumes "\<forall>m \<in> set ms. module_keeps m" and "raid_reach serial ms w"
    and "raid_bdev_find_by_name name w = Some rb"
    and "rb_state rb = RAID_BDEV_STATE_ONLINE" and "\<not> destroy_started rb"
    and "num_base_bdevs_discovered rb \<noteq> 0" and "calls_of name (w_pending w) = []"
    and run: "(raid_callback_step name ^^ k) (raid_bdev_delete rb cb w) v"
  shows "k \<le> 3 \<and>
    ((\<exists>v'. raid_callback_step name v v') \<or>
     raid_bdev_find_by_name name v = None \<and> calls_of name (w_pending v) = [] \<and>
     releases (w_log v) = releases (w_log w) + mset (List.map_filter bi_desc (base_bdev_info rb)))"
proof -
  note inv = raid_reach_inv[OF assms(1,2)]
  have rb: "rb \<in> set (g_raid_bdev_list w)" using find_name_some[OF assms(3)] by auto
  define w1 where "w1 = raid_bdev_delete rb cb w"
  obtain r1 where d: "w_log w1 = w_log w" "w_pending w1 = w_pending w @ [PendUnregister name cb]"
      "raid_bdev_find_by_name name w1 = Some r1" "rb_state r1 = RAID_BDEV_STATE_OFFLINE"
      "\<forall>info \<in> set (base_bdev_info r1). remove_scheduled info" "raid_descs r1 = raid_descs rb"
    by (rule delete_online[OF raid_inv_slots[OF inv rb] assms(3-6), of cb]) (auto simp: w1_def)
  have "raid_inv serial w1" unfolding w1_def by (rule delete_inv[OF inv rb])
  then have start: "raid_deleting name (releases (w_log w)) (raid_descs rb) 3 w1"
    using d assms(7) by (auto simp: raid_deleting_def)
  from deleting_steps[OF start run[folded w1_def]] obtain j
    where "j + k \<le> 3" and del: "raid_deleting name (releases (w_log w)) (raid_descs rb) j v" by blast
  then show ?thesis using deleting_stuck[OF del] by (auto simp: raid_descs_def)
qed

subsection \<open>Concrete runs\<close>

definition life_env :: raid_env where
  "life_env =
     \<lparr>env_bdev = (\<lambda>_. \<lparr>bd_blockcnt = 100, bd_blocklen = 512, bd_optimal_io_boundary = 0, bd_md_size = 0,
                       bd_md_interleaved = False, bd_dif_disabled = True\<rparr>),
      env_open_rc = (\<lambda>_. 0), env_claim_rc = (\<lambda>_. 0), env_register_rc = (\<lambda>_. 0),
      env_quiesce_rc = (\<lambda>_. 0), env_alloc_raid = True, env_alloc_infos = True,
      env_strdup = (\<lambda>_. True), spdk_u32log2 = (\<lambda>x. if x = 0 then 0 else 3),
      spdk_u32_is_pow2 = (\<lambda>x. x AND (x - 1) = 0),
      spdk_divide_round_up = (\<lambda>a b. (a + b - 1) div b)\<rparr>"

definition on_raid :: "(raid_bdev \<Rightarrow> raid_world \<Rightarrow> raid_world) \<Rightarrow> raid_world \<Rightarrow> raid_world" where
  "on_raid f w = (case raid_bdev_find_by_name ''r'' w of None \<Rightarrow> w | Some rb \<Rightarrow> f rb w)"

text \<open>A raid bdev of two base bdevs is created and comes online.\<close>

definition life_created :: "raid_bdev_module \<Rightarrow> u32 \<Rightarrow> raid_level \<Rightarrow> raid_world" where
  "life_created m ssize level =
     snd (raid_bdev_create life_env ''r'' ssize 2 level False 0 (raid_initial [m]))"

definition life_half :: "raid_bdev_module \<Rightarrow> u32 \<Rightarrow> raid_level \<Rightarrow> raid_world" where
  "life_half m ssize level =
     on_raid (\<lambda>rb w. snd (raid_bdev_add_base_device life_env rb ''a'' 0 w)) (life_created m ssize level)"

definition life_online :: "raid_bdev_module \<Rightarrow> u32 \<Rightarrow> raid_level \<Rightarrow> raid_world" where
  "life_online m ssize level =
     on_raid (\<lambda>rb w. snd (raid_bdev_add_base_device life_env rb ''b'' 1 w)) (life_half m ssize level)"

abbreviation life_mirror :: raid_world where
  "life_mirror \<equiv> life_online (g_raid1_module True) 0 RAID1"

abbreviation life_concat :: raid_world where
  "life_concat \<equiv> life_online (g_concat_module True) 4 CONCAT"

lemma reach_created: "raid_reach serial [m] (life_created m ssize level)"
  unfolding life_created_def by (rule reach_create[OF reach_init]) (simp add: raid_initial_def)

lemma reach_on_raid:
  assumes "raid_reach serial ms w"
    and "\<And>rb. raid_bdev_find_by_name ''r'' w = Some rb \<Longrightarrow> raid_reach serial ms (f rb w)"
  shows "raid_reach serial ms (on_raid f w)"
  using assms by (auto simp: on_raid_def split: option.split)

definition life_configuring :: "raid_world \<Rightarrow> bool" where
  "life_configuring w \<longleftrightarrow>
     (\<forall>rb \<in> set (g_raid_bdev_list w). rb_state rb = RAID_BDEV_STATE_CONFIGURING)"

lemma reach_online:
  assumes "life_configuring (life_created m ssize level)" and "life_configuring (life_half m ssize level)"
  shows "raid_reach serial [m] (life_online m ssize level)"
proof -
  have "raid_reach serial [m] (life_half m ssize level)"
    unfolding life_half_def
    by (rule reach_on_raid[OF reach_created], rule reach_add[OF reach_created])
       (use assms(1) find_name_some in \<open>auto simp: life_configuring_def\<close>)
  then show ?thesis
    unfolding life_online_def
    by (rule reach_on_raid, intro reach_add)
       (use assms(2) find_name_some in \<open>auto simp: life_configuring_def\<close>)
qed

lemma reach_mirror: "raid_reach serial [g_raid1_module True] life_mirror"
  by (rule reach_online) (code_simp, code_simp)

lemma reach_concat: "raid_reach serial [g_concat_module True] life_concat"
  by (rule reach_online) (code_simp, code_simp)

lemma mirror_keeps: "\<forall>m \<in> set [g_raid1_module True]. module_keeps m"
  using raid1_module.keeps by simp

lemma concat_keeps: "\<forall>m \<in> set [g_concat_module True]. module_keeps m"
  using concat_module.keeps by simp

lemma raid_claims_balanced_witness:
  "distinct (map rb_name (g_raid_bdev_list life_mirror)) \<and>
   claims (w_log life_mirror) = releases (w_log life_mirror) +
     (\<Sum>rb \<leftarrow> g_raid_bdev_list life_mirror. mset (List.map_filter bi_desc (base_bdev_info rb)))"
  using raid_claims_balanced[OF mirror_keeps reach_mirror] by blast

definition life_rb :: "raid_world \<Rightarrow> raid_bdev" where
  "life_rb w = the (raid_bdev_find_by_name ''r'' w)"

lemma life_found:
  "\<not> Option.is_none (raid_bdev_find_by_name ''r'' w) \<Longrightarrow> raid_bdev_find_by_name ''r'' w = Some (life_rb w)"
  by (auto simp: life_rb_def Option.is_none_def)

lemma find_mirror: "raid_bdev_find_by_name ''r'' life_mirror = Some (life_rb life_mirror)"
  by (rule life_found) code_simp

lemma mirror_online: "rb_state (life_rb life_mirror) = RAID_BDEV_STATE_ONLINE \<and>
    \<not> destroy_started (life_rb life_mirror) \<and> num_base_bdevs_discovered (life_rb life_mirror) = 2"
  by code_simp

lemma raid_online_operational_witness:
  "min_base_bdevs_operational (life_rb life_mirror) \<le> num_base_bdevs_discovered (life_rb life_mirror)"
  using raid_online_operational[OF mirror_keeps reach_mirror] find_name_some[OF find_mirror] mirror_online
  by blast

lemma raid_removal_callback_witness:
  "w_pending (snd (raid_bdev_remove_base_bdev life_env ''a'' (Some 11) life_mirror)) =
     [PendQuiesce ''r'' 0]"
proof -
  have "raid_bdev_find_base_info_by_bdev ''a'' (g_raid_bdev_list life_mirror) \<noteq> None"
    "(case raid_bdev_find_base_info_by_bdev ''a'' (g_raid_bdev_list life_mirror) of
       None \<Rightarrow> False
     | Some (rb, slot) \<Rightarrow> slot = 0 \<and> rb_name rb = ''r'' \<and> rb_state rb = RAID_BDEV_STATE_ONLINE \<and>
         \<not> remove_scheduled (base_bdev_info rb ! slot) \<and>
         num_base_bdevs_discovered rb = 2 \<and> min_base_bdevs_operational rb = 1)"
    "env_quiesce_rc life_env ''r'' = 0" "w_pending life_mirror = []"
    by code_simp+
  then show ?thesis
    using raid_removal_callback[of "''a''" life_mirror _ _ life_env 11]
    by (auto split: option.splits prod.splits)
qed

lemma raid_delete_outcome_witness:
  "w_pending (raid_bdev_delete (life_rb life_mirror) (Some 11) life_mirror) =
     [PendUnregister ''r'' (Some 11)]"
proof -
  have "w_pending life_mirror = []" by code_simp
  then show ?thesis
    using raid_delete_outcome[OF mirror_keeps reach_mirror find_mirror, of "Some 11"] mirror_online
    by simp
qed

text \<open>The three callbacks that follow it; the module of the mirror stops later.\<close>

definition life_offline :: raid_world where
  "life_offline = raid_bdev_delete (life_rb life_mirror) (Some 11) life_mirror"

definition life_closed :: raid_world where
  "life_closed = raid_bdev_destruct (life_rb life_offline) (w_take (PendUnregister ''r'' (Some 11)) life_offline)"

definition life_stopped :: raid_world where
  "life_stopped = raid_bdev_module_stop_done (life_rb life_closed) (w_take (PendModuleStop ''r'') life_closed)"

definition life_gone :: raid_world where
  "life_gone = raid_bdev_io_device_unregister_cb (life_rb life_stopped)
     (w_take (PendIoUnregister ''r'') life_stopped)"

lemma raid_delete_completes_witness:
  "(raid_callback_step ''r'' ^^ 3) (raid_bdev_delete (life_rb life_mirror) (Some 11) life_mirror) life_gone \<and>
   raid_bdev_find_by_name ''r'' life_gone = None \<and>
   releases (w_log life_gone) = releases (w_log life_mirror) + mset [''a'', ''b'']"
proof -
  have found: "raid_bdev_find_by_name ''r'' life_offline = Some (life_rb life_offline)"
    "raid_bdev_find_by_name ''r'' life_closed = Some (life_rb life_closed)"
    "raid_bdev_find_by_name ''r'' life_stopped = Some (life_rb life_stopped)"
    by (rule life_found, code_simp)+
  have calls: "PendUnregister ''r'' (Some 11) \<in> set (w_pending life_offline)"
    "PendModuleStop ''r'' \<in> set (w_pending life_closed)"
    "PendIoUnregister ''r'' \<in> set (w_pending life_stopped)" by code_simp+
  have "raid_callback_step ''r'' life_offline life_closed"
    unfolding life_closed_def by (rule step_unregistered[OF calls(1) found(1)])
  moreover have "raid_callback_step ''r'' life_closed life_stopped"
    unfolding life_stopped_def by (rule step_stopped[OF calls(2) found(2)])
  moreover have "raid_callback_step ''r'' life_stopped life_gone"
    unfolding life_gone_def by (rule step_io_unregistered[OF calls(3) found(3)])
  ultimately have run: "(raid_callback_step ''r'' ^^ 3) life_offline life_gone"
    by (auto simp: numeral_3_eq_3)
  have on: "rb_state (life_rb life_mirror) = RAID_BDEV_STATE_ONLINE" "\<not> destroy_started (life_rb life_mirror)"
    "num_base_bdevs_discovered (life_rb life_mirror) \<noteq> 0" using mirror_online by simp_all
  have idle: "calls_of ''r'' (w_pending life_mirror) = []" by code_simp
  have none: "w_pending life_gone = []" by code_simp
  have members: "List.map_filter bi_desc (base_bdev_info (life_rb life_mirror)) = [''a'', ''b'']" by code_simp
  have "\<not> raid_callback_step ''r'' life_gone v'" for v'
    using none by (auto elim: raid_callback_stepE)
  then show ?thesis
    using raid_delete_completes[OF mirror_keeps reach_mirror find_mirror on idle, of 3 "Some 11" life_gone] run
    unfolding life_offline_def members by blast
qed

subsection \<open>Runs that go wrong\<close>

text \<open>The callbacks of one removal, in their order.\<close>

definition life_quiesced :: "nat \<Rightarrow> raid_world \<Rightarrow> raid_world" where
  "life_quiesced slot =
     on_raid (\<lambda>rb w. raid_bdev_remove_base_bdev_on_quiesced rb slot 0 (w_take (PendQuiesce ''r'' slot) w))"

definition life_walked :: "nat \<Rightarrow> raid_world \<Rightarrow> raid_world" where
  "life_walked slot =
     on_raid (\<lambda>rb w. raid_bdev_channels_remove_base_bdev_done rb slot (w_take (PendChannels ''r'' slot) w))"

definition life_unquiesced :: "nat \<Rightarrow> raid_world \<Rightarrow> raid_world" where
  "life_unquiesced slot =
     on_raid (\<lambda>rb w. raid_bdev_remove_base_bdev_on_unquiesced rb slot 0 (w_take (PendUnquiesce ''r'' slot) w))"

definition life_removed :: "nat \<Rightarrow> raid_world \<Rightarrow> raid_world" where
  "life_removed slot w = life_unquiesced slot (life_walked slot (life_quiesced slot w))"

lemma reach_removed:
  assumes w: "raid_reach serial ms w"
    and q: "PendQuiesce ''r'' slot \<in> set (w_pending w)"
    and c: "PendChannels ''r'' slot \<in> set (w_pending (life_quiesced slot w))"
    and u: "PendUnquiesce ''r'' slot \<in> set (w_pending (life_walked slot (life_quiesced slot w)))"
  shows "raid_reach serial ms (life_removed slot w)"
proof -
  have "raid_reach serial ms (life_quiesced slot w)"
    unfolding life_quiesced_def using w q by (intro reach_on_raid reach_quiesced)
  then have "raid_reach serial ms (life_walked slot (life_quiesced slot w))"
    unfolding life_walked_def using c by (intro reach_on_raid reach_channels)
  then show ?thesis
    unfolding life_removed_def life_unquiesced_def using u by (intro reach_on_raid reach_unquiesced)
qed

text \<open>Both base bdevs of a mirror are asked to go before either has gone.\<close>

definition life_removing :: raid_world where
  "life_removing = snd (raid_bdev_remove_base_bdev life_env ''b'' (Some 12)
     (snd (raid_bdev_remove_base_bdev life_env ''a'' (Some 11) life_mirror)))"

lemma reach_removing: "raid_reach False [g_raid1_module True] life_removing"
  unfolding life_removing_def by (intro reach_remove reach_mirror) simp_all

text \<open>Two overlapping removals leave a raid1 bdev online without any base bdev: each removal compares
  the number of discovered base bdevs with the minimum before the other one has lowered it.\<close>

theorem raid_overlapping_removals:
  "\<exists>w rb. raid_reach False [g_raid1_module True] w \<and> rb \<in> set (g_raid_bdev_list w) \<and>
     rb_state rb = RAID_BDEV_STATE_ONLINE \<and> min_base_bdevs_operational rb = 1 \<and>
     num_base_bdevs_discovered rb = 0 \<and> w_pending w = []"
proof -
  let ?w = "life_removed 1 (life_removed 0 life_removing)"
  have "raid_reach False [g_raid1_module True] (life_removed 0 life_removing)"
    by (rule reach_removed[OF reach_removing]) code_simp+
  then have "raid_reach False [g_raid1_module True] ?w"
    by (rule reach_removed) code_simp+
  moreover have "\<not> Option.is_none (raid_bdev_find_by_name ''r'' ?w)" by code_simp
  then have "life_rb ?w \<in> set (g_raid_bdev_list ?w)"
    using find_name_some[OF life_found] by blast
  moreover have "rb_state (life_rb ?w) = RAID_BDEV_STATE_ONLINE \<and>
      min_base_bdevs_operational (life_rb ?w) = 1 \<and>
      num_base_bdevs_discovered (life_rb ?w) = 0 \<and> w_pending ?w = []" by code_simp
  ultimately show ?thesis by blast
qed

text \<open>A base bdev of a concat bdev goes, so the bdev is being unregistered, and is deleted meanwhile.\<close>

definition life_unregistering :: raid_world where
  "life_unregistering = snd (raid_bdev_remove_base_bdev life_env ''a'' None life_concat)"

definition life_deleted :: raid_world where
  "life_deleted = on_raid (\<lambda>rb w. raid_bdev_delete rb (Some 13) w) life_unregistering"

text \<open>A deletion that comes while the raid bdev is being unregistered, because a base bdev has gone,
  frees it although the bdev layer will still call back for its destruction.\<close>

theorem raid_freed_while_unregistering:
  "\<exists>w. raid_reach True [g_concat_module True] w \<and> PendUnregister ''r'' None \<in> set (w_pending w) \<and>
     LogFree ''r'' \<in> set (w_log w) \<and> raid_bdev_find_by_name ''r'' w = None"
proof -
  have "removal_free ''a'' life_concat" by code_simp
  then have r: "raid_reach True [g_concat_module True] life_unregistering"
    unfolding life_unregistering_def by (intro reach_remove reach_concat) simp
  have "raid_reach True [g_concat_module True] life_deleted"
    unfolding life_deleted_def by (rule reach_on_raid[OF r]) (rule reach_delete[OF r])
  moreover have "PendUnregister ''r'' None \<in> set (w_pending life_deleted) \<and>
      LogFree ''r'' \<in> set (w_log life_deleted) \<and>
      Option.is_none (raid_bdev_find_by_name ''r'' life_deleted)" by code_simp
  ultimately show ?thesis by (auto simp: Option.is_none_def)
qed

end
