(* ===== verification/Raid5f_Roundtrip.thy ===== *)
theory Raid5f_Roundtrip
  imports Raid5f_Reconstruct
begin

text \<open>
  A stripe that has been written survives the loss of a base bdev: what a later read of the missing
  chunk delivers is what the write was given. The contents of the base bdevs go from the write to the
  read through \<open>write_disk\<close>.
\<close>

text \<open>What a base write leaves on the base bdevs, its bytes taken from memory.\<close>

definition write_disk ::
  "r5_env \<Rightarrow> (nat \<Rightarrow> u8) \<Rightarrow> base_io \<Rightarrow> (nat \<Rightarrow> nat \<Rightarrow> u8) \<Rightarrow> nat \<Rightarrow> nat \<Rightarrow> u8" where
  "write_disk e m b disk slot a =
     (let blk = 2 ^ unat (blocklen_shift (env_rb e)); start = unat (bio_lba b) * blk
      in if slot = bio_slot b \<and> start \<le> a \<and> a < start + unat (bio_blocks b) * blk
         then m (iov_addrs (bio_iovs b) ! (a - start)) else disk slot a)"

lemma write_disk_other:
  "slot \<notin> bio_slot ` set bs \<Longrightarrow> fold (write_disk e m) bs disk slot = disk slot"
  by (induction bs arbitrary: disk) (auto simp: write_disk_def fun_eq_iff Let_def)

lemma write_disk_slot:
  assumes "distinct (map bio_slot bs)" and "b \<in> set bs"
    and "k < unat (bio_blocks b) * 2 ^ unat (blocklen_shift (env_rb e))"
  shows "fold (write_disk e m) bs disk (bio_slot b)
      (unat (bio_lba b) * 2 ^ unat (blocklen_shift (env_rb e)) + k) = m (iov_addrs (bio_iovs b) ! k)"
  using assms
proof (induction bs arbitrary: disk)
  case (Cons x bs)
  show ?case
  proof (cases "b = x")
    case True
    then have "bio_slot b \<notin> bio_slot ` set bs" using Cons.prems(1) by simp
    then have eq: "fold (write_disk e m) (x # bs) disk (bio_slot b) = write_disk e m b disk (bio_slot b)"
      using True by (simp add: write_disk_other)
    show ?thesis unfolding eq using Cons.prems(3) by (simp add: write_disk_def Let_def)
  qed (use Cons in simp)
qed simp

text \<open>The data chunks in their order.\<close>

lemma data_chunks_nth:
  assumes "p < unat (num_base_bdevs rb)" and "d < unat (num_base_bdevs rb) - 1"
  shows "data_chunks rb p ! d = (if d < p then d else d + 1)"
proof -
  let ?n = "unat (num_base_bdevs rb)"
  have "[0..<?n] = [0..<p] @ p # [Suc p..<?n]"
    using assms(1) by (metis le_add1 upt_conv_Cons upt_add_eq_append add_0 less_imp_add_positive less_imp_le_nat zero_le)
  moreover have "filter (\<lambda>i. i \<noteq> p) [0..<p] = [0..<p]" "filter (\<lambda>i. i \<noteq> p) [Suc p..<?n] = [Suc p..<?n]"
    by (simp_all add: filter_id_conv)
  ultimately have "data_chunks rb p = [0..<p] @ [Suc p..<?n]" by (simp add: data_chunks_def)
  then show ?thesis using assms by (simp add: nth_append)
qed

text \<open>Where a block lies, for a request inside one chunk.\<close>

lemma raid5f_block_position:
  assumes g: "raid5f_geometry rb" and sz: "raid5f_sized rb strips" and off: "off < rb_blockcnt rb"
  defines "n \<equiv> unat (num_base_bdevs rb)" and "s \<equiv> unat (strip_size rb)"
    and "si \<equiv> off div stripe_blocks (raid5f_info_of rb)" and "so \<equiv> off mod stripe_blocks (raid5f_info_of rb)"
  defines "p \<equiv> unat (raid5f_stripe_parity_chunk_index rb si)"
  shows "unat so div s < n - 1" and "p < n"
    and "unat (raid5f_slot rb off) = data_chunks rb p ! (unat so div s)"
    and "unat (raid5f_lba rb off) = unat si * s + unat so mod s"
    and "unat (push_bit (unat (strip_size_shift rb)) si) = unat si * s"
    and "unat si < strips"
proof -
  have n: "1 < n" and s: "s = 2 ^ unat (strip_size_shift rb)"
    using g by (simp_all add: raid5f_geometry_def n_def s_def)
  have s0: "0 < s" by (simp add: s)
  have sb: "unat (stripe_blocks (raid5f_info_of rb)) = s * (n - 1)"
    and bc: "unat (rb_blockcnt rb) = strips * (s * (n - 1))"
    using sz by (simp_all add: raid5f_sized_def s_def n_def)
  have si: "unat si = unat off div (s * (n - 1))" and so: "unat so = unat off mod (s * (n - 1))"
    by (simp_all add: si_def so_def unat_div_word unat_mod_word sb)
  have lt: "unat so < s * (n - 1)" using s0 n by (simp add: so)
  show d: "unat so div s < n - 1" using lt by (simp add: less_mult_imp_div_less mult.commute)
  have p: "p = raid5f_parity n (unat si)" by (simp add: p_def raid5f_parity_index[OF g] n_def)
  show pn: "p < n" using parity_less n by (simp add: p)
  have map: "raid5f_map s n (unat off) = (unat (raid5f_slot rb off), unat (raid5f_lba rb off))"
    using raid5f_code_map[OF g sz] by (simp add: s_def n_def)
  show "unat (raid5f_slot rb off) = data_chunks rb p ! (unat so div s)"
    using map d pn data_chunks_nth[of p rb "unat so div s"]
    by (simp add: raid5f_map_def Let_def si so p n_def[symmetric] split: if_splits)
  show lba: "unat (raid5f_lba rb off) = unat si * s + unat so mod s"
    using map by (simp add: raid5f_map_def Let_def si so)
  have "unat off < strips * (s * (n - 1))" using off by (simp add: word_less_nat_alt bc)
  then show "unat si < strips" by (simp add: si less_mult_imp_div_less)
  have "unat si * s \<le> unat (raid5f_lba rb off)" by (simp add: lba)
  also have "\<dots> < 2 ^ 64" by (rule unat_u64_less)
  finally have "unat si * 2 ^ unat (strip_size_shift rb) < 2 ^ LENGTH(64)" by (simp add: s)
  then show "unat (push_bit (unat (strip_size_shift rb)) si) = unat si * s"
    by (simp add: unat_push_bit_no_wrap s)
qed

text \<open>The base bdevs after a write of all chunks.\<close>

lemma written_disk:
  fixes e :: r5_env and w :: r5_world and sid :: nat
  defines "rb \<equiv> env_rb e" and "s \<equiv> r5_stripes w sid" and "n \<equiv> unat (num_base_bdevs (env_rb e))"
  defines "blk \<equiv> 2 ^ unat (blocklen_shift rb)"
  assumes present: "\<forall>i < n. base_channel (env_ch e) ! i \<noteq> None"
    and sub: "bs = map (\<lambda>i. raid_bdev_writev_blocks_ext rb i (base_channel (env_ch e) ! i) (ck_used (sr_chunks s ! i))
                 (ck_md_buf (sr_chunks s ! i)) lba (ucast (strip_size rb)))
        (filter (\<lambda>i. base_channel (env_ch e) ! i \<noteq> None) [0..<n])"
    and i: "i < n" and k: "k < unat (strip_size rb) * blk"
  shows "fold (write_disk e m) bs disk i (unat (data_offset (base_bdev_info rb ! i) + lba) * blk + k) =
    m (data_addrs s i ! k)"
proof -
  define f where "f i = raid_bdev_writev_blocks_ext rb i (base_channel (env_ch e) ! i) (ck_used (sr_chunks s ! i))
    (ck_md_buf (sr_chunks s ! i)) lba (ucast (strip_size rb))" for i
  have "filter (\<lambda>i. base_channel (env_ch e) ! i \<noteq> None) [0..<n] = [0..<n]"
    using present by (simp add: filter_id_conv)
  then have bs: "bs = map f [0..<n]" by (simp add: sub f_def[abs_def])
  have slot: "bio_slot (f j) = j" for j by (simp add: f_def raid_bdev_writev_blocks_ext_def)
  have "distinct (map bio_slot bs)" by (simp add: bs comp_def slot)
  moreover have "f i \<in> set bs" using i by (simp add: bs)
  moreover have "k < unat (bio_blocks (f i)) * 2 ^ unat (blocklen_shift (env_rb e))"
    using k by (simp add: f_def raid_bdev_writev_blocks_ext_def blk_def rb_def)
  ultimately have "fold (write_disk e m) bs disk (bio_slot (f i))
      (unat (bio_lba (f i)) * 2 ^ unat (blocklen_shift (env_rb e)) + k) = m (iov_addrs (bio_iovs (f i)) ! k)"
    by (rule write_disk_slot)
  then show ?thesis
    by (simp add: slot) (simp add: f_def raid_bdev_writev_blocks_ext_def blk_def rb_def data_addrs_def)
qed

text \<open>Where a block of a stripe lies on each of the members: in the strip that the stripe has there.\<close>

lemma raid5f_member_address:
  assumes g: "raid5f_geometry rb" and sz: "raid5f_sized rb strips" and off: "off < rb_blockcnt rb"
    and i: "i < length (base_bdev_info rb)"
    and fit: "\<forall>i \<in> set (base_bdev_info rb). unat (data_offset i) + unat (data_size i) < 2 ^ 64"
  defines "s \<equiv> unat (strip_size rb)" and "si \<equiv> off div stripe_blocks (raid5f_info_of rb)"
    and "so \<equiv> off mod stripe_blocks (raid5f_info_of rb)" and "D \<equiv> data_offset (base_bdev_info rb ! i)"
  shows "unat (D + raid5f_lba rb off) = unat (D + push_bit (unat (strip_size_shift rb)) si) + unat so mod s"
proof -
  note pos = raid5f_block_position[OF g sz off, folded si_def so_def s_def]
  have "base_bdev_info rb ! i \<in> set (base_bdev_info rb)" using i by simp
  then have "unat D + strips * s < 2 ^ 64" using sz fit by (force simp: raid5f_sized_def s_def D_def)
  moreover have "Suc (unat si) * s \<le> strips * s" using pos(6) by (intro mult_right_mono) simp_all
  moreover have "unat so mod s < s" using g by (simp add: raid5f_geometry_def s_def)
  ultimately have "unat D + unat (raid5f_lba rb off) < 2 ^ LENGTH(64)"
    and "unat D + unat (push_bit (unat (strip_size_shift rb)) si) < 2 ^ LENGTH(64)"
    unfolding mult_Suc pos(4,5) len64 by linarith+
  then show ?thesis by (simp only: unat_plus_no_wrap pos(4,5) add.assoc)
qed

text \<open>The blocks of one chunk of a stripe, as a full-stripe write has left them.\<close>

lemma raid5f_written_blocks:
  fixes e1 :: r5_env and sid1 io1 :: nat and v0 v :: r5_world and disk :: "nat \<Rightarrow> nat \<Rightarrow> u8"
  defines "rb \<equiv> env_rb e1" and "wr \<equiv> env_io e1 io1"
  defines "n \<equiv> unat (num_base_bdevs rb)" and "s \<equiv> unat (strip_size rb)"
    and "blk \<equiv> 2 ^ unat (blocklen_shift rb)" and "stripe \<equiv> stripe_blocks (raid5f_info_of rb)"
  assumes sz: "raid5f_sized rb strips" and infos: "length (base_bdev_info rb) = n"
    and fit: "\<forall>i \<in> set (base_bdev_info rb). unat (data_offset i) + unat (data_size i) < 2 ^ 64"
  assumes w_req: "r5_write_request e1 sid1 io1 v0" and w_acc: "r5_accepting e1"
    and healthy: "\<forall>i < n. base_channel (env_ch e1) ! i \<noteq> None"
    and aligned: "offset_blocks wr mod stripe = 0"
    and w_run: "accel_reach e1 (raid5f_submit_rw_request e1 io1 v0) v" "xor_jobs v = []"
  assumes off: "off < rb_blockcnt rb" and same: "off div stripe = offset_blocks wr div stripe"
    and k: "unat (off mod stripe) mod s * blk + k < s * blk"
  defines "disk' \<equiv> fold (write_disk e1 (r5_mem v)) (submitted_of (rio_events (r5_ios v io1))) disk"
  defines "at i \<equiv> unat (data_offset (base_bdev_info rb ! i) + raid5f_lba rb off) * blk + k"
  defines "flip i \<equiv> poison_flip e1 (r5_stripes v sid1)
    (data_addrs (r5_stripes v sid1) i ! (unat (off mod stripe) mod s * blk + k))"
  shows "xor_all (map (\<lambda>i. disk' i (at i)) [0..<n]) = xor_all (map flip [0..<n])"
    and "disk' (unat (raid5f_slot rb off)) (at (unat (raid5f_slot rb off))) =
      r5_mem v0 (iov_addrs (iovs wr) ! (unat (off mod stripe) * blk + k)) XOR flip (unat (raid5f_slot rb off))"
    and "unat (raid5f_slot rb off) < n"
proof -
  define si where "si = offset_blocks wr div stripe"
  define so where "so = unat (off mod stripe)"
  define p where "p = unat (raid5f_stripe_parity_chunk_index rb si)"
  let ?A = "data_addrs (r5_stripes v sid1)" and ?k = "so mod s * blk + k"
  have k': "?k < s * blk" using k by (simp add: so_def)
  have g: "raid5f_geometry rb" using w_req by (simp add: r5_write_request_def Let_def rb_def)
  have pos: "so div s < n - 1" "p < n" "unat (raid5f_slot rb off) = data_chunks rb p ! (so div s)"
    using raid5f_block_position(1-3)[OF g sz off, folded stripe_def] unfolding same
    by (simp_all add: si_def so_def p_def n_def s_def)
  then have par: "base_channel (env_ch e1) ! p \<noteq> None" using healthy by simp
  note W = r5_write_stripe[OF w_req w_acc _ w_run, folded rb_def wr_def, folded stripe_def n_def, folded si_def,
      folded p_def, OF par, folded s_def blk_def]
  have sub: "submitted_of (rio_events (r5_ios v io1)) =
      map (\<lambda>i. raid_bdev_writev_blocks_ext rb i (base_channel (env_ch e1) ! i) (ck_used (sr_chunks (r5_stripes v sid1) ! i))
            (ck_md_buf (sr_chunks (r5_stripes v sid1) ! i)) (push_bit (unat (strip_size_shift rb)) si) (ucast (strip_size rb)))
        (filter (\<lambda>i. base_channel (env_ch e1) ! i \<noteq> None) [0..<n])"
    using W by blast
  have stored: "disk' i (at i) = r5_mem v (?A i ! ?k)" if "i < n" for i
  proof -
    have at: "at i = unat (data_offset (base_bdev_info rb ! i) + push_bit (unat (strip_size_shift rb)) si) * blk + ?k"
      using raid5f_member_address[OF g sz off _ fit, of i, folded stripe_def] that
      by (simp add: at_def infos same si_def so_def s_def add_mult_distrib)
    show ?thesis
      using written_disk[OF healthy[unfolded n_def rb_def] sub[unfolded n_def rb_def], of i ?k "r5_mem v" disk] that k'
      unfolding at by (simp add: n_def rb_def s_def blk_def disk'_def)
  qed
  then have "map (\<lambda>i. disk' i (at i)) [0..<n] = map (\<lambda>i. r5_mem v (?A i ! ?k)) [0..<n]" by simp
  moreover have "xor_all (map (\<lambda>i. r5_mem v (?A i ! ?k)) [0..<n]) = xor_all (map flip [0..<n])"
    using W k' unfolding flip_def so_def by blast
  ultimately show "xor_all (map (\<lambda>i. disk' i (at i)) [0..<n]) = xor_all (map flip [0..<n])" by (simp only:)
  show slot: "unat (raid5f_slot rb off) < n"
    using pos data_chunks_nth[of p rb "so div s"] by (auto simp: n_def)
  have "so div s * (s * blk) + ?k = (so div s * s + so mod s) * blk + k"
    by (simp only: add_mult_distrib mult.assoc add.assoc)
  then have addr: "so div s * (s * blk) + ?k = unat (off mod stripe) * blk + k" by (simp add: so_def)
  have "r5_mem v (?A (data_chunks rb p ! (so div s)) ! ?k) =
      r5_mem v0 (iov_addrs (iovs wr) ! (so div s * (s * blk) + ?k)) XOR flip (data_chunks rb p ! (so div s))"
    using W pos(1) k' unfolding flip_def so_def by blast
  then show "disk' (unat (raid5f_slot rb off)) (at (unat (raid5f_slot rb off))) =
      r5_mem v0 (iov_addrs (iovs wr) ! (unat (off mod stripe) * blk + k)) XOR flip (unat (raid5f_slot rb off))"
    unfolding stored[OF slot] unfolding pos(3) addr .
qed

text \<open>
  The healthy bdev is written by \<open>e1\<close>, the degraded one is read by \<open>e2\<close>; the requests are \<open>wr\<close> and \<open>rd\<close>.
\<close>

text \<open>No null handle is passed down as long as the members are there.\<close>

lemma r5_write_handles:
  assumes req: "r5_write_request e sid io w0" and acc: "r5_accepting e"
    and par: "base_channel (env_ch e) ! unat (raid5f_stripe_parity_chunk_index (env_rb e)
      (offset_blocks (env_io e io) div stripe_blocks (raid5f_info_of (env_rb e)))) \<noteq> None"
    and run: "accel_reach e (raid5f_submit_rw_request e io w0) w" "xor_jobs w = []"
    and desc: "\<forall>i < unat (num_base_bdevs (env_rb e)). bi_desc (base_bdev_info (env_rb e) ! i) \<noteq> None"
    and b: "b \<in> set (submitted_of (rio_events (r5_ios w io)))"
  shows "\<not> null_handle b"
  using b desc unfolding r5_write_stripe[OF req acc par run, THEN conjunct1]
  by (auto simp: null_handle_def raid_bdev_writev_blocks_ext_def)

lemma r5_degraded_handles:
  fixes e :: r5_env and sid io :: nat and w0 :: r5_world
  defines "ws \<equiv> raid5f_submit_rw_request e io w0"
    and "c \<equiv> unat (raid5f_slot (env_rb e) (offset_blocks (env_io e io)))"
  assumes "bdev_io_type (env_io e io) = IO_READ" and "r5_recon_request e sid io c w0" and "r5_accepting e"
    and "base_channel (env_ch e) ! c = None"
    and there: "\<forall>i < unat (num_base_bdevs (env_rb e)). i \<noteq> c \<longrightarrow>
      bi_desc (base_bdev_info (env_rb e) ! i) \<noteq> None \<and> base_channel (env_ch e) ! i \<noteq> None"
    and b: "b \<in> set (submitted_of (new_events io w0 ws))"
  shows "\<not> null_handle b"
  using b there r5_degraded_start[of e io sid w0, folded ws_def c_def, OF assms(3-6)]
  by (auto simp: null_handle_def r5_recon_reads_def raid_bdev_readv_blocks_ext_def data_chunks_def)

text \<open>The exclusive or of all but one.\<close>

lemma xor_all_rest:
  assumes "distinct xs" and "p \<in> set xs" and "xor_all (map f xs) = xor_all (map g xs)"
  shows "xor_all (map f (filter (\<lambda>i. i \<noteq> p) xs)) = (f p XOR g p) XOR xor_all (map g (filter (\<lambda>i. i \<noteq> p) xs))"
proof -
  have "f p XOR xor_all (map f (filter (\<lambda>i. i \<noteq> p) xs)) = g p XOR xor_all (map g (filter (\<lambda>i. i \<noteq> p) xs))"
    using assms(3) by (simp add: xor_all_split[OF assms(1,2)])
  then have "f p XOR (f p XOR xor_all (map f (filter (\<lambda>i. i \<noteq> p) xs))) =
      f p XOR (g p XOR xor_all (map g (filter (\<lambda>i. i \<noteq> p) xs)))" by simp
  then show ?thesis by (simp add: xor.assoc[symmetric])
qed

text \<open>C4: what a full-stripe write has stored is what later reads of any of its chunks deliver after the base
  bdev of that chunk has been lost: the bytes in the read's buffers are the bytes that the write's
  buffers held at the same logical blocks, reconstructed from what the write has left on the other
  base bdevs, provided the write has not flipped a bit. The code flips one, in one chunk of a thousand,
  on purpose and after the parity has been computed; then what the read delivers differs from what was
  written by the flip at the same place of the other chunks, the parity chunk included, without any
  error. A flip in the lost chunk itself does no harm.\<close>

theorem raid5f_write_survives_failure:
  fixes e1 e2 :: r5_env and sid1 sid2 io1 io2 :: nat and v0 v w0 w :: r5_world
    and disk :: "nat \<Rightarrow> nat \<Rightarrow> u8"
  defines "rb \<equiv> env_rb e1" and "wr \<equiv> env_io e1 io1" and "rd \<equiv> env_io e2 io2"
  defines "n \<equiv> unat (num_base_bdevs rb)" and "s \<equiv> unat (strip_size rb)"
    and "blk \<equiv> 2 ^ unat (blocklen_shift rb)" and "stripe \<equiv> stripe_blocks (raid5f_info_of rb)"
  assumes sz: "raid5f_sized rb strips" and infos: "length (base_bdev_info rb) = n"
    and fit: "\<forall>i \<in> set (base_bdev_info rb). unat (data_offset i) + unat (data_size i) < 2 ^ 64"
  assumes w_req: "r5_write_request e1 sid1 io1 v0" and w_acc: "r5_accepting e1"
    and healthy: "\<forall>i < n. base_channel (env_ch e1) ! i \<noteq> None"
    and aligned: "offset_blocks wr mod stripe = 0"
    and w_run: "accel_reach e1 (raid5f_submit_rw_request e1 io1 v0) v" "xor_jobs v = []"
  assumes same: "env_rb e2 = rb" and r_ty: "bdev_io_type rd = IO_READ" and r_acc: "r5_accepting e2"
    and inside: "offset_blocks rd < rb_blockcnt rb" "offset_blocks rd div stripe = offset_blocks wr div stripe"
      "unat (offset_blocks rd mod stripe) mod s + unat (num_blocks rd) \<le> s"
    and lost: "base_channel (env_ch e2) ! unat (raid5f_slot rb (offset_blocks rd)) = None"
    and others: "\<forall>i < n. i \<noteq> unat (raid5f_slot rb (offset_blocks rd)) \<longrightarrow> base_channel (env_ch e2) ! i \<noteq> None"
    and opened: "\<forall>i < n. bi_desc (base_bdev_info rb ! i) \<noteq> None"
    and r_req: "r5_recon_request e2 sid2 io2 (unat (raid5f_slot rb (offset_blocks rd))) w0"
  defines "disk' \<equiv> fold (write_disk e1 (r5_mem v)) (submitted_of (rio_events (r5_ios v io1))) disk"
    and "ws \<equiv> raid5f_submit_rw_request e2 io2 w0"
  assumes r_run: "r5_recon_reach e2 sid2 disk' ws (submitted_of (new_events io2 w0 ws)) w []"
    "xor_jobs w = []"
  defines "flip \<equiv> \<lambda>k i. poison_flip e1 (r5_stripes v sid1)
    (data_addrs (r5_stripes v sid1) i ! (unat (offset_blocks rd mod stripe) mod s * blk + k))"
  shows "(\<forall>b \<in> set (submitted_of (rio_events (r5_ios v io1)) @ submitted_of (new_events io2 w0 ws)).
      \<not> null_handle b) \<and>
    (\<forall>k < unat (num_blocks rd) * blk. r5_mem w (iov_addrs (iovs rd) ! k) =
      r5_mem v0 (iov_addrs (iovs wr) ! (unat (offset_blocks rd mod stripe) * blk + k)) XOR
        xor_all (map (flip k) (data_chunks rb (unat (raid5f_slot rb (offset_blocks rd)))))) \<and>
    ((\<forall>i < n. \<not> env_poison e1 i) \<longrightarrow>
      (\<forall>k < unat (num_blocks rd) * blk. r5_mem w (iov_addrs (iovs rd) ! k) =
         r5_mem v0 (iov_addrs (iovs wr) ! (unat (offset_blocks rd mod stripe) * blk + k))))"
proof -
  have g: "raid5f_geometry rb" using w_req by (simp add: r5_write_request_def Let_def rb_def)
  have in_chunk: "unat (offset_blocks rd mod stripe) mod s * blk + k < s * blk" if "k < unat (num_blocks rd) * blk" for k
  proof -
    have "(unat (offset_blocks rd mod stripe) mod s + unat (num_blocks rd)) * blk \<le> s * blk"
      using inside(3) by (intro mult_right_mono) simp_all
    then show ?thesis using that unfolding add_mult_distrib by linarith
  qed
  note written = raid5f_written_blocks[OF sz[unfolded rb_def] infos[unfolded rb_def n_def] fit[unfolded rb_def]
      w_req w_acc healthy[unfolded rb_def n_def] aligned[unfolded wr_def rb_def stripe_def] w_run
      inside(1)[unfolded rb_def], folded rb_def wr_def, folded n_def s_def blk_def stripe_def, OF inside(2) in_chunk]
  let ?c = "unat (raid5f_slot rb (offset_blocks rd))"
  define ad where "ad k i = unat (data_offset (base_bdev_info rb ! i) + raid5f_lba rb (offset_blocks rd)) * blk + k" for k i
  note R = r5_degraded_bytes[where e = e2 and sid = sid2 and io = io2 and disk = disk' and w = w and out = "[]"
      and ?w0.0 = w0, unfolded same, folded rd_def ws_def, OF r_ty r_req r_acc lost r_run(1), folded blk_def]
  have bytes: "\<forall>k < unat (num_blocks rd) * blk. r5_mem w (iov_addrs (iovs rd) ! k) =
      r5_mem v0 (iov_addrs (iovs wr) ! (unat (offset_blocks rd mod stripe) * blk + k)) XOR
        xor_all (map (flip k) (data_chunks rb ?c))"
  proof (intro allI impI)
    fix k assume k: "k < unat (num_blocks rd) * blk"
    have all: "xor_all (map (\<lambda>i. disk' i (ad k i)) [0..<n]) = xor_all (map (flip k) [0..<n])"
      and here: "disk' ?c (ad k ?c) =
        r5_mem v0 (iov_addrs (iovs wr) ! (unat (offset_blocks rd mod stripe) * blk + k)) XOR flip k ?c"
      and c: "?c \<in> set [0..<n]"
      using written[OF k] by (simp_all add: disk'_def flip_def ad_def)
    have "r5_mem w (iov_addrs (iovs rd) ! k) = xor_all (map (\<lambda>i. disk' i (ad k i)) (data_chunks rb ?c))"
      using R r_run(2) k by (simp add: ad_def)
    also have "\<dots> = (disk' ?c (ad k ?c) XOR flip k ?c) XOR xor_all (map (flip k) (data_chunks rb ?c))"
      using xor_all_rest[OF distinct_upt c all] by (simp add: data_chunks_def n_def)
    also have "disk' ?c (ad k ?c) XOR flip k ?c =
        r5_mem v0 (iov_addrs (iovs wr) ! (unat (offset_blocks rd mod stripe) * blk + k))"
      by (simp add: here xor.assoc)
    finally show "r5_mem w (iov_addrs (iovs rd) ! k) =
      r5_mem v0 (iov_addrs (iovs wr) ! (unat (offset_blocks rd mod stripe) * blk + k)) XOR
        xor_all (map (flip k) (data_chunks rb ?c))" .
  qed
  have "flip k = (\<lambda>i. 0)" if "\<forall>i < n. \<not> env_poison e1 i" for k
    using poison_flip_none[of e1] that by (auto simp: flip_def poison_here_def n_def rb_def)
  then have "\<forall>k < unat (num_blocks rd) * blk. r5_mem w (iov_addrs (iovs rd) ! k) =
      r5_mem v0 (iov_addrs (iovs wr) ! (unat (offset_blocks rd mod stripe) * blk + k))"
    if "\<forall>i < n. \<not> env_poison e1 i"
    using bytes that by (simp add: xor_all_zeros)
  moreover have "\<not> null_handle b" if "b \<in> set (submitted_of (rio_events (r5_ios v io1)))" for b
    by (rule r5_write_handles[OF w_req w_acc _ w_run _ that])
      (use healthy opened raid5f_block_position(2)[OF g sz inside(1)] inside(2) in
        \<open>simp_all add: rb_def wr_def n_def stripe_def\<close>)
  moreover have "\<not> null_handle b" if "b \<in> set (submitted_of (new_events io2 w0 ws))" for b
    by (rule r5_degraded_handles[where e = e2 and sid = sid2 and io = io2 and ?w0.0 = w0, unfolded same, folded rd_def ws_def,
        OF r_ty r_req r_acc lost _ that])
      (use others opened in \<open>simp add: n_def\<close>)
  ultimately show ?thesis using bytes by auto
qed

subsection \<open>A concrete failure\<close>

lemma r5_degraded_finishes:
  assumes "bdev_io_type (env_io e io) = IO_READ" and req: "r5_recon_request e sid io c w0"
    and acc: "r5_accepting e" and "base_channel (env_ch e) ! c = None"
    and c: "c = unat (raid5f_slot (env_rb e) (offset_blocks (env_io e io)))"
  defines "ws \<equiv> raid5f_submit_rw_request e io w0"
  shows "\<exists>w. r5_recon_reach e sid disk ws (submitted_of (new_events io w0 ws)) w [] \<and> xor_jobs w = []"
proof -
  note start = r5_degraded_start[OF assms(1) req[unfolded c] acc assms(4)[unfolded c], folded c ws_def]
  show ?thesis
    unfolding start(2) r5_recon_reads_def
    by (rule r5_recon_finishes[OF req start(1) acc]) (rule recon_sent)
qed

lemma raid5f_write_survives_failure_witness:
  "\<exists>v w. accel_reach r5_healthy_env (raid5f_submit_rw_request r5_healthy_env 0 r5_healthy_world) v \<and>
     r5_recon_reach r5_missing_env 2
       (fold (write_disk r5_healthy_env (r5_mem v)) (submitted_of (rio_events (r5_ios v 0))) (\<lambda>_ _. 0))
       (raid5f_submit_rw_request r5_missing_env 0 r5_example_world)
       (submitted_of (new_events 0 r5_example_world (raid5f_submit_rw_request r5_missing_env 0 r5_example_world))) w [] \<and>
     r5_mem w 403 = 46"
proof -
  let ?e1 = r5_healthy_env and ?e2 = r5_missing_env and ?rb = raid5f_example_started
  have rb: "env_rb ?e1 = ?rb" "env_rb ?e2 = ?rb" "env_io ?e1 0 = r5_example_write" "env_io ?e2 0 = r5_example_read"
    "base_channel (env_ch ?e1) = [Some 11, Some 12, Some 13]"
    by (simp_all add: r5_example_env_def)
  have geo: "unat (raid5f_slot ?rb (offset_blocks r5_example_read)) = 0"
    using r5_missing_geometry(1) unfolding rb .
  have n: "unat (num_base_bdevs ?rb) = 3" by code_simp
  have healthy: "\<forall>i < unat (num_base_bdevs (env_rb ?e1)). base_channel (env_ch ?e1) ! i \<noteq> None"
    unfolding rb n by (auto simp: less_Suc_eq numeral_3_eq_3)
  have par: "base_channel (env_ch ?e1) ! unat (raid5f_stripe_parity_chunk_index (env_rb ?e1)
      (offset_blocks (env_io ?e1 0) div stripe_blocks (raid5f_info_of (env_rb ?e1)))) \<noteq> None"
    unfolding rb by code_simp
  obtain v where v: "accel_reach ?e1 (raid5f_submit_rw_request ?e1 0 r5_healthy_world) v" "xor_jobs v = []"
    using r5_write_finishes[OF r5_healthy_request r5_healthy_accepting par] by blast
  let ?disk = "fold (write_disk ?e1 (r5_mem v)) (submitted_of (rio_events (r5_ios v 0))) (\<lambda>_ _. 0)"
  let ?ws = "raid5f_submit_rw_request ?e2 0 r5_example_world"
  have ty: "bdev_io_type (env_io ?e2 0) = IO_READ" unfolding rb by (simp add: r5_example_read_def)
  have miss: "base_channel (env_ch ?e2) ! 0 = None" by (simp add: r5_example_env_def)
  obtain w where w: "r5_recon_reach ?e2 2 ?disk ?ws (submitted_of (new_events 0 r5_example_world ?ws)) w []" "xor_jobs w = []"
    using r5_degraded_finishes[OF ty r5_missing_request r5_missing_accepting miss r5_missing_geometry(1)[symmetric]]
    by blast
  have sz: "raid5f_sized (env_rb ?e1) 2" "length (base_bdev_info (env_rb ?e1)) = unat (num_base_bdevs (env_rb ?e1))"
    unfolding rb using raid5f_example_started_ok by simp_all
  have fit: "\<forall>i \<in> set (base_bdev_info (env_rb ?e1)). unat (data_offset i) + unat (data_size i) < 2 ^ 64"
    unfolding rb by (simp add: raid5f_example_started_def raid5f_start_def raid5f_example_def
        raid5f_stripe_data_chunks_num_def zero_base_bdev_info_def)
  have al: "offset_blocks (env_io ?e1 0) mod stripe_blocks (raid5f_info_of (env_rb ?e1)) = 0"
    and ins: "offset_blocks (env_io ?e2 0) < rb_blockcnt (env_rb ?e1)"
      "offset_blocks (env_io ?e2 0) div stripe_blocks (raid5f_info_of (env_rb ?e1)) =
       offset_blocks (env_io ?e1 0) div stripe_blocks (raid5f_info_of (env_rb ?e1))"
      "unat (offset_blocks (env_io ?e2 0) mod stripe_blocks (raid5f_info_of (env_rb ?e1))) mod
       unat (strip_size (env_rb ?e1)) + unat (num_blocks (env_io ?e2 0)) \<le> unat (strip_size (env_rb ?e1))"
    and vals: "unat (num_blocks (env_io ?e2 0)) = 2" "2 ^ unat (blocklen_shift (env_rb ?e1)) = (4 :: nat)"
      "unat (offset_blocks (env_io ?e2 0) mod stripe_blocks (raid5f_info_of (env_rb ?e1))) = 1"
    unfolding rb by code_simp+
  have same: "env_rb ?e2 = env_rb ?e1" unfolding rb by (rule refl)
  have slot: "unat (raid5f_slot (env_rb ?e1) (offset_blocks (env_io ?e2 0))) = 0" unfolding rb by (rule geo)
  have others: "\<forall>i < unat (num_base_bdevs (env_rb ?e1)). i \<noteq> 0 \<longrightarrow> base_channel (env_ch ?e2) ! i \<noteq> None"
    unfolding rb n by (auto simp: less_Suc_eq numeral_3_eq_3 r5_example_env_def)
  have "\<forall>i \<in> set [0, 1, 2]. bi_desc (base_bdev_info ?rb ! i) \<noteq> None" by code_simp
  then have opened: "\<forall>i < unat (num_base_bdevs (env_rb ?e1)). bi_desc (base_bdev_info (env_rb ?e1) ! i) \<noteq> None"
    unfolding rb n by (auto simp: less_Suc_eq numeral_3_eq_3 numeral_2_eq_2)
  have clean: "\<forall>i < unat (num_base_bdevs (env_rb ?e1)). \<not> env_poison ?e1 i" by (simp add: r5_example_env_def)
  note kept = raid5f_write_survives_failure[OF sz fit r5_healthy_request r5_healthy_accepting healthy al v same ty
      r5_missing_accepting ins, unfolded slot, OF miss others opened r5_missing_request w]
  have "r5_mem w (iov_addrs (iovs (env_io ?e2 0)) ! 3) =
      r5_mem r5_healthy_world (iov_addrs (iovs (env_io ?e1 0)) ! (1 * 4 + 3))"
    using kept[THEN conjunct2, THEN conjunct2, THEN mp, OF clean, rule_format, of 3] unfolding vals by simp
  moreover have "iov_addrs (iovs (env_io ?e2 0)) ! 3 = 403" unfolding rb by (simp add: r5_example_read_def)
  moreover have "iov_addrs (iovs (env_io ?e1 0)) ! (1 * 4 + 3) = 302" unfolding rb by code_simp
  ultimately have "r5_mem w 403 = r5_mem r5_healthy_world 302" by simp
  also have "\<dots> = 46" by (simp add: r5_healthy_world_def)
  finally have "r5_mem w 403 = 46" .
  then show ?thesis by (intro exI[of _ v] exI[of _ w] conjI v(1) w(1))
qed

end
