(* ===== verification/Raid5f_Checked.thy ===== *)
theory Raid5f_Checked
  imports Raid5f_Reconstruct
begin

text \<open>
  A read whose base bdev is there. \<open>raid5f_submit_read_request\<close> reads the chunk, and when it is back
  \<open>raid5f_chunk_read_complete\<close> starts a reconstruction of the same chunk into the same buffers: the parity
  check on reads. What it delivers, and what becomes of a request for which there is no stripe request.
\<close>

definition checked_read_filled :: "r5_env \<Rightarrow> nat \<Rightarrow> (nat \<Rightarrow> nat \<Rightarrow> u8) \<Rightarrow> base_io \<Rightarrow> r5_world \<Rightarrow> r5_world" where
  "checked_read_filled e io disk b w =
     w\<lparr>r5_mem := fill_memory (iov_addrs (iovs (env_io e io))) (read_bytes e disk b) (r5_mem w)\<rparr>"

text \<open>A reconstruction does not depend on the memory, on the base I/Os already sent or on the arguments of
  callbacks.\<close>

lemma r5_recon_request_elsewhere:
  assumes "r5_recon_request e sid io c w"
    and "r5_stripes w' = r5_stripes w" "free_reconstruct w' = free_reconstruct w"
      "xor_jobs w' = xor_jobs w" "xor_retry_queue w' = xor_retry_queue w"
    and "r5_ios w' io = (r5_ios w io)\<lparr>rio_events := evs\<rparr>" "completions_of evs = []"
  shows "r5_recon_request e sid io c w'"
  using assms(1) unfolding r5_recon_request_def Let_def assms(2-6) by (simp add: assms(7))

lemma checked_read_submit:
  fixes e :: r5_env and io :: nat and w0 :: r5_world
  defines "rb \<equiv> env_rb e" and "bio \<equiv> env_io e io"
  defines "si \<equiv> offset_blocks bio div stripe_blocks (raid5f_info_of rb)"
    and "so \<equiv> offset_blocks bio mod stripe_blocks (raid5f_info_of rb)"
  assumes ty: "bdev_io_type bio = IO_READ" and rc: "\<forall>b. env_rc e b = 0"
    and there: "base_channel (env_ch e) ! unat (raid5f_slot rb (offset_blocks bio)) \<noteq> None"
  shows "raid5f_submit_rw_request e io w0 =
    r5_io io (rio_emit (EvSubmit (raid5f_read_base_io e io si so))) (w0\<lparr>read_cb_args := read_cb_args w0 + 1\<rparr>)"
  using ty rc there
  by (auto simp: raid5f_submit_rw_request_def raid5f_submit_read_request_def Let_def bdev_submit_def
      raid5f_slot_def bio_def rb_def si_def so_def)

lemma checked_read_start:
  fixes e :: r5_env and sid io :: nat and w :: r5_world and b :: base_io
  defines "rb \<equiv> env_rb e" and "bio \<equiv> env_io e io"
  defines "si \<equiv> offset_blocks bio div stripe_blocks (raid5f_info_of rb)"
    and "so \<equiv> offset_blocks bio mod stripe_blocks (raid5f_info_of rb)"
  defines "c \<equiv> unat (raid5f_slot rb (offset_blocks bio))"
  assumes req: "r5_recon_request e sid io c w" and acc: "r5_accepting e"
  defines "wc \<equiv> raid5f_chunk_read_complete e io si so True b w"
  shows "r5_recon_sent e sid io c (w\<lparr>read_cb_args := read_cb_args w - 1\<rparr>) wc"
    and "submitted_of (new_events io w wc) = r5_recon_reads e sid c wc"
    and "chunk_base_io e (r5_stripes wc sid) i = raid_bdev_readv_blocks_ext rb i (base_channel (env_ch e) ! i)
      (ck_used (sr_chunks (r5_stripes wc sid) ! i)) (ck_md_buf (sr_chunks (r5_stripes wc sid) ! i))
      (raid5f_lba rb (offset_blocks bio)) (num_blocks bio)"
proof -
  let ?w = "w\<lparr>read_cb_args := read_cb_args w - 1\<rparr>"
  have req': "r5_recon_request e sid io c ?w"
    by (rule r5_recon_request_elsewhere[OF req, where evs = "rio_events (r5_ios w io)"])
      (use req in \<open>simp_all add: r5_recon_request_def Let_def\<close>)
  have ci: "unat (raid5f_chunk_idx rb si so) = c" by (simp add: c_def raid5f_slot_def si_def so_def)
  have lba: "push_bit (unat (strip_size_shift rb)) si + raid5f_chunk_offset rb so = raid5f_lba rb (offset_blocks bio)"
    by (simp add: raid5f_lba_def si_def so_def)
  obtain w1 where w1: "raid5f_submit_reconstruct_read e io si (raid5f_chunk_idx rb si so)
      (raid5f_chunk_offset rb so) (Some (bio_iovs b)) ?w = (0, w1)"
    "r5_recon_sent e sid io c ?w w1"
    "\<forall>i. chunk_base_io e (r5_stripes w1 sid) i = raid_bdev_readv_blocks_ext rb i (base_channel (env_ch e) ! i)
         (ck_used (sr_chunks (r5_stripes w1 sid) ! i)) (ck_md_buf (sr_chunks (r5_stripes w1 sid) ! i))
         (raid5f_lba rb (offset_blocks bio)) (num_blocks bio)"
    using r5_recon_start[OF req' acc ci] lba unfolding rb_def bio_def by metis
  have wc: "wc = w1" using w1(1) by (simp add: wc_def raid5f_chunk_read_complete_def rb_def)
  have "new_events io w w1 = new_events io ?w w1" by (simp add: new_events_def)
  then show "r5_recon_sent e sid io c ?w wc" "submitted_of (new_events io w wc) = r5_recon_reads e sid c wc"
    using w1(2) r5_recon_new by (simp_all add: wc)
  show "chunk_base_io e (r5_stripes wc sid) i = raid_bdev_readv_blocks_ext rb i (base_channel (env_ch e) ! i)
      (ck_used (sr_chunks (r5_stripes wc sid) ! i)) (ck_md_buf (sr_chunks (r5_stripes wc sid) ! i))
      (raid5f_lba rb (offset_blocks bio)) (num_blocks bio)"
    using w1(3) by (simp add: wc)
qed

text \<open>Without a free stripe request the check ends before it has begun, and nothing is left that would
  complete the request: the result of \<open>raid5f_submit_reconstruct_read\<close> is dropped.\<close>

lemma checked_read_starved:
  assumes "free_reconstruct w = []"
  shows "raid5f_chunk_read_complete e io si so True b w = w\<lparr>read_cb_args := read_cb_args w - 1\<rparr>"
  using assms by (simp add: raid5f_chunk_read_complete_def raid5f_submit_reconstruct_read_def)

text \<open>A base read that is refused keeps the argument of its callback, each time it is tried.\<close>

lemma checked_read_refused:
  assumes "env_rc e (raid5f_read_base_io e io si so) \<noteq> 0"
    and "base_channel (env_ch e) ! unat (raid5f_chunk_idx (env_rb e) si so) \<noteq> None"
  shows "read_cb_args (snd (raid5f_submit_read_request e io si so w)) = read_cb_args w + 1"
  using assms by (auto simp: raid5f_submit_read_request_def bdev_submit_def Let_def r5_io_def)

text \<open>C6: a read whose base bdev is there, when the layers below take everything: it is sent to that base
  bdev, and when its bytes are in the request's buffers the same blocks are read from all the others. If
  all of them are there, the buffers are overwritten with the XOR of what they hold, in whatever order
  reads and parity jobs end; the two results are never compared: the request completes once, always with
  success, and what it delivers does not depend on the base bdev that holds the blocks. If another one
  is missing, the check is begun all the same: a base read with a null descriptor or channel is handed to the bdev
  layer, where the program crashes, on a read that the bdev of its blocks has already answered.\<close>

theorem raid5f_checked_read_result:
  fixes e :: r5_env and sid io :: nat and w0 :: r5_world and disk :: "nat \<Rightarrow> nat \<Rightarrow> u8"
  defines "rb \<equiv> env_rb e" and "bio \<equiv> env_io e io"
  defines "si \<equiv> offset_blocks bio div stripe_blocks (raid5f_info_of rb)"
    and "so \<equiv> offset_blocks bio mod stripe_blocks (raid5f_info_of rb)"
  defines "c \<equiv> unat (raid5f_slot rb (offset_blocks bio))" and "lba \<equiv> raid5f_lba rb (offset_blocks bio)"
    and "t \<equiv> unat (num_blocks bio) * 2 ^ unat (blocklen_shift rb)"
  defines "addr \<equiv> \<lambda>i. unat (data_offset (base_bdev_info rb ! i) + lba) * 2 ^ unat (blocklen_shift rb)"
  defines "b \<equiv> raid5f_read_base_io e io si so" and "ws \<equiv> raid5f_submit_rw_request e io w0"
  defines "wd \<equiv> checked_read_filled e io disk b ws"
  defines "wc \<equiv> raid5f_chunk_read_complete e io si so True b wd"
  assumes ty: "bdev_io_type bio = IO_READ" and req: "r5_recon_request e sid io c w0" and acc: "r5_accepting e"
    and there: "base_channel (env_ch e) ! c \<noteq> None" "bi_desc (base_bdev_info rb ! c) \<noteq> None"
    and run: "r5_recon_reach e sid disk wc (submitted_of (new_events io wd wc)) w out"
  shows "new_events io w0 ws = [EvSubmit b] \<and>
    (bio_type b, bio_slot b, bio_lba b, bio_blocks b) =
      (IO_READ, c, data_offset (base_bdev_info rb ! c) + lba, num_blocks bio) \<and> \<not> null_handle b \<and>
    (\<forall>k < t. r5_mem wd (iov_addrs (iovs bio) ! k) = disk c (addr c + k)) \<and>
    map (\<lambda>b. (bio_type b, bio_slot b, bio_lba b, bio_blocks b)) (submitted_of (new_events io wd wc)) =
      map (\<lambda>i. (IO_READ, i, data_offset (base_bdev_info rb ! i) + lba, num_blocks bio)) (data_chunks rb c) \<and>
    map (\<lambda>b. (bio_desc b, bio_ch b)) (submitted_of (new_events io wd wc)) =
      map (\<lambda>i. (bi_desc (base_bdev_info rb ! i), base_channel (env_ch e) ! i)) (data_chunks rb c) \<and>
    (if \<exists>i \<in> set (data_chunks rb c). bi_desc (base_bdev_info rb ! i) = None \<or> base_channel (env_ch e) ! i = None
     then \<exists>b \<in> set (submitted_of (new_events io wd wc)). null_handle b
     else (\<forall>b \<in> set (submitted_of (new_events io wd wc)). \<not> null_handle b) \<and>
       (\<exists>w'. r5_recon_reach e sid disk wc (submitted_of (new_events io wd wc)) w' [] \<and> xor_jobs w' = []) \<and>
       (if out \<noteq> [] \<or> xor_jobs w \<noteq> [] then completions_of (rio_events (r5_ios w io)) = []
        else completions_of (rio_events (r5_ios w io)) = [STATUS_SUCCESS] \<and>
          free_reconstruct w = free_reconstruct w0 \<and>
          (\<forall>k < t. r5_mem w (iov_addrs (iovs bio) ! k) =
             xor_all (map (\<lambda>i. disk i (addr i + k)) (data_chunks rb c)))))"
proof -
  have rc: "\<forall>b. env_rc e b = 0" using acc by (simp add: r5_accepting_def)
  have ws: "ws = r5_io io (rio_emit (EvSubmit b)) (w0\<lparr>read_cb_args := read_cb_args w0 + 1\<rparr>)"
    using checked_read_submit[of e io w0] ty rc there(1)
    by (simp add: ws_def b_def si_def so_def bio_def rb_def c_def)
  have t: "length (iov_addrs (iovs bio)) = t" and dis: "distinct (iov_addrs (iovs bio))"
    and none: "completions_of (rio_events (r5_ios w0 io)) = []"
    using req by (simp_all add: r5_recon_request_def Let_def t_def bio_def rb_def)
  have b: "bio_type b = IO_READ" "bio_slot b = c" "bio_lba b = data_offset (base_bdev_info rb ! c) + lba"
    "bio_blocks b = num_blocks bio"
    by (simp_all add: b_def raid5f_read_base_io_def raid_bdev_readv_blocks_ext_def Let_def c_def lba_def
        raid5f_slot_def raid5f_lba_def si_def so_def bio_def rb_def)
  have nb: "\<not> null_handle b"
    using there by (simp add: null_handle_def b_def raid5f_read_base_io_def raid_bdev_readv_blocks_ext_def Let_def
        c_def raid5f_slot_def si_def so_def bio_def rb_def)
  have filled: "\<forall>k < t. r5_mem wd (iov_addrs (iovs bio) ! k) = disk c (addr c + k)"
    using t dis b by (simp add: wd_def checked_read_filled_def bio_def[symmetric] fill_memory_nth read_bytes_def addr_def rb_def)
  have same: "free_reconstruct wd = free_reconstruct w0"
    by (simp add: wd_def checked_read_filled_def ws r5_io_def)
  have reqf: "r5_recon_request e sid io c wd"
    by (rule r5_recon_request_elsewhere[OF req, where evs = "rio_events (r5_ios w0 io) @ [EvSubmit b]"])
      (simp_all add: wd_def checked_read_filled_def ws r5_io_def rio_emit_def none)
  have reqf': "r5_recon_request e sid io c (wd\<lparr>read_cb_args := read_cb_args wd - 1\<rparr>)"
    by (rule r5_recon_request_elsewhere[OF reqf, where evs = "rio_events (r5_ios wd io)"])
      (use reqf in \<open>simp_all add: r5_recon_request_def Let_def\<close>)
  note start = checked_read_start[of e sid io wd b, folded rb_def bio_def, folded si_def so_def c_def lba_def,
      folded wc_def, OF reqf acc]
  have bytes: "read_bytes e disk (chunk_base_io e (r5_stripes wc sid) i) k = disk i (addr i + k)" for i k
    by (simp add: start(3) read_bytes_def raid_bdev_readv_blocks_ext_def addr_def rb_def)
  have 1: "new_events io w0 ws = [EvSubmit b]" by (simp add: new_events_def ws r5_io_def rio_emit_def)
  have 2: "map (\<lambda>b. (bio_type b, bio_slot b, bio_lba b, bio_blocks b)) (submitted_of (new_events io wd wc)) =
      map (\<lambda>i. (IO_READ, i, data_offset (base_bdev_info rb ! i) + lba, num_blocks bio)) (data_chunks rb c)"
    by (simp add: start(2,3) r5_recon_reads_def raid_bdev_readv_blocks_ext_def rb_def)
  have subs: "submitted_of (new_events io wd wc) = map (chunk_base_io e (r5_stripes wc sid)) (data_chunks rb c)"
    by (simp add: start(2) r5_recon_reads_def rb_def)
  have handles: "(bio_desc (chunk_base_io e (r5_stripes wc sid) i), bio_ch (chunk_base_io e (r5_stripes wc sid) i)) =
      (bi_desc (base_bdev_info rb ! i), base_channel (env_ch e) ! i)" for i
    by (simp add: start(3) raid_bdev_readv_blocks_ext_def rb_def)
  have 5: "map (\<lambda>b. (bio_desc b, bio_ch b)) (submitted_of (new_events io wd wc)) =
      map (\<lambda>i. (bi_desc (base_bdev_info rb ! i), base_channel (env_ch e) ! i)) (data_chunks rb c)"
    unfolding subs list.map_comp comp_def handles by (rule refl)
  have 6: "(\<exists>b \<in> set (submitted_of (new_events io wd wc)). null_handle b) \<longleftrightarrow>
      (\<exists>i \<in> set (data_chunks rb c). bi_desc (base_bdev_info rb ! i) = None \<or> base_channel (env_ch e) ! i = None)"
    unfolding subs using handles by (auto simp: null_handle_def)
  have 3: "\<exists>w'. r5_recon_reach e sid disk wc (submitted_of (new_events io wd wc)) w' [] \<and> xor_jobs w' = []"
    unfolding start(2) r5_recon_reads_def
    by (rule r5_recon_finishes[OF reqf' start(1) acc]) (rule recon_sent)
  have 4: "if out \<noteq> [] \<or> xor_jobs w \<noteq> [] then completions_of (rio_events (r5_ios w io)) = []
     else completions_of (rio_events (r5_ios w io)) = [STATUS_SUCCESS] \<and>
       free_reconstruct w = free_reconstruct w0 \<and>
       (\<forall>k < t. r5_mem w (iov_addrs (iovs bio) ! k) =
          xor_all (map (\<lambda>i. disk i (addr i + k)) (data_chunks rb c)))"
    using r5_recon_result[OF reqf' start(1) acc run[unfolded start(2)], folded rb_def bio_def, folded t_def]
    by (simp add: bytes same)
  have 7: "if \<exists>i \<in> set (data_chunks rb c). bi_desc (base_bdev_info rb ! i) = None \<or> base_channel (env_ch e) ! i = None
     then \<exists>b \<in> set (submitted_of (new_events io wd wc)). null_handle b
     else (\<forall>b \<in> set (submitted_of (new_events io wd wc)). \<not> null_handle b) \<and>
       (\<exists>w'. r5_recon_reach e sid disk wc (submitted_of (new_events io wd wc)) w' [] \<and> xor_jobs w' = []) \<and>
       (if out \<noteq> [] \<or> xor_jobs w \<noteq> [] then completions_of (rio_events (r5_ios w io)) = []
        else completions_of (rio_events (r5_ios w io)) = [STATUS_SUCCESS] \<and>
          free_reconstruct w = free_reconstruct w0 \<and>
          (\<forall>k < t. r5_mem w (iov_addrs (iovs bio) ! k) =
             xor_all (map (\<lambda>i. disk i (addr i + k)) (data_chunks rb c))))"
    unfolding 6[symmetric] by (rule iffD2[OF if_bool_eq_conj]) (use 3 4 in blast)
  show ?thesis using b by (intro conjI 1 2 5 7 nb filled) simp
qed

subsection \<open>A parity computation that is tried again\<close>

text \<open>The pointers of the next XOR are kept in the channel, not in the stripe request. When the accel framework
  has no room for the job of \<open>sid\<close>, which waits, and takes the one of \<open>other\<close>, the job of \<open>sid\<close> that is
  submitted later works on the buffers of \<open>other\<close>.\<close>

definition xor_begun :: "r5_env \<Rightarrow> nat \<Rightarrow> r5_world \<Rightarrow> r5_world" where
  "xor_begun e sid w =
     (let s = r5_stripes w sid;
          iovss = map (\<lambda>i. ck_used (sr_chunks s ! i)) (xor_sources (env_rb e) s @ [xor_dest_chunk s])
      in r5_stripe sid
           (\<lambda>s. s\<lparr>xor_remaining := xor_num_blocks e s * 2 ^ unat (blocklen_shift (env_rb e)), xor_status := 0\<rparr>)
           (xor_next_segment sid (r5_stripe sid (\<lambda>s. s\<lparr>xor_iters := env_segments e iovss\<rparr>) w)))"

lemma xor_begun_simps [simp]:
  "xor_jobs (xor_begun e sid w) = xor_jobs w" "xor_retry_queue (xor_begun e sid w) = xor_retry_queue w"
  "sr_raid_io (r5_stripes (xor_begun e sid w) i) = sr_raid_io (r5_stripes w i)"
  "xor_remaining_md (r5_stripes (xor_begun e sid w) i) = xor_remaining_md (r5_stripes w i)"
  by (simp_all add: xor_begun_def xor_next_segment_def r5_stripe_def Let_def split: list.split)

lemma raid5f_xor_stripe_plain:
  assumes "md_buf (env_io e (sr_raid_io (r5_stripes w sid))) = None"
  shows "raid5f_xor_stripe e sid w = raid5f_xor_stripe_continue e sid (xor_begun e sid w)"
  using assms xor_begun_simps(3)[of e sid w sid]
  by (simp add: raid5f_xor_stripe_def xor_stripe_md_def xor_begun_def Let_def del: xor_begun_simps)

lemma xor_retry_takes_other_buffers:
  fixes e e' :: r5_env and sid other :: nat and w :: r5_world
  defines "w1 \<equiv> snd (raid5f_xor_stripe e sid w)"
  defines "w2 \<equiv> snd (raid5f_xor_stripe e other w1)"
  assumes md: "md_buf (env_io e (sr_raid_io (r5_stripes w sid))) = None"
      "md_buf (env_io e (sr_raid_io (r5_stripes w other))) = None" "xor_remaining_md (r5_stripes w sid) = 0"
    and rc: "env_accel e sid False = - ENOMEM" "env_accel e other False = 0"
    and later: "env_rb e' = env_rb e" "env_accel e' sid False = 0"
  shows "xor_retry_queue w2 = sid # xor_retry_queue w \<and>
    (\<exists>job. xor_jobs w2 = xor_jobs w @ [job] \<and> job_stripe job = other \<and>
       xor_jobs (snd (raid5f_xor_stripe_retry e' sid w2)) =
         xor_jobs w @ [job, job\<lparr>job_stripe := sid, job_len := xor_len (r5_stripes w2 sid)\<rparr>])"
proof -
  have w1: "w1 = (xor_begun e sid w)\<lparr>xor_retry_queue := sid # xor_retry_queue w\<rparr>"
    by (simp add: w1_def raid5f_xor_stripe_plain[OF md(1)] raid5f_xor_stripe_continue_def Let_def rc)
  have md2: "md_buf (env_io e (sr_raid_io (r5_stripes w1 other))) = None" using md(2) by (simp add: w1)
  let ?n = "unat (raid5f_stripe_data_chunks_num (env_rb e))" and ?b = "xor_begun e other w1"
  define job where "job = \<lparr>job_stripe = other, job_md = False, job_dest = chunk_xor_buffers ?b ! ?n,
      job_srcs = take ?n (chunk_xor_buffers ?b), job_len = xor_len (r5_stripes ?b other)\<rparr>"
  have w2: "w2 = ?b\<lparr>xor_jobs := xor_jobs w1 @ [job]\<rparr>"
    by (simp add: w2_def raid5f_xor_stripe_plain[OF md2] raid5f_xor_stripe_continue_def Let_def rc job_def)
  have rm: "xor_remaining_md (r5_stripes w1 sid) = 0" using md(3) by (simp add: w1)
  have "xor_jobs (snd (raid5f_xor_stripe_retry e' sid w2)) =
      xor_jobs w2 @ [job\<lparr>job_stripe := sid, job_len := xor_len (r5_stripes w2 sid)\<rparr>]"
    by (simp add: raid5f_xor_stripe_retry_def raid5f_xor_stripe_continue_def Let_def w2 rm later job_def)
  then show ?thesis by (simp add: w2 w1 job_def)
qed

subsection \<open>A base read of a reconstruction that is refused\<close>

text \<open>A reconstruction counts one part for every base bdev, its own among them. When a base read is refused,
  the parts that have not been submitted are counted without it: one part stays open for ever.
  \<open>flight\<close> reads are under way.\<close>

lemma reconstruction_refused:
  fixes e :: r5_env and sid i flight :: nat and w :: r5_world
  defines "s \<equiv> r5_stripes w sid" and "n \<equiv> unat (num_base_bdevs (env_rb e))"
  defines "rio \<equiv> r5_ios w (sr_raid_io s)" and "w' \<equiv> snd (raid5f_chunk_submit e sid i w)"
  assumes s: "sr_type s = STRIPE_REQ_RECONSTRUCT" "i \<noteq> sr_chunk s" and g: "raid5f_geometry (env_rb e)"
    and i: "i < n" "unat (base_bdev_io_submitted rio) = i" "unat (base_bdev_io_remaining rio) = n - i + flight"
    and rc: "env_rc e (chunk_base_io e s i) \<noteq> 0" "env_rc e (chunk_base_io e s i) \<noteq> - ENOMEM"
  shows "unat (base_bdev_io_remaining (r5_ios w' (sr_raid_io s))) = flight + 1"
    and "rio_events (r5_ios w' (sr_raid_io s)) = rio_events rio"
    and "sr_raid_io (r5_stripes w' sid) = sr_raid_io s"
proof -
  have n: "1 < n" using g by (simp add: raid5f_geometry_def n_def)
  have step: "r5_ios w' (sr_raid_io s) = chunk_fail e s rio" "same_stripe s (r5_stripes w' sid)"
    using chunk_submit_step(1,5)[where w = w and sid = sid and e = e and i = i] rc s
    by (auto simp: w'_def s_def rio_def chunk_skipped_def)
  have dn: "unat (raid5f_stripe_data_chunks_num (env_rb e)) = n - 1"
    using g by (simp add: raid5f_stripe_data_chunks_num_def raid5f_geometry_def n_def)
  have "uint (raid5f_stripe_data_chunks_num (env_rb e)) - uint (base_bdev_io_submitted rio) = int (n - 1 - i)"
    unfolding uint_nat dn i(2) using i(1) by (simp add: of_nat_diff)
  then have left: "chunks_left e s rio = of_nat (n - 1 - i)" by (simp add: chunks_left_def s(1) del: of_nat_diff)
  have "n < 256" unfolding n_def by (rule unat_u8_less)
  then have u: "unat (of_nat (n - 1 - i) :: u64) = n - 1 - i" by (intro unat_of_nat_u64) simp
  have rem: "unat (base_bdev_io_remaining rio - of_nat (n - 1 - i)) = flight + 1"
    using i u by (subst unat_minus_no_wrap) simp_all
  then have "base_bdev_io_remaining rio \<noteq> of_nat (n - 1 - i)" by auto
  then show "unat (base_bdev_io_remaining (r5_ios w' (sr_raid_io s))) = flight + 1"
    and "rio_events (r5_ios w' (sr_raid_io s)) = rio_events rio"
    unfolding step(1) chunk_fail_def left using rem by simp_all
  show "sr_raid_io (r5_stripes w' sid) = sr_raid_io s" using same_stripeD[OF step(2)] by simp
qed

text \<open>When all reads under way are back, whatever their status, the request is not completed and its stripe
  request is not free again.\<close>

lemma refused_reconstruction_read_back:
  fixes e :: r5_env and sid :: nat and w :: r5_world and sts :: "io_status list"
  defines "io \<equiv> \<lambda>w. r5_ios w (sr_raid_io (r5_stripes w sid))"
  assumes "unat (base_bdev_io_remaining (io w)) = length sts + 1"
  defines "w' \<equiv> fold (raid5f_stripe_request_chunk_read_complete e sid) sts w"
  shows "unat (base_bdev_io_remaining (io w')) = 1 \<and> rio_events (io w') = rio_events (io w) \<and>
    free_reconstruct w' = free_reconstruct w"
  using assms(2) unfolding w'_def
proof (induction sts arbitrary: w)
  case (Cons st sts)
  let ?w = "raid5f_stripe_request_chunk_read_complete e sid st w"
  have rem: "unat (base_bdev_io_remaining (io w)) = length sts + 2" using Cons.prems by simp
  then have "base_bdev_io_remaining (io w) \<noteq> 1" by auto
  then have "io ?w = snd (raid_bdev_io_complete_part 1 st (io w))" "free_reconstruct ?w = free_reconstruct w"
    by (simp_all add: io_def raid5f_stripe_request_chunk_read_complete_def r5_complete_part_def r5_io_def Let_def)
  moreover have "unat (base_bdev_io_remaining (io w) - 1) = length sts + 1"
    using rem by (subst unat_minus_no_wrap) simp_all
  ultimately show ?case using Cons.IH[of ?w] \<open>base_bdev_io_remaining (io w) \<noteq> 1\<close> by simp
qed simp

lemma refused_reconstruction_hangs:
  fixes e :: r5_env and sid i :: nat and w :: r5_world and sts :: "io_status list"
  defines "s \<equiv> r5_stripes w sid" and "n \<equiv> unat (num_base_bdevs (env_rb e))"
  defines "rio \<equiv> r5_ios w (sr_raid_io s)"
  defines "w' \<equiv> fold (raid5f_stripe_request_chunk_read_complete e sid) sts (snd (raid5f_chunk_submit e sid i w))"
  assumes "sr_type s = STRIPE_REQ_RECONSTRUCT" "i \<noteq> sr_chunk s" "raid5f_geometry (env_rb e)"
    and "i < n" "unat (base_bdev_io_submitted rio) = i" "unat (base_bdev_io_remaining rio) = n - i + length sts"
    and "env_rc e (chunk_base_io e s i) \<noteq> 0" "env_rc e (chunk_base_io e s i) \<noteq> - ENOMEM"
  shows "rio_events (r5_ios w' (sr_raid_io (r5_stripes w' sid))) = rio_events rio"
  using reconstruction_refused[where w = w and sid = sid and i = i and e = e and flight = "length sts"] assms
    refused_reconstruction_read_back[where w = "snd (raid5f_chunk_submit e sid i w)" and sid = sid and e = e and sts = sts]
  by simp

subsection \<open>A concrete read\<close>

text \<open>The read of \<open>r5_missing_env\<close> with its base bdev there. The first base bdev holds what was written, the
  third one does not: the byte that is delivered is wrong, and the read succeeds.\<close>

definition r5_checked_env :: r5_env where
  "r5_checked_env = (r5_example_env [Some 11, Some 12, Some 13] (\<lambda>_. r5_example_read))
     \<lparr>env_segments := bytewise_segments\<rparr>"

definition r5_spoiled_disk :: "nat \<Rightarrow> nat \<Rightarrow> u8" where
  "r5_spoiled_disk slot a =
     (if slot = 0 then of_nat a else if slot = 1 then 5 else of_nat a XOR 5 XOR 1)"

text \<open>The read is back, and the check has begun.\<close>

definition r5_checked_io :: base_io where
  "r5_checked_io = raid5f_read_base_io r5_checked_env 0
     (offset_blocks r5_example_read div stripe_blocks (raid5f_info_of (env_rb r5_checked_env)))
     (offset_blocks r5_example_read mod stripe_blocks (raid5f_info_of (env_rb r5_checked_env)))"

definition r5_checked_back :: r5_world where
  "r5_checked_back = checked_read_filled r5_checked_env 0 r5_spoiled_disk r5_checked_io
     (raid5f_submit_rw_request r5_checked_env 0 r5_example_world)"

definition r5_checked_begun :: r5_world where
  "r5_checked_begun = raid5f_chunk_read_complete r5_checked_env 0
     (offset_blocks r5_example_read div stripe_blocks (raid5f_info_of (env_rb r5_checked_env)))
     (offset_blocks r5_example_read mod stripe_blocks (raid5f_info_of (env_rb r5_checked_env))) True r5_checked_io
     r5_checked_back"

lemma r5_checked_env_parts:
  "env_rb r5_checked_env = env_rb r5_missing_env" "env_io r5_checked_env = env_io r5_missing_env"
  by (simp_all add: r5_checked_env_def r5_example_env_def)

lemma r5_checked_accepting: "r5_accepting r5_checked_env"
  using bytewise_ioviter_spec[of "r5_example_env [Some 11, Some 12, Some 13] (\<lambda>_. r5_example_read)"]
  by (simp add: r5_accepting_def r5_checked_env_def r5_example_env_def)

lemma r5_checked_request: "r5_recon_request r5_checked_env 2 0 0 r5_example_world"
  using r5_missing_request by (simp add: r5_recon_request_def r5_checked_env_parts)

lemma raid5f_checked_read_result_witness:
  "\<exists>w. r5_recon_reach r5_checked_env 2 r5_spoiled_disk r5_checked_begun
      (submitted_of (new_events 0 r5_checked_back r5_checked_begun)) w [] \<and>
     completions_of (rio_events (r5_ios w 0)) = [STATUS_SUCCESS] \<and> r5_spoiled_disk 0 23 = 23 \<and> r5_mem w 403 = 22"
proof -
  let ?e = r5_checked_env
  have ty: "bdev_io_type (env_io ?e 0) = IO_READ" and there: "base_channel (env_ch ?e) ! 0 \<noteq> None"
      "bi_desc (base_bdev_info (env_rb ?e) ! 0) \<noteq> None"
    and others: "\<forall>i \<in> set [1, 2]. bi_desc (base_bdev_info (env_rb ?e) ! i) \<noteq> None \<and>
      base_channel (env_ch ?e) ! i \<noteq> None"
    and t: "unat (num_blocks (env_io ?e 0)) = 2" "2 ^ unat (blocklen_shift (env_rb ?e)) = (4 :: nat)"
      "data_chunks (env_rb ?e) 0 = [1, 2]"
      "data_offset (base_bdev_info (env_rb ?e) ! 1) = 0" "data_offset (base_bdev_info (env_rb ?e) ! 2) = 0"
      "iov_addrs (iovs (env_io ?e 0)) ! 3 = 403"
    by code_simp+
  have io: "env_io ?e 0 = r5_example_read" by (simp add: r5_checked_env_def r5_example_env_def)
  note geometry = r5_missing_geometry[folded r5_checked_env_parts]
  note result = raid5f_checked_read_result[OF ty, unfolded geometry(1), OF r5_checked_request
      r5_checked_accepting there, where disk = r5_spoiled_disk, unfolded io, folded r5_checked_io_def,
      folded r5_checked_back_def, folded r5_checked_begun_def]
  have "\<not> (\<exists>i \<in> set (data_chunks (env_rb ?e) 0).
      bi_desc (base_bdev_info (env_rb ?e) ! i) = None \<or> base_channel (env_ch ?e) ! i = None)"
    unfolding t(3) using others by blast
  note checked = result[unfolded if_not_P[OF this]]
  obtain w where w: "r5_recon_reach ?e 2 r5_spoiled_disk r5_checked_begun
      (submitted_of (new_events 0 r5_checked_back r5_checked_begun)) w []" "xor_jobs w = []"
    using checked[OF recon_sent] by blast
  have "completions_of (rio_events (r5_ios w 0)) = [STATUS_SUCCESS]"
    and bytes: "r5_mem w (iov_addrs (iovs r5_example_read) ! 3) =
      xor_all (map (\<lambda>i. r5_spoiled_disk i (unat (data_offset (base_bdev_info (env_rb ?e) ! i) +
        raid5f_lba (env_rb ?e) (offset_blocks r5_example_read)) * 2 ^ unat (blocklen_shift (env_rb ?e)) + 3))
        (data_chunks (env_rb ?e) 0))"
    using checked[OF w(1)] w(2) t(1,2)[unfolded io] by simp_all
  moreover have "r5_mem w 403 = 22"
    using bytes t geometry(2) unfolding io by (simp add: r5_spoiled_disk_def)
  ultimately show ?thesis using w(1) by (auto simp: r5_spoiled_disk_def)
qed

end
