(* ===== verification/Comp_Run.thy ===== *)
theory Comp_Run
  imports Raid_Prelude
begin

text \<open>
  The world of the compression code (\<open>bdev-passthru-compress/compress\<close>, \<open>doca-compression\<close>): results of
  C functions, the heap, the file system, and the answers of the libraries below (DOCA, zlib, libc).

  A C function either returns, never returns (it polls for ever) or has undefined behaviour (it reads
  or writes outside a block, uses a variable it never wrote, frees what is not a live block): the three
  constructors of \<open>run\<close>. Heap blocks are numbered; the content of a block is its list of bytes, so
  that its length is its size.
\<close>

subsection \<open>Results\<close>

datatype 'a run = Returns 'a | Hangs | Undefined

primrec run_bind :: "'a run \<Rightarrow> ('a \<Rightarrow> 'b run) \<Rightarrow> 'b run" where
  "run_bind (Returns x) f = f x"
| "run_bind Hangs f = Hangs"
| "run_bind Undefined f = Undefined"

lemma run_bind_Returns [simp]: "run_bind m f = Returns y \<longleftrightarrow> (\<exists>x. m = Returns x \<and> f x = Returns y)"
  by (cases m) simp_all

lemma run_bind_assoc: "run_bind (run_bind m f) g = run_bind m (\<lambda>x. run_bind (f x) g)"
  by (cases m) simp_all

subsection \<open>Types of the libraries\<close>

datatype doca_error =
  DOCA_SUCCESS | DOCA_ERROR_AGAIN | DOCA_ERROR_NO_MEMORY | DOCA_ERROR_IO_FAILED
  | DOCA_ERROR_INVALID_VALUE | DOCA_ERROR_BAD_STATE | DOCA_ERROR_OTHER nat

datatype doca_job_type = DOCA_COMPRESS_DEFLATE_JOB | DOCA_DECOMPRESS_DEFLATE_JOB

datatype file_compression_compress_method = COMPRESS_DEFLATE_HW | COMPRESS_DEFLATE_SW

datatype doca_call =
  SetSrcMemrange | SetSrcFreeCb | StartSrcMmap | GetSrcBuf | SetDstMemrange | SetDstFreeCb
  | StartDstMmap | GetDstBuf | SubmitJob
  | LogBackend | CompressCreate | OpenDevice | InitCoreObjects | DestroyCoreObjects | CompressDestroy

datatype zlib_call = DeflateNoFlush | DeflateFinish | DeflateEnd | InflateSyncFlush | InflateFinish | InflateEnd

abbreviation MAX_WBITS :: int where "MAX_WBITS \<equiv> 15"
abbreviation Z_STREAM_END :: int where "Z_STREAM_END \<equiv> 1"

text \<open>Pointers: to a heap block, to the mapping of a file, to a buffer of somebody else, to the stack.\<close>

datatype ptr = PNull | PHeap nat | PMapped string | PForeign nat | PStack

subsection \<open>State and answers\<close>

record comp_world =
  cw_files :: "string \<Rightarrow> u8 list option"
  cw_heap :: "nat \<Rightarrow> u8 list option"
  cw_next :: nat
  cw_doca_bufs :: nat
  cw_open_fds :: nat
  cw_log :: "(doca_call \<times> doca_error) list"
  cw_unmapped :: "(ptr \<times> nat) list"
  total_compressed_bytes :: u64
  total_decompressed_bytes :: u64

text \<open>
  What one activation meets: the answers of DOCA (with those of the polls of the work queue, in their
  order), what a job yields for its source and the size of its destination (result, bytes written,
  checksum), the answers of zlib and the bytes it produces, whether the block of a number can be
  allocated and what \<open>malloc\<close> leaves in it, whether a file can be opened, looked at and mapped, how much
  of a write is written, and what is on the stack.
\<close>

record comp_env =
  dv_rc :: "doca_call \<Rightarrow> doca_error"
  dv_progress :: "nat \<Rightarrow> doca_error"
  dv_job :: "doca_job_type \<Rightarrow> u8 list \<Rightarrow> nat \<Rightarrow> doca_error \<times> u8 list \<times> u64"
  dv_zlib :: "zlib_call \<Rightarrow> int \<Rightarrow> u8 list \<Rightarrow> nat \<Rightarrow> int"
  dv_zout :: "zlib_call \<Rightarrow> int \<Rightarrow> u8 list \<Rightarrow> nat \<Rightarrow> u8 list"
  dv_crc32 :: "u8 list \<Rightarrow> u32"
  dv_adler32 :: "u8 list \<Rightarrow> u32"
  dv_alloc :: "nat \<Rightarrow> bool"
  dv_malloc :: "nat \<Rightarrow> nat \<Rightarrow> u8"
  dv_open :: "string \<Rightarrow> bool"
  dv_fstat :: "string \<Rightarrow> bool"
  dv_mmap :: "string \<Rightarrow> bool"
  dv_write :: "string \<Rightarrow> nat \<Rightarrow> int"
  dv_stack :: "u8 list"

subsection \<open>Heap\<close>

definition heap_calloc :: "comp_env \<Rightarrow> nat \<Rightarrow> comp_world \<Rightarrow> ptr \<times> comp_world" where
  "heap_calloc e n w =
     (if dv_alloc e (cw_next w)
      then (PHeap (cw_next w), w\<lparr>cw_heap := (cw_heap w)(cw_next w \<mapsto> replicate n 0), cw_next := cw_next w + 1\<rparr>)
      else (PNull, w\<lparr>cw_next := cw_next w + 1\<rparr>))"

text \<open>\<open>dv_malloc\<close> gives the bytes that are found in the block.\<close>

definition heap_malloc :: "comp_env \<Rightarrow> nat \<Rightarrow> comp_world \<Rightarrow> ptr \<times> comp_world" where
  "heap_malloc e n w =
     (if dv_alloc e (cw_next w)
      then (PHeap (cw_next w),
            w\<lparr>cw_heap := (cw_heap w)(cw_next w \<mapsto> map (dv_malloc e (cw_next w)) [0..<n]),
              cw_next := cw_next w + 1\<rparr>)
      else (PNull, w\<lparr>cw_next := cw_next w + 1\<rparr>))"

definition heap_free :: "ptr \<Rightarrow> comp_world \<Rightarrow> comp_world run" where
  "heap_free p w =
     (case p of
        PNull \<Rightarrow> Returns w
      | PHeap a \<Rightarrow> (case cw_heap w a of
                     None \<Rightarrow> Undefined
                   | Some _ \<Rightarrow> Returns (w\<lparr>cw_heap := (cw_heap w)(a := None)\<rparr>))
      | _ \<Rightarrow> Undefined)"

text \<open>\<open>n\<close> bytes of a block from an offset on.\<close>

definition heap_read :: "comp_world \<Rightarrow> ptr \<Rightarrow> nat \<Rightarrow> nat \<Rightarrow> u8 list run" where
  "heap_read w p off n =
     (case p of
        PHeap a \<Rightarrow> (case cw_heap w a of
                     None \<Rightarrow> Undefined
                   | Some bs \<Rightarrow> if off + n \<le> length bs then Returns (take n (drop off bs)) else Undefined)
      | _ \<Rightarrow> Undefined)"

definition heap_write :: "ptr \<Rightarrow> nat \<Rightarrow> u8 list \<Rightarrow> comp_world \<Rightarrow> comp_world run" where
  "heap_write p off bs w =
     (case p of
        PHeap a \<Rightarrow> (case cw_heap w a of
                     None \<Rightarrow> Undefined
                   | Some old \<Rightarrow>
                       if off + length bs \<le> length old
                       then Returns (w\<lparr>cw_heap := (cw_heap w)
                              (a \<mapsto> take off old @ bs @ drop (off + length bs) old)\<rparr>)
                       else Undefined)
      | _ \<Rightarrow> Undefined)"

definition comp_munmap :: "ptr \<Rightarrow> nat \<Rightarrow> comp_world \<Rightarrow> comp_world" where
  "comp_munmap p n w = w\<lparr>cw_unmapped := cw_unmapped w @ [(p, n)]\<rparr>"

definition doca :: "comp_env \<Rightarrow> doca_call \<Rightarrow> comp_world \<Rightarrow> doca_error \<times> comp_world" where
  "doca e c w = (dv_rc e c, w\<lparr>cw_log := cw_log w @ [(c, dv_rc e c)]\<rparr>)"

text \<open>The blocks that are allocated.\<close>

definition live_blocks :: "comp_world \<Rightarrow> nat set" where
  "live_blocks w = dom (cw_heap w)"

end
