(* ===== verification/Comp_Core.thy ===== *)
theory Comp_Core
  imports Comp_Run
begin

text \<open>
  \<open>compress/compression_local_core.c\<close>: one compression or decompression job on DOCA or zlib, the
  reading and writing of files, the set-up of DOCA, and \<open>compression_local_main.c\<close> over them.

  A parameter \<open>src\<close> is the pointer to the source data, \<open>data\<close> its bytes. The out parameters of
  \<open>compress_file\<close> are a record; \<open>None\<close> is a variable that was not written.
\<close>

subsection \<open>Sizes\<close>

abbreviation MAX_FILE_SIZE :: u64 where "MAX_FILE_SIZE \<equiv> 268435456"
abbreviation MIN_DST_BUF_SIZE :: u64 where "MIN_DST_BUF_SIZE \<equiv> 1048576"
abbreviation DECOMPRESS_RATIO :: u64 where "DECOMPRESS_RATIO \<equiv> 5"
abbreviation READ_BUF_SIZE :: nat where "READ_BUF_SIZE \<equiv> 1048576"

definition compress_dst_size :: "doca_job_type \<Rightarrow> u64 \<Rightarrow> u64" where
  "compress_dst_size job file_size =
     (case job of
        DOCA_COMPRESS_DEFLATE_JOB \<Rightarrow>
          (let n = max (file_size + 16) (file_size * 2);
               n = (if n > MAX_FILE_SIZE then MAX_FILE_SIZE else n)
           in if n < MIN_DST_BUF_SIZE then MIN_DST_BUF_SIZE else n)
      | DOCA_DECOMPRESS_DEFLATE_JOB \<Rightarrow>
          (let n = min MAX_FILE_SIZE (DECOMPRESS_RATIO * file_size)
           in if n < MIN_DST_BUF_SIZE then MIN_DST_BUF_SIZE else n))"

subsection \<open>Jobs\<close>

text \<open>The loop that polls the work queue from the \<open>k\<close>-th answer on.\<close>

partial_function (option) doca_poll :: "(nat \<Rightarrow> doca_error) \<Rightarrow> nat \<Rightarrow> doca_error option" where
  "doca_poll progress k =
     (if progress k = DOCA_ERROR_AGAIN then doca_poll progress (Suc k) else Some (progress k))"

declare doca_poll.simps [code]

definition process_job ::
  "comp_env \<Rightarrow> doca_job_type \<Rightarrow> u8 list \<Rightarrow> nat \<Rightarrow> comp_world \<Rightarrow> (doca_error \<times> comp_world) run" where
  "process_job e job data n w =
     (let (r, w) = doca e SubmitJob w
      in if r \<noteq> DOCA_SUCCESS then Returns (r, w)
         else case doca_poll (dv_progress e) 0 of
                None \<Rightarrow> Hangs
              | Some r \<Rightarrow> Returns (if r \<noteq> DOCA_SUCCESS then r else fst (dv_job e job data n), w))"

text \<open>
  The destination. The function allocates a block of its own and never hands it to its caller but
  through the DOCA buffer; the pointer that it unmaps when the callback cannot be set is the first
  word of that block, a null pointer.
\<close>

definition populate_dst_buf ::
  "comp_env \<Rightarrow> nat \<Rightarrow> comp_world \<Rightarrow> (doca_error \<times> ptr \<times> comp_world) run" where
  "populate_dst_buf e n w =
     (let (p, w) = heap_calloc e n w
      in if p = PNull then Returns (DOCA_ERROR_NO_MEMORY, PNull, w)
         else
           (let (r, w) = doca e SetDstMemrange w
            in if r \<noteq> DOCA_SUCCESS then run_bind (heap_free p w) (\<lambda>w. Returns (r, PNull, w))
               else
                 (let (r, w) = doca e SetDstFreeCb w
                  in if r \<noteq> DOCA_SUCCESS then Returns (r, PNull, comp_munmap PNull n w)
                     else
                       (let (r, w) = doca e StartDstMmap w
                        in if r \<noteq> DOCA_SUCCESS then run_bind (heap_free p w) (\<lambda>w. Returns (r, PNull, w))
                           else
                             (let (r, w) = doca e GetDstBuf w
                              in if r \<noteq> DOCA_SUCCESS then Returns (r, PNull, w)
                                 else Returns (r, p, w\<lparr>cw_doca_bufs := cw_doca_bufs w + 1\<rparr>))))))"

definition doca_buf_refcount_rm :: "comp_world \<Rightarrow> comp_world" where
  "doca_buf_refcount_rm w = w\<lparr>cw_doca_bufs := cw_doca_bufs w - 1\<rparr>"

subsection \<open>Files\<close>

text \<open>The file is opened without \<open>O_TRUNC\<close>: what it held beyond the bytes written stays.\<close>

definition write_local_file ::
  "comp_env \<Rightarrow> string \<Rightarrow> ptr \<Rightarrow> u8 list \<Rightarrow> comp_world \<Rightarrow> (doca_error \<times> comp_world) run" where
  "write_local_file e path p bs w =
     (if \<not> dv_open e path then run_bind (heap_free p w) (\<lambda>w. Returns (DOCA_ERROR_IO_FAILED, w))
      else
        (let old = (case cw_files w path of None \<Rightarrow> [] | Some bs \<Rightarrow> bs);
             n = dv_write e path (length bs);
             put = take (nat n) bs;
             w = w\<lparr>cw_files := (cw_files w)(path \<mapsto> put @ drop (length put) old)\<rparr>
         in if n \<noteq> int (length bs)
            then run_bind (heap_free p w) (\<lambda>w. Returns (DOCA_ERROR_IO_FAILED, w))
            else Returns (DOCA_SUCCESS, w)))"

text \<open>The loop of \<open>read_local_file_naive\<close>: every chunk is copied to the start of the destination.\<close>

function naive_read :: "nat \<Rightarrow> u8 list \<Rightarrow> u8 list \<Rightarrow> u8 list" where
  "naive_read n dst rest =
     (if n = 0 \<or> rest = [] then dst
      else naive_read n (take n rest @ drop (length (take n rest)) dst) (drop n rest))"
  by pat_completeness auto
termination
  by (relation "measure (\<lambda>(n, dst, rest). length rest)") (auto simp: neq_Nil_conv)

declare naive_read.simps [simp del]

text \<open>The result of reading a file: code, pointer and length of the data if there is any. The buffer of
  the loop is not freed and the stream is not closed.\<close>

definition read_local_file_naive ::
  "comp_env \<Rightarrow> string \<Rightarrow> comp_world \<Rightarrow> (doca_error \<times> (ptr \<times> nat) option \<times> comp_world) run" where
  "read_local_file_naive e path w =
     (case cw_files w path of
        None \<Rightarrow> Returns (DOCA_ERROR_IO_FAILED, None, w)
      | Some content \<Rightarrow>
          (if \<not> dv_open e path then Returns (DOCA_ERROR_IO_FAILED, None, w)
           else
             (let w = w\<lparr>cw_open_fds := cw_open_fds w + 1\<rparr>
              in if \<not> dv_fstat e path then Returns (DOCA_ERROR_IO_FAILED, None, w)
                 else if content = [] \<or> length content > unat MAX_FILE_SIZE
                 then Returns (DOCA_ERROR_INVALID_VALUE, None, w)
                 else
                   (let (buf, w) = heap_malloc e READ_BUF_SIZE w;
                        (p, w) = heap_malloc e (length content) w
                    in if buf = PNull then Undefined
                       else run_bind (heap_read w p 0 (length content)) (\<lambda>dst.
                            run_bind (heap_write p 0 (naive_read READ_BUF_SIZE dst content) w) (\<lambda>w.
                              Returns (DOCA_SUCCESS, Some (p, length content), w)))))))"

text \<open>The descriptor stays open when the file has been mapped.\<close>

definition read_local_file_mmap ::
  "comp_env \<Rightarrow> string \<Rightarrow> comp_world \<Rightarrow> doca_error \<times> (ptr \<times> nat) option \<times> comp_world" where
  "read_local_file_mmap e path w =
     (case cw_files w path of
        None \<Rightarrow> (DOCA_ERROR_IO_FAILED, None, w)
      | Some content \<Rightarrow>
          (if \<not> dv_open e path then (DOCA_ERROR_IO_FAILED, None, w)
           else if \<not> dv_fstat e path then (DOCA_ERROR_IO_FAILED, None, w)
           else if content = [] \<or> length content > unat MAX_FILE_SIZE
           then (DOCA_ERROR_INVALID_VALUE, None, w)
           else if \<not> dv_mmap e path then (DOCA_ERROR_NO_MEMORY, None, w)
           else (DOCA_SUCCESS, Some (PMapped path, length content),
                 w\<lparr>cw_open_fds := cw_open_fds w + 1\<rparr>)))"

subsection \<open>Compression in hardware\<close>

record comp_out =
  co_error :: doca_error
  co_file :: ptr
  co_len :: "nat option"
  co_chksum :: "u64 option"

text \<open>What \<open>snprintf\<close> makes of a 64-bit counter with \<open>%ld\<close>.\<close>

fun decimal :: "nat \<Rightarrow> string" where
  "decimal n =
     (if n < 10 then [char_of (48 + n)] else decimal (n div 10) @ [char_of (48 + n mod 10)])"

declare decimal.simps [simp del]

definition decimal_long :: "u64 \<Rightarrow> string" where
  "decimal_long n =
     (if sint n < 0 then ''-'' @ decimal (nat (- sint n)) else decimal (nat (sint n)))"

definition string_bytes :: "string \<Rightarrow> u8 list" where
  "string_bytes s = map of_char s"

text \<open>The 100 bytes on the stack that go to the file \<open>compress_size\<close>: the text, its terminator and what
  the stack held.\<close>

definition compress_size_report :: "comp_env \<Rightarrow> comp_world \<Rightarrow> u8 list" where
  "compress_size_report e w =
     (let s = string_bytes (decimal_long (total_compressed_bytes w) @ '', '' @
                            decimal_long (total_decompressed_bytes w)) @ [0]
      in take 100 (s @ drop (length s) (dv_stack e)))"

definition hw_failed :: "doca_error \<Rightarrow> ptr \<Rightarrow> comp_world \<Rightarrow> (comp_out \<times> comp_world) run" where
  "hw_failed r p0 w =
     Returns (\<lparr>co_error = r, co_file = p0, co_len = None, co_chksum = None\<rparr>, w)"

text \<open>From the construction of the job on; both DOCA buffers are given back on every path.\<close>

definition hw_run_job ::
  "comp_env \<Rightarrow> u8 list \<Rightarrow> doca_job_type \<Rightarrow> nat \<Rightarrow> ptr \<Rightarrow> ptr \<Rightarrow> comp_world \<Rightarrow> (comp_out \<times> comp_world) run" where
  "hw_run_job e data job n p0 dst w =
     run_bind (process_job e job data n w) (\<lambda>(r, w).
       if r \<noteq> DOCA_SUCCESS then hw_failed r p0 (doca_buf_refcount_rm (doca_buf_refcount_rm w))
       else
         (let (_, result, chksum) = dv_job e job data n
          in run_bind (heap_write dst 0 result w) (\<lambda>w.
               (let w = doca_buf_refcount_rm (doca_buf_refcount_rm w);
                    w = (if job = DOCA_COMPRESS_DEFLATE_JOB
                         then w\<lparr>total_compressed_bytes :=
                                  total_compressed_bytes w + of_nat (length result)\<rparr>
                         else w\<lparr>total_decompressed_bytes :=
                                  total_decompressed_bytes w + of_nat (length result)\<rparr>)
                in run_bind (write_local_file e ''compress_size'' PStack (compress_size_report e w) w)
                     (\<lambda>(_, w). Returns (\<lparr>co_error = DOCA_SUCCESS, co_file = dst,
                        co_len = Some (length result), co_chksum = Some chksum\<rparr>, w))))))"

definition compress_file_hw ::
  "comp_env \<Rightarrow> ptr \<Rightarrow> u8 list \<Rightarrow> doca_job_type \<Rightarrow> nat \<Rightarrow> ptr \<Rightarrow> comp_world \<Rightarrow>
     (comp_out \<times> comp_world) run" where
  "compress_file_hw e src data job n p0 w =
     (let (r, w) = doca e SetSrcMemrange w
      in if r \<noteq> DOCA_SUCCESS then hw_failed r p0 (comp_munmap src (length data) w)
         else
           (let (r, w) = doca e SetSrcFreeCb w
            in if r \<noteq> DOCA_SUCCESS then hw_failed r p0 (comp_munmap src (length data) w)
               else
                 (let (r, w) = doca e StartSrcMmap w
                  in if r \<noteq> DOCA_SUCCESS then hw_failed r p0 (comp_munmap src (length data) w)
                     else
                       (let (r, w) = doca e GetSrcBuf w
                        in if r \<noteq> DOCA_SUCCESS then hw_failed r p0 w
                           else
                             run_bind (populate_dst_buf e n (w\<lparr>cw_doca_bufs := cw_doca_bufs w + 1\<rparr>))
                               (\<lambda>(r, dst, w).
                                  if r \<noteq> DOCA_SUCCESS then hw_failed r p0 (doca_buf_refcount_rm w)
                                  else hw_run_job e data job n p0 dst w)))))"

subsection \<open>Compression in software\<close>

definition compress_file_sw ::
  "comp_env \<Rightarrow> u8 list \<Rightarrow> nat \<Rightarrow> ptr \<Rightarrow> comp_world \<Rightarrow> (doca_error \<times> nat option \<times> comp_world) run" where
  "compress_file_sw e data n p w =
     (if dv_zlib e DeflateNoFlush (- MAX_WBITS) data n < 0 then Returns (DOCA_ERROR_BAD_STATE, None, w)
      else if dv_zlib e DeflateFinish (- MAX_WBITS) data n \<noteq> Z_STREAM_END
      then Returns (DOCA_ERROR_BAD_STATE, None, w)
      else if dv_zlib e DeflateEnd (- MAX_WBITS) data n < 0 then Returns (DOCA_ERROR_BAD_STATE, None, w)
      else
        (let out = dv_zout e DeflateFinish (- MAX_WBITS) data n
         in run_bind (heap_write p 0 out w) (\<lambda>w. Returns (DOCA_SUCCESS, Some (length out), w))))"

definition decompress_file_sw ::
  "comp_env \<Rightarrow> u8 list \<Rightarrow> nat \<Rightarrow> ptr \<Rightarrow> comp_world \<Rightarrow> (doca_error \<times> nat option \<times> comp_world) run" where
  "decompress_file_sw e data n p w =
     (if dv_zlib e InflateSyncFlush MAX_WBITS data n < 0 then Returns (DOCA_ERROR_BAD_STATE, None, w)
      else if dv_zlib e InflateFinish MAX_WBITS data n \<noteq> Z_STREAM_END
      then Returns (DOCA_ERROR_BAD_STATE, None, w)
      else if dv_zlib e InflateEnd MAX_WBITS data n < 0 then Returns (DOCA_ERROR_BAD_STATE, None, w)
      else
        (let out = dv_zout e InflateFinish MAX_WBITS data n
         in run_bind (heap_write p 0 out w) (\<lambda>w. Returns (DOCA_SUCCESS, Some (length out), w))))"

definition calculate_checksum_sw :: "comp_env \<Rightarrow> u8 list \<Rightarrow> u64" where
  "calculate_checksum_sw e data =
     push_bit 32 (ucast (dv_adler32 e data)) + ucast (dv_crc32 e data)"

definition compress_file ::
  "comp_env \<Rightarrow> ptr \<Rightarrow> u8 list \<Rightarrow> doca_job_type \<Rightarrow> file_compression_compress_method \<Rightarrow> comp_world \<Rightarrow>
     (comp_out \<times> comp_world) run" where
  "compress_file e src data job method w =
     (let n = unat (compress_dst_size job (of_nat (length data)));
          (p, w) = heap_calloc e n w
      in if p = PNull
         then Returns (\<lparr>co_error = DOCA_ERROR_NO_MEMORY, co_file = PNull, co_len = None, co_chksum = None\<rparr>, w)
         else if method = COMPRESS_DEFLATE_SW \<and> job = DOCA_COMPRESS_DEFLATE_JOB
         then run_bind (compress_file_sw e data n p w) (\<lambda>(r, len, w).
                Returns (\<lparr>co_error = r, co_file = p, co_len = len,
                          co_chksum = Some (calculate_checksum_sw e data)\<rparr>, w))
         else if method = COMPRESS_DEFLATE_SW \<and> job = DOCA_DECOMPRESS_DEFLATE_JOB
         then run_bind (decompress_file_sw e data n p w) (\<lambda>(r, len, w).
                case len of
                  None \<Rightarrow> Undefined
                | Some len \<Rightarrow> run_bind (heap_read w p 0 len) (\<lambda>bs.
                    Returns (\<lparr>co_error = r, co_file = p, co_len = Some len,
                              co_chksum = Some (calculate_checksum_sw e bs)\<rparr>, w)))
         else compress_file_hw e src data job n p w)"

subsection \<open>Set-up of DOCA\<close>

text \<open>As the code has it: the two error codes, of which 0 is success, are combined with \<open>&&\<close>.\<close>

definition compress_jobs_compress_decompress_is_supported ::
  "(doca_job_type \<Rightarrow> doca_error) \<Rightarrow> int" where
  "compress_jobs_compress_decompress_is_supported job_get_supported =
     (if job_get_supported DOCA_COMPRESS_DEFLATE_JOB \<noteq> DOCA_SUCCESS \<and>
         job_get_supported DOCA_DECOMPRESS_DEFLATE_JOB \<noteq> DOCA_SUCCESS then 1 else 0)"

definition file_compression_init :: "comp_env \<Rightarrow> comp_world \<Rightarrow> doca_error \<times> comp_world" where
  "file_compression_init e w =
     (let (r, w) = doca e CompressCreate w
      in if r \<noteq> DOCA_SUCCESS then (r, w)
         else
           (let (r, w) = doca e OpenDevice w
            in if r \<noteq> DOCA_SUCCESS then (r, snd (doca e CompressDestroy w))
               else
                 (let (r, w) = doca e InitCoreObjects w
                  in if r \<noteq> DOCA_SUCCESS
                     then (r, snd (doca e CompressDestroy (snd (doca e DestroyCoreObjects w))))
                     else (DOCA_SUCCESS, w))))"

definition file_compression_cleanup :: "comp_env \<Rightarrow> comp_world \<Rightarrow> comp_world" where
  "file_compression_cleanup e w = snd (doca e CompressDestroy (snd (doca e DestroyCoreObjects w)))"

abbreviation EXIT_SUCCESS :: int where "EXIT_SUCCESS \<equiv> 0"
abbreviation EXIT_FAILURE :: int where "EXIT_FAILURE \<equiv> 1"

definition doca_compress_init :: "comp_env \<Rightarrow> comp_world \<Rightarrow> int \<times> comp_world" where
  "doca_compress_init e w =
     (let (r, w) = doca e LogBackend w
      in if r \<noteq> DOCA_SUCCESS then (EXIT_FAILURE, w)
         else
           (let (r, w) = file_compression_init e w
            in (if r \<noteq> DOCA_SUCCESS then EXIT_FAILURE else EXIT_SUCCESS, w)))"

definition doca_compress_cleanup :: "comp_env \<Rightarrow> comp_world \<Rightarrow> comp_world" where
  "doca_compress_cleanup e w = file_compression_cleanup e w"

subsection \<open>Files through the compressor\<close>

text \<open>The bytes of a mapped file or of a heap block.\<close>

definition source_bytes :: "comp_world \<Rightarrow> ptr \<Rightarrow> nat \<Rightarrow> u8 list run" where
  "source_bytes w p n =
     (case p of
        PMapped path \<Rightarrow> (case cw_files w path of None \<Rightarrow> Undefined | Some bs \<Rightarrow> Returns (take n bs))
      | _ \<Rightarrow> heap_read w p 0 n)"

text \<open>Neither function looks at the result of reading the file; without data, the length is a variable
  that was never written.\<close>

definition file_compressor ::
  "comp_env \<Rightarrow> string \<Rightarrow> string \<Rightarrow> file_compression_compress_method \<Rightarrow> comp_world \<Rightarrow>
     (doca_error \<times> u64 option \<times> comp_world) run" where
  "file_compressor e path out_path method w =
     (case read_local_file_mmap e path w of (_, file, w) \<Rightarrow>
       (case file of
          None \<Rightarrow> Undefined
        | Some (src, len) \<Rightarrow>
            run_bind (source_bytes w src len) (\<lambda>data.
            run_bind (compress_file e src data DOCA_COMPRESS_DEFLATE_JOB method w) (\<lambda>(out, w).
              if co_error out \<noteq> DOCA_SUCCESS
              then run_bind (heap_free (co_file out) w) (\<lambda>w. Returns (co_error out, co_chksum out, w))
              else
                run_bind (heap_read w (co_file out) 0 (the (co_len out))) (\<lambda>bs.
                run_bind (write_local_file e out_path (co_file out) bs w) (\<lambda>(r, w).
                  Returns (co_error out, co_chksum out, w)))))))"

definition file_decompressor ::
  "comp_env \<Rightarrow> string \<Rightarrow> string \<Rightarrow> u64 \<Rightarrow> comp_world \<Rightarrow> (doca_error \<times> comp_world) run" where
  "file_decompressor e path out_path original_checksum w =
     (case read_local_file_mmap e path w of (_, file, w) \<Rightarrow>
       (case file of
          None \<Rightarrow> Undefined
        | Some (src, len) \<Rightarrow>
            run_bind (source_bytes w src len) (\<lambda>data.
            run_bind (compress_file e src data DOCA_DECOMPRESS_DEFLATE_JOB COMPRESS_DEFLATE_HW w) (\<lambda>(out, w).
              if co_error out \<noteq> DOCA_SUCCESS
              then run_bind (heap_free (co_file out) w) (\<lambda>w. Returns (co_error out, w))
              else if co_chksum out \<noteq> Some original_checksum
              then run_bind (heap_free (co_file out) w) (\<lambda>w. Returns (DOCA_ERROR_BAD_STATE, w))
              else
                run_bind (heap_read w (co_file out) 0 (the (co_len out))) (\<lambda>bs.
                run_bind (write_local_file e out_path (co_file out) bs w) (\<lambda>(r, w).
                run_bind (heap_free (co_file out) w) (\<lambda>w. Returns (DOCA_SUCCESS, w))))))))"

definition doca_compress :: "comp_env \<Rightarrow> comp_world \<Rightarrow> (int \<times> u64 option \<times> comp_world) run" where
  "doca_compress e w =
     run_bind (file_compressor e ''input.txt'' ''input-comp.txt'' COMPRESS_DEFLATE_SW w) (\<lambda>(r, chk, w).
       if r \<noteq> DOCA_SUCCESS then Returns (EXIT_FAILURE, chk, file_compression_cleanup e w)
       else Returns (EXIT_SUCCESS, chk, w))"

definition doca_decompress :: "comp_env \<Rightarrow> u64 \<Rightarrow> comp_world \<Rightarrow> (int \<times> comp_world) run" where
  "doca_decompress e checksum w =
     run_bind (file_decompressor e ''input-comp.txt'' ''input-decomp.txt'' checksum w) (\<lambda>(r, w).
       if r \<noteq> DOCA_SUCCESS then Returns (EXIT_FAILURE, file_compression_cleanup e w)
       else Returns (EXIT_SUCCESS, w))"

text \<open>\<open>file_compress\<close> and \<open>file_decompress\<close> of \<open>compression_local_main.c\<close>; the cleanup follows whatever
  happened before.\<close>

definition file_compress :: "comp_env \<Rightarrow> comp_world \<Rightarrow> (u64 option \<times> comp_world) run" where
  "file_compress e w =
     (let (_, w) = doca_compress_init e w
      in run_bind (doca_compress e w) (\<lambda>(_, chk, w). Returns (chk, doca_compress_cleanup e w)))"

definition file_decompress :: "comp_env \<Rightarrow> u64 \<Rightarrow> comp_world \<Rightarrow> comp_world run" where
  "file_decompress e checksum w =
     (let (_, w) = doca_compress_init e w
      in run_bind (doca_decompress e checksum w) (\<lambda>(_, w). Returns (doca_compress_cleanup e w)))"

subsection \<open>The program\<close>

text \<open>\<open>main\<close> of \<open>compression_local_main.c\<close> with its methods chosen; \<open>e\<close> and \<open>e'\<close> are met in the two
  halves. The result of reading a file is not looked at here either.\<close>

definition method_of_arg :: "string \<Rightarrow> file_compression_compress_method option" where
  "method_of_arg arg =
     (if arg = ''hw'' then Some COMPRESS_DEFLATE_HW
      else if arg = ''sw'' then Some COMPRESS_DEFLATE_SW else None)"

definition main_compress ::
  "comp_env \<Rightarrow> file_compression_compress_method \<Rightarrow> comp_world \<Rightarrow> (int \<times> comp_out \<times> comp_world) run" where
  "main_compress e method w =
     run_bind (read_local_file_naive e ''input_files'' w) (\<lambda>(_, file, w).
       case file of
         None \<Rightarrow> Undefined
       | Some (src, len) \<Rightarrow>
           (let (_, w) = doca_compress_init e w
            in run_bind (heap_read w src 0 len) (\<lambda>data.
               run_bind (compress_file e src data DOCA_COMPRESS_DEFLATE_JOB method w) (\<lambda>(out, w).
                 if co_error out \<noteq> DOCA_SUCCESS
                 then run_bind (heap_free (co_file out) w) (\<lambda>w. Returns (- 1, out, w))
                 else
                   (let w = doca_compress_cleanup e w
                    in run_bind (heap_read w (co_file out) 0 (the (co_len out))) (\<lambda>bs.
                       run_bind (write_local_file e ''input_file_comp'' (co_file out) bs w) (\<lambda>(_, w).
                         Returns (EXIT_SUCCESS, out, w))))))))"

text \<open>When the compressed file cannot be read, the variables still hold the result of the compression.\<close>

definition main_decompress ::
  "comp_env \<Rightarrow> file_compression_compress_method \<Rightarrow> comp_out \<Rightarrow> comp_world \<Rightarrow> (int \<times> comp_world) run" where
  "main_decompress e method compressed w =
     run_bind (read_local_file_naive e ''input_file_comp'' w) (\<lambda>(_, file, w).
       (let (src, len) = (case file of
                            None \<Rightarrow> (co_file compressed, the (co_len compressed))
                          | Some f \<Rightarrow> f);
            (_, w) = doca_compress_init e w
        in run_bind (heap_read w src 0 len) (\<lambda>data.
           run_bind (compress_file e src data DOCA_DECOMPRESS_DEFLATE_JOB method w) (\<lambda>(out, w).
             if co_error out \<noteq> DOCA_SUCCESS \<or> co_chksum out \<noteq> co_chksum compressed
             then run_bind (heap_free (co_file out) w) (\<lambda>w. Returns (- 1, w))
             else
               (let w = doca_compress_cleanup e w
                in run_bind (heap_read w (co_file out) 0 (the (co_len out))) (\<lambda>bs.
                   run_bind (write_local_file e ''input_file_decomp'' (co_file out) bs w) (\<lambda>(_, w).
                     Returns (EXIT_SUCCESS, w))))))))"

definition compression_methods ::
  "string list \<Rightarrow> (file_compression_compress_method \<times> file_compression_compress_method) option" where
  "compression_methods args =
     (case (case args of [] \<Rightarrow> Some COMPRESS_DEFLATE_SW | a # _ \<Rightarrow> method_of_arg a) of
        None \<Rightarrow> None
      | Some compress_method \<Rightarrow>
          (case (case args of _ # b # _ \<Rightarrow> method_of_arg b | _ \<Rightarrow> Some COMPRESS_DEFLATE_HW) of
             None \<Rightarrow> None
           | Some decompress_method \<Rightarrow> Some (compress_method, decompress_method)))"

definition compression_main :: "comp_env \<Rightarrow> comp_env \<Rightarrow> string list \<Rightarrow> comp_world \<Rightarrow> (int \<times> comp_world) run" where
  "compression_main e e' args w =
     (case compression_methods args of
        None \<Rightarrow> Returns (- 1, w)
      | Some (compress_method, decompress_method) \<Rightarrow>
          run_bind (main_compress e compress_method w) (\<lambda>(rc, compressed, w).
            if rc \<noteq> EXIT_SUCCESS then Returns (rc, w)
            else main_decompress e' decompress_method compressed w))"

end
