(* ===== verification/Comp_Files.thy ===== *)
theory Comp_Files
  imports Comp_Core
begin

text \<open>
  What \<open>compression_local_core.c\<close> and \<open>compression_local_main.c\<close> do: the sizes of the destination
  buffers, the end of the polling loop, the blocks and DOCA buffers a job leaves, the content of files
  as written and read, and the round trip of a file through the program.
\<close>

subsection \<open>Sizes\<close>

lemma compress_size_small:
  "unat (n :: u64) \<le> 2 ^ 27 \<Longrightarrow> unat (max (n + 16) (n * 2)) = max (unat n + 16) (unat n * 2)"
proof -
  assume n: "unat n \<le> 2 ^ 27"
  have "unat n + unat (16 :: u64) < 2 ^ LENGTH(64)" "unat n * unat (2 :: u64) < 2 ^ LENGTH(64)"
    using n by simp_all
  then have "unat (n + 16) = unat n + 16" "unat (n * 2) = unat n * 2"
    using unat_plus_no_wrap[of n 16] unat_times_no_wrap[of n 2] by simp_all
  then show ?thesis by (simp add: max_def word_le_nat_alt)
qed

lemma decompress_size_small:
  "unat n \<le> 2 ^ 60 \<Longrightarrow> unat (min MAX_FILE_SIZE (DECOMPRESS_RATIO * n)) = min (2 ^ 28) (5 * unat n)"
proof -
  assume n: "unat n \<le> 2 ^ 60"
  have "unat (5 :: u64) * unat n < 2 ^ LENGTH(64)" using n by simp
  then have "unat (5 * n) = 5 * unat n" using unat_times_no_wrap[of 5 n] by simp
  then show ?thesis by (simp add: unat_min)
qed

lemma dst_size_clamp:
  "unat (compress_dst_size job n) =
     (let k = (case job of DOCA_COMPRESS_DEFLATE_JOB \<Rightarrow> min (2 ^ 28) (unat (max (n + 16) (n * 2)))
               | DOCA_DECOMPRESS_DEFLATE_JOB \<Rightarrow> unat (min MAX_FILE_SIZE (DECOMPRESS_RATIO * n)))
      in max (2 ^ 20) k)"
  by (cases job) (auto simp: compress_dst_size_def Let_def word_less_nat_alt word_le_nat_alt max_def min_def)

text \<open>C26: the destination of a job has at least 1 MB and at most 256 MB, whatever the size of the source.
  For data of up to 128 MB a compression has room for the data and 16 bytes more; for a stream of up to
  51 MB a decompression has room for five times the stream. A decompression of a stream of less than a
  fifth of its data has less room than the data, when the data is larger than 1 MB: data that
  compresses better than 5:1 does not fit when it is decompressed.\<close>

theorem compress_dst_size_bounds:
  "2 ^ 20 \<le> unat (compress_dst_size job n) \<and> unat (compress_dst_size job n) \<le> 2 ^ 28 \<and>
   (unat n \<le> 2 ^ 27 - 16 \<longrightarrow> unat n + 16 \<le> unat (compress_dst_size DOCA_COMPRESS_DEFLATE_JOB n)) \<and>
   (5 * unat n \<le> 2 ^ 28 \<longrightarrow> 5 * unat n \<le> unat (compress_dst_size DOCA_DECOMPRESS_DEFLATE_JOB n)) \<and>
   (\<forall>m. 2 ^ 20 < m \<and> m \<le> 2 ^ 60 \<and> 5 * unat n < m \<longrightarrow>
      unat (compress_dst_size DOCA_DECOMPRESS_DEFLATE_JOB n) < m)"
proof (intro conjI impI allI)
  have "unat (min MAX_FILE_SIZE (DECOMPRESS_RATIO * n)) \<le> 2 ^ 28" by (simp add: unat_min)
  then show "unat (compress_dst_size job n) \<le> 2 ^ 28" by (cases job) (auto simp: dst_size_clamp)
  show "2 ^ 20 \<le> unat (compress_dst_size job n)" by (simp add: dst_size_clamp Let_def)
next
  assume "unat n \<le> 2 ^ 27 - 16"
  then show "unat n + 16 \<le> unat (compress_dst_size DOCA_COMPRESS_DEFLATE_JOB n)"
    by (simp add: dst_size_clamp compress_size_small Let_def)
next
  assume "5 * unat n \<le> 2 ^ 28"
  then show "5 * unat n \<le> unat (compress_dst_size DOCA_DECOMPRESS_DEFLATE_JOB n)"
    by (simp add: dst_size_clamp decompress_size_small Let_def)
next
  fix m :: nat
  assume "2 ^ 20 < m \<and> m \<le> 2 ^ 60 \<and> 5 * unat n < m"
  then show "unat (compress_dst_size DOCA_DECOMPRESS_DEFLATE_JOB n) < m"
    by (simp add: dst_size_clamp decompress_size_small Let_def min_less_iff_disj)
qed

subsection \<open>Polling\<close>

lemma doca_poll_some:
  "doca_poll progress k = Some r \<Longrightarrow>
     \<exists>j\<ge>k. progress j = r \<and> r \<noteq> DOCA_ERROR_AGAIN \<and> (\<forall>i. k \<le> i \<and> i < j \<longrightarrow> progress i = DOCA_ERROR_AGAIN)"
proof (induction rule: doca_poll.raw_induct[rotated 1, consumes 1, case_names step])
  case (step poll progress k r)
  show ?case
  proof (cases "progress k = DOCA_ERROR_AGAIN")
    case True
    then have "poll progress (Suc k) = Some r" using step(2) by simp
    from step(1)[OF this] obtain j where "j \<ge> Suc k" "progress j = r" "r \<noteq> DOCA_ERROR_AGAIN"
      "\<forall>i. Suc k \<le> i \<and> i < j \<longrightarrow> progress i = DOCA_ERROR_AGAIN" by blast
    then show ?thesis using True by (intro exI[of _ j]) (metis Suc_leD Suc_leI le_neq_implies_less)
  next
    case False
    then show ?thesis using step(2) by (intro exI[of _ k]) auto
  qed
qed

lemma doca_poll_first:
  "k \<le> j \<Longrightarrow> progress j \<noteq> DOCA_ERROR_AGAIN \<Longrightarrow>
     \<forall>i. k \<le> i \<and> i < j \<longrightarrow> progress i = DOCA_ERROR_AGAIN \<Longrightarrow> doca_poll progress k = Some (progress j)"
proof (induction "j - k" arbitrary: k)
  case 0
  then show ?case by (simp add: doca_poll.simps[of _ k])
next
  case (Suc d)
  then have "progress k = DOCA_ERROR_AGAIN" by auto
  moreover have "doca_poll progress (Suc k) = Some (progress j)" using Suc by auto
  ultimately show ?case by (simp add: doca_poll.simps[of _ k])
qed

text \<open>C25: a job that DOCA accepts comes back as soon as the work queue answers something else than
  "again": with that answer if it is an error, with the result of the job otherwise. It comes back only
  then: a work queue that answers "again" for ever keeps the caller for ever.\<close>

theorem process_job_ends:
  assumes sub: "dv_rc e SubmitJob = DOCA_SUCCESS"
  shows "(\<forall>j. dv_progress e j \<noteq> DOCA_ERROR_AGAIN \<and> (\<forall>i < j. dv_progress e i = DOCA_ERROR_AGAIN) \<longrightarrow>
            process_job e job data n w =
              Returns (if dv_progress e j = DOCA_SUCCESS then fst (dv_job e job data n) else dv_progress e j,
                       snd (doca e SubmitJob w))) \<and>
         (process_job e job data n w = Hangs \<longleftrightarrow> (\<forall>j. dv_progress e j = DOCA_ERROR_AGAIN))"
proof -
  have first: "process_job e job data n w =
      Returns (if dv_progress e j = DOCA_SUCCESS then fst (dv_job e job data n) else dv_progress e j,
               snd (doca e SubmitJob w))"
    if j: "dv_progress e j \<noteq> DOCA_ERROR_AGAIN" "\<forall>i < j. dv_progress e i = DOCA_ERROR_AGAIN" for j
    using doca_poll_first[of 0 j "dv_progress e"] j sub by (simp add: process_job_def doca_def)
  have "process_job e job data n w = Hangs \<longleftrightarrow> doca_poll (dv_progress e) 0 = None"
    using sub by (simp add: process_job_def doca_def split: option.split)
  also have "\<dots> \<longleftrightarrow> (\<forall>j. dv_progress e j = DOCA_ERROR_AGAIN)"
  proof
    assume none: "doca_poll (dv_progress e) 0 = None"
    show "\<forall>j. dv_progress e j = DOCA_ERROR_AGAIN"
    proof
      fix j
      show "dv_progress e j = DOCA_ERROR_AGAIN"
        using none doca_poll_first[of 0 _ "dv_progress e"] by (induction j rule: less_induct) auto
    qed
  next
    assume "\<forall>j. dv_progress e j = DOCA_ERROR_AGAIN"
    then show "doca_poll (dv_progress e) 0 = None"
      using doca_poll_some[of "dv_progress e" 0] by (cases "doca_poll (dv_progress e) 0") auto
  qed
  finally show ?thesis using first by blast
qed

subsection \<open>What a job leaves behind\<close>

text \<open>The numbers of blocks not yet allocated are free.\<close>

definition comp_fresh :: "comp_world \<Rightarrow> bool" where
  "comp_fresh w \<longleftrightarrow> (\<forall>a \<ge> cw_next w. cw_heap w a = None)"

lemma calloc_result:
  "heap_calloc e n w = (p, w') \<longleftrightarrow>
     (if dv_alloc e (cw_next w)
      then p = PHeap (cw_next w) \<and>
           w' = w\<lparr>cw_heap := (cw_heap w)(cw_next w \<mapsto> replicate n 0), cw_next := cw_next w + 1\<rparr>
      else p = PNull \<and> w' = w\<lparr>cw_next := cw_next w + 1\<rparr>)"
  by (auto simp: heap_calloc_def)

lemma heap_write_block:
  "heap_write p off bs w = Returns w' \<longleftrightarrow>
     (\<exists>a old. p = PHeap a \<and> cw_heap w a = Some old \<and> off + length bs \<le> length old \<and>
        w' = w\<lparr>cw_heap := (cw_heap w)(a \<mapsto> take off old @ bs @ drop (off + length bs) old)\<rparr>)"
  by (auto simp: heap_write_def split: ptr.splits option.splits)

lemma heap_read_block:
  "heap_read w p off n = Returns bs \<longleftrightarrow>
     (\<exists>a old. p = PHeap a \<and> cw_heap w a = Some old \<and> off + n \<le> length old \<and> bs = take n (drop off old))"
  by (auto simp: heap_read_def split: ptr.splits option.splits)

lemma heap_free_block:
  "heap_free p w = Returns w' \<longleftrightarrow>
     (p = PNull \<and> w' = w) \<or>
     (\<exists>a bs. p = PHeap a \<and> cw_heap w a = Some bs \<and> w' = w\<lparr>cw_heap := (cw_heap w)(a := None)\<rparr>)"
  by (auto simp: heap_free_def split: ptr.splits option.splits)

lemma write_stack:
  "write_local_file e path PStack bs w = Returns (r, w') \<longleftrightarrow>
     dv_open e path \<and> dv_write e path (length bs) = int (length bs) \<and> r = DOCA_SUCCESS \<and>
     w' = w\<lparr>cw_files := (cw_files w)(path \<mapsto> bs @
              drop (length bs) (case cw_files w path of None \<Rightarrow> [] | Some old \<Rightarrow> old))\<rparr>"
  by (auto simp: write_local_file_def heap_free_block Let_def)

lemma populate_dst_result:
  assumes "populate_dst_buf e n w = Returns (r, p, w')" and fresh: "comp_fresh w"
  shows "comp_fresh w'" and "cw_next w' = cw_next w + 1"
    and "\<forall>a < cw_next w. cw_heap w' a = cw_heap w a"
    and "cw_doca_bufs w' = (if r = DOCA_SUCCESS then cw_doca_bufs w + 1 else cw_doca_bufs w)"
    and "r = DOCA_SUCCESS \<Longrightarrow> p = PHeap (cw_next w) \<and> cw_heap w' (cw_next w) = Some (replicate n 0)"
    and "cw_files w' = cw_files w"
    and "total_compressed_bytes w' = total_compressed_bytes w"
    and "total_decompressed_bytes w' = total_decompressed_bytes w"
  using assms
  by (auto simp: populate_dst_buf_def heap_calloc_def Let_def doca_def comp_fresh_def comp_munmap_def
      heap_free_block split: if_splits)

lemma process_job_result:
  "process_job e job data n w = Returns (r, w') \<Longrightarrow>
     w' = snd (doca e SubmitJob w) \<and> (r = DOCA_SUCCESS \<longrightarrow> fst (dv_job e job data n) = DOCA_SUCCESS)"
  by (auto simp: process_job_def doca_def split: if_splits option.splits)

lemma doca_world [simp]:
  "cw_heap (snd (doca e c w)) = cw_heap w" "cw_next (snd (doca e c w)) = cw_next w"
  "cw_doca_bufs (snd (doca e c w)) = cw_doca_bufs w" "cw_files (snd (doca e c w)) = cw_files w"
  "fst (doca e c w) = dv_rc e c"
  by (simp_all add: doca_def)

lemma refcount_rm [simp]:
  "cw_heap (doca_buf_refcount_rm w) = cw_heap w" "cw_next (doca_buf_refcount_rm w) = cw_next w"
  "cw_files (doca_buf_refcount_rm w) = cw_files w" "cw_doca_bufs (doca_buf_refcount_rm w) = cw_doca_bufs w - 1"
  by (simp_all add: doca_buf_refcount_rm_def)

lemma hw_run_job_result:
  assumes run: "hw_run_job e data job n p0 dst w = Returns (out, w')" and dst: "dst = PHeap a"
    and blk: "cw_heap w a = Some (replicate n 0)" and job: "dv_job e job data n = (jr, result, chksum)"
  shows "cw_next w' = cw_next w" and "cw_doca_bufs w' = cw_doca_bufs w - 2"
    and "\<forall>b. b \<noteq> a \<longrightarrow> cw_heap w' b = cw_heap w b" and "cw_heap w' a \<noteq> None"
    and "co_error out \<noteq> DOCA_SUCCESS \<Longrightarrow> co_file out = p0 \<and> co_len out = None \<and> cw_files w' = cw_files w"
    and "co_error out = DOCA_SUCCESS \<Longrightarrow>
       out = \<lparr>co_error = DOCA_SUCCESS, co_file = dst, co_len = Some (length result), co_chksum = Some chksum\<rparr> \<and>
       length result \<le> n \<and> cw_heap w' a = Some (result @ replicate (n - length result) 0) \<and>
       jr = DOCA_SUCCESS \<and> (\<forall>path. path \<noteq> ''compress_size'' \<longrightarrow> cw_files w' path = cw_files w path)"
  using run dst blk job
  by (auto simp: hw_run_job_def hw_failed_def heap_write_block write_stack Let_def
      dest!: process_job_result split: if_splits)

text \<open>Everything a job in hardware does to the world, whatever the answers.\<close>

definition hw_kept :: "comp_world \<Rightarrow> comp_world \<Rightarrow> bool" where
  "hw_kept w w' \<longleftrightarrow>
     comp_fresh w' \<and> (\<forall>a < cw_next w. cw_heap w' a = cw_heap w a) \<and> cw_doca_bufs w' = cw_doca_bufs w"

definition hw_finished :: "comp_env \<Rightarrow> u8 list \<Rightarrow> doca_job_type \<Rightarrow> nat \<Rightarrow> comp_out \<Rightarrow> comp_world \<Rightarrow> comp_world \<Rightarrow> bool" where
  "hw_finished e data job n out w w' \<longleftrightarrow>
     (case dv_job e job data n of (jr, result, chksum) \<Rightarrow>
        jr = DOCA_SUCCESS \<and> length result \<le> n \<and>
        out = \<lparr>co_error = DOCA_SUCCESS, co_file = PHeap (cw_next w), co_len = Some (length result),
               co_chksum = Some chksum\<rparr> \<and>
        cw_next w' = cw_next w + 1 \<and>
        cw_heap w' (cw_next w) = Some (result @ replicate (n - length result) 0) \<and>
        (\<forall>path. path \<noteq> ''compress_size'' \<longrightarrow> cw_files w' path = cw_files w path))"

lemma hw_failed_result:
  "hw_failed r p0 w = Returns (out, w') \<longleftrightarrow>
     out = \<lparr>co_error = r, co_file = p0, co_len = None, co_chksum = None\<rparr> \<and> w' = w"
  by (auto simp: hw_failed_def)

lemma compress_hw_cases:
  assumes "compress_file_hw e src data job n p0 w = Returns (out, w')"
  obtains (early) "co_error out \<noteq> DOCA_SUCCESS" "co_file out = p0" "co_len out = None"
      "cw_heap w' = cw_heap w" "cw_next w' = cw_next w" "cw_files w' = cw_files w"
      "cw_doca_bufs w' = cw_doca_bufs w"
  | (populated) w1 r dst w2 where "cw_heap w1 = cw_heap w" "cw_next w1 = cw_next w"
      "cw_files w1 = cw_files w" "cw_doca_bufs w1 = cw_doca_bufs w + 1"
      "populate_dst_buf e n w1 = Returns (r, dst, w2)"
      "if r = DOCA_SUCCESS then hw_run_job e data job n p0 dst w2 = Returns (out, w')
       else hw_failed r p0 (doca_buf_refcount_rm w2) = Returns (out, w')"
proof (cases "\<forall>c \<in> {SetSrcMemrange, SetSrcFreeCb, StartSrcMmap, GetSrcBuf}. dv_rc e c = DOCA_SUCCESS")
  case False
  then show ?thesis using assms
    by (intro early) (auto simp: compress_file_hw_def doca_def Let_def comp_munmap_def hw_failed_result
        split: if_splits)
next
  case True
  let ?w1 = "(snd (doca e GetSrcBuf (snd (doca e StartSrcMmap (snd (doca e SetSrcFreeCb
        (snd (doca e SetSrcMemrange w))))))))\<lparr>cw_doca_bufs := cw_doca_bufs w + 1\<rparr>"
  have "run_bind (populate_dst_buf e n ?w1) (\<lambda>(r, dst, w).
      if r \<noteq> DOCA_SUCCESS then hw_failed r p0 (doca_buf_refcount_rm w)
      else hw_run_job e data job n p0 dst w) = Returns (out, w')"
    using assms True by (simp add: compress_file_hw_def doca_def)
  then obtain r dst w2 where "populate_dst_buf e n ?w1 = Returns (r, dst, w2)"
    "(if r \<noteq> DOCA_SUCCESS then hw_failed r p0 (doca_buf_refcount_rm w2)
      else hw_run_job e data job n p0 dst w2) = Returns (out, w')" by auto
  then show ?thesis by (intro populated[of ?w1 r dst w2]) (simp_all split: if_splits)
qed

lemma compress_hw_result:
  assumes run: "compress_file_hw e src data job n p0 w = Returns (out, w')" and fresh: "comp_fresh w"
  shows "hw_kept w w'"
    and "co_error out \<noteq> DOCA_SUCCESS \<Longrightarrow> co_file out = p0 \<and> co_len out = None \<and> cw_files w' = cw_files w"
    and "co_error out = DOCA_SUCCESS \<Longrightarrow> hw_finished e data job n out w w'"
proof -
  have "hw_kept w w' \<and>
      (co_error out \<noteq> DOCA_SUCCESS \<longrightarrow> co_file out = p0 \<and> co_len out = None \<and> cw_files w' = cw_files w) \<and>
      (co_error out = DOCA_SUCCESS \<longrightarrow> hw_finished e data job n out w w')"
    using run
  proof (cases rule: compress_hw_cases)
    case early
    then show ?thesis using fresh by (simp add: hw_kept_def comp_fresh_def)
  next
    case (populated w1 r dst w2)
    have f1: "comp_fresh w1" using fresh populated(1,2) by (simp add: comp_fresh_def)
    note p = populate_dst_result[OF populated(5) f1]
    show ?thesis
    proof (cases "r = DOCA_SUCCESS")
      case False
      then show ?thesis using populated p
        by (auto simp: hw_failed_result hw_kept_def comp_fresh_def)
    next
      case True
      obtain jr result chksum where job: "dv_job e job data n = (jr, result, chksum)" by (metis prod.exhaust)
      have dst: "dst = PHeap (cw_next w)" "cw_heap w2 (cw_next w) = Some (replicate n 0)"
        using p(5)[OF True] populated(2) by simp_all
      have run: "hw_run_job e data job n p0 dst w2 = Returns (out, w')" using populated(6) True by simp
      note j = hw_run_job_result[OF run dst job]
      have "comp_fresh w'" using p(1,2) j(1,3) populated(2) by (auto simp: comp_fresh_def)
      moreover have "\<forall>a < cw_next w. cw_heap w' a = cw_heap w a" using p(3) j(3) populated(1,2) by simp
      moreover have "cw_doca_bufs w' = cw_doca_bufs w" using p(4) j(2) populated(4) True by simp
      moreover have "hw_finished e data job n out w w'" if "co_error out = DOCA_SUCCESS"
        using j(1) j(6)[OF that] p(2,6) populated(2,3) dst(1) by (simp add: hw_finished_def job)
      ultimately show ?thesis using j(5) p(6) populated(3) by (simp add: hw_kept_def)
    qed
  qed
  then show "hw_kept w w'"
    "co_error out \<noteq> DOCA_SUCCESS \<Longrightarrow> co_file out = p0 \<and> co_len out = None \<and> cw_files w' = cw_files w"
    "co_error out = DOCA_SUCCESS \<Longrightarrow> hw_finished e data job n out w w'" by blast+
qed

text \<open>C24: whatever DOCA answers, a compression or decompression in hardware gives back the DOCA buffers it
  took and leaves the blocks of its caller alone. When it succeeds, its result is the block after the
  one that \<open>compress_file\<close> allocated for it: it holds what the job wrote, padded with zeros to the size
  of the destination; and the first block stays allocated although no variable points to it any more,
  also after the caller has freed the result. When it fails, the length is not written.\<close>

theorem compress_file_hw_resources:
  assumes run: "compress_file e src data job COMPRESS_DEFLATE_HW w = Returns (out, w')" and fresh: "comp_fresh w"
  defines "n \<equiv> unat (compress_dst_size job (of_nat (length data)))"
  shows "cw_doca_bufs w' = cw_doca_bufs w \<and> (\<forall>a < cw_next w. cw_heap w' a = cw_heap w a) \<and>
    (co_error out \<noteq> DOCA_SUCCESS \<longrightarrow> co_len out = None \<and> cw_files w' = cw_files w) \<and>
    (co_error out = DOCA_SUCCESS \<longrightarrow>
       co_file out = PHeap (cw_next w + 1) \<and>
       (\<exists>result. co_len out = Some (length result) \<and> fst (snd (dv_job e job data n)) = result \<and>
          cw_heap w' (cw_next w + 1) = Some (result @ replicate (n - length result) 0)) \<and>
       cw_heap w' (cw_next w) = Some (replicate n 0) \<and>
       (\<exists>w''. heap_free (co_file out) w' = Returns w'' \<and> live_blocks w'' = insert (cw_next w) (live_blocks w)))"
proof -
  obtain p w1 where p: "heap_calloc e n w = (p, w1)" by (metis prod.exhaust)
  show ?thesis
  proof (cases "dv_alloc e (cw_next w)")
    case False
    then have "out = \<lparr>co_error = DOCA_ERROR_NO_MEMORY, co_file = PNull, co_len = None, co_chksum = None\<rparr> \<and>
        w' = w\<lparr>cw_next := cw_next w + 1\<rparr>"
      using run by (auto simp: compress_file_def heap_calloc_def Let_def)
    then show ?thesis by simp
  next
    case True
    let ?w1 = "w\<lparr>cw_heap := (cw_heap w)(cw_next w \<mapsto> replicate n 0), cw_next := cw_next w + 1\<rparr>"
    have hw: "compress_file_hw e src data job n (PHeap (cw_next w)) ?w1 = Returns (out, w')"
      using run True by (simp add: compress_file_def heap_calloc_def Let_def n_def)
    have f1: "comp_fresh ?w1" using fresh by (simp add: comp_fresh_def)
    note r = compress_hw_result[OF hw f1]
    have kept: "cw_doca_bufs w' = cw_doca_bufs w" "\<forall>a < cw_next w. cw_heap w' a = cw_heap w a"
        "cw_heap w' (cw_next w) = Some (replicate n 0)" "comp_fresh w'"
      using r(1) by (auto simp: hw_kept_def)
    show ?thesis
    proof (cases "co_error out = DOCA_SUCCESS")
      case False
      then show ?thesis using kept r(2) by simp
    next
      case True
      obtain jr result chksum where job: "dv_job e job data n = (jr, result, chksum)" by (metis prod.exhaust)
      have fin: "co_file out = PHeap (cw_next w + 1)" "co_len out = Some (length result)"
          "cw_heap w' (cw_next w + 1) = Some (result @ replicate (n - length result) 0)"
          "cw_next w' = cw_next w + 2"
        using r(3)[OF True] by (auto simp: hw_finished_def job)
      have "live_blocks (w'\<lparr>cw_heap := (cw_heap w')(cw_next w + 1 := None)\<rparr>) =
          insert (cw_next w) (live_blocks w)"
      proof (rule set_eqI)
        fix a
        consider "a < cw_next w" | "a = cw_next w" | "a = cw_next w + 1" | "cw_next w + 2 \<le> a" by linarith
        then show "a \<in> live_blocks (w'\<lparr>cw_heap := (cw_heap w')(cw_next w + 1 := None)\<rparr>) \<longleftrightarrow>
            a \<in> insert (cw_next w) (live_blocks w)"
          using kept fin(4) fresh by cases (auto simp: live_blocks_def comp_fresh_def domIff)
      qed
      then show ?thesis using kept fin job True by (auto simp: heap_free_block)
    qed
  qed
qed

subsection \<open>A job that succeeds\<close>

text \<open>Everything that a job asks for is granted; and everything the program asks for.\<close>

definition job_accepting :: "comp_env \<Rightarrow> bool" where
  "job_accepting e \<longleftrightarrow>
     (\<forall>c. dv_rc e c = DOCA_SUCCESS) \<and>
     (\<exists>j. dv_progress e j = DOCA_SUCCESS \<and> (\<forall>i < j. dv_progress e i = DOCA_ERROR_AGAIN)) \<and>
     (\<forall>a. dv_alloc e a) \<and> dv_open e ''compress_size'' \<and> (\<forall>n. dv_write e ''compress_size'' n = int n)"

definition comp_accepting :: "comp_env \<Rightarrow> bool" where
  "comp_accepting e \<longleftrightarrow>
     job_accepting e \<and> (\<forall>path. dv_open e path \<and> dv_fstat e path) \<and> (\<forall>path n. dv_write e path n = int n)"

text \<open>The job on \<open>data\<close> yields the bytes \<open>c\<close> and the checksum \<open>chk\<close>. Decompression in software yields nothing:
  it expects the header of a zlib stream (\<open>MAX_WBITS\<close>), which neither the program's own compression
  (\<open>-MAX_WBITS\<close>) nor DOCA writes, and refuses the stream.\<close>

definition comp_yields ::
  "comp_env \<Rightarrow> file_compression_compress_method \<Rightarrow> doca_job_type \<Rightarrow> u8 list \<Rightarrow> u8 list \<Rightarrow> u64 \<Rightarrow> bool" where
  "comp_yields e method job data c chk \<longleftrightarrow>
     (let n = unat (compress_dst_size job (of_nat (length data)))
      in length c \<le> n \<and>
         (case method of
            COMPRESS_DEFLATE_HW \<Rightarrow> dv_job e job data n = (DOCA_SUCCESS, c, chk)
          | COMPRESS_DEFLATE_SW \<Rightarrow>
              (case job of
                 DOCA_COMPRESS_DEFLATE_JOB \<Rightarrow>
                   0 \<le> dv_zlib e DeflateNoFlush (- MAX_WBITS) data n \<and>
                   dv_zlib e DeflateFinish (- MAX_WBITS) data n = Z_STREAM_END \<and>
                   0 \<le> dv_zlib e DeflateEnd (- MAX_WBITS) data n \<and>
                   dv_zout e DeflateFinish (- MAX_WBITS) data n = c \<and> calculate_checksum_sw e data = chk
               | DOCA_DECOMPRESS_DEFLATE_JOB \<Rightarrow> False)))"

definition inflate_refuses :: "comp_env \<Rightarrow> u8 list \<Rightarrow> bool" where
  "inflate_refuses e data \<longleftrightarrow>
     (let n = unat (compress_dst_size DOCA_DECOMPRESS_DEFLATE_JOB (of_nat (length data)))
      in dv_zlib e InflateSyncFlush MAX_WBITS data n < 0 \<or>
         dv_zlib e InflateFinish MAX_WBITS data n \<noteq> Z_STREAM_END)"

text \<open>The world after a job: old blocks and files (but the report) are as before.\<close>

definition comp_extends :: "comp_world \<Rightarrow> comp_world \<Rightarrow> bool" where
  "comp_extends w w' \<longleftrightarrow>
     comp_fresh w' \<and> cw_next w \<le> cw_next w' \<and> (\<forall>a < cw_next w. cw_heap w' a = cw_heap w a) \<and>
     (\<forall>path. path \<noteq> ''compress_size'' \<longrightarrow> cw_files w' path = cw_files w path)"

lemma comp_accepting_file: "comp_accepting e \<Longrightarrow> dv_open e path"
  and comp_accepting_write: "comp_accepting e \<Longrightarrow> dv_write e path n = int n"
  and comp_accepting_job: "comp_accepting e \<Longrightarrow> job_accepting e"
  by (simp_all add: comp_accepting_def)

lemma process_job_success:
  assumes "job_accepting e"
  shows "process_job e job data n w = Returns (fst (dv_job e job data n), snd (doca e SubmitJob w))"
proof -
  obtain j where "dv_progress e j = DOCA_SUCCESS" "\<forall>i < j. dv_progress e i = DOCA_ERROR_AGAIN"
    and "dv_rc e SubmitJob = DOCA_SUCCESS" using assms by (auto simp: job_accepting_def)
  then show ?thesis using doca_poll_first[of 0 j "dv_progress e"] by (simp add: process_job_def doca_def)
qed

lemma write_local_done:
  assumes "dv_open e path" and "dv_write e path (length bs) = int (length bs)"
  shows "write_local_file e path p bs w = Returns (DOCA_SUCCESS, w\<lparr>cw_files := (cw_files w)(path \<mapsto> bs @
     drop (length bs) (case cw_files w path of None \<Rightarrow> [] | Some old \<Rightarrow> old))\<rparr>)"
  using assms by (simp add: write_local_file_def Let_def)

lemmas write_local_success = write_local_done[OF comp_accepting_file comp_accepting_write]

lemma compress_hw_returns:
  assumes acc: "job_accepting e" and job: "dv_job e job data n = (DOCA_SUCCESS, c, chk)" and len: "length c \<le> n"
  shows "\<exists>out w'. compress_file_hw e src data job n p0 w = Returns (out, w') \<and> co_error out = DOCA_SUCCESS"
proof -
  have rc: "dv_rc e c = DOCA_SUCCESS" "dv_alloc e a" for c a using acc by (simp_all add: job_accepting_def)
  have rep: "dv_open e ''compress_size''" "dv_write e ''compress_size'' n = int n" for n
    using acc by (simp_all add: job_accepting_def)
  show ?thesis
    by (simp add: compress_file_hw_def rc doca_def populate_dst_buf_def heap_calloc_def Let_def hw_run_job_def
        process_job_success[OF acc] job write_local_done[OF rep] heap_write_def len del: run_bind_Returns)
qed

lemma compress_file_success:
  assumes acc: "job_accepting e" and fresh: "comp_fresh w" and y: "comp_yields e meth job data c chk"
  shows "\<exists>p w'. compress_file e src data job meth w =
      Returns (\<lparr>co_error = DOCA_SUCCESS, co_file = p, co_len = Some (length c), co_chksum = Some chk\<rparr>, w') \<and>
    heap_read w' p 0 (length c) = Returns c \<and> comp_extends w w' \<and>
    (\<exists>a blk. cw_next w \<le> a \<and> p = PHeap a \<and> cw_heap w' a = Some blk \<and> take (length c) blk = c \<and>
       length blk = unat (compress_dst_size job (of_nat (length data))))"
proof -
  let ?n = "unat (compress_dst_size job (of_nat (length data)))"
  let ?w1 = "w\<lparr>cw_heap := (cw_heap w)(cw_next w \<mapsto> replicate ?n 0), cw_next := cw_next w + 1\<rparr>"
  have al: "dv_alloc e (cw_next w)" using acc by (simp add: job_accepting_def)
  have f1: "comp_fresh ?w1" using fresh by (simp add: comp_fresh_def)
  have len: "length c \<le> ?n" using y by (simp add: comp_yields_def Let_def)
  show ?thesis
  proof (cases meth)
    case COMPRESS_DEFLATE_HW
    then have job: "dv_job e job data ?n = (DOCA_SUCCESS, c, chk)" using y by (simp add: comp_yields_def Let_def)
    obtain out w' where hw: "compress_file_hw e src data job ?n (PHeap (cw_next w)) ?w1 = Returns (out, w')"
      and ok: "co_error out = DOCA_SUCCESS" using compress_hw_returns[OF acc job len] by blast
    have "compress_file e src data job meth w = Returns (out, w')"
      using hw al COMPRESS_DEFLATE_HW by (simp add: compress_file_def heap_calloc_def Let_def)
    moreover have "hw_kept ?w1 w'" "hw_finished e data job ?n out ?w1 w'"
      using compress_hw_result[OF hw f1] ok by blast+
    then have "out = \<lparr>co_error = DOCA_SUCCESS, co_file = PHeap (cw_next w + 1), co_len = Some (length c),
          co_chksum = Some chk\<rparr>" "heap_read w' (PHeap (cw_next w + 1)) 0 (length c) = Returns c"
        "comp_extends w w'" "cw_heap w' (cw_next w + 1) = Some (c @ replicate (?n - length c) 0)"
      by (auto simp: hw_finished_def job heap_read_block comp_extends_def hw_kept_def)
    ultimately show ?thesis using len by (intro exI[of _ "PHeap (cw_next w + 1)"] exI[of _ w']) auto
  next
    case COMPRESS_DEFLATE_SW
    have ok: "comp_extends w (?w1\<lparr>cw_heap := (cw_heap w)(cw_next w \<mapsto> c @ drop (length c) (replicate ?n 0))\<rparr>)"
      using f1 by (auto simp: comp_extends_def comp_fresh_def)
    show ?thesis
    proof (cases job)
      case DOCA_COMPRESS_DEFLATE_JOB
      then show ?thesis using y COMPRESS_DEFLATE_SW al len ok
        by (simp add: compress_file_def comp_yields_def compress_file_sw_def heap_calloc_def heap_write_def
            heap_read_def Let_def del: run_bind_Returns)
    next
      case DOCA_DECOMPRESS_DEFLATE_JOB
      then show ?thesis using y COMPRESS_DEFLATE_SW by (simp add: comp_yields_def Let_def)
    qed
  qed
qed

subsection \<open>Files as written and read\<close>

lemma naive_read_short:
  "length rest \<le> n \<Longrightarrow> 0 < n \<Longrightarrow> naive_read n dst rest = rest @ drop (length rest) dst"
  by (cases "rest = []") (simp_all add: naive_read.simps[of n])

lemma naive_read_length: "length rest \<le> length dst \<Longrightarrow> length (naive_read n dst rest) = length dst"
  by (induction n dst rest rule: naive_read.induct) (subst naive_read.simps, auto)

lemma naive_read_beyond:
  "length rest \<le> length dst \<Longrightarrow> drop n (naive_read n dst rest) = drop n dst"
proof (induction n dst rest rule: naive_read.induct)
  case (1 n dst rest)
  show ?case
  proof (cases "n = 0 \<or> rest = []")
    case True
    then show ?thesis using 1 by (subst naive_read.simps) (auto simp: naive_read_length)
  next
    case False
    then have "drop n (naive_read n dst rest) = drop n (take n rest @ drop (length (take n rest)) dst)"
      using 1 by (subst naive_read.simps) auto
    also have "\<dots> = drop n dst" by (simp add: min_def)
    finally show ?thesis .
  qed
qed

lemma read_naive_success:
  assumes acc: "comp_accepting e" and fresh: "comp_fresh w" and stored: "cw_files w path = Some content"
    and size: "content \<noteq> []" "length content \<le> unat MAX_FILE_SIZE"
  shows "\<exists>p bs w'. read_local_file_naive e path w = Returns (DOCA_SUCCESS, Some (p, length content), w') \<and>
      heap_read w' p 0 (length content) = Returns bs \<and> comp_extends w w' \<and>
      cw_files w' = cw_files w \<and>
      bs = naive_read READ_BUF_SIZE (map (dv_malloc e (cw_next w + 1)) [0..<length content]) content"
proof -
  have a: "dv_alloc e a" "dv_open e path" "dv_fstat e path" for a using acc by (simp_all add: comp_accepting_def job_accepting_def)
  let ?dst = "map (dv_malloc e (cw_next w + 1)) [0..<length content]"
  have len: "length (naive_read READ_BUF_SIZE ?dst content) = length content" by (simp add: naive_read_length)
  then show ?thesis
    using fresh size
    by (auto simp: read_local_file_naive_def stored a heap_malloc_def heap_read_def heap_write_def Let_def
        comp_extends_def comp_fresh_def simp del: run_bind_Returns)
qed

text \<open>C27: the reader of the compression program gives the file when it has at most 1 MB. A larger file it
  does not read: everything past the first megabyte is what \<open>malloc\<close> found in the buffer, because every
  chunk is copied to the start of it.\<close>

theorem read_local_file_naive_content:
  assumes acc: "comp_accepting e" and fresh: "comp_fresh w" and stored: "cw_files w path = Some content"
    and size: "content \<noteq> []" "length content \<le> unat MAX_FILE_SIZE"
  shows "\<exists>p bs w'. read_local_file_naive e path w = Returns (DOCA_SUCCESS, Some (p, length content), w') \<and>
    heap_read w' p 0 (length content) = Returns bs \<and>
    (length content \<le> READ_BUF_SIZE \<longrightarrow> bs = content) \<and>
    drop READ_BUF_SIZE bs = map (dv_malloc e (cw_next w + 1)) [READ_BUF_SIZE..<length content]"
proof -
  let ?dst = "map (dv_malloc e (cw_next w + 1)) [0..<length content]"
  obtain p w' where r: "read_local_file_naive e path w = Returns (DOCA_SUCCESS, Some (p, length content), w')"
    "heap_read w' p 0 (length content) = Returns (naive_read READ_BUF_SIZE ?dst content)"
    using read_naive_success[OF assms] by blast
  moreover have "naive_read READ_BUF_SIZE ?dst content = content" if "length content \<le> READ_BUF_SIZE"
    using that naive_read_short[of content READ_BUF_SIZE] by simp
  moreover have "drop READ_BUF_SIZE (naive_read READ_BUF_SIZE ?dst content) =
      map (dv_malloc e (cw_next w + 1)) [READ_BUF_SIZE..<length content]"
    by (simp only: naive_read_beyond length_map length_upt diff_zero order_refl drop_map drop_upt add_0)
  ultimately show ?thesis by blast
qed

text \<open>A file as written holds the bytes of the write and after them whatever it held beyond them: a
  shorter result over a longer old one leaves the tail of the old one, which the mapping reader hands
  to the next decompression.\<close>

theorem write_local_file_keeps_tail:
  assumes acc: "comp_accepting e" and mapped: "dv_mmap e path"
    and old: "cw_files w path = Some old" and bs: "bs \<noteq> []" "length bs \<le> 2 ^ 28" "length old \<le> 2 ^ 28"
  shows "\<exists>w'. write_local_file e path p bs w = Returns (DOCA_SUCCESS, w') \<and>
    fst (read_local_file_mmap e path w') = DOCA_SUCCESS \<and>
    fst (snd (read_local_file_mmap e path w')) = Some (PMapped path, max (length bs) (length old)) \<and>
    source_bytes w' (PMapped path) (max (length bs) (length old)) = Returns (bs @ drop (length bs) old)"
proof -
  let ?w = "w\<lparr>cw_files := (cw_files w)(path \<mapsto> bs @ drop (length bs) old)\<rparr>"
  have "write_local_file e path p bs w = Returns (DOCA_SUCCESS, ?w)"
    using write_local_success[OF acc acc] old by simp
  moreover have "length (bs @ drop (length bs) old) = max (length bs) (length old)" by simp
  ultimately show ?thesis using acc mapped bs
    by (intro exI[of _ ?w]) (auto simp: read_local_file_mmap_def comp_accepting_def source_bytes_def)
qed

subsection \<open>A file through the program\<close>

lemma init_world [simp]:
  "cw_heap (snd (doca_compress_init e w)) = cw_heap w" "cw_next (snd (doca_compress_init e w)) = cw_next w"
  "cw_files (snd (doca_compress_init e w)) = cw_files w"
  "cw_heap (doca_compress_cleanup e w) = cw_heap w" "cw_next (doca_compress_cleanup e w) = cw_next w"
  "cw_files (doca_compress_cleanup e w) = cw_files w"
  by (simp_all add: doca_compress_init_def file_compression_init_def doca_compress_cleanup_def
      file_compression_cleanup_def Let_def case_prod_beta)

lemma heap_read_same: "cw_heap w' = cw_heap w \<Longrightarrow> heap_read w' = heap_read w"
  by (intro ext) (simp add: heap_read_def cong: ptr.case_cong)

lemma extends_trans: "comp_extends w w1 \<Longrightarrow> comp_extends w1 w2 \<Longrightarrow> comp_extends w w2"
  by (auto simp: comp_extends_def)

lemma extends_same:
  "comp_extends w w1 \<Longrightarrow> cw_heap w2 = cw_heap w1 \<Longrightarrow> cw_next w2 = cw_next w1 \<Longrightarrow> cw_files w2 = cw_files w1 \<Longrightarrow>
     comp_extends w w2"
  by (simp add: comp_extends_def comp_fresh_def)

text \<open>The bytes already in a file do not reach beyond those that are written to it.\<close>

definition not_longer :: "u8 list option \<Rightarrow> u8 list \<Rightarrow> bool" where
  "not_longer old bs \<longleftrightarrow> (case old of None \<Rightarrow> True | Some b \<Rightarrow> length b \<le> length bs)"

lemma write_not_longer:
  assumes "comp_accepting e" and "not_longer (cw_files w path) bs"
  shows "write_local_file e path p bs w = Returns (DOCA_SUCCESS, w\<lparr>cw_files := (cw_files w)(path \<mapsto> bs)\<rparr>)"
  using write_local_success[OF assms(1) assms(1)] assms(2) by (auto simp: not_longer_def split: option.splits)

lemma main_compress_success:
  assumes acc: "comp_accepting e" and fresh: "comp_fresh w" and stored: "cw_files w ''input_files'' = Some content"
    and size: "content \<noteq> []" "length content \<le> READ_BUF_SIZE"
    and y: "comp_yields e m DOCA_COMPRESS_DEFLATE_JOB content c chk"
    and old: "not_longer (cw_files w ''input_file_comp'') c"
  shows "\<exists>out w'. main_compress e m w = Returns (EXIT_SUCCESS, out, w') \<and> co_chksum out = Some chk \<and>
    comp_fresh w' \<and> cw_files w' ''input_file_comp'' = Some c \<and>
    (\<forall>path. path \<notin> {''compress_size'', ''input_file_comp''} \<longrightarrow> cw_files w' path = cw_files w path)"
proof -
  have sz: "length content \<le> unat MAX_FILE_SIZE" using size by simp
  obtain p w1 where r: "read_local_file_naive e ''input_files'' w = Returns (DOCA_SUCCESS, Some (p, length content), w1)"
      and bs: "heap_read w1 p 0 (length content) = Returns content"
      and x1: "comp_extends w w1" "cw_files w1 = cw_files w"
    using read_naive_success[OF acc fresh stored size(1) sz] size naive_read_short[of content READ_BUF_SIZE] by auto
  let ?w1 = "snd (doca_compress_init e w1)"
  have f1: "comp_fresh ?w1" using x1 by (simp add: comp_extends_def comp_fresh_def)
  have bs1: "heap_read ?w1 p 0 (length content) = Returns content" using bs by (simp add: heap_read_same[of ?w1 w1])
  obtain q w2 where c: "compress_file e p content DOCA_COMPRESS_DEFLATE_JOB m ?w1 =
        Returns (\<lparr>co_error = DOCA_SUCCESS, co_file = q, co_len = Some (length c), co_chksum = Some chk\<rparr>, w2)"
      and qs: "heap_read w2 q 0 (length c) = Returns c" and x2: "comp_extends ?w1 w2"
    using compress_file_success[OF comp_accepting_job[OF acc] f1 y] by blast
  let ?w2 = "doca_compress_cleanup e w2"
  have qs2: "heap_read ?w2 q 0 (length c) = Returns c" using qs by (simp add: heap_read_same[of ?w2 w2])
  have "not_longer (cw_files ?w2 ''input_file_comp'') c" using old x1 x2 by (simp add: comp_extends_def)
  note wr = write_not_longer[OF acc this]
  have "main_compress e m w = Returns (EXIT_SUCCESS,
      \<lparr>co_error = DOCA_SUCCESS, co_file = q, co_len = Some (length c), co_chksum = Some chk\<rparr>,
      ?w2\<lparr>cw_files := (cw_files ?w2)(''input_file_comp'' \<mapsto> c)\<rparr>)"
    using c qs2 wr bs1 by (simp add: main_compress_def r case_prod_beta Let_def del: run_bind_Returns)
  then show ?thesis using x1 x2 by (auto simp: comp_extends_def comp_fresh_def)
qed

lemma main_decompress_success:
  assumes acc: "comp_accepting e" and fresh: "comp_fresh w" and stored: "cw_files w ''input_file_comp'' = Some c"
    and size: "c \<noteq> []" "length c \<le> READ_BUF_SIZE"
    and y: "comp_yields e m DOCA_DECOMPRESS_DEFLATE_JOB c content chk" and chk: "co_chksum out = Some chk"
    and old: "not_longer (cw_files w ''input_file_decomp'') content"
  shows "\<exists>w'. main_decompress e m out w = Returns (EXIT_SUCCESS, w') \<and>
    cw_files w' ''input_file_decomp'' = Some content \<and>
    (\<forall>path. path \<notin> {''compress_size'', ''input_file_decomp''} \<longrightarrow> cw_files w' path = cw_files w path)"
proof -
  have sz: "length c \<le> unat MAX_FILE_SIZE" using size by simp
  obtain p w1 where r: "read_local_file_naive e ''input_file_comp'' w = Returns (DOCA_SUCCESS, Some (p, length c), w1)"
      and bs: "heap_read w1 p 0 (length c) = Returns c" and x1: "comp_extends w w1" "cw_files w1 = cw_files w"
    using read_naive_success[OF acc fresh stored size(1) sz] size naive_read_short[of c READ_BUF_SIZE] by auto
  let ?w1 = "snd (doca_compress_init e w1)"
  have f1: "comp_fresh ?w1" using x1 by (simp add: comp_extends_def comp_fresh_def)
  have bs1: "heap_read ?w1 p 0 (length c) = Returns c" using bs by (simp add: heap_read_same[of ?w1 w1])
  obtain q w2 where c: "compress_file e p c DOCA_DECOMPRESS_DEFLATE_JOB m ?w1 =
        Returns (\<lparr>co_error = DOCA_SUCCESS, co_file = q, co_len = Some (length content), co_chksum = Some chk\<rparr>, w2)"
      and qs: "heap_read w2 q 0 (length content) = Returns content" and x2: "comp_extends ?w1 w2"
    using compress_file_success[OF comp_accepting_job[OF acc] f1 y] by blast
  let ?w2 = "doca_compress_cleanup e w2"
  have qs2: "heap_read ?w2 q 0 (length content) = Returns content" using qs by (simp add: heap_read_same[of ?w2 w2])
  have "not_longer (cw_files ?w2 ''input_file_decomp'') content" using old x1 x2 by (simp add: comp_extends_def)
  note wr = write_not_longer[OF acc this]
  have "main_decompress e m out w =
      Returns (EXIT_SUCCESS, ?w2\<lparr>cw_files := (cw_files ?w2)(''input_file_decomp'' \<mapsto> content)\<rparr>)"
    using c qs2 wr bs1 chk by (simp add: main_decompress_def r case_prod_beta Let_def del: run_bind_Returns)
  then show ?thesis using x1 x2 by (auto simp: comp_extends_def)
qed

text \<open>A stream that zlib refuses: nothing is written to the length of the result, which the checksum needs.\<close>

lemma compress_file_refused:
  assumes "\<forall>a. dv_alloc e a" and "inflate_refuses e data"
  shows "compress_file e src data DOCA_DECOMPRESS_DEFLATE_JOB COMPRESS_DEFLATE_SW w = Undefined"
  using assms
  by (auto simp: compress_file_def decompress_file_sw_def inflate_refuses_def heap_calloc_def Let_def)

lemma main_decompress_refused:
  assumes acc: "comp_accepting e" and fresh: "comp_fresh w" and stored: "cw_files w ''input_file_comp'' = Some c"
    and size: "c \<noteq> []" "length c \<le> READ_BUF_SIZE" and no: "inflate_refuses e c"
  shows "main_decompress e COMPRESS_DEFLATE_SW out w = Undefined"
proof -
  have sz: "length c \<le> unat MAX_FILE_SIZE" using size by simp
  obtain p w1 where r: "read_local_file_naive e ''input_file_comp'' w = Returns (DOCA_SUCCESS, Some (p, length c), w1)"
      and bs: "heap_read w1 p 0 (length c) = Returns c"
    using read_naive_success[OF acc fresh stored size(1) sz] size naive_read_short[of c READ_BUF_SIZE] by auto
  have "heap_read (snd (doca_compress_init e w1)) p 0 (length c) = Returns c"
    using bs by (simp add: heap_read_same[of "snd (doca_compress_init e w1)" w1])
  moreover have "\<forall>a. dv_alloc e a" using acc by (simp add: comp_accepting_def job_accepting_def)
  ultimately show ?thesis
    using no by (simp add: main_decompress_def r case_prod_beta Let_def compress_file_refused)
qed

text \<open>C23: the compression program on a file of at most 1 MB that compresses to at most 1 MB, when everything
  is granted and the result files do not exist yet or are not longer than what is written to them. With
  decompression by DOCA, and either method of compression, the file goes through unchanged when the two
  libraries agree (the decompression of what the compression yields is the file, with the same
  checksum): the decompressed file is the input file, and the program ends with success. With
  decompression in software, zlib refuses the stream, which has no zlib header, and the program goes on
  to compute a checksum over a length that was never set: its behaviour is undefined.\<close>

theorem compression_main_round_trip:
  assumes "comp_accepting e" and "comp_accepting e'" and "comp_fresh w"
    and "compression_methods args = Some (m, m')"
    and "cw_files w ''input_files'' = Some content" and "content \<noteq> []" and "length content \<le> READ_BUF_SIZE"
    and "comp_yields e m DOCA_COMPRESS_DEFLATE_JOB content c chk" and "c \<noteq> []" and "length c \<le> READ_BUF_SIZE"
    and "not_longer (cw_files w ''input_file_comp'') c" and "not_longer (cw_files w ''input_file_decomp'') content"
    and hw: "m' = COMPRESS_DEFLATE_HW \<longrightarrow> comp_yields e' m' DOCA_DECOMPRESS_DEFLATE_JOB c content chk"
    and sw: "m' = COMPRESS_DEFLATE_SW \<longrightarrow> inflate_refuses e' c"
  shows "case m' of
      COMPRESS_DEFLATE_HW \<Rightarrow>
        \<exists>w'. compression_main e e' args w = Returns (EXIT_SUCCESS, w') \<and>
          cw_files w' ''input_file_decomp'' = Some content \<and> cw_files w' ''input_file_comp'' = Some c \<and>
          cw_files w' ''input_files'' = Some content
    | COMPRESS_DEFLATE_SW \<Rightarrow> compression_main e e' args w = Undefined"
proof -
  obtain out w1 where 1: "main_compress e m w = Returns (EXIT_SUCCESS, out, w1)" "co_chksum out = Some chk"
      "comp_fresh w1" "cw_files w1 ''input_file_comp'' = Some c"
      "\<forall>path. path \<notin> {''compress_size'', ''input_file_comp''} \<longrightarrow> cw_files w1 path = cw_files w path"
    using main_compress_success[OF assms(1,3,5,6,7,8,11)] by blast
  show ?thesis
  proof (cases m')
    case COMPRESS_DEFLATE_SW
    then show ?thesis
      using 1(1) main_decompress_refused[OF assms(2) 1(3,4) assms(9,10)] sw assms(4) by (simp add: compression_main_def)
  next
    case COMPRESS_DEFLATE_HW
    have "not_longer (cw_files w1 ''input_file_decomp'') content" using 1(5) assms(12) by simp
    from main_decompress_success[OF assms(2) 1(3,4) assms(9,10) hw[rule_format, OF COMPRESS_DEFLATE_HW] 1(2) this]
    obtain w2 where "main_decompress e' m' out w1 = Returns (EXIT_SUCCESS, w2)"
        "cw_files w2 ''input_file_decomp'' = Some content"
        "\<forall>path. path \<notin> {''compress_size'', ''input_file_decomp''} \<longrightarrow> cw_files w2 path = cw_files w1 path"
      by blast
    then show ?thesis using 1 assms(4,5) COMPRESS_DEFLATE_HW by (simp add: compression_main_def)
  qed
qed

subsection \<open>The file compressor of the passthru library\<close>

lemma mmap_reads:
  assumes "cw_files w path = Some c" and "c \<noteq> []" and "length c \<le> unat MAX_FILE_SIZE"
    and "dv_open e path" and "dv_fstat e path" and "dv_mmap e path"
  shows "read_local_file_mmap e path w =
      (DOCA_SUCCESS, Some (PMapped path, length c), w\<lparr>cw_open_fds := cw_open_fds w + 1\<rparr>)"
    and "source_bytes (w\<lparr>cw_open_fds := k\<rparr>) (PMapped path) (length c) = Returns c"
  using assms by (simp_all add: read_local_file_mmap_def source_bytes_def)

text \<open>C28: \<open>file_decompressor\<close> on a stream whose data has the checksum it is given: when the result can be
  written, the output file holds the data, and what was there beyond it; the result is freed once.
  When the output file cannot be opened, or not all of the result can be written, \<open>write_local_file\<close>
  frees the result and \<open>file_decompressor\<close> frees it again.\<close>

theorem file_decompressor_outcome:
  assumes acc: "job_accepting e" and fresh: "comp_fresh w"
    and source: "cw_files w path = Some c" "c \<noteq> []" "length c \<le> unat MAX_FILE_SIZE"
      "dv_open e path" "dv_fstat e path" "dv_mmap e path"
    and y: "comp_yields e COMPRESS_DEFLATE_HW DOCA_DECOMPRESS_DEFLATE_JOB c content chk"
    and out: "out_path \<noteq> ''compress_size''"
  shows "if dv_open e out_path \<and> dv_write e out_path (length content) = int (length content)
    then \<exists>w'. file_decompressor e path out_path chk w = Returns (DOCA_SUCCESS, w') \<and>
           cw_files w' out_path = Some (content @ drop (length content)
             (case cw_files w out_path of None \<Rightarrow> [] | Some old \<Rightarrow> old))
    else file_decompressor e path out_path chk w = Undefined"
proof -
  let ?w1 = "w\<lparr>cw_open_fds := cw_open_fds w + 1\<rparr>"
  have f1: "comp_fresh ?w1" using fresh by (simp add: comp_fresh_def)
  obtain q w2 where c: "compress_file e (PMapped path) c DOCA_DECOMPRESS_DEFLATE_JOB COMPRESS_DEFLATE_HW ?w1 =
        Returns (\<lparr>co_error = DOCA_SUCCESS, co_file = q, co_len = Some (length content), co_chksum = Some chk\<rparr>, w2)"
      and qs: "heap_read w2 q 0 (length content) = Returns content" and x: "comp_extends ?w1 w2"
    using compress_file_success[OF acc f1 y] by blast
  obtain a blk where q: "q = PHeap a" "cw_heap w2 a = Some blk" using qs by (auto simp: heap_read_block)
  have files: "cw_files w2 out_path = cw_files w out_path" using x out by (simp add: comp_extends_def)
  note start = file_decompressor_def mmap_reads[OF source] c[unfolded Suc_eq_plus1[symmetric]] qs[unfolded q(1)]
  show ?thesis
  proof (cases "dv_open e out_path \<and> dv_write e out_path (length content) = int (length content)")
    case True
    then show ?thesis using write_local_done[of e out_path content q w2] q files
      by (simp add: start heap_free_def del: run_bind_Returns)
  next
    case False
    then have "\<exists>r w3. write_local_file e out_path q content w2 = Returns (r, w3) \<and> cw_heap w3 a = None"
      using q by (auto simp: write_local_file_def heap_free_def Let_def)
    then show ?thesis using False q by (auto simp: start heap_free_def simp del: run_bind_Returns)
  qed
qed

subsection \<open>DOCA contexts\<close>

definition contexts :: "comp_world \<Rightarrow> int" where
  "contexts w =
     int (length (filter (\<lambda>c. c = (CompressCreate, DOCA_SUCCESS)) (cw_log w))) -
     int (length (filter (\<lambda>c. fst c = CompressDestroy) (cw_log w)))"

lemma contexts_same [simp]:
  "contexts (w\<lparr>cw_heap := h\<rparr>) = contexts w" "contexts (w\<lparr>cw_next := n\<rparr>) = contexts w"
  "contexts (w\<lparr>cw_files := f\<rparr>) = contexts w" "contexts (w\<lparr>cw_open_fds := n\<rparr>) = contexts w"
  "contexts (w\<lparr>cw_doca_bufs := n\<rparr>) = contexts w" "contexts (w\<lparr>cw_unmapped := u\<rparr>) = contexts w"
  "contexts (w\<lparr>total_compressed_bytes := t\<rparr>) = contexts w"
  "contexts (w\<lparr>total_decompressed_bytes := t\<rparr>) = contexts w"
  "contexts (doca_buf_refcount_rm w) = contexts w" "contexts (comp_munmap p k w) = contexts w"
  "contexts (snd (heap_calloc e n w)) = contexts w"
  by (simp_all add: contexts_def doca_buf_refcount_rm_def comp_munmap_def heap_calloc_def)

lemma contexts_doca:
  "contexts (snd (doca e c w)) =
     contexts w + (if c = CompressCreate \<and> dv_rc e c = DOCA_SUCCESS then 1 else 0) -
     (if c = CompressDestroy then 1 else 0)"
  by (auto simp: contexts_def doca_def)

lemma heap_contexts:
  "heap_free p w = Returns w' \<Longrightarrow> contexts w' = contexts w"
  "heap_write p k bs w = Returns w' \<Longrightarrow> contexts w' = contexts w"
  "write_local_file e path p bs w = Returns (r, w') \<Longrightarrow> contexts w' = contexts w"
  by (auto simp: heap_free_block heap_write_block write_local_file_def Let_def split: if_splits)

lemma populate_contexts:
  "populate_dst_buf e n w = Returns (r, p, w') \<Longrightarrow> contexts w' = contexts w"
  by (auto simp: populate_dst_buf_def heap_calloc_def Let_def case_prod_beta contexts_doca dest!: heap_contexts
      split: if_splits)

lemma hw_run_contexts: "hw_run_job e data job n p0 dst w = Returns (out, w') \<Longrightarrow> contexts w' = contexts w"
  by (auto simp: hw_run_job_def hw_failed_result Let_def contexts_doca case_prod_beta
      dest!: process_job_result heap_contexts split: if_splits)

lemma compress_contexts:
  "compress_file e src data job method w = Returns (out, w') \<Longrightarrow> contexts w' = contexts w"
  by (auto simp: compress_file_def compress_file_hw_def compress_file_sw_def decompress_file_sw_def
      heap_calloc_def hw_failed_result Let_def case_prod_beta contexts_doca
      dest!: populate_contexts hw_run_contexts heap_contexts split: if_splits option.splits)

lemma compressor_contexts:
  "file_compressor e path out m w = Returns (r, chk, w') \<Longrightarrow> contexts w' = contexts w"
  by (auto simp: file_compressor_def read_local_file_mmap_def dest!: compress_contexts heap_contexts
      split: option.splits if_splits)

lemma init_contexts:
  "contexts (snd (doca_compress_init e w)) =
     contexts w + (if fst (doca_compress_init e w) = EXIT_SUCCESS then 1 else 0)"
  by (auto simp: doca_compress_init_def file_compression_init_def Let_def case_prod_beta contexts_doca
      split: if_splits)

lemma cleanup_contexts [simp]:
  "contexts (doca_compress_cleanup e w) = contexts w - 1" "contexts (file_compression_cleanup e w) = contexts w - 1"
  by (simp_all add: doca_compress_cleanup_def file_compression_cleanup_def contexts_doca)

text \<open>The set-up keeps a compression context exactly when it reports success, and the cleanup destroys
  one. \<open>file_compress\<close> therefore leaves the number of contexts as it found it when everything goes well;
  but it cleans up whatever happened: it destroys one context too many when the set-up or the
  compression has failed, and two too many when both have.\<close>

theorem doca_context_balance:
  "contexts (snd (doca_compress_init e w)) =
     contexts w + (if fst (doca_compress_init e w) = EXIT_SUCCESS then 1 else 0) \<and>
   contexts (doca_compress_cleanup e w) = contexts w - 1 \<and>
   (\<forall>rc chk w1. doca_compress e (snd (doca_compress_init e w)) = Returns (rc, chk, w1) \<longrightarrow>
      (\<exists>w'. file_compress e w = Returns (chk, w') \<and>
         contexts w' = contexts w -
           (if fst (doca_compress_init e w) = EXIT_SUCCESS then 0 else 1) -
           (if rc = EXIT_SUCCESS then 0 else 1)))"
proof -
  have "contexts w1 = contexts (snd (doca_compress_init e w)) - (if rc = EXIT_SUCCESS then 0 else 1)"
    if "doca_compress e (snd (doca_compress_init e w)) = Returns (rc, chk, w1)" for rc chk w1
    using that by (auto simp: doca_compress_def dest!: compressor_contexts split: if_splits)
  then show ?thesis
    by (auto simp: init_contexts file_compress_def case_prod_beta)
qed

text \<open>The check of a device by its capabilities accepts a device as soon as it supports one of the two
  jobs, while its comment promises both: the two error codes are combined as if they were truth values.\<close>

theorem compress_jobs_support_either:
  "compress_jobs_compress_decompress_is_supported supported = 0 \<longleftrightarrow>
     supported DOCA_COMPRESS_DEFLATE_JOB = DOCA_SUCCESS \<or> supported DOCA_DECOMPRESS_DEFLATE_JOB = DOCA_SUCCESS"
  by (auto simp: compress_jobs_compress_decompress_is_supported_def)

subsection \<open>A concrete codec\<close>

text \<open>Compressing puts a byte 1 at either end; the queue answers "again" twice.\<close>

definition example_job :: "doca_job_type \<Rightarrow> u8 list \<Rightarrow> nat \<Rightarrow> doca_error \<times> u8 list \<times> u64" where
  "example_job job data n =
     (case job of
        DOCA_COMPRESS_DEFLATE_JOB \<Rightarrow> (DOCA_SUCCESS, 1 # data @ [1], of_nat (length data))
      | DOCA_DECOMPRESS_DEFLATE_JOB \<Rightarrow>
          (DOCA_SUCCESS, butlast (tl data), of_nat (length (butlast (tl data)))))"

definition comp_example_env :: comp_env where
  "comp_example_env =
     \<lparr>dv_rc = (\<lambda>_. DOCA_SUCCESS), dv_progress = (\<lambda>k. if k < 2 then DOCA_ERROR_AGAIN else DOCA_SUCCESS),
      dv_job = example_job, dv_zlib = (\<lambda>_ _ _ _. Z_STREAM_END), dv_zout = (\<lambda>_ _ d _. 1 # d @ [1]),
      dv_crc32 = (\<lambda>d. of_nat (length d)), dv_adler32 = (\<lambda>_. 0), dv_alloc = (\<lambda>_. True),
      dv_malloc = (\<lambda>_ _. 171), dv_open = (\<lambda>_. True), dv_fstat = (\<lambda>_. True), dv_mmap = (\<lambda>_. True),
      dv_write = (\<lambda>_. int), dv_stack = replicate 100 0\<rparr>"

definition comp_example_world :: comp_world where
  "comp_example_world =
     \<lparr>cw_files = [''input_files'' \<mapsto> [72, 105], ''input.txt'' \<mapsto> [72, 105], ''input_file_decomp'' \<mapsto> [0], ''input-comp.txt'' \<mapsto> [1, 72, 105, 1],
                  ''input-decomp.txt'' \<mapsto> [5, 6, 7]],
      cw_heap = (\<lambda>_. None), cw_next = 0, cw_doca_bufs = 0, cw_open_fds = 0, cw_log = [], cw_unmapped = [],
      total_compressed_bytes = 0, total_decompressed_bytes = 0\<rparr>"

lemma comp_example_accepting: "comp_accepting comp_example_env"
  by (auto simp: comp_accepting_def job_accepting_def comp_example_env_def intro!: exI[of _ 2])

lemma comp_example_fresh: "comp_fresh comp_example_world"
  by (simp add: comp_fresh_def comp_example_world_def)

lemma comp_example_room: "4 \<le> unat (compress_dst_size job n)"
proof -
  have "2 ^ 20 \<le> unat (compress_dst_size job n)" by (simp add: dst_size_clamp Let_def)
  moreover have "(4 :: nat) \<le> 2 ^ 20" by simp
  ultimately show ?thesis by (rule order_trans[rotated])
qed

lemma comp_example_yields:
  "comp_yields comp_example_env COMPRESS_DEFLATE_HW DOCA_COMPRESS_DEFLATE_JOB [72, 105] [1, 72, 105, 1] 2"
  "comp_yields comp_example_env COMPRESS_DEFLATE_HW DOCA_DECOMPRESS_DEFLATE_JOB [1, 72, 105, 1] [72, 105] 2"
  using comp_example_room order_trans[OF _ comp_example_room]
  by (simp_all add: comp_yields_def comp_example_env_def example_job_def Let_def)

lemma process_job_ends_witness:
  "process_job comp_example_env DOCA_COMPRESS_DEFLATE_JOB [72] 9 comp_example_world =
     Returns (DOCA_SUCCESS, snd (doca comp_example_env SubmitJob comp_example_world))"
proof -
  have sub: "dv_rc comp_example_env SubmitJob = DOCA_SUCCESS" by (simp add: comp_example_env_def)
  have "dv_progress comp_example_env 2 \<noteq> DOCA_ERROR_AGAIN \<and>
      (\<forall>i < 2. dv_progress comp_example_env i = DOCA_ERROR_AGAIN)" by (simp add: comp_example_env_def)
  from process_job_ends[OF sub, THEN conjunct1, rule_format, OF this] show ?thesis
    by (simp add: comp_example_env_def example_job_def)
qed

lemma compress_file_hw_resources_witness:
  "\<exists>out w' w''. compress_file comp_example_env PStack [72, 105] DOCA_COMPRESS_DEFLATE_JOB COMPRESS_DEFLATE_HW
       comp_example_world = Returns (out, w') \<and> cw_doca_bufs w' = 0 \<and>
     heap_free (co_file out) w' = Returns w'' \<and> live_blocks w'' = {0}"
proof -
  obtain p w' where c: "compress_file comp_example_env PStack [72, 105] DOCA_COMPRESS_DEFLATE_JOB COMPRESS_DEFLATE_HW
       comp_example_world = Returns (\<lparr>co_error = DOCA_SUCCESS, co_file = p, co_len = Some 4, co_chksum = Some 2\<rparr>, w')"
    using compress_file_success[OF comp_accepting_job[OF comp_example_accepting] comp_example_fresh
        comp_example_yields(1), of PStack] by auto
  have w: "cw_doca_bufs comp_example_world = 0" "cw_next comp_example_world = 0" "live_blocks comp_example_world = {}"
    by (simp_all add: comp_example_world_def live_blocks_def)
  show ?thesis using compress_file_hw_resources[OF c comp_example_fresh, unfolded w] c by auto
qed

lemma read_local_file_naive_content_witness:
  "\<exists>p w'. read_local_file_naive comp_example_env ''input_files'' comp_example_world =
      Returns (DOCA_SUCCESS, Some (p, 2), w') \<and> heap_read w' p 0 2 = Returns [72, 105]"
proof -
  have "cw_files comp_example_world ''input_files'' = Some [72, 105]" by (simp add: comp_example_world_def)
  moreover have two: "length [72, 105 :: u8] = 2" "(2 :: nat) \<le> unat MAX_FILE_SIZE"
      "(2 :: nat) \<le> READ_BUF_SIZE" "[72, 105 :: u8] \<noteq> []" by simp_all
  ultimately show ?thesis
    using read_local_file_naive_content[OF comp_example_accepting comp_example_fresh, of "''input_files''" "[72, 105]",
        unfolded two(1), OF _ two(4,2)] two(3) by blast
qed

lemma write_local_file_keeps_tail_witness:
  "\<exists>w'. write_local_file comp_example_env ''input-decomp.txt'' PNull [1, 2] comp_example_world = Returns (DOCA_SUCCESS, w') \<and>
     source_bytes w' (PMapped ''input-decomp.txt'') 3 = Returns [1, 2, 7]"
proof -
  have "dv_mmap comp_example_env ''input-decomp.txt''"
    "cw_files comp_example_world ''input-decomp.txt'' = Some [5, 6, 7]"
    by (simp_all add: comp_example_env_def comp_example_world_def)
  from write_local_file_keeps_tail[OF comp_example_accepting this, of "[1, 2]" PNull]
  show ?thesis by (auto simp: numeral_3_eq_3)
qed

lemma compression_main_round_trip_witness:
  "(\<exists>w'. compression_main comp_example_env comp_example_env [''sw'', ''hw''] comp_example_world =
      Returns (EXIT_SUCCESS, w') \<and> cw_files w' ''input_file_decomp'' = Some [72, 105]) \<and>
   compression_main comp_example_env (comp_example_env\<lparr>dv_zlib := (\<lambda>_ _ _ _. - 3)\<rparr>) [''hw'', ''sw''] comp_example_world =
     Undefined"
proof -
  let ?e = comp_example_env and ?e' = "comp_example_env\<lparr>dv_zlib := (\<lambda>_ _ _ _. - 3)\<rparr>"
  have m: "compression_methods [''sw'', ''hw''] = Some (COMPRESS_DEFLATE_SW, COMPRESS_DEFLATE_HW)"
    "compression_methods [''hw'', ''sw''] = Some (COMPRESS_DEFLATE_HW, COMPRESS_DEFLATE_SW)"
    by (simp_all add: compression_methods_def method_of_arg_def)
  have f: "cw_files comp_example_world ''input_files'' = Some [72, 105]"
    "not_longer (cw_files comp_example_world ''input_file_comp'') [1, 72, 105, 1]"
    "not_longer (cw_files comp_example_world ''input_file_decomp'') [72, 105]"
    by (simp_all add: comp_example_world_def not_longer_def)
  have y: "comp_yields ?e COMPRESS_DEFLATE_SW DOCA_COMPRESS_DEFLATE_JOB [72, 105] [1, 72, 105, 1] 2"
    using order_trans[OF _ comp_example_room]
    by (simp add: comp_yields_def comp_example_env_def calculate_checksum_sw_def Let_def)
  have acc: "comp_accepting ?e'" using comp_example_accepting by (simp add: comp_accepting_def job_accepting_def)
  have no: "inflate_refuses ?e' c" for c by (simp add: inflate_refuses_def)
  note main = compression_main_round_trip
  show ?thesis
    using main[OF comp_example_accepting comp_example_accepting comp_example_fresh m(1) f(1) _ _ y _ _ f(2,3)]
      main[OF comp_example_accepting acc comp_example_fresh m(2) f(1) _ _ comp_example_yields(1) _ _ f(2,3)]
      comp_example_yields(2) no by auto
qed

lemma file_decompressor_outcome_witness:
  "(\<exists>w'. file_decompressor comp_example_env ''input-comp.txt'' ''input-decomp.txt'' 2 comp_example_world =
       Returns (DOCA_SUCCESS, w') \<and> cw_files w' ''input-decomp.txt'' = Some [72, 105, 7]) \<and>
   file_decompressor (comp_example_env\<lparr>dv_open := (\<lambda>p. p \<noteq> ''input-decomp.txt'')\<rparr>) ''input-comp.txt''
     ''input-decomp.txt'' 2 comp_example_world = Undefined"
proof -
  let ?e = comp_example_env and ?e' = "comp_example_env\<lparr>dv_open := (\<lambda>p. p \<noteq> ''input-decomp.txt'')\<rparr>"
  have f: "cw_files comp_example_world ''input-comp.txt'' = Some [1, 72, 105, 1]"
    "cw_files comp_example_world ''input-decomp.txt'' = Some [5, 6, 7]" by (simp_all add: comp_example_world_def)
  have o: "dv_open ?e p" "dv_fstat ?e p" "dv_mmap ?e p" "dv_write ?e p n = int n"
    "dv_open ?e' p \<longleftrightarrow> p \<noteq> ''input-decomp.txt''" "dv_fstat ?e' p" "dv_mmap ?e' p" for p n
    by (simp_all add: comp_example_env_def)
  have acc: "job_accepting ?e" "job_accepting ?e'"
    using comp_example_accepting by (simp_all add: comp_accepting_def job_accepting_def)
  have y: "comp_yields ?e' COMPRESS_DEFLATE_HW DOCA_DECOMPRESS_DEFLATE_JOB [1, 72, 105, 1] [72, 105] 2"
    using comp_example_yields(2) by (simp add: comp_yields_def)
  show ?thesis
    using file_decompressor_outcome[OF acc(1) comp_example_fresh f(1) _ _ o(1-3) comp_example_yields(2),
        of "''input-decomp.txt''"]
      file_decompressor_outcome[OF acc(2) comp_example_fresh f(1) _ _ _ o(6-7) y, of "''input-decomp.txt''"]
    by (simp add: o f)
qed

lemma compress_dst_size_bounds_witness:
  "1016 \<le> unat (compress_dst_size DOCA_COMPRESS_DEFLATE_JOB 1000) \<and>
   unat (compress_dst_size DOCA_DECOMPRESS_DEFLATE_JOB 1000000) < 5000001"
  using compress_dst_size_bounds[of DOCA_COMPRESS_DEFLATE_JOB 1000]
    compress_dst_size_bounds[of DOCA_DECOMPRESS_DEFLATE_JOB 1000000, THEN conjunct2, THEN conjunct2,
      THEN conjunct2, THEN conjunct2, rule_format, of 5000001] by simp

text \<open>No memory for the destination: the context is destroyed twice.\<close>

lemma doca_context_balance_witness:
  "\<exists>chk w'. file_compress (comp_example_env\<lparr>dv_alloc := (\<lambda>_. False)\<rparr>) comp_example_world = Returns (chk, w') \<and>
     contexts w' = - 1"
proof -
  let ?e = "comp_example_env\<lparr>dv_alloc := (\<lambda>_. False)\<rparr>"
  have init: "fst (doca_compress_init ?e comp_example_world) = EXIT_SUCCESS" "contexts comp_example_world = 0"
    by (simp_all add: doca_compress_init_def file_compression_init_def doca_def comp_example_env_def Let_def
        contexts_def comp_example_world_def)
  have input: "cw_files (snd (doca_compress_init ?e comp_example_world)) ''input.txt'' = Some [72, 105]"
    "dv_open ?e p" "dv_fstat ?e p" "dv_mmap ?e p" "\<not> dv_alloc ?e a" for p a
    by (simp_all add: comp_example_world_def comp_example_env_def)
  have "\<exists>chk w1. doca_compress ?e (snd (doca_compress_init ?e comp_example_world)) = Returns (EXIT_FAILURE, chk, w1)"
    unfolding doca_compress_def file_compressor_def
    by (simp add: mmap_reads[OF input(1) _ _ input(2-4)] compress_file_def heap_calloc_def input(5) heap_free_def Let_def
        source_bytes_def input(1)[simplified init_world]
        del: run_bind_Returns)
  then show ?thesis using doca_context_balance[of ?e comp_example_world] init by auto
qed

end
