(* ===== verification/Passthru_Data.thy ===== *)
theory Passthru_Data
  imports Comp_Files Raid_Buffers
begin

text \<open>
  The data path of \<open>passthru/vbdev_passthru.c\<close>: a request to the virtual bdev goes to the base bdev;
  the data of a write is compressed on the way, in the buffers of the caller, and the data of a read is
  decompressed when it comes back.

  The state is what one request touches: the memory, the world of the compression code, the checksum
  of the last compression, the context that the module keeps in the request (\<open>test\<close>, \<open>ch\<close>), and the
  list of what it has done to the outside.
\<close>

subsection \<open>State\<close>

record pt_bdev_io = bdev_io +
  zcopy_populate :: bool
  bio_to_abort :: nat

record pt_base_io = base_io +
  pb_populate :: bool
  pb_abort :: nat

datatype pt_event =
  PtGetBuf u64 | PtSubmit pt_base_io | PtWait | PtSetBuf nat nat | PtComplete io_status | PtFreeBaseIo

record pt_world =
  pw_mem :: "nat \<Rightarrow> u8"
  pw_comp :: comp_world
  pw_checksum :: u64
  pw_test :: u8
  pw_ch :: "nat option"
  pw_events :: "pt_event list"

text \<open>The node (descriptor of the base bdev and block length), the channel of the base bdev, and the
  answers of one activation.\<close>

record pt_env =
  pe_comp :: comp_env
  pe_desc :: "string option"
  pe_blocklen :: u32
  pe_base_ch :: "nat option"
  pe_rc :: "pt_base_io \<Rightarrow> int"
  pe_queue_rc :: int

definition pt_emit :: "pt_event \<Rightarrow> pt_world \<Rightarrow> pt_world" where
  "pt_emit ev w = w\<lparr>pw_events := pw_events w @ [ev]\<rparr>"

definition do_compress :: bool where
  "do_compress = True"

definition pt_data_size :: "pt_env \<Rightarrow> pt_bdev_io \<Rightarrow> u64" where
  "pt_data_size e bio = num_blocks bio * ucast (pe_blocklen e)"

subsection \<open>Data in and out of the buffers of a request\<close>

text \<open>The loop that copies all iovecs into one block.\<close>

primrec pt_gather_loop ::
  "ptr \<Rightarrow> nat \<Rightarrow> iovec list \<Rightarrow> (nat \<Rightarrow> u8) \<Rightarrow> comp_world \<Rightarrow> comp_world run" where
  "pt_gather_loop p off [] m cw = Returns cw"
| "pt_gather_loop p off (v # vs) m cw =
     run_bind (heap_write p off (map m [iov_base v..<iov_base v + iov_len v]) cw)
       (pt_gather_loop p (off + iov_len v) vs m)"

text \<open>The variable \<open>data\<close>: the only buffer, or a block with all of them, which nobody frees.\<close>

definition pt_gather :: "pt_env \<Rightarrow> pt_bdev_io \<Rightarrow> pt_world \<Rightarrow> (ptr \<times> pt_world) run" where
  "pt_gather e bio w =
     (if length (iovs bio) = 1 then Returns (PForeign (iov_base (hd (iovs bio))), w)
      else
        (let (p, cw) = heap_malloc (pe_comp e) (unat (pt_data_size e bio)) (pw_comp w)
         in run_bind (pt_gather_loop p 0 (iovs bio) (pw_mem w) cw) (\<lambda>cw. Returns (p, w\<lparr>pw_comp := cw\<rparr>))))"

text \<open>The first \<open>n\<close> bytes of \<open>data\<close>.\<close>

definition pt_source :: "pt_bdev_io \<Rightarrow> ptr \<Rightarrow> nat \<Rightarrow> pt_world \<Rightarrow> u8 list run" where
  "pt_source bio p n w =
     (case p of
        PForeign a \<Rightarrow>
          if n \<le> iov_len (hd (iovs bio)) then Returns (map (pw_mem w) [a..<a + n]) else Undefined
      | _ \<Rightarrow> heap_read (pw_comp w) p 0 n)"

text \<open>The result of a compression goes to the only iovec, or is dealt out over all of them. A length that
  was not written, or one that reaches beyond the only iovec, is undefined behaviour; a result that is
  larger than all iovecs together is cut off.\<close>

primrec pt_fill ::
  "comp_world \<Rightarrow> ptr \<Rightarrow> iovec list \<Rightarrow> nat \<Rightarrow> nat \<Rightarrow> (nat \<Rightarrow> u8) \<Rightarrow> (nat \<Rightarrow> u8) run" where
  "pt_fill cw p [] off data_remaining m = Returns m"
| "pt_fill cw p (v # vs) off data_remaining m =
     (let m = mem_put (iov_base v) (replicate (iov_len v) 0) m
      in if data_remaining > iov_len v
         then run_bind (heap_read cw p off (iov_len v)) (\<lambda>bs.
                pt_fill cw p vs (off + iov_len v) (data_remaining - iov_len v) (mem_put (iov_base v) bs m))
         else run_bind (heap_read cw p off data_remaining) (\<lambda>bs.
                pt_fill cw p vs off 0 (mem_put (iov_base v) bs m)))"

definition pt_put_compressed :: "pt_bdev_io \<Rightarrow> comp_out \<Rightarrow> comp_world \<Rightarrow> (nat \<Rightarrow> u8) \<Rightarrow> (nat \<Rightarrow> u8) run" where
  "pt_put_compressed bio out cw m =
     (case co_len out of
        None \<Rightarrow> Undefined
      | Some len \<Rightarrow>
          if length (iovs bio) = 1
          then
            (let v = hd (iovs bio)
             in if len > iov_len v then Undefined
                else run_bind (heap_read cw (co_file out) 0 len) (\<lambda>bs.
                       Returns (mem_put (iov_base v) bs (mem_put (iov_base v) (replicate (iov_len v) 0) m))))
          else pt_fill cw (co_file out) (iovs bio) 0 len m)"

text \<open>The result of a decompression. With several iovecs, each takes its whole size from the destination
  buffer, however much the job has written to it.\<close>

primrec pt_spread :: "comp_world \<Rightarrow> ptr \<Rightarrow> iovec list \<Rightarrow> nat \<Rightarrow> (nat \<Rightarrow> u8) \<Rightarrow> (nat \<Rightarrow> u8) run" where
  "pt_spread cw p [] off m = Returns m"
| "pt_spread cw p (v # vs) off m =
     run_bind (heap_read cw p off (iov_len v)) (\<lambda>bs.
       pt_spread cw p vs (off + iov_len v)
         (mem_put (iov_base v) bs (mem_put (iov_base v) (replicate (iov_len v) 0) m)))"

definition pt_put_decompressed :: "pt_bdev_io \<Rightarrow> comp_out \<Rightarrow> comp_world \<Rightarrow> (nat \<Rightarrow> u8) \<Rightarrow> (nat \<Rightarrow> u8) run" where
  "pt_put_decompressed bio out cw m =
     (if length (iovs bio) = 1
      then
        (let v = hd (iovs bio)
         in case co_len out of
              None \<Rightarrow> Undefined
            | Some len \<Rightarrow>
                if len > iov_len v then Undefined
                else run_bind (heap_read cw (co_file out) 0 len) (\<lambda>bs.
                       Returns (mem_put (iov_base v) bs (mem_put (iov_base v) (replicate (iov_len v) 0) m))))
      else pt_spread cw (co_file out) (iovs bio) 0 m)"

text \<open>The zeros at the end of every iovec, which are not counted as compressed data.\<close>

definition pt_trailing_zeros :: "iovec list \<Rightarrow> (nat \<Rightarrow> u8) \<Rightarrow> nat" where
  "pt_trailing_zeros vs m =
     sum_list (map (\<lambda>v. length (takeWhile (\<lambda>b. b = 0)
       (rev (map m [iov_base v..<iov_base v + iov_len v])))) vs)"

subsection \<open>Writes\<close>

text \<open>The compression of a write; neither the result of the set-up nor that of the job is acted upon.\<close>

definition pt_compress_write :: "pt_env \<Rightarrow> pt_bdev_io \<Rightarrow> pt_world \<Rightarrow> pt_world run" where
  "pt_compress_write e bio w =
     run_bind (pt_gather e bio w) (\<lambda>(p, w).
       (let w = w\<lparr>pw_comp := snd (doca_compress_init (pe_comp e) (pw_comp w))\<rparr>
        in run_bind (pt_source bio p (unat (pt_data_size e bio)) w) (\<lambda>data.
           run_bind (compress_file (pe_comp e) p data DOCA_COMPRESS_DEFLATE_JOB COMPRESS_DEFLATE_HW (pw_comp w))
             (\<lambda>(out, cw).
           run_bind (pt_put_compressed bio out cw (pw_mem w)) (\<lambda>m.
           run_bind (heap_free (co_file out) (doca_compress_cleanup (pe_comp e) cw)) (\<lambda>cw.
             Returns (w\<lparr>pw_mem := m, pw_comp := cw,
                        pw_checksum := (case co_chksum out of None \<Rightarrow> pw_checksum w | Some c \<Rightarrow> c)\<rparr>)))))))"

subsection \<open>Submission\<close>

text \<open>The base I/O that a request becomes.\<close>

definition pt_base_request :: "pt_env \<Rightarrow> pt_bdev_io \<Rightarrow> pt_base_io" where
  "pt_base_request e bio =
     (let data = bdev_io_type bio \<in> {IO_READ, IO_WRITE, IO_ZCOPY};
          range = bdev_io_type bio \<notin> {IO_RESET, IO_ABORT}
      in \<lparr>bio_type = bdev_io_type bio, bio_slot = 0, bio_desc = pe_desc e, bio_ch = pe_base_ch e,
          bio_lba = (if range then offset_blocks bio else 0),
          bio_blocks = (if range then num_blocks bio else 0),
          bio_iovs = (if data then iovs bio else []),
          bio_md = (if bdev_io_type bio \<in> {IO_READ, IO_WRITE} then md_buf bio else None),
          pb_populate = (bdev_io_type bio = IO_ZCOPY \<and> zcopy_populate bio),
          pb_abort = (if bdev_io_type bio = IO_ABORT then bio_to_abort bio else 0)\<rparr>)"

definition vbdev_passthru_queue_io :: "pt_env \<Rightarrow> pt_world \<Rightarrow> pt_world" where
  "vbdev_passthru_queue_io e w =
     (if pe_queue_rc e \<noteq> 0 then pt_emit (PtComplete STATUS_FAILED) w else pt_emit PtWait w)"

text \<open>What follows every call of the bdev layer below.\<close>

definition pt_submit :: "pt_env \<Rightarrow> nat option \<Rightarrow> pt_bdev_io \<Rightarrow> pt_world \<Rightarrow> pt_world" where
  "pt_submit e ch bio w =
     (let b = pt_base_request e bio;
          rc = pe_rc e b
      in if rc = 0 then pt_emit (PtSubmit b) w
         else if rc = - ENOMEM then vbdev_passthru_queue_io e (w\<lparr>pw_ch := ch\<rparr>)
         else pt_emit (PtComplete STATUS_FAILED) w)"

definition pt_read_get_buf_cb :: "pt_env \<Rightarrow> nat option \<Rightarrow> pt_bdev_io \<Rightarrow> bool \<Rightarrow> pt_world \<Rightarrow> pt_world" where
  "pt_read_get_buf_cb e ch bio success w =
     (if \<not> success then pt_emit (PtComplete STATUS_FAILED) w else pt_submit e ch bio w)"

definition vbdev_passthru_submit_request ::
  "pt_env \<Rightarrow> nat option \<Rightarrow> pt_bdev_io \<Rightarrow> pt_world \<Rightarrow> pt_world run" where
  "vbdev_passthru_submit_request e ch bio w =
     (let w = w\<lparr>pw_test := 0x5a\<rparr>
      in case bdev_io_type bio of
           IO_READ \<Rightarrow> Returns (pt_emit (PtGetBuf (pt_data_size e bio)) w)
         | IO_WRITE \<Rightarrow>
             run_bind (if do_compress then pt_compress_write e bio w else Returns w) (\<lambda>w.
               Returns (pt_submit e ch bio w))
         | IO_OTHER _ \<Rightarrow> Returns (pt_emit (PtComplete STATUS_FAILED) w)
         | _ \<Rightarrow> Returns (pt_submit e ch bio w))"

definition vbdev_passthru_resubmit_io :: "pt_env \<Rightarrow> pt_bdev_io \<Rightarrow> pt_world \<Rightarrow> pt_world run" where
  "vbdev_passthru_resubmit_io e bio w = vbdev_passthru_submit_request e (pw_ch w) bio w"

subsection \<open>Completion\<close>

text \<open>The decompression of a read; it does not depend on whether the base read has succeeded.\<close>

definition pt_decompress_read :: "pt_env \<Rightarrow> pt_bdev_io \<Rightarrow> pt_world \<Rightarrow> pt_world run" where
  "pt_decompress_read e bio w =
     (let w = w\<lparr>pw_comp := snd (doca_compress_init (pe_comp e) (pw_comp w))\<rparr>;
          len = pt_data_size e bio - of_nat (pt_trailing_zeros (iovs bio) (pw_mem w))
      in run_bind (pt_gather e bio w) (\<lambda>(p, w).
         run_bind (pt_source bio p (unat len) w) (\<lambda>data.
         run_bind (compress_file (pe_comp e) p data DOCA_DECOMPRESS_DEFLATE_JOB COMPRESS_DEFLATE_HW (pw_comp w))
           (\<lambda>(out, cw).
         run_bind (pt_put_decompressed bio out cw (pw_mem w)) (\<lambda>m.
         run_bind (heap_free (co_file out) (doca_compress_cleanup (pe_comp e) cw)) (\<lambda>cw.
           Returns (w\<lparr>pw_mem := m, pw_comp := cw\<rparr>)))))))"

definition pt_finish :: "bool \<Rightarrow> pt_world \<Rightarrow> pt_world" where
  "pt_finish success w = pt_emit PtFreeBaseIo (pt_emit (PtComplete (status_of success)) w)"

definition pt_complete_io :: "pt_env \<Rightarrow> pt_bdev_io \<Rightarrow> bool \<Rightarrow> pt_world \<Rightarrow> pt_world run" where
  "pt_complete_io e bio success w =
     (if bdev_io_type bio = IO_READ \<and> do_compress
      then
        (case iovs bio of
           [] \<Rightarrow> Undefined
         | v # _ \<Rightarrow>
             if pw_mem w (iov_base v) = 0 then Returns (pt_finish success w)
             else run_bind (pt_decompress_read e bio w) (\<lambda>w. Returns (pt_finish success w)))
      else Returns (pt_finish success w))"

definition pt_complete_zcopy_io :: "base_io \<Rightarrow> bool \<Rightarrow> pt_world \<Rightarrow> pt_world run" where
  "pt_complete_zcopy_io b success w =
     (case bio_iovs b of
        [] \<Rightarrow> Undefined
      | v # _ \<Rightarrow> Returns (pt_finish success (pt_emit (PtSetBuf (iov_base v) (iov_len v)) w)))"

end
