(* ===== verification/Passthru_Roundtrip.thy ===== *)
theory Passthru_Roundtrip
  imports Passthru_Data
begin

text \<open>
  What the compressing passthru does to data: the bytes that a write hands to the base bdev, their
  round trip through a write and a read, the effect of a retry, and the requests that pass unchanged.
\<close>

subsection \<open>Dealing bytes out over iovecs\<close>

text \<open>The first \<open>n\<close> bytes of a list, padded with zeros.\<close>

definition pad :: "nat \<Rightarrow> u8 list \<Rightarrow> u8 list" where
  "pad n xs = take n (xs @ replicate n 0)"

lemma pad_length [simp]: "length (pad n xs) = n"
  by (simp add: pad_def)

lemma pad_short: "length xs \<le> n \<Longrightarrow> pad n xs = xs @ replicate (n - length xs) 0"
  by (simp add: pad_def)

lemma pad_long: "n \<le> length xs \<Longrightarrow> pad n xs = take n xs"
  by (simp add: pad_def)

lemma pad_add: "pad (l + t) xs = pad l xs @ pad t (drop l xs)"
proof (rule nth_equalityI)
  fix i
  assume "i < length (pad (l + t) xs)"
  then show "pad (l + t) xs ! i = (pad l xs @ pad t (drop l xs)) ! i"
    by (cases "i < l") (auto simp: pad_def nth_append min_def not_less)
qed simp

text \<open>Memory \<open>m'\<close> is \<open>m\<close> with \<open>bytes\<close> in the iovecs.\<close>

definition iov_holds :: "iovec list \<Rightarrow> u8 list \<Rightarrow> (nat \<Rightarrow> u8) \<Rightarrow> (nat \<Rightarrow> u8) \<Rightarrow> bool" where
  "iov_holds vs bytes m m' \<longleftrightarrow>
     map m' (iov_addrs vs) = bytes \<and> (\<forall>a. a \<notin> set (iov_addrs vs) \<longrightarrow> m' a = m a)"

lemma iov_holds_cons:
  assumes d: "distinct (iov_addrs (v # vs))" and one: "iov_holds [v] xs m m1" and rest: "iov_holds vs ys m1 m2"
  shows "iov_holds (v # vs) (xs @ ys) m m2"
proof -
  have "m2 a = m1 a" if "a \<in> set (iov_addrs [v])" for a
    using rest d that by (auto simp: iov_holds_def)
  then have "map m2 (iov_addrs [v]) = map m1 (iov_addrs [v])" by (intro map_cong) simp_all
  then show ?thesis using one rest by (auto simp: iov_holds_def)
qed

lemma iov_holds_put:
  "length bs \<le> iov_len v \<Longrightarrow>
     iov_holds [v] (pad (iov_len v) bs) m (mem_put (iov_base v) bs (mem_put (iov_base v) (replicate (iov_len v) 0) m))"
  by (auto simp: iov_holds_def pad_short mem_put_over mem_put_other)

lemma pt_fill_result:
  assumes "cw_heap cw a = Some blk" and "off + r \<le> length blk" and "distinct (iov_addrs vs)"
  shows "\<exists>m'. pt_fill cw (PHeap a) vs off r m = Returns m' \<and>
    iov_holds vs (pad (length (iov_addrs vs)) (take r (drop off blk))) m m'"
  using assms(2,3)
proof (induction vs arbitrary: off r m)
  case Nil
  then show ?case by (simp add: iov_holds_def pad_def)
next
  case (Cons v vs)
  let ?l = "iov_len v" and ?t = "length (iov_addrs vs)" and ?xs = "take r (drop off blk)"
  let ?k = "min r ?l" and ?off = "if r > ?l then off + ?l else off"
  let ?m1 = "mem_put (iov_base v) (take ?k (drop off blk)) (mem_put (iov_base v) (replicate ?l 0) m)"
  have d: "distinct (iov_addrs vs)" using Cons.prems(2) by simp
  have "?off + (r - ?l) \<le> length blk" using Cons.prems(1) by auto
  from Cons.IH[OF this d, of ?m1]
  obtain m' where m': "pt_fill cw (PHeap a) vs ?off (r - ?l) ?m1 = Returns m'"
    "iov_holds vs (pad ?t (take (r - ?l) (drop ?off blk))) ?m1 m'" by blast
  have one: "iov_holds [v] (pad ?l (take ?k (drop off blk))) m ?m1"
    by (rule iov_holds_put) simp
  have run: "pt_fill cw (PHeap a) (v # vs) off r m = Returns m'"
    using m'(1) assms(1) Cons.prems(1)
    by (cases "r > ?l") (simp_all add: Let_def heap_read_def min_def del: run_bind_Returns)
  have "take (r - ?l) (drop ?off blk) = drop ?l ?xs"
    by (cases "r > ?l") (simp_all add: drop_take add.commute)
  moreover have "pad ?l (take ?k (drop off blk)) = pad ?l ?xs"
  proof (cases "r > ?l")
    case True
    then have "?l \<le> length ?xs" "take ?k (drop off blk) = take ?l ?xs" using Cons.prems(1) by (auto simp: min_def)
    then show ?thesis by (simp add: pad_long)
  qed (simp add: min_def)
  moreover have "length (iov_addrs (v # vs)) = ?l + ?t" by simp
  ultimately have "iov_holds (v # vs) (pad (length (iov_addrs (v # vs))) ?xs) m m'"
    using iov_holds_cons[OF Cons.prems(2) one m'(2)] by (simp only: pad_add)
  then show ?case using run by blast
qed

lemma pt_spread_result:
  assumes "cw_heap cw a = Some blk" and "off + length (iov_addrs vs) \<le> length blk" and "distinct (iov_addrs vs)"
  shows "\<exists>m'. pt_spread cw (PHeap a) vs off m = Returns m' \<and>
    iov_holds vs (take (length (iov_addrs vs)) (drop off blk)) m m'"
  using assms(2,3)
proof (induction vs arbitrary: off m)
  case Nil
  then show ?case by (simp add: iov_holds_def)
next
  case (Cons v vs)
  let ?l = "iov_len v" and ?bs = "take (iov_len v) (drop off blk)"
  let ?m1 = "mem_put (iov_base v) ?bs (mem_put (iov_base v) (replicate ?l 0) m)"
  have d: "distinct (iov_addrs vs)" and fits: "off + ?l + length (iov_addrs vs) \<le> length blk"
    using Cons.prems by simp_all
  obtain m' where m': "pt_spread cw (PHeap a) vs (off + ?l) ?m1 = Returns m'"
    "iov_holds vs (take (length (iov_addrs vs)) (drop (off + ?l) blk)) ?m1 m'"
    using Cons.IH[OF fits d, of ?m1] by blast
  have len: "length ?bs = ?l" using fits by simp
  then have one: "iov_holds [v] ?bs m ?m1" using iov_holds_put[of ?bs v m] by (simp add: pad_short)
  have "take (?l + length (iov_addrs vs)) (drop off blk) =
      ?bs @ take (length (iov_addrs vs)) (drop (off + ?l) blk)"
    by (simp add: take_add add.commute)
  then have "iov_holds (v # vs) (take (length (iov_addrs (v # vs))) (drop off blk)) m m'"
    using iov_holds_cons[OF Cons.prems(2) one m'(2)] by simp
  moreover have "pt_spread cw (PHeap a) (v # vs) off m = Returns m'"
    using m'(1) assms(1) fits by (simp add: heap_read_def Let_def del: run_bind_Returns)
  ultimately show ?case by blast
qed

lemma pt_gather_loop_result:
  assumes "cw_heap cw a = Some blk" and "off + length (iov_addrs vs) \<le> length blk"
  shows "pt_gather_loop (PHeap a) off vs m cw = Returns (cw\<lparr>cw_heap := (cw_heap cw)
    (a \<mapsto> take off blk @ map m (iov_addrs vs) @ drop (off + length (iov_addrs vs)) blk)\<rparr>)"
  using assms
proof (induction vs arbitrary: off blk cw)
  case Nil
  then have "(cw_heap cw)(a \<mapsto> blk) = cw_heap cw" by auto
  then show ?case by simp
next
  case (Cons v vs)
  let ?l = "iov_len v" and ?t = "length (iov_addrs vs)"
  let ?bs = "map m [iov_base v..<iov_base v + ?l]"
  let ?blk = "take off blk @ ?bs @ drop (off + ?l) blk"
  let ?cw = "cw\<lparr>cw_heap := (cw_heap cw)(a \<mapsto> ?blk)\<rparr>"
  have fits: "off + ?l + ?t \<le> length blk" using Cons.prems(2) by simp
  have IH: "pt_gather_loop (PHeap a) (off + ?l) vs m ?cw = Returns (?cw\<lparr>cw_heap := (cw_heap ?cw)
      (a \<mapsto> take (off + ?l) ?blk @ map m (iov_addrs vs) @ drop (off + ?l + ?t) ?blk)\<rparr>)"
    by (rule Cons.IH) (use fits in simp_all)
  have parts: "take (off + ?l) ?blk = take off blk @ ?bs" "drop (off + ?l + ?t) ?blk = drop (off + (?l + ?t)) blk"
    using fits by (simp_all add: ac_simps)
  have step: "pt_gather_loop (PHeap a) off (v # vs) m cw = pt_gather_loop (PHeap a) (off + ?l) vs m ?cw"
    using Cons.prems fits by (simp add: heap_write_def)
  show ?case unfolding step IH parts by (simp add: fun_upd_def cong: if_cong)
qed

text \<open>Where the iovecs cut the stream \<open>c\<close>, it has no zero before the cut.\<close>

primrec pt_cut_ok :: "iovec list \<Rightarrow> u8 list \<Rightarrow> bool" where
  "pt_cut_ok [] c \<longleftrightarrow> True"
| "pt_cut_ok (v # vs) c \<longleftrightarrow>
     (0 < iov_len v \<and> iov_len v < length c \<longrightarrow> c ! (iov_len v - 1) \<noteq> 0) \<and> pt_cut_ok vs (drop (iov_len v) c)"

lemma pt_cut_single: "iov_addrs vs = [] \<Longrightarrow> pt_cut_ok vs c"
  by (induction vs arbitrary: c) auto

lemma trailing_zeros_list:
  "c = [] \<or> last c \<noteq> 0 \<Longrightarrow> length (takeWhile (\<lambda>b. b = 0) (rev (c @ replicate k (0 :: u8)))) = k"
  by (cases c rule: rev_cases) (auto simp: takeWhile_append)

lemma pt_trailing_zeros_pad:
  assumes "map m (iov_addrs vs) = pad (length (iov_addrs vs)) c" and "length c \<le> length (iov_addrs vs)"
    and "c = [] \<or> last c \<noteq> 0" and "pt_cut_ok vs c"
  shows "pt_trailing_zeros vs m = length (iov_addrs vs) - length c"
  using assms
proof (induction vs arbitrary: c)
  case Nil
  then show ?case by (simp add: pt_trailing_zeros_def)
next
  case (Cons v vs)
  let ?l = "iov_len v" and ?t = "length (iov_addrs vs)"
  have "map m [iov_base v..<iov_base v + ?l] @ map m (iov_addrs vs) = pad ?l c @ pad ?t (drop ?l c)"
    using Cons.prems(1) by (simp add: pad_add)
  then have first: "map m [iov_base v..<iov_base v + ?l] = pad ?l c" and rest: "map m (iov_addrs vs) = pad ?t (drop ?l c)"
    by (simp_all add: append_eq_append_conv)
  have dl: "drop ?l c = [] \<or> last (drop ?l c) \<noteq> 0" using Cons.prems(3) by (cases "?l < length c") auto
  have "pt_trailing_zeros vs m = ?t - length (drop ?l c)"
    by (rule Cons.IH[OF rest _ dl]) (use Cons.prems in auto)
  moreover have "length (takeWhile (\<lambda>b. b = 0) (rev (pad ?l c))) = ?l - length c"
  proof (cases "length c \<le> ?l")
    case True
    then show ?thesis using trailing_zeros_list[OF Cons.prems(3)] by (simp add: pad_short)
  next
    case False
    then have "take ?l c = [] \<or> last (take ?l c) \<noteq> 0"
      using Cons.prems(4) by (cases ?l) (auto simp: take_Suc_conv_app_nth)
    then show ?thesis using False trailing_zeros_list[of "take ?l c" 0] by (simp add: pad_long)
  qed
  ultimately show ?case using Cons.prems(2) by (simp add: pt_trailing_zeros_def first)
qed

subsection \<open>Gathering\<close>

text \<open>A data request as the bdev layer hands it over: its buffers do not overlap and have its size.\<close>

definition pt_request_ok :: "pt_env \<Rightarrow> pt_bdev_io \<Rightarrow> bool" where
  "pt_request_ok e bio \<longleftrightarrow>
     iovs bio \<noteq> [] \<and> distinct (iov_addrs (iovs bio)) \<and>
     length (iov_addrs (iovs bio)) = unat (pt_data_size e bio)"

definition pt_data :: "pt_bdev_io \<Rightarrow> pt_world \<Rightarrow> u8 list" where
  "pt_data bio w = map (pw_mem w) (iov_addrs (iovs bio))"

lemma pt_gather_result:
  assumes acc: "job_accepting (pe_comp e)" and fresh: "comp_fresh (pw_comp w)" and req: "pt_request_ok e bio"
  shows "\<exists>p cw. pt_gather e bio w = Returns (p, w\<lparr>pw_comp := cw\<rparr>) \<and> comp_extends (pw_comp w) cw \<and>
    (\<forall>cw' n. cw_heap cw' = cw_heap cw \<and> n \<le> length (pt_data bio w) \<longrightarrow>
       pt_source bio p n (w\<lparr>pw_comp := cw'\<rparr>) = Returns (take n (pt_data bio w))) \<and>
    (length (iovs bio) \<noteq> 1 \<longrightarrow> cw_next (pw_comp w) < cw_next cw \<and> cw_heap cw (cw_next (pw_comp w)) \<noteq> None)"
proof (cases "length (iovs bio) = 1")
  case True
  then obtain v where v: "iovs bio = [v]" by (metis One_nat_def length_0_conv length_Suc_conv)
  have "w = w\<lparr>pw_comp := pw_comp w\<rparr>" by simp
  then show ?thesis using v fresh
    by (intro exI[of _ "PForeign (iov_base v)"] exI[of _ "pw_comp w"])
      (auto simp: pt_gather_def pt_source_def comp_extends_def pt_data_def take_map)
next
  case False
  let ?n = "unat (pt_data_size e bio)" and ?a = "cw_next (pw_comp w)"
  let ?garbage = "map (dv_malloc (pe_comp e) ?a) [0..<?n]"
  let ?start = "pw_comp w\<lparr>cw_heap := (cw_heap (pw_comp w))(?a \<mapsto> ?garbage), cw_next := ?a + 1\<rparr>"
  let ?cw = "?start\<lparr>cw_heap := (cw_heap ?start)(?a \<mapsto> pt_data bio w)\<rparr>"
  have al: "dv_alloc (pe_comp e) ?a" using acc by (simp add: job_accepting_def)
  have n: "length (iov_addrs (iovs bio)) = ?n" using req by (simp add: pt_request_ok_def)
  have "pt_gather_loop (PHeap ?a) 0 (iovs bio) (pw_mem w) ?start = Returns ?cw"
    using pt_gather_loop_result[of ?start ?a ?garbage 0 "iovs bio" "pw_mem w"] n by (simp add: pt_data_def)
  then have "pt_gather e bio w = Returns (PHeap ?a, w\<lparr>pw_comp := ?cw\<rparr>)"
    using False al by (simp add: pt_gather_def heap_malloc_def Let_def del: run_bind_Returns)
  moreover have "comp_extends (pw_comp w) ?cw" using fresh by (auto simp: comp_extends_def comp_fresh_def)
  ultimately show ?thesis
    by (intro exI[of _ "PHeap ?a"] exI[of _ ?cw]) (auto simp: pt_source_def heap_read_def)
qed

subsection \<open>The data of a write\<close>

lemma put_single:
  assumes "length (iovs bio) = 1" and "cw_heap cw a = Some blk" and "length c \<le> length blk" and "take (length c) blk = c"
    and out: "co_file out = PHeap a" "co_len out = Some (length c)"
  shows "length c \<le> length (iov_addrs (iovs bio)) \<Longrightarrow>
      \<exists>m'. pt_put_compressed bio out cw m = Returns m' \<and> pt_put_decompressed bio out cw m = Returns m' \<and>
        iov_holds (iovs bio) (pad (length (iov_addrs (iovs bio))) c) m m'"
    and "length (iov_addrs (iovs bio)) < length c \<Longrightarrow>
      pt_put_compressed bio out cw m = Undefined \<and> pt_put_decompressed bio out cw m = Undefined"
proof -
  obtain v where v: "iovs bio = [v]" using assms(1) by (metis One_nat_def length_0_conv length_Suc_conv)
  {
    assume len: "length c \<le> length (iov_addrs (iovs bio))"
    then have "iov_holds [v] (pad (iov_len v) c) m
        (mem_put (iov_base v) c (mem_put (iov_base v) (replicate (iov_len v) 0) m))"
      using v by (intro iov_holds_put) simp
    then show "\<exists>m'. pt_put_compressed bio out cw m = Returns m' \<and> pt_put_decompressed bio out cw m = Returns m' \<and>
        iov_holds (iovs bio) (pad (length (iov_addrs (iovs bio))) c) m m'"
      using v len assms by (simp add: pt_put_compressed_def pt_put_decompressed_def heap_read_def Let_def
          del: run_bind_Returns)
  }
  show "length (iov_addrs (iovs bio)) < length c \<Longrightarrow>
      pt_put_compressed bio out cw m = Undefined \<and> pt_put_decompressed bio out cw m = Undefined"
    using v assms by (simp add: pt_put_compressed_def pt_put_decompressed_def)
qed

lemma put_many:
  assumes "length (iovs bio) \<noteq> 1" and "cw_heap cw a = Some blk" and "length c \<le> length blk" and "take (length c) blk = c"
    and out: "co_file out = PHeap a" "co_len out = Some (length c)" and d: "distinct (iov_addrs (iovs bio))"
  shows "\<exists>m'. pt_put_compressed bio out cw m = Returns m' \<and>
      iov_holds (iovs bio) (pad (length (iov_addrs (iovs bio))) c) m m'"
    and "length (iov_addrs (iovs bio)) \<le> length c \<Longrightarrow>
      \<exists>m'. pt_put_decompressed bio out cw m = Returns m' \<and>
        iov_holds (iovs bio) (pad (length (iov_addrs (iovs bio))) c) m m'"
proof -
  show "\<exists>m'. pt_put_compressed bio out cw m = Returns m' \<and>
      iov_holds (iovs bio) (pad (length (iov_addrs (iovs bio))) c) m m'"
    using pt_fill_result[OF assms(2) _ d, of 0 "length c" m] assms by (simp add: pt_put_compressed_def)
  assume len: "length (iov_addrs (iovs bio)) \<le> length c"
  then have "pad (length (iov_addrs (iovs bio))) c = take (length (iov_addrs (iovs bio))) blk"
    using assms(4) by (metis pad_long take_take min.absorb1)
  then show "\<exists>m'. pt_put_decompressed bio out cw m = Returns m' \<and>
        iov_holds (iovs bio) (pad (length (iov_addrs (iovs bio))) c) m m'"
    using pt_spread_result[OF assms(2) _ d, of 0 m] assms len by (simp add: pt_put_decompressed_def)
qed

text \<open>The block that receives the result is new, so that freeing it leaves what was there before.\<close>

lemma extends_free:
  assumes "comp_extends w w1" and "cw_next w \<le> a" and "cw_heap w1 a = Some blk" and "cw_heap w2 = cw_heap w1"
    and "cw_next w2 = cw_next w1" and "cw_files w2 = cw_files w1"
  shows "\<exists>w3. heap_free (PHeap a) w2 = Returns w3 \<and> comp_extends w w3 \<and>
    (\<forall>b. b \<noteq> a \<longrightarrow> cw_heap w3 b = cw_heap w1 b)"
  using assms by (simp add: heap_free_def comp_extends_def comp_fresh_def)

lemma pt_compress_write_result:
  assumes acc: "job_accepting (pe_comp e)" and fresh: "comp_fresh (pw_comp w)" and req: "pt_request_ok e bio"
    and y: "comp_yields (pe_comp e) COMPRESS_DEFLATE_HW DOCA_COMPRESS_DEFLATE_JOB (pt_data bio w) c chk"
  shows "if length (iovs bio) = 1 \<and> length (pt_data bio w) < length c then pt_compress_write e bio w = Undefined
    else \<exists>w'. pt_compress_write e bio w = Returns w' \<and>
      iov_holds (iovs bio) (pad (length (pt_data bio w)) c) (pw_mem w) (pw_mem w') \<and>
      pw_checksum w' = chk \<and> pw_events w' = pw_events w \<and> comp_extends (pw_comp w) (pw_comp w') \<and>
      (length (iovs bio) \<noteq> 1 \<longrightarrow> cw_next (pw_comp w) \<in> live_blocks (pw_comp w'))"
proof -
  let ?d = "pt_data bio w" and ?ce = "pe_comp e"
  have n: "length (iov_addrs (iovs bio)) = length ?d" "unat (pt_data_size e bio) = length ?d"
    and d: "distinct (iov_addrs (iovs bio))"
    using req by (simp_all add: pt_request_ok_def pt_data_def)
  obtain p cw where g: "pt_gather e bio w = Returns (p, w\<lparr>pw_comp := cw\<rparr>)" and x: "comp_extends (pw_comp w) cw"
    and src: "\<forall>cw' k. cw_heap cw' = cw_heap cw \<and> k \<le> length ?d \<longrightarrow>
       pt_source bio p k (w\<lparr>pw_comp := cw'\<rparr>) = Returns (take k ?d)"
    and leak: "length (iovs bio) \<noteq> 1 \<longrightarrow> cw_next (pw_comp w) < cw_next cw \<and> cw_heap cw (cw_next (pw_comp w)) \<noteq> None"
    using pt_gather_result[OF acc fresh req] by blast
  let ?cw = "snd (doca_compress_init ?ce cw)"
  have source: "pt_source bio p (length ?d) (w\<lparr>pw_comp := ?cw\<rparr>) = Returns ?d" using src by simp
  have f: "comp_fresh ?cw" using x by (simp add: comp_extends_def comp_fresh_def)
  obtain cw2 a blk where c: "compress_file ?ce p ?d DOCA_COMPRESS_DEFLATE_JOB COMPRESS_DEFLATE_HW ?cw =
        Returns (\<lparr>co_error = DOCA_SUCCESS, co_file = PHeap a, co_len = Some (length c), co_chksum = Some chk\<rparr>, cw2)"
      and x2: "comp_extends ?cw cw2" and blk: "cw_next ?cw \<le> a" "cw_heap cw2 a = Some blk" "take (length c) blk = c"
      and bl: "length blk = unat (compress_dst_size DOCA_COMPRESS_DEFLATE_JOB (of_nat (length ?d)))"
    using compress_file_success[OF acc f y, of p] by blast
  let ?out = "\<lparr>co_error = DOCA_SUCCESS, co_file = PHeap a, co_len = Some (length c), co_chksum = Some chk\<rparr>"
  have cl: "length c \<le> length blk" using y bl by (simp add: comp_yields_def Let_def)
  have run: "pt_compress_write e bio w =
      run_bind (pt_put_compressed bio ?out cw2 (pw_mem w)) (\<lambda>m.
      run_bind (heap_free (PHeap a) (doca_compress_cleanup ?ce cw2)) (\<lambda>cw.
        Returns (w\<lparr>pw_mem := m, pw_comp := cw, pw_checksum := chk\<rparr>)))"
    using c source by (simp add: pt_compress_write_def g n Let_def del: run_bind_Returns)
  have x3: "comp_extends (pw_comp w) cw2" using x x2 by (simp add: comp_extends_def)
  have "cw_next (pw_comp w) \<le> a" using x blk(1) by (simp add: comp_extends_def)
  from extends_free[OF x3 this blk(2), of "doca_compress_cleanup ?ce cw2"]
  obtain cw3 where free: "heap_free (PHeap a) (doca_compress_cleanup ?ce cw2) = Returns cw3"
      "comp_extends (pw_comp w) cw3" "\<forall>b. b \<noteq> a \<longrightarrow> cw_heap cw3 b = cw_heap cw2 b" by auto
  have live: "length (iovs bio) \<noteq> 1 \<longrightarrow> cw_next (pw_comp w) \<in> live_blocks cw3"
    using leak blk(1) free(3) x2 by (auto simp: live_blocks_def comp_extends_def domIff)
  show ?thesis
  proof (cases "length (iovs bio) = 1 \<and> length ?d < length c")
    case True
    then show ?thesis using put_single(2)[OF _ blk(2) cl blk(3), of bio ?out] by (simp add: run n)
  next
    case False
    then obtain m' where "pt_put_compressed bio ?out cw2 (pw_mem w) = Returns m'"
      "iov_holds (iovs bio) (pad (length ?d) c) (pw_mem w) m'"
      using put_single(1)[OF _ blk(2) cl blk(3), of bio ?out "pw_mem w"]
        put_many(1)[OF _ blk(2) cl blk(3) _ _ d, of ?out "pw_mem w"] n
      by (cases "length (iovs bio) = 1") fastforce+
    then show ?thesis using False free live by (simp add: run del: run_bind_Returns)
  qed
qed

subsection \<open>The data of a read\<close>

lemma pt_decompress_length:
  assumes req: "pt_request_ok e bio" and stored: "pt_data bio w = c @ replicate k 0"
    and c: "c = [] \<or> last c \<noteq> 0" "pt_cut_ok (iovs bio) c"
  shows "unat (pt_data_size e bio - of_nat (pt_trailing_zeros (iovs bio) (pw_mem w))) = length c"
proof -
  have n: "length (iov_addrs (iovs bio)) = length c + k" "unat (pt_data_size e bio) = length c + k"
    using req stored by (metis pt_data_def length_append length_map length_replicate pt_request_ok_def)+
  have "pt_trailing_zeros (iovs bio) (pw_mem w) = k"
    using pt_trailing_zeros_pad[of "pw_mem w" "iovs bio" c] stored c n by (simp add: pt_data_def pad_short)
  moreover have "length c + k < 2 ^ 64" using unat_u64_less[of "pt_data_size e bio"] n by simp
  then have "unat (of_nat k :: u64) = k" by (intro unat_of_nat_u64) linarith
  ultimately show ?thesis using unat_minus_no_wrap[of "of_nat k" "pt_data_size e bio"] n by simp
qed

lemma pt_decompress_read_result:
  assumes acc: "job_accepting (pe_comp e)" and fresh: "comp_fresh (pw_comp w)" and req: "pt_request_ok e bio"
    and stored: "pt_data bio w = c @ replicate k 0"
    and c: "c = [] \<or> last c \<noteq> 0" "pt_cut_ok (iovs bio) c"
    and y: "comp_yields (pe_comp e) COMPRESS_DEFLATE_HW DOCA_DECOMPRESS_DEFLATE_JOB c d chk"
    and size: "length d = length (pt_data bio w)"
  shows "\<exists>w'. pt_decompress_read e bio w = Returns w' \<and> iov_holds (iovs bio) d (pw_mem w) (pw_mem w') \<and>
    pw_events w' = pw_events w \<and> comp_extends (pw_comp w) (pw_comp w')"
proof -
  let ?ce = "pe_comp e" and ?w = "w\<lparr>pw_comp := snd (doca_compress_init (pe_comp e) (pw_comp w))\<rparr>"
  have n: "length (iov_addrs (iovs bio)) = length d" and dis: "distinct (iov_addrs (iovs bio))"
    using req size by (simp_all add: pt_request_ok_def pt_data_def)
  have same: "pt_data bio ?w = pt_data bio w" by (simp add: pt_data_def)
  have take: "take (length c) (pt_data bio w) = c" "length c \<le> length (pt_data bio w)" by (simp_all add: stored)
  have f: "comp_fresh (pw_comp ?w)" using fresh by (simp add: comp_fresh_def)
  obtain p cw where g: "pt_gather e bio ?w = Returns (p, ?w\<lparr>pw_comp := cw\<rparr>)" and x: "comp_extends (pw_comp ?w) cw"
    and src: "\<forall>cw' k. cw_heap cw' = cw_heap cw \<and> k \<le> length (pt_data bio ?w) \<longrightarrow>
       pt_source bio p k (?w\<lparr>pw_comp := cw'\<rparr>) = Returns (take k (pt_data bio ?w))"
    using pt_gather_result[OF acc f req] by blast
  have source: "pt_source bio p (length c) (?w\<lparr>pw_comp := cw\<rparr>) = Returns c"
    using src take same by simp
  have fcw: "comp_fresh cw" using x by (simp add: comp_extends_def)
  obtain cw2 a blk where j: "compress_file ?ce p c DOCA_DECOMPRESS_DEFLATE_JOB COMPRESS_DEFLATE_HW cw =
        Returns (\<lparr>co_error = DOCA_SUCCESS, co_file = PHeap a, co_len = Some (length d), co_chksum = Some chk\<rparr>, cw2)"
      and x2: "comp_extends cw cw2" and blk: "cw_next cw \<le> a" "cw_heap cw2 a = Some blk" "take (length d) blk = d"
      and bl: "length blk = unat (compress_dst_size DOCA_DECOMPRESS_DEFLATE_JOB (of_nat (length c)))"
    using compress_file_success[OF acc fcw y, of p] by blast
  let ?out = "\<lparr>co_error = DOCA_SUCCESS, co_file = PHeap a, co_len = Some (length d), co_chksum = Some chk\<rparr>"
  have dl: "length d \<le> length blk" using y bl by (simp add: comp_yields_def Let_def)
  have run: "pt_decompress_read e bio w =
      run_bind (pt_put_decompressed bio ?out cw2 (pw_mem w)) (\<lambda>m.
      run_bind (heap_free (PHeap a) (doca_compress_cleanup ?ce cw2)) (\<lambda>cw.
        Returns (w\<lparr>pw_mem := m, pw_comp := cw\<rparr>)))"
    using g source j pt_decompress_length[OF req stored c]
    by (simp add: pt_decompress_read_def Let_def del: run_bind_Returns)
  have "comp_extends (pw_comp w) cw2" "cw_next (pw_comp w) \<le> a"
    using x x2 blk(1) by (simp_all add: comp_extends_def)
  from extends_free[OF this blk(2), of "doca_compress_cleanup ?ce cw2"]
  obtain cw3 where free: "heap_free (PHeap a) (doca_compress_cleanup ?ce cw2) = Returns cw3"
      "comp_extends (pw_comp w) cw3" by auto
  obtain m' where "pt_put_decompressed bio ?out cw2 (pw_mem w) = Returns m'"
      "iov_holds (iovs bio) (pad (length d) d) (pw_mem w) m'"
    using put_single(1)[OF _ blk(2) dl blk(3), of bio ?out "pw_mem w"]
      put_many(2)[OF _ blk(2) dl blk(3) _ _ dis, of ?out "pw_mem w"] n
    by (cases "length (iovs bio) = 1") fastforce+
  then show ?thesis using free by (simp add: run pad_def del: run_bind_Returns)
qed

subsection \<open>Data through the bdev\<close>

text \<open>C21: a write to the passthru whose data compresses to \<open>c\<close> hands the base bdev \<open>c\<close>, padded with zeros to
  the size of the request, in the buffers of the caller, which no longer hold the data; memory outside
  them is unchanged. With more than one buffer, the block with the gathered data stays allocated, and a
  result that is larger than the buffers is cut off; with one buffer, a larger result is written past
  its end.\<close>

theorem pt_write_outcome:
  assumes acc: "job_accepting (pe_comp e)" and fresh: "comp_fresh (pw_comp w)" and req: "pt_request_ok e bio"
    and ty: "bdev_io_type bio = IO_WRITE"
    and y: "comp_yields (pe_comp e) COMPRESS_DEFLATE_HW DOCA_COMPRESS_DEFLATE_JOB (pt_data bio w) c chk"
  shows "if length (iovs bio) = 1 \<and> length (pt_data bio w) < length c
    then vbdev_passthru_submit_request e ch bio w = Undefined
    else \<exists>w'. vbdev_passthru_submit_request e ch bio w = Returns (pt_submit e ch bio w') \<and>
      pt_data bio w' = pad (length (pt_data bio w)) c \<and>
      (\<forall>a. a \<notin> set (iov_addrs (iovs bio)) \<longrightarrow> pw_mem w' a = pw_mem w a) \<and>
      pw_checksum w' = chk \<and> pw_events w' = pw_events w \<and>
      (length (iovs bio) \<noteq> 1 \<longrightarrow> cw_next (pw_comp w) \<in> live_blocks (pw_comp w'))"
proof -
  let ?w = "w\<lparr>pw_test := 0x5a\<rparr>"
  have same: "pt_data bio ?w = pt_data bio w" by (simp add: pt_data_def)
  have f: "comp_fresh (pw_comp ?w)" using fresh by simp
  have "vbdev_passthru_submit_request e ch bio w =
      run_bind (pt_compress_write e bio ?w) (\<lambda>w. Returns (pt_submit e ch bio w))"
    using ty by (simp add: vbdev_passthru_submit_request_def do_compress_def)
  then show ?thesis
    using pt_compress_write_result[OF acc f req y[folded same]] same
    by (auto simp: iov_holds_def pt_data_def split: if_splits)
qed

lemma pt_submit_data [simp]: "pt_data bio (pt_submit e ch bio' w) = pt_data bio w"
  by (simp add: pt_submit_def vbdev_passthru_queue_io_def pt_emit_def pt_data_def Let_def)

lemma pt_write_steps:
  assumes acc: "job_accepting (pe_comp e)" and fresh: "comp_fresh (pw_comp w)" and req: "pt_request_ok e bio"
    and ty: "bdev_io_type bio = IO_WRITE"
    and y: "comp_yields (pe_comp e) COMPRESS_DEFLATE_HW DOCA_COMPRESS_DEFLATE_JOB (pt_data bio w) c chk"
    and fits: "length c \<le> length (pt_data bio w)"
  shows "\<exists>w'. vbdev_passthru_submit_request e ch bio w = Returns (pt_submit e ch bio w') \<and>
      pt_data bio w' = c @ replicate (length (pt_data bio w) - length c) 0 \<and> comp_fresh (pw_comp w') \<and>
      pw_events w' = pw_events w"
proof -
  let ?w = "w\<lparr>pw_test := 0x5a\<rparr>"
  have same: "pt_data bio ?w = pt_data bio w" by (simp add: pt_data_def)
  have f: "comp_fresh (pw_comp ?w)" using fresh by simp
  have run: "vbdev_passthru_submit_request e ch bio w =
      run_bind (pt_compress_write e bio ?w) (\<lambda>w. Returns (pt_submit e ch bio w))"
    using ty by (simp add: vbdev_passthru_submit_request_def do_compress_def)
  obtain w' where w': "pt_compress_write e bio ?w = Returns w'"
      "iov_holds (iovs bio) (pad (length (pt_data bio ?w)) c) (pw_mem ?w) (pw_mem w')"
      "pw_events w' = pw_events ?w" "comp_extends (pw_comp ?w) (pw_comp w')"
    using pt_compress_write_result[OF acc f req y[folded same]] fits same by (auto split: if_splits)
  then show ?thesis using fits same
    by (intro exI[of _ w']) (auto simp: run iov_holds_def pt_data_def pad_short comp_extends_def)
qed

lemma pt_read_steps:
  assumes acc: "job_accepting (pe_comp e)" and fresh: "comp_fresh (pw_comp w)" and req: "pt_request_ok e bio"
    and ty: "bdev_io_type bio = IO_READ" and stored: "pt_data bio w = c @ replicate k 0"
    and c: "c \<noteq> []" "hd c \<noteq> 0" "last c \<noteq> 0" "pt_cut_ok (iovs bio) c" and first: "0 < iov_len (hd (iovs bio))"
    and y: "comp_yields (pe_comp e) COMPRESS_DEFLATE_HW DOCA_DECOMPRESS_DEFLATE_JOB c d chk"
    and size: "length d = length (pt_data bio w)"
  shows "\<exists>w'. pt_complete_io e bio success w = Returns w' \<and> pt_data bio w' = d \<and>
    pw_events w' = pw_events w @ [PtComplete (status_of success), PtFreeBaseIo]"
proof -
  obtain v vs where v: "iovs bio = v # vs" using req by (cases "iovs bio") (auto simp: pt_request_ok_def)
  have "pw_mem w (iov_base v) = hd (pt_data bio w)"
    using first v by (simp add: pt_data_def upt_rec)
  then have nz: "pw_mem w (iov_base v) \<noteq> 0" using stored c(1,2) by simp
  obtain w' where w': "pt_decompress_read e bio w = Returns w'" "iov_holds (iovs bio) d (pw_mem w) (pw_mem w')"
      "pw_events w' = pw_events w"
    using pt_decompress_read_result[OF acc fresh req stored _ c(4) y size] c(3) by blast
  then show ?thesis using ty nz v
    by (intro exI[of _ "pt_finish success w'"])
      (auto simp: pt_complete_io_def do_compress_def pt_finish_def pt_emit_def iov_holds_def pt_data_def)
qed

lemma pt_read_skips:
  assumes req: "pt_request_ok e bio" and ty: "bdev_io_type bio = IO_READ"
    and stored: "pt_data bio w = c @ replicate k 0" and c: "c = [] \<or> hd c = 0" and first: "0 < iov_len (hd (iovs bio))"
  shows "pt_complete_io e bio success w = Returns (pt_finish success w)"
    and "pt_data bio (pt_finish success w) = c @ replicate k 0"
    and "pw_events (pt_finish success w) = pw_events w @ [PtComplete (status_of success), PtFreeBaseIo]"
proof -
  obtain v vs where v: "iovs bio = v # vs" using req by (cases "iovs bio") (auto simp: pt_request_ok_def)
  have hd: "pw_mem w (iov_base v) = hd (pt_data bio w)" and ne: "pt_data bio w \<noteq> []"
    using first v by (simp_all add: pt_data_def upt_rec)
  have "hd (pt_data bio w) = 0"
  proof (cases c)
    case Nil
    then show ?thesis using stored ne by (cases k) simp_all
  next
    case Cons
    then show ?thesis using stored c by simp
  qed
  then show "pt_complete_io e bio success w = Returns (pt_finish success w)"
    using v hd by (simp add: pt_complete_io_def)
  show "pt_data bio (pt_finish success w) = c @ replicate k 0"
    using stored by (simp add: pt_finish_def pt_emit_def pt_data_def)
  show "pw_events (pt_finish success w) = pw_events w @ [PtComplete (status_of success), PtFreeBaseIo]"
    by (simp add: pt_finish_def pt_emit_def)
qed

text \<open>The base bdevs as bytes, by descriptor: a write request puts what its buffers hold from its first
  block on, a read request fetches into its buffers what is there.\<close>

definition base_put :: "nat \<Rightarrow> pt_base_io \<Rightarrow> (nat \<Rightarrow> u8) \<Rightarrow> (string option \<Rightarrow> nat \<Rightarrow> u8) \<Rightarrow> string option \<Rightarrow> nat \<Rightarrow> u8" where
  "base_put bl b m disk =
     disk(bio_desc b := mem_put (unat (bio_lba b) * bl) (map m (iov_addrs (bio_iovs b))) (disk (bio_desc b)))"

definition base_get :: "nat \<Rightarrow> pt_base_io \<Rightarrow> (string option \<Rightarrow> nat \<Rightarrow> u8) \<Rightarrow> (nat \<Rightarrow> u8) \<Rightarrow> nat \<Rightarrow> u8" where
  "base_get bl b disk =
     fill_memory (iov_addrs (bio_iovs b)) (\<lambda>k. disk (bio_desc b) (unat (bio_lba b) * bl + k))"

lemma fill_memory_map:
  "distinct addrs \<Longrightarrow> map (fill_memory addrs f m) addrs = map f [0..<length addrs]"
  by (rule nth_equalityI) (simp_all add: fill_memory_nth)

text \<open>Blocks that nobody has written since a write come back in a read of the same range.\<close>

lemma base_get_put:
  assumes kept: "\<forall>k < n. disk' (bio_desc b) (unat (bio_lba b) * bl + k) = base_put bl b m disk (bio_desc b) (unat (bio_lba b) * bl + k)"
    and same: "bio_desc b' = bio_desc b" "bio_lba b' = bio_lba b"
    and len: "length (iov_addrs (bio_iovs b')) = length (iov_addrs (bio_iovs b))" "length (iov_addrs (bio_iovs b)) \<le> n"
    and dis: "distinct (iov_addrs (bio_iovs b'))"
  shows "map (base_get bl b' disk' m') (iov_addrs (bio_iovs b')) = map m (iov_addrs (bio_iovs b))"
proof -
  let ?a = "unat (bio_lba b) * bl" and ?bs = "map m (iov_addrs (bio_iovs b))"
  have "map (base_get bl b' disk' m') (iov_addrs (bio_iovs b')) = map (\<lambda>k. disk' (bio_desc b) (?a + k)) [0..<length ?bs]"
    using same len by (simp add: base_get_def fill_memory_map[OF dis])
  also have "\<dots> = map (\<lambda>k. base_put bl b m disk (bio_desc b) (?a + k)) [0..<length ?bs]"
    using kept len by (intro map_cong) auto
  also have "\<dots> = map (mem_put ?a ?bs (disk (bio_desc b))) [?a..<?a + length ?bs]"
    by (rule nth_equalityI) (simp_all add: base_put_def)
  finally show ?thesis by (simp only: mem_put_get)
qed

lemma pt_size_le: "unat (pt_data_size e bio) \<le> unat (num_blocks bio) * unat (pe_blocklen e)"
  by (simp add: pt_data_size_def unat_word_ariths unsigned_ucast_eq take_bit_nat_eq_self_iff)

text \<open>A read from its submission to its completion, when the base bdev has left \<open>m\<close> in memory.\<close>

lemma pt_read_through:
  fixes m :: "nat \<Rightarrow> u8" and e :: pt_env and bio :: pt_bdev_io
  defines "br \<equiv> pt_base_request e bio"
  assumes acc: "job_accepting (pe_comp e)" and fresh: "comp_fresh (pw_comp w)" and req: "pt_request_ok e bio"
    and ty: "bdev_io_type bio = IO_READ" and accepted: "pe_rc e br = 0"
    and filled: "map m (iov_addrs (iovs bio)) = c @ replicate k 0" and c: "c = [] \<or> last c \<noteq> 0"
    and first: "0 < iov_len (hd (iovs bio))" and cut: "pt_cut_ok (iovs bio) c"
    and y: "comp_yields (pe_comp e) COMPRESS_DEFLATE_HW DOCA_DECOMPRESS_DEFLATE_JOB c d chk"
    and size: "length d = length (iov_addrs (iovs bio))"
  shows "\<exists>w2. vbdev_passthru_submit_request e ch bio w = Returns w2 \<and> pw_mem w2 = pw_mem w \<and>
      pw_events w2 = pw_events w @ [PtGetBuf (pt_data_size e bio)] \<and>
      pw_events (pt_read_get_buf_cb e ch bio True w2) = pw_events w2 @ [PtSubmit br] \<and>
      (\<exists>w3. pt_complete_io e bio True ((pt_read_get_buf_cb e ch bio True w2)\<lparr>pw_mem := m\<rparr>) = Returns w3 \<and>
        pt_data bio w3 = (if c = [] \<or> hd c = 0 then c @ replicate k 0 else d) \<and>
        pw_events w3 = pw_events w2 @ [PtSubmit br, PtComplete STATUS_SUCCESS, PtFreeBaseIo])"
proof -
  let ?w2 = "pt_emit (PtGetBuf (pt_data_size e bio)) (w\<lparr>pw_test := 0x5a\<rparr>)"
  let ?w3 = "(pt_emit (PtSubmit br) ?w2)\<lparr>pw_mem := m\<rparr>"
  have sub: "vbdev_passthru_submit_request e ch bio w = Returns ?w2"
    using ty by (simp add: vbdev_passthru_submit_request_def)
  have cb: "pt_read_get_buf_cb e ch bio True ?w2 = pt_emit (PtSubmit br) ?w2"
    using accepted by (simp add: pt_read_get_buf_cb_def pt_submit_def br_def)
  have f: "comp_fresh (pw_comp ?w3)" and stored: "pt_data bio ?w3 = c @ replicate k 0"
    and len: "length d = length (pt_data bio ?w3)"
    using fresh filled size by (simp_all add: pt_emit_def pt_data_def flip: length_map[of m])
  have ev: "pw_events ?w2 = pw_events w @ [PtGetBuf (pt_data_size e bio)]"
    "pw_events ?w3 = pw_events ?w2 @ [PtSubmit br]" "pw_events (pt_emit (PtSubmit br) ?w2) = pw_events ?w2 @ [PtSubmit br]"
    "pw_mem ?w2 = pw_mem w" by (simp_all add: pt_emit_def)
  have "\<exists>w4. pt_complete_io e bio True ?w3 = Returns w4 \<and>
      pt_data bio w4 = (if c = [] \<or> hd c = 0 then c @ replicate k 0 else d) \<and>
      pw_events w4 = pw_events ?w3 @ [PtComplete STATUS_SUCCESS, PtFreeBaseIo]"
  proof (cases "c = [] \<or> hd c = 0")
    case True
    then show ?thesis using pt_read_skips[OF req ty stored _ first, of True] by simp
  next
    case False
    then show ?thesis using pt_read_steps[OF acc f req ty stored _ _ _ cut first y len, of True] c by simp
  qed
  then obtain w4 where "pt_complete_io e bio True ?w3 = Returns w4"
      "pt_data bio w4 = (if c = [] \<or> hd c = 0 then c @ replicate k 0 else d)"
      "pw_events w4 = pw_events ?w2 @ [PtSubmit br, PtComplete STATUS_SUCCESS, PtFreeBaseIo]"
    unfolding ev(2) by auto
  then show ?thesis by (intro exI[of _ ?w2] exI[of _ w4] conjI, unfold cb) (rule sub ev | assumption)+
qed

text \<open>C20: data comes back through the passthru as it was written. A write is compressed to \<open>c\<close>, which is not
  larger than the request and does not end with a zero byte, and the base bdev takes it at once. Later,
  whatever has happened in between to memory, to the compression code and to the other blocks of the
  base bdev, a read of the same range, whose buffers do not cut \<open>c\<close> after a zero byte and of which the
  first is not empty, is given its buffers and sent to the base bdev on the same range; when the base
  bdev has filled the buffers from its blocks and DOCA decompresses \<open>c\<close> to the data, the read completes
  once, with success, and its buffers, however many they are, hold the data of the write. The exception
  is a result \<open>c\<close> that is empty or starts with a zero byte: then nothing is decompressed, and the read
  gives what is stored.\<close>

theorem pt_write_read_round_trip:
  fixes e er :: pt_env and bio bior :: pt_bdev_io and w :: pt_world and c :: "u8 list"
  defines "d \<equiv> pt_data bio w" and "b \<equiv> pt_base_request e bio" and "br \<equiv> pt_base_request er bior"
    and "bl \<equiv> unat (pe_blocklen e)"
  assumes "job_accepting (pe_comp e)" and "comp_fresh (pw_comp w)" and "pt_request_ok e bio"
    and "bdev_io_type bio = IO_WRITE" and accepted: "pe_rc e b = 0"
    and "comp_yields (pe_comp e) COMPRESS_DEFLATE_HW DOCA_COMPRESS_DEFLATE_JOB d c chk"
    and fits: "length c \<le> length d" and c: "c = [] \<or> last c \<noteq> 0"
    and "job_accepting (pe_comp er)" and "pt_request_ok er bior" and "bdev_io_type bior = IO_READ"
    and range: "offset_blocks bior = offset_blocks bio" "num_blocks bior = num_blocks bio"
    and node: "pe_blocklen er = pe_blocklen e" "pe_desc er = pe_desc e" and accepted': "pe_rc er br = 0"
    and "0 < iov_len (hd (iovs bior))" and "pt_cut_ok (iovs bior) c"
    and "comp_yields (pe_comp er) COMPRESS_DEFLATE_HW DOCA_DECOMPRESS_DEFLATE_JOB c d chk"
  shows "\<exists>w1. vbdev_passthru_submit_request e ch bio w = Returns w1 \<and> pw_events w1 = pw_events w @ [PtSubmit b] \<and>
    (\<forall>disk disk' wr.
       comp_fresh (pw_comp wr) \<and>
       (\<forall>k < unat (num_blocks bio) * bl. disk' (bio_desc b) (unat (offset_blocks bio) * bl + k) =
          base_put bl b (pw_mem w1) disk (bio_desc b) (unat (offset_blocks bio) * bl + k)) \<longrightarrow>
       (\<exists>w2 w3. vbdev_passthru_submit_request er ch' bior wr = Returns w2 \<and>
          pw_events w2 = pw_events wr @ [PtGetBuf (pt_data_size er bior)] \<and>
          pw_events (pt_read_get_buf_cb er ch' bior True w2) = pw_events w2 @ [PtSubmit br] \<and>
          pt_complete_io er bior True ((pt_read_get_buf_cb er ch' bior True w2)
            \<lparr>pw_mem := base_get bl br disk' (pw_mem w2)\<rparr>) = Returns w3 \<and>
          pt_data bior w3 = (if c = [] \<or> hd c = 0 then c @ replicate (length d - length c) 0 else d) \<and>
          pw_events w3 = pw_events w2 @ [PtSubmit br, PtComplete STATUS_SUCCESS, PtFreeBaseIo]))"
proof -
  obtain w' where w': "vbdev_passthru_submit_request e ch bio w = Returns (pt_submit e ch bio w')"
      "pt_data bio w' = c @ replicate (length d - length c) 0" "pw_events w' = pw_events w"
    using pt_write_steps[OF assms(5-8) assms(10)[unfolded d_def] fits[unfolded d_def]] by (auto simp: d_def)
  let ?w1 = "pt_submit e ch bio w'"
  have w1: "pt_data bio ?w1 = c @ replicate (length d - length c) 0" "pw_events ?w1 = pw_events w @ [PtSubmit b]"
    using w' accepted by (simp_all add: pt_submit_def pt_emit_def pt_data_def b_def)
  have base: "bio_lba b = offset_blocks bio" "bio_iovs b = iovs bio" "bio_lba br = offset_blocks bio"
      "bio_iovs br = iovs bior" "bio_desc br = bio_desc b"
    using assms(8,15) range node by (simp_all add: b_def br_def pt_base_request_def)
  have dis: "distinct (iov_addrs (iovs bior))" "length (iov_addrs (iovs bior)) = length d"
      "length (iov_addrs (iovs bio)) = length d" "length d \<le> unat (num_blocks bio) * bl"
    using assms(7,14) range node pt_size_le[of e bio]
    by (simp_all add: pt_request_ok_def pt_data_size_def d_def bl_def pt_data_def)
  show ?thesis
  proof (rule exI[of _ ?w1], intro conjI allI impI, goal_cases)
    case (3 disk disk' wr)
    let ?m = "base_get bl br disk' (pw_mem wr)"
    have "map ?m (iov_addrs (bio_iovs br)) = map (pw_mem ?w1) (iov_addrs (bio_iovs b))"
      by (rule base_get_put[where disk = disk, OF _ base(5)]) (use 3 dis in \<open>simp_all add: base\<close>)
    then have filled: "map ?m (iov_addrs (iovs bior)) = c @ replicate (length d - length c) 0"
      using w1(1) by (simp add: pt_data_def base)
    show ?case
      using pt_read_through[OF assms(13) 3[THEN conjunct1] assms(14,15) accepted'[unfolded br_def] filled c assms(21,22,23)
          dis(2)[symmetric], of ch'] by (fold br_def) auto
  qed (use w'(1) w1(2) in simp_all)
qed

text \<open>C22: a write that the base bdev refuses for want of memory is queued and later submitted again from the
  start, on the buffers that already hold compressed data: what reaches the base bdev is the compressed
  form of the compressed and padded data. A read then gives back the compressed data and not the data.\<close>

theorem pt_retry_compresses_again:
  fixes e e' :: pt_env and bio :: pt_bdev_io and w :: pt_world
  defines "d \<equiv> pt_data bio w"
  assumes "job_accepting (pe_comp e)" and "comp_fresh (pw_comp w)" and "pt_request_ok e bio"
    and "bdev_io_type bio = IO_WRITE" and again: "pe_rc e (pt_base_request e bio) = - ENOMEM" "pe_queue_rc e = 0"
    and "comp_yields (pe_comp e) COMPRESS_DEFLATE_HW DOCA_COMPRESS_DEFLATE_JOB d c chk" and "length c \<le> length d"
    and "job_accepting (pe_comp e')" and "pt_request_ok e' bio" and accepted: "pe_rc e' (pt_base_request e' bio) = 0"
    and "comp_yields (pe_comp e') COMPRESS_DEFLATE_HW DOCA_COMPRESS_DEFLATE_JOB
           (c @ replicate (length d - length c) 0) c' chk'" and "length c' \<le> length d"
  shows "\<exists>w1 w2. vbdev_passthru_submit_request e ch bio w = Returns w1 \<and> pw_events w1 = pw_events w @ [PtWait] \<and>
    vbdev_passthru_resubmit_io e' bio w1 = Returns w2 \<and>
    pw_events w2 = pw_events w @ [PtWait, PtSubmit (pt_base_request e' bio)] \<and>
    pt_data bio w2 = c' @ replicate (length d - length c') 0"
proof -
  obtain w' where w': "vbdev_passthru_submit_request e ch bio w = Returns (pt_submit e ch bio w')"
      "pt_data bio w' = c @ replicate (length d - length c) 0" "comp_fresh (pw_comp w')" "pw_events w' = pw_events w"
    using pt_write_steps[OF assms(2,3,4,5) assms(8,9)[unfolded d_def]] by (auto simp: d_def)
  let ?w1 = "pt_submit e ch bio w'"
  have w1: "pt_data bio ?w1 = c @ replicate (length d - length c) 0" "comp_fresh (pw_comp ?w1)"
      "pw_events ?w1 = pw_events w @ [PtWait]"
    using w' again by (simp_all add: pt_submit_def vbdev_passthru_queue_io_def pt_emit_def pt_data_def)
  have len: "length (pt_data bio ?w1) = length d" using w1(1) assms(9) by simp
  have y: "comp_yields (pe_comp e') COMPRESS_DEFLATE_HW DOCA_COMPRESS_DEFLATE_JOB (pt_data bio ?w1) c' chk'"
    using assms(13) by (simp only: w1(1))
  obtain w2 where w2: "vbdev_passthru_submit_request e' (pw_ch ?w1) bio ?w1 = Returns (pt_submit e' (pw_ch ?w1) bio w2)"
      "pt_data bio w2 = c' @ replicate (length d - length c') 0" "pw_events w2 = pw_events ?w1"
    using pt_write_steps[OF assms(10) w1(2) assms(11,5) y] assms(14) len by auto
  have "pt_data bio (pt_submit e' (pw_ch ?w1) bio w2) = c' @ replicate (length d - length c') 0"
      "pw_events (pt_submit e' (pw_ch ?w1) bio w2) = pw_events w @ [PtWait, PtSubmit (pt_base_request e' bio)]"
    using w2 w1(3) accepted by (simp_all add: pt_submit_def pt_emit_def pt_data_def)
  then show ?thesis using w'(1) w1(3) w2(1) by (auto simp: vbdev_passthru_resubmit_io_def)
qed

text \<open>Every other request passes unchanged: one base I/O of its type on its range, with its flag or the
  I/O to abort; when it is refused the request is queued on the channel of the base bdev if memory is
  short and fails otherwise; an unknown type fails at once. Memory and compression are not touched, and
  the end of the base I/O completes the request once with its status.\<close>

theorem pt_passes_through:
  assumes "bdev_io_type bio \<notin> {IO_READ, IO_WRITE}"
  shows "\<exists>w1. vbdev_passthru_submit_request e ch bio w = Returns w1 \<and> pw_mem w1 = pw_mem w \<and> pw_comp w1 = pw_comp w \<and>
    pw_events w1 = pw_events w @
      [if \<exists>n. bdev_io_type bio = IO_OTHER n then PtComplete STATUS_FAILED
       else if pe_rc e (pt_base_request e bio) = 0 then PtSubmit (pt_base_request e bio)
       else if pe_rc e (pt_base_request e bio) = - ENOMEM \<and> pe_queue_rc e = 0 then PtWait
       else PtComplete STATUS_FAILED] \<and>
    bio_type (pt_base_request e bio) = bdev_io_type bio \<and>
    (bdev_io_type bio \<in> {IO_WRITE_ZEROES, IO_UNMAP, IO_FLUSH, IO_ZCOPY} \<longrightarrow>
       bio_lba (pt_base_request e bio) = offset_blocks bio \<and> bio_blocks (pt_base_request e bio) = num_blocks bio) \<and>
    (bdev_io_type bio \<noteq> IO_ZCOPY \<longrightarrow>
       (\<exists>w2. pt_complete_io e bio success w1 = Returns w2 \<and> pw_mem w2 = pw_mem w \<and>
          pw_events w2 = pw_events w1 @ [PtComplete (status_of success), PtFreeBaseIo]))"
proof -
  have base: "bio_type (pt_base_request e bio) = bdev_io_type bio"
    "bdev_io_type bio \<in> {IO_WRITE_ZEROES, IO_UNMAP, IO_FLUSH, IO_ZCOPY} \<longrightarrow>
       bio_lba (pt_base_request e bio) = offset_blocks bio \<and> bio_blocks (pt_base_request e bio) = num_blocks bio"
    by (auto simp: pt_base_request_def Let_def)
  have complete: "pt_complete_io e bio success w1 = Returns (pt_finish success w1)" for w1
    using assms by (simp add: pt_complete_io_def)
  have "\<exists>w1. vbdev_passthru_submit_request e ch bio w = Returns w1 \<and> pw_mem w1 = pw_mem w \<and> pw_comp w1 = pw_comp w \<and>
    pw_events w1 = pw_events w @
      [if \<exists>n. bdev_io_type bio = IO_OTHER n then PtComplete STATUS_FAILED
       else if pe_rc e (pt_base_request e bio) = 0 then PtSubmit (pt_base_request e bio)
       else if pe_rc e (pt_base_request e bio) = - ENOMEM \<and> pe_queue_rc e = 0 then PtWait
       else PtComplete STATUS_FAILED]"
    using assms by (cases "bdev_io_type bio")
      (simp_all add: vbdev_passthru_submit_request_def pt_submit_def vbdev_passthru_queue_io_def pt_emit_def Let_def)
  then show ?thesis using base by (auto simp: complete pt_finish_def pt_emit_def)
qed

subsection \<open>Concrete requests\<close>

text \<open>A codec for eight bytes: equal bytes become their number and the byte; anything else gets a mark in
  front and one behind, without the zeros at its end.\<close>

definition pt_example_job :: "doca_job_type \<Rightarrow> u8 list \<Rightarrow> nat \<Rightarrow> doca_error \<times> u8 list \<times> u64" where
  "pt_example_job job data n =
     (DOCA_SUCCESS,
      case job of
        DOCA_COMPRESS_DEFLATE_JOB \<Rightarrow>
          if list_all (\<lambda>b. b = hd data) data then [8, hd data]
          else 9 # rev (dropWhile (\<lambda>b. b = 0) (rev data)) @ [1]
      | DOCA_DECOMPRESS_DEFLATE_JOB \<Rightarrow>
          if hd data = 8 then replicate 8 (data ! 1) else pad 8 (butlast (tl data)),
      42)"

definition pt_example_env :: "int \<Rightarrow> pt_env" where
  "pt_example_env rc =
     \<lparr>pe_comp = comp_example_env\<lparr>dv_job := pt_example_job\<rparr>, pe_desc = Some ''base'', pe_blocklen = 4,
      pe_base_ch = Some 3, pe_rc = (\<lambda>_. rc), pe_queue_rc = 0\<rparr>"

definition pt_example_io :: "io_type \<Rightarrow> iovec list \<Rightarrow> pt_bdev_io" where
  "pt_example_io ty vs =
     \<lparr>bdev_io_type = ty, offset_blocks = 6, num_blocks = 2, iovs = vs, md_buf = None, zcopy_populate = False,
      bio_to_abort = 0\<rparr>"

definition pt_example_world :: pt_world where
  "pt_example_world =
     \<lparr>pw_mem = (\<lambda>_. 5), pw_comp = comp_example_world, pw_checksum = 0, pw_test = 0, pw_ch = None, pw_events = []\<rparr>"

abbreviation pt_example_write :: pt_bdev_io where
  "pt_example_write \<equiv> pt_example_io IO_WRITE [\<lparr>iov_base = 100, iov_len = 8\<rparr>]"

abbreviation pt_example_read :: pt_bdev_io where
  "pt_example_read \<equiv> pt_example_io IO_READ [\<lparr>iov_base = 200, iov_len = 2\<rparr>, \<lparr>iov_base = 300, iov_len = 6\<rparr>]"

lemma pt_example_data: "pt_data pt_example_write pt_example_world = replicate 8 5"
  by code_simp

lemma pt_example_facts:
  "job_accepting (pe_comp (pt_example_env rc))" "comp_fresh (pw_comp pt_example_world)"
  "pt_request_ok (pt_example_env rc) pt_example_write" "pt_request_ok (pt_example_env rc) pt_example_read"
  "bdev_io_type (pt_example_io ty vs) = ty" "pe_rc (pt_example_env rc) b = rc" "pe_queue_rc (pt_example_env rc) = 0"
  "length (iov_addrs (iovs pt_example_read)) = 8" "0 < iov_len (hd (iovs pt_example_read))"
  "pt_cut_ok (iovs pt_example_read) [8, 5]"
  using comp_example_accepting comp_example_fresh
  by (auto simp: comp_accepting_def job_accepting_def pt_example_env_def pt_example_world_def pt_request_ok_def
      pt_data_size_def pt_example_io_def)

lemma pt_example_yields:
  "comp_yields (pe_comp (pt_example_env rc)) COMPRESS_DEFLATE_HW DOCA_COMPRESS_DEFLATE_JOB (replicate 8 5) [8, 5] 42"
  "comp_yields (pe_comp (pt_example_env rc)) COMPRESS_DEFLATE_HW DOCA_DECOMPRESS_DEFLATE_JOB [8, 5] (replicate 8 5) 42"
  "comp_yields (pe_comp (pt_example_env rc)) COMPRESS_DEFLATE_HW DOCA_COMPRESS_DEFLATE_JOB
     ([8, 5] @ replicate 6 0) [9, 8, 5, 1] 42"
proof -
  have size: "8 \<le> unat (compress_dst_size job n)" for job n
  proof -
    have "2 ^ 20 \<le> unat (compress_dst_size job n)" by (simp add: dst_size_clamp Let_def)
    moreover have "(8 :: nat) \<le> 2 ^ 20" by simp
    ultimately show ?thesis by (rule order_trans[rotated])
  qed
  have job: "pt_example_job DOCA_COMPRESS_DEFLATE_JOB (replicate 8 5) n = (DOCA_SUCCESS, [8, 5], 42)"
    "pt_example_job DOCA_DECOMPRESS_DEFLATE_JOB [8, 5] n = (DOCA_SUCCESS, replicate 8 5, 42)"
    "pt_example_job DOCA_COMPRESS_DEFLATE_JOB ([8, 5] @ replicate 6 0) n = (DOCA_SUCCESS, [9, 8, 5, 1], 42)" for n
    by code_simp+
  have two: "length [8, 5 :: u8] \<le> 8" "length [9, 8, 5, 1 :: u8] \<le> 8" "length (replicate 8 (5 :: u8)) \<le> 8" by simp_all
  have env: "dv_job (pe_comp (pt_example_env rc)) = pt_example_job" by (simp add: pt_example_env_def)
  note fits = two(1)[THEN order_trans, OF size] two(2)[THEN order_trans, OF size] two(3)[THEN order_trans, OF size]
  show "comp_yields (pe_comp (pt_example_env rc)) COMPRESS_DEFLATE_HW DOCA_COMPRESS_DEFLATE_JOB (replicate 8 5) [8, 5] 42"
    "comp_yields (pe_comp (pt_example_env rc)) COMPRESS_DEFLATE_HW DOCA_DECOMPRESS_DEFLATE_JOB [8, 5] (replicate 8 5) 42"
    "comp_yields (pe_comp (pt_example_env rc)) COMPRESS_DEFLATE_HW DOCA_COMPRESS_DEFLATE_JOB
       ([8, 5] @ replicate 6 0) [9, 8, 5, 1] 42"
    unfolding comp_yields_def Let_def using fits job by (simp_all only: env file_compression_compress_method.case simp_thms)
qed

lemma pt_write_outcome_witness:
  "\<exists>w'. vbdev_passthru_submit_request (pt_example_env 0) None pt_example_write pt_example_world = Returns w' \<and>
     pt_data pt_example_write w' = [8, 5, 0, 0, 0, 0, 0, 0]"
proof -
  have y: "comp_yields (pe_comp (pt_example_env 0)) COMPRESS_DEFLATE_HW DOCA_COMPRESS_DEFLATE_JOB
      (pt_data pt_example_write pt_example_world) [8, 5] 42"
    using pt_example_yields(1) by (simp only: pt_example_data)
  have p: "pad (length (pt_data pt_example_write pt_example_world)) [8, 5] = [8, 5, 0, 0, 0, 0, 0, 0]"
    unfolding pt_example_data by code_simp
  have "length [8, 5 :: u8] \<le> length (pt_data pt_example_write pt_example_world)" by (simp add: pt_example_data)
  then show ?thesis
    using pt_write_outcome[OF pt_example_facts(1-3,5) y, of None]
    by (auto simp: p)
qed

lemma pt_write_read_round_trip_witness:
  "\<exists>w1. vbdev_passthru_submit_request (pt_example_env 0) None pt_example_write pt_example_world = Returns w1 \<and>
     (\<exists>w2 w3. vbdev_passthru_submit_request (pt_example_env 0) None pt_example_read pt_example_world = Returns w2 \<and>
        pt_complete_io (pt_example_env 0) pt_example_read True
          ((pt_read_get_buf_cb (pt_example_env 0) None pt_example_read True w2)
             \<lparr>pw_mem := base_get 4 (pt_base_request (pt_example_env 0) pt_example_read)
                (base_put 4 (pt_base_request (pt_example_env 0) pt_example_write) (pw_mem w1) (\<lambda>_ _. 0)) (pw_mem w2)\<rparr>) =
          Returns w3 \<and>
        pt_data pt_example_read w3 = replicate 8 5)"
proof -
  note f = pt_example_facts
  have d: "length [8, 5 :: u8] \<le> length (replicate 8 (5 :: u8))" "[8, 5 :: u8] = [] \<or> last [8, 5 :: u8] \<noteq> 0"
    by simp_all
  have s: "offset_blocks pt_example_read = offset_blocks pt_example_write"
      "num_blocks pt_example_read = num_blocks pt_example_write" "unat (pe_blocklen (pt_example_env 0)) = 4"
    by (simp_all add: pt_example_io_def pt_example_env_def)
  note t = pt_write_read_round_trip[OF f(1-3,5) f(6), unfolded pt_example_data s(3), OF pt_example_yields(1) d f(1,4,5)
      s(1,2) refl refl f(6) f(9,10) pt_example_yields(2), of None None]
  show ?thesis using t f(2) by (elim exE conjE) fastforce
qed

lemma pt_retry_compresses_again_witness:
  "\<exists>w1 w2. vbdev_passthru_submit_request (pt_example_env (- ENOMEM)) None pt_example_write pt_example_world = Returns w1 \<and>
     vbdev_passthru_resubmit_io (pt_example_env 0) pt_example_write w1 = Returns w2 \<and>
     pt_data pt_example_write w2 = [9, 8, 5, 1, 0, 0, 0, 0]"
proof -
  note f = pt_example_facts
  have l: "length [8, 5 :: u8] \<le> length (replicate 8 (5 :: u8))" "length [9, 8, 5, 1 :: u8] \<le> length (replicate 8 (5 :: u8))"
    by simp_all
  have r: "length (replicate 8 (5 :: u8)) - length [8, 5 :: u8] = 6"
      "length (replicate 8 (5 :: u8)) - length [9, 8, 5, 1 :: u8] = 4"
      "[9, 8, 5, 1] @ replicate 4 0 = [9, 8, 5, 1, 0, 0, 0, 0 :: u8]" by (simp_all add: numeral_eq_Suc)
  show ?thesis
    using pt_retry_compresses_again[OF f(1-3,5) f(6,7), unfolded pt_example_data, OF pt_example_yields(1) l(1) f(1,3) f(6)
        pt_example_yields(3)[of 0, folded r(1)] l(2), of None, unfolded r] by blast
qed

lemma pt_passes_through_witness:
  "\<exists>w1. vbdev_passthru_submit_request (pt_example_env 0) None (pt_example_io IO_UNMAP []) pt_example_world = Returns w1 \<and>
     pw_events w1 = [PtSubmit (pt_base_request (pt_example_env 0) (pt_example_io IO_UNMAP []))]"
proof -
  have "bdev_io_type (pt_example_io IO_UNMAP []) \<notin> {IO_READ, IO_WRITE}" by (simp add: pt_example_facts)
  from pt_passes_through[OF this, of "pt_example_env 0" None pt_example_world True] show ?thesis
    by (auto simp: pt_example_facts pt_example_world_def)
qed

end
