(* ===== verification/Json_Calls.thy ===== *)
theory Json_Calls
  imports Raid_Prelude
begin

text \<open>
  Calls of the JSON writer and answers to JSON-RPC requests, as the raid module and the passthru make
  them: lists of calls in their order. A text is well formed when its brackets match and a name or a
  value of a member stands in an object only.
\<close>

datatype json_call =
  JObjectBegin | JArrayBegin | JObjectEnd | JArrayEnd | JName string
  | JNamedObjectBegin string | JNamedArrayBegin string
  | JNamedString string string | JNamedUint string nat | JNamedBool string bool
  | JString string | JNull

datatype rpc_answer =
  RpcError int string | RpcBool bool | RpcResult "json_call list"

text \<open>The brackets that are open, innermost first (\<open>True\<close> for an object), and whether a name waits for its
  value; \<open>None\<close> for an ill-formed text.\<close>

fun json_step :: "json_call \<Rightarrow> (bool list \<times> bool) option \<Rightarrow> (bool list \<times> bool) option" where
  "json_step c None = None"
| "json_step c (Some (st, named)) =
     (case c of
        JObjectBegin \<Rightarrow> if st \<noteq> [] \<and> hd st \<and> \<not> named then None else Some (True # st, False)
      | JArrayBegin \<Rightarrow> if st \<noteq> [] \<and> hd st \<and> \<not> named then None else Some (False # st, False)
      | JObjectEnd \<Rightarrow> if st \<noteq> [] \<and> hd st \<and> \<not> named then Some (tl st, False) else None
      | JArrayEnd \<Rightarrow> if st \<noteq> [] \<and> \<not> hd st \<and> \<not> named then Some (tl st, False) else None
      | JName s \<Rightarrow> if st \<noteq> [] \<and> hd st \<and> \<not> named then Some (st, True) else None
      | JNamedObjectBegin s \<Rightarrow> if st \<noteq> [] \<and> hd st \<and> \<not> named then Some (True # st, False) else None
      | JNamedArrayBegin s \<Rightarrow> if st \<noteq> [] \<and> hd st \<and> \<not> named then Some (False # st, False) else None
      | JNamedString s v \<Rightarrow> if st \<noteq> [] \<and> hd st \<and> \<not> named then Some (st, False) else None
      | JNamedUint s v \<Rightarrow> if st \<noteq> [] \<and> hd st \<and> \<not> named then Some (st, False) else None
      | JNamedBool s v \<Rightarrow> if st \<noteq> [] \<and> hd st \<and> \<not> named then Some (st, False) else None
      | JString s \<Rightarrow> if st \<noteq> [] \<and> hd st \<and> \<not> named then None else Some (st, False)
      | JNull \<Rightarrow> if st \<noteq> [] \<and> hd st \<and> \<not> named then None else Some (st, False))"

definition json_run :: "json_call list \<Rightarrow> bool list \<times> bool \<Rightarrow> (bool list \<times> bool) option" where
  "json_run cs st = fold json_step cs (Some st)"

text \<open>Calls that leave the brackets as they found them, in an object or in an array.\<close>

definition json_members :: "json_call list \<Rightarrow> bool" where
  "json_members cs \<longleftrightarrow> (\<forall>st. json_run cs (True # st, False) = Some (True # st, False))"

definition json_elements :: "json_call list \<Rightarrow> bool" where
  "json_elements cs \<longleftrightarrow> (\<forall>st. json_run cs (False # st, False) = Some (False # st, False))"

definition json_value :: "json_call list \<Rightarrow> bool" where
  "json_value cs \<longleftrightarrow> json_run cs ([], False) = Some ([], False)"

lemma json_run_append: "json_run (xs @ ys) st = (case json_run xs st of None \<Rightarrow> None | Some st' \<Rightarrow> json_run ys st')"
proof -
  have none: "fold json_step ys None = None" by (induction ys) simp_all
  show ?thesis by (simp add: json_run_def none split: option.split)
qed

lemma json_run_simps [simp]:
  "json_run [] s0 = Some s0"
  "json_run (c # cs) (st, named) = (case json_step c (Some (st, named)) of None \<Rightarrow> None | Some s \<Rightarrow> json_run cs s)"
  using json_run_append[of "[c]" cs "(st, named)"] by (simp_all add: json_run_def)

lemma json_parts_append:
  "json_members xs \<Longrightarrow> json_members ys \<Longrightarrow> json_members (xs @ ys)"
  "json_elements xs \<Longrightarrow> json_elements ys \<Longrightarrow> json_elements (xs @ ys)"
  by (simp_all add: json_members_def json_elements_def json_run_append)

lemma json_elements_concat: "(\<And>x. x \<in> set xs \<Longrightarrow> json_elements (f x)) \<Longrightarrow> json_elements (concat (map f xs))"
  by (induction xs) (simp_all add: json_parts_append, simp add: json_elements_def)

lemma json_members_concat: "(\<And>x. x \<in> set xs \<Longrightarrow> json_members (f x)) \<Longrightarrow> json_members (concat (map f xs))"
  by (induction xs) (simp_all add: json_parts_append, simp add: json_members_def)

text \<open>The value of a call that writes the string member \<open>k\<close>.\<close>

definition named_string :: "string \<Rightarrow> json_call \<Rightarrow> string option" where
  "named_string k c = (case c of JNamedString k' v \<Rightarrow> if k' = k then Some v else None | _ \<Rightarrow> None)"

lemma named_string_simps [simp]:
  "named_string k (JNamedString k' v) = (if k' = k then Some v else None)"
  "named_string k JObjectBegin = None" "named_string k JArrayBegin = None" "named_string k JObjectEnd = None"
  "named_string k JArrayEnd = None" "named_string k (JName s) = None" "named_string k (JNamedObjectBegin s) = None"
  "named_string k (JNamedArrayBegin s) = None" "named_string k (JNamedUint s n) = None"
  "named_string k (JNamedBool s b) = None" "named_string k (JString s) = None" "named_string k JNull = None"
  by (simp_all add: named_string_def)

end
