(* ===== verification/Passthru_Bdevs.thy ===== *)
theory Passthru_Bdevs
  imports Json_Calls
begin

text \<open>
  The life of the virtual bdevs of \<open>passthru/vbdev_passthru.c\<close> and the RPCs of
  \<open>vbdev_passthru_rpc.c\<close>: the list of names, the registration of a virtual bdev over its base bdev,
  its destruction, and what the bdev layer calls in between.

  The state is \<open>g_bdev_names\<close> and \<open>g_pt_nodes\<close>, what has been asked of the bdev layer and not yet
  happened (unregistrations of bdevs with the request that waits for them, closings sent to another
  thread, unregistrations of I/O devices), and the list of the calls to the outside. A node is named by
  its address, its descriptor of the base bdev by the node; a base bdev has a number and its name.

  \<open>spdk_bdev_register\<close> examines the new bdev before it returns; here that examination is a step of its
  own, like every other call of the bdev layer.
\<close>

subsection \<open>State\<close>

record bdev_props =
  bp_write_cache :: bool
  bp_required_alignment :: u8
  bp_optimal_io_boundary :: u32
  bp_blocklen :: u32
  bp_blockcnt :: u64
  bp_md_interleave :: bool
  bp_md_len :: u32
  bp_dif_type :: nat
  bp_dif_is_head_of_md :: bool
  bp_dif_check_flags :: u32

record pt_base =
  base_id :: nat
  base_name :: string
  base_props :: bdev_props

record bdev_names =
  vbdev_name :: string
  bdev_name :: string

record vbdev_passthru =
  pt_addr :: nat
  base_bdev :: pt_base
  pt_name :: string
  pt_props :: bdev_props
  pt_thread :: nat

datatype pb_event =
  PbOpen nat | PbClose nat | PbClaim nat | PbRelease nat | PbReleaseVbdev nat
  | PbIoRegister nat | PbIoUnregister nat | PbRegister nat string | PbUnregister nat
  | PbFree nat | PbExamineDone | PbRequest nat | PbAnswer nat rpc_answer

record pb_world =
  g_bdev_names :: "bdev_names list"
  g_pt_nodes :: "vbdev_passthru list"
  pb_unregistering :: "(nat \<times> nat option) list"
  pb_closing :: "nat list"
  pb_io_unregistering :: "nat list"
  pb_next :: nat
  pb_allocs :: nat
  pb_log :: "pb_event list"

text \<open>What the layers below answer; whether a bdev can be claimed or a name registered depends on what
  has happened so far.\<close>

datatype found_bdev = PassthruBdev vbdev_passthru | OtherBdev string

record pb_env =
  pl_alloc :: "nat \<Rightarrow> bool"
  pl_open :: "string \<Rightarrow> int"
  pl_bdev :: "string \<Rightarrow> pt_base"
  pl_claim :: "pb_event list \<Rightarrow> nat \<Rightarrow> int"
  pl_register :: "pb_event list \<Rightarrow> string \<Rightarrow> int"
  pl_thread :: nat
  pl_by_name :: "string \<Rightarrow> found_bdev option"

definition pb_emit :: "pb_event list \<Rightarrow> pb_world \<Rightarrow> pb_world" where
  "pb_emit es w = w\<lparr>pb_log := pb_log w @ es\<rparr>"

definition pb_try_alloc :: "pb_env \<Rightarrow> pb_world \<Rightarrow> bool \<times> pb_world" where
  "pb_try_alloc e w = (pl_alloc e (pb_allocs w), w\<lparr>pb_allocs := pb_allocs w + 1\<rparr>)"

subsection \<open>Names\<close>

definition vbdev_passthru_insert_name :: "pb_env \<Rightarrow> string \<Rightarrow> string \<Rightarrow> pb_world \<Rightarrow> int \<times> pb_world" where
  "vbdev_passthru_insert_name e bdev vbdev w =
     (if \<exists>n\<in>set (g_bdev_names w). vbdev_name n = vbdev then (- EEXIST, w)
      else
        (let (ok, w) = pb_try_alloc e w
         in if \<not> ok then (- ENOMEM, w)
            else
              (let (ok, w) = pb_try_alloc e w
               in if \<not> ok then (- ENOMEM, w)
                  else
                    (let (ok, w) = pb_try_alloc e w
                     in if \<not> ok then (- ENOMEM, w)
                        else (0, w\<lparr>g_bdev_names := g_bdev_names w @
                                    [\<lparr>vbdev_name = vbdev, bdev_name = bdev\<rparr>]\<rparr>)))))"

definition vbdev_passthru_finish :: "pb_world \<Rightarrow> pb_world" where
  "vbdev_passthru_finish w = w\<lparr>g_bdev_names := []\<rparr>"

subsection \<open>Registration\<close>

text \<open>The node with the properties of the base bdev; its address is the next one.\<close>

definition pt_node_new :: "pb_env \<Rightarrow> bdev_names \<Rightarrow> string \<Rightarrow> pb_world \<Rightarrow> vbdev_passthru" where
  "pt_node_new e nm bdev w =
     \<lparr>pt_addr = pb_next w, base_bdev = pl_bdev e bdev, pt_name = vbdev_name nm,
      pt_props = base_props (pl_bdev e bdev), pt_thread = pl_thread e\<rparr>"

text \<open>The end of both failing branches.\<close>

definition pt_node_drop :: "nat \<Rightarrow> pb_world \<Rightarrow> pb_world" where
  "pt_node_drop a w =
     pb_emit [PbIoUnregister a, PbFree a]
       (w\<lparr>g_pt_nodes := filter (\<lambda>n. pt_addr n \<noteq> a) (g_pt_nodes w)\<rparr>)"

text \<open>One name that matches. When the registration fails, it is the virtual bdev that is released, not the
  base bdev that was claimed; the event keeps the number of the base bdev.\<close>

definition pt_register_name :: "pb_env \<Rightarrow> string \<Rightarrow> bdev_names \<Rightarrow> pb_world \<Rightarrow> int \<times> pb_world" where
  "pt_register_name e bdev nm w =
     (let (ok, w) = pb_try_alloc e w
      in if \<not> ok then (- ENOMEM, w)
         else
           (let (ok, w) = pb_try_alloc e w
            in if \<not> ok then (- ENOMEM, w)
               else if pl_open e bdev \<noteq> 0 then (pl_open e bdev, w)
               else
                 (let node = pt_node_new e nm bdev w;
                      a = pt_addr node;
                      b = base_id (base_bdev node);
                      w = pb_emit [PbOpen a, PbIoRegister a]
                            (w\<lparr>g_pt_nodes := g_pt_nodes w @ [node], pb_next := pb_next w + 1\<rparr>);
                      rc = pl_claim e (pb_log w) b
                  in if rc \<noteq> 0 then (rc, pt_node_drop a (pb_emit [PbClose a] w))
                     else
                       (let w = pb_emit [PbClaim b] w;
                            rc = pl_register e (pb_log w) (pt_name node)
                        in if rc \<noteq> 0
                           then (rc, pt_node_drop a (pb_emit [PbReleaseVbdev b, PbClose a] w))
                           else (0, pb_emit [PbRegister a (pt_name node)] w)))))"

fun pt_register_loop :: "pb_env \<Rightarrow> string \<Rightarrow> bdev_names list \<Rightarrow> int \<Rightarrow> pb_world \<Rightarrow> int \<times> pb_world" where
  "pt_register_loop e bdev [] rc w = (rc, w)"
| "pt_register_loop e bdev (nm # nms) rc w =
     (if bdev_name nm \<noteq> bdev then pt_register_loop e bdev nms rc w
      else
        (let (rc, w) = pt_register_name e bdev nm w
         in if rc \<noteq> 0 then (rc, w) else pt_register_loop e bdev nms rc w))"

definition vbdev_passthru_register :: "pb_env \<Rightarrow> string \<Rightarrow> pb_world \<Rightarrow> int \<times> pb_world" where
  "vbdev_passthru_register e bdev w = pt_register_loop e bdev (g_bdev_names w) 0 w"

definition bdev_passthru_external_create_disk ::
  "pb_env \<Rightarrow> string \<Rightarrow> string \<Rightarrow> pb_world \<Rightarrow> int \<times> pb_world" where
  "bdev_passthru_external_create_disk e bdev vbdev w =
     (let (rc, w) = vbdev_passthru_insert_name e bdev vbdev w
      in if rc \<noteq> 0 then (rc, w)
         else
           (let (rc, w) = vbdev_passthru_register e bdev w
            in (if rc = - ENODEV then 0 else rc, w)))"

definition vbdev_passthru_examine :: "pb_env \<Rightarrow> string \<Rightarrow> pb_world \<Rightarrow> pb_world" where
  "vbdev_passthru_examine e bdev w = pb_emit [PbExamineDone] (snd (vbdev_passthru_register e bdev w))"

subsection \<open>Removal\<close>

definition pb_unregister :: "vbdev_passthru \<Rightarrow> nat option \<Rightarrow> pb_world \<Rightarrow> pb_world" where
  "pb_unregister node cb w =
     pb_emit [PbUnregister (pt_addr node)]
       (w\<lparr>pb_unregistering := pb_unregistering w @ [(pt_addr node, cb)]\<rparr>)"

definition vbdev_passthru_base_bdev_hotremove_cb :: "nat \<Rightarrow> pb_world \<Rightarrow> pb_world" where
  "vbdev_passthru_base_bdev_hotremove_cb b w =
     fold (\<lambda>node w. if base_id (base_bdev node) = b then pb_unregister node None w else w)
       (g_pt_nodes w) w"

definition vbdev_passthru_base_bdev_event_cb :: "bdev_event \<Rightarrow> nat \<Rightarrow> pb_world \<Rightarrow> pb_world" where
  "vbdev_passthru_base_bdev_event_cb ty b w =
     (case ty of
        SPDK_BDEV_EVENT_REMOVE \<Rightarrow> vbdev_passthru_base_bdev_hotremove_cb b w
      | _ \<Rightarrow> w)"

definition vbdev_passthru_destruct :: "pb_env \<Rightarrow> vbdev_passthru \<Rightarrow> pb_world \<Rightarrow> pb_world" where
  "vbdev_passthru_destruct e node w =
     (let w = w\<lparr>g_pt_nodes := remove1 node (g_pt_nodes w)\<rparr>;
          w = pb_emit [PbRelease (base_id (base_bdev node))] w;
          w = (if pt_thread node \<noteq> 0 \<and> pt_thread node \<noteq> pl_thread e
               then w\<lparr>pb_closing := pb_closing w @ [pt_addr node]\<rparr>
               else pb_emit [PbClose (pt_addr node)] w)
      in pb_emit [PbIoUnregister (pt_addr node)]
           (w\<lparr>pb_io_unregistering := pb_io_unregistering w @ [pt_addr node]\<rparr>))"

text \<open>\<open>_vbdev_passthru_destruct\<close>, the message to the thread that opened the base bdev.\<close>

definition vbdev_passthru_close :: "nat \<Rightarrow> pb_world \<Rightarrow> pb_world" where
  "vbdev_passthru_close a w = pb_emit [PbClose a] (w\<lparr>pb_closing := remove1 a (pb_closing w)\<rparr>)"

definition device_unregister_cb :: "nat \<Rightarrow> pb_world \<Rightarrow> pb_world" where
  "device_unregister_cb a w =
     pb_emit [PbFree a] (w\<lparr>pb_io_unregistering := remove1 a (pb_io_unregistering w)\<rparr>)"

text \<open>The first association of the name goes, whatever its bdev; \<open>cb\<close> is what the function calls when the
  bdev is not one of this module.\<close>

fun names_remove :: "string \<Rightarrow> bdev_names list \<Rightarrow> bdev_names list" where
  "names_remove vbdev [] = []"
| "names_remove vbdev (nm # nms) = (if vbdev_name nm = vbdev then nms else nm # names_remove vbdev nms)"

definition bdev_passthru_external_delete_disk ::
  "found_bdev option \<Rightarrow> (int \<Rightarrow> pb_world \<Rightarrow> pb_world) \<Rightarrow> nat option \<Rightarrow> pb_world \<Rightarrow> pb_world" where
  "bdev_passthru_external_delete_disk bdev cb_fn cb_arg w =
     (case bdev of
        Some (PassthruBdev node) \<Rightarrow>
          pb_unregister node cb_arg
            (w\<lparr>g_bdev_names := names_remove (pt_name node) (g_bdev_names w)\<rparr>)
      | _ \<Rightarrow> cb_fn (- ENODEV) w)"

subsection \<open>Channels and dumps\<close>

text \<open>The channel of a base bdev is taken without a look at the result.\<close>

definition pt_bdev_ch_create_cb :: "(nat \<Rightarrow> nat option) \<Rightarrow> vbdev_passthru \<Rightarrow> int \<times> nat option" where
  "pt_bdev_ch_create_cb get_channel node = (0, get_channel (pt_addr node))"

definition vbdev_passthru_io_type_supported :: "(nat \<Rightarrow> io_type \<Rightarrow> bool) \<Rightarrow> vbdev_passthru \<Rightarrow> io_type \<Rightarrow> bool" where
  "vbdev_passthru_io_type_supported supported node ty = supported (base_id (base_bdev node)) ty"

definition vbdev_passthru_dump_info_json :: "vbdev_passthru \<Rightarrow> json_call list" where
  "vbdev_passthru_dump_info_json node =
     [JName ''passthru_external'', JObjectBegin,
      JNamedString ''name'' (pt_name node),
      JNamedString ''base_bdev_name'' (base_name (base_bdev node)),
      JObjectEnd]"

definition vbdev_passthru_config_json :: "pb_world \<Rightarrow> json_call list" where
  "vbdev_passthru_config_json w =
     concat (map (\<lambda>node.
       [JObjectBegin,
        JNamedString ''method'' ''construct_ext_passthru_bdev'',
        JNamedObjectBegin ''params'',
        JNamedString ''base_bdev_name'' (base_name (base_bdev node)),
        JNamedString ''name'' (pt_name node),
        JObjectEnd, JObjectEnd]) (g_pt_nodes w))"

subsection \<open>RPCs\<close>

text \<open>The tables of the decoders; \<open>decode table\<close> is what \<open>spdk_json_decode_object\<close> makes of the parameters
  of the request: the values of the members, or \<open>None\<close>.\<close>

definition rpc_bdev_passthru_create_decoders :: "string list" where
  "rpc_bdev_passthru_create_decoders = [''base_bdev_name'', ''name'']"

definition rpc_bdev_passthru_delete_decoders :: "string list" where
  "rpc_bdev_passthru_delete_decoders = [''name'']"

abbreviation SPDK_JSONRPC_ERROR_INTERNAL_ERROR :: int where "SPDK_JSONRPC_ERROR_INTERNAL_ERROR \<equiv> - 32603"

definition rpc_send :: "nat \<Rightarrow> rpc_answer \<Rightarrow> pb_world \<Rightarrow> pb_world" where
  "rpc_send req answer w = pb_emit [PbAnswer req answer] w"

definition rpc_bdev_passthru_create ::
  "pb_env \<Rightarrow> (string list \<Rightarrow> (string \<Rightarrow> string) option) \<Rightarrow> (int \<Rightarrow> string) \<Rightarrow> nat \<Rightarrow>
     pb_world \<Rightarrow> pb_world" where
  "rpc_bdev_passthru_create e decode strerror req w =
     (case decode rpc_bdev_passthru_create_decoders of
        None \<Rightarrow> rpc_send req (RpcError SPDK_JSONRPC_ERROR_INTERNAL_ERROR ''spdk_json_decode_object failed'') w
      | Some vals \<Rightarrow>
          (let (rc, w) = bdev_passthru_external_create_disk e (vals ''base_bdev_name'') (vals ''name'') w
           in if rc \<noteq> 0 then rpc_send req (RpcError rc (strerror (- rc))) w
              else rpc_send req (RpcResult [JString (vals ''name'')]) w))"

definition rpc_bdev_passthru_delete_cb :: "nat \<Rightarrow> int \<Rightarrow> pb_world \<Rightarrow> pb_world" where
  "rpc_bdev_passthru_delete_cb req bdeverrno w = rpc_send req (RpcBool (bdeverrno = 0)) w"

definition rpc_bdev_passthru_delete ::
  "pb_env \<Rightarrow> (string list \<Rightarrow> (string \<Rightarrow> string) option) \<Rightarrow> (int \<Rightarrow> string) \<Rightarrow> nat \<Rightarrow>
     pb_world \<Rightarrow> pb_world" where
  "rpc_bdev_passthru_delete e decode strerror req w =
     (case decode rpc_bdev_passthru_delete_decoders of
        None \<Rightarrow> rpc_send req (RpcError SPDK_JSONRPC_ERROR_INTERNAL_ERROR ''spdk_json_decode_object failed'') w
      | Some vals \<Rightarrow>
          (case pl_by_name e (vals ''name'') of
             None \<Rightarrow> rpc_send req (RpcError (- ENODEV) (strerror ENODEV)) w
           | Some bdev \<Rightarrow>
               bdev_passthru_external_delete_disk (Some bdev) (rpc_bdev_passthru_delete_cb req) (Some req) w))"

end
