(* ===== verification/Passthru_Reach.thy ===== *)
theory Passthru_Reach
  imports Passthru_Bdevs
begin

text \<open>
  All that can happen to the virtual bdevs of the passthru: requests, examinations, events of base
  bdevs and the later calls of the bdev layer, in every order and with every answer of the layer. The
  invariants: what is opened, claimed, registered and allocated for a node is given back once, and a
  request is answered once.
\<close>

subsection \<open>Steps\<close>

text \<open>Two promises of the bdev layer: a bdev that is claimed cannot be claimed again, and a bdev of this
  module that is found by its name is registered.\<close>

definition pb_layer_ok :: "pb_env \<Rightarrow> pb_world \<Rightarrow> bool" where
  "pb_layer_ok e w \<longleftrightarrow>
     (\<forall>log b. pl_claim e log b = 0 \<longrightarrow> count_list log (PbClaim b) = count_list log (PbRelease b)) \<and>
     (\<forall>name node. pl_by_name e name = Some (PassthruBdev node) \<longrightarrow> node \<in> set (g_pt_nodes w))"

definition pb_callback :: "nat option \<Rightarrow> int \<Rightarrow> pb_world \<Rightarrow> pb_world" where
  "pb_callback cb rc w = (case cb of None \<Rightarrow> w | Some req \<Rightarrow> rpc_bdev_passthru_delete_cb req rc w)"

text \<open>The layer takes up an unregistration: the bdev is destroyed, or the call is refused because another
  one is under way or the bdev is gone.\<close>

definition pb_destroyed :: "pb_env \<Rightarrow> vbdev_passthru \<Rightarrow> nat option \<Rightarrow> pb_world \<Rightarrow> pb_world" where
  "pb_destroyed e node cb w =
     pb_callback cb 0 (vbdev_passthru_destruct e node
       (w\<lparr>pb_unregistering := remove1 (pt_addr node, cb) (pb_unregistering w)\<rparr>))"

definition pb_refused :: "nat \<Rightarrow> nat option \<Rightarrow> int \<Rightarrow> pb_world \<Rightarrow> pb_world" where
  "pb_refused a cb rc w =
     pb_callback cb rc (w\<lparr>pb_unregistering := remove1 (a, cb) (pb_unregistering w)\<rparr>)"

inductive pb_step :: "pb_world \<Rightarrow> pb_world \<Rightarrow> bool" where
  pb_create: "pb_layer_ok e w \<Longrightarrow> PbRequest req \<notin> set (pb_log w) \<Longrightarrow>
     pb_step w (rpc_bdev_passthru_create e decode strerror req (pb_emit [PbRequest req] w))"
| pb_delete: "pb_layer_ok e w \<Longrightarrow> PbRequest req \<notin> set (pb_log w) \<Longrightarrow>
     pb_step w (rpc_bdev_passthru_delete e decode strerror req (pb_emit [PbRequest req] w))"
| pb_examine: "pb_layer_ok e w \<Longrightarrow> pb_step w (vbdev_passthru_examine e bdev w)"
| pb_event: "pb_step w (vbdev_passthru_base_bdev_event_cb ty b w)"
| pb_destroy: "(pt_addr node, cb) \<in> set (pb_unregistering w) \<Longrightarrow> node \<in> set (g_pt_nodes w) \<Longrightarrow>
     pb_step w (pb_destroyed e node cb w)"
| pb_refuse: "(a, cb) \<in> set (pb_unregistering w) \<Longrightarrow> rc \<noteq> 0 \<Longrightarrow> pb_step w (pb_refused a cb rc w)"
| pb_close: "a \<in> set (pb_closing w) \<Longrightarrow> pb_step w (vbdev_passthru_close a w)"
| pb_gone: "a \<in> set (pb_io_unregistering w) \<Longrightarrow> pb_step w (device_unregister_cb a w)"
| pb_finish: "pb_step w (vbdev_passthru_finish w)"

inductive_cases pb_stepE: "pb_step w w'"

definition pb_start :: pb_world where
  "pb_start =
     \<lparr>g_bdev_names = [], g_pt_nodes = [], pb_unregistering = [], pb_closing = [], pb_io_unregistering = [],
      pb_next = 0, pb_allocs = 0, pb_log = []\<rparr>"

inductive pb_reachable :: "pb_world \<Rightarrow> bool" where
  pb_reachable_start: "pb_reachable pb_start"
| pb_reachable_step: "pb_reachable w \<Longrightarrow> pb_step w w' \<Longrightarrow> pb_reachable w'"

subsection \<open>What is taken is given back\<close>

definition pb_addrs :: "pb_world \<Rightarrow> nat list" where
  "pb_addrs w = map pt_addr (g_pt_nodes w)"

definition pb_bases :: "pb_world \<Rightarrow> nat list" where
  "pb_bases w = map (base_id \<circ> base_bdev) (g_pt_nodes w)"

text \<open>Per node: opened and closed, I/O device registered and unregistered, made and freed. Per base bdev:
  claimed and released.\<close>

definition node_balanced :: "pb_world \<Rightarrow> nat \<Rightarrow> bool" where
  "node_balanced w a \<longleftrightarrow>
     count_list (pb_log w) (PbOpen a) =
       count_list (pb_log w) (PbClose a) + count_list (pb_addrs w) a + count_list (pb_closing w) a \<and>
     count_list (pb_log w) (PbIoRegister a) =
       count_list (pb_log w) (PbIoUnregister a) + count_list (pb_addrs w) a \<and>
     (if a < pb_next w then 1 else 0) =
       count_list (pb_log w) (PbFree a) + count_list (pb_addrs w) a + count_list (pb_io_unregistering w) a"

definition claim_balanced :: "pb_world \<Rightarrow> nat \<Rightarrow> bool" where
  "claim_balanced w b \<longleftrightarrow>
     count_list (pb_log w) (PbClaim b) =
       count_list (pb_log w) (PbRelease b) + count_list (pb_bases w) b +
         count_list (pb_log w) (PbReleaseVbdev b) \<and>
     count_list (pb_bases w) b + count_list (pb_log w) (PbReleaseVbdev b) \<le> 1"

definition pb_balanced :: "pb_world \<Rightarrow> bool" where
  "pb_balanced w \<longleftrightarrow> (\<forall>a. node_balanced w a) \<and> (\<forall>b. claim_balanced w b)"

text \<open>Requests: answered or waiting, once.\<close>

definition answers :: "nat \<Rightarrow> pb_event list \<Rightarrow> nat" where
  "answers r log = length (filter (\<lambda>ev. \<exists>x. ev = PbAnswer r x) log)"

definition waiting :: "nat \<Rightarrow> pb_world \<Rightarrow> nat" where
  "waiting r w = count_list (map snd (pb_unregistering w)) (Some r)"

text \<open>\<open>owed\<close> answers for the request \<open>r\<close> are neither given nor waited for.\<close>

definition request_ok :: "nat \<Rightarrow> pb_world \<Rightarrow> nat \<Rightarrow> bool" where
  "request_ok owed w r \<longleftrightarrow>
     count_list (pb_log w) (PbRequest r) \<le> 1 \<and>
     answers r (pb_log w) + waiting r w + owed = count_list (pb_log w) (PbRequest r)"

definition requests_ok :: "pb_world \<Rightarrow> bool" where
  "requests_ok w \<longleftrightarrow> (\<forall>r. request_ok 0 w r)"

definition requests_but :: "nat \<Rightarrow> pb_world \<Rightarrow> bool" where
  "requests_but req w \<longleftrightarrow> (\<forall>r. request_ok (if r = req then 1 else 0) w r)"

lemmas request_defs = request_ok_def waiting_def

lemma answers_simps [simp]:
  "answers r [] = 0"
  "answers r (ev # log) = (if \<exists>x. ev = PbAnswer r x then 1 else 0) + answers r log"
  "answers r (log @ log') = answers r log + answers r log'"
  by (simp_all add: answers_def)

lemma count_map_remove1:
  "x \<in> set xs \<Longrightarrow> count_list (map f xs) y = count_list (map f (remove1 x xs)) y + (if f x = y then 1 else 0)"
  by (induction xs) auto

lemma count_list_zero: "count_list xs x = 0 \<longleftrightarrow> x \<notin> set xs"
  by (induction xs) auto

lemma count_list_member: "x \<in> set xs \<Longrightarrow> 0 < count_list xs x"
  using count_list_zero[of xs x] by simp

text \<open>What the functions do not touch.\<close>

definition pb_same_rest :: "pb_world \<Rightarrow> pb_world \<Rightarrow> bool" where
  "pb_same_rest w w' \<longleftrightarrow>
     g_bdev_names w' = g_bdev_names w \<and> pb_unregistering w' = pb_unregistering w \<and>
     pb_closing w' = pb_closing w \<and> pb_io_unregistering w' = pb_io_unregistering w"

lemma pb_emit_simps [simp]:
  "g_bdev_names (pb_emit es w) = g_bdev_names w" "g_pt_nodes (pb_emit es w) = g_pt_nodes w"
  "pb_unregistering (pb_emit es w) = pb_unregistering w" "pb_closing (pb_emit es w) = pb_closing w"
  "pb_io_unregistering (pb_emit es w) = pb_io_unregistering w" "pb_next (pb_emit es w) = pb_next w"
  "pb_allocs (pb_emit es w) = pb_allocs w" "pb_log (pb_emit es w) = pb_log w @ es"
  by (simp_all add: pb_emit_def)

subsection \<open>Registration\<close>

text \<open>The four outcomes of registering one name: nothing happened; the base bdev could not be claimed; the
  virtual bdev could not be registered; success.\<close>

lemma pt_register_name_cases:
  assumes fresh: "pb_next w \<notin> set (pb_addrs w)"
    and run: "pt_register_name e bdev nm w = (rc, w')"
  defines "a \<equiv> pb_next w" and "b \<equiv> base_id (pl_bdev e bdev)"
  obtains
    (none) "rc \<noteq> 0" "pb_same_rest w w'" "g_pt_nodes w' = g_pt_nodes w" "pb_next w' = pb_next w" "pb_log w' = pb_log w"
  | (unclaimed) "rc \<noteq> 0" "pb_same_rest w w'" "g_pt_nodes w' = g_pt_nodes w" "pb_next w' = pb_next w + 1"
      "pb_log w' = pb_log w @ [PbOpen a, PbIoRegister a, PbClose a, PbIoUnregister a, PbFree a]"
  | (unregistered) "rc \<noteq> 0" "pb_same_rest w w'" "g_pt_nodes w' = g_pt_nodes w" "pb_next w' = pb_next w + 1"
      "pb_log w' = pb_log w @ [PbOpen a, PbIoRegister a, PbClaim b, PbReleaseVbdev b, PbClose a, PbIoUnregister a, PbFree a]"
      "pl_claim e (pb_log w @ [PbOpen a, PbIoRegister a]) b = 0"
  | (registered) "rc = 0" "pb_same_rest w w'" "g_pt_nodes w' = g_pt_nodes w @ [pt_node_new e nm bdev w]"
      "pb_next w' = pb_next w + 1"
      "pb_log w' = pb_log w @ [PbOpen a, PbIoRegister a, PbClaim b, PbRegister a (vbdev_name nm)]"
      "pl_claim e (pb_log w @ [PbOpen a, PbIoRegister a]) b = 0"
proof -
  have keep: "filter (\<lambda>n. pt_addr n \<noteq> pb_next w) (g_pt_nodes w) = g_pt_nodes w"
    using fresh by (auto simp: pb_addrs_def filter_id_conv image_iff)
  note d = pt_register_name_def pb_try_alloc_def pt_node_new_def pt_node_drop_def pb_same_rest_def
  show ?thesis
    using run keep none unclaimed unregistered registered
    by (auto simp: d Let_def a_def b_def split: if_splits)
qed


lemma balanced_fresh: "pb_balanced w \<Longrightarrow> pb_next w \<notin> set (pb_addrs w)"
  by (simp add: pb_balanced_def node_balanced_def flip: count_list_zero) (metis add_is_0 less_irrefl)

text \<open>A part of the log that neither opens, claims nor frees anything leaves the balance as it is.\<close>

definition quiet :: "pb_event list \<Rightarrow> bool" where
  "quiet es \<longleftrightarrow> (\<forall>ev\<in>set es. \<exists>r x. ev \<in> {PbRequest r, PbAnswer r x, PbExamineDone, PbUnregister r})"

lemma quiet_simps [simp]:
  "quiet []" "quiet (PbRequest r # es) \<longleftrightarrow> quiet es" "quiet (PbAnswer r x # es) \<longleftrightarrow> quiet es"
  "quiet (PbExamineDone # es) \<longleftrightarrow> quiet es" "quiet (PbUnregister a # es) \<longleftrightarrow> quiet es"
  by (simp_all add: quiet_def)

lemma quiet_counts:
  assumes "quiet es"
  shows "count_list es (PbOpen a) = 0" "count_list es (PbClose a) = 0" "count_list es (PbClaim a) = 0"
    "count_list es (PbRelease a) = 0" "count_list es (PbReleaseVbdev a) = 0" "count_list es (PbIoRegister a) = 0"
    "count_list es (PbIoUnregister a) = 0" "count_list es (PbFree a) = 0"
  using assms by (auto simp: count_list_zero quiet_def)

lemma balanced_quiet:
  assumes "pb_balanced w" and "quiet es" and "g_pt_nodes w' = g_pt_nodes w" and "pb_next w' = pb_next w"
    and "pb_closing w' = pb_closing w" and "pb_io_unregistering w' = pb_io_unregistering w"
    and "pb_log w' = pb_log w @ es"
  shows "pb_balanced w'"
  using assms
  by (simp add: pb_balanced_def node_balanced_def claim_balanced_def pb_addrs_def pb_bases_def quiet_counts)

lemma balancedD: "pb_balanced w \<Longrightarrow> node_balanced w a" "pb_balanced w \<Longrightarrow> claim_balanced w a"
  by (simp_all add: pb_balanced_def)

lemmas balanced_defs =
  node_balanced_def claim_balanced_def pb_addrs_def pb_bases_def pb_same_rest_def pt_node_new_def

lemma balanced_register_name:
  assumes bal: "pb_balanced w" and run: "pt_register_name e bdev nm w = (rc, w')"
    and claim: "\<And>log b. pl_claim e log b = 0 \<Longrightarrow> count_list log (PbClaim b) = count_list log (PbRelease b)"
  shows "pb_balanced w'"
  unfolding pb_balanced_def
proof (intro conjI allI)
  note cases = pt_register_name_cases[OF balanced_fresh[OF bal] run]
  show "node_balanced w' a" for a
    using balancedD(1)[OF bal, of a] by (cases rule: cases) (auto simp: balanced_defs less_Suc_eq split: if_splits)
  show "claim_balanced w' b" for b
    using balancedD(2)[OF bal, of b] by (cases rule: cases) (auto simp: balanced_defs dest!: claim)
qed

lemma requests_register_name:
  assumes fresh: "pb_next w \<notin> set (pb_addrs w)" and run: "pt_register_name e bdev nm w = (rc, w')"
  shows "pb_same_rest w w' \<and> answers r (pb_log w') = answers r (pb_log w) \<and>
    count_list (pb_log w') (PbRequest r) = count_list (pb_log w) (PbRequest r)"
  using assms by (cases rule: pt_register_name_cases) simp_all

lemma same_rest_trans: "pb_same_rest w w1 \<Longrightarrow> pb_same_rest w1 w2 \<Longrightarrow> pb_same_rest w w2"
  by (simp add: pb_same_rest_def)

lemma register_loop_keeps:
  assumes "pb_balanced w"
    and claim: "\<And>log b. pl_claim e log b = 0 \<Longrightarrow> count_list log (PbClaim b) = count_list log (PbRelease b)"
    and "pt_register_loop e bdev nms rc w = (rc', w')"
  shows "pb_balanced w' \<and> pb_same_rest w w' \<and> answers r (pb_log w') = answers r (pb_log w) \<and>
    count_list (pb_log w') (PbRequest r) = count_list (pb_log w) (PbRequest r)"
  using assms(1,3)
proof (induction nms arbitrary: rc w)
  case Nil
  then show ?case by (simp add: pb_same_rest_def)
next
  case (Cons nm nms)
  obtain rc1 w1 where one: "pt_register_name e bdev nm w = (rc1, w1)" by (metis prod.exhaust)
  note kept = balanced_register_name[OF Cons.prems(1) one claim]
    requests_register_name[OF balanced_fresh[OF Cons.prems(1)] one, of r]
  show ?case
    using Cons.IH[of w rc] Cons.IH[of w1 rc1] Cons.prems one kept same_rest_trans
    by (auto split: if_splits)
qed


subsection \<open>Every step keeps the invariant\<close>

definition pb_ok :: "pb_world \<Rightarrow> bool" where
  "pb_ok w \<longleftrightarrow> pb_balanced w \<and> requests_ok w \<and> distinct (map vbdev_name (g_bdev_names w))"

lemma requests_received:
  assumes "requests_ok w" and "PbRequest req \<notin> set (pb_log w)"
  shows "requests_but req (pb_emit [PbRequest req] w)"
  unfolding requests_but_def
proof
  fix r
  show "request_ok (if r = req then 1 else 0) (pb_emit [PbRequest req] w) r"
    using assms(1)[unfolded requests_ok_def, rule_format, of r] assms(2)[folded count_list_zero]
    by (auto simp: request_defs)
qed

lemma requests_sent:
  assumes "requests_but req w"
  shows "requests_ok (rpc_send req x w)"
  unfolding requests_ok_def
proof
  fix r
  show "request_ok 0 (rpc_send req x w) r"
    using assms[unfolded requests_but_def, rule_format, of r] by (auto simp: request_defs rpc_send_def)
qed

lemma requests_wait:
  assumes "requests_but req w"
  shows "requests_ok (pb_unregister node (Some req) w)"
  unfolding requests_ok_def
proof
  fix r
  show "request_ok 0 (pb_unregister node (Some req) w) r"
    using assms[unfolded requests_but_def, rule_format, of r] by (auto simp: request_defs pb_unregister_def)
qed

lemma requests_same:
  assumes "\<And>r. answers r (pb_log w') = answers r (pb_log w)"
    and "\<And>r. count_list (pb_log w') (PbRequest r) = count_list (pb_log w) (PbRequest r)"
    and "pb_unregistering w' = pb_unregistering w"
  shows "requests_but req w' \<longleftrightarrow> requests_but req w" and "requests_ok w' \<longleftrightarrow> requests_ok w"
  using assms by (simp_all add: requests_but_def requests_ok_def request_defs)

lemma balanced_sent: "pb_balanced w \<Longrightarrow> pb_balanced (rpc_send req x w)"
  by (rule balanced_quiet) (simp_all add: rpc_send_def)

lemma ok_sent:
  "pb_balanced w \<Longrightarrow> requests_but req w \<Longrightarrow> distinct (map vbdev_name (g_bdev_names w)) \<Longrightarrow>
     pb_ok (rpc_send req x w)"
  by (simp add: pb_ok_def requests_sent balanced_sent) (simp add: rpc_send_def)

lemma insert_name_cases:
  assumes "vbdev_passthru_insert_name e bdev vbdev w = (rc, w')"
  obtains
    (refused) "rc \<noteq> 0" "\<exists>k. w' = w\<lparr>pb_allocs := k\<rparr>"
  | (inserted) "rc = 0" "\<forall>n\<in>set (g_bdev_names w). vbdev_name n \<noteq> vbdev"
      "\<exists>k. w' = w\<lparr>pb_allocs := k, g_bdev_names := g_bdev_names w @ [\<lparr>vbdev_name = vbdev, bdev_name = bdev\<rparr>]\<rparr>"
proof -
  show ?thesis
  proof (cases "\<exists>n\<in>set (g_bdev_names w). vbdev_name n = vbdev")
    case True
    then have r: "rc = - EEXIST" "w' = w" using assms by (auto simp: vbdev_passthru_insert_name_def)
    have "\<exists>k. w = w\<lparr>pb_allocs := k\<rparr>" by (rule exI[of _ "pb_allocs w"]) simp
    with r show ?thesis by (intro refused) simp_all
  next
    case False
    then show ?thesis
      using assms refused inserted
      by (auto simp: vbdev_passthru_insert_name_def pb_try_alloc_def Let_def split: if_splits)
  qed
qed

lemma register_keeps:
  assumes "pb_balanced w" and "pb_layer_ok e w0" and "vbdev_passthru_register e bdev w = (rc, w')"
  shows "pb_balanced w'" and "pb_same_rest w w'"
    and "requests_but req w \<Longrightarrow> requests_but req w'" and "requests_ok w \<Longrightarrow> requests_ok w'"
proof -
  have "pb_balanced w' \<and> pb_same_rest w w' \<and> answers r (pb_log w') = answers r (pb_log w) \<and>
      count_list (pb_log w') (PbRequest r) = count_list (pb_log w) (PbRequest r)" for r
    using register_loop_keeps[OF assms(1), of e bdev "g_bdev_names w" 0 rc w' r] assms(2,3)
    by (simp add: pb_layer_ok_def vbdev_passthru_register_def)
  then show "pb_balanced w'" and "pb_same_rest w w'"
    and "requests_but req w \<Longrightarrow> requests_but req w'" and "requests_ok w \<Longrightarrow> requests_ok w'"
    using requests_same(1)[of w' w req] requests_same(2)[of w' w] by (simp_all add: pb_same_rest_def)
qed

lemma create_disk_keeps:
  assumes "pb_balanced w" and "requests_but req w" and names: "distinct (map vbdev_name (g_bdev_names w))"
    and layer: "pb_layer_ok e w0" and run: "bdev_passthru_external_create_disk e bdev vbdev w = (rc, w')"
  shows "pb_balanced w' \<and> requests_but req w' \<and> distinct (map vbdev_name (g_bdev_names w'))"
proof -
  obtain rc1 w1 where ins: "vbdev_passthru_insert_name e bdev vbdev w = (rc1, w1)" by (metis prod.exhaust)
  have same: "pb_balanced w1 \<and> requests_but req w1 \<and> distinct (map vbdev_name (g_bdev_names w1))"
    using ins
  proof (cases rule: insert_name_cases)
    case refused
    then show ?thesis
      using assms(1,2,3) balanced_quiet[of w "[]" w1] requests_same(1)[of w1 w req] by auto
  next
    case inserted
    then show ?thesis
      using assms(1,2,3) balanced_quiet[of w "[]" w1] requests_same(1)[of w1 w req] by auto
  qed
  show ?thesis
  proof (cases "rc1 = 0")
    case False
    then show ?thesis using run ins same by (simp add: bdev_passthru_external_create_disk_def)
  next
    case True
    obtain rc2 w2 where reg: "vbdev_passthru_register e bdev w1 = (rc2, w2)" by (metis prod.exhaust)
    have "w' = w2" using run ins reg True by (simp add: bdev_passthru_external_create_disk_def)
    then show ?thesis
      using register_keeps[OF _ layer reg] same by (auto simp: pb_same_rest_def)
  qed
qed

lemma ok_create:
  assumes ok: "pb_ok w" and layer: "pb_layer_ok e w" and new: "PbRequest req \<notin> set (pb_log w)"
  shows "pb_ok (rpc_bdev_passthru_create e decode strerror req (pb_emit [PbRequest req] w))"
proof -
  let ?w = "pb_emit [PbRequest req] w"
  have start: "pb_balanced ?w" "requests_but req ?w" "distinct (map vbdev_name (g_bdev_names ?w))"
    using ok new balanced_quiet[of w "[PbRequest req]" ?w] by (simp_all add: pb_ok_def requests_received)
  show ?thesis
  proof (cases "decode rpc_bdev_passthru_create_decoders")
    case None
    then show ?thesis using ok_sent[OF start] by (simp add: rpc_bdev_passthru_create_def)
  next
    case (Some vals)
    obtain rc w' where run: "bdev_passthru_external_create_disk e (vals ''base_bdev_name'') (vals ''name'') ?w = (rc, w')"
      by (metis prod.exhaust)
    show ?thesis
      using create_disk_keeps[OF start layer run] ok_sent[of w' req] Some run
      by (simp add: rpc_bdev_passthru_create_def)
  qed
qed

lemma distinct_names_remove: "distinct (map vbdev_name ns) \<Longrightarrow> distinct (map vbdev_name (names_remove v ns))"
proof -
  have "set (map vbdev_name (names_remove v ns)) \<subseteq> set (map vbdev_name ns)" for ns
    by (induction ns) auto
  then show "distinct (map vbdev_name ns) \<Longrightarrow> ?thesis" by (induction ns) auto
qed

lemma ok_delete:
  assumes ok: "pb_ok w" and new: "PbRequest req \<notin> set (pb_log w)"
  shows "pb_ok (rpc_bdev_passthru_delete e decode strerror req (pb_emit [PbRequest req] w))"
proof -
  let ?w = "pb_emit [PbRequest req] w"
  have start: "pb_balanced ?w" "requests_but req ?w" "distinct (map vbdev_name (g_bdev_names ?w))"
    using ok new balanced_quiet[of w "[PbRequest req]" ?w] by (simp_all add: pb_ok_def requests_received)
  have unreg: "pb_ok (pb_unregister node (Some req) (?w\<lparr>g_bdev_names := names_remove v (g_bdev_names ?w)\<rparr>))" for node v
  proof -
    let ?v = "?w\<lparr>g_bdev_names := names_remove v (g_bdev_names ?w)\<rparr>"
    have "requests_but req ?v" using start(2) requests_same(1)[of ?v ?w req] by simp
    moreover have "pb_balanced (pb_unregister node (Some req) ?v)"
      using start(1) by (rule balanced_quiet[where es = "[PbUnregister (pt_addr node)]"]) (simp_all add: pb_unregister_def)
    moreover have "distinct (map vbdev_name (g_bdev_names (pb_unregister node (Some req) ?v)))"
      using distinct_names_remove[OF start(3), of v] by (simp add: pb_unregister_def)
    ultimately show ?thesis by (simp add: pb_ok_def requests_wait)
  qed
  show ?thesis
    using ok_sent[OF start] unreg
    by (simp add: rpc_bdev_passthru_delete_def bdev_passthru_external_delete_disk_def
        rpc_bdev_passthru_delete_cb_def del: pb_emit_simps split: option.split found_bdev.split)
qed


lemma ok_examine:
  assumes "pb_ok w" and "pb_layer_ok e w"
  shows "pb_ok (vbdev_passthru_examine e bdev w)"
proof -
  obtain rc w' where run: "vbdev_passthru_register e bdev w = (rc, w')" by (metis prod.exhaust)
  note k = register_keeps[OF _ assms(2) run]
  have "pb_balanced (pb_emit [PbExamineDone] w')"
    by (rule balanced_quiet[of w' "[PbExamineDone]"]) (use k(1) assms(1) in \<open>simp_all add: pb_ok_def\<close>)
  then show ?thesis
    using k assms(1) requests_same(2)[of "pb_emit [PbExamineDone] w'" w'] run
    by (simp add: vbdev_passthru_examine_def pb_ok_def pb_same_rest_def)
qed

lemma ok_unregister_none:
  assumes "pb_ok w"
  shows "pb_ok (pb_unregister node None w)"
proof -
  have "pb_balanced (pb_unregister node None w)"
    by (rule balanced_quiet[of w "[PbUnregister (pt_addr node)]"])
      (use assms in \<open>simp_all add: pb_ok_def pb_unregister_def\<close>)
  moreover have "requests_ok (pb_unregister node None w)"
    using assms by (simp add: pb_ok_def requests_ok_def request_defs pb_unregister_def)
  ultimately show ?thesis using assms by (simp add: pb_ok_def pb_unregister_def)
qed

lemma ok_event: "pb_ok w \<Longrightarrow> pb_ok (vbdev_passthru_base_bdev_event_cb ty b w)"
proof -
  have "pb_ok (fold (\<lambda>node w. if base_id (base_bdev node) = b then pb_unregister node None w else w) ns w)"
    if "pb_ok w" for ns w
    using that by (induction ns arbitrary: w) (simp_all add: ok_unregister_none)
  then show "pb_ok w \<Longrightarrow> ?thesis"
    by (simp add: vbdev_passthru_base_bdev_event_cb_def vbdev_passthru_base_bdev_hotremove_cb_def split: bdev_event.split)
qed

text \<open>An unregistration that is taken up owes its request the answer, which the callback gives.\<close>

lemma taken_up:
  assumes "requests_ok w" and "(a, cb) \<in> set (pb_unregistering w)"
    and "pb_unregistering w' = remove1 (a, cb) (pb_unregistering w)" and "pb_log w' = pb_log w @ es"
    and "\<And>r. answers r es = 0 \<and> count_list es (PbRequest r) = 0"
  shows "requests_ok (pb_callback cb rc w')"
  unfolding requests_ok_def
proof
  fix r
  show "request_ok 0 (pb_callback cb rc w') r"
    using assms(1)[unfolded requests_ok_def, rule_format, of r] assms(3,4,5)
      count_map_remove1[OF assms(2), of snd "Some r"]
    by (cases "cb = Some r")
      (auto simp: request_defs pb_callback_def rpc_bdev_passthru_delete_cb_def rpc_send_def split: option.split)
qed

lemma balanced_callback: "pb_balanced w \<Longrightarrow> pb_balanced (pb_callback cb rc w)"
  by (simp add: pb_callback_def rpc_bdev_passthru_delete_cb_def balanced_sent split: option.split)

lemma callback_names [simp]: "g_bdev_names (pb_callback cb rc w) = g_bdev_names w"
  by (simp add: pb_callback_def rpc_bdev_passthru_delete_cb_def rpc_send_def split: option.split)

lemma balanced_destruct:
  assumes bal: "pb_balanced w" and mem: "node \<in> set (g_pt_nodes w)"
  shows "pb_balanced (vbdev_passthru_destruct e node w)"
  unfolding pb_balanced_def
proof (intro conjI allI)
  note d = vbdev_passthru_destruct_def Let_def balanced_defs
  show "node_balanced (vbdev_passthru_destruct e node w) a" for a
    using balancedD(1)[OF bal, of a] count_map_remove1[OF mem, of pt_addr a]
    by (cases "a = pt_addr node") (simp_all add: d split: if_splits)
  show "claim_balanced (vbdev_passthru_destruct e node w) b" for b
    using balancedD(2)[OF bal, of b] count_map_remove1[OF mem, of "base_id \<circ> base_bdev" b]
    by (cases "b = base_id (base_bdev node)") (simp_all add: d)
qed

lemma ok_destroyed:
  assumes ok: "pb_ok w" and mem: "(pt_addr node, cb) \<in> set (pb_unregistering w)" "node \<in> set (g_pt_nodes w)"
  shows "pb_ok (pb_destroyed e node cb w)"
proof -
  let ?w = "w\<lparr>pb_unregistering := remove1 (pt_addr node, cb) (pb_unregistering w)\<rparr>"
  let ?w' = "vbdev_passthru_destruct e node ?w"
  have "pb_balanced ?w" by (rule balanced_quiet[of w "[]"]) (use ok in \<open>simp_all add: pb_ok_def\<close>)
  then have "pb_balanced ?w'" using mem by (intro balanced_destruct) simp_all
  moreover have "requests_ok (pb_callback cb 0 ?w')"
  proof (rule taken_up[OF _ mem(1)])
    show "requests_ok w" using ok by (simp add: pb_ok_def)
    show "pb_log ?w' = pb_log w @ ([PbRelease (base_id (base_bdev node))] @
        (if pt_thread node \<noteq> 0 \<and> pt_thread node \<noteq> pl_thread e then [] else [PbClose (pt_addr node)]) @
        [PbIoUnregister (pt_addr node)])"
      by (simp add: vbdev_passthru_destruct_def Let_def)
  qed (simp_all add: vbdev_passthru_destruct_def Let_def)
  moreover have "g_bdev_names ?w' = g_bdev_names w" by (simp add: vbdev_passthru_destruct_def Let_def)
  ultimately show ?thesis using ok by (simp add: pb_destroyed_def pb_ok_def balanced_callback)
qed

lemma ok_refused:
  assumes ok: "pb_ok w" and mem: "(a, cb) \<in> set (pb_unregistering w)"
  shows "pb_ok (pb_refused a cb rc w)"
proof -
  let ?w = "w\<lparr>pb_unregistering := remove1 (a, cb) (pb_unregistering w)\<rparr>"
  have "pb_balanced ?w" by (rule balanced_quiet[of w "[]"]) (use ok in \<open>simp_all add: pb_ok_def\<close>)
  moreover have "requests_ok (pb_callback cb rc ?w)"
    using ok mem by (intro taken_up[where es = "[]" and w = w]) (simp_all add: pb_ok_def)
  ultimately show ?thesis using ok by (simp add: pb_refused_def pb_ok_def balanced_callback)
qed

lemma ok_close:
  assumes "pb_ok w" and "a \<in> set (pb_closing w)"
  shows "pb_ok (vbdev_passthru_close a w)"
proof -
  have bal: "pb_balanced w" using assms(1) by (simp add: pb_ok_def)
  have "node_balanced (vbdev_passthru_close a w) x" for x
    using balancedD(1)[OF bal, of x] count_list_member[OF assms(2)]
    by (cases "a = x") (simp_all add: vbdev_passthru_close_def balanced_defs)
  moreover have "claim_balanced (vbdev_passthru_close a w) b" for b
    using balancedD(2)[OF bal, of b] by (simp add: vbdev_passthru_close_def balanced_defs)
  ultimately show ?thesis using assms(1) requests_same(2)[of "vbdev_passthru_close a w" w]
    by (simp add: pb_ok_def pb_balanced_def vbdev_passthru_close_def)
qed

lemma ok_gone:
  assumes "pb_ok w" and "a \<in> set (pb_io_unregistering w)"
  shows "pb_ok (device_unregister_cb a w)"
proof -
  have bal: "pb_balanced w" using assms(1) by (simp add: pb_ok_def)
  have "node_balanced (device_unregister_cb a w) x" for x
    using balancedD(1)[OF bal, of x] count_list_member[OF assms(2)]
    by (cases "a = x") (simp_all add: device_unregister_cb_def balanced_defs split: if_splits)
  moreover have "claim_balanced (device_unregister_cb a w) b" for b
    using balancedD(2)[OF bal, of b] by (simp add: device_unregister_cb_def balanced_defs)
  ultimately show ?thesis using assms(1) requests_same(2)[of "device_unregister_cb a w" w]
    by (simp add: pb_ok_def pb_balanced_def device_unregister_cb_def)
qed

lemma ok_finish: "pb_ok w \<Longrightarrow> pb_ok (vbdev_passthru_finish w)"
  using balanced_quiet[of w "[]" "vbdev_passthru_finish w"] requests_same(2)[of "vbdev_passthru_finish w" w]
  by (simp add: pb_ok_def vbdev_passthru_finish_def)

lemma ok_step: "pb_step w w' \<Longrightarrow> pb_ok w \<Longrightarrow> pb_ok w'"
  by (induction rule: pb_step.induct)
    (simp_all add: ok_create ok_delete ok_examine ok_event ok_destroyed ok_refused ok_close ok_gone ok_finish)

lemma ok_start: "pb_ok pb_start"
  by (simp add: pb_ok_def pb_balanced_def balanced_defs pb_start_def requests_ok_def request_defs)

lemma ok_reachable: "pb_reachable w \<Longrightarrow> pb_ok w"
  by (induction rule: pb_reachable.induct) (auto intro: ok_start ok_step)


subsection \<open>The invariants\<close>

lemma distinct_of_counts: "(\<And>x. count_list xs x \<le> 1) \<Longrightarrow> distinct xs"
proof (induction xs)
  case (Cons y ys)
  have "count_list ys x \<le> 1" for x using Cons.prems[of x] by (auto split: if_splits)
  moreover have "y \<notin> set ys" using Cons.prems[of y] by (simp flip: count_list_zero)
  ultimately show ?case using Cons.IH by simp
qed simp

text \<open>C29: whatever the order of requests, examinations, hot removals and callbacks, and whatever the bdev
  layer answers: the names are unique; a base bdev has at most one virtual bdev; every descriptor that
  is open belongs to a node in the list or is about to be closed; every node has its I/O device; every
  node is in the list, waits for the end of its I/O device or has been freed, once. The claims of a base
  bdev are its releases and its virtual bdev, but for one case: when the registration of a virtual bdev
  fails, the claim of its base bdev is never given back, and no virtual bdev can be made on it again.\<close>

theorem passthru_nodes_balanced:
  assumes "pb_reachable w"
  shows "distinct (map vbdev_name (g_bdev_names w)) \<and> distinct (pb_addrs w) \<and> distinct (pb_bases w) \<and>
    (\<forall>a. count_list (pb_log w) (PbOpen a) =
           count_list (pb_log w) (PbClose a) + count_list (pb_addrs w) a + count_list (pb_closing w) a \<and>
         count_list (pb_log w) (PbIoRegister a) =
           count_list (pb_log w) (PbIoUnregister a) + count_list (pb_addrs w) a \<and>
         (if a < pb_next w then 1 else 0) =
           count_list (pb_log w) (PbFree a) + count_list (pb_addrs w) a +
             count_list (pb_io_unregistering w) a) \<and>
    (\<forall>b. count_list (pb_log w) (PbClaim b) =
           count_list (pb_log w) (PbRelease b) + count_list (pb_bases w) b +
             count_list (pb_log w) (PbReleaseVbdev b) \<and>
         (PbReleaseVbdev b \<in> set (pb_log w) \<longrightarrow> b \<notin> set (pb_bases w)))"
proof -
  have ok: "pb_balanced w" "distinct (map vbdev_name (g_bdev_names w))"
    using ok_reachable[OF assms] by (simp_all add: pb_ok_def)
  have n: "node_balanced w a" and c: "claim_balanced w a" for a using ok(1) by (simp_all add: pb_balanced_def)
  have "distinct (pb_addrs w)"
  proof (rule distinct_of_counts)
    fix a
    show "count_list (pb_addrs w) a \<le> 1" using n[of a] by (simp add: node_balanced_def split: if_splits)
  qed
  moreover have "distinct (pb_bases w)"
  proof (rule distinct_of_counts)
    fix b
    show "count_list (pb_bases w) b \<le> 1" using c[of b] by (simp add: claim_balanced_def)
  qed
  moreover have "b \<notin> set (pb_bases w)" if "PbReleaseVbdev b \<in> set (pb_log w)" for b
    using c[of b] count_list_member[OF that] by (simp add: claim_balanced_def flip: count_list_zero)
  ultimately show ?thesis
    using ok(2) n c unfolding node_balanced_def claim_balanced_def by blast
qed

text \<open>C30: a request to the passthru is answered once: at once, or when the unregistration that it asked for
  has ended; it is never answered twice, and never forgotten.\<close>

theorem passthru_requests_answered_once:
  assumes "pb_reachable w"
  shows "answers r (pb_log w) + count_list (map snd (pb_unregistering w)) (Some r) =
    (if PbRequest r \<in> set (pb_log w) then 1 else 0)"
proof -
  have "request_ok 0 w r" using ok_reachable[OF assms] by (simp add: pb_ok_def requests_ok_def)
  then show ?thesis
    using count_list_member[of "PbRequest r" "pb_log w"] count_list_zero[of "pb_log w" "PbRequest r"]
    by (auto simp: request_defs)
qed

subsection \<open>A concrete run\<close>

text \<open>A layer that grants everything, with base bdevs numbered by the length of their names; \<open>taken\<close> names
  cannot be registered.\<close>

definition example_props :: bdev_props where
  "example_props =
     \<lparr>bp_write_cache = True, bp_required_alignment = 12, bp_optimal_io_boundary = 8, bp_blocklen = 512,
      bp_blockcnt = 2048, bp_md_interleave = False, bp_md_len = 0, bp_dif_type = 0,
      bp_dif_is_head_of_md = False, bp_dif_check_flags = 0\<rparr>"

definition pb_example_env :: "string list \<Rightarrow> vbdev_passthru list \<Rightarrow> pb_env" where
  "pb_example_env taken nodes =
     \<lparr>pl_alloc = (\<lambda>_. True), pl_open = (\<lambda>_. 0),
      pl_bdev = (\<lambda>n. \<lparr>base_id = length n, base_name = n, base_props = example_props\<rparr>),
      pl_claim = (\<lambda>log b. if count_list log (PbClaim b) = count_list log (PbRelease b) then 0 else - EPERM),
      pl_register = (\<lambda>_ n. if n \<in> set taken then - EEXIST else 0), pl_thread = 1,
      pl_by_name = (\<lambda>n. map_option PassthruBdev (List.find (\<lambda>node. pt_name node = n) nodes))\<rparr>"

lemma example_layer_ok: "pb_layer_ok (pb_example_env taken (g_pt_nodes w)) w"
  by (auto simp: pb_layer_ok_def pb_example_env_def find_Some_iff)

definition pb_example_create :: "nat \<Rightarrow> string \<Rightarrow> string \<Rightarrow> string list \<Rightarrow> pb_world \<Rightarrow> pb_world" where
  "pb_example_create req bdev vbdev taken w =
     rpc_bdev_passthru_create (pb_example_env taken (g_pt_nodes w))
       (\<lambda>_. Some (\<lambda>m. if m = ''name'' then vbdev else bdev)) (\<lambda>_. []) req (pb_emit [PbRequest req] w)"

definition pb_example_delete :: "nat \<Rightarrow> string \<Rightarrow> pb_world \<Rightarrow> pb_world" where
  "pb_example_delete req vbdev w =
     rpc_bdev_passthru_delete (pb_example_env [] (g_pt_nodes w))
       (\<lambda>_. Some (\<lambda>_. vbdev)) (\<lambda>_. []) req (pb_emit [PbRequest req] w)"

lemma example_create_step:
  "pb_reachable w \<Longrightarrow> PbRequest req \<notin> set (pb_log w) \<Longrightarrow> pb_reachable (pb_example_create req bdev vbdev taken w)"
  unfolding pb_example_create_def by (rule pb_reachable_step, assumption) (rule pb_create[OF example_layer_ok])

lemma example_delete_step:
  "pb_reachable w \<Longrightarrow> PbRequest req \<notin> set (pb_log w) \<Longrightarrow> pb_reachable (pb_example_delete req vbdev w)"
  unfolding pb_example_delete_def by (rule pb_reachable_step, assumption) (rule pb_delete[OF example_layer_ok])

text \<open>A virtual bdev on \<open>nvme0\<close>, one on \<open>nvme10\<close> whose name cannot be registered, and the deletion of the
  first.\<close>

definition pb_example_world :: pb_world where
  "pb_example_world =
     pb_example_delete 3 ''pt0'' (pb_example_create 2 ''nvme10'' ''pt1'' [''pt1''] (pb_example_create 1 ''nvme0'' ''pt0'' [] pb_start))"

lemma example_world:
  "pb_example_world =
     \<lparr>g_bdev_names = [\<lparr>vbdev_name = ''pt1'', bdev_name = ''nvme10''\<rparr>],
      g_pt_nodes = [\<lparr>pt_addr = 0, base_bdev = \<lparr>base_id = 5, base_name = ''nvme0'', base_props = example_props\<rparr>,
                      pt_name = ''pt0'', pt_props = example_props, pt_thread = 1\<rparr>],
      pb_unregistering = [(0, Some 3)], pb_closing = [], pb_io_unregistering = [], pb_next = 2, pb_allocs = 10,
      pb_log = [PbRequest 1, PbOpen 0, PbIoRegister 0, PbClaim 5, PbRegister 0 ''pt0'', PbAnswer 1 (RpcResult [JString ''pt0'']),
                PbRequest 2, PbOpen 1, PbIoRegister 1, PbClaim 6, PbReleaseVbdev 6, PbClose 1, PbIoUnregister 1, PbFree 1,
                PbAnswer 2 (RpcError (- EEXIST) []), PbRequest 3, PbUnregister 0]\<rparr>"
  by code_simp

lemma example_reachable: "pb_reachable pb_example_world"
proof -
  let ?w1 = "pb_example_create 1 ''nvme0'' ''pt0'' [] pb_start"
  let ?w2 = "pb_example_create 2 ''nvme10'' ''pt1'' [''pt1''] ?w1"
  have "pb_reachable ?w1" by (rule example_create_step[OF pb_reachable_start]) (simp add: pb_start_def)
  moreover have "PbRequest 2 \<notin> set (pb_log ?w1)" by code_simp
  ultimately have "pb_reachable ?w2" by (rule example_create_step)
  moreover have "PbRequest 3 \<notin> set (pb_log ?w2)" by code_simp
  ultimately show ?thesis unfolding pb_example_world_def by (rule example_delete_step)
qed

theorem passthru_nodes_balanced_witness:
  "PbReleaseVbdev 6 \<in> set (pb_log pb_example_world) \<and> 6 \<notin> set (pb_bases pb_example_world) \<and>
   count_list (pb_log pb_example_world) (PbClaim 6) = 1 \<and> count_list (pb_log pb_example_world) (PbRelease 6) = 0"
  using passthru_nodes_balanced[OF example_reachable] by (simp add: example_world pb_bases_def)

theorem passthru_requests_answered_once_witness:
  "answers 2 (pb_log pb_example_world) = 1 \<and> answers 3 (pb_log pb_example_world) = 0 \<and>
   count_list (map snd (pb_unregistering pb_example_world)) (Some 3) = 1"
  using passthru_requests_answered_once[OF example_reachable, of 2]
    passthru_requests_answered_once[OF example_reachable, of 3] by (simp add: example_world)

end
