(* ===== verification/Passthru_Create.thy ===== *)
theory Passthru_Create
  imports Passthru_Reach "HOL-Library.Countable"
begin

text \<open>
  What a request to make a virtual bdev does on every branch, and the dump of the configuration: what
  it says makes the same virtual bdevs again.
\<close>

subsection \<open>Creation\<close>

abbreviation name_entry :: "string \<Rightarrow> string \<Rightarrow> bdev_names" where
  "name_entry bdev vbdev \<equiv> \<lparr>vbdev_name = vbdev, bdev_name = bdev\<rparr>"

lemma register_loop_other:
  "\<forall>n\<in>set nms. bdev_name n \<noteq> bdev \<Longrightarrow> pt_register_loop e bdev (nms @ ms) rc w = pt_register_loop e bdev ms rc w"
  by (induction nms) simp_all

text \<open>The answer to the \<open>i\<close>-th allocation from here on. A new name needs three; the node needs two more.\<close>

definition alloc_ok :: "pb_env \<Rightarrow> pb_world \<Rightarrow> nat \<Rightarrow> bool" where
  "alloc_ok e w i = pl_alloc e (pb_allocs w + i)"

text \<open>A new name with enough memory: the name is put into the list, and the base bdev is taken when no other
  name wants it.\<close>

lemma create_disk_new:
  assumes alloc: "alloc_ok e w 0 \<and> alloc_ok e w 1 \<and> alloc_ok e w 2"
    and free: "vbdev \<notin> set (map vbdev_name (g_bdev_names w))"
    and alone: "bdev \<notin> set (map bdev_name (g_bdev_names w))"
  defines "w1 \<equiv> w\<lparr>pb_allocs := pb_allocs w + 3, g_bdev_names := g_bdev_names w @ [name_entry bdev vbdev]\<rparr>"
  shows "bdev_passthru_external_create_disk e bdev vbdev w =
    (let (rc, w') = pt_register_name e bdev (name_entry bdev vbdev) w1 in (if rc = - ENODEV then 0 else rc, w'))"
proof -
  have ins: "vbdev_passthru_insert_name e bdev vbdev w = (0, w1)"
    using free alloc
    by (auto simp: vbdev_passthru_insert_name_def pb_try_alloc_def alloc_ok_def Let_def w1_def numeral_2_eq_2 numeral_3_eq_3)
  have other: "\<forall>n\<in>set (g_bdev_names w). bdev_name n \<noteq> bdev" using alone by (auto simp: image_iff)
  have "vbdev_passthru_register e bdev w1 = pt_register_name e bdev (name_entry bdev vbdev) w1"
    using register_loop_other[OF other, of e "[name_entry bdev vbdev]" 0 w1]
    by (auto simp: vbdev_passthru_register_def w1_def split: prod.splits)
  then show ?thesis by (simp add: bdev_passthru_external_create_disk_def ins Let_def split: prod.splits)
qed

lemma create_disk_taken:
  "vbdev \<in> set (map vbdev_name (g_bdev_names w)) \<Longrightarrow> bdev_passthru_external_create_disk e bdev vbdev w = (- EEXIST, w)"
  by (auto simp: bdev_passthru_external_create_disk_def vbdev_passthru_insert_name_def image_iff)

text \<open>Without the memory for the name nothing is inserted.\<close>

lemma create_disk_starved:
  assumes free: "vbdev \<notin> set (map vbdev_name (g_bdev_names w))"
    and starved: "\<not> (alloc_ok e w 0 \<and> alloc_ok e w 1 \<and> alloc_ok e w 2)"
    and run: "bdev_passthru_external_create_disk e bdev vbdev w = (rc, w')"
  shows "rc = - ENOMEM \<and> g_bdev_names w' = g_bdev_names w \<and> g_pt_nodes w' = g_pt_nodes w \<and> pb_log w' = pb_log w"
  using assms
  by (auto simp: bdev_passthru_external_create_disk_def vbdev_passthru_insert_name_def pb_try_alloc_def alloc_ok_def
      Let_def numeral_2_eq_2 split: if_splits)

text \<open>The log up to the claim, and what the layer answers there.\<close>

definition opened_log :: "pb_world \<Rightarrow> pb_event list" where
  "opened_log w = pb_log w @ [PbOpen (pb_next w), PbIoRegister (pb_next w)]"

definition base_of :: "pb_env \<Rightarrow> string \<Rightarrow> nat" where
  "base_of e bdev = base_id (pl_bdev e bdev)"

definition deferred :: "int \<Rightarrow> int" where
  "deferred rc = (if rc = - ENODEV then 0 else rc)"

text \<open>C31: a request for a virtual bdev on a base bdev that no other name in the list wants. A name that is in the list
  already is refused. Without the memory for the new name the request fails and the name is not kept, so
  that it can be asked for again. From then on the name stays in the list whatever comes of the request: a
  second one with it is refused, also after a failure. A base bdev that is not there yet is no failure. When
  the memory for the node is missing, or the base bdev cannot be opened or claimed, or the virtual bdev not
  registered, the list of nodes is as before and the error is returned; otherwise there is one more node,
  on the base bdev, with its properties.\<close>

theorem passthru_create_outcome:
  assumes reach: "pb_reachable w" and alone: "bdev \<notin> set (map bdev_name (g_bdev_names w))"
    and run: "bdev_passthru_external_create_disk e bdev vbdev w = (rc, w')"
  shows "if vbdev \<in> set (map vbdev_name (g_bdev_names w)) then rc = - EEXIST \<and> w' = w
    else if \<not> (alloc_ok e w 0 \<and> alloc_ok e w 1 \<and> alloc_ok e w 2)
    then rc = - ENOMEM \<and> g_bdev_names w' = g_bdev_names w \<and> g_pt_nodes w' = g_pt_nodes w \<and> pb_log w' = pb_log w
    else
    g_bdev_names w' = g_bdev_names w @ [name_entry bdev vbdev] \<and>
    (\<forall>e' bdev'. bdev_passthru_external_create_disk e' bdev' vbdev w' = (- EEXIST, w')) \<and>
    (let claim = pl_claim e (opened_log w) (base_of e bdev);
         register = pl_register e (opened_log w @ [PbClaim (base_of e bdev)]) vbdev
     in if \<not> (alloc_ok e w 3 \<and> alloc_ok e w 4)
        then rc = - ENOMEM \<and> g_pt_nodes w' = g_pt_nodes w \<and> pb_log w' = pb_log w
        else if pl_open e bdev \<noteq> 0
        then rc = deferred (pl_open e bdev) \<and> g_pt_nodes w' = g_pt_nodes w \<and> pb_log w' = pb_log w
        else if claim \<noteq> 0 then rc = deferred claim \<and> g_pt_nodes w' = g_pt_nodes w
        else if register \<noteq> 0
        then rc = deferred register \<and> g_pt_nodes w' = g_pt_nodes w \<and>
             PbReleaseVbdev (base_of e bdev) \<in> set (pb_log w')
        else rc = 0 \<and> (\<exists>node. g_pt_nodes w' = g_pt_nodes w @ [node] \<and> pt_name node = vbdev \<and>
               base_bdev node = pl_bdev e bdev \<and> pt_props node = base_props (pl_bdev e bdev)))"
proof -
  consider (taken) "vbdev \<in> set (map vbdev_name (g_bdev_names w))"
    | (starved) "vbdev \<notin> set (map vbdev_name (g_bdev_names w))" "\<not> (alloc_ok e w 0 \<and> alloc_ok e w 1 \<and> alloc_ok e w 2)"
    | (kept) "vbdev \<notin> set (map vbdev_name (g_bdev_names w))" "alloc_ok e w 0 \<and> alloc_ok e w 1 \<and> alloc_ok e w 2"
    by blast
  then show ?thesis
  proof cases
    case taken
    then show ?thesis using create_disk_taken[OF taken, of e bdev] run by simp
  next
    case starved
    then show ?thesis using create_disk_starved[OF starved run] by simp
  next
    case kept
    let ?nm = "name_entry bdev vbdev"
    let ?w1 = "w\<lparr>pb_allocs := pb_allocs w + 3, g_bdev_names := g_bdev_names w @ [?nm]\<rparr>"
    obtain rc1 where one: "pt_register_name e bdev ?nm ?w1 = (rc1, w')" and rc: "rc = deferred rc1"
      using run unfolding create_disk_new[OF kept(2,1) alone]
      by (auto simp: Let_def deferred_def split: prod.splits)
    have keep: "filter (\<lambda>n. pt_addr n \<noteq> pb_next w) (g_pt_nodes w) = g_pt_nodes w"
      using balanced_fresh[of w] ok_reachable[OF reach] by (auto simp: pb_ok_def pb_addrs_def filter_id_conv image_iff)
    note d = pt_register_name_def pb_try_alloc_def pt_node_new_def pt_node_drop_def Let_def opened_log_def base_of_def
    have names: "g_bdev_names w' = g_bdev_names w @ [?nm]"
      using one by (auto simp: d split: if_splits)
    then have again: "\<forall>e' bdev'. bdev_passthru_external_create_disk e' bdev' vbdev w' = (- EEXIST, w')"
      using create_disk_taken[of vbdev w'] by simp
    have allocs: "alloc_ok e w 3 = pl_alloc e (pb_allocs w + 3)" "alloc_ok e w 4 = pl_alloc e (Suc (pb_allocs w + 3))"
      by (simp_all add: alloc_ok_def add.commute)
    have result: "let claim = pl_claim e (opened_log w) (base_of e bdev);
         register = pl_register e (opened_log w @ [PbClaim (base_of e bdev)]) vbdev
     in if \<not> (alloc_ok e w 3 \<and> alloc_ok e w 4)
        then rc = - ENOMEM \<and> g_pt_nodes w' = g_pt_nodes w \<and> pb_log w' = pb_log w
        else if pl_open e bdev \<noteq> 0
        then rc = deferred (pl_open e bdev) \<and> g_pt_nodes w' = g_pt_nodes w \<and> pb_log w' = pb_log w
        else if claim \<noteq> 0 then rc = deferred claim \<and> g_pt_nodes w' = g_pt_nodes w
        else if register \<noteq> 0
        then rc = deferred register \<and> g_pt_nodes w' = g_pt_nodes w \<and>
             PbReleaseVbdev (base_of e bdev) \<in> set (pb_log w')
        else rc = 0 \<and> (\<exists>node. g_pt_nodes w' = g_pt_nodes w @ [node] \<and> pt_name node = vbdev \<and>
               base_bdev node = pl_bdev e bdev \<and> pt_props node = base_props (pl_bdev e bdev))"
      using one rc keep unfolding allocs by (auto simp: d deferred_def split: if_splits)
    show ?thesis unfolding if_not_P[OF kept(1)] using kept(2) names again result by simp
  qed
qed

theorem passthru_create_outcome_witness:
  "let e = pb_example_env [] [];
       (rc, w') = bdev_passthru_external_create_disk e ''nvme0'' ''pt0'' pb_start
   in rc = 0 \<and> length (g_pt_nodes w') = 1 \<and>
      bdev_passthru_external_create_disk e ''nvme1'' ''pt0'' w' = (- EEXIST, w')"
proof -
  let ?e = "pb_example_env [] []"
  obtain rc w' where run: "bdev_passthru_external_create_disk ?e ''nvme0'' ''pt0'' pb_start = (rc, w')"
    by (metis prod.exhaust)
  have "rc = 0" using run by (simp add: create_disk_new alloc_ok_def pb_example_env_def pb_start_def pt_register_name_def
        pb_try_alloc_def pt_node_new_def Let_def pb_emit_def split: if_splits)
  have "g_bdev_names w' = [name_entry ''nvme0'' ''pt0''] \<and> length (g_pt_nodes w') = 1 \<and>
      bdev_passthru_external_create_disk ?e ''nvme1'' ''pt0'' w' = (- EEXIST, w')"
    using passthru_create_outcome[OF pb_reachable_start _ run]
    by (simp add: alloc_ok_def pb_example_env_def pb_start_def opened_log_def base_of_def) auto
  then show ?thesis using run \<open>rc = 0\<close> by simp
qed


subsection \<open>The dump of the configuration\<close>

text \<open>What a reader of the dump finds: the values of the members \<open>base_bdev_name\<close> and \<open>name\<close> of the parameters of
  each call of the method that makes a virtual bdev.\<close>

fun read_config :: "json_call list \<Rightarrow> (string \<times> string) list" where
  "read_config (JNamedString m meth # JNamedObjectBegin p # JNamedString k b # JNamedString k' n # cs) =
     (if m = ''method'' \<and> meth = ''construct_ext_passthru_bdev'' \<and> p = ''params'' \<and> k = ''base_bdev_name'' \<and> k' = ''name''
      then (b, n) # read_config cs
      else read_config (JNamedObjectBegin p # JNamedString k b # JNamedString k' n # cs))"
| "read_config (c # cs) = read_config cs"
| "read_config [] = []"

definition node_names :: "pb_world \<Rightarrow> (string \<times> string) list" where
  "node_names w = map (\<lambda>n. (base_name (base_bdev n), pt_name n)) (g_pt_nodes w)"

lemma read_config_json: "read_config (vbdev_passthru_config_json w) = node_names w"
proof -
  have "read_config (concat (map (\<lambda>node.
       [JObjectBegin, JNamedString ''method'' ''construct_ext_passthru_bdev'', JNamedObjectBegin ''params'',
        JNamedString ''base_bdev_name'' (base_name (base_bdev node)), JNamedString ''name'' (pt_name node),
        JObjectEnd, JObjectEnd]) ns)) = map (\<lambda>n. (base_name (base_bdev n), pt_name n)) ns" for ns
    by (induction ns) simp_all
  then show ?thesis by (simp add: vbdev_passthru_config_json_def node_names_def)
qed

lemma config_json_elements: "json_elements (vbdev_passthru_config_json w)"
  unfolding vbdev_passthru_config_json_def
  by (rule json_elements_concat) (simp add: json_elements_def)

lemma pt_dump_members: "json_members (vbdev_passthru_dump_info_json node)"
  by (simp add: json_members_def vbdev_passthru_dump_info_json_def)

text \<open>A layer that grants everything that its documentation lets it: bdevs are told apart by their names.\<close>

definition granting :: "pb_env \<Rightarrow> bool" where
  "granting e \<longleftrightarrow>
     (\<forall>k. pl_alloc e k) \<and> (\<forall>n. pl_open e n = 0) \<and> (\<forall>n. base_name (pl_bdev e n) = n) \<and>
     (\<forall>m n. base_of e m = base_of e n \<longrightarrow> m = n) \<and> (\<forall>log n. pl_register e log n = 0) \<and>
     (\<forall>log b. pl_claim e log b = 0 \<longleftrightarrow> count_list log (PbClaim b) = count_list log (PbRelease b))"

primrec replay :: "pb_env \<Rightarrow> (string \<times> string) list \<Rightarrow> pb_world \<Rightarrow> pb_world" where
  "replay e [] w = w"
| "replay e (p # ps) w = replay e ps (snd (bdev_passthru_external_create_disk e (fst p) (snd p) w))"

text \<open>The worlds that a replay goes through: balanced, without a failed registration, and with a node for
  every name.\<close>

definition replaying :: "pb_env \<Rightarrow> pb_world \<Rightarrow> bool" where
  "replaying e w \<longleftrightarrow>
     pb_balanced w \<and> (\<forall>b. PbReleaseVbdev b \<notin> set (pb_log w)) \<and>
     pb_bases w = map (base_of e \<circ> bdev_name) (g_bdev_names w) \<and>
     map pt_name (g_pt_nodes w) = map vbdev_name (g_bdev_names w)"

lemma replay_step:
  assumes gr: "granting e" and rw: "replaying e w" and free: "vbdev \<notin> set (map vbdev_name (g_bdev_names w))"
    and alone: "bdev \<notin> set (map bdev_name (g_bdev_names w))"
  defines "w' \<equiv> snd (bdev_passthru_external_create_disk e bdev vbdev w)"
  shows "replaying e w' \<and> node_names w' = node_names w @ [(bdev, vbdev)] \<and>
    g_bdev_names w' = g_bdev_names w @ [name_entry bdev vbdev]"
proof -
  let ?nm = "name_entry bdev vbdev" and ?b = "base_of e bdev"
  let ?w1 = "w\<lparr>pb_allocs := pb_allocs w + 3, g_bdev_names := g_bdev_names w @ [?nm]\<rparr>"
  have inj: "\<And>m n. base_of e m = base_of e n \<Longrightarrow> m = n" using gr unfolding granting_def by blast
  have "?b \<notin> set (pb_bases w)" using rw alone by (auto simp: replaying_def image_iff dest!: inj)
  then have "count_list (pb_log w) (PbClaim ?b) = count_list (pb_log w) (PbRelease ?b)"
    using rw by (auto simp: replaying_def pb_balanced_def claim_balanced_def simp flip: count_list_zero)
  then have claim: "pl_claim e (pb_log w @ [PbOpen (pb_next w), PbIoRegister (pb_next w)]) ?b = 0"
    using gr by (simp add: granting_def)
  have alloc: "alloc_ok e w 0 \<and> alloc_ok e w 1 \<and> alloc_ok e w 2" using gr by (simp add: granting_def alloc_ok_def)
  obtain rc where one: "pt_register_name e bdev ?nm ?w1 = (rc, w')"
    using create_disk_new[OF alloc free alone] unfolding w'_def by (auto simp: Let_def split: prod.splits)
  have w': "g_pt_nodes w' = g_pt_nodes w @ [pt_node_new e ?nm bdev ?w1]" "g_bdev_names w' = g_bdev_names w @ [?nm]"
    "pb_log w' = pb_log w @ [PbOpen (pb_next w), PbIoRegister (pb_next w), PbClaim ?b, PbRegister (pb_next w) vbdev]"
    using one gr claim
    by (auto simp: pt_register_name_def pb_try_alloc_def granting_def pt_node_new_def base_of_def Let_def)
  have "pb_balanced ?w1" by (rule balanced_quiet[of w "[]" ?w1]) (use rw in \<open>simp_all add: replaying_def\<close>)
  then have "pb_balanced w'" using gr by (intro balanced_register_name[OF _ one]) (simp_all add: granting_def)
  then show ?thesis
    using rw gr by (auto simp: replaying_def w' node_names_def pb_bases_def pt_node_new_def base_of_def granting_def)
qed

lemma replay_all:
  assumes "granting e" and "replaying e w"
    and "distinct (map fst ps)" and "distinct (map snd ps)"
    and "set (map fst ps) \<inter> set (map bdev_name (g_bdev_names w)) = {}"
    and "set (map snd ps) \<inter> set (map vbdev_name (g_bdev_names w)) = {}"
  shows "node_names (replay e ps w) = node_names w @ ps"
  using assms(2-)
proof (induction ps arbitrary: w)
  case (Cons p ps)
  let ?w' = "snd (bdev_passthru_external_create_disk e (fst p) (snd p) w)"
  have "replaying e ?w' \<and> node_names ?w' = node_names w @ [p] \<and>
      g_bdev_names ?w' = g_bdev_names w @ [name_entry (fst p) (snd p)]"
    using replay_step[OF assms(1) Cons.prems(1), of "snd p" "fst p"] Cons.prems by auto
  then show ?case using Cons.IH[of ?w'] Cons.prems by auto
qed simp

text \<open>C32: the dump of the configuration is a well-formed sequence of objects, and the calls it describes,
  made on an empty module of a layer that grants them, make a virtual bdev for every one there was, with
  its name and over the base bdev of that name.\<close>

theorem passthru_config_round_trip:
  assumes "pb_reachable w" and "distinct (map fst (node_names w))" and "distinct (map snd (node_names w))" and "granting e"
  shows "json_elements (vbdev_passthru_config_json w) \<and>
    node_names (replay e (read_config (vbdev_passthru_config_json w)) pb_start) = node_names w"
proof -
  have "replaying e pb_start"
    by (simp add: replaying_def pb_start_def pb_balanced_def balanced_defs)
  then show ?thesis
    using replay_all[OF assms(4) _ assms(2,3)] config_json_elements read_config_json
    by (simp add: pb_start_def node_names_def)
qed


lemma example_granting: "granting (pb_example_env [] []\<lparr>pl_bdev := \<lambda>n. \<lparr>base_id = to_nat n, base_name = n, base_props = example_props\<rparr>\<rparr>)"
  by (simp add: granting_def pb_example_env_def base_of_def)

theorem passthru_config_round_trip_witness:
  "node_names (replay (pb_example_env [] []\<lparr>pl_bdev := \<lambda>n. \<lparr>base_id = to_nat n, base_name = n, base_props = example_props\<rparr>\<rparr>)
     (read_config (vbdev_passthru_config_json pb_example_world)) pb_start) = [(''nvme0'', ''pt0'')]"
  using passthru_config_round_trip[OF example_reachable _ _ example_granting]
  by (simp add: node_names_def example_world)

end
