(* ===== verification/Raid_Rpc.thy ===== *)
theory Raid_Rpc
  imports Raid_Interleaving Json_Calls
begin

text \<open>
  The RPCs of \<open>raid/bdev_raid_rpc.c\<close> and the JSON dumps of \<open>raid/bdev_raid.c\<close>. A handler either answers
  its request at once or hands it to the operation it starts, whose callback answers it later.

  The parameters of a request are what the JSON library has made of them, \<open>None\<close> when it has failed. The
  UUID of a raid bdev is formatted and parsed by the UUID library: \<open>fmt\<close> stands for
  \<open>spdk_uuid_fmt_lower\<close>, \<open>parse\<close> for \<open>spdk_json_decode_uuid\<close>. A zero UUID is handed to the bdev layer as it
  is; that the layer may choose one of its own when the bdev is registered is not modelled.
\<close>

subsection \<open>Dumps\<close>

definition raid_bdev_write_info_json :: "(uuid \<Rightarrow> string) \<Rightarrow> raid_bdev \<Rightarrow> json_call list" where
  "raid_bdev_write_info_json fmt rb =
     [JNamedString ''uuid'' (fmt (rb_uuid rb)),
      JNamedUint ''strip_size_kb'' (unat (strip_size_kb rb)),
      JNamedString ''state'' (raid_bdev_state_to_str (rb_state rb)),
      JNamedString ''raid_level'' (raid_bdev_level_to_str (rb_level rb)),
      JNamedBool ''superblock'' (superblock_enabled rb),
      JNamedUint ''num_base_bdevs'' (unat (num_base_bdevs rb)),
      JNamedUint ''num_base_bdevs_discovered'' (unat (num_base_bdevs_discovered rb)),
      JName ''base_bdevs_list'', JArrayBegin] @
     concat (map (\<lambda>info. case bi_desc info of Some d \<Rightarrow> [JString d] | None \<Rightarrow> [JNull]) (base_bdev_info rb)) @
     [JArrayEnd]"

definition raid_bdev_dump_info_json :: "(uuid \<Rightarrow> string) \<Rightarrow> raid_bdev \<Rightarrow> json_call list" where
  "raid_bdev_dump_info_json fmt rb =
     [JNamedObjectBegin ''raid''] @ raid_bdev_write_info_json fmt rb @ [JObjectEnd]"

definition raid_bdev_write_config_json :: "(uuid \<Rightarrow> string) \<Rightarrow> raid_bdev \<Rightarrow> json_call list" where
  "raid_bdev_write_config_json fmt rb =
     (if superblock_enabled rb then []
      else
        [JObjectBegin, JNamedString ''method'' ''bdev_raid_create'', JNamedObjectBegin ''params'',
         JNamedString ''name'' (rb_name rb), JNamedString ''uuid'' (fmt (rb_uuid rb)),
         JNamedUint ''strip_size_kb'' (unat (strip_size_kb rb)),
         JNamedString ''raid_level'' (raid_bdev_level_to_str (rb_level rb)),
         JNamedBool ''superblock'' (superblock_enabled rb), JNamedArrayBegin ''base_bdevs''] @
        concat (map (\<lambda>info. case bi_desc info of Some d \<Rightarrow> [JString d] | None \<Rightarrow> []) (base_bdev_info rb)) @
        [JArrayEnd, JObjectEnd, JObjectEnd])"

subsection \<open>The list of raid bdevs\<close>

abbreviation SPDK_JSONRPC_ERROR_PARSE_ERROR :: int where "SPDK_JSONRPC_ERROR_PARSE_ERROR \<equiv> - 32700"
abbreviation SPDK_JSONRPC_ERROR_INTERNAL_ERROR :: int where "SPDK_JSONRPC_ERROR_INTERNAL_ERROR \<equiv> - 32603"

definition rpc_parse_error :: rpc_answer where
  "rpc_parse_error = RpcError SPDK_JSONRPC_ERROR_PARSE_ERROR ''spdk_json_decode_object failed''"

definition rpc_bdev_raid_get_bdevs ::
  "(int \<Rightarrow> string) \<Rightarrow> (uuid \<Rightarrow> string) \<Rightarrow> string option \<Rightarrow> raid_world \<Rightarrow> rpc_answer" where
  "rpc_bdev_raid_get_bdevs strerror fmt params w =
     (case params of
        None \<Rightarrow> rpc_parse_error
      | Some category \<Rightarrow>
          (let state = raid_bdev_str_to_state category
           in if state = RAID_BDEV_STATE_MAX \<and> category \<noteq> ''all''
              then RpcError (- EINVAL) (strerror EINVAL)
              else RpcResult
                ([JArrayBegin] @
                 concat (map (\<lambda>rb.
                   if rb_state rb = state \<or> state = RAID_BDEV_STATE_MAX
                   then [JObjectBegin, JNamedString ''name'' (rb_name rb)] @
                        raid_bdev_write_info_json fmt rb @ [JObjectEnd]
                   else []) (g_raid_bdev_list w)) @
                 [JArrayEnd])))"

subsection \<open>Creation\<close>

abbreviation RPC_MAX_BASE_BDEVS :: nat where "RPC_MAX_BASE_BDEVS \<equiv> 255"

text \<open>The members that the JSON library finds (those that may be missing are optional), and the request
  that the decoders of this file make of them.\<close>

record raid_create_members =
  m_name :: string
  m_strip_size_kb :: "u32 option"
  m_raid_level :: string
  m_base_bdevs :: "string list"
  m_uuid :: "string option"
  m_superblock :: "bool option"

record rpc_bdev_raid_create_req =
  rq_name :: string
  rq_strip_size_kb :: u32
  rq_level :: raid_level
  rq_base_bdevs :: "string list"
  rq_uuid :: uuid
  rq_superblock :: bool

definition decode_raid_level :: "string \<Rightarrow> raid_level option" where
  "decode_raid_level str =
     (let level = raid_bdev_str_to_level str in if level = INVALID_RAID_LEVEL then None else Some level)"

definition decode_base_bdevs :: "string list \<Rightarrow> string list option" where
  "decode_base_bdevs names = (if length names \<le> RPC_MAX_BASE_BDEVS then Some names else None)"

definition decode_uuid :: "(string \<Rightarrow> uuid option) \<Rightarrow> string option \<Rightarrow> uuid option" where
  "decode_uuid parse m = (case m of None \<Rightarrow> Some 0 | Some str \<Rightarrow> parse str)"

definition rpc_bdev_raid_create_decode ::
  "(string \<Rightarrow> uuid option) \<Rightarrow> raid_create_members option \<Rightarrow> rpc_bdev_raid_create_req option" where
  "rpc_bdev_raid_create_decode parse params =
     (case params of
        None \<Rightarrow> None
      | Some m \<Rightarrow>
          (case (decode_raid_level (m_raid_level m), decode_base_bdevs (m_base_bdevs m), decode_uuid parse (m_uuid m)) of
             (Some level, Some names, Some uuid) \<Rightarrow>
               Some \<lparr>rq_name = m_name m,
                     rq_strip_size_kb = (case m_strip_size_kb m of None \<Rightarrow> 0 | Some s \<Rightarrow> s),
                     rq_level = level, rq_base_bdevs = names, rq_uuid = uuid,
                     rq_superblock = (case m_superblock m of None \<Rightarrow> False | Some b \<Rightarrow> b)\<rparr>
           | _ \<Rightarrow> None))"

text \<open>The loop over the base bdevs from slot \<open>i\<close> on: the code and the base bdev of the first failure, after
  which the raid bdev is deleted.\<close>

fun add_base_bdevs ::
  "raid_env \<Rightarrow> string \<Rightarrow> string list \<Rightarrow> nat \<Rightarrow> raid_world \<Rightarrow> (int \<times> string) option \<times> raid_world" where
  "add_base_bdevs env name [] i w = (None, w)"
| "add_base_bdevs env name (b # bs) i w =
     (let (rc, w) = raid_bdev_add_base_device env (the (raid_bdev_find_by_name name w)) b (of_nat i) w
      in if rc = - ENODEV \<or> rc = 0 then add_base_bdevs env name bs (Suc i) w
         else (Some (rc, b), raid_bdev_delete (the (raid_bdev_find_by_name name w)) None w))"

definition rpc_bdev_raid_create ::
  "raid_env \<Rightarrow> (string \<Rightarrow> uuid option) \<Rightarrow> (int \<Rightarrow> string) \<Rightarrow> raid_create_members option \<Rightarrow> raid_world \<Rightarrow>
   rpc_answer \<times> raid_world" where
  "rpc_bdev_raid_create env parse strerror params w =
     (case rpc_bdev_raid_create_decode parse params of
        None \<Rightarrow> (rpc_parse_error, w)
      | Some req \<Rightarrow>
          (let (rc, w) = raid_bdev_create env (rq_name req) (rq_strip_size_kb req)
                           (of_nat (length (rq_base_bdevs req))) (rq_level req) (rq_superblock req) (rq_uuid req) w
           in if rc \<noteq> 0
              then (RpcError rc (''Failed to create RAID bdev '' @ rq_name req @ '': '' @ strerror (- rc)), w)
              else
                (case add_base_bdevs env (rq_name req) (rq_base_bdevs req) 0 w of
                   (Some (rc, b), w) \<Rightarrow>
                     (RpcError rc (''Failed to add base bdev '' @ b @ '' to RAID bdev '' @ rq_name req @
                                   '': '' @ strerror (- rc)), w)
                 | (None, w) \<Rightarrow> (RpcBool True, w))))"

subsection \<open>Deletion and removal\<close>

definition bdev_raid_delete_done :: "(int \<Rightarrow> string) \<Rightarrow> int \<Rightarrow> rpc_answer" where
  "bdev_raid_delete_done strerror rc =
     (if rc \<noteq> 0 then RpcError SPDK_JSONRPC_ERROR_INTERNAL_ERROR (strerror (- rc)) else RpcBool True)"

text \<open>\<open>None\<close> as the answer: the callback, which has the number of the request, will give it.\<close>

definition rpc_bdev_raid_delete ::
  "bool \<Rightarrow> (int \<Rightarrow> string) \<Rightarrow> string option \<Rightarrow> nat \<Rightarrow> raid_world \<Rightarrow> rpc_answer option \<times> raid_world" where
  "rpc_bdev_raid_delete alloc_ok strerror params req w =
     (if \<not> alloc_ok then (Some (RpcError (- ENOMEM) (strerror ENOMEM)), w)
      else
        (case params of
           None \<Rightarrow> (Some rpc_parse_error, w)
         | Some name \<Rightarrow>
             (case raid_bdev_find_by_name name w of
                None \<Rightarrow> (Some (RpcError (- ENODEV) (''raid bdev '' @ name @ '' not found'')), w)
              | Some rb \<Rightarrow> (None, raid_bdev_delete rb (Some req) w))))"

definition rpc_bdev_raid_remove_base_bdev_done :: "int \<Rightarrow> rpc_answer" where
  "rpc_bdev_raid_remove_base_bdev_done status =
     (if status \<noteq> 0 then RpcError status ''Failed to remove base bdev from raid bdev'' else RpcBool True)"

definition rpc_bdev_raid_remove_base_bdev ::
  "raid_env \<Rightarrow> (string \<Rightarrow> int) \<Rightarrow> string option \<Rightarrow> nat \<Rightarrow> raid_world \<Rightarrow> rpc_answer option \<times> raid_world" where
  "rpc_bdev_raid_remove_base_bdev env open_rc params req w =
     (case params of
        None \<Rightarrow> (Some rpc_parse_error, w)
      | Some name \<Rightarrow>
          if open_rc name \<noteq> 0 then (Some (rpc_bdev_raid_remove_base_bdev_done (open_rc name)), w)
          else
            (let (rc, w) = raid_bdev_remove_base_bdev env name (Some req) w;
                 w = w_emit [LogClose name] w
             in if rc \<noteq> 0 then (Some (rpc_bdev_raid_remove_base_bdev_done rc), w) else (None, w)))"

subsection \<open>What the dumps say\<close>

lemma info_json_members: "json_members (raid_bdev_write_info_json fmt rb)"
proof -
  have "json_elements (concat (map (\<lambda>info. case bi_desc info of Some d \<Rightarrow> [JString d] | None \<Rightarrow> [JNull]) (base_bdev_info rb)))"
    by (rule json_elements_concat) (simp add: json_elements_def split: option.split)
  then show ?thesis
    by (simp add: raid_bdev_write_info_json_def json_members_def json_elements_def json_run_append)
qed

lemma dump_info_members: "json_members (raid_bdev_dump_info_json fmt rb)"
  using info_json_members[of fmt rb]
  by (simp add: raid_bdev_dump_info_json_def json_members_def json_run_append)

lemma config_json_value: "json_elements (raid_bdev_write_config_json fmt rb)"
proof -
  have "json_elements (concat (map (\<lambda>info. case bi_desc info of Some d \<Rightarrow> [JString d] | None \<Rightarrow> []) (base_bdev_info rb)))"
    by (rule json_elements_concat) (simp add: json_elements_def split: option.split)
  then show ?thesis
    by (simp add: raid_bdev_write_config_json_def json_elements_def json_run_append)
qed

lemma get_bdevs_value:
  assumes "rpc_bdev_raid_get_bdevs strerror fmt params w = RpcResult cs"
  shows "json_value cs"
proof -
  have "json_elements (concat (map (\<lambda>rb. if p rb
        then [JObjectBegin, JNamedString ''name'' (rb_name rb)] @ raid_bdev_write_info_json fmt rb @ [JObjectEnd]
        else []) rbs))" for p rbs
  proof (rule json_elements_concat)
    fix rb
    show "json_elements (if p rb
        then [JObjectBegin, JNamedString ''name'' (rb_name rb)] @ raid_bdev_write_info_json fmt rb @ [JObjectEnd]
        else [])"
      using info_json_members[of fmt rb] by (simp add: json_elements_def json_members_def json_run_append)
  qed
  note list = this[unfolded json_elements_def, rule_format, of _ _ "[]"]
  show ?thesis
    using assms
    by (auto simp: rpc_bdev_raid_get_bdevs_def rpc_parse_error_def Let_def json_value_def json_run_append list
        split: option.splits if_splits)
qed


subsection \<open>What adding a base bdev leaves alone\<close>

definition raid_view ::
  "raid_bdev \<Rightarrow> string \<times> uuid \<times> (string option \<times> string option \<times> bool \<times> nat option) list \<times> u8 \<times> u8 \<times> u8 \<times> bool \<times>
     raid_level \<times> u32 \<times> bool" where
  "raid_view rb =
     (rb_name rb, rb_uuid rb, map slot_view (base_bdev_info rb), num_base_bdevs rb, num_base_bdevs_discovered rb,
      min_base_bdevs_operational rb, destroy_started rb, rb_level rb, strip_size_kb rb, superblock_enabled rb)"

lemma same_slots_view: "same_slots rb rb' \<Longrightarrow> raid_view rb' = raid_view rb \<and> rb_state rb' = rb_state rb"
  by (simp add: same_slots_def raid_view_def)

lemma raid_view_fields [simp]:
  "raid_view (rb\<lparr>rb_state := s\<rparr>) = raid_view rb" "raid_view (rb\<lparr>strip_size := n\<rparr>) = raid_view rb"
  "raid_view (rb\<lparr>strip_size_shift := x, blocklen_shift := y, blocklen := z\<rparr>) = raid_view rb"
  "raid_view (rb\<lparr>md_len := a, md_interleave := b\<rparr>) = raid_view rb"
  by (simp_all add: raid_view_def)

lemma configure_md_view [simp]: "raid_view (snd (raid_bdev_configure_md bs rb)) = raid_view rb"
proof -
  have "raid_view (snd (configure_md_loop cs r)) = raid_view r" for cs r by (induction cs) auto
  then show ?thesis by (simp add: raid_bdev_configure_md_def split: list.split)
qed

lemma go_online_view:
  assumes km: "module_keeps m" and c: "raid_bdev_go_online env m rb w = (rc, rb', w')"
  shows "raid_view rb' = raid_view rb \<and> g_raid_bdev_list w' = g_raid_bdev_list w \<and>
    rb_state rb' = (if rc = 0 then RAID_BDEV_STATE_ONLINE else RAID_BDEV_STATE_CONFIGURING)"
proof -
  let ?rb = "rb\<lparr>rb_state := RAID_BDEV_STATE_ONLINE\<rparr>"
  obtain sd r6 where sp: "(case mod_stop m of None \<Rightarrow> (True, ?rb) | Some stop \<Rightarrow> stop ?rb) = (sd, r6)"
    by fastforce
  have "raid_view r6 = raid_view rb"
  proof (cases "mod_stop m")
    case (Some stop)
    then have "same_slots ?rb (snd (stop ?rb))" using km by (simp add: module_keeps_def)
    then show ?thesis using sp Some same_slots_view[of ?rb r6] by simp
  qed (use sp in auto)
  then show ?thesis
    using c sp unfolding raid_bdev_go_online_def Let_def by (auto split: if_splits)
qed

lemma configure_view:
  assumes ms: "\<forall>m \<in> set (g_raid_modules w). module_keeps m"
    and st: "rb_state rb = RAID_BDEV_STATE_CONFIGURING" and c: "raid_bdev_configure env rb w = (rc, rb', w')"
  shows "raid_view rb' = raid_view rb \<and> g_raid_bdev_list w' = g_raid_bdev_list w \<and>
    rb_state rb' = (if rc = 0 then RAID_BDEV_STATE_ONLINE else RAID_BDEV_STATE_CONFIGURING)"
proof (cases "common_blocklen 0 (base_bdevs_of env rb)")
  case None
  then show ?thesis using c st by (auto simp: raid_bdev_configure_def)
next
  case (Some blen)
  define r1 where "r1 = rb\<lparr>strip_size := (strip_size_kb rb * 1024) div blen\<rparr>"
  define r2 where "r2 = r1\<lparr>strip_size_shift := spdk_u32log2 env (strip_size r1),
                          blocklen_shift := spdk_u32log2 env blen, blocklen := blen\<rparr>"
  obtain rc3 r3 where md: "raid_bdev_configure_md (base_bdevs_of env r2) r2 = (rc3, r3)" by fastforce
  have v3: "raid_view r3 = raid_view rb" "rb_state r3 = RAID_BDEV_STATE_CONFIGURING"
    using configure_md_view[of "base_bdevs_of env r2" r2] configure_md_state(1)[of "base_bdevs_of env r2" r2] st
    unfolding md by (simp_all add: r2_def r1_def)
  note unf = raid_bdev_configure_def Some option.case Let_def r1_def[symmetric] r2_def[symmetric] md prod.case
  show ?thesis
  proof (cases "(strip_size r1 = 0 \<and> rb_level r1 \<noteq> RAID1) \<or> rc3 \<noteq> 0 \<or> rb_module_of w r3 = None")
    case True
    then show ?thesis using c st v3 unfolding unf by (auto simp: r1_def split: if_splits)
  next
    case False
    then obtain m where m: "rb_module_of w r3 = Some m" by auto
    have km: "module_keeps m" using ms m module_find_in by (auto simp: rb_module_of_def)
    obtain rc4 r4 where s: "mod_start m r3 = (rc4, r4)" by fastforce
    then have "same_slots r3 r4" using km by (metis module_keeps_def snd_conv)
    note v4 = same_slots_view[OF this]
    show ?thesis
      using c False m s v3 v4 go_online_view[OF km, of env r4 w rc rb' w'] unfolding unf
      by (auto split: if_splits)
  qed
qed

text \<open>The last raid bdev of the list, while its base bdevs are added.\<close>

lemma w_update_last:
  assumes "g_raid_bdev_list w = old @ [rb]" and "rb_name rb \<notin> set (map rb_name old)" and "rb_name rb' = rb_name rb"
  shows "g_raid_bdev_list (w_update rb' w) = old @ [rb']"
proof -
  have "map (\<lambda>r. if rb_name r = rb_name rb' then rb' else r) old = old"
    using assms(2,3) by (intro map_idI) (auto simp: image_iff)
  then show ?thesis using assms by (simp add: w_update_def)
qed

lemma find_last:
  "g_raid_bdev_list w = old @ [rb] \<Longrightarrow> rb_name rb \<notin> set (map rb_name old) \<Longrightarrow>
     raid_bdev_find_by_name (rb_name rb) w = Some rb"
proof -
  have "rb_name rb \<notin> set (map rb_name old) \<Longrightarrow> List.find (\<lambda>r. rb_name r = rb_name rb) (old @ [rb]) = Some rb"
    by (induction old) auto
  then show "g_raid_bdev_list w = old @ [rb] \<Longrightarrow> rb_name rb \<notin> set (map rb_name old) \<Longrightarrow> ?thesis"
    by (simp add: raid_bdev_find_by_name_def)
qed

text \<open>What stays of a raid bdev when the slot \<open>i\<close> gets the base bdev \<open>d\<close>.\<close>

definition slot_added :: "nat \<Rightarrow> string \<Rightarrow> raid_bdev \<Rightarrow> raid_bdev \<Rightarrow> bool" where
  "slot_added i d rb rb' \<longleftrightarrow>
     rb_name rb' = rb_name rb \<and> rb_uuid rb' = rb_uuid rb \<and> num_base_bdevs rb' = num_base_bdevs rb \<and> destroy_started rb' = destroy_started rb \<and>
     rb_level rb' = rb_level rb \<and> strip_size_kb rb' = strip_size_kb rb \<and> superblock_enabled rb' = superblock_enabled rb \<and>
     map bi_name (base_bdev_info rb') = (map bi_name (base_bdev_info rb))[i := Some d]"

lemma view_slot_added:
  assumes "raid_view rb' = raid_view rb1" and "slot_added i d rb rb1"
  shows "slot_added i d rb rb'"
proof -
  have "map bi_name (base_bdev_info r) = map fst (map slot_view (base_bdev_info r))" for r
    by (simp add: slot_view_def comp_def)
  then show ?thesis using assms unfolding slot_added_def raid_view_def by (metis prod.inject)
qed

lemma configure_base_bdev_last:
  assumes ms: "\<forall>m \<in> set (g_raid_modules w). module_keeps m"
    and list: "g_raid_bdev_list w = old @ [rb]" and old: "rb_name rb \<notin> set (map rb_name old)"
    and st: "rb_state rb = RAID_BDEV_STATE_CONFIGURING" and i: "i < length (base_bdev_info rb)"
    and nm: "bi_name (base_bdev_info rb ! i) = Some d"
    and run: "raid_bdev_configure_base_bdev env rb i w = (rc, w')"
  shows "\<exists>rb'. g_raid_bdev_list w' = old @ [rb'] \<and> slot_added i d rb rb' \<and>
    rb_state rb' \<in> {RAID_BDEV_STATE_ONLINE, RAID_BDEV_STATE_CONFIGURING} \<and>
    (rc \<noteq> 0 \<longrightarrow> rb_state rb' = RAID_BDEV_STATE_CONFIGURING) \<and>
    (rb_state rb' = RAID_BDEV_STATE_ONLINE \<longrightarrow> num_base_bdevs_discovered rb' = num_base_bdevs rb')"
proof (cases "env_open_rc env d \<noteq> 0 \<or> env_claim_rc env d \<noteq> 0")
  case True
  have "slot_added i d rb rb" using i nm by (auto simp: slot_added_def intro!: nth_equalityI simp: nth_list_update)
  then show ?thesis using True run nm list st
    by (intro exI[of _ rb]) (auto simp: raid_bdev_configure_base_bdev_def Let_def w_emit_def split: if_splits)
next
  case False
  define b where "b = env_bdev env d"
  define w1 where "w1 = w_emit [LogClaim d] w"
  define r1 where "r1 = (update_info i
      (\<lambda>info. info\<lparr>bi_desc := Some d, bi_blockcnt := bd_blockcnt b, data_offset := 0,
                 data_size := bd_blockcnt b\<rparr>) rb)
      \<lparr>num_base_bdevs_discovered := num_base_bdevs_discovered rb + 1\<rparr>"
  define off where "off = raid_base_data_offset env b"
  define r2 where "r2 = (if superblock_enabled r1
      then update_info i (\<lambda>info. info\<lparr>data_offset := off\<rparr>) r1 else r1)"
  define r3 where "r3 = (if superblock_enabled r2
      then update_info i (\<lambda>info. info\<lparr>data_size := bd_blockcnt b - off\<rparr>) r2 else r2)"
  obtain rc4 r4 w4 where cf: "raid_bdev_configure env r3 w1 = (rc4, r4, w4)" by (metis prod_cases3)
  have eq: "raid_bdev_configure_base_bdev env rb i w =
      (if superblock_enabled r2 \<and> off \<ge> bd_blockcnt b then (- EINVAL, w_update r2 w1)
       else if num_base_bdevs_discovered r3 = num_base_bdevs r3 then (rc4, w_update r4 w4)
       else (0, w_update r3 w1))"
    using False nm cf
    unfolding raid_bdev_configure_base_bdev_def Let_def
    by (cases "superblock_enabled r1"; simp add: b_def[symmetric] w1_def[symmetric]
        r1_def[symmetric] off_def[symmetric] r2_def r3_def)
  have names: "slot_added i d rb r1" "slot_added i d rb r2" "slot_added i d rb r3"
    using i nm by (auto simp: slot_added_def r1_def r2_def r3_def update_info_def intro!: nth_equalityI simp: nth_list_update)
  have st3: "rb_state r2 = RAID_BDEV_STATE_CONFIGURING" "rb_state r3 = RAID_BDEV_STATE_CONFIGURING"
    using st by (simp_all add: r1_def r2_def r3_def)
  have l1: "g_raid_bdev_list w1 = old @ [rb]" "\<forall>m \<in> set (g_raid_modules w1). module_keeps m"
    using list ms by (simp_all add: w1_def w_emit_def)
  note v4 = configure_view[OF l1(2) st3(2) cf]
  have names4: "slot_added i d rb r4" using view_slot_added[OF conjunct1[OF v4] names(3)] .
  have up: "g_raid_bdev_list (w_update r w1) = old @ [r]" if "slot_added i d rb r" for r
    using w_update_last[OF l1(1) old] that by (simp add: slot_added_def)
  have up4: "g_raid_bdev_list (w_update r4 w4) = old @ [r4]"
    using w_update_last[of w4 old rb r4] v4 l1(1) old names4 by (simp add: slot_added_def)
  have disc4: "num_base_bdevs_discovered r4 = num_base_bdevs r4"
    if "num_base_bdevs_discovered r3 = num_base_bdevs r3"
    using that v4 by (simp add: raid_view_def)
  show ?thesis
    using run unfolding eq
    using names names4 st3 v4 up up4 disc4 by (auto split: if_splits)
qed


lemma add_base_device_last:
  assumes inv: "raid_inv serial w" and list: "g_raid_bdev_list w = old @ [rb]"
    and st: "rb_state rb = RAID_BDEV_STATE_CONFIGURING" and i: "i < unat (num_base_bdevs rb)"
    and free: "bi_name (base_bdev_info rb ! i) = None"
    and run: "raid_bdev_add_base_device env rb d (of_nat i) w = (rc, w')"
  shows "\<exists>rb'. g_raid_bdev_list w' = old @ [rb'] \<and> (rb' = rb \<and> rc = - ENOMEM \<or> slot_added i d rb rb') \<and>
    rb_state rb' \<in> {RAID_BDEV_STATE_ONLINE, RAID_BDEV_STATE_CONFIGURING} \<and>
    (rc \<noteq> 0 \<longrightarrow> rb_state rb' = RAID_BDEV_STATE_CONFIGURING) \<and>
    (rb_state rb' = RAID_BDEV_STATE_ONLINE \<longrightarrow> num_base_bdevs_discovered rb' = num_base_bdevs rb')"
proof -
  let ?rb = "update_info i (\<lambda>info. info\<lparr>bi_name := Some d\<rparr>) rb"
  have rb: "rb \<in> set (g_raid_bdev_list w)" using list by simp
  have ok: "slots_ok rb" by (rule raid_inv_slots[OF inv rb])
  have len: "i < length (base_bdev_info rb)" using ok i by (simp add: slots_ok_def)
  have old: "rb_name rb \<notin> set (map rb_name old)"
    using raid_inv_ok[OF inv] list by (simp add: raid_world_ok_def)
  have "i < 256" using i unat_u8_less[of "num_base_bdevs rb"] by linarith
  then have i8: "unat (of_nat i :: u8) = i" by (simp add: unat_of_nat)
  have lt: "\<not> of_nat i \<ge> num_base_bdevs rb" using i i8 by (simp add: word_le_nat_alt)
  show ?thesis
  proof (cases "env_strdup env d")
    case False
    then show ?thesis using run list st free lt i8 by (auto simp: raid_bdev_add_base_device_def)
  next
    case True
    have "raid_bdev_configure_base_bdev env ?rb i (w_update ?rb w) = (rc, w')"
      using run True free lt i8 by (simp add: raid_bdev_add_base_device_def Let_def)
    moreover have "g_raid_bdev_list (w_update ?rb w) = old @ [?rb]" by (rule w_update_last[OF list old]) simp
    moreover have "\<forall>m \<in> set (g_raid_modules (w_update ?rb w)). module_keeps m"
      using raid_inv_modules[OF inv] by (simp add: w_update_def)
    ultimately obtain rb' where rb': "g_raid_bdev_list w' = old @ [rb']" "slot_added i d ?rb rb'"
        "rb_state rb' \<in> {RAID_BDEV_STATE_ONLINE, RAID_BDEV_STATE_CONFIGURING}"
        "rc \<noteq> 0 \<longrightarrow> rb_state rb' = RAID_BDEV_STATE_CONFIGURING"
        "rb_state rb' = RAID_BDEV_STATE_ONLINE \<longrightarrow> num_base_bdevs_discovered rb' = num_base_bdevs rb'"
      using configure_base_bdev_last[of "w_update ?rb w" old ?rb i d env rc w'] old st len by auto
    have "slot_added i d rb rb'"
      using rb'(2) len by (simp add: slot_added_def update_info_def map_update)
    then show ?thesis using rb' by blast
  qed
qed

text \<open>A raid bdev that is not online is freed at once.\<close>

lemma delete_last:
  assumes inv: "raid_inv serial w" and list: "g_raid_bdev_list w = old @ [rb]"
    and st: "rb_state rb \<noteq> RAID_BDEV_STATE_ONLINE" and nd: "\<not> destroy_started rb"
  shows "g_raid_bdev_list (raid_bdev_delete rb None w) = old"
proof -
  let ?r0 = "rb\<lparr>destroy_started := True\<rparr>"
  obtain r1 es where l: "delete_loop [0..<length (base_bdev_info ?r0)] ?r0 = (r1, es)" by fastforce
  have rb: "rb \<in> set (g_raid_bdev_list w)" using list by simp
  have ok0: "slots_ok ?r0" using raid_inv_slots[OF inv rb] by simp
  have e1: "evolves ?r0 r1 es" using delete_loop_evolves[OF ok0 _ l] by simp
  then have nm1: "rb_name r1 = rb_name rb" by (simp add: evolves_def)
  have old: "rb_name rb \<notin> set (map rb_name old)"
    using raid_inv_ok[OF inv] list by (simp add: raid_world_ok_def)
  have "num_base_bdevs_discovered r1 = 0" using delete_loop_closed[OF ok0 _ l] st by simp
  then have eq: "raid_bdev_delete rb None w = raid_bdev_cleanup_and_free (rb_name rb) (w_emit es (w_update r1 w))"
    using nd l nm1 by (simp add: raid_bdev_delete_def Let_def raid_callback_def)
  have "filter (\<lambda>r. rb_name r \<noteq> rb_name rb) old = old" using old by (auto simp: filter_id_conv image_iff)
  then show ?thesis
    using w_update_last[OF list old nm1] nm1 by (simp add: eq raid_bdev_cleanup_and_free_def w_emit_def)
qed

text \<open>The fields that a request gives to a raid bdev.\<close>

definition raid_as_asked :: "rpc_bdev_raid_create_req \<Rightarrow> raid_bdev \<Rightarrow> bool" where
  "raid_as_asked req rb \<longleftrightarrow>
     rb_name rb = rq_name req \<and> rb_uuid rb = rq_uuid req \<and> rb_level rb = rq_level req \<and> strip_size_kb rb = rq_strip_size_kb req \<and>
     superblock_enabled rb = rq_superblock req \<and> unat (num_base_bdevs rb) = length (rq_base_bdevs req)"

lemma add_base_bdevs_outcome:
  assumes "raid_inv serial w" and "g_raid_bdev_list w = old @ [rb]" and "raid_as_asked req rb"
    and "rb_state rb = RAID_BDEV_STATE_CONFIGURING" and "\<not> destroy_started rb"
    and "rq_base_bdevs req = bs @ cs" and "map bi_name (base_bdev_info rb) = map Some bs @ replicate (length cs) None"
    and "add_base_bdevs env (rq_name req) cs (length bs) w = (fail, w')"
  shows "raid_inv serial w' \<and> (case fail of
      Some (rc, d) \<Rightarrow> rc \<noteq> 0 \<and> d \<in> set (rq_base_bdevs req) \<and> g_raid_bdev_list w' = old
    | None \<Rightarrow> \<exists>rb'. g_raid_bdev_list w' = old @ [rb'] \<and> raid_as_asked req rb' \<and>
        map bi_name (base_bdev_info rb') = map Some (rq_base_bdevs req) \<and>
        rb_state rb' \<in> {RAID_BDEV_STATE_ONLINE, RAID_BDEV_STATE_CONFIGURING})"
  using assms
proof (induction cs arbitrary: bs rb w)
  case Nil
  then show ?case by auto
next
  case (Cons d cs)
  let ?i = "length bs"
  have nm: "rb_name rb = rq_name req" and num: "unat (num_base_bdevs rb) = length bs + Suc (length cs)"
    using Cons.prems(3,6) by (simp_all add: raid_as_asked_def)
  have old: "rb_name rb \<notin> set (map rb_name old)"
    using raid_inv_ok[OF Cons.prems(1)] Cons.prems(2) by (simp add: raid_world_ok_def)
  have found: "raid_bdev_find_by_name (rq_name req) w = Some rb" using find_last[OF Cons.prems(2) old] nm by simp
  have free: "bi_name (base_bdev_info rb ! ?i) = None"
    using Cons.prems(7) by (metis length_Cons length_append length_map length_replicate less_add_same_cancel1
        nth_append_length nth_map replicate_Suc zero_less_Suc)
  obtain rc w1 where add: "raid_bdev_add_base_device env rb d (of_nat ?i) w = (rc, w1)" by fastforce
  have inv1: "raid_inv serial w1"
    using add_base_device_inv[OF Cons.prems(1) _ Cons.prems(4), of env d "of_nat ?i"] Cons.prems(2) add by simp
  obtain rb1 where rb1: "g_raid_bdev_list w1 = old @ [rb1]"
      "rb1 = rb \<and> rc = - ENOMEM \<or> slot_added ?i d rb rb1"
      "rb_state rb1 \<in> {RAID_BDEV_STATE_ONLINE, RAID_BDEV_STATE_CONFIGURING}"
      "rc \<noteq> 0 \<longrightarrow> rb_state rb1 = RAID_BDEV_STATE_CONFIGURING"
      "rb_state rb1 = RAID_BDEV_STATE_ONLINE \<longrightarrow> num_base_bdevs_discovered rb1 = num_base_bdevs rb1"
    using add_base_device_last[OF Cons.prems(1,2,4) _ free add] num by auto
  have nd1: "\<not> destroy_started rb1" and asked1: "raid_as_asked req rb1"
    using rb1(2) Cons.prems(3,5) by (auto simp: slot_added_def raid_as_asked_def)
  have old1: "rb_name rb1 \<notin> set (map rb_name old)"
    using raid_inv_ok[OF inv1] rb1(1) by (simp add: raid_world_ok_def)
  have found1: "raid_bdev_find_by_name (rq_name req) w1 = Some rb1"
    using find_last[OF rb1(1) old1] asked1 by (simp add: raid_as_asked_def)
  show ?case
  proof (cases "rc = - ENODEV \<or> rc = 0")
    case False
    have "g_raid_bdev_list (raid_bdev_delete rb1 None w1) = old"
      by (rule delete_last[OF inv1 rb1(1) _ nd1]) (use False rb1(4) in simp)
    moreover have "raid_inv serial (raid_bdev_delete rb1 None w1)"
      by (rule delete_inv[OF inv1]) (simp add: rb1(1))
    ultimately show ?thesis using Cons.prems(6,8) False add found found1 by auto
  next
    case True
    then have added: "slot_added ?i d rb rb1" using rb1(2) by auto
    have names1: "map bi_name (base_bdev_info rb1) = map Some (bs @ [d]) @ replicate (length cs) None"
      using added Cons.prems(7) by (simp add: slot_added_def list_update_append)
    have run1: "add_base_bdevs env (rq_name req) cs (length (bs @ [d])) w1 = (fail, w')"
      using Cons.prems(8) True add found by (auto split: if_splits)
    have st1: "rb_state rb1 = RAID_BDEV_STATE_CONFIGURING" if "cs \<noteq> []"
    proof (rule ccontr)
      assume "rb_state rb1 \<noteq> RAID_BDEV_STATE_CONFIGURING"
      then have "num_base_bdevs_discovered rb1 = num_base_bdevs rb1" using rb1(3,5) by auto
      moreover have "slots_ok rb1" using raid_inv_slots[OF inv1] rb1(1) by simp
      ultimately have "None \<notin> set (map bi_name (base_bdev_info rb1))" using all_slots_open by fastforce
      then show False using names1 that by (auto simp: neq_Nil_conv)
    qed
    show ?thesis
    proof (cases cs)
      case Nil
      then show ?thesis using run1 rb1(1,3) asked1 names1 Cons.prems(6) inv1 by auto
    next
      case (Cons c cs')
      then show ?thesis
        using Cons.IH[OF inv1 rb1(1) asked1 st1 nd1 _ names1 run1] Cons.prems(6) by simp
    qed
  qed
qed


subsection \<open>The requests\<close>

lemma rpc_create_outcome:
  assumes "\<forall>m \<in> set ms. module_keeps m" and "raid_reach serial ms w"
    and fresh: "\<forall>req. rpc_bdev_raid_create_decode parse params = Some req \<longrightarrow>
      (\<forall>p \<in> set (w_pending w). pend_name p \<noteq> rq_name req)"
    and run: "rpc_bdev_raid_create env parse strerror params w = (answer, w')"
  shows "(\<exists>code msg. answer = RpcError code msg) \<and> g_raid_bdev_list w' = g_raid_bdev_list w \<and>
      claims (w_log w') + releases (w_log w) = claims (w_log w) + releases (w_log w') \<or>
    answer = RpcBool True \<and>
      (\<exists>req rb. rpc_bdev_raid_create_decode parse params = Some req \<and> g_raid_bdev_list w' = g_raid_bdev_list w @ [rb] \<and>
         raid_as_asked req rb \<and> map bi_name (base_bdev_info rb) = map Some (rq_base_bdevs req) \<and>
         rb_state rb \<in> {RAID_BDEV_STATE_ONLINE, RAID_BDEV_STATE_CONFIGURING})"
proof (cases "rpc_bdev_raid_create_decode parse params")
  case None
  then show ?thesis using run by (auto simp: rpc_bdev_raid_create_def rpc_parse_error_def)
next
  case (Some req)
  note inv = raid_reach_inv[OF assms(1,2)]
  let ?num = "of_nat (length (rq_base_bdevs req)) :: u8"
  have "length (rq_base_bdevs req) \<le> RPC_MAX_BASE_BDEVS"
    using Some by (auto simp: rpc_bdev_raid_create_decode_def decode_base_bdevs_def split: option.splits if_splits)
  then have num: "unat ?num = length (rq_base_bdevs req)" by (simp add: unat_of_nat)
  show ?thesis
  proof (cases rule: create_cases[of env "rq_name req" "rq_strip_size_kb req" ?num "rq_level req" "rq_superblock req" "rq_uuid req" w])
    case (failed rc)
    then show ?thesis using run Some by (auto simp: rpc_bdev_raid_create_def)
  next
    case (created mo)
    let ?rb = "raid_new_bdev (rq_name req) (rq_strip_size_kb req) ?num (rq_level req) (rq_superblock req) (rq_uuid req) mo"
    let ?w = "w\<lparr>g_raid_bdev_list := g_raid_bdev_list w @ [?rb]\<rparr>"
    have inv1: "raid_inv serial ?w"
      using create_inv[OF inv, of "rq_name req"] fresh Some created(1) by (metis snd_conv)
    obtain fail w1 where add: "add_base_bdevs env (rq_name req) (rq_base_bdevs req) 0 ?w = (fail, w1)" by fastforce
    have out: "raid_inv serial w1 \<and> (case fail of
          Some (rc, d) \<Rightarrow> rc \<noteq> 0 \<and> d \<in> set (rq_base_bdevs req) \<and> g_raid_bdev_list w1 = g_raid_bdev_list w
        | None \<Rightarrow> \<exists>rb'. g_raid_bdev_list w1 = g_raid_bdev_list w @ [rb'] \<and> raid_as_asked req rb' \<and>
            map bi_name (base_bdev_info rb') = map Some (rq_base_bdevs req) \<and>
            rb_state rb' \<in> {RAID_BDEV_STATE_ONLINE, RAID_BDEV_STATE_CONFIGURING})"
      using add_base_bdevs_outcome[OF inv1, of "g_raid_bdev_list w" ?rb req "[]" "rq_base_bdevs req" env fail w1] add num
      by (simp add: raid_new_bdev_def raid_as_asked_def zero_raid_bdev_def zero_base_bdev_info_def)
    show ?thesis
    proof (cases fail)
      case None
      then show ?thesis using run Some created(1) add out by (simp add: rpc_bdev_raid_create_def)
    next
      case (Some f)
      have "owned w + releases (w_log w) = claims (w_log w)" "owned w1 + releases (w_log w1) = claims (w_log w1)"
        using inv out by (simp_all add: raid_inv_def raid_world_ok_def)
      moreover have "owned w1 = owned w" using out Some by (auto simp: owned_def)
      ultimately have "claims (w_log w1) + releases (w_log w) = claims (w_log w) + releases (w_log w1)"
        by (metis add.commute add.left_commute)
      then show ?thesis
        using run \<open>rpc_bdev_raid_create_decode parse params = Some req\<close> created(1) add out Some
        by (cases f) (auto simp: rpc_bdev_raid_create_def)
    qed
  qed
qed

text \<open>C33: a request to create a raid bdev is carried out or undone. When it answers with an error, whether
  in its parameters, in the creation or in one of the base bdevs, the list of raid bdevs is as it was
  before, and as many base bdevs have been released as were claimed. When it answers true, there is
  one more raid bdev, at the end of the list, with the name, UUID, level, strip size and number of base
  bdevs asked for, and every slot has its base bdev or waits for it by its name.\<close>

theorem raid_rpc_create_all_or_nothing:
  assumes "\<forall>m \<in> set ms. module_keeps m" and "raid_reach serial ms w"
    and fresh: "\<forall>req. rpc_bdev_raid_create_decode parse params = Some req \<longrightarrow>
      (\<forall>p \<in> set (w_pending w). pend_name p \<noteq> rq_name req)"
    and run: "rpc_bdev_raid_create env parse strerror params w = (answer, w')"
  shows "(\<exists>code msg. answer = RpcError code msg) \<and> g_raid_bdev_list w' = g_raid_bdev_list w \<and>
      claims (w_log w') + releases (w_log w) = claims (w_log w) + releases (w_log w') \<or>
    answer = RpcBool True \<and>
      (\<exists>req rb. rpc_bdev_raid_create_decode parse params = Some req \<and> g_raid_bdev_list w' = g_raid_bdev_list w @ [rb] \<and>
         raid_as_asked req rb \<and> map bi_name (base_bdev_info rb) = map Some (rq_base_bdevs req) \<and>
         rb_state rb \<in> {RAID_BDEV_STATE_ONLINE, RAID_BDEV_STATE_CONFIGURING})"
  by (rule rpc_create_outcome[OF assms])

text \<open>The list of raid bdevs: an unknown category is an error; otherwise the answer is one well-formed JSON
  array with exactly the raid bdevs of the category, all of them for "all", in the order of the list,
  each with its name.\<close>

theorem raid_rpc_get_bdevs_lists:
  "case params of
     None \<Rightarrow> rpc_bdev_raid_get_bdevs strerror fmt params w = rpc_parse_error
   | Some category \<Rightarrow>
       if category = ''all'' \<or> raid_bdev_str_to_state category \<noteq> RAID_BDEV_STATE_MAX
       then \<exists>cs. rpc_bdev_raid_get_bdevs strerror fmt params w = RpcResult cs \<and> json_value cs \<and>
         List.map_filter (named_string ''name'') cs =
         map rb_name (filter (\<lambda>rb. raid_bdev_str_to_state category \<in> {RAID_BDEV_STATE_MAX, rb_state rb}) (g_raid_bdev_list w))
       else rpc_bdev_raid_get_bdevs strerror fmt params w = RpcError (- EINVAL) (strerror EINVAL)"
proof (cases params)
  case None
  then show ?thesis by (simp add: rpc_bdev_raid_get_bdevs_def)
next
  case (Some category)
  let ?name = "named_string ''name''"
  let ?item = "\<lambda>rb. [JObjectBegin, JNamedString ''name'' (rb_name rb)] @ raid_bdev_write_info_json fmt rb @ [JObjectEnd]"
  have slots: "List.map_filter ?name (concat (map (\<lambda>info. case bi_desc info of Some d \<Rightarrow> [JString d] | None \<Rightarrow> [JNull]) infos)) = []"
    for infos by (induction infos) (auto simp: List.map_filter_simps split: option.split)
  have info: "List.map_filter ?name (raid_bdev_write_info_json fmt rb) = []" for rb
    using slots[of "base_bdev_info rb"]
    by (simp add: raid_bdev_write_info_json_def map_filter_append List.map_filter_simps)
  have items: "List.map_filter ?name (concat (map (\<lambda>rb. if p rb then ?item rb else []) rbs)) = map rb_name (filter p rbs)"
    for p rbs
    by (induction rbs) (simp_all add: map_filter_append info List.map_filter_simps)
  have all: "raid_bdev_str_to_state ''all'' = RAID_BDEV_STATE_MAX" by code_simp
  show ?thesis
    using Some all items get_bdevs_value[of strerror fmt params w]
    by (auto simp: rpc_bdev_raid_get_bdevs_def Let_def map_filter_append List.map_filter_simps eq_commute)
qed


subsection \<open>The dump of a raid bdev as a request\<close>

text \<open>What the JSON library finds in the dump: the members by their names, the strings of the array.\<close>

definition named_uint :: "string \<Rightarrow> json_call \<Rightarrow> nat option" where
  "named_uint k c = (case c of JNamedUint k' n \<Rightarrow> if k' = k then Some n else None | _ \<Rightarrow> None)"

definition named_bool :: "string \<Rightarrow> json_call \<Rightarrow> bool option" where
  "named_bool k c = (case c of JNamedBool k' b \<Rightarrow> if k' = k then Some b else None | _ \<Rightarrow> None)"

definition array_string :: "json_call \<Rightarrow> string option" where
  "array_string c = (case c of JString s \<Rightarrow> Some s | _ \<Rightarrow> None)"

definition first_member :: "(json_call \<Rightarrow> 'a option) \<Rightarrow> json_call list \<Rightarrow> 'a option" where
  "first_member f cs = (case List.map_filter f cs of [] \<Rightarrow> None | v # _ \<Rightarrow> Some v)"

definition array_items :: "string \<Rightarrow> json_call list \<Rightarrow> json_call list" where
  "array_items k cs = takeWhile (\<lambda>c. c \<noteq> JArrayEnd) (tl (dropWhile (\<lambda>c. c \<noteq> JNamedArrayBegin k) cs))"

text \<open>The dump as the parameters of \<open>bdev_raid_create\<close>, if it is such a request.\<close>

definition config_members :: "json_call list \<Rightarrow> raid_create_members option" where
  "config_members cs =
     (if first_member (named_string ''method'') cs \<noteq> Some ''bdev_raid_create'' then None
      else
        (case (first_member (named_string ''name'') cs, first_member (named_string ''raid_level'') cs) of
           (Some name, Some level) \<Rightarrow>
             Some \<lparr>m_name = name,
                   m_strip_size_kb = map_option of_nat (first_member (named_uint ''strip_size_kb'') cs),
                   m_raid_level = level,
                   m_base_bdevs = List.map_filter array_string (array_items ''base_bdevs'' cs),
                   m_uuid = first_member (named_string ''uuid'') cs,
                   m_superblock = first_member (named_bool ''superblock'') cs\<rparr>
         | _ \<Rightarrow> None))"

lemma level_round_trip:
  "level \<noteq> INVALID_RAID_LEVEL \<Longrightarrow> raid_bdev_str_to_level (raid_bdev_level_to_str level) = level"
proof -
  have "raid_bdev_str_to_level (raid_bdev_level_to_str RAID0) = RAID0"
    and "raid_bdev_str_to_level (raid_bdev_level_to_str RAID1) = RAID1"
    and "raid_bdev_str_to_level (raid_bdev_level_to_str RAID5F) = RAID5F"
    and "raid_bdev_str_to_level (raid_bdev_level_to_str CONCAT) = CONCAT" by code_simp+
  then show "level \<noteq> INVALID_RAID_LEVEL \<Longrightarrow> ?thesis" by (cases level) simp_all
qed

lemma config_members_of:
  assumes "\<not> superblock_enabled rb"
  shows "config_members (raid_bdev_write_config_json fmt rb) = Some
    \<lparr>m_name = rb_name rb, m_strip_size_kb = Some (strip_size_kb rb),
     m_raid_level = raid_bdev_level_to_str (rb_level rb),
     m_base_bdevs = List.map_filter bi_desc (base_bdev_info rb), m_uuid = Some (fmt (rb_uuid rb)),
     m_superblock = Some False\<rparr>"
proof -
  let ?slots = "concat (map (\<lambda>info. case bi_desc info of Some d \<Rightarrow> [JString d] | None \<Rightarrow> []) (base_bdev_info rb))"
  have "List.map_filter array_string (concat (map (\<lambda>info. case bi_desc info of Some d \<Rightarrow> [JString d] | None \<Rightarrow> []) infos)) =
      List.map_filter bi_desc infos" for infos
    by (induction infos) (auto simp: List.map_filter_simps array_string_def split: option.split)
  moreover have "takeWhile (\<lambda>c. c \<noteq> JArrayEnd) (?slots @ JArrayEnd # cs) = ?slots" for cs
    by (subst takeWhile_append2) (auto split: option.splits)
  ultimately show ?thesis
    using assms
    by (simp add: config_members_def raid_bdev_write_config_json_def array_items_def first_member_def
        named_uint_def named_bool_def map_filter_append List.map_filter_simps)
qed

text \<open>C34: the dump of a raid bdev without superblock, taken as a request to create one, is either refused,
  and then nothing is changed, or makes a raid bdev with the same name, UUID, level and strip size and
  without superblock; its slots are those of the base bdevs that are open now, in their order. It has as
  many slots as before when all base bdevs are there. A raid bdev that has lost a base bdev is dumped as a
  smaller one: a raid5f bdev of four base bdevs, one of them lost, comes back as one of three, with another
  layout of the data. It is always refused when fewer base bdevs are open than its level needs: a raid5f
  bdev of three or a mirror of two that has lost a base bdev does not come back.\<close>

theorem raid_config_round_trip:
  assumes "\<forall>m \<in> set ms. module_keeps m" and "raid_reach serial ms w"
    and "\<forall>p \<in> set (w_pending w). pend_name p \<noteq> rb_name rb"
    and rb: "slots_ok rb" "\<not> superblock_enabled rb" "rb_level rb \<noteq> INVALID_RAID_LEVEL"
    and uuid: "parse (fmt (rb_uuid rb)) = Some (rb_uuid rb)"
    and run: "rpc_bdev_raid_create env parse strerror (config_members (raid_bdev_write_config_json fmt rb)) w =
      (answer, w')"
  shows "json_elements (raid_bdev_write_config_json fmt rb) \<and>
    ((\<exists>code msg. answer = RpcError code msg) \<and> g_raid_bdev_list w' = g_raid_bdev_list w \<and>
       claims (w_log w') + releases (w_log w) = claims (w_log w) + releases (w_log w') \<or>
     answer = RpcBool True \<and>
       (\<exists>rb'. g_raid_bdev_list w' = g_raid_bdev_list w @ [rb'] \<and> rb_name rb' = rb_name rb \<and>
          rb_uuid rb' = rb_uuid rb \<and> rb_level rb' = rb_level rb \<and> strip_size_kb rb' = strip_size_kb rb \<and>
          \<not> superblock_enabled rb' \<and>
          map bi_name (base_bdev_info rb') = map Some (List.map_filter bi_desc (base_bdev_info rb)) \<and>
          num_base_bdevs rb' = num_base_bdevs_discovered rb)) \<and>
    (\<forall>m. raid_bdev_module_find (g_raid_modules w) (rb_level rb) = Some m \<longrightarrow>
       num_base_bdevs_discovered rb < base_bdevs_min m \<longrightarrow> answer \<noteq> RpcBool True)"
proof -
  let ?params = "config_members (raid_bdev_write_config_json fmt rb)"
  let ?req = "\<lparr>rq_name = rb_name rb, rq_strip_size_kb = strip_size_kb rb, rq_level = rb_level rb,
    rq_base_bdevs = List.map_filter bi_desc (base_bdev_info rb), rq_uuid = rb_uuid rb, rq_superblock = False\<rparr>"
  have disc: "length (List.map_filter bi_desc (base_bdev_info rb)) = unat (num_base_bdevs_discovered rb)"
    using rb(1) by (simp add: slots_ok_def raid_descs_def)
  then have few: "length (List.map_filter bi_desc (base_bdev_info rb)) \<le> RPC_MAX_BASE_BDEVS"
    using unat_u8_less[of "num_base_bdevs_discovered rb"] by linarith
  have dec: "rpc_bdev_raid_create_decode parse ?params = Some ?req"
    using few level_round_trip[OF rb(3)] rb(3) uuid
    by (simp add: config_members_of[OF rb(2)] rpc_bdev_raid_create_decode_def decode_raid_level_def
        decode_base_bdevs_def decode_uuid_def)
  have fresh: "\<forall>req. rpc_bdev_raid_create_decode parse ?params = Some req \<longrightarrow>
      (\<forall>p \<in> set (w_pending w). pend_name p \<noteq> rq_name req)"
    using assms(3) by (simp add: dec)
  have num: "of_nat (length (List.map_filter bi_desc (base_bdev_info rb))) = num_base_bdevs_discovered rb"
    by (simp add: disc)
  have refused: "answer \<noteq> RpcBool True"
    if "raid_bdev_module_find (g_raid_modules w) (rb_level rb) = Some m" "num_base_bdevs_discovered rb < base_bdevs_min m"
    for m
  proof -
    have "fst (raid_bdev_create env (rb_name rb) (strip_size_kb rb) (num_base_bdevs_discovered rb) (rb_level rb)
        False (rb_uuid rb) w) \<noteq> 0"
      using that by (simp add: raid_bdev_create_def)
    then show ?thesis using run by (auto simp: rpc_bdev_raid_create_def dec num split: prod.splits)
  qed
  show ?thesis
    using rpc_create_outcome[OF assms(1,2) fresh run] dec disc config_json_value refused
    by (auto simp: raid_as_asked_def word_unat_eq_iff)
qed

subsection \<open>Concrete requests\<close>

definition rpc_example_members :: "string \<Rightarrow> string list \<Rightarrow> raid_create_members" where
  "rpc_example_members name bases =
     \<lparr>m_name = name, m_strip_size_kb = None, m_raid_level = ''RAID1'', m_base_bdevs = bases, m_uuid = None, m_superblock = None\<rparr>"

text \<open>The second base bdev of the request cannot be claimed.\<close>

definition rpc_example_env :: raid_env where
  "rpc_example_env = life_env\<lparr>env_claim_rc := \<lambda>n. if n = ''d'' then - EPERM else 0\<rparr>"

theorem raid_rpc_create_all_or_nothing_witness:
  "case rpc_bdev_raid_create rpc_example_env (\<lambda>_. None) (\<lambda>_. []) (Some (rpc_example_members ''s'' [''c'', ''d''])) life_mirror of
     (answer, w') \<Rightarrow> (\<exists>code msg. answer = RpcError code msg) \<and> g_raid_bdev_list w' = g_raid_bdev_list life_mirror"
proof -
  let ?p = "Some (rpc_example_members ''s'' [''c'', ''d''])"
  obtain answer w' where run: "rpc_bdev_raid_create rpc_example_env (\<lambda>_. None) (\<lambda>_. []) ?p life_mirror = (answer, w')" by fastforce
  have pend: "w_pending life_mirror = []" by code_simp
  have "answer \<noteq> RpcBool True"
  proof -
    have "fst (rpc_bdev_raid_create rpc_example_env (\<lambda>_. None) (\<lambda>_. []) ?p life_mirror) \<noteq> RpcBool True" by code_simp
    then show ?thesis using run by simp
  qed
  then show ?thesis
    using raid_rpc_create_all_or_nothing[OF mirror_keeps reach_mirror _ run] pend run by auto
qed

theorem raid_rpc_get_bdevs_lists_witness:
  "\<exists>cs. rpc_bdev_raid_get_bdevs (\<lambda>_. []) (\<lambda>_. []) (Some ''online'') life_mirror = RpcResult cs \<and> json_value cs \<and>
     List.map_filter (named_string ''name'') cs = [''r'']"
proof -
  have "raid_bdev_str_to_state ''online'' = RAID_BDEV_STATE_ONLINE" by code_simp
  moreover have "map rb_name (filter (\<lambda>rb. RAID_BDEV_STATE_ONLINE \<in> {RAID_BDEV_STATE_MAX, rb_state rb}) (g_raid_bdev_list life_mirror)) = [''r'']"
    by code_simp
  ultimately show ?thesis
    using raid_rpc_get_bdevs_lists[where params = "Some ''online''" and strerror = "\<lambda>_. []" and fmt = "\<lambda>_. []" and w = life_mirror] by simp
qed

text \<open>The dump of a mirror, replayed on a module without raid bdevs; and the dump of a mirror that has lost its first
  base bdev.\<close>

definition uuid_text :: "uuid \<Rightarrow> string" where
  "uuid_text u = (if u = 0 then ''0'' else ''1'')"

definition uuid_of_text :: "string \<Rightarrow> uuid option" where
  "uuid_of_text str = (if str = ''0'' then Some 0 else None)"

definition life_lost :: raid_world where
  "life_lost = life_removed 0 (snd (raid_bdev_remove_base_bdev life_env ''a'' None life_mirror))"

abbreviation rpc_replay :: "raid_bdev \<Rightarrow> rpc_answer \<times> raid_world" where
  "rpc_replay rb \<equiv> rpc_bdev_raid_create life_env uuid_of_text (\<lambda>_. [])
     (config_members (raid_bdev_write_config_json uuid_text rb)) (raid_initial [g_raid1_module True])"

lemma reach_lost: "raid_reach False [g_raid1_module True] life_lost"
  unfolding life_lost_def
  by (rule reach_removed, rule reach_remove[OF reach_mirror]) (simp, code_simp+)

lemma rpc_replay_outcome:
  assumes w: "raid_reach False [g_raid1_module True] w"
    and rb: "raid_bdev_find_by_name ''r'' w = Some rb" "\<not> superblock_enabled rb" "rb_level rb = RAID1" "rb_uuid rb = 0"
  shows "slots_ok rb" "rb_level rb \<noteq> INVALID_RAID_LEVEL" "uuid_of_text (uuid_text (rb_uuid rb)) = Some (rb_uuid rb)"
    "\<forall>p \<in> set (w_pending (raid_initial [g_raid1_module True])). pend_name p \<noteq> rb_name rb"
  using raid_inv_slots[OF raid_reach_inv[OF mirror_keeps w]] find_name_some[OF rb(1)] rb
  by (simp_all add: uuid_text_def uuid_of_text_def raid_initial_def)

theorem raid_config_round_trip_witness:
  "(case rpc_replay (life_rb life_mirror) of
      (answer, w') \<Rightarrow> answer = RpcBool True \<and>
        (\<exists>rb'. g_raid_bdev_list w' = [rb'] \<and> rb_name rb' = ''r'' \<and> map bi_name (base_bdev_info rb') = [Some ''a'', Some ''b''])) \<and>
   rb_state (life_rb life_lost) = RAID_BDEV_STATE_ONLINE \<and>
   (case rpc_replay (life_rb life_lost) of
      (answer, w') \<Rightarrow> (\<exists>code msg. answer = RpcError code msg) \<and> g_raid_bdev_list w' = [])"
proof -
  have list: "g_raid_bdev_list (raid_initial [g_raid1_module True]) = []" by (simp add: raid_initial_def)
  have "\<exists>w'. rpc_replay (life_rb life_mirror) = (RpcBool True, w') \<and>
      (\<exists>rb'. g_raid_bdev_list w' = [rb'] \<and> rb_name rb' = ''r'' \<and> map bi_name (base_bdev_info rb') = [Some ''a'', Some ''b''])"
  proof -
    have rb: "\<not> superblock_enabled (life_rb life_mirror)" "rb_level (life_rb life_mirror) = RAID1"
      "rb_uuid (life_rb life_mirror) = 0" and nm: "rb_name (life_rb life_mirror) = ''r''"
      and members: "List.map_filter bi_desc (base_bdev_info (life_rb life_mirror)) = [''a'', ''b'']" by code_simp+
    note ok = rpc_replay_outcome[OF reach_mirror find_mirror rb]
    have "fst (rpc_replay (life_rb life_mirror)) = RpcBool True" by code_simp
    then obtain w' where run: "rpc_replay (life_rb life_mirror) = (RpcBool True, w')" by (metis prod.collapse)
    show ?thesis
      using raid_config_round_trip[OF mirror_keeps reach_init ok(4,1) rb(1) ok(2,3) run] run
      unfolding list nm members by auto
  qed
  moreover have "\<exists>answer w'. rpc_replay (life_rb life_lost) = (answer, w') \<and>
      (\<exists>code msg. answer = RpcError code msg) \<and> g_raid_bdev_list w' = []"
  proof -
    have fnd: "raid_bdev_find_by_name ''r'' life_lost = Some (life_rb life_lost)" by (rule life_found) code_simp
    have rb: "\<not> superblock_enabled (life_rb life_lost)" "rb_level (life_rb life_lost) = RAID1"
      "rb_uuid (life_rb life_lost) = 0" by code_simp+
    note ok = rpc_replay_outcome[OF reach_lost fnd rb]
    have few: "case raid_bdev_module_find (g_raid_modules (raid_initial [g_raid1_module True])) (rb_level (life_rb life_lost)) of
        None \<Rightarrow> False | Some m \<Rightarrow> num_base_bdevs_discovered (life_rb life_lost) < base_bdevs_min m" by code_simp
    obtain answer w' where run: "rpc_replay (life_rb life_lost) = (answer, w')" by fastforce
    show ?thesis
      using raid_config_round_trip[OF mirror_keeps reach_init ok(4,1) rb(1) ok(2,3) run] run few
      unfolding list by (auto split: option.splits)
  qed
  moreover have "rb_state (life_rb life_lost) = RAID_BDEV_STATE_ONLINE" by code_simp
  ultimately show ?thesis by auto
qed

end
