(* ===== verification/Hello_App.thy ===== *)
theory Hello_App
  imports Raid_Prelude
begin

text \<open>
  The program \<open>bdev-passthru-compress/hello_world/hello_bdev.c\<close>, which writes a file to a bdev, reads it
  back and stores what it has read in another file. The state holds the program's variables, its two
  buffers, the requests in flight and the bytes of the bdev; what the program gives back and asks of
  the bdev layer is logged. The bdev layer completes the requests in any order. \<open>hello_round_trip\<close>
  states when the output is the input, \<open>hello_refused_write_outcome\<close> what becomes of a run in which a write
  is refused.

  The times that the program measures and the debug output (\<open>PROG_DEBUG\<close> is 0) are left out.
\<close>

subsection \<open>State\<close>

datatype io_workload = STRING | MULTI_BLOCK | LARGE_FILE

datatype hello_ptr = InputData nat | OutputData nat | OwnBuff

datatype hello_cb = WaitWrite | WaitRead

datatype hello_event = HPutChannel | HClose | HStop int | HFreeIo

record hello_io =
  io_is_write :: bool
  io_ptr :: hello_ptr
  io_offset :: u32
  io_size :: u32

record hello_state =
  hs_workload :: io_workload
  hs_buff :: hello_ptr
  hs_buff_size :: u32
  hs_input :: "nat \<Rightarrow> u8"
  hs_output :: "nat \<Rightarrow> u8"
  hs_own :: "nat \<Rightarrow> u8"
  file_in_size :: u64
  file_write_offset :: u32
  file_read_offset :: u32
  bdev_write_offset :: u32
  bdev_read_offset :: u32
  hs_calls :: nat
  hs_in_flight :: "hello_io list"
  hs_waiting :: "hello_cb list"
  hs_disk :: "nat \<Rightarrow> u8"
  hs_out_file :: "u8 list option"
  hs_log :: "hello_event list"

text \<open>What the program meets: the answers of the bdev layer, the \<open>k\<close>-th submission's among them, and of the
  file system.\<close>

record hello_env =
  he_open_rc :: int
  he_file :: "u8 list option"
  he_channel_ok :: bool
  he_block_size :: u32
  he_write_unit :: u32
  he_alloc_ok :: bool
  he_out_open :: bool
  he_rc :: "nat \<Rightarrow> int"

definition MAX_BLOCK_SIZE :: u32 where
  "MAX_BLOCK_SIZE = 128 * 1024"

definition hello_log :: "hello_event list \<Rightarrow> hello_state \<Rightarrow> hello_state" where
  "hello_log evs s = s\<lparr>hs_log := hs_log s @ evs\<rparr>"

subsection \<open>Requests\<close>

definition hello_submit :: "hello_env \<Rightarrow> hello_io \<Rightarrow> hello_state \<Rightarrow> int \<times> hello_state" where
  "hello_submit e io s =
     (let rc = he_rc e (hs_calls s)
      in (rc, s\<lparr>hs_calls := hs_calls s + 1,
                hs_in_flight := if rc = 0 then hs_in_flight s @ [io] else hs_in_flight s\<rparr>))"

text \<open>The end of \<open>hello_write\<close> and \<open>hello_read\<close>.\<close>

definition hello_submitted :: "hello_cb \<Rightarrow> int \<Rightarrow> hello_state \<Rightarrow> hello_state" where
  "hello_submitted cb rc s =
     (if rc = - ENOMEM then s\<lparr>hs_waiting := hs_waiting s @ [cb]\<rparr>
      else if rc \<noteq> 0 then hello_log [HPutChannel, HClose, HStop (- 1)] s
      else s)"

text \<open>The loops that submit the whole file; \<open>None\<close> if they do not end.\<close>

partial_function (option) hello_write_loop :: "hello_env \<Rightarrow> int \<Rightarrow> hello_state \<Rightarrow> (int \<times> hello_state) option" where
  "hello_write_loop e rc s =
     (if ucast (bdev_write_offset s) < file_in_size s
      then (let (rc, s) = hello_submit e \<lparr>io_is_write = True, io_ptr = hs_buff s, io_offset = bdev_write_offset s,
                                          io_size = hs_buff_size s\<rparr> s;
                off = bdev_write_offset s + hs_buff_size s
            in hello_write_loop e rc (s\<lparr>bdev_write_offset := off, hs_buff := InputData (unat off)\<rparr>))
      else Some (rc, s))"

partial_function (option) hello_read_loop :: "hello_env \<Rightarrow> int \<Rightarrow> hello_state \<Rightarrow> (int \<times> hello_state) option" where
  "hello_read_loop e rc s =
     (if ucast (bdev_read_offset s) < file_in_size s
      then (let (rc, s) = hello_submit e \<lparr>io_is_write = False, io_ptr = hs_buff s, io_offset = bdev_read_offset s,
                                          io_size = hs_buff_size s\<rparr> s;
                off = bdev_read_offset s + hs_buff_size s
            in hello_read_loop e rc (s\<lparr>bdev_read_offset := off, hs_buff := OutputData (unat off)\<rparr>))
      else Some (rc, s))"

definition hello_write :: "hello_env \<Rightarrow> hello_state \<Rightarrow> hello_state option" where
  "hello_write e s =
     map_option (\<lambda>(rc, s). hello_submitted WaitWrite rc s)
       (if hs_workload s = LARGE_FILE then hello_write_loop e 0 s
        else Some (hello_submit e \<lparr>io_is_write = True, io_ptr = hs_buff s, io_offset = 0, io_size = hs_buff_size s\<rparr> s))"

definition hello_read :: "hello_env \<Rightarrow> hello_state \<Rightarrow> hello_state option" where
  "hello_read e s =
     map_option (\<lambda>(rc, s). hello_submitted WaitRead rc s)
       (if hs_workload s = LARGE_FILE then hello_read_loop e 0 s
        else Some (hello_submit e \<lparr>io_is_write = False, io_ptr = hs_buff s, io_offset = 0, io_size = hs_buff_size s\<rparr> s))"

subsection \<open>Completions\<close>

text \<open>The loop that writes the output file in pieces of the buffer's size.\<close>

partial_function (option) hello_fwrite_loop :: "hello_state \<Rightarrow> u32 \<Rightarrow> u8 list \<Rightarrow> u8 list option" where
  "hello_fwrite_loop s written out =
     (if ucast written < file_in_size s
      then hello_fwrite_loop s (written + hs_buff_size s)
             (out @ map (hs_output s) [unat written..<unat written + unat (hs_buff_size s)])
      else Some out)"

definition hello_write_complete :: "hello_env \<Rightarrow> bool \<Rightarrow> hello_state \<Rightarrow> hello_state option" where
  "hello_write_complete e success s =
     (if \<not> success then Some (hello_log [HPutChannel, HClose, HStop (- 1)] s)
      else
        (let s = hello_log [HFreeIo] s
         in if hs_workload s = LARGE_FILE
            then (let s = s\<lparr>file_write_offset := file_write_offset s + hs_buff_size s\<rparr>
                  in if file_in_size s \<le> ucast (file_write_offset s)
                     then hello_read e (s\<lparr>hs_buff := OutputData 0\<rparr>)
                     else Some s)
            else hello_read e (s\<lparr>hs_own := (\<lambda>a. if a < unat (hs_buff_size s) then 0 else hs_own s a)\<rparr>)))"

definition hello_read_complete :: "hello_env \<Rightarrow> bool \<Rightarrow> hello_state \<Rightarrow> hello_state option" where
  "hello_read_complete e success s =
     (if hs_workload s = LARGE_FILE
      then (let s = s\<lparr>file_read_offset := file_read_offset s + hs_buff_size s\<rparr>
            in if file_in_size s \<le> ucast (file_read_offset s)
               then (let s = hello_log [HFreeIo] s
                     in if \<not> he_out_open e then Some (hello_log [HStop (- 1)] s)
                        else map_option (\<lambda>out. hello_log [HPutChannel, HClose, HStop 0] (s\<lparr>hs_out_file := Some out\<rparr>))
                               (hello_fwrite_loop s 0 []))
               else Some s)
      else Some (hello_log [HFreeIo, HPutChannel, HClose, HStop (if success then 0 else - 1)] s))"

subsection \<open>Start\<close>

text \<open>The \<open>uint32_t\<close> product wraps; the last byte is 0.\<close>

definition gen_string :: "u32 \<Rightarrow> nat \<Rightarrow> u8" where
  "gen_string sz i =
     (if i = unat sz - 1 then 0 else if i < unat sz then 97 + ucast ((of_nat i * 10) div sz) else 0)"

definition hello_string :: "u32 \<Rightarrow> nat \<Rightarrow> u8" where
  "hello_string sz i =
     (let text = take (unat sz - 1) (map of_char (''Hello World!'' @ [char_of (10::nat)]))
      in if i < length text then text ! i else 0)"

text \<open>\<open>disk\<close> is what the bdev holds. The buffers of the large file are filled with zeros; a file that is
  larger than 256 MB is read past the end of its buffer, which the map hides.\<close>

definition hello_start :: "hello_env \<Rightarrow> io_workload \<Rightarrow> (nat \<Rightarrow> u8) \<Rightarrow> hello_state option" where
  "hello_start e workload disk =
     (let s = \<lparr>hs_workload = workload, hs_buff = OwnBuff, hs_buff_size = 0, hs_input = (\<lambda>_. 0), hs_output = (\<lambda>_. 0),
               hs_own = (\<lambda>_. 0), file_in_size = 0, file_write_offset = 0, file_read_offset = 0,
               bdev_write_offset = 0, bdev_read_offset = 0, hs_calls = 0, hs_in_flight = [], hs_waiting = [],
               hs_disk = disk, hs_out_file = None, hs_log = []\<rparr>
      in if he_open_rc e \<noteq> 0 then Some (hello_log [HStop (- 1)] s)
         else if workload = LARGE_FILE \<and> he_file e = None then Some (hello_log [HStop (- 1)] s)
         else
           (let s = (if workload = LARGE_FILE
                     then (let bytes = the (he_file e)
                           in s\<lparr>hs_input := (\<lambda>i. if i < length bytes then bytes ! i else 0),
                                file_in_size := of_nat (length bytes)\<rparr>)
                     else s)
            in if \<not> he_channel_ok e then Some (hello_log [HClose, HStop (- 1)] s)
               else
                 (let sz = he_block_size e * he_write_unit e;
                      sz = (case workload of STRING \<Rightarrow> sz | MULTI_BLOCK \<Rightarrow> sz * 8 | LARGE_FILE \<Rightarrow> MAX_BLOCK_SIZE);
                      s = s\<lparr>hs_buff_size := sz\<rparr>
                  in if workload \<noteq> LARGE_FILE \<and> \<not> he_alloc_ok e
                     then Some (hello_log [HPutChannel, HClose, HStop (- 1)] s)
                     else hello_write e
                            (case workload of
                               STRING \<Rightarrow> s\<lparr>hs_own := hello_string sz\<rparr>
                             | MULTI_BLOCK \<Rightarrow> s\<lparr>hs_own := gen_string sz\<rparr>
                             | LARGE_FILE \<Rightarrow> s\<lparr>hs_buff := InputData 0\<rparr>))))"

subsection \<open>Runs\<close>

definition hello_byte :: "hello_state \<Rightarrow> hello_ptr \<Rightarrow> nat \<Rightarrow> u8" where
  "hello_byte s p i = (case p of InputData a \<Rightarrow> hs_input s (a + i) | OutputData a \<Rightarrow> hs_output s (a + i) | OwnBuff \<Rightarrow> hs_own s i)"

definition put_bytes :: "nat \<Rightarrow> nat \<Rightarrow> (nat \<Rightarrow> u8) \<Rightarrow> (nat \<Rightarrow> u8) \<Rightarrow> nat \<Rightarrow> u8" where
  "put_bytes a n f m i = (if a \<le> i \<and> i < a + n then f (i - a) else m i)"

text \<open>What the bdev does for a request: a write puts the bytes of the buffer on the bdev, a read those of
  the bdev into the buffer. A failed request leaves \<open>junk\<close> where it would have put them.\<close>

definition hello_transfer :: "hello_io \<Rightarrow> bool \<Rightarrow> (nat \<Rightarrow> u8) \<Rightarrow> hello_state \<Rightarrow> hello_state" where
  "hello_transfer io success junk s =
     (let off = unat (io_offset io); n = unat (io_size io);
          bytes = (if \<not> success then junk else if io_is_write io then hello_byte s (io_ptr io) else (\<lambda>i. hs_disk s (off + i)))
      in if io_is_write io then s\<lparr>hs_disk := put_bytes off n bytes (hs_disk s)\<rparr>
         else (case io_ptr io of
                 InputData a \<Rightarrow> s\<lparr>hs_input := put_bytes a n bytes (hs_input s)\<rparr>
               | OutputData a \<Rightarrow> s\<lparr>hs_output := put_bytes a n bytes (hs_output s)\<rparr>
               | OwnBuff \<Rightarrow> s\<lparr>hs_own := put_bytes 0 n bytes (hs_own s)\<rparr>))"

definition hello_complete :: "hello_env \<Rightarrow> hello_io \<Rightarrow> bool \<Rightarrow> (nat \<Rightarrow> u8) \<Rightarrow> hello_state \<Rightarrow> hello_state option" where
  "hello_complete e io success junk s =
     (let s = hello_transfer io success junk (s\<lparr>hs_in_flight := remove1 io (hs_in_flight s)\<rparr>)
      in if io_is_write io then hello_write_complete e success s else hello_read_complete e success s)"

definition hello_wake :: "hello_env \<Rightarrow> hello_state \<Rightarrow> hello_state option" where
  "hello_wake e s =
     (let cb = hd (hs_waiting s); s = s\<lparr>hs_waiting := tl (hs_waiting s)\<rparr>
      in case cb of WaitWrite \<Rightarrow> hello_write e s | WaitRead \<Rightarrow> hello_read e s)"

text \<open>A run in which every completed request succeeded; \<open>k\<close> counts the completions.\<close>

inductive hello_run :: "hello_env \<Rightarrow> hello_state \<Rightarrow> nat \<Rightarrow> hello_state \<Rightarrow> bool" for e s0 where
  run_start: "hello_run e s0 0 s0"
| run_complete: "hello_run e s0 k s \<Longrightarrow> io \<in> set (hs_in_flight s) \<Longrightarrow> hello_complete e io True junk s = Some s' \<Longrightarrow>
    hello_run e s0 (Suc k) s'"
| run_wake: "hello_run e s0 k s \<Longrightarrow> hs_waiting s \<noteq> [] \<Longrightarrow> hello_wake e s = Some s' \<Longrightarrow> hello_run e s0 k s'"

text \<open>A run with failing requests too: \<open>k\<close> counts the successful completions, \<open>f\<close> the failed ones. A program that
  has stopped still gets the completions that are due.\<close>

inductive hello_run_any :: "hello_env \<Rightarrow> hello_state \<Rightarrow> nat \<Rightarrow> nat \<Rightarrow> hello_state \<Rightarrow> bool" for e s0 where
  any_start: "hello_run_any e s0 0 0 s0"
| any_success: "hello_run_any e s0 k f s \<Longrightarrow> io \<in> set (hs_in_flight s) \<Longrightarrow>
    hello_complete e io True junk s = Some s' \<Longrightarrow> hello_run_any e s0 (Suc k) f s'"
| any_failure: "hello_run_any e s0 k f s \<Longrightarrow> io \<in> set (hs_in_flight s) \<Longrightarrow>
    hello_complete e io False junk s = Some s' \<Longrightarrow> hello_run_any e s0 k (Suc f) s'"
| any_wake: "hello_run_any e s0 k f s \<Longrightarrow> hs_waiting s \<noteq> [] \<Longrightarrow> hello_wake e s = Some s' \<Longrightarrow>
    hello_run_any e s0 k f s'"

subsection \<open>The loops\<close>

abbreviation blk :: nat where
  "blk \<equiv> 131072"

definition blocks :: "nat \<Rightarrow> nat" where
  "blocks n = (n + (blk - 1)) div blk"

text \<open>Where a block begins, as a number and as an offset of the program.\<close>

definition block_at :: "nat \<Rightarrow> nat" where
  "block_at i = i * blk"

definition block_offset :: "nat \<Rightarrow> u32" where
  "block_offset i = of_nat (block_at i)"

definition w_io :: "nat \<Rightarrow> hello_io" where
  "w_io j = \<lparr>io_is_write = True, io_ptr = InputData (block_at j), io_offset = block_offset j, io_size = MAX_BLOCK_SIZE\<rparr>"

definition r_io :: "nat \<Rightarrow> hello_io" where
  "r_io j = \<lparr>io_is_write = False, io_ptr = OutputData (block_at j), io_offset = block_offset j, io_size = MAX_BLOCK_SIZE\<rparr>"

lemma less_blocks: "i < blocks n \<longleftrightarrow> i * blk < n"
  unfolding blocks_def by (simp add: less_eq_div_iff_mult_less_eq Suc_le_eq[symmetric])

lemma blocks_bound: "n \<le> 2 ^ 28 \<Longrightarrow> blocks n \<le> 2048"
  unfolding blocks_def by simp

lemma blocks_cover: "n \<le> blocks n * blk"
  using less_blocks[of "blocks n" n] by simp

lemma unat_max_block [simp]: "unat MAX_BLOCK_SIZE = blk"
  by (simp add: MAX_BLOCK_SIZE_def)

lemma block_zero [simp]: "block_at 0 = 0" "block_offset 0 = 0"
  by (simp_all add: block_at_def block_offset_def)

lemma unat_offset: "i \<le> 2048 \<Longrightarrow> unat (block_offset i) = block_at i"
  unfolding block_offset_def by (simp add: block_at_def unsigned_of_nat take_bit_nat_eq_self del: of_nat_mult)

lemma offset_less:
  "i \<le> 2048 \<Longrightarrow> n \<le> 2 ^ 28 \<Longrightarrow> (ucast (block_offset i) < (of_nat n :: u64)) \<longleftrightarrow> i < blocks n"
  using unat_offset[of i] unat_of_nat_u64[of n] by (simp add: word_less_nat_alt less_blocks block_at_def)

lemma offset_next: "block_offset i + MAX_BLOCK_SIZE = block_offset (Suc i)"
  by (simp add: block_offset_def block_at_def MAX_BLOCK_SIZE_def)

text \<open>The states of a run on a large file differ in few fields from its start.\<close>

definition hello_file :: "nat \<Rightarrow> hello_state \<Rightarrow> bool" where
  "hello_file n s \<longleftrightarrow>
     hs_workload s = LARGE_FILE \<and> hs_buff_size s = MAX_BLOCK_SIZE \<and> file_in_size s = of_nat n \<and> n \<le> 2 ^ 28"

lemma hello_write_loop_result:
  assumes "hello_file n s" and "i \<le> blocks n" and "bdev_write_offset s = block_offset i" "hs_buff s = InputData (block_at i)"
  shows "hello_write_loop e rc s =
    Some (if i < blocks n then he_rc e (hs_calls s + (blocks n - 1 - i)) else rc,
      s\<lparr>hs_buff := InputData (block_at (blocks n)), bdev_write_offset := block_offset (blocks n),
        hs_calls := hs_calls s + (blocks n - i),
        hs_in_flight := hs_in_flight s @ map w_io (filter (\<lambda>j. he_rc e (hs_calls s + (j - i)) = 0) [i..<blocks n])\<rparr>)"
  using assms
proof (induction "blocks n - i" arbitrary: i s rc)
  case 0
  then have i: "i = blocks n" and n: "n \<le> 2 ^ 28" by (simp_all add: hello_file_def)
  have "\<not> (ucast (bdev_write_offset s) < file_in_size s)"
    using 0 offset_less[OF blocks_bound[OF n] n] by (simp add: hello_file_def i)
  then show ?case using 0 i by (subst hello_write_loop.simps) simp
next
  case (Suc m)
  have n: "n \<le> 2 ^ 28" and less: "i < blocks n" using Suc by (simp_all add: hello_file_def)
  have i: "i \<le> 2048" "Suc i \<le> 2048" using less blocks_bound[OF n] by simp_all
  let ?s = "snd (hello_submit e (w_io i) s)\<lparr>bdev_write_offset := block_offset (Suc i), hs_buff := InputData (block_at (Suc i))\<rparr>"
  have "hello_write_loop e rc s = hello_write_loop e (he_rc e (hs_calls s)) ?s"
    using Suc.prems less offset_less[OF i(1) n] offset_next[of i] unat_offset[OF i(2)]
    by (subst hello_write_loop.simps) (simp add: hello_submit_def Let_def hello_file_def w_io_def)
  moreover have "hello_write_loop e (he_rc e (hs_calls s)) ?s =
    Some (if Suc i < blocks n then he_rc e (hs_calls ?s + (blocks n - 1 - Suc i)) else he_rc e (hs_calls s),
      ?s\<lparr>hs_buff := InputData (block_at (blocks n)), bdev_write_offset := block_offset (blocks n),
        hs_calls := hs_calls ?s + (blocks n - Suc i),
        hs_in_flight := hs_in_flight ?s @ map w_io (filter (\<lambda>j. he_rc e (hs_calls ?s + (j - Suc i)) = 0) [Suc i..<blocks n])\<rparr>)"
    using Suc.hyps(2) Suc.prems(1) less by (intro Suc.hyps(1)) (simp_all add: hello_file_def hello_submit_def Let_def)
  moreover have "filter (\<lambda>j. he_rc e (hs_calls s + (j - i)) = 0) [i..<blocks n] =
      (if he_rc e (hs_calls s) = 0 then [i] else []) @
      filter (\<lambda>j. he_rc e (hs_calls ?s + (j - Suc i)) = 0) [Suc i..<blocks n]"
  proof -
    have "filter (\<lambda>j. he_rc e (hs_calls s + (j - i)) = 0) [Suc i..<blocks n] =
        filter (\<lambda>j. he_rc e (hs_calls ?s + (j - Suc i)) = 0) [Suc i..<blocks n]"
      by (rule filter_cong) (auto simp: hello_submit_def Let_def Suc_diff_le[symmetric] add_Suc_right[symmetric] simp del: add_Suc_right)
    then show ?thesis by (simp only: upt_conv_Cons[OF less] filter.simps diff_self_eq_0 add_0_right) simp
  qed
  moreover have "hs_calls s + blocks n - Suc i = hs_calls s" if "\<not> Suc i < blocks n" using that less by linarith
  ultimately show ?case
    using less by (auto simp: hello_submit_def Let_def Suc_diff_Suc intro!: hello_state.equality)
qed

text \<open>The reads are all accepted.\<close>

lemma hello_read_loop_result:
  assumes "hello_file n s" and "i \<le> blocks n" and "bdev_read_offset s = block_offset i" "hs_buff s = OutputData (block_at i)"
    and accepted: "\<forall>k. he_rc e k = 0"
  shows "hello_read_loop e 0 s =
    Some (0, s\<lparr>hs_buff := OutputData (block_at (blocks n)), bdev_read_offset := block_offset (blocks n),
      hs_calls := hs_calls s + (blocks n - i), hs_in_flight := hs_in_flight s @ map r_io [i..<blocks n]\<rparr>)"
  using assms(1-4)
proof (induction "blocks n - i" arbitrary: i s)
  case 0
  then have i: "i = blocks n" and n: "n \<le> 2 ^ 28" by (simp_all add: hello_file_def)
  have "\<not> (ucast (bdev_read_offset s) < file_in_size s)"
    using 0 offset_less[OF blocks_bound[OF n] n] by (simp add: hello_file_def i)
  then show ?case using 0 i by (subst hello_read_loop.simps) simp
next
  case (Suc m)
  have n: "n \<le> 2 ^ 28" and less: "i < blocks n" using Suc by (simp_all add: hello_file_def)
  have i: "i \<le> 2048" "Suc i \<le> 2048" using less blocks_bound[OF n] by simp_all
  let ?s = "snd (hello_submit e (r_io i) s)\<lparr>bdev_read_offset := block_offset (Suc i), hs_buff := OutputData (block_at (Suc i))\<rparr>"
  have "hello_read_loop e 0 s = hello_read_loop e 0 ?s"
    using Suc.prems less offset_less[OF i(1) n] offset_next[of i] unat_offset[OF i(2)] accepted
    by (subst hello_read_loop.simps) (simp add: hello_submit_def Let_def hello_file_def r_io_def)
  moreover have "hello_read_loop e 0 ?s =
    Some (0, ?s\<lparr>hs_buff := OutputData (block_at (blocks n)), bdev_read_offset := block_offset (blocks n),
      hs_calls := hs_calls ?s + (blocks n - Suc i), hs_in_flight := hs_in_flight ?s @ map r_io [Suc i..<blocks n]\<rparr>)"
    using Suc.hyps(2) Suc.prems(1) less by (intro Suc.hyps(1)) (simp_all add: hello_file_def hello_submit_def Let_def)
  ultimately show ?case
    using less accepted by (auto simp: hello_submit_def Let_def Suc_diff_Suc upt_conv_Cons intro!: hello_state.equality)
qed

lemma hello_fwrite_loop_result:
  assumes "hello_file n s" and "i \<le> blocks n"
  shows "hello_fwrite_loop s (block_offset i) out = Some (out @ map (hs_output s) [block_at i..<block_at (blocks n)])"
  using assms(2)
proof (induction "blocks n - i" arbitrary: i out)
  case 0
  then have i: "i = blocks n" and n: "n \<le> 2 ^ 28" using assms(1) by (simp_all add: hello_file_def)
  have "\<not> (ucast (block_offset i) < file_in_size s)"
    using assms(1) offset_less[OF blocks_bound[OF n] n] by (simp add: hello_file_def i)
  then show ?case using i by (subst hello_fwrite_loop.simps) simp
next
  case (Suc m)
  have n: "n \<le> 2 ^ 28" and less: "i < blocks n" using Suc assms(1) by (simp_all add: hello_file_def)
  have i: "i \<le> 2048" using less blocks_bound[OF n] by simp
  have cut: "[block_at i..<block_at (blocks n)] = [block_at i..<block_at i + blk] @ [block_at (Suc i)..<block_at (blocks n)]"
  proof -
    have "block_at i + blk = block_at (Suc i)" "block_at (Suc i) \<le> block_at (blocks n)"
      using less by (simp_all only: block_at_def mult_Suc mult_le_mono1 Suc_leI add.commute)
    then show ?thesis by (metis le_add1 le_Suc_ex upt_add_eq_append)
  qed
  have "hello_fwrite_loop s (block_offset i) out =
      hello_fwrite_loop s (block_offset (Suc i)) (out @ map (hs_output s) [block_at i..<block_at i + blk])"
    using less offset_less[OF i n] offset_next[of i] unat_offset[OF i] assms(1)
    by (subst hello_fwrite_loop.simps) (simp add: hello_file_def)
  also have "\<dots> = Some ((out @ map (hs_output s) [block_at i..<block_at i + blk]) @
      map (hs_output s) [block_at (Suc i)..<block_at (blocks n)])"
    using Suc.hyps(2) less by (intro Suc.hyps(1)) simp_all
  finally show ?case by (simp only: cut map_append append_assoc)
qed

subsection \<open>The phases of a run\<close>

definition hello_content :: "u8 list \<Rightarrow> nat \<Rightarrow> u8" where
  "hello_content bytes i = (if i < length bytes then bytes ! i else 0)"

definition accepted_writes :: "hello_env \<Rightarrow> nat \<Rightarrow> nat list" where
  "accepted_writes e n = filter (\<lambda>j. he_rc e j = 0) [0..<blocks n]"

text \<open>Block \<open>j\<close> of \<open>m\<close> is that of the file.\<close>

definition block_ok :: "u8 list \<Rightarrow> (nat \<Rightarrow> u8) \<Rightarrow> nat \<Rightarrow> bool" where
  "block_ok bytes m j \<longleftrightarrow> (\<forall>x < blk. m (block_at j + x) = hello_content bytes (block_at j + x))"

definition hello_writing :: "hello_env \<Rightarrow> u8 list \<Rightarrow> nat \<Rightarrow> hello_state \<Rightarrow> bool" where
  "hello_writing e bytes k s \<longleftrightarrow>
     (let n = length bytes
      in hello_file n s \<and> hs_input s = hello_content bytes \<and> bdev_write_offset s = block_offset (blocks n) \<and>
         file_write_offset s = block_offset k \<and> bdev_read_offset s = 0 \<and> file_read_offset s = 0 \<and>
         hs_out_file s = None \<and> hs_log s = replicate k HFreeIo \<and> set (hs_waiting s) \<subseteq> {WaitWrite} \<and>
         (hs_waiting s \<noteq> [] \<longrightarrow> he_rc e (blocks n - 1) \<noteq> 0) \<and>
         (\<exists>js. hs_in_flight s = map w_io js \<and> distinct js \<and> set js \<subseteq> {..<blocks n} \<and>
            length js + k = length (accepted_writes e n) \<and>
            (\<forall>j < blocks n. he_rc e j = 0 \<and> j \<notin> set js \<longrightarrow> block_ok bytes (hs_disk s) j)))"

definition hello_reading :: "u8 list \<Rightarrow> nat \<Rightarrow> hello_state \<Rightarrow> bool" where
  "hello_reading bytes k s \<longleftrightarrow>
     (let n = length bytes
      in hello_file n s \<and> hs_input s = hello_content bytes \<and> file_read_offset s = block_offset k \<and>
         hs_out_file s = None \<and> hs_log s = replicate (blocks n) HFreeIo \<and> hs_waiting s = [] \<and>
         (\<forall>j < blocks n. block_ok bytes (hs_disk s) j) \<and>
         (\<exists>js. hs_in_flight s = map r_io js \<and> distinct js \<and> set js \<subseteq> {..<blocks n} \<and> length js + k = blocks n \<and>
            (\<forall>j < blocks n. j \<notin> set js \<longrightarrow> block_ok bytes (hs_output s) j)))"

definition hello_ended :: "u8 list \<Rightarrow> hello_state \<Rightarrow> bool" where
  "hello_ended bytes s \<longleftrightarrow>
     hs_in_flight s = [] \<and> hs_waiting s = [] \<and>
     hs_out_file s = Some (map (hello_content bytes) [0..<block_at (blocks (length bytes))]) \<and>
     hs_log s = replicate (Suc (blocks (length bytes))) HFreeIo @ [HPutChannel, HClose, HStop 0]"

lemma block_at_inj: "block_at i = block_at j \<longleftrightarrow> i = j"
  by (simp add: block_at_def)

lemma w_io_inj [simp]: "w_io i = w_io j \<longleftrightarrow> i = j"
  by (auto simp: w_io_def block_at_inj)

lemma r_io_inj [simp]: "r_io i = r_io j \<longleftrightarrow> i = j"
  by (auto simp: r_io_def block_at_inj)

lemma remove1_map: "(\<And>i j. f i = f j \<longleftrightarrow> i = j) \<Longrightarrow> remove1 (f j) (map f js) = map f (remove1 j js)"
  by (induction js) auto

lemma block_elsewhere:
  assumes "i \<noteq> j" and "x < blk"
  shows "\<not> (block_at j \<le> block_at i + x \<and> block_at i + x < block_at j + blk)"
proof
  assume *: "block_at j \<le> block_at i + x \<and> block_at i + x < block_at j + blk"
  have "(block_at i + x) div blk = i" using assms(2) by (simp add: block_at_def)
  moreover have "(block_at i + x) div blk = j" using * unfolding block_at_def by (intro div_nat_eqI) simp_all
  ultimately show False using assms(1) by simp
qed

text \<open>One block is transferred.\<close>

lemma block_ok_put:
  assumes "\<And>x. x < blk \<Longrightarrow> f x = hello_content bytes (block_at j + x)" and "i \<noteq> j \<Longrightarrow> block_ok bytes m i"
  shows "block_ok bytes (put_bytes (block_at j) blk f m) i"
  using assms block_elsewhere[of i j] by (cases "i = j") (auto simp: block_ok_def put_bytes_def)

lemma hello_write_transfer:
  assumes "j \<le> 2048"
  shows "hello_transfer (w_io j) True junk s =
    s\<lparr>hs_disk := put_bytes (block_at j) blk (\<lambda>i. hs_input s (block_at j + i)) (hs_disk s)\<rparr>"
  using unat_offset[OF assms]
  by (simp add: hello_transfer_def w_io_def hello_byte_def[abs_def])

lemma hello_read_transfer:
  assumes "j \<le> 2048"
  shows "hello_transfer (r_io j) True junk s =
    s\<lparr>hs_output := put_bytes (block_at j) blk (\<lambda>i. hs_disk s (block_at j + i)) (hs_output s)\<rparr>"
  using unat_offset[OF assms] by (simp add: hello_transfer_def r_io_def)

lemma hello_write_steps:
  assumes w: "hello_writing e bytes k s" and io: "io \<in> set (hs_in_flight s)"
  obtains s' where "hello_transfer io True junk (s\<lparr>hs_in_flight := remove1 io (hs_in_flight s)\<rparr>) = s'" "io_is_write io"
    and "hello_writing e bytes (Suc k) (hello_log [HFreeIo] s'\<lparr>file_write_offset := block_offset (Suc k)\<rparr>)"
    and "Suc k \<le> length (accepted_writes e (length bytes))"
    and "file_write_offset (hello_log [HFreeIo] s') + hs_buff_size (hello_log [HFreeIo] s') = block_offset (Suc k)"
    and "hello_file (length bytes) (hello_log [HFreeIo] s')"
proof -
  let ?n = "length bytes"
  obtain js where js: "hs_in_flight s = map w_io js" "distinct js" "set js \<subseteq> {..<blocks ?n}"
      "length js + k = length (accepted_writes e ?n)"
      "\<forall>j < blocks ?n. he_rc e j = 0 \<and> j \<notin> set js \<longrightarrow> block_ok bytes (hs_disk s) j"
    using w by (auto simp: hello_writing_def Let_def)
  obtain j where j: "io = w_io j" "j \<in> set js" using io js(1) by auto
  have n: "hello_file ?n s" "hs_input s = hello_content bytes" using w by (simp_all add: hello_writing_def Let_def)
  then have "j \<le> 2048" using j(2) js(3) blocks_bound[of ?n] by (auto simp: hello_file_def)
  define s' where "s' = s\<lparr>hs_in_flight := map w_io (remove1 j js),
    hs_disk := put_bytes (block_at j) blk (\<lambda>i. hs_input s (block_at j + i)) (hs_disk s)\<rparr>"
  have rem: "remove1 (w_io j) (map w_io js) = map w_io (remove1 j js)" by (rule remove1_map) (rule w_io_inj)
  have t: "hello_transfer io True junk (s\<lparr>hs_in_flight := remove1 io (hs_in_flight s)\<rparr>) = s'"
    using hello_write_transfer[OF \<open>j \<le> 2048\<close>] rem by (simp add: j(1) js(1) s'_def)
  have "length (remove1 j js) + Suc k = length js + k" using j(2) length_pos_if_in_set[OF j(2)] by (simp add: length_remove1)
  moreover have "block_ok bytes (hs_disk s') i" if "i < blocks ?n" "he_rc e i = 0" "i \<notin> set (remove1 j js)" for i
    unfolding s'_def using that js(2,5) n(2) by (auto intro!: block_ok_put)
  ultimately have inv: "hello_writing e bytes (Suc k) (hello_log [HFreeIo] s'\<lparr>file_write_offset := block_offset (Suc k)\<rparr>)"
    using w js(2-4) by (auto simp: hello_writing_def Let_def hello_log_def s'_def hello_file_def replicate_append_same
      intro!: exI[of _ "remove1 j js"] dest: notin_set_remove1)
  show thesis
  proof (rule that[OF t _ inv])
    show "io_is_write io" by (simp add: j(1) w_io_def)
    show "Suc k \<le> length (accepted_writes e ?n)" using js(4) j(2) by (cases js) auto
    show "file_write_offset (hello_log [HFreeIo] s') + hs_buff_size (hello_log [HFreeIo] s') = block_offset (Suc k)"
      using w offset_next[of k] by (simp add: hello_writing_def Let_def hello_log_def s'_def hello_file_def)
    show "hello_file ?n (hello_log [HFreeIo] s')" using n(1) by (simp add: hello_file_def hello_log_def s'_def)
  qed
qed

lemma accepted_writes_le: "length (accepted_writes e n) \<le> blocks n"
  unfolding accepted_writes_def by (rule order_trans[OF length_filter_le]) simp

text \<open>The completion of a write that is not the last.\<close>

lemma hello_writing_complete:
  assumes w: "hello_writing e bytes k s" and io: "io \<in> set (hs_in_flight s)" and more: "Suc k < blocks (length bytes)"
  shows "\<exists>s'. hello_complete e io True junk s = Some s' \<and> hello_writing e bytes (Suc k) s'"
proof -
  obtain s1 where s1: "hello_transfer io True junk (s\<lparr>hs_in_flight := remove1 io (hs_in_flight s)\<rparr>) = s1" "io_is_write io"
    and inv: "hello_writing e bytes (Suc k) (hello_log [HFreeIo] s1\<lparr>file_write_offset := block_offset (Suc k)\<rparr>)"
    and off: "file_write_offset (hello_log [HFreeIo] s1) + hs_buff_size (hello_log [HFreeIo] s1) = block_offset (Suc k)"
    and f: "hello_file (length bytes) (hello_log [HFreeIo] s1)"
    using hello_write_steps[OF w io] by metis
  have n: "length bytes \<le> 2 ^ 28" using f by (simp add: hello_file_def)
  have "Suc k \<le> 2048" using more blocks_bound[OF n] by simp
  then have "\<not> (of_nat (length bytes) :: u64) \<le> ucast (block_offset (Suc k))" using offset_less[OF _ n] more by (simp add: not_le)
  then show ?thesis
    using s1 inv off f by (simp add: hello_complete_def hello_write_complete_def Let_def hello_file_def)
qed

text \<open>The completion of the last write starts the reads.\<close>

lemma hello_last_write:
  assumes w: "hello_writing e bytes k s" and io: "io \<in> set (hs_in_flight s)" and last: "Suc k = blocks (length bytes)"
    and accepted: "\<forall>k. he_rc e k = 0"
  shows "\<exists>s'. hello_complete e io True junk s = Some s' \<and> hello_reading bytes 0 s'"
proof -
  let ?n = "length bytes"
  obtain s1 where s1: "hello_transfer io True junk (s\<lparr>hs_in_flight := remove1 io (hs_in_flight s)\<rparr>) = s1" "io_is_write io"
    and inv: "hello_writing e bytes (Suc k) (hello_log [HFreeIo] s1\<lparr>file_write_offset := block_offset (Suc k)\<rparr>)"
    and off: "file_write_offset (hello_log [HFreeIo] s1) + hs_buff_size (hello_log [HFreeIo] s1) = block_offset (Suc k)"
    and f: "hello_file ?n (hello_log [HFreeIo] s1)"
    using hello_write_steps[OF w io] by metis
  define s2 where "s2 = hello_log [HFreeIo] s1\<lparr>file_write_offset := block_offset (Suc k), hs_buff := OutputData 0\<rparr>"
  have n: "?n \<le> 2 ^ 28" using f by (simp add: hello_file_def)
  have "(of_nat ?n :: u64) \<le> ucast (block_offset (Suc k))"
    using offset_less[OF blocks_bound[OF n] n] last by (simp add: not_less[symmetric])
  then have c: "hello_complete e io True junk s = hello_read e s2"
    using s1 off f by (simp add: hello_complete_def hello_write_complete_def Let_def hello_file_def s2_def)
  have acc: "accepted_writes e ?n = [0..<blocks ?n]" using accepted by (simp add: accepted_writes_def)
  have two: "hello_writing e bytes (Suc k) (s2\<lparr>hs_buff := hs_buff s1\<rparr>)"
    using inv by (simp add: s2_def hello_log_def)
  then have s2: "hello_file ?n s2" "bdev_read_offset s2 = block_offset 0" "hs_buff s2 = OutputData (block_at 0)"
      "hs_in_flight s2 = []" "hs_waiting s2 = []" "\<forall>j < blocks ?n. block_ok bytes (hs_disk s2) j"
      "hs_input s2 = hello_content bytes" "hs_out_file s2 = None" "hs_log s2 = replicate (blocks ?n) HFreeIo" "file_read_offset s2 = 0"
    using accepted last by (auto simp: hello_writing_def Let_def acc hello_file_def s2_def)
  have "hello_read e s2 = Some (s2\<lparr>hs_buff := OutputData (block_at (blocks ?n)), bdev_read_offset := block_offset (blocks ?n),
      hs_calls := hs_calls s2 + blocks ?n, hs_in_flight := map r_io [0..<blocks ?n]\<rparr>)"
    using hello_read_loop_result[OF s2(1) _ s2(2,3) accepted] s2(1,4)
    by (simp add: hello_read_def hello_submitted_def hello_file_def)
  moreover have "hello_reading bytes 0 (s2\<lparr>hs_buff := OutputData (block_at (blocks ?n)), bdev_read_offset := block_offset (blocks ?n),
      hs_calls := hs_calls s2 + blocks ?n, hs_in_flight := map r_io [0..<blocks ?n]\<rparr>)"
    using s2 by (auto simp: hello_reading_def Let_def hello_file_def intro!: exI[of _ "[0..<blocks ?n]"])
  ultimately show ?thesis by (simp add: c)
qed

lemma hello_reading_complete:
  assumes r: "hello_reading bytes k s" and io: "io \<in> set (hs_in_flight s)" and out: "he_out_open e"
  shows "\<exists>s'. hello_complete e io True junk s = Some s' \<and>
    (if Suc k < blocks (length bytes) then hello_reading bytes (Suc k) s' else hello_ended bytes s' \<and> Suc k = blocks (length bytes))"
proof -
  let ?n = "length bytes"
  obtain js where js: "hs_in_flight s = map r_io js" "distinct js" "set js \<subseteq> {..<blocks ?n}" "length js + k = blocks ?n"
      "\<forall>j < blocks ?n. j \<notin> set js \<longrightarrow> block_ok bytes (hs_output s) j"
    and f: "hello_file ?n s" and disk: "\<forall>j < blocks ?n. block_ok bytes (hs_disk s) j" and off: "file_read_offset s = block_offset k"
    and idle: "hs_waiting s = []" and log: "hs_log s = replicate (blocks ?n) HFreeIo" "hs_out_file s = None"
      "hs_input s = hello_content bytes"
    using r by (auto simp: hello_reading_def Let_def)
  obtain j where j: "io = r_io j" "j \<in> set js" using io js(1) by auto
  have n: "?n \<le> 2 ^ 28" using f by (simp add: hello_file_def)
  have "j < blocks ?n" "j \<le> 2048" using j(2) js(3) blocks_bound[OF n] by auto
  have k: "Suc k \<le> blocks ?n" "Suc k \<le> 2048" using js(4) j(2) blocks_bound[OF n] by (cases js; auto)+
  define s1 where "s1 = s\<lparr>hs_in_flight := map r_io (remove1 j js),
    hs_output := put_bytes (block_at j) blk (\<lambda>i. hs_disk s (block_at j + i)) (hs_output s), file_read_offset := block_offset (Suc k)\<rparr>"
  have rem: "remove1 (r_io j) (map r_io js) = map r_io (remove1 j js)" by (rule remove1_map) (rule r_io_inj)
  have c: "hello_complete e io True junk s =
      (if (of_nat ?n :: u64) \<le> ucast (block_offset (Suc k))
       then map_option (\<lambda>out. hello_log [HPutChannel, HClose, HStop 0] (hello_log [HFreeIo] s1\<lparr>hs_out_file := Some out\<rparr>))
              (hello_fwrite_loop (hello_log [HFreeIo] s1) 0 [])
       else Some s1)"
  proof -
    have "hello_transfer io True junk (s\<lparr>hs_in_flight := remove1 io (hs_in_flight s)\<rparr>) =
        s1\<lparr>file_read_offset := block_offset k\<rparr>" and "\<not> io_is_write io"
      using hello_read_transfer[OF \<open>j \<le> 2048\<close>] rem off by (simp_all add: j(1) js(1) s1_def) (simp add: r_io_def)
    moreover have "hs_workload s1 = LARGE_FILE" "hs_buff_size s1 = MAX_BLOCK_SIZE" "file_in_size s1 = of_nat ?n"
        "file_read_offset s1 = block_offset (Suc k)"
      using f by (simp_all add: s1_def hello_file_def)
    moreover have same: "s1\<lparr>file_read_offset := block_offset (Suc k)\<rparr> = s1" by (simp add: s1_def)
    ultimately show ?thesis
      using out offset_next[of k] by (simp add: hello_complete_def hello_read_complete_def Let_def same)
  qed
  have "length (remove1 j js) = length js - 1" using j(2) by (simp add: length_remove1)
  then have "length (remove1 j js) + Suc k = blocks ?n" using js(4) length_pos_if_in_set[OF j(2)] by linarith
  moreover have ok: "block_ok bytes (hs_output s1) i" if "i < blocks ?n" "i \<notin> set (remove1 j js)" for i
    unfolding s1_def using that js(2,5) disk \<open>j < blocks ?n\<close> by (auto simp: block_ok_def[of _ "hs_disk s"] intro!: block_ok_put)
  ultimately have len: "length (remove1 j js) + Suc k = blocks ?n" and inv: "hello_reading bytes (Suc k) s1"
    using js(2,3) f disk idle log
    by (auto simp: hello_reading_def Let_def s1_def hello_file_def intro!: exI[of _ "remove1 j js"] dest: notin_set_remove1)
  show ?thesis
  proof (cases "Suc k < blocks ?n")
    case True
    then have "\<not> (of_nat ?n :: u64) \<le> ucast (block_offset (Suc k))" using offset_less[OF k(2) n] by (simp add: not_le)
    then show ?thesis using c inv True by simp
  next
    case False
    then have last: "Suc k = blocks ?n" using k(1) by simp
    have stop: "(of_nat ?n :: u64) \<le> ucast (block_offset (Suc k))" using offset_less[OF k(2) n] last by (simp add: not_less[symmetric])
    have none: "remove1 j js = []" using len last by simp
    let ?out = "map (hs_output s1) [0..<block_at (blocks ?n)]"
    have w: "hello_fwrite_loop (hello_log [HFreeIo] s1) 0 [] = Some ?out"
      using hello_fwrite_loop_result[of ?n "hello_log [HFreeIo] s1" 0 "[]"] f
      by (simp add: hello_file_def s1_def hello_log_def)
    have "hs_output s1 x = hello_content bytes x" if "x < block_at (blocks ?n)" for x
    proof -
      have "x div blk < blocks ?n" using that by (simp add: block_at_def less_mult_imp_div_less)
      then have "block_ok bytes (hs_output s1) (x div blk)" using ok none by simp
      moreover have "block_at (x div blk) + x mod blk = x" "x mod blk < blk" by (simp_all add: block_at_def)
      ultimately show ?thesis unfolding block_ok_def by metis
    qed
    then have "?out = map (hello_content bytes) [0..<block_at (blocks ?n)]" by simp
    then show ?thesis
      using c stop w last none idle log
      by (auto simp: hello_ended_def hello_log_def s1_def replicate_append_same)
  qed
qed

text \<open>The file filled up with zeros to whole blocks.\<close>

definition whole_blocks :: "u8 list \<Rightarrow> u8 list" where
  "whole_blocks bytes = bytes @ replicate (blocks (length bytes) * 131072 - length bytes) 0"

subsection \<open>Whole runs\<close>

lemma hello_start_submitted:
  assumes "he_open_rc e = 0" and "he_file e = Some bytes" and "he_channel_ok e"
    and n: "bytes \<noteq> []" "length bytes \<le> 2 ^ 28"
  obtains s1 where "hello_start e LARGE_FILE disk = Some (hello_submitted WaitWrite (he_rc e (blocks (length bytes) - 1)) s1)"
    and "hello_file (length bytes) s1" "hs_input s1 = hello_content bytes"
    and "bdev_write_offset s1 = block_offset (blocks (length bytes))" "file_write_offset s1 = 0"
    and "bdev_read_offset s1 = 0" "file_read_offset s1 = 0" "hs_out_file s1 = None" "hs_log s1 = []" "hs_waiting s1 = []"
    and "hs_in_flight s1 = map w_io (accepted_writes e (length bytes))"
proof -
  let ?n = "length bytes"
  define s where "s = \<lparr>hs_workload = LARGE_FILE, hs_buff = InputData 0, hs_buff_size = MAX_BLOCK_SIZE,
    hs_input = (\<lambda>i. if i < ?n then bytes ! i else 0), hs_output = (\<lambda>_. 0), hs_own = (\<lambda>_. 0), file_in_size = of_nat ?n,
    file_write_offset = 0, file_read_offset = 0, bdev_write_offset = 0, bdev_read_offset = 0, hs_calls = 0,
    hs_in_flight = [], hs_waiting = [], hs_disk = disk, hs_out_file = None, hs_log = []\<rparr>"
  have start: "hello_start e LARGE_FILE disk = hello_write e s"
    using assms(1-3) by (simp add: hello_start_def Let_def s_def)
  have f: "hello_file ?n s" using n by (simp add: hello_file_def s_def)
  have B: "0 < blocks ?n" using n(1) less_blocks[of 0 ?n] by simp
  define s1 where "s1 = s\<lparr>hs_buff := InputData (block_at (blocks ?n)), bdev_write_offset := block_offset (blocks ?n),
    hs_calls := blocks ?n, hs_in_flight := map w_io (accepted_writes e ?n)\<rparr>"
  have loop: "hello_write_loop e 0 s = Some (he_rc e (blocks ?n - 1), s1)"
    using hello_write_loop_result[OF f, of 0 e 0] B
    by (simp add: s_def s1_def accepted_writes_def)
  have "hs_input s = hello_content bytes" by (simp add: s_def hello_content_def fun_eq_iff)
  moreover have "hello_write e s = Some (hello_submitted WaitWrite (he_rc e (blocks ?n - 1)) s1)"
    using loop by (simp add: hello_write_def s_def)
  ultimately show ?thesis
    using f by (intro that[of s1]) (simp_all add: start s1_def hello_file_def, simp_all add: s_def)
qed

lemma accepted_writes_props:
  "distinct (accepted_writes e n)" "set (accepted_writes e n) = {j. j < blocks n \<and> he_rc e j = 0}"
  by (auto simp: accepted_writes_def)

lemma hello_start_writing:
  assumes "he_open_rc e = 0" and "he_file e = Some bytes" and "he_channel_ok e"
    and n: "bytes \<noteq> []" "length bytes \<le> 2 ^ 28" and lastrc: "he_rc e (blocks (length bytes) - 1) \<in> {0, - ENOMEM}"
  shows "\<exists>s0. hello_start e LARGE_FILE disk = Some s0 \<and> hello_writing e bytes 0 s0"
proof -
  obtain s1 where s1: "hello_start e LARGE_FILE disk =
      Some (hello_submitted WaitWrite (he_rc e (blocks (length bytes) - 1)) s1)"
    "hello_file (length bytes) s1" "hs_input s1 = hello_content bytes"
    "bdev_write_offset s1 = block_offset (blocks (length bytes))" "file_write_offset s1 = 0"
    "bdev_read_offset s1 = 0" "file_read_offset s1 = 0" "hs_out_file s1 = None" "hs_log s1 = []" "hs_waiting s1 = []"
    "hs_in_flight s1 = map w_io (accepted_writes e (length bytes))"
    by (rule hello_start_submitted[OF assms(1-5), of disk])
  have "hello_writing e bytes 0 (hello_submitted WaitWrite (he_rc e (blocks (length bytes) - 1)) s1)"
    using s1(2-11) lastrc accepted_writes_props[of e "length bytes"]
    by (auto simp: hello_writing_def Let_def hello_submitted_def hello_file_def
      intro!: exI[of _ "accepted_writes e (length bytes)"])
  then show ?thesis using s1(1) by blast
qed

text \<open>What the theorems assume of the environment, save the answers to the submissions.\<close>

definition hello_ready :: "hello_env \<Rightarrow> u8 list \<Rightarrow> bool" where
  "hello_ready e bytes \<longleftrightarrow>
     he_open_rc e = 0 \<and> he_file e = Some bytes \<and> he_channel_ok e \<and> he_out_open e \<and> bytes \<noteq> [] \<and> length bytes \<le> 2 ^ 28"

definition hello_phase :: "hello_env \<Rightarrow> u8 list \<Rightarrow> nat \<Rightarrow> hello_state \<Rightarrow> bool" where
  "hello_phase e bytes k s \<longleftrightarrow>
     (let B = blocks (length bytes)
      in if k < B then hello_writing e bytes k s
         else if k < 2 * B then hello_reading bytes (k - B) s
         else k = 2 * B \<and> hello_ended bytes s)"

lemma hello_phase_step:
  assumes p: "hello_phase e bytes k s" and io: "io \<in> set (hs_in_flight s)" and ok: "hello_ready e bytes" "\<forall>k. he_rc e k = 0"
  shows "\<exists>s'. hello_complete e io True junk s = Some s' \<and> hello_phase e bytes (Suc k) s'"
proof -
  let ?B = "blocks (length bytes)"
  have B: "0 < ?B" using ok(1) less_blocks[of 0 "length bytes"] by (simp add: hello_ready_def)
  consider "Suc k < ?B" | "Suc k = ?B" | "?B \<le> k" "k < 2 * ?B" | "2 * ?B \<le> k" by linarith
  then show ?thesis
  proof cases
    case 1
    then show ?thesis using hello_writing_complete[OF _ io 1] p by (simp add: hello_phase_def Let_def)
  next
    case 2
    then show ?thesis using hello_last_write[OF _ io 2 ok(2)] p B by (simp add: hello_phase_def Let_def)
  next
    case 3
    then have "hello_reading bytes (k - ?B) s" using p by (simp add: hello_phase_def Let_def)
    then obtain s' where "hello_complete e io True junk s = Some s'"
        "if Suc (k - ?B) < ?B then hello_reading bytes (Suc (k - ?B)) s' else hello_ended bytes s' \<and> Suc (k - ?B) = ?B"
      using hello_reading_complete[OF _ io, of bytes "k - ?B" e junk] ok(1) by (auto simp: hello_ready_def)
    then show ?thesis
      using 3 by (cases "Suc k < 2 * ?B") (auto simp: hello_phase_def Let_def Suc_diff_le)
  next
    case 4
    then show ?thesis using p io by (simp add: hello_phase_def Let_def hello_ended_def)
  qed
qed

lemma hello_run_phase:
  assumes "hello_run e s0 k s" and "hello_start e LARGE_FILE disk = Some s0"
    and ok: "hello_ready e bytes" "\<forall>k. he_rc e k = 0"
  shows "hello_phase e bytes k s"
  using assms(1)
proof (induction rule: hello_run.induct)
  case run_start
  have "0 < blocks (length bytes)" using ok(1) less_blocks[of 0 "length bytes"] by (simp add: hello_ready_def)
  then show ?case
    using hello_start_writing[of e bytes disk] ok assms(2) by (auto simp: hello_ready_def hello_phase_def Let_def)
next
  case (run_complete k s io junk s')
  then show ?case using hello_phase_step[OF run_complete.IH run_complete(2) ok, of junk] by auto
next
  case (run_wake k s s')
  then show ?case
    using ok(2) by (auto simp: hello_phase_def Let_def hello_writing_def hello_reading_def hello_ended_def split: if_splits)
qed

lemma hello_run_outcome:
  assumes "hello_ready e bytes" and "\<forall>k. he_rc e k = 0"
    and "hello_start e LARGE_FILE disk = Some s0" and "hello_run e s0 k s"
  shows "k \<le> 2 * blocks (length bytes) \<and>
    (hs_in_flight s = [] \<longleftrightarrow> k = 2 * blocks (length bytes)) \<and>
    (\<forall>io \<in> set (hs_in_flight s). \<forall>junk. hello_complete e io True junk s \<noteq> None) \<and>
    (if k = 2 * blocks (length bytes)
     then hs_out_file s = Some (whole_blocks bytes) \<and>
       hs_log s = replicate (blocks (length bytes) + 1) HFreeIo @ [HPutChannel, HClose, HStop 0]
     else hs_out_file s = None \<and> set (hs_log s) \<subseteq> {HFreeIo})"
proof -
  let ?B = "blocks (length bytes)"
  have p: "hello_phase e bytes k s" by (rule hello_run_phase[OF assms(4,3,1,2)])
  have acc: "accepted_writes e (length bytes) = [0..<?B]" using assms(2) by (simp add: accepted_writes_def)
  have next_io: "\<forall>io \<in> set (hs_in_flight s). \<forall>junk. hello_complete e io True junk s \<noteq> None"
    using hello_phase_step[OF p _ assms(1,2)] by fastforce
  consider "k < ?B" "hello_writing e bytes k s" | "?B \<le> k" "k < 2 * ?B" "hello_reading bytes (k - ?B) s" |
    "k = 2 * ?B" "hello_ended bytes s" using p by (auto simp: hello_phase_def Let_def split: if_splits)
  then show ?thesis
  proof cases
    case 1
    then have "hs_in_flight s \<noteq> []" by (auto simp: hello_writing_def Let_def acc)
    then show ?thesis using 1 next_io by (auto simp: hello_writing_def Let_def)
  next
    case 2
    then have "hs_in_flight s \<noteq> []" by (auto simp: hello_reading_def Let_def)
    then show ?thesis using 2 next_io by (auto simp: hello_reading_def Let_def)
  next
    case 3
    have "map (hello_content bytes) [0..<block_at ?B] = whole_blocks bytes"
      using blocks_cover[of "length bytes"]
      by (intro nth_equalityI) (auto simp: whole_blocks_def block_at_def hello_content_def nth_append)
    then show ?thesis using 3 by (simp add: hello_ended_def)
  qed
qed

text \<open>C38: a file of at most 256 MB that is not empty comes back whatever the order in which the bdev layer completes
  the requests, when it accepts and completes them all: while requests are in flight every completion
  leads on, and after two completions for each block of 128 KB the program has stopped with 0, has given
  its channel and descriptor back, and the output is the input, filled up with zeros to whole blocks. It
  stops and writes nothing before. Of the requests' structures it frees those of the writes and of the
  last read.\<close>

theorem hello_round_trip:
  assumes "hello_ready e bytes" and "\<forall>k. he_rc e k = 0"
  shows "\<exists>s0. hello_start e LARGE_FILE disk = Some s0 \<and> (\<forall>k s. hello_run e s0 k s \<longrightarrow>
    k \<le> 2 * blocks (length bytes) \<and> (hs_in_flight s = [] \<longleftrightarrow> k = 2 * blocks (length bytes)) \<and>
    (\<forall>io \<in> set (hs_in_flight s). \<forall>junk. hello_complete e io True junk s \<noteq> None) \<and>
    (if k = 2 * blocks (length bytes)
     then hs_out_file s = Some (whole_blocks bytes) \<and>
       hs_log s = replicate (blocks (length bytes) + 1) HFreeIo @ [HPutChannel, HClose, HStop 0]
     else hs_out_file s = None \<and> set (hs_log s) \<subseteq> {HFreeIo}))"
proof -
  obtain s0 where s0: "hello_start e LARGE_FILE disk = Some s0"
    using hello_start_writing[of e bytes disk] assms by (auto simp: hello_ready_def)
  show ?thesis using s0 hello_run_outcome[OF assms s0] by blast
qed

text \<open>A run in which not every write is accepted: \<open>k\<close> writes have succeeded, \<open>f\<close> have failed, and the program has
  stopped \<open>stops\<close> times.\<close>

abbreviation hello_failure :: "hello_event list" where
  "hello_failure \<equiv> [HPutChannel, HClose, HStop (- 1)]"

definition hello_counting :: "hello_env \<Rightarrow> nat \<Rightarrow> nat \<Rightarrow> nat \<Rightarrow> nat \<Rightarrow> hello_state \<Rightarrow> bool" where
  "hello_counting e n k f stops s \<longleftrightarrow>
     hello_file n s \<and> bdev_write_offset s = block_offset (blocks n) \<and> file_write_offset s = block_offset k \<and>
     hs_out_file s = None \<and> set (hs_waiting s) \<subseteq> {WaitWrite} \<and>
     filter (\<lambda>ev. ev \<noteq> HFreeIo) (hs_log s) = concat (replicate stops hello_failure) \<and>
     (\<exists>js. hs_in_flight s = map w_io js \<and> set js \<subseteq> {..<blocks n} \<and>
        length js + (k + f) = length (accepted_writes e n))"

lemma hello_counting_complete:
  assumes c: "hello_counting e n k f stops s" and io: "io \<in> set (hs_in_flight s)"
    and few: "length (accepted_writes e n) < blocks n"
  shows "\<exists>s'. hello_complete e io success junk s = Some s' \<and>
    (if success then hello_counting e n (Suc k) f stops s' else hello_counting e n k (Suc f) (Suc stops) s')"
proof -
  obtain js where js: "hs_in_flight s = map w_io js" "set js \<subseteq> {..<blocks n}"
      "length js + (k + f) = length (accepted_writes e n)"
    using c by (auto simp: hello_counting_def)
  obtain j where j: "io = w_io j" "j \<in> set js" using io js(1) by auto
  have fl: "hello_file n s" using c by (simp add: hello_counting_def)
  then have n: "n \<le> 2 ^ 28" by (simp add: hello_file_def)
  have rem: "remove1 (w_io j) (map w_io js) = map w_io (remove1 j js)" by (rule remove1_map) (rule w_io_inj)
  obtain disk where t: "hello_transfer io success junk (s\<lparr>hs_in_flight := remove1 io (hs_in_flight s)\<rparr>) =
      s\<lparr>hs_in_flight := map w_io (remove1 j js), hs_disk := disk\<rparr>"
    using rem by (simp add: hello_transfer_def Let_def j(1) js(1)) (simp add: w_io_def)
  have len: "length (remove1 j js) = length js - 1" and pos: "0 < length js"
    using j(2) length_pos_if_in_set[OF j(2)] by (simp_all add: length_remove1)
  then have left: "length (remove1 j js) + (Suc k + f) = length (accepted_writes e n)"
      "length (remove1 j js) + (k + Suc f) = length (accepted_writes e n)" using js(3) by linarith+
  then have k: "Suc k < blocks n" if success using few by linarith
  have sub: "set (remove1 j js) \<subseteq> {..<blocks n}" using js(2) set_remove1_subset[of j js] by blast
  have w: "io_is_write io" by (simp add: j(1) w_io_def)
  show ?thesis
  proof (cases success)
    case False
    then show ?thesis
      using c left(2) sub w t
      by (auto simp: hello_complete_def hello_write_complete_def hello_counting_def hello_log_def hello_file_def
          replicate_append_same[symmetric] simp del: replicate_Suc intro!: exI[of _ "remove1 j js"])
         (simp add: replicate_append_same[symmetric])
  next
    case True
    then have "Suc k \<le> 2048" "Suc k < blocks n" using k blocks_bound[OF n] by simp_all
    then have "\<not> (of_nat n :: u64) \<le> ucast (block_offset (Suc k))" using offset_less[OF _ n] by (simp add: not_le)
    moreover have "block_offset k + MAX_BLOCK_SIZE = block_offset (Suc k)" by (rule offset_next)
    ultimately show ?thesis
      using True c left(1) sub w t
      by (auto simp: hello_complete_def hello_write_complete_def hello_counting_def hello_log_def hello_file_def
          Let_def intro!: exI[of _ "remove1 j js"])
  qed
qed

text \<open>Waking up a write that was put off: nothing is left to submit.\<close>

lemma hello_counting_wake:
  assumes c: "hello_counting e n k f stops s" and wait: "hs_waiting s \<noteq> []"
  shows "\<exists>s'. hello_wake e s = Some s' \<and> hello_counting e n k f stops s'"
proof -
  let ?s = "s\<lparr>hs_waiting := tl (hs_waiting s)\<rparr>"
  have fl: "hello_file n ?s" using c by (simp add: hello_counting_def hello_file_def)
  have cb: "hd (hs_waiting s) = WaitWrite" using c wait by (cases "hs_waiting s") (auto simp: hello_counting_def)
  have n: "n \<le> 2 ^ 28" using fl by (simp add: hello_file_def)
  have "\<not> (ucast (bdev_write_offset ?s) < file_in_size ?s)"
    using c fl offset_less[OF blocks_bound[OF n] n] by (simp add: hello_counting_def hello_file_def)
  then have "hello_write_loop e 0 ?s = Some (0, ?s)" by (subst hello_write_loop.simps) simp
  then have "hello_wake e s = Some ?s"
    using fl by (simp add: hello_wake_def cb hello_write_def hello_file_def hello_submitted_def)
  moreover have "hello_counting e n k f stops ?s"
    using c wait by (auto simp: hello_counting_def hello_file_def dest: list.set_sel(2))
  ultimately show ?thesis by blast
qed

text \<open>C39: a write that the bdev layer refuses is never made up for: the program has gone on to the next block, so
  the count of the completed blocks cannot reach the size of the file. In every run in which some write
  is refused, with whatever codes and with whatever outcomes of the others, the program never reads,
  writes no output and never stops with 0. It stops, with -1, once for every write that fails, and at
  the start when the last submission has been refused with another code than \<open>-ENOMEM\<close>, each time giving
  back its channel and descriptor, so that with two such reasons they are given back twice. Without any
  it hangs: after as many completions as there are accepted writes nothing is left in flight, and it has
  not stopped.\<close>

theorem hello_refused_write_outcome:
  assumes "hello_ready e bytes" and "j < blocks (length bytes)" and "he_rc e j \<noteq> 0"
  defines "writes \<equiv> length (accepted_writes e (length bytes))"
    and "refused_last \<equiv> (if he_rc e (blocks (length bytes) - 1) \<in> {0, - ENOMEM} then 0 else 1)"
  shows "\<exists>s0. hello_start e LARGE_FILE disk = Some s0 \<and> (\<forall>k f s. hello_run_any e s0 k f s \<longrightarrow>
    k + f \<le> writes \<and> (hs_in_flight s = [] \<longleftrightarrow> k + f = writes) \<and> (\<forall>io \<in> set (hs_in_flight s). io_is_write io) \<and>
    (\<forall>io \<in> set (hs_in_flight s). \<forall>success junk. hello_complete e io success junk s \<noteq> None) \<and>
    hs_out_file s = None \<and>
    filter (\<lambda>ev. ev \<noteq> HFreeIo) (hs_log s) = concat (replicate (f + refused_last) [HPutChannel, HClose, HStop (- 1)]))"
proof -
  let ?n = "length bytes"
  have few: "length (accepted_writes e ?n) < blocks ?n"
    using length_filter_less[of j "[0..<blocks ?n]" "\<lambda>j. he_rc e j = 0"] assms(2,3) by (simp add: accepted_writes_def)
  obtain s1 where s1: "hello_start e LARGE_FILE disk = Some (hello_submitted WaitWrite (he_rc e (blocks ?n - 1)) s1)"
    "hello_file ?n s1" "hs_input s1 = hello_content bytes"
    "bdev_write_offset s1 = block_offset (blocks ?n)" "file_write_offset s1 = 0"
    "bdev_read_offset s1 = 0" "file_read_offset s1 = 0" "hs_out_file s1 = None" "hs_log s1 = []" "hs_waiting s1 = []"
    "hs_in_flight s1 = map w_io (accepted_writes e ?n)"
    by (rule hello_start_submitted[of e bytes disk]) (use assms(1) in \<open>auto simp: hello_ready_def\<close>)
  define s0 where "s0 = hello_submitted WaitWrite (he_rc e (blocks ?n - 1)) s1"
  have start: "hello_counting e ?n 0 0 refused_last s0"
    using s1(2-11) accepted_writes_props[of e ?n]
    by (auto simp: s0_def refused_last_def hello_counting_def hello_submitted_def hello_log_def hello_file_def
        intro!: exI[of _ "accepted_writes e ?n"])
  have c: "hello_counting e ?n k f (f + refused_last) s" if "hello_run_any e s0 k f s" for k f s
    using that
  proof (induction rule: hello_run_any.induct)
    case any_start
    show ?case using start by simp
  next
    case (any_success k f s io junk s')
    then show ?case using hello_counting_complete[OF any_success.IH any_success(2) few, of True junk] by simp
  next
    case (any_failure k f s io junk s')
    then show ?case using hello_counting_complete[OF any_failure.IH any_failure(2) few, of False junk] by simp
  next
    case (any_wake k f s s')
    then show ?case using hello_counting_wake by fastforce
  qed
  have "k + f \<le> writes \<and> (hs_in_flight s = [] \<longleftrightarrow> k + f = writes) \<and> (\<forall>io \<in> set (hs_in_flight s). io_is_write io) \<and>
    (\<forall>io \<in> set (hs_in_flight s). \<forall>success junk. hello_complete e io success junk s \<noteq> None) \<and>
    hs_out_file s = None \<and>
    filter (\<lambda>ev. ev \<noteq> HFreeIo) (hs_log s) = concat (replicate (f + refused_last) [HPutChannel, HClose, HStop (- 1)])"
    if "hello_run_any e s0 k f s" for k f s
  proof -
    have on: "\<forall>io \<in> set (hs_in_flight s). \<forall>success junk. hello_complete e io success junk s \<noteq> None"
      using hello_counting_complete[OF c[OF that] _ few] by fastforce
    show ?thesis using c[OF that] on by (auto simp: hello_counting_def writes_def w_io_def)
  qed
  then show ?thesis using s1(1) by (intro exI[of _ s0]) (auto simp: s0_def)
qed

subsection \<open>Concrete runs\<close>

definition hello_example_env :: "(nat \<Rightarrow> int) \<Rightarrow> hello_env" where
  "hello_example_env rc =
     \<lparr>he_open_rc = 0, he_file = Some [7, 8, 9], he_channel_ok = True, he_block_size = 512, he_write_unit = 1,
      he_alloc_ok = True, he_out_open = True, he_rc = rc\<rparr>"

lemma hello_example_ready: "hello_ready (hello_example_env rc) [7, 8, 9]"
  by (simp add: hello_ready_def hello_example_env_def)

lemma hello_example_blocks: "blocks (length [7, 8, 9 :: u8]) = 1"
  by (simp add: blocks_def)

text \<open>The single block of the file is written and read.\<close>

theorem hello_round_trip_witness:
  "\<exists>s s0. hs_out_file s = Some (whole_blocks [7, 8, 9]) \<and>
     hello_start (hello_example_env (\<lambda>_. 0)) LARGE_FILE (\<lambda>_. 0) = Some s0 \<and> hello_run (hello_example_env (\<lambda>_. 0)) s0 2 s"
proof -
  let ?e = "hello_example_env (\<lambda>_. 0)" and ?b = "[7, 8, 9] :: u8 list"
  note B = hello_example_blocks
  have rc: "\<forall>k. he_rc ?e k = 0" by (simp add: hello_example_env_def)
  have two: "2 * blocks (length ?b) = 2" using B by simp
  obtain s0 where s0: "hello_start ?e LARGE_FILE (\<lambda>_. 0) = Some s0"
    and run: "\<forall>k s. hello_run ?e s0 k s \<longrightarrow>
      k \<le> 2 * blocks (length ?b) \<and> (hs_in_flight s = [] \<longleftrightarrow> k = 2 * blocks (length ?b)) \<and>
      (\<forall>io \<in> set (hs_in_flight s). \<forall>junk. hello_complete ?e io True junk s \<noteq> None) \<and>
      (if k = 2 * blocks (length ?b)
       then hs_out_file s = Some (whole_blocks ?b) \<and>
         hs_log s = replicate (blocks (length ?b) + 1) HFreeIo @ [HPutChannel, HClose, HStop 0]
       else hs_out_file s = None \<and> set (hs_log s) \<subseteq> {HFreeIo})"
    using hello_round_trip[OF hello_example_ready rc] by blast
  have trip: "(hs_in_flight s = [] \<longleftrightarrow> k = 2) \<and>
      (\<forall>io \<in> set (hs_in_flight s). hello_complete ?e io True (\<lambda>_. 0) s \<noteq> None) \<and>
      (k = 2 \<longrightarrow> hs_out_file s = Some (whole_blocks ?b))" if "hello_run ?e s0 k s" for k s
    using run[rule_format, OF that] unfolding two by (simp split: if_splits)
  have more: "\<exists>s'. hello_run ?e s0 (Suc k) s'" if r: "hello_run ?e s0 k s" and "k \<noteq> 2" for k s
  proof -
    have "hs_in_flight s \<noteq> []" using trip[OF r] that(2) by simp
    then obtain io where io: "io \<in> set (hs_in_flight s)" by (cases "hs_in_flight s") auto
    then obtain s' where "hello_complete ?e io True (\<lambda>_. 0) s = Some s'" using trip[OF r] by blast
    then show ?thesis using hello_run.run_complete[OF r io] by blast
  qed
  obtain s1 where "hello_run ?e s0 (Suc 0) s1" using more[OF hello_run.run_start] by auto
  then obtain s2 where r: "hello_run ?e s0 2 s2" using more[of "Suc 0" s1] by (auto simp: numeral_2_eq_2)
  then show ?thesis using s0 trip[OF r] by blast
qed

text \<open>A file of two blocks: the first write is refused; the second one is in flight and then succeeds, which leaves
  the program hanging, or fails, which stops it.\<close>

definition hello_two_env :: hello_env where
  "hello_two_env =
     \<lparr>he_open_rc = 0, he_file = Some (replicate (Suc blk) 7), he_channel_ok = True, he_block_size = 512,
      he_write_unit = 1, he_alloc_ok = True, he_out_open = True, he_rc = (\<lambda>k. if k = 0 then - ENOMEM else 0)\<rparr>"

theorem hello_refused_write_outcome_witness:
  "\<exists>s0 s1 s2. hello_start hello_two_env LARGE_FILE (\<lambda>_. 0) = Some s0 \<and>
     hello_run_any hello_two_env s0 1 0 s1 \<and> hs_in_flight s1 = [] \<and> set (hs_log s1) \<subseteq> {HFreeIo} \<and>
     hello_run_any hello_two_env s0 0 1 s2 \<and> hs_in_flight s2 = [] \<and> HStop (- 1) \<in> set (hs_log s2)"
proof -
  let ?e = hello_two_env and ?b = "replicate (Suc blk) (7 :: u8)"
  have len: "length ?b = Suc blk" by (rule length_replicate)
  have B: "blocks (length ?b) = 2" unfolding len by (simp add: blocks_def)
  have ne: "?b \<noteq> []" using len by (metis list.size(3) nat.distinct(1))
  have ready: "hello_ready ?e ?b"
    unfolding hello_ready_def len using ne by (simp add: hello_two_env_def del: replicate_Suc)
  have rc: "he_rc ?e 0 \<noteq> 0" "he_rc ?e 1 = 0" by (simp_all add: hello_two_env_def)
  have "[0..<2] = [0, 1 :: nat]" by code_simp
  then have acc: "length (accepted_writes ?e (length ?b)) = 1"
    unfolding accepted_writes_def B using rc by simp
  have last: "(if he_rc ?e (blocks (length ?b) - 1) \<in> {0, - ENOMEM} then 0 else 1) = (0 :: nat)"
    unfolding B using rc by simp
  have lt: "0 < blocks (length ?b)" unfolding B by simp
  obtain s0 where s0: "hello_start ?e LARGE_FILE (\<lambda>_. 0) = Some s0"
    and run: "\<And>k f s. hello_run_any ?e s0 k f s \<Longrightarrow>
      k + f \<le> 1 \<and> (hs_in_flight s = [] \<longleftrightarrow> k + f = 1) \<and> (\<forall>io \<in> set (hs_in_flight s). io_is_write io) \<and>
      (\<forall>io \<in> set (hs_in_flight s). \<forall>success junk. hello_complete ?e io success junk s \<noteq> None) \<and>
      hs_out_file s = None \<and>
      filter (\<lambda>ev. ev \<noteq> HFreeIo) (hs_log s) = concat (replicate (f + 0) [HPutChannel, HClose, HStop (- 1)])"
    using hello_refused_write_outcome[OF ready lt rc(1), of "\<lambda>_. 0", unfolded acc last] by blast
  have start: "hello_run_any ?e s0 0 0 s0" by (rule any_start)
  then have "hs_in_flight s0 \<noteq> []" using run by fastforce
  then obtain io where io: "io \<in> set (hs_in_flight s0)" by (cases "hs_in_flight s0") auto
  obtain s1 s2 where "hello_complete ?e io True (\<lambda>_. 0) s0 = Some s1" "hello_complete ?e io False (\<lambda>_. 0) s0 = Some s2"
    using run[OF start] io by (meson not_None_eq)
  then have r: "hello_run_any ?e s0 1 0 s1" "hello_run_any ?e s0 0 1 s2"
    using any_success[OF start io] any_failure[OF start io] by simp_all
  have "filter (\<lambda>ev. ev \<noteq> HFreeIo) (hs_log s1) = []" "filter (\<lambda>ev. ev \<noteq> HFreeIo) (hs_log s2) = hello_failure"
    using run[OF r(1)] run[OF r(2)] by simp_all
  then have "set (hs_log s1) \<subseteq> {HFreeIo}" "HStop (- 1) \<in> set (filter (\<lambda>ev. ev \<noteq> HFreeIo) (hs_log s2))"
    by (auto simp: filter_empty_conv)
  then have "set (hs_log s1) \<subseteq> {HFreeIo}" "HStop (- 1) \<in> set (hs_log s2)" by simp_all
  moreover have "hs_in_flight s1 = []" "hs_in_flight s2 = []" using run[OF r(1)] run[OF r(2)] by simp_all
  ultimately show ?thesis using s0 r by blast
qed

end
