(* ===== verification/Doca_Local.thy ===== *)
theory Doca_Local
  imports Comp_Files
begin

text \<open>
  The stand-alone program \<open>doca-compression/compression_local.c\<close>: a file is compressed, and what comes out
  decompressed again, in hardware. It is an earlier copy of \<open>compression_local_core.c\<close>; the functions that
  are the same word for word are the definitions of \<open>Comp_Core\<close> under the names of this file. It differs
  in the sizes (files up to 1 GB, no minimum for a destination), in the callback of the destination, in
  \<open>O_TRUNC\<close>, in the report, and in the method \<open>COMPRESS_DEFLATE_SW\<close>, which compresses whatever the job is.
\<close>

subsection \<open>The functions\<close>

abbreviation LOCAL_MAX_FILE_SIZE :: u64 where "LOCAL_MAX_FILE_SIZE \<equiv> 1073741824"

definition local_dst_size :: "doca_job_type \<Rightarrow> u64 \<Rightarrow> u64" where
  "local_dst_size job file_size =
     (case job of
        DOCA_COMPRESS_DEFLATE_JOB \<Rightarrow>
          (let n = max (file_size + 16) (file_size * 2)
           in if n > LOCAL_MAX_FILE_SIZE then LOCAL_MAX_FILE_SIZE else n)
      | DOCA_DECOMPRESS_DEFLATE_JOB \<Rightarrow> min LOCAL_MAX_FILE_SIZE (DECOMPRESS_RATIO * file_size))"

definition local_process_job ::
  "comp_env \<Rightarrow> doca_job_type \<Rightarrow> u8 list \<Rightarrow> nat \<Rightarrow> comp_world \<Rightarrow> (doca_error \<times> comp_world) run" where
  "local_process_job = process_job"

definition local_populate_dst_buf ::
  "comp_env \<Rightarrow> nat \<Rightarrow> comp_world \<Rightarrow> (doca_error \<times> ptr \<times> comp_world) run" where
  "local_populate_dst_buf e n w =
     (let (p, w) = heap_calloc e n w
      in if p = PNull then Returns (DOCA_ERROR_NO_MEMORY, PNull, w)
         else
           (let (r, w) = doca e SetDstMemrange w
            in if r \<noteq> DOCA_SUCCESS then run_bind (heap_free p w) (\<lambda>w. Returns (r, PNull, w))
               else
                 (let (r, w) = doca e StartDstMmap w
                  in if r \<noteq> DOCA_SUCCESS then run_bind (heap_free p w) (\<lambda>w. Returns (r, PNull, w))
                     else
                       (let (r, w) = doca e GetDstBuf w
                        in if r \<noteq> DOCA_SUCCESS then Returns (r, PNull, w)
                           else Returns (r, p, w\<lparr>cw_doca_bufs := cw_doca_bufs w + 1\<rparr>)))))"

definition local_run_job ::
  "comp_env \<Rightarrow> u8 list \<Rightarrow> doca_job_type \<Rightarrow> nat \<Rightarrow> ptr \<Rightarrow> ptr \<Rightarrow> comp_world \<Rightarrow> (comp_out \<times> comp_world) run" where
  "local_run_job e data job n p0 dst w =
     run_bind (local_process_job e job data n w) (\<lambda>(r, w).
       if r \<noteq> DOCA_SUCCESS then hw_failed r p0 (doca_buf_refcount_rm (doca_buf_refcount_rm w))
       else
         (let (_, result, chksum) = dv_job e job data n
          in run_bind (heap_write dst 0 result w) (\<lambda>w.
               Returns (\<lparr>co_error = DOCA_SUCCESS, co_file = dst, co_len = Some (length result),
                         co_chksum = Some chksum\<rparr>,
                        doca_buf_refcount_rm (doca_buf_refcount_rm w)))))"

definition local_compress_file_hw ::
  "comp_env \<Rightarrow> ptr \<Rightarrow> u8 list \<Rightarrow> doca_job_type \<Rightarrow> nat \<Rightarrow> ptr \<Rightarrow> comp_world \<Rightarrow>
     (comp_out \<times> comp_world) run" where
  "local_compress_file_hw e src data job n p0 w =
     (let (r, w) = doca e SetSrcMemrange w
      in if r \<noteq> DOCA_SUCCESS then hw_failed r p0 (comp_munmap src (length data) w)
         else
           (let (r, w) = doca e SetSrcFreeCb w
            in if r \<noteq> DOCA_SUCCESS then hw_failed r p0 (comp_munmap src (length data) w)
               else
                 (let (r, w) = doca e StartSrcMmap w
                  in if r \<noteq> DOCA_SUCCESS then hw_failed r p0 (comp_munmap src (length data) w)
                     else
                       (let (r, w) = doca e GetSrcBuf w
                        in if r \<noteq> DOCA_SUCCESS then hw_failed r p0 w
                           else
                             run_bind (local_populate_dst_buf e n (w\<lparr>cw_doca_bufs := cw_doca_bufs w + 1\<rparr>))
                               (\<lambda>(r, dst, w).
                                  if r \<noteq> DOCA_SUCCESS then hw_failed r p0 (doca_buf_refcount_rm w)
                                  else local_run_job e data job n p0 dst w)))))"

definition local_compress_file_sw ::
  "comp_env \<Rightarrow> u8 list \<Rightarrow> nat \<Rightarrow> ptr \<Rightarrow> comp_world \<Rightarrow> (doca_error \<times> nat option \<times> comp_world) run" where
  "local_compress_file_sw = compress_file_sw"

definition local_calculate_checksum_sw :: "comp_env \<Rightarrow> u8 list \<Rightarrow> u64" where
  "local_calculate_checksum_sw = calculate_checksum_sw"

definition local_compress_file ::
  "comp_env \<Rightarrow> ptr \<Rightarrow> u8 list \<Rightarrow> doca_job_type \<Rightarrow> file_compression_compress_method \<Rightarrow> comp_world \<Rightarrow>
     (comp_out \<times> comp_world) run" where
  "local_compress_file e src data job method w =
     (let n = unat (local_dst_size job (of_nat (length data)));
          (p, w) = heap_calloc e n w
      in if p = PNull
         then Returns (\<lparr>co_error = DOCA_ERROR_NO_MEMORY, co_file = PNull, co_len = None, co_chksum = None\<rparr>, w)
         else if method = COMPRESS_DEFLATE_SW
         then run_bind (local_compress_file_sw e data n p w) (\<lambda>(r, len, w).
                Returns (\<lparr>co_error = r, co_file = p, co_len = len,
                          co_chksum = Some (local_calculate_checksum_sw e data)\<rparr>, w))
         else local_compress_file_hw e src data job n p w)"

text \<open>The descriptor stays open when the file has been mapped.\<close>

definition local_read_file ::
  "comp_env \<Rightarrow> string \<Rightarrow> comp_world \<Rightarrow> doca_error \<times> (ptr \<times> nat) option \<times> comp_world" where
  "local_read_file e path w =
     (case cw_files w path of
        None \<Rightarrow> (DOCA_ERROR_IO_FAILED, None, w)
      | Some content \<Rightarrow>
          (if \<not> dv_open e path then (DOCA_ERROR_IO_FAILED, None, w)
           else if \<not> dv_fstat e path then (DOCA_ERROR_IO_FAILED, None, w)
           else if content = [] \<or> length content > unat LOCAL_MAX_FILE_SIZE
           then (DOCA_ERROR_INVALID_VALUE, None, w)
           else if \<not> dv_mmap e path then (DOCA_ERROR_NO_MEMORY, None, w)
           else (DOCA_SUCCESS, Some (PMapped path, length content),
                 w\<lparr>cw_open_fds := cw_open_fds w + 1\<rparr>)))"

definition local_write_file ::
  "comp_env \<Rightarrow> string \<Rightarrow> ptr \<Rightarrow> u8 list \<Rightarrow> comp_world \<Rightarrow> (doca_error \<times> comp_world) run" where
  "local_write_file e path p bs w =
     (if \<not> dv_open e path then run_bind (heap_free p w) (\<lambda>w. Returns (DOCA_ERROR_IO_FAILED, w))
      else
        (let n = dv_write e path (length bs);
             w = w\<lparr>cw_files := (cw_files w)(path \<mapsto> take (nat n) bs)\<rparr>
         in if n \<noteq> int (length bs)
            then run_bind (heap_free p w) (\<lambda>w. Returns (DOCA_ERROR_IO_FAILED, w))
            else Returns (DOCA_SUCCESS, w)))"

text \<open>Neither function looks at the result of reading or writing; a length that was not read is a
  variable that was never written.\<close>

definition local_file_compressor ::
  "comp_env \<Rightarrow> string \<Rightarrow> string \<Rightarrow> file_compression_compress_method \<Rightarrow> comp_world \<Rightarrow>
     (doca_error \<times> u64 option \<times> comp_world) run" where
  "local_file_compressor e path out_path method w =
     (case local_read_file e path w of (_, file, w) \<Rightarrow>
       (case file of
          None \<Rightarrow> Undefined
        | Some (src, len) \<Rightarrow>
            run_bind (source_bytes w src len) (\<lambda>data.
            run_bind (local_compress_file e src data DOCA_COMPRESS_DEFLATE_JOB method w) (\<lambda>(out, w).
              if co_error out \<noteq> DOCA_SUCCESS
              then run_bind (heap_free (co_file out) w) (\<lambda>w. Returns (co_error out, co_chksum out, w))
              else
                run_bind (heap_read w (co_file out) 0 (the (co_len out))) (\<lambda>bs.
                run_bind (local_write_file e out_path (co_file out) bs w) (\<lambda>(r, w).
                  Returns (co_error out, co_chksum out, w)))))))"

definition local_file_decompressor ::
  "comp_env \<Rightarrow> string \<Rightarrow> string \<Rightarrow> u64 \<Rightarrow> comp_world \<Rightarrow> (doca_error \<times> comp_world) run" where
  "local_file_decompressor e path out_path original_checksum w =
     (case local_read_file e path w of (_, file, w) \<Rightarrow>
       (case file of
          None \<Rightarrow> Undefined
        | Some (src, len) \<Rightarrow>
            run_bind (source_bytes w src len) (\<lambda>data.
            run_bind (local_compress_file e src data DOCA_DECOMPRESS_DEFLATE_JOB COMPRESS_DEFLATE_HW w) (\<lambda>(out, w).
              if co_error out \<noteq> DOCA_SUCCESS
              then run_bind (heap_free (co_file out) w) (\<lambda>w. Returns (co_error out, w))
              else if co_chksum out \<noteq> Some original_checksum
              then run_bind (heap_free (co_file out) w) (\<lambda>w. Returns (DOCA_ERROR_BAD_STATE, w))
              else
                run_bind (heap_read w (co_file out) 0 (the (co_len out))) (\<lambda>bs.
                run_bind (local_write_file e out_path (co_file out) bs w) (\<lambda>(r, w).
                run_bind (heap_free (co_file out) w) (\<lambda>w. Returns (DOCA_SUCCESS, w))))))))"

definition local_supported :: "(doca_job_type \<Rightarrow> doca_error) \<Rightarrow> int" where
  "local_supported = compress_jobs_compress_decompress_is_supported"

text \<open>The core objects are only destroyed again for the method in hardware.\<close>

definition local_init ::
  "comp_env \<Rightarrow> file_compression_compress_method \<Rightarrow> comp_world \<Rightarrow> doca_error \<times> comp_world" where
  "local_init e method w =
     (let (r, w) = doca e CompressCreate w
      in if r \<noteq> DOCA_SUCCESS then (r, w)
         else
           (let (r, w) = doca e OpenDevice w
            in if r \<noteq> DOCA_SUCCESS then (r, snd (doca e CompressDestroy w))
               else
                 (let (r, w) = doca e InitCoreObjects w
                  in if r \<noteq> DOCA_SUCCESS
                     then (let w = (if method = COMPRESS_DEFLATE_HW then snd (doca e DestroyCoreObjects w) else w)
                           in (r, snd (doca e CompressDestroy w)))
                     else (DOCA_SUCCESS, w))))"

definition local_cleanup :: "comp_env \<Rightarrow> comp_world \<Rightarrow> comp_world" where
  "local_cleanup = file_compression_cleanup"

text \<open>\<open>main\<close>; \<open>e\<close> is met up to the first cleanup, \<open>e'\<close> from the second set-up on. The configuration is all zero
  at first, which is the method in hardware.\<close>

definition local_main :: "comp_env \<Rightarrow> comp_env \<Rightarrow> comp_world \<Rightarrow> (int \<times> comp_world) run" where
  "local_main e e' w =
     (let (r, w) = doca e LogBackend w
      in if r \<noteq> DOCA_SUCCESS then Returns (EXIT_FAILURE, w)
         else
           (let (r, w) = local_init e COMPRESS_DEFLATE_HW w
            in if r \<noteq> DOCA_SUCCESS then Returns (EXIT_FAILURE, w)
               else run_bind (local_file_compressor e ''input.txt'' ''input-comp.txt'' COMPRESS_DEFLATE_HW w)
                 (\<lambda>(r, chk, w).
                    if r \<noteq> DOCA_SUCCESS then Returns (EXIT_FAILURE, local_cleanup e w)
                    else
                      (let (r, w) = local_init e' COMPRESS_DEFLATE_HW (local_cleanup e w)
                       in if r \<noteq> DOCA_SUCCESS then Returns (EXIT_FAILURE, w)
                          else (case chk of
                                  None \<Rightarrow> Undefined
                                | Some checksum \<Rightarrow>
                                    run_bind (local_file_decompressor e' ''input-comp.txt'' ''input-decomp.txt'' checksum w)
                                      (\<lambda>(r, w). Returns (if r \<noteq> DOCA_SUCCESS then EXIT_FAILURE else EXIT_SUCCESS,
                                         local_cleanup e' w)))))))"

subsection \<open>Sizes\<close>

lemma local_dst_size_limit: "unat (local_dst_size job n) \<le> 2 ^ 30"
  by (cases job) (auto simp: local_dst_size_def Let_def word_less_nat_alt unat_min)

text \<open>There is no room for data that compressed better than 5:1, however small it is.\<close>

lemma local_dst_size_ratio:
  "5 * unat n < m \<Longrightarrow> m \<le> 2 ^ 60 \<Longrightarrow> unat (local_dst_size DOCA_DECOMPRESS_DEFLATE_JOB n) < m"
proof -
  assume m: "5 * unat n < m" "m \<le> 2 ^ 60"
  then have "unat (5 :: u64) * unat n < 2 ^ LENGTH(64)" by simp
  then have "unat (DECOMPRESS_RATIO * n) = 5 * unat n" using unat_times_no_wrap[of 5 n] by simp
  then show ?thesis using m by (simp add: local_dst_size_def unat_min min_less_iff_disj)
qed

subsection \<open>A job that succeeds\<close>

definition local_yields :: "comp_env \<Rightarrow> doca_job_type \<Rightarrow> u8 list \<Rightarrow> u8 list \<Rightarrow> u64 \<Rightarrow> bool" where
  "local_yields e job data c chk \<longleftrightarrow>
     (let n = unat (local_dst_size job (of_nat (length data)))
      in length c \<le> n \<and> dv_job e job data n = (DOCA_SUCCESS, c, chk))"

text \<open>What a part of the program does to the world: the new contents of the heap from block \<open>k\<close> on, the new
  contents of a file, the descriptors it leaves open; DOCA's buffers and contexts are balanced.\<close>

definition local_step ::
  "comp_world \<Rightarrow> (nat \<Rightarrow> u8 list option) \<Rightarrow> nat \<Rightarrow> (string \<Rightarrow> u8 list option) \<Rightarrow> nat \<Rightarrow> comp_world \<Rightarrow> bool" where
  "local_step w heap blocks files fds w' \<longleftrightarrow>
     cw_heap w' = heap \<and> cw_next w' = cw_next w + blocks \<and> cw_files w' = files \<and>
     cw_open_fds w' = cw_open_fds w + fds \<and> cw_doca_bufs w' = cw_doca_bufs w \<and> contexts w' = contexts w"

lemma local_hw_success:
  assumes acc: "job_accepting e" and job: "dv_job e job data n = (DOCA_SUCCESS, c, chk)" and len: "length c \<le> n"
  shows "\<exists>w'. local_compress_file_hw e src data job n p0 w =
      Returns (\<lparr>co_error = DOCA_SUCCESS, co_file = PHeap (cw_next w), co_len = Some (length c), co_chksum = Some chk\<rparr>, w') \<and>
    local_step w ((cw_heap w)(cw_next w \<mapsto> c @ replicate (n - length c) 0)) 1 (cw_files w) 0 w'"
proof -
  have rc: "dv_rc e c = DOCA_SUCCESS" "dv_alloc e a" for c a using acc by (simp_all add: job_accepting_def)
  show ?thesis
    by (simp add: local_compress_file_hw_def rc doca_def local_populate_dst_buf_def heap_calloc_def Let_def
        local_run_job_def local_process_job_def process_job_success[OF acc] job heap_write_def len local_step_def
        contexts_def doca_buf_refcount_rm_def del: run_bind_Returns)
qed

lemma local_compress_success:
  assumes acc: "job_accepting e" and y: "local_yields e job data c chk"
  shows "\<exists>w' pad pad'. local_compress_file e src data job COMPRESS_DEFLATE_HW w =
      Returns (\<lparr>co_error = DOCA_SUCCESS, co_file = PHeap (cw_next w + 1), co_len = Some (length c), co_chksum = Some chk\<rparr>, w') \<and>
    local_step w ((cw_heap w)(cw_next w \<mapsto> pad, cw_next w + 1 \<mapsto> c @ pad')) 2 (cw_files w) 0 w'"
proof -
  let ?n = "unat (local_dst_size job (of_nat (length data)))"
  let ?w1 = "w\<lparr>cw_heap := (cw_heap w)(cw_next w \<mapsto> replicate ?n 0), cw_next := cw_next w + 1\<rparr>"
  have al: "dv_alloc e (cw_next w)" using acc by (simp add: job_accepting_def)
  have "dv_job e job data ?n = (DOCA_SUCCESS, c, chk)" "length c \<le> ?n" using y by (simp_all add: local_yields_def Let_def)
  from local_hw_success[OF acc this, of src "PHeap (cw_next w)" ?w1]
  obtain w' where "local_compress_file_hw e src data job ?n (PHeap (cw_next w)) ?w1 =
      Returns (\<lparr>co_error = DOCA_SUCCESS, co_file = PHeap (cw_next w + 1), co_len = Some (length c), co_chksum = Some chk\<rparr>, w')"
    "local_step ?w1 ((cw_heap ?w1)(cw_next ?w1 \<mapsto> c @ replicate (?n - length c) 0)) 1 (cw_files ?w1) 0 w'" by auto
  then show ?thesis using al
    by (intro exI[of _ w'] exI[of _ "replicate ?n 0"] exI[of _ "replicate (?n - length c) 0"])
      (simp add: local_compress_file_def heap_calloc_def Let_def local_step_def)
qed

subsection \<open>Files through the program\<close>

text \<open>Everything is granted, files can be mapped.\<close>

definition local_accepting :: "comp_env \<Rightarrow> bool" where
  "local_accepting e \<longleftrightarrow> comp_accepting e \<and> (\<forall>path. dv_mmap e path)"

lemma local_reads:
  assumes "cw_files w path = Some c" and "c \<noteq> []" and "length c \<le> 2 ^ 30" and "local_accepting e"
  shows "local_read_file e path w =
      (DOCA_SUCCESS, Some (PMapped path, length c), w\<lparr>cw_open_fds := cw_open_fds w + 1\<rparr>)"
    and "source_bytes (w\<lparr>cw_open_fds := k\<rparr>) (PMapped path) (length c) = Returns c"
  using assms by (simp_all add: local_read_file_def source_bytes_def local_accepting_def comp_accepting_def)

lemma local_writes:
  "local_accepting e \<Longrightarrow>
     local_write_file e path p bs w = Returns (DOCA_SUCCESS, w\<lparr>cw_files := (cw_files w)(path \<mapsto> bs)\<rparr>)"
  by (simp add: local_write_file_def local_accepting_def comp_accepting_def Let_def)

lemma local_compressor_success:
  assumes acc: "local_accepting e" and src: "cw_files w path = Some data" "data \<noteq> []" "length data \<le> 2 ^ 30"
    and y: "local_yields e DOCA_COMPRESS_DEFLATE_JOB data c chk"
  shows "\<exists>w' pad pad'. local_file_compressor e path out COMPRESS_DEFLATE_HW w = Returns (DOCA_SUCCESS, Some chk, w') \<and>
    local_step w ((cw_heap w)(cw_next w \<mapsto> pad, cw_next w + 1 \<mapsto> c @ pad')) 2 ((cw_files w)(out \<mapsto> c)) 1 w'"
proof -
  let ?w1 = "w\<lparr>cw_open_fds := cw_open_fds w + 1\<rparr>"
  have jobs: "job_accepting e" using acc by (simp add: local_accepting_def comp_accepting_def)
  obtain w2 pad pad' where c: "local_compress_file e (PMapped path) data DOCA_COMPRESS_DEFLATE_JOB COMPRESS_DEFLATE_HW ?w1 =
      Returns (\<lparr>co_error = DOCA_SUCCESS, co_file = PHeap (cw_next w + 1), co_len = Some (length c), co_chksum = Some chk\<rparr>, w2)"
    and s: "local_step ?w1 ((cw_heap w)(cw_next w \<mapsto> pad, cw_next w + 1 \<mapsto> c @ pad')) 2 (cw_files w) 0 w2"
    using local_compress_success[OF jobs y, of "PMapped path" ?w1] by auto
  have "heap_read w2 (PHeap (cw_next w + 1)) 0 (length c) = Returns c" using s by (simp add: local_step_def heap_read_def)
  then have "local_file_compressor e path out COMPRESS_DEFLATE_HW w =
      Returns (DOCA_SUCCESS, Some chk, w2\<lparr>cw_files := (cw_files w2)(out \<mapsto> c)\<rparr>)"
    using c by (simp add: local_file_compressor_def local_reads[OF src acc] local_writes[OF acc] del: run_bind_Returns)
  then show ?thesis using s by (auto simp: local_step_def)
qed

lemma local_decompressor_success:
  assumes acc: "local_accepting e" and src: "cw_files w path = Some data" "data \<noteq> []" "length data \<le> 2 ^ 30"
    and y: "local_yields e DOCA_DECOMPRESS_DEFLATE_JOB data c chk" and fresh: "comp_fresh w"
  shows "\<exists>w' pad. local_file_decompressor e path out chk0 w = Returns (if chk = chk0 then DOCA_SUCCESS else DOCA_ERROR_BAD_STATE, w') \<and>
    local_step w ((cw_heap w)(cw_next w \<mapsto> pad)) 2 (if chk = chk0 then (cw_files w)(out \<mapsto> c) else cw_files w) 1 w'"
proof -
  let ?w1 = "w\<lparr>cw_open_fds := cw_open_fds w + 1\<rparr>" and ?p = "PHeap (cw_next w + 1)"
  have jobs: "job_accepting e" using acc by (simp add: local_accepting_def comp_accepting_def)
  obtain w2 pad pad' where c: "local_compress_file e (PMapped path) data DOCA_DECOMPRESS_DEFLATE_JOB COMPRESS_DEFLATE_HW ?w1 =
      Returns (\<lparr>co_error = DOCA_SUCCESS, co_file = ?p, co_len = Some (length c), co_chksum = Some chk\<rparr>, w2)"
    and s: "local_step ?w1 ((cw_heap w)(cw_next w \<mapsto> pad, cw_next w + 1 \<mapsto> c @ pad')) 2 (cw_files w) 0 w2"
    using local_compress_success[OF jobs y, of "PMapped path" ?w1] by auto
  have read: "heap_read w2 ?p 0 (length c) = Returns c" using s by (simp add: local_step_def heap_read_def)
  have free: "heap_free ?p (w2\<lparr>cw_files := f\<rparr>) = Returns (w2\<lparr>cw_files := f, cw_heap := (cw_heap w)(cw_next w \<mapsto> pad)\<rparr>)" for f
  proof -
    have "cw_heap w (Suc (cw_next w)) = None" using fresh by (simp add: comp_fresh_def)
    then have "((cw_heap w)(cw_next w \<mapsto> pad, Suc (cw_next w) := None)) = (cw_heap w)(cw_next w \<mapsto> pad)" by (auto simp: fun_eq_iff)
    then show ?thesis using s by (simp add: local_step_def heap_free_def)
  qed
  let ?f = "if chk = chk0 then (cw_files w2)(out \<mapsto> c) else cw_files w2"
  have "w2\<lparr>cw_files := cw_files w2\<rparr> = w2" by simp
  with free[of "cw_files w2"] have free0: "heap_free ?p w2 = Returns (w2\<lparr>cw_heap := (cw_heap w)(cw_next w \<mapsto> pad)\<rparr>)" by simp
  have "local_file_decompressor e path out chk0 w =
      Returns (if chk = chk0 then DOCA_SUCCESS else DOCA_ERROR_BAD_STATE, w2\<lparr>cw_files := ?f, cw_heap := (cw_heap w)(cw_next w \<mapsto> pad)\<rparr>)"
    using c read free free0
    by (simp add: local_file_decompressor_def local_reads[OF src acc] local_writes[OF acc] del: run_bind_Returns)
  then show ?thesis using s by (intro exI[of _ "w2\<lparr>cw_files := ?f, cw_heap := (cw_heap w)(cw_next w \<mapsto> pad)\<rparr>"] exI[of _ pad])
    (simp add: local_step_def)
qed

lemma local_init_ok:
  assumes "local_accepting e"
  shows "fst (local_init e m w) = DOCA_SUCCESS" and "contexts (snd (local_init e m w)) = contexts w + 1"
    and "contexts (local_cleanup e w) = contexts w - 1"
    and "dv_rc e c = DOCA_SUCCESS"
  using assms
  by (simp_all add: local_accepting_def comp_accepting_def job_accepting_def local_init_def local_cleanup_def
      contexts_doca Let_def case_prod_beta)

lemma local_init_world [simp]:
  "cw_heap (snd (local_init e m w)) = cw_heap w" "cw_next (snd (local_init e m w)) = cw_next w"
  "cw_files (snd (local_init e m w)) = cw_files w" "cw_open_fds (snd (local_init e m w)) = cw_open_fds w"
  "cw_doca_bufs (snd (local_init e m w)) = cw_doca_bufs w"
  "cw_heap (local_cleanup e w) = cw_heap w" "cw_next (local_cleanup e w) = cw_next w"
  "cw_files (local_cleanup e w) = cw_files w" "cw_open_fds (local_cleanup e w) = cw_open_fds w"
  "cw_doca_bufs (local_cleanup e w) = cw_doca_bufs w"
  by (simp_all add: local_init_def local_cleanup_def file_compression_cleanup_def Let_def case_prod_beta doca_def)

text \<open>C40: the program compresses a file and decompresses the result. When the checksum of the decompressed data is
  that of the compression, it succeeds and the last file has the content of the first; otherwise it fails
  and does not touch the last file. In both cases DOCA's contexts and buffers are balanced; but three heap
  blocks, the result of the compression among them, and two file descriptors are never given back.\<close>

theorem local_main_round_trip:
  assumes e: "local_accepting e" "local_accepting e'" and fresh: "comp_fresh w"
    and input: "cw_files w ''input.txt'' = Some content" "content \<noteq> []" "length content \<le> 2 ^ 30"
    and y: "local_yields e DOCA_COMPRESS_DEFLATE_JOB content c chk" "c \<noteq> []"
    and y': "local_yields e' DOCA_DECOMPRESS_DEFLATE_JOB c content chk'"
  shows "\<exists>w'. local_main e e' w = Returns (if chk' = chk then EXIT_SUCCESS else EXIT_FAILURE, w') \<and>
    cw_files w' = (if chk' = chk then (cw_files w)(''input-comp.txt'' \<mapsto> c, ''input-decomp.txt'' \<mapsto> content)
                   else (cw_files w)(''input-comp.txt'' \<mapsto> c)) \<and>
    contexts w' = contexts w \<and> cw_doca_bufs w' = cw_doca_bufs w \<and> cw_open_fds w' = cw_open_fds w + 2 \<and>
    live_blocks w' = live_blocks w \<union> {cw_next w, cw_next w + 1, cw_next w + 2}"
proof -
  define w0 where "w0 = snd (local_init e COMPRESS_DEFLATE_HW (snd (doca e LogBackend w)))"
  have w0: "cw_heap w0 = cw_heap w" "cw_next w0 = cw_next w" "cw_files w0 = cw_files w" "cw_open_fds w0 = cw_open_fds w"
      "cw_doca_bufs w0 = cw_doca_bufs w" "contexts w0 = contexts w + 1"
    using local_init_ok(2)[OF e(1)] by (simp_all add: w0_def contexts_doca) (simp add: doca_def)
  have in0: "cw_files w0 ''input.txt'' = Some content" using input(1) w0(3) by simp
  obtain w1 pad pad' where c1: "local_file_compressor e ''input.txt'' ''input-comp.txt'' COMPRESS_DEFLATE_HW w0 =
      Returns (DOCA_SUCCESS, Some chk, w1)"
    and s1: "local_step w0 ((cw_heap w0)(cw_next w0 \<mapsto> pad, cw_next w0 + 1 \<mapsto> c @ pad')) 2 ((cw_files w0)(''input-comp.txt'' \<mapsto> c)) 1 w1"
    using local_compressor_success[OF e(1) in0 input(2,3) y(1)] by blast
  define w2 where "w2 = snd (local_init e' COMPRESS_DEFLATE_HW (local_cleanup e w1))"
  have w2: "cw_heap w2 = (cw_heap w)(cw_next w \<mapsto> pad, cw_next w + 1 \<mapsto> c @ pad')" "cw_next w2 = cw_next w + 2"
      "cw_files w2 = (cw_files w)(''input-comp.txt'' \<mapsto> c)" "cw_open_fds w2 = cw_open_fds w + 1"
      "cw_doca_bufs w2 = cw_doca_bufs w" "contexts w2 = contexts w + 1"
    using s1 w0 local_init_ok(2)[OF e(2)] local_init_ok(3)[OF e(1)] by (simp_all add: w2_def local_step_def)
  have f2: "comp_fresh w2" using fresh w2(1,2) by (simp add: comp_fresh_def)
  have small: "length c \<le> 2 ^ 30"
    using y(1) local_dst_size_limit[of DOCA_COMPRESS_DEFLATE_JOB "of_nat (length content)"] by (simp add: local_yields_def Let_def)
  have in2: "cw_files w2 ''input-comp.txt'' = Some c" using w2(3) by simp
  obtain w3 pad3 where c3: "local_file_decompressor e' ''input-comp.txt'' ''input-decomp.txt'' chk w2 =
      Returns (if chk' = chk then DOCA_SUCCESS else DOCA_ERROR_BAD_STATE, w3)"
    and s3: "local_step w2 ((cw_heap w2)(cw_next w2 \<mapsto> pad3)) 2
      (if chk' = chk then (cw_files w2)(''input-decomp.txt'' \<mapsto> content) else cw_files w2) 1 w3"
    using local_decompressor_success[OF e(2) in2 y(2) small y' f2] by blast
  have "local_main e e' w = Returns (if chk' = chk then EXIT_SUCCESS else EXIT_FAILURE, local_cleanup e' w3)"
    using local_init_ok[OF e(1)] local_init_ok[OF e(2)] c1 c3
    by (simp add: local_main_def Let_def case_prod_beta w0_def w2_def del: run_bind_Returns)
  moreover have "dom (cw_heap w3) = dom (cw_heap w) \<union> {cw_next w, cw_next w + 1, cw_next w + 2}"
    using s3 w2(1,2) by (auto simp: local_step_def)
  ultimately show ?thesis
    using s3 w2 local_init_ok(3)[OF e(2)] by (intro exI[of _ "local_cleanup e' w3"]) (simp add: local_step_def live_blocks_def)
qed

text \<open>The codec of \<open>Comp_Files\<close>, and one whose second half reports another checksum.\<close>

lemma local_example_accepting:
  "local_accepting comp_example_env" "local_accepting (comp_example_env\<lparr>dv_job := f\<rparr>)"
  using comp_example_accepting
  by (simp_all add: local_accepting_def comp_accepting_def job_accepting_def) (simp_all add: comp_example_env_def)

lemma local_example_yields:
  "local_yields comp_example_env DOCA_COMPRESS_DEFLATE_JOB [72, 105] [1, 72, 105, 1] 2"
  "local_yields comp_example_env DOCA_DECOMPRESS_DEFLATE_JOB [1, 72, 105, 1] [72, 105] 2"
  "local_yields (comp_example_env\<lparr>dv_job := \<lambda>_ _ _. (DOCA_SUCCESS, [72, 105], 3)\<rparr>) DOCA_DECOMPRESS_DEFLATE_JOB [1, 72, 105, 1] [72, 105] 3"
  by (simp_all add: local_yields_def comp_example_env_def example_job_def local_dst_size_def)

theorem local_main_round_trip_witness:
  "(\<exists>w'. local_main comp_example_env comp_example_env comp_example_world = Returns (EXIT_SUCCESS, w') \<and>
      cw_files w' ''input-decomp.txt'' = Some [72, 105] \<and> live_blocks w' = {0, 1, 2}) \<and>
   (\<exists>w'. local_main comp_example_env (comp_example_env\<lparr>dv_job := \<lambda>_ _ _. (DOCA_SUCCESS, [72, 105], 3)\<rparr>) comp_example_world =
      Returns (EXIT_FAILURE, w') \<and> cw_files w' ''input-decomp.txt'' = Some [5, 6, 7])"
proof -
  have f: "cw_files comp_example_world ''input.txt'' = Some [72, 105]" "cw_files comp_example_world ''input-decomp.txt'' = Some [5, 6, 7]"
    "live_blocks comp_example_world = {}" "cw_next comp_example_world = 0"
    by (simp_all add: comp_example_world_def live_blocks_def)
  have n: "[72, 105 :: u8] \<noteq> []" "length [72, 105 :: u8] \<le> 2 ^ 30" "[1, 72, 105, 1 :: u8] \<noteq> []" by simp_all
  note run = local_main_round_trip[OF local_example_accepting(1) _ comp_example_fresh f(1) n(1,2) local_example_yields(1) n(3)]
  obtain w1 where 1: "local_main comp_example_env comp_example_env comp_example_world = Returns (EXIT_SUCCESS, w1)"
    "cw_files w1 = (cw_files comp_example_world)(''input-comp.txt'' \<mapsto> [1, 72, 105, 1], ''input-decomp.txt'' \<mapsto> [72, 105])"
    "live_blocks w1 = live_blocks comp_example_world \<union> {cw_next comp_example_world, cw_next comp_example_world + 1, cw_next comp_example_world + 2}"
    using run[OF local_example_accepting(1) local_example_yields(2), unfolded simp_thms if_True] by blast
  have other: "((3 :: u64) = 2) = False" by simp
  obtain w2 where 2: "local_main comp_example_env (comp_example_env\<lparr>dv_job := \<lambda>_ _ _. (DOCA_SUCCESS, [72, 105], 3)\<rparr>) comp_example_world =
      Returns (EXIT_FAILURE, w2)" "cw_files w2 = (cw_files comp_example_world)(''input-comp.txt'' \<mapsto> [1, 72, 105, 1])"
    using run[OF local_example_accepting(2) local_example_yields(3), unfolded other if_False] by blast
  have "live_blocks w1 = {0, 1, 2}" unfolding 1(3) f(3,4) by auto
  moreover have "cw_files w1 ''input-decomp.txt'' = Some [72, 105]" unfolding 1(2) by simp
  moreover have "cw_files w2 ''input-decomp.txt'' = Some [5, 6, 7]" unfolding 2(2) by (simp add: f(2))
  ultimately show ?thesis using 1(1) 2(1) by blast
qed

end
