(* ===== verification/Spec2Isabelle.thy ===== *)
theory Spec2Isabelle
  imports Raid5f_Alloc Raid_Reset Raid_Interleaving Raid5f_Roundtrip Raid5f_Checked Passthru_Roundtrip Passthru_Create Raid_Channel Raid_Rpc Hello_App Doca_Local
begin

text \<open>
  FlexBSO moves the block storage of virtual machines to a DPU. This development models its C code
  under \<open>src/\<close>: the SPDK raid module with its four levels (\<open>raid/\<close>), the virtual bdev that compresses
  what passes through it and the program and library that compress files with DOCA
  (\<open>bdev-passthru-compress/\<close>, \<open>doca-compression/\<close>), and the program that drives the virtual bdev.

  \<^bold>\<open>How the parts work together.\<close> The SPDK bdev layer calls a virtual bdev through a table of
  functions. A raid bdev (\<open>raid/bdev_raid.c\<close>) owns slots for base bdevs; its configuration is driven by
  RPCs (\<open>raid/bdev_raid_rpc.c\<close>) and by the appearance and disappearance of base bdevs, and its requests
  go to a level module (\<open>raid0.c\<close>, \<open>raid1.c\<close>, \<open>concat.c\<close>, \<open>raid5f.c\<close>), which translates one raid I/O to base
  I/Os and counts their completions. The compressing passthru (\<open>passthru/vbdev_passthru.c\<close>) puts one
  virtual bdev on one base bdev, compresses the data of writes and decompresses that of reads.

  \<^bold>\<open>Conventions.\<close> C integers are words of their width (\<open>u8\<close>, \<open>u32\<close>, \<open>u64\<close>), so that sums wrap where
  the code's do; return codes are \<open>int\<close>, the errnos abbreviations. Structures are records. A function
  that changes state takes the state and returns it with its result. What the code calls outside the
  repository is a parameter: the answers of the bdev layer (functions from a request or the number of a
  call to a return code), allocation, the accel framework, DOCA and zlib, the file system. \<open>assert\<close> is
  compiled out, as in a release build; dereferencing \<open>NULL\<close> or reading out of range is \<open>None\<close>. What a
  theorem needs of a parameter is a named hypothesis (\<open>ioviter_ok\<close>, \<open>allocator_ok\<close>, \<open>comp_yields\<close>,
  \<open>comp_accepting\<close> and others), each met by a concrete function in a witness.

  \<^bold>\<open>Requests of the raid module.\<close>
  \<^item> \<open>Raid_Prelude\<close>: words, errnos, constants of the bdev layer; the collection \<open>word_nat\<close> reads words as numbers.
  \<^item> \<open>Raid_Io\<close>: the records of \<open>raid/bdev_raid.h\<close> and \<open>raid_bdev_io_complete\<close>, \<open>_complete_part\<close>,
    \<open>_queue_io_wait\<close>. A raid I/O logs its base I/Os and completions (\<open>rio_events\<close>).
  \<^item> \<open>Raid_Batch\<close>: the locales \<open>batch_loop\<close>, \<open>resumable_batch\<close>, \<open>failing_batch\<close>: the contract of every loop
    that sends one raid I/O to several base bdevs, is left at \<open>-ENOMEM\<close> and taken up again later. Proved
    once: each job is sent once and in order, the I/O completes once, with failure iff a part failed.
    Interpreted for RESET (\<open>Raid_Reset\<close>), UNMAP and FLUSH of raid0 and concat, the writes of raid1
    and the chunks of a raid5f write.
  \<^item> \<open>Raid_Striping\<close>, \<open>Raid0_Level\<close>: the abstract address map of striping and \<open>raid0.c\<close>, which refines it;
    ranges of UNMAP cover exactly the blocks that the map sends to each base bdev.
  \<^item> \<open>Raid1_Level\<close>, \<open>Concat_Level\<close>: \<open>raid1.c\<close> with its read counters, \<open>concat.c\<close> with its block ranges.
  \<^item> \<open>Raid5f_Geometry\<close>, \<open>Raid5f_Stripe\<close>: the layout and all request functions of \<open>raid5f.c\<close> on the state of
    one channel (stripe requests, free lists, retry queue, parity jobs, memory).
    \<open>Raid5f_Iovecs\<close>: cutting buffers into chunks. \<open>Raid5f_Parity\<close>: the parity computation is the exclusive
    or, however its segments are cut and its jobs ordered. \<open>Raid5f_Write\<close>: a write completes once under
    every answer. \<open>Raid5f_Data\<close>: the contents of its base writes. \<open>Raid5f_Reconstruct\<close>: degraded reads.
    \<open>Raid5f_Checked\<close>: reads that are checked by a second read, and what becomes of refused ones.
    \<open>Raid5f_Roundtrip\<close>: write, loss of a base bdev, read. \<open>Raid5f_Alloc\<close>: channels and their memory; a new
    channel meets the hypotheses of the write and read theorems.
  \<^item> \<open>Raid_Channel\<close>: \<open>raid_bdev_create_cb\<close>, \<open>_destroy_cb\<close>, the dispatch of requests, supported types,
    memory domains; the locale \<open>raid_module_handlers\<close> says when a dispatch is defined, interpreted for
    the four levels.

  \<^bold>\<open>Life of raid bdevs.\<close>
  \<^item> \<open>Raid_Names\<close>: names of levels and states.
  \<^item> \<open>Raid_Config\<close>: the functions of \<open>bdev_raid.c\<close> from creation to destruction on a world of raid bdevs,
    claims, pending callbacks and a log. Asynchronous calls are entries of \<open>w_pending\<close>.
  \<^item> \<open>Raid_Lifecycle\<close>, \<open>Raid_Reach\<close>, \<open>Raid_Interleaving\<close>: \<open>raid_reach\<close> is the transition system of all
    requests and callbacks in any order; its invariant (names unique, counters equal to the occupied slots,
    opens, claims and closes balanced) by rule induction. The locale \<open>raid_module_contract\<close> is what the
    life cycle needs of a level module, interpreted for the four levels. The parameter \<open>serial\<close> excludes
    overlapping removals; without it the theorems show what goes wrong.
  \<^item> \<open>Json_Calls\<close>, \<open>Raid_Rpc\<close>: JSON output as calls with a well-formedness judgement, the four RPC handlers
    and the dumps.

  \<^bold>\<open>Compression.\<close>
  \<^item> \<open>Raid_Buffers\<close>: iovecs as lists of addresses. \<open>Passthru_Data\<close>, \<open>Passthru_Roundtrip\<close>: the data path of the
    passthru; what is written is read, when a result fits and no submission is repeated.
  \<^item> \<open>Passthru_Bdevs\<close>, \<open>Passthru_Reach\<close>, \<open>Passthru_Create\<close>: names, registration, removal and RPCs; the
    invariants of all runs (\<open>pb_reachable\<close>); creation on every branch.
  \<^item> \<open>Comp_Run\<close>, \<open>Comp_Core\<close>, \<open>Comp_Files\<close>: \<open>compression_local_core.c\<close> and \<open>compression_local_main.c\<close> on a
    world with a heap, files and DOCA objects; sizes of destination buffers, polling, resources, and the
    round trip of a file through the program.
  \<^item> \<open>Hello_App\<close>: \<open>hello_world/hello_bdev.c\<close>, which writes a file to a bdev and reads it back: a transition
    system of its submissions and completions (\<open>hello_run\<close>), the phases of a run as its invariant, and the
    two outcomes: the file comes back, or a refused write leaves the program waiting for ever.
  \<^item> \<open>Doca_Local\<close>: the stand-alone program \<open>doca-compression/compression_local.c\<close>, an earlier copy of the same
    code, with its differences.

  \<^bold>\<open>Bounds and fuel.\<close> Loops of the code are structural recursions over lists or slots, so no fuel is
  needed for them. The polling of DOCA's queue (\<open>doca_poll\<close>), which may not end, is a partial function
  into \<open>option\<close>, and \<open>process_job_ends\<close> says exactly when it ends. The recursion of the parity computation
  over its segments decreases the bytes that remain; \<open>raid5f_xor_stripe_correct\<close> includes its end.
  Sizes are bounded where the code's are: at most 255 base bdevs, strips below \<open>2^31\<close> blocks per stripe
  (\<open>raid5f_geometry\<close>), destination buffers up to the limit of DOCA.

  \<^bold>\<open>Not modelled.\<close> Logging and time measurement; the registration macros; the super block, of which the code
  only reserves the space; the DOCA device selection, which only calls the library; build files, benchmark scripts and
  configuration data; \<open>raid/raid5f-spdk.diff\<close>, which repeats \<open>raid5f.c\<close>.
\<close>

end
